(* ===== verification/Rust_Prelude.thy ===== *)
theory Rust_Prelude
  imports Main "HOL-Library.Word" "HOL-Library.Multiset" "HOL-Library.AList" "HOL-Library.Product_Lexorder"
    "HOL-Library.List_Lexorder"
begin

text \<open>
  What the components share: the machine types, Rust's saturating arithmetic, the search and
  removal operations of slices and deques, hash maps as association lists, and the
  first-in-first-out eviction loop that six of the program's registries run.

  Conventions.  A \<^verbatim>\<open>u8\<close>, \<^verbatim>\<open>u16\<close> or \<^verbatim>\<open>u32\<close> is a word of that width.  A \<^verbatim>\<open>u64\<close> or \<^verbatim>\<open>usize\<close>
  counter is a natural number whose only arithmetic is the saturating arithmetic below, so it
  never exceeds \<open>u64_max\<close> (the target is 64-bit, as in the program's release builds); Rust's
  \<^verbatim>\<open>saturating_sub\<close> is the subtraction of natural numbers.  A \<^verbatim>\<open>u64\<close> that is hashed or mixed
  bitwise is a 64-bit word.  Offsets into a byte slice are natural numbers added without
  saturation where the code writes \<^verbatim>\<open>+\<close>: a Rust slice has at most \<open>2 ^ 63 - 1\<close> bytes, so those
  sums do not overflow.

  A hash map (\<^verbatim>\<open>AHashMap\<close>, third-party) is an association list with distinct keys.  The list
  order stands for the map's unspecified iteration order; no theorem assumes anything about it.
\<close>

unbundle bit_operations_syntax

named_theorems sat_simps \<open>saturating arithmetic\<close>
named_theorems tbl_simps \<open>hash maps as association lists\<close>

subsection \<open>Machine types and saturating arithmetic\<close>

type_synonym u8 = "8 word"
type_synonym u16 = "16 word"
type_synonym u32 = "32 word"
type_synonym u64w = "64 word"
type_synonym bytes = "8 word list"

definition u64_max :: nat where
  "u64_max = 18446744073709551615"

definition sat_add :: "nat \<Rightarrow> nat \<Rightarrow> nat" where
  "sat_add a b = min (a + b) u64_max"

definition sat_mul :: "nat \<Rightarrow> nat \<Rightarrow> nat" where
  "sat_mul a b = min (a * b) u64_max"

lemma sat_add_exact [sat_simps]: "a + b \<le> u64_max \<Longrightarrow> sat_add a b = a + b"
  by (simp add: sat_add_def)

lemma sat_add_le_max [simp]: "sat_add a b \<le> u64_max"
  by (simp add: sat_add_def)

lemma sat_add_le_sum: "sat_add a b \<le> a + b"
  by (simp add: sat_add_def)

lemma sat_add_mono: "a \<le> a' \<Longrightarrow> b \<le> b' \<Longrightarrow> sat_add a b \<le> sat_add a' b'"
  unfolding sat_add_def by linarith

lemma sat_add_zero [simp]: "a \<le> u64_max \<Longrightarrow> sat_add a 0 = a"
  by (simp add: sat_add_def)

lemma sat_add_grows: "a \<le> u64_max \<Longrightarrow> a \<le> sat_add a b"
  by (simp add: sat_add_def)

lemma sat_mul_le_max [simp]: "sat_mul a b \<le> u64_max"
  by (simp add: sat_mul_def)

subsection \<open>Slices and deques\<close>

text \<open>\<^verbatim>\<open>iter().position(p)\<close>: the index of the first element that satisfies \<open>p\<close>.\<close>

fun position :: "('a \<Rightarrow> bool) \<Rightarrow> 'a list \<Rightarrow> nat option" where
  "position p [] = None"
| "position p (x # xs) = (if p x then Some 0 else map_option Suc (position p xs))"

lemma position_None_iff: "position p xs = None \<longleftrightarrow> (\<forall>x \<in> set xs. \<not> p x)"
  by (induction xs) auto

lemma position_SomeD:
  "position p xs = Some i \<Longrightarrow> i < length xs \<and> p (xs ! i) \<and> (\<forall>j < i. \<not> p (xs ! j))"
proof (induction xs arbitrary: i)
  case Nil
  then show ?case by simp
next
  case (Cons x xs)
  then show ?case
    by (auto split: if_splits simp: nth_Cons split: nat.splits)
qed

text \<open>\<^verbatim>\<open>Vec::remove\<close> and \<^verbatim>\<open>VecDeque::remove\<close> at an index in range.\<close>

definition remove_at :: "nat \<Rightarrow> 'a list \<Rightarrow> 'a list" where
  "remove_at i xs = take i xs @ drop (Suc i) xs"

definition insert_at :: "nat \<Rightarrow> 'a \<Rightarrow> 'a list \<Rightarrow> 'a list" where
  "insert_at i x xs = take i xs @ x # drop i xs"

lemma length_remove_at [simp]: "i < length xs \<Longrightarrow> length (remove_at i xs) = length xs - 1"
  by (simp add: remove_at_def)

lemma split_remove_at: "i < length xs \<Longrightarrow> mset xs = add_mset (xs ! i) (mset (remove_at i xs))"
  by (metis add_mset_add_single id_take_nth_drop mset.simps(2) mset_append remove_at_def
      union_mset_add_mset_right)

lemma set_remove_at_subset: "set (remove_at i xs) \<subseteq> set xs"
  by (auto simp: remove_at_def dest: in_set_takeD in_set_dropD)

lemma mset_insert_at [simp]: "mset (insert_at i x xs) = add_mset x (mset xs)"
  by (metis add_mset_add_single append_take_drop_id insert_at_def mset.simps(2) mset_append
      union_mset_add_mset_right)

lemma set_insert_at [simp]: "set (insert_at i x xs) = insert x (set xs)"
  using mset_insert_at by (metis set_mset_add_mset_insert set_mset_mset)

lemma length_insert_at [simp]: "length (insert_at i x xs) = Suc (length xs)"
  by (simp add: insert_at_def)

lemma sum_list_remove_at:
  "i < length xs \<Longrightarrow>
    sum_list (map f xs) = f (xs ! i) + (sum_list (map f (remove_at i xs)) :: nat)"
  by (metis image_mset_add_mset mset_map split_remove_at sum_mset.add_mset sum_mset_sum_list)

lemma sum_list_insert_at:
  "sum_list (map f (insert_at i x xs)) = f x + (sum_list (map f xs) :: nat)"
  by (metis image_mset_add_mset mset_insert_at mset_map sum_mset.add_mset sum_mset_sum_list)

text \<open>
  \<^verbatim>\<open>Iterator::min_by_key\<close> returns the first of several minimal elements,
  \<^verbatim>\<open>Iterator::max_by_key\<close> the last of several maximal ones.
\<close>

definition min_by_key :: "('a \<Rightarrow> 'b::linorder) \<Rightarrow> 'a list \<Rightarrow> 'a option" where
  "min_by_key f xs = (case xs of [] \<Rightarrow> None
     | y # ys \<Rightarrow> Some (foldl (\<lambda>m z. if f z < f m then z else m) y ys))"

definition max_by_key :: "('a \<Rightarrow> 'b::linorder) \<Rightarrow> 'a list \<Rightarrow> 'a option" where
  "max_by_key f xs = (case xs of [] \<Rightarrow> None
     | y # ys \<Rightarrow> Some (foldl (\<lambda>m z. if f z < f m then m else z) y ys))"

lemma min_by_key_None [simp]: "min_by_key f xs = None \<longleftrightarrow> xs = []"
  by (simp add: min_by_key_def split: list.splits)

lemma max_by_key_None [simp]: "max_by_key f xs = None \<longleftrightarrow> xs = []"
  by (simp add: max_by_key_def split: list.splits)

lemma foldl_min_in:
  "foldl (\<lambda>m z. if f z < f m then z else m) y ys \<in> insert y (set ys)
   \<and> (\<forall>z \<in> insert y (set ys). f (foldl (\<lambda>m z. if f z < f m then z else m) y ys) \<le> f z)"
  for f :: "'a \<Rightarrow> 'b::linorder"
proof (induction ys arbitrary: y)
  case Nil
  then show ?case by simp
next
  case (Cons z zs)
  show ?case
    using Cons.IH[of z] Cons.IH[of y] by (cases "f z < f y") (auto intro: order.trans)
qed

lemma foldl_max_in:
  "foldl (\<lambda>m z. if f z < f m then m else z) y ys \<in> insert y (set ys)
   \<and> (\<forall>z \<in> insert y (set ys). f z \<le> f (foldl (\<lambda>m z. if f z < f m then m else z) y ys))"
  for f :: "'a \<Rightarrow> 'b::linorder"
proof (induction ys arbitrary: y)
  case Nil
  then show ?case by simp
next
  case (Cons z zs)
  show ?case
    using Cons.IH[of z] Cons.IH[of y] by (cases "f z < f y") (auto intro: order.trans)
qed

lemma min_by_key_SomeD:
  "min_by_key f xs = Some x \<Longrightarrow> x \<in> set xs \<and> (\<forall>y \<in> set xs. f x \<le> f y)"
  using foldl_min_in[of f "hd xs" "tl xs"] by (cases xs) (auto simp: min_by_key_def)

lemma max_by_key_SomeD:
  "max_by_key f xs = Some x \<Longrightarrow> x \<in> set xs \<and> (\<forall>y \<in> set xs. f y \<le> f x)"
  using foldl_max_in[of f "hd xs" "tl xs"] by (cases xs) (auto simp: max_by_key_def)

text \<open>\<^verbatim>\<open>slice.get(i)\<close>.\<close>

definition get_at :: "'a list \<Rightarrow> nat \<Rightarrow> 'a option" where
  "get_at xs i = (if i < length xs then Some (xs ! i) else None)"

text \<open>\<^verbatim>\<open>slice.get(i..j)\<close>.\<close>

definition get_range :: "'a list \<Rightarrow> nat \<Rightarrow> nat \<Rightarrow> 'a list option" where
  "get_range xs i j = (if i \<le> j \<and> j \<le> length xs then Some (take (j - i) (drop i xs)) else None)"

lemma get_range_SomeD:
  "get_range xs i j = Some ys \<Longrightarrow> ys = take (j - i) (drop i xs) \<and> length ys = j - i \<and> j \<le> length xs"
  by (auto simp: get_range_def split: if_splits)

text \<open>The operator \<^verbatim>\<open>?\<close> on a \<^verbatim>\<open>Result\<close>, which is a sum with the error on the left.\<close>

definition try_bind :: "'e + 'a \<Rightarrow> ('a \<Rightarrow> 'e + 'b) \<Rightarrow> 'e + 'b" where
  "try_bind r f = (case r of Inl e \<Rightarrow> Inl e | Inr a \<Rightarrow> f a)"

lemma try_bind_simps [simp]: "try_bind (Inl e) f = Inl e" "try_bind (Inr a) f = f a"
  by (simp_all add: try_bind_def)

lemma try_bind_eq_Inr: "try_bind r f = Inr b \<longleftrightarrow> (\<exists>a. r = Inr a \<and> f a = Inr b)"
  by (cases r) simp_all

lemma try_bind_eq_Inl: "try_bind r f = Inl e \<longleftrightarrow> r = Inl e \<or> (\<exists>a. r = Inr a \<and> f a = Inl e)"
  by (cases r) auto

definition ok_or :: "'e \<Rightarrow> 'a option \<Rightarrow> 'e + 'a" where
  "ok_or e r = (case r of None \<Rightarrow> Inl e | Some a \<Rightarrow> Inr a)"

lemma ok_or_simps [simp]: "ok_or e None = Inl e" "ok_or e (Some a) = Inr a"
  by (simp_all add: ok_or_def)

lemma ok_or_eq_Inr: "ok_or e r = Inr a \<longleftrightarrow> r = Some a"
  by (cases r) simp_all

lemma ok_or_eq_Inl: "ok_or e r = Inl e' \<longleftrightarrow> r = None \<and> e' = e"
  by (cases r) auto

text \<open>\<^verbatim>\<open>u16::from_be_bytes\<close>.\<close>

definition u16_be :: "u8 \<Rightarrow> u8 \<Rightarrow> u16" where
  "u16_be hi lo = push_bit 8 (ucast hi) OR ucast lo"

lemma sum_list_filter_split:
  "sum_list (map f (filter P xs)) + sum_list (map f (filter (\<lambda>x. \<not> P x) xs))
    = (sum_list (map f xs) :: nat)"
  by (induction xs) auto

subsection \<open>Hash maps\<close>

definition tbl_ok :: "('k \<times> 'v) list \<Rightarrow> bool" where
  "tbl_ok m \<longleftrightarrow> distinct (map fst m)"

lemma tbl_ok_Nil [simp]: "tbl_ok []"
  by (simp add: tbl_ok_def)

lemma tbl_ok_update [tbl_simps, simp]: "tbl_ok m \<Longrightarrow> tbl_ok (AList.update k v m)"
  by (simp add: tbl_ok_def distinct_update)

lemma tbl_ok_delete [tbl_simps, simp]: "tbl_ok m \<Longrightarrow> tbl_ok (AList.delete k m)"
  by (simp add: tbl_ok_def distinct_delete)

lemma tbl_ok_filter [tbl_simps, simp]: "tbl_ok m \<Longrightarrow> tbl_ok (filter P m)"
  by (simp add: tbl_ok_def distinct_map_filter)

lemma tbl_keys_update [tbl_simps]: "fst ` set (AList.update k v m) = insert k (fst ` set m)"
  by (simp add: dom_update)

lemma tbl_keys_delete [tbl_simps]: "fst ` set (AList.delete k m) = fst ` set m - {k}"
  by (metis delete_keys list.set_map set_removeAll)

lemma tbl_map_of_iff [tbl_simps]: "tbl_ok m \<Longrightarrow> map_of m k = Some v \<longleftrightarrow> (k, v) \<in> set m"
  by (simp add: tbl_ok_def)

lemma tbl_in_keysD: "k \<in> fst ` set m \<Longrightarrow> \<exists>v. map_of m k = Some v"
  by (metis domD dom_map_of_conv_image_fst)

lemma tbl_None_iff: "map_of m k = None \<longleftrightarrow> k \<notin> fst ` set m"
  by (simp add: map_of_eq_None_iff)

lemma update_fresh: "k \<notin> fst ` set m \<Longrightarrow> AList.update k v m = m @ [(k, v)]"
  by (induction m) auto

lemma length_update_fresh: "map_of m k = None \<Longrightarrow> length (AList.update k v m) = Suc (length m)"
  by (simp add: tbl_None_iff update_fresh)

lemma tbl_update_all:
  "(\<forall>(k, s) \<in> set m. P k s) \<Longrightarrow> P key v \<Longrightarrow> (\<forall>(k, s) \<in> set (AList.update key v m). P k s)"
proof (induction m)
  case (Cons p m)
  then show ?case by (cases p) auto
qed simp

lemma length_update_present:
  "map_of m k \<noteq> None \<Longrightarrow> length (AList.update k v m) = length m"
  by (induction m) auto

lemma length_delete_present:
  "tbl_ok m \<Longrightarrow> k \<in> fst ` set m \<Longrightarrow> Suc (length (AList.delete k m)) = length m"
proof (induction m)
  case (Cons p m)
  then show ?case
    by (cases p) (force simp: tbl_ok_def)
qed simp

lemma length_delete_less:
  "k \<in> fst ` set m \<Longrightarrow> length (AList.delete k m) < length m"
proof (induction m)
  case (Cons p m)
  then show ?case
    using length_delete_le[of k m] by (cases p) (fastforce simp: less_Suc_eq_le intro!: Suc_leI)
qed simp

text \<open>Sums over the values of a table, under the two updates.\<close>

definition tbl_sum :: "('v \<Rightarrow> nat) \<Rightarrow> ('k \<times> 'v) list \<Rightarrow> nat" where
  "tbl_sum f m = sum_list (map (f \<circ> snd) m)"

lemma tbl_sum_Nil [simp]: "tbl_sum f [] = 0"
  by (simp add: tbl_sum_def)

lemma tbl_sum_update_present:
  "tbl_ok m \<Longrightarrow> map_of m k = Some v \<Longrightarrow> tbl_sum f (AList.update k w m) + f v = tbl_sum f m + f w"
proof (induction m)
  case (Cons p m)
  then show ?case
    by (cases p) (auto simp: tbl_sum_def tbl_ok_def split: if_splits)
qed simp

lemma tbl_sum_update_fresh:
  "map_of m k = None \<Longrightarrow> tbl_sum f (AList.update k w m) = tbl_sum f m + f w"
  by (simp add: tbl_None_iff update_fresh tbl_sum_def)

lemma tbl_sum_delete:
  "tbl_ok m \<Longrightarrow> map_of m k = Some v \<Longrightarrow> tbl_sum f (AList.delete k m) + f v = tbl_sum f m"
proof (induction m)
  case (Cons p m)
  then show ?case
    by (cases p) (auto simp: tbl_sum_def tbl_ok_def split: if_splits)
qed simp

lemma tbl_sum_filter_split:
  "tbl_sum f (filter P m) + tbl_sum f (filter (\<lambda>x. \<not> P x) m) = tbl_sum f m"
  by (simp add: tbl_sum_def sum_list_filter_split)

lemma tbl_sum_ge: "map_of m k = Some v \<Longrightarrow> f v \<le> tbl_sum f m"
proof (induction m)
  case (Cons p m)
  then show ?case
    by (cases p) (fastforce simp: tbl_sum_def split: if_splits)
qed simp

lemma map_of_filter_tbl:
  "tbl_ok m \<Longrightarrow>
    map_of (filter P m) k = (case map_of m k of None \<Rightarrow> None | Some v \<Rightarrow> if P (k, v) then Some v else None)"
proof (induction m)
  case (Cons p m)
  then show ?case
    by (cases p) (auto simp: tbl_ok_def map_of_eq_None_iff split: option.splits if_splits)
qed simp

subsection \<open>First-in-first-out eviction\<close>

text \<open>
  The loop \<^verbatim>\<open>while map.len() >= max { let Some(k) = order.pop_front() else break; map.remove(&k); ... }\<close>
  of the flow-owner table, the tracked route loads, the message store and the four parser
  registries.  They differ in what an eviction counts, which is the argument \<open>bump\<close>: it gets
  the removed value, if there was one, and the counter.
\<close>

fun fifo_evict ::
  "('v option \<Rightarrow> nat \<Rightarrow> nat) \<Rightarrow> nat \<Rightarrow> ('k \<times> 'v) list \<Rightarrow> 'k list \<Rightarrow> nat \<Rightarrow> ('k \<times> 'v) list \<times> 'k list \<times> nat"
where
  "fifo_evict bump mx m [] e = (m, [], e)"
| "fifo_evict bump mx m (k # q) e =
     (if length m < mx then (m, k # q, e)
      else fifo_evict bump mx (AList.delete k m) q (bump (map_of m k) e))"

text \<open>The deque lists the keys of the map, each once.\<close>

definition fifo_ok :: "('k \<times> 'v) list \<Rightarrow> 'k list \<Rightarrow> bool" where
  "fifo_ok m q \<longleftrightarrow> tbl_ok m \<and> distinct q \<and> set q = fst ` set m"

lemma fifo_ok_Nil [simp]: "fifo_ok [] []"
  by (simp add: fifo_ok_def)

lemma fifo_ok_update: "fifo_ok m q \<Longrightarrow> k \<in> set q \<Longrightarrow> fifo_ok (AList.update k v m) q"
  by (auto simp: fifo_ok_def tbl_simps)

lemma fifo_ok_insert:
  "fifo_ok m q \<Longrightarrow> map_of m k = None \<Longrightarrow> fifo_ok (AList.update k v m) (q @ [k])"
  by (auto simp: fifo_ok_def tbl_simps tbl_None_iff)

lemma fifo_ok_pop: "fifo_ok m (k # q) \<Longrightarrow> fifo_ok (AList.delete k m) q"
  by (auto simp: fifo_ok_def tbl_simps)

lemma fifo_ok_length: "fifo_ok m q \<Longrightarrow> length q = length m"
  by (metis distinct_card fifo_ok_def length_map list.set_map tbl_ok_def)

lemma fifo_evict_ok:
  "fifo_ok m q \<Longrightarrow> fifo_evict bump mx m q e = (m', q', e') \<Longrightarrow> fifo_ok m' q'"
  by (induction bump mx m q e rule: fifo_evict.induct) (auto dest: fifo_ok_pop split: if_splits)

lemma fifo_evict_subset:
  "fifo_evict bump mx m q e = (m', q', e') \<Longrightarrow> fst ` set m' \<subseteq> fst ` set m"
proof (induction bump mx m q e rule: fifo_evict.induct)
  case (2 bump mx m k q e)
  then show ?case
    using tbl_keys_delete[of k m] by (cases "length m < mx") auto
qed simp

lemma fifo_evict_lookup:
  "fifo_ok m q \<Longrightarrow> fifo_evict bump mx m q e = (m', q', e') \<Longrightarrow> k \<in> fst ` set m' \<Longrightarrow>
    map_of m' k = map_of m k"
proof (induction bump mx m q e rule: fifo_evict.induct)
  case (2 bump mx m j q e)
  show ?case
  proof (cases "length m < mx")
    case False
    then have ev: "fifo_evict bump mx (AList.delete j m) q (bump (map_of m j) e) = (m', q', e')"
      using "2.prems"(2) by simp
    with False "2.IH" fifo_ok_pop[OF "2.prems"(1)] "2.prems"(3)
    have "map_of m' k = map_of (AList.delete j m) k" by blast
    moreover have "k \<noteq> j"
      using fifo_evict_subset[OF ev] "2.prems"(3) by (auto simp: tbl_simps)
    ultimately show ?thesis by simp
  qed (use "2.prems" in simp)
qed simp

lemma fifo_evict_set:
  "fifo_evict bump mx m q e = (m', q', e') \<Longrightarrow> set m' \<subseteq> set m"
proof (induction bump mx m q e rule: fifo_evict.induct)
  case (2 bump mx m k q e)
  moreover have "set (AList.delete k m) \<subseteq> set m" by (auto simp: AList.delete_eq)
  ultimately show ?case by (auto split: if_splits)
qed simp

text \<open>With room for at least one entry the loop always makes room.\<close>

lemma fifo_evict_room:
  "0 < mx \<Longrightarrow> fifo_ok m q \<Longrightarrow> fifo_evict bump mx m q e = (m', q', e') \<Longrightarrow> length m' < mx"
proof (induction bump mx m q e rule: fifo_evict.induct)
  case (1 bump mx m e)
  then show ?case by (auto simp: fifo_ok_def)
next
  case (2 bump mx m k q e)
  then show ?case by (auto dest: fifo_ok_pop split: if_splits)
qed

lemma fifo_evict_idle: "length m < mx \<Longrightarrow> fifo_evict bump mx m q e = (m, q, e)"
  by (cases q) auto

end
