(* ===== verification/Packet.thy ===== *)
theory Packet
  imports Rust_Prelude
begin

text \<open>
  Packet decoding: \<^verbatim>\<open>src/src/packet/mod.rs\<close>.

  Modelled: link layers, decode statuses and their counters, TCP segment arithmetic, the
  decoding front end and the program's own scan of raw bytes for IP fragments.  The packet slicer
  itself is the third-party crate \<^verbatim>\<open>etherparse\<close>; it is the parameter \<open>slicer\<close> of the
  definitions that call it, a record of its three entry points, each returning an error message
  or the slices the program reads (\<open>sliced_packet\<close>).
\<close>

subsection \<open>Addresses, link layers and statuses\<close>

text \<open>\<^verbatim>\<open>std::net::IpAddr\<close>, by its octets.  Its derived order puts \<^verbatim>\<open>V4\<close> before \<^verbatim>\<open>V6\<close> and compares
  octets lexicographically.\<close>

datatype ip_addr = V4 bytes | V6 bytes

instantiation ip_addr :: linorder
begin

definition less_eq_ip_addr :: "ip_addr \<Rightarrow> ip_addr \<Rightarrow> bool" where
  "less_eq_ip_addr a b = (case (a, b) of
     (V4 x, V4 y) \<Rightarrow> x \<le> y
   | (V4 _, V6 _) \<Rightarrow> True
   | (V6 _, V4 _) \<Rightarrow> False
   | (V6 x, V6 y) \<Rightarrow> x \<le> y)"

definition less_ip_addr :: "ip_addr \<Rightarrow> ip_addr \<Rightarrow> bool" where
  "less_ip_addr a b = (a \<le> b \<and> \<not> b \<le> (a :: ip_addr))"

instance
proof
  fix x y z :: ip_addr
  show "x < y \<longleftrightarrow> x \<le> y \<and> \<not> y \<le> x" by (simp add: less_ip_addr_def)
  show "x \<le> x" by (simp add: less_eq_ip_addr_def split: ip_addr.splits)
  show "x \<le> y \<Longrightarrow> y \<le> z \<Longrightarrow> x \<le> z"
    by (auto simp: less_eq_ip_addr_def split: ip_addr.splits)
  show "x \<le> y \<Longrightarrow> y \<le> x \<Longrightarrow> x = y"
    by (auto simp: less_eq_ip_addr_def split: ip_addr.splits)
  show "x \<le> y \<or> y \<le> x"
    by (auto simp: less_eq_ip_addr_def split: ip_addr.splits)
qed

end

record packet_timestamp =
  ts_sec :: nat
  ts_usec :: nat

datatype link_layer = Ethernet | LinuxSll | RawIp | BsdLoopback | UnsupportedLayer

record raw_packet =
  rp_timestamp :: packet_timestamp
  rp_link_layer :: link_layer
  rp_linktype :: int
  rp_data :: bytes

text \<open>The link type numbers are constants of the \<^verbatim>\<open>pcap\<close> crate.\<close>

record linktype_consts =
  lt_ethernet :: int
  lt_linux_sll :: int
  lt_raw :: int
  lt_ipv4 :: int
  lt_ipv6 :: int
  lt_null :: int
  lt_loop :: int

definition from_pcap :: "linktype_consts \<Rightarrow> int \<Rightarrow> link_layer" where
  "from_pcap c t =
     (if t = lt_ethernet c then Ethernet
      else if t = lt_linux_sll c then LinuxSll
      else if t = lt_raw c \<or> t = lt_ipv4 c \<or> t = lt_ipv6 c then RawIp
      else if t = lt_null c \<or> t = lt_loop c then BsdLoopback
      else UnsupportedLayer)"

fun link_layer_as_str :: "link_layer \<Rightarrow> string" where
  "link_layer_as_str Ethernet = ''ethernet''"
| "link_layer_as_str LinuxSll = ''linux_sll''"
| "link_layer_as_str RawIp = ''raw_ip''"
| "link_layer_as_str BsdLoopback = ''bsd_loopback''"
| "link_layer_as_str UnsupportedLayer = ''unsupported''"

datatype decode_status =
  Parsed | NonIp | Fragmented | UnsupportedTransport | Malformed | UnsupportedLink

fun is_decode_error :: "decode_status \<Rightarrow> bool" where
  "is_decode_error Malformed = True"
| "is_decode_error UnsupportedLink = True"
| "is_decode_error _ = False"

subsection \<open>Decode counters\<close>

record decode_counters =
  dc_parsed :: nat
  dc_non_ip :: nat
  dc_fragmented :: nat
  dc_unsupported_transport :: nat
  dc_malformed :: nat
  dc_unsupported_link :: nat

definition counters_default :: decode_counters where
  "counters_default = \<lparr>dc_parsed = 0, dc_non_ip = 0, dc_fragmented = 0,
     dc_unsupported_transport = 0, dc_malformed = 0, dc_unsupported_link = 0\<rparr>"

fun counters_observe :: "decode_counters \<Rightarrow> decode_status \<Rightarrow> decode_counters" where
  "counters_observe c Parsed = c\<lparr>dc_parsed := sat_add (dc_parsed c) 1\<rparr>"
| "counters_observe c NonIp = c\<lparr>dc_non_ip := sat_add (dc_non_ip c) 1\<rparr>"
| "counters_observe c Fragmented = c\<lparr>dc_fragmented := sat_add (dc_fragmented c) 1\<rparr>"
| "counters_observe c UnsupportedTransport =
     c\<lparr>dc_unsupported_transport := sat_add (dc_unsupported_transport c) 1\<rparr>"
| "counters_observe c Malformed = c\<lparr>dc_malformed := sat_add (dc_malformed c) 1\<rparr>"
| "counters_observe c UnsupportedLink =
     c\<lparr>dc_unsupported_link := sat_add (dc_unsupported_link c) 1\<rparr>"

definition counters_add :: "decode_counters \<Rightarrow> decode_counters \<Rightarrow> decode_counters" where
  "counters_add c d = \<lparr>
     dc_parsed = sat_add (dc_parsed c) (dc_parsed d),
     dc_non_ip = sat_add (dc_non_ip c) (dc_non_ip d),
     dc_fragmented = sat_add (dc_fragmented c) (dc_fragmented d),
     dc_unsupported_transport = sat_add (dc_unsupported_transport c) (dc_unsupported_transport d),
     dc_malformed = sat_add (dc_malformed c) (dc_malformed d),
     dc_unsupported_link = sat_add (dc_unsupported_link c) (dc_unsupported_link d)\<rparr>"

definition decode_error_packets :: "decode_counters \<Rightarrow> nat" where
  "decode_error_packets c = sat_add (dc_malformed c) (dc_unsupported_link c)"

text \<open>The counter a status selects, for stating what the counters mean.\<close>

fun counter_of :: "decode_status \<Rightarrow> decode_counters \<Rightarrow> nat" where
  "counter_of Parsed = dc_parsed"
| "counter_of NonIp = dc_non_ip"
| "counter_of Fragmented = dc_fragmented"
| "counter_of UnsupportedTransport = dc_unsupported_transport"
| "counter_of Malformed = dc_malformed"
| "counter_of UnsupportedLink = dc_unsupported_link"

lemma counter_of_observe:
  "counter_of s (counters_observe c t)
    = (if s = t then sat_add (counter_of s c) 1 else counter_of s c)"
  by (cases s; cases t) simp_all

lemma counter_of_default [simp]: "counter_of s counters_default = 0"
  by (cases s) (simp_all add: counters_default_def)

lemma counter_of_add: "counter_of s (counters_add c d) = sat_add (counter_of s c) (counter_of s d)"
  by (cases s) (simp_all add: counters_add_def)

lemma counters_eqI: "(\<And>s. counter_of s c = counter_of s d) \<Longrightarrow> c = (d :: decode_counters)"
  by (metis (full_types) counter_of.simps decode_counters.equality old.unit.exhaust)

lemma counter_of_foldl:
  "counter_of s (foldl counters_observe c sts)
    = (if sts = [] then counter_of s c
       else if count_list sts s = 0 then counter_of s c
       else min (counter_of s c + count_list sts s) u64_max)"
  by (induction sts arbitrary: c) (auto simp: counter_of_observe sat_add_def)

text \<open>
  After any sequence of decoded packets every counter holds exactly the number of packets of
  its own status, up to the saturation bound of \<^verbatim>\<open>u64\<close>.
\<close>

theorem counters_count_statuses:
  "counter_of s (foldl counters_observe counters_default sts) = min (count_list sts s) u64_max"
  by (simp add: counter_of_foldl)

text \<open>
  Merging the counters of two workers with \<^verbatim>\<open>add\<close> gives the counters one worker would hold
  had it decoded both packet sequences, saturation included.
\<close>

theorem counters_add_merges_workers:
  "counters_add (foldl counters_observe counters_default xs) (foldl counters_observe counters_default ys)
    = foldl counters_observe counters_default (xs @ ys)"
proof (rule counters_eqI)
  fix s
  show "counter_of s (counters_add (foldl counters_observe counters_default xs)
          (foldl counters_observe counters_default ys))
        = counter_of s (foldl counters_observe counters_default (xs @ ys))"
    by (auto simp: counter_of_add counter_of_foldl sat_add_def simp del: foldl_append)
qed

subsection \<open>TCP segments and transport payloads\<close>

datatype transport_protocol = Tcp | Udp | Icmpv4 | Icmpv6

record tcp_flags =
  fl_fin :: bool
  fl_syn :: bool
  fl_rst :: bool
  fl_psh :: bool
  fl_ack :: bool
  fl_urg :: bool
  fl_ece :: bool
  fl_cwr :: bool

record tcp_segment =
  seg_seq :: u32
  seg_ack_number :: u32
  seg_flags :: tcp_flags
  seg_window :: u16
  seg_payload_len :: nat

text \<open>\<^verbatim>\<open>u32::saturating_add\<close> and \<^verbatim>\<open>u32::from(bool)\<close>.\<close>

definition u32_sat_add :: "u32 \<Rightarrow> u32 \<Rightarrow> u32" where
  "u32_sat_add a b = of_nat (min (unat a + unat b) (2 ^ 32 - 1))"

definition u32_of_bool :: "bool \<Rightarrow> u32" where
  "u32_of_bool b = (if b then 1 else 0)"

definition sequence_span :: "tcp_segment \<Rightarrow> u32" where
  "sequence_span t = u32_sat_add
     (u32_sat_add (of_nat (seg_payload_len t)) (u32_of_bool (fl_syn (seg_flags t))))
     (u32_of_bool (fl_fin (seg_flags t)))"

definition payload_sequence_start :: "tcp_segment \<Rightarrow> u32" where
  "payload_sequence_start t = seg_seq t + u32_of_bool (fl_syn (seg_flags t))"

definition payload_sequence_end :: "tcp_segment \<Rightarrow> u32" where
  "payload_sequence_end t = payload_sequence_start t + of_nat (seg_payload_len t)"

text \<open>The slices of \<^verbatim>\<open>etherparse\<close>, reduced to the accessors the program calls.\<close>

datatype net_slice = NetIpv4 bytes bytes | NetIpv6 bytes bytes | NetOther

record tcp_slice =
  tsl_source_port :: u16
  tsl_destination_port :: u16
  tsl_seq :: u32
  tsl_ack_number :: u32
  tsl_flags :: tcp_flags
  tsl_window :: u16
  tsl_payload :: bytes

datatype transport_slice =
    SliceTcp tcp_slice
  | SliceUdp u16 u16 bytes
  | SliceIcmpv4 bytes
  | SliceIcmpv6 bytes

record sliced_packet =
  sp_net :: "net_slice option"
  sp_transport :: "transport_slice option"

record slicer =
  from_ethernet :: "bytes \<Rightarrow> string + sliced_packet"
  from_linux_sll :: "bytes \<Rightarrow> string + sliced_packet"
  from_ip :: "bytes \<Rightarrow> string + sliced_packet"

record transport_payload =
  tp_protocol :: transport_protocol
  tp_source_port :: "u16 option"
  tp_destination_port :: "u16 option"
  tp_bytes :: bytes
  tp_tcp :: "tcp_segment option"

datatype packet_decode_error = DecodeError string | UnsupportedLinkLayer

record decoded_packet =
  dp_timestamp :: packet_timestamp
  dp_link_layer :: link_layer
  dp_linktype :: int
  dp_raw :: bytes
  dp_parsed :: "sliced_packet option"
  dp_decode_error :: "packet_decode_error option"

subsection \<open>Decoding\<close>

fun decode_result ::
  "string + sliced_packet \<Rightarrow> sliced_packet option \<times> packet_decode_error option" where
  "decode_result (Inr packet) = (Some packet, None)"
| "decode_result (Inl err) = (None, Some (DecodeError err))"

definition decode_bsd_loopback ::
  "slicer \<Rightarrow> bytes \<Rightarrow> sliced_packet option \<times> packet_decode_error option" where
  "decode_bsd_loopback S data =
     (if length data < 4 then (None, Some (DecodeError ''bsd loopback frame too short''))
      else decode_result (from_ip S (drop 4 data)))"

definition from_raw :: "slicer \<Rightarrow> raw_packet \<Rightarrow> decoded_packet" where
  "from_raw S p =
     (let (parsed, err) = (case rp_link_layer p of
         Ethernet \<Rightarrow> decode_result (from_ethernet S (rp_data p))
       | LinuxSll \<Rightarrow> decode_result (from_linux_sll S (rp_data p))
       | RawIp \<Rightarrow> decode_result (from_ip S (rp_data p))
       | BsdLoopback \<Rightarrow> decode_bsd_loopback S (rp_data p)
       | UnsupportedLayer \<Rightarrow> (None, Some UnsupportedLinkLayer))
      in \<lparr>dp_timestamp = rp_timestamp p, dp_link_layer = rp_link_layer p,
          dp_linktype = rp_linktype p, dp_raw = rp_data p, dp_parsed = parsed,
          dp_decode_error = err\<rparr>)"

definition decode_error :: "decoded_packet \<Rightarrow> string option" where
  "decode_error p = (case dp_decode_error p of
     None \<Rightarrow> None
   | Some (DecodeError err) \<Rightarrow> Some err
   | Some UnsupportedLinkLayer \<Rightarrow> Some ''unsupported link layer'')"

definition ip_addresses :: "decoded_packet \<Rightarrow> ip_addr option \<times> ip_addr option" where
  "ip_addresses p = (case dp_parsed p of
     None \<Rightarrow> (None, None)
   | Some packet \<Rightarrow> (case sp_net packet of
       Some (NetIpv4 src dst) \<Rightarrow> (Some (V4 src), Some (V4 dst))
     | Some (NetIpv6 src dst) \<Rightarrow> (Some (V6 src), Some (V6 dst))
     | _ \<Rightarrow> (None, None)))"

definition transport_payload_of :: "decoded_packet \<Rightarrow> transport_payload option" where
  "transport_payload_of p = (case dp_parsed p of
     None \<Rightarrow> None
   | Some packet \<Rightarrow> (case sp_transport packet of
       None \<Rightarrow> None
     | Some (SliceTcp t) \<Rightarrow> Some \<lparr>tp_protocol = Tcp,
           tp_source_port = Some (tsl_source_port t),
           tp_destination_port = Some (tsl_destination_port t),
           tp_bytes = tsl_payload t,
           tp_tcp = Some \<lparr>seg_seq = tsl_seq t, seg_ack_number = tsl_ack_number t,
             seg_flags = tsl_flags t, seg_window = tsl_window t,
             seg_payload_len = length (tsl_payload t)\<rparr>\<rparr>
     | Some (SliceUdp sport dport payload) \<Rightarrow> Some \<lparr>tp_protocol = Udp,
           tp_source_port = Some sport, tp_destination_port = Some dport,
           tp_bytes = payload, tp_tcp = None\<rparr>
     | Some (SliceIcmpv4 payload) \<Rightarrow> Some \<lparr>tp_protocol = Icmpv4,
           tp_source_port = None, tp_destination_port = None,
           tp_bytes = payload, tp_tcp = None\<rparr>
     | Some (SliceIcmpv6 payload) \<Rightarrow> Some \<lparr>tp_protocol = Icmpv6,
           tp_source_port = None, tp_destination_port = None,
           tp_bytes = payload, tp_tcp = None\<rparr>))"

subsection \<open>The raw fragment scan\<close>

definition read_u16 :: "bytes \<Rightarrow> nat \<Rightarrow> u16 option" where
  "read_u16 data offset = (case get_at data offset of None \<Rightarrow> None
     | Some a \<Rightarrow> (case get_at data (offset + 1) of None \<Rightarrow> None
       | Some b \<Rightarrow> Some (u16_be a b)))"

datatype network_header = HeaderIpv4 | HeaderIpv6

definition is_vlan_tag :: "u16 \<Rightarrow> bool" where
  "is_vlan_tag t \<longleftrightarrow> t = 0x8100 \<or> t = 0x88a8 \<or> t = 0x9100"

text \<open>The loop \<^verbatim>\<open>for _ in 0..n\<close> over VLAN tags, with its early return and break.\<close>

fun skip_vlan_tags :: "nat \<Rightarrow> bytes \<Rightarrow> u16 \<Rightarrow> nat \<Rightarrow> (u16 \<times> nat) option" where
  "skip_vlan_tags 0 data ethertype offset = Some (ethertype, offset)"
| "skip_vlan_tags (Suc n) data ethertype offset =
     (if \<not> is_vlan_tag ethertype then Some (ethertype, offset)
      else if length data < offset + 4 then None
      else (case read_u16 data (offset + 2) of None \<Rightarrow> None
        | Some e \<Rightarrow> skip_vlan_tags n data e (offset + 4)))"

definition ethernet_payload :: "bytes \<Rightarrow> (u16 \<times> nat) option" where
  "ethernet_payload data =
     (if length data < 14 then None
      else (case read_u16 data 12 of None \<Rightarrow> None
        | Some e \<Rightarrow> skip_vlan_tags 2 data e 14))"

definition network_from_ethertype :: "u16 \<Rightarrow> network_header option" where
  "network_from_ethertype t =
     (if t = 0x0800 then Some HeaderIpv4 else if t = 0x86dd then Some HeaderIpv6 else None)"

definition network_from_ip_version :: "bytes \<Rightarrow> nat \<Rightarrow> network_header option" where
  "network_from_ip_version data offset = (case get_at data offset of None \<Rightarrow> None
     | Some b \<Rightarrow> (if drop_bit 4 b = 4 then Some HeaderIpv4
         else if drop_bit 4 b = 6 then Some HeaderIpv6 else None))"

definition network_payload :: "link_layer \<Rightarrow> bytes \<Rightarrow> (network_header \<times> nat) option" where
  "network_payload ll data = (case ll of
     Ethernet \<Rightarrow> (case ethernet_payload data of None \<Rightarrow> None
       | Some (ethertype, offset) \<Rightarrow>
           map_option (\<lambda>network. (network, offset)) (network_from_ethertype ethertype))
   | LinuxSll \<Rightarrow> (case read_u16 data 14 of None \<Rightarrow> None
       | Some ethertype \<Rightarrow>
           map_option (\<lambda>network. (network, 16)) (network_from_ethertype ethertype))
   | RawIp \<Rightarrow> map_option (\<lambda>network. (network, 0)) (network_from_ip_version data 0)
   | BsdLoopback \<Rightarrow> map_option (\<lambda>network. (network, 4)) (network_from_ip_version data 4)
   | UnsupportedLayer \<Rightarrow> None)"

definition ipv4_is_fragmented :: "bytes \<Rightarrow> nat \<Rightarrow> bool" where
  "ipv4_is_fragmented data offset = (case read_u16 data (offset + 6) of None \<Rightarrow> False
     | Some flags_and_offset \<Rightarrow> flags_and_offset AND 0x3fff \<noteq> 0)"

text \<open>
  The walk over at most eight extension headers.  The reads \<^verbatim>\<open>data[cursor]\<close> and
  \<^verbatim>\<open>data[cursor + 1]\<close> follow a length test, so they are in range.
\<close>

fun ipv6_fragment_walk :: "nat \<Rightarrow> bytes \<Rightarrow> u8 \<Rightarrow> nat \<Rightarrow> bool" where
  "ipv6_fragment_walk 0 data next_header cursor = False"
| "ipv6_fragment_walk (Suc n) data next_header cursor =
     (if next_header = 44 then True
      else if next_header = 0 \<or> next_header = 43 \<or> next_header = 60 then
        (if length data < cursor + 2 then False
         else ipv6_fragment_walk n data (data ! cursor)
           (sat_add cursor ((unat (data ! (cursor + 1)) + 1) * 8)))
      else if next_header = 51 then
        (if length data < cursor + 2 then False
         else ipv6_fragment_walk n data (data ! cursor)
           (sat_add cursor ((unat (data ! (cursor + 1)) + 2) * 4)))
      else False)"

definition ipv6_is_fragmented :: "bytes \<Rightarrow> nat \<Rightarrow> bool" where
  "ipv6_is_fragmented data offset =
     (if length data < offset + 40 \<or> drop_bit 4 (data ! offset) \<noteq> 6 then False
      else ipv6_fragment_walk 8 data (data ! (offset + 6)) (offset + 40))"

definition raw_packet_is_fragmented :: "link_layer \<Rightarrow> bytes \<Rightarrow> bool" where
  "raw_packet_is_fragmented ll data = (case network_payload ll data of None \<Rightarrow> False
     | Some (HeaderIpv4, offset) \<Rightarrow> ipv4_is_fragmented data offset
     | Some (HeaderIpv6, offset) \<Rightarrow> ipv6_is_fragmented data offset)"

definition decode_status_of :: "decoded_packet \<Rightarrow> decode_status" where
  "decode_status_of p = (case dp_decode_error p of
     Some UnsupportedLinkLayer \<Rightarrow> UnsupportedLink
   | Some (DecodeError _) \<Rightarrow>
       (if raw_packet_is_fragmented (dp_link_layer p) (dp_raw p) then Fragmented else Malformed)
   | None \<Rightarrow> (case dp_parsed p of None \<Rightarrow> Malformed
       | Some packet \<Rightarrow> (case sp_net packet of
           None \<Rightarrow> NonIp
         | Some NetOther \<Rightarrow> NonIp
         | Some _ \<Rightarrow> (case sp_transport packet of
             None \<Rightarrow>
               (if raw_packet_is_fragmented (dp_link_layer p) (dp_raw p) then Fragmented
                else UnsupportedTransport)
           | Some _ \<Rightarrow> Parsed))))"

text \<open>
  What the fragment walk looks for: a chain of extension headers, each long enough to be read,
  that reaches a fragment header (44).
\<close>

inductive ext_header :: "bytes \<Rightarrow> u8 \<times> nat \<Rightarrow> u8 \<times> nat \<Rightarrow> bool" for data where
  options: "h \<in> {0, 43, 60} \<Longrightarrow> c + 2 \<le> length data \<Longrightarrow>
    ext_header data (h, c) (data ! c, sat_add c ((unat (data ! (c + 1)) + 1) * 8))"
| authentication: "c + 2 \<le> length data \<Longrightarrow>
    ext_header data (51, c) (data ! c, sat_add c ((unat (data ! (c + 1)) + 2) * 4))"

inductive_cases ext_headerE: "ext_header data (h, c) y"
inductive_simps ext_header_simps: "ext_header data (h, c) y"

lemma ipv6_fragment_walk_iff:
  "ipv6_fragment_walk n data h c \<longleftrightarrow> (\<exists>k < n. \<exists>c'. (ext_header data ^^ k) (h, c) (44, c'))"
proof (induction n arbitrary: h c)
  case 0
  then show ?case by simp
next
  case (Suc n)
  have step: "(\<exists>k < Suc n. \<exists>c'. (ext_header data ^^ k) (h, c) (44, c')) \<longleftrightarrow>
      h = 44 \<or> (\<exists>y. ext_header data (h, c) y \<and>
        (\<exists>k < n. \<exists>c'. (ext_header data ^^ k) y (44, c')))"
    (is "?L \<longleftrightarrow> ?R")
  proof
    assume ?L
    then obtain k c' where "k < Suc n" and "(ext_header data ^^ k) (h, c) (44, c')" by blast
    then show ?R
      by (cases k) (simp, metis Suc_less_eq relpowp_Suc_D2)
  next
    assume ?R
    then show ?L
      by (elim disjE exE conjE) (auto intro: exI[of _ 0] exI[of _ "Suc _"] relpowp_Suc_I2)
  qed
  show ?case
    unfolding step by (auto simp: Suc.IH ext_header_simps)
qed

text \<open>
  The IPv6 fragment test holds exactly for a packet with a complete version-6 header whose
  first seven or fewer extension headers, each present in the captured bytes, lead to a fragment
  header; the eight-step bound of the loop is thereby part of the statement.
\<close>

theorem ipv6_is_fragmented_iff:
  "ipv6_is_fragmented data off \<longleftrightarrow>
     off + 40 \<le> length data \<and> drop_bit 4 (data ! off) = 6 \<and>
     (\<exists>k < 8. \<exists>c. (ext_header data ^^ k) (data ! (off + 6), off + 40) (44, c))"
  unfolding ipv6_is_fragmented_def ipv6_fragment_walk_iff by auto

text \<open>
  A packet is reported as parsed exactly when both its addresses and its transport payload
  are available to the stages behind the decoder.
\<close>

theorem parsed_status_iff:
  "decode_status_of (from_raw S p) = Parsed \<longleftrightarrow>
     (\<exists>src dst tp. ip_addresses (from_raw S p) = (Some src, Some dst) \<and>
        transport_payload_of (from_raw S p) = Some tp)"
  by (cases "rp_link_layer p")
    (auto simp: from_raw_def decode_bsd_loopback_def decode_status_of_def ip_addresses_def
      transport_payload_of_def split: option.splits packet_decode_error.splits prod.splits
      sum.splits net_slice.splits transport_slice.splits elim!: decode_result.elims)

lemma decode_status_of_rejected:
  assumes "dp_decode_error p = Some (DecodeError e)"
  shows "decode_status_of p
    = (if raw_packet_is_fragmented (dp_link_layer p) (dp_raw p) then Fragmented else Malformed)"
  using assms by (simp add: decode_status_of_def)

lemma u32_of_bool_simps [simp]: "unat (u32_of_bool b) = of_bool b"
  by (simp add: u32_of_bool_def)

lemma unat_u32_sat_add: "unat (u32_sat_add a b) = min (unat a + unat b) (2 ^ 32 - 1)"
  by (simp add: u32_sat_add_def unat_of_nat min_def)

text \<open>Below the 32-bit bound a segment spans its payload and one number each for SYN and FIN.\<close>

lemma sequence_span_exact:
  assumes "seg_payload_len t + 2 < 2 ^ 32"
  shows "unat (sequence_span t)
    = seg_payload_len t + of_bool (fl_syn (seg_flags t)) + of_bool (fl_fin (seg_flags t))"
  using assms by (simp add: sequence_span_def unat_u32_sat_add unat_of_nat of_bool_def)

end
