(* ===== verification/Flow_Key.thy ===== *)
theory Flow_Key
  imports Packet
begin

text \<open>
  Flow identity: \<^verbatim>\<open>Endpoint\<close>, \<^verbatim>\<open>FlowKey\<close>, \<^verbatim>\<open>FlowRoute\<close>, \<^verbatim>\<open>FlowDirection\<close> and the FNV-1a hash behind
  \<^verbatim>\<open>FlowKey::stable_id\<close>, from \<^verbatim>\<open>src/src/flow/mod.rs\<close>.  A two-element array indexed by a direction
  is a pair, read and written with \<open>dir_get\<close> and \<open>dir_upd\<close>.
\<close>

subsection \<open>Endpoints, keys and directions\<close>

record endpoint =
  ep_addr :: ip_addr
  ep_port :: u16

record flow_key =
  fk_protocol :: transport_protocol
  fk_a :: endpoint
  fk_b :: endpoint

datatype flow_direction = AToB | BToA

record flow_route =
  fr_key :: flow_key
  fr_direction :: flow_direction

fun dir_index :: "flow_direction \<Rightarrow> nat" where
  "dir_index AToB = 0"
| "dir_index BToA = 1"

fun dir_get :: "'a \<times> 'a \<Rightarrow> flow_direction \<Rightarrow> 'a" where
  "dir_get (x, y) AToB = x"
| "dir_get (x, y) BToA = y"

fun dir_upd :: "flow_direction \<Rightarrow> 'a \<Rightarrow> 'a \<times> 'a \<Rightarrow> 'a \<times> 'a" where
  "dir_upd AToB v (x, y) = (v, y)"
| "dir_upd BToA v (x, y) = (x, v)"

lemma dir_get_upd [simp]: "dir_get (dir_upd d v p) d' = (if d = d' then v else dir_get p d')"
  by (cases p; cases d; cases d') auto

lemma dir_upd_same [simp]: "dir_upd d (dir_get p d) p = p"
  by (cases p; cases d) auto

lemma dir_pair_eqI: "(\<And>d. dir_get p d = dir_get q d) \<Longrightarrow> p = q"
  by (metis dir_get.simps(1,2) prod.exhaust)

fun opposite :: "flow_direction \<Rightarrow> flow_direction" where
  "opposite AToB = BToA"
| "opposite BToA = AToB"

fun endpoint_sort_key :: "endpoint \<Rightarrow> nat \<times> bytes \<times> u16" where
  "endpoint_sort_key e = (case ep_addr e of
     V4 octets \<Rightarrow> (4, replicate 12 0 @ octets, ep_port e)
   | V6 octets \<Rightarrow> (6, octets, ep_port e))"

definition flow_route_new :: "transport_protocol \<Rightarrow> endpoint \<Rightarrow> endpoint \<Rightarrow> flow_route" where
  "flow_route_new protocol source destination =
     (if endpoint_sort_key source \<le> endpoint_sort_key destination
      then \<lparr>fr_key = \<lparr>fk_protocol = protocol, fk_a = source, fk_b = destination\<rparr>,
            fr_direction = AToB\<rparr>
      else \<lparr>fr_key = \<lparr>fk_protocol = protocol, fk_a = destination, fk_b = source\<rparr>,
            fr_direction = BToA\<rparr>)"

definition route_from_packet :: "decoded_packet \<Rightarrow> flow_route option" where
  "route_from_packet packet = (case transport_payload_of packet of None \<Rightarrow> None
     | Some transport \<Rightarrow> (case tp_source_port transport of None \<Rightarrow> None
       | Some sport \<Rightarrow> (case tp_destination_port transport of None \<Rightarrow> None
         | Some dport \<Rightarrow> (case ip_addresses packet of
             (Some src, Some dst) \<Rightarrow> Some (flow_route_new (tp_protocol transport)
                \<lparr>ep_addr = src, ep_port = sport\<rparr> \<lparr>ep_addr = dst, ep_port = dport\<rparr>)
           | _ \<Rightarrow> None))))"

definition flow_key_from_packet :: "decoded_packet \<Rightarrow> (flow_key \<times> flow_direction) option" where
  "flow_key_from_packet packet =
     map_option (\<lambda>route. (fr_key route, fr_direction route)) (route_from_packet packet)"

lemma endpoint_sort_key_inj: "endpoint_sort_key s = endpoint_sort_key d \<longleftrightarrow> s = d"
  by (cases s; cases d) (auto split: ip_addr.splits)

text \<open>
  Both directions of a conversation get one key: swapping source and destination keeps the
  flow key and turns the direction round, except that a conversation of an endpoint with itself
  has only one direction.
\<close>

theorem flow_route_symmetric:
  "fr_key (flow_route_new p d s) = fr_key (flow_route_new p s d) \<and>
   fr_direction (flow_route_new p d s)
     = (if s = d then AToB else opposite (fr_direction (flow_route_new p s d)))"
  using endpoint_sort_key_inj[of s d] by (auto simp: flow_route_new_def simp del: endpoint_sort_key.simps)

text \<open>A key determines the conversation: only the two orders of its endpoints have it.\<close>

lemma flow_route_key_inj:
  assumes "fr_key (flow_route_new p s d) = fr_key (flow_route_new p' s' d')"
  shows "p = p' \<and> (s = s' \<and> d = d' \<or> s = d' \<and> d = s')"
  using assms by (auto simp: flow_route_new_def simp del: endpoint_sort_key.simps split: if_splits)

lemma route_from_packet_ports:
  "route_from_packet packet = Some route \<Longrightarrow> fk_protocol (fr_key route) \<in> {Tcp, Udp}"
  by (auto simp: route_from_packet_def transport_payload_of_def flow_route_new_def
      split: option.splits prod.splits transport_slice.splits if_splits)

subsection \<open>The stable flow identifier\<close>

definition fnv_new :: u64w where
  "fnv_new = 0xcbf29ce484222325"

definition fnv_write_u8 :: "u64w \<Rightarrow> u8 \<Rightarrow> u64w" where
  "fnv_write_u8 h b = (h XOR ucast b) * 0x100000001b3"

definition fnv_write_bytes :: "u64w \<Rightarrow> bytes \<Rightarrow> u64w" where
  "fnv_write_bytes h bs = foldl fnv_write_u8 h bs"

definition u16_to_be_bytes :: "u16 \<Rightarrow> bytes" where
  "u16_to_be_bytes v = [ucast (drop_bit 8 v), ucast v]"

definition fnv_write_u16 :: "u64w \<Rightarrow> u16 \<Rightarrow> u64w" where
  "fnv_write_u16 h v = fnv_write_bytes h (u16_to_be_bytes v)"

definition fnv_write_endpoint :: "u64w \<Rightarrow> endpoint \<Rightarrow> u64w" where
  "fnv_write_endpoint h e =
     fnv_write_u16 (case ep_addr e of
         V4 octets \<Rightarrow> fnv_write_bytes (fnv_write_u8 h 4) octets
       | V6 octets \<Rightarrow> fnv_write_bytes (fnv_write_u8 h 6) octets) (ep_port e)"

fun protocol_tag :: "transport_protocol \<Rightarrow> u8" where
  "protocol_tag Tcp = 1"
| "protocol_tag Udp = 2"
| "protocol_tag Icmpv4 = 3"
| "protocol_tag Icmpv6 = 4"

definition stable_id :: "flow_key \<Rightarrow> u64w" where
  "stable_id k = fnv_write_endpoint
     (fnv_write_endpoint (fnv_write_u8 fnv_new (protocol_tag (fk_protocol k))) (fk_a k)) (fk_b k)"

text \<open>The byte string that a key feeds to the hash.\<close>

fun endpoint_bytes :: "endpoint \<Rightarrow> bytes" where
  "endpoint_bytes e = (case ep_addr e of V4 octets \<Rightarrow> 4 # octets | V6 octets \<Rightarrow> 6 # octets)
     @ u16_to_be_bytes (ep_port e)"

definition key_bytes :: "flow_key \<Rightarrow> bytes" where
  "key_bytes k = protocol_tag (fk_protocol k) # endpoint_bytes (fk_a k) @ endpoint_bytes (fk_b k)"

definition endpoint_wf :: "endpoint \<Rightarrow> bool" where
  "endpoint_wf e = (case ep_addr e of V4 octets \<Rightarrow> length octets = 4 | V6 octets \<Rightarrow> length octets = 16)"

lemma u16_be_bytes_inverse: "u16_be (ucast (drop_bit 8 v)) (ucast v) = v"
  unfolding u16_be_def
  by (rule bit_word_eqI) (auto simp: bit_simps)

lemma u16_to_be_bytes_inj: "u16_to_be_bytes v = u16_to_be_bytes w \<longleftrightarrow> v = w"
  unfolding u16_to_be_bytes_def by (metis list.inject u16_be_bytes_inverse)

lemma endpoint_bytes_append_inj:
  assumes "endpoint_wf e" "endpoint_wf f" "endpoint_bytes e @ xs = endpoint_bytes f @ ys"
  shows "e = f \<and> xs = ys"
proof -
  have "length (u16_to_be_bytes v) = 2" for v by (simp add: u16_to_be_bytes_def)
  then show ?thesis
    using assms
    by (cases e; cases f)
      (auto simp: endpoint_wf_def append_eq_append_conv u16_to_be_bytes_inj split: ip_addr.splits)
qed

lemma stable_id_alt: "stable_id k = fnv_write_bytes fnv_new (key_bytes k)"
  by (simp add: stable_id_def key_bytes_def fnv_write_endpoint_def fnv_write_u16_def
      fnv_write_bytes_def split: ip_addr.splits)

text \<open>
  The stable identifier is the FNV-1a hash of a serialisation of the key in which no two
  different keys over well-formed addresses collide: a collision can only come from the hash.
\<close>

theorem stable_id_serialises_key:
  assumes "endpoint_wf (fk_a k)" "endpoint_wf (fk_b k)" "endpoint_wf (fk_a l)" "endpoint_wf (fk_b l)"
  shows "stable_id k = foldl fnv_write_u8 fnv_new (key_bytes k) \<and>
    (key_bytes k = key_bytes l \<longleftrightarrow> k = (l :: flow_key))"
proof
  show "stable_id k = foldl fnv_write_u8 fnv_new (key_bytes k)"
    by (simp add: stable_id_alt fnv_write_bytes_def)
  have tag: "protocol_tag p = protocol_tag q \<longleftrightarrow> p = q" for p q
    by (cases p; cases q) simp_all
  show "key_bytes k = key_bytes l \<longleftrightarrow> k = l"
    using assms endpoint_bytes_append_inj[of "fk_a k" "fk_a l"]
      endpoint_bytes_append_inj[of "fk_b k" "fk_b l" "[]" "[]"]
    by (auto simp: key_bytes_def tag simp del: endpoint_bytes.simps)
qed

definition sample_key :: flow_key where
  "sample_key = \<lparr>fk_protocol = Tcp, fk_a = \<lparr>ep_addr = V4 [10, 0, 0, 1], ep_port = 443\<rparr>,
     fk_b = \<lparr>ep_addr = V4 [10, 0, 0, 2], ep_port = 50000\<rparr>\<rparr>"

lemma stable_id_serialises_key_witness:
  "stable_id sample_key = foldl fnv_write_u8 fnv_new
      [1, 4, 10, 0, 0, 1, 1, 187, 4, 10, 0, 0, 2, 195, 80] \<and>
   key_bytes sample_key \<noteq> key_bytes (sample_key\<lparr>fk_protocol := Udp\<rparr>)"
proof -
  have bytes: "key_bytes sample_key = [1, 4, 10, 0, 0, 1, 1, 187, 4, 10, 0, 0, 2, 195, 80]"
    by (simp add: sample_key_def key_bytes_def u16_to_be_bytes_def)
  show ?thesis
    using stable_id_serialises_key[of sample_key "sample_key\<lparr>fk_protocol := Udp\<rparr>"]
    unfolding bytes by (simp add: endpoint_wf_def sample_key_def)
qed

end
