(* ===== verification/Tcp_Reassembly.thy ===== *)
theory Tcp_Reassembly
  imports Flow_Key
begin

text \<open>
  TCP reassembly, from \<^verbatim>\<open>src/src/flow/mod.rs\<close>: the state of one direction
  (\<^verbatim>\<open>TcpDirectionState\<close>), the out-of-order buffer, the chunks a segment releases, and the
  statistics every step updates.  \<open>td_observe\<close> and \<open>tf_observe\<close> are the two \<^verbatim>\<open>observe\<close> methods;
  they return the updated state and statistics and the observation.
\<close>

subsection \<open>Serial arithmetic\<close>

definition seq_eq :: "u32 \<Rightarrow> u32 \<Rightarrow> bool" where
  "seq_eq a b \<longleftrightarrow> a = b"

definition seq_before :: "u32 \<Rightarrow> u32 \<Rightarrow> bool" where
  "seq_before a b \<longleftrightarrow> sint (a - b) < 0"

definition seq_after :: "u32 \<Rightarrow> u32 \<Rightarrow> bool" where
  "seq_after a b \<longleftrightarrow> seq_before b a"

subsection \<open>Data\<close>

datatype chunk_source = CurrentSegment | BufferedSegmentSource | OverlapTrimmed

datatype stream_bytes = Borrowed bytes | Owned bytes

fun as_slice :: "stream_bytes \<Rightarrow> bytes" where
  "as_slice (Borrowed bs) = bs"
| "as_slice (Owned bs) = bs"

record stream_chunk =
  ch_direction :: flow_direction
  ch_start :: u32
  ch_end :: u32
  ch_bytes :: stream_bytes
  ch_source :: chunk_source

definition chunk_len :: "stream_chunk \<Rightarrow> nat" where
  "chunk_len c = length (as_slice (ch_bytes c))"

datatype sequence_status =
    NoSequence | Init | InOrder | OutOfOrderBuffered | OutOfOrderDropped | GapFilled
  | Retransmission | Overlap | Reset | Fin

record tcp_observation =
  to_sequence_number :: u32
  to_next_sequence :: u32
  to_ack_number :: u32
  to_payload_len :: nat
  to_status :: sequence_status
  to_buffered_segments :: nat
  to_buffered_bytes :: nat
  to_chunks :: "stream_chunk list"

record buffered_segment =
  bs_start :: u32
  bs_end :: u32
  bs_payload_start :: u32
  bs_bytes :: bytes

record tcp_direction_state =
  td_initial_seq :: "u32 option"
  td_next_seq :: "u32 option"
  td_highest_seq :: "u32 option"
  td_packets :: nat
  td_payload_bytes :: nat
  td_gaps :: nat
  td_retransmissions :: nat
  td_overlaps :: nat
  td_out_of_order_buffered :: nat
  td_out_of_order_dropped :: nat
  td_buffered_bytes :: nat
  td_fin_seen :: bool
  td_rst_seen :: bool
  td_syn_seen :: bool
  td_buffered :: "buffered_segment list"

definition td_default :: tcp_direction_state where
  "td_default = \<lparr>td_initial_seq = None, td_next_seq = None, td_highest_seq = None,
     td_packets = 0, td_payload_bytes = 0, td_gaps = 0, td_retransmissions = 0, td_overlaps = 0,
     td_out_of_order_buffered = 0, td_out_of_order_dropped = 0, td_buffered_bytes = 0,
     td_fin_seen = False, td_rst_seen = False, td_syn_seen = False, td_buffered = []\<rparr>"

record tcp_flow_state =
  tf_directions :: "tcp_direction_state \<times> tcp_direction_state"
  tf_resets :: nat
  tf_finished :: bool

definition tf_default :: tcp_flow_state where
  "tf_default = \<lparr>tf_directions = (td_default, td_default), tf_resets = 0, tf_finished = False\<rparr>"

datatype buffer_outcome = Buffered | Duplicate | Dropped

record flow_table_config =
  fc_max_flows :: nat
  fc_idle_timeout_us :: nat
  fc_eviction_interval :: nat
  fc_max_buffered_bytes :: nat
  fc_max_segments :: nat

definition flow_table_config_new :: "nat \<Rightarrow> nat \<Rightarrow> nat \<Rightarrow> nat \<Rightarrow> flow_table_config" where
  "flow_table_config_new max_flows idle_timeout_ms max_bytes max_segments = \<lparr>
     fc_max_flows = max max_flows 1,
     fc_idle_timeout_us = sat_mul idle_timeout_ms 1000,
     fc_eviction_interval = 16384,
     fc_max_buffered_bytes = max_bytes,
     fc_max_segments = max_segments\<rparr>"

record flow_table_stats =
  fs_active_flows :: nat
  fs_created_flows :: nat
  fs_evicted_flows :: nat
  fs_dropped_new_flows :: nat
  fs_stream_chunks :: nat
  fs_stream_bytes :: nat
  fs_current_chunks :: nat
  fs_current_bytes :: nat
  fs_buffered_chunks :: nat
  fs_buffered_bytes :: nat
  fs_trimmed_chunks :: nat
  fs_trimmed_bytes :: nat
  fs_gaps :: nat
  fs_retransmissions :: nat
  fs_overlaps :: nat
  fs_ooo_buffered :: nat
  fs_ooo_buffered_bytes :: nat
  fs_ooo_dropped :: nat
  fs_ooo_dropped_bytes :: nat
  fs_retransmitted_bytes :: nat
  fs_overlap_trimmed_bytes :: nat
  fs_buffered_bytes_peak :: nat
  fs_midstream_starts :: nat
  fs_syns :: nat
  fs_fins :: nat
  fs_resets :: nat

definition stats_default :: flow_table_stats where
  "stats_default = \<lparr>fs_active_flows = 0, fs_created_flows = 0, fs_evicted_flows = 0,
     fs_dropped_new_flows = 0, fs_stream_chunks = 0, fs_stream_bytes = 0, fs_current_chunks = 0,
     fs_current_bytes = 0, fs_buffered_chunks = 0, fs_buffered_bytes = 0, fs_trimmed_chunks = 0,
     fs_trimmed_bytes = 0, fs_gaps = 0, fs_retransmissions = 0, fs_overlaps = 0,
     fs_ooo_buffered = 0, fs_ooo_buffered_bytes = 0, fs_ooo_dropped = 0, fs_ooo_dropped_bytes = 0,
     fs_retransmitted_bytes = 0, fs_overlap_trimmed_bytes = 0, fs_buffered_bytes_peak = 0,
     fs_midstream_starts = 0, fs_syns = 0, fs_fins = 0, fs_resets = 0\<rparr>"

subsection \<open>Chunks\<close>

definition stream_chunk_bytes :: "stream_chunk list \<Rightarrow> nat" where
  "stream_chunk_bytes chunks = sum_list (map chunk_len chunks)"

definition into_stream_chunk ::
  "buffered_segment \<Rightarrow> u32 \<Rightarrow> flow_direction \<Rightarrow> stream_chunk option" where
  "into_stream_chunk s expected direction =
     (if bs_bytes s = [] then None
      else let payload_end = bs_payload_start s + of_nat (length (bs_bytes s)) in
        if seq_before payload_end expected \<or> seq_eq payload_end expected then None
        else let (sequence_start, bs) =
            (if seq_before (bs_payload_start s) expected
             then (let offset = unat (expected - bs_payload_start s)
                   in (expected, drop (min offset (length (bs_bytes s))) (bs_bytes s)))
             else (bs_payload_start s, bs_bytes s))
          in if bs = [] then None
             else Some \<lparr>ch_direction = direction, ch_start = sequence_start,
               ch_end = sequence_start + of_nat (length bs), ch_bytes = Owned bs,
               ch_source = BufferedSegmentSource\<rparr>)"

definition push_current_stream_chunk ::
  "stream_chunk list \<Rightarrow> flow_direction \<Rightarrow> tcp_segment \<Rightarrow> bytes \<Rightarrow> chunk_source \<Rightarrow> stream_chunk list"
where
  "push_current_stream_chunk chunks direction segment payload source =
     (if payload = [] then chunks
      else let sequence_start = payload_sequence_start segment in
        chunks @ [\<lparr>ch_direction = direction, ch_start = sequence_start,
          ch_end = sequence_start + of_nat (length payload), ch_bytes = Borrowed payload,
          ch_source = source\<rparr>])"

definition push_trimmed_current_stream_chunk ::
  "stream_chunk list \<Rightarrow> flow_direction \<Rightarrow> tcp_segment \<Rightarrow> bytes \<Rightarrow> u32 \<Rightarrow> stream_chunk list"
where
  "push_trimmed_current_stream_chunk chunks direction segment payload expected =
     (if payload = [] then chunks
      else let payload_start = payload_sequence_start segment;
               payload_end = payload_sequence_end segment in
        if seq_before payload_end expected \<or> seq_eq payload_end expected then chunks
        else let (sequence_start, bs) =
            (if seq_before payload_start expected
             then (let offset = unat (expected - payload_start)
                   in (expected, drop (min offset (length payload)) payload))
             else (payload_start, payload))
          in if bs = [] then chunks
             else chunks @ [\<lparr>ch_direction = direction, ch_start = sequence_start,
               ch_end = sequence_start + of_nat (length bs), ch_bytes = Borrowed bs,
               ch_source = OverlapTrimmed\<rparr>])"

fun observe_chunk_source :: "flow_table_stats \<Rightarrow> stream_chunk \<Rightarrow> flow_table_stats" where
  "observe_chunk_source stats chunk = (case ch_source chunk of
     CurrentSegment \<Rightarrow> stats\<lparr>fs_current_chunks := sat_add (fs_current_chunks stats) 1,
       fs_current_bytes := sat_add (fs_current_bytes stats) (chunk_len chunk)\<rparr>
   | BufferedSegmentSource \<Rightarrow> stats\<lparr>fs_buffered_chunks := sat_add (fs_buffered_chunks stats) 1,
       fs_buffered_bytes := sat_add (fs_buffered_bytes stats) (chunk_len chunk)\<rparr>
   | OverlapTrimmed \<Rightarrow> stats\<lparr>fs_trimmed_chunks := sat_add (fs_trimmed_chunks stats) 1,
       fs_trimmed_bytes := sat_add (fs_trimmed_bytes stats) (chunk_len chunk)\<rparr>)"

definition observe_stream_chunk_sources ::
  "stream_chunk list \<Rightarrow> flow_table_stats \<Rightarrow> flow_table_stats" where
  "observe_stream_chunk_sources chunks stats = foldl observe_chunk_source stats chunks"

subsection \<open>The out-of-order buffer\<close>

definition buffer_out_of_order ::
  "tcp_direction_state \<Rightarrow> tcp_segment \<Rightarrow> bytes \<Rightarrow> flow_table_config \<Rightarrow> nat \<Rightarrow>
   tcp_direction_state \<times> buffer_outcome" where
  "buffer_out_of_order st segment payload config flow_buffered_bytes =
     (let start = seg_seq segment; seg_end = start + sequence_span segment in
      if \<exists>s \<in> set (td_buffered st). bs_start s = start \<and> bs_end s = seg_end then (st, Duplicate)
      else if length (td_buffered st) \<ge> fc_max_segments config then (st, Dropped)
      else if sat_add flow_buffered_bytes (length payload) > fc_max_buffered_bytes config
        then (st, Dropped)
      else let insert_at_index =
          (case position (\<lambda>s. seq_before start (bs_start s)) (td_buffered st) of
             Some i \<Rightarrow> i | None \<Rightarrow> length (td_buffered st))
        in (st\<lparr>td_buffered := insert_at insert_at_index
              \<lparr>bs_start = start, bs_end = seg_end, bs_payload_start = payload_sequence_start segment,
               bs_bytes = payload\<rparr> (td_buffered st),
              td_buffered_bytes := sat_add (td_buffered_bytes st) (length payload)\<rparr>, Buffered))"

definition consumable :: "u32 \<Rightarrow> buffered_segment \<Rightarrow> bool" where
  "consumable expected s \<longleftrightarrow> seq_eq (bs_start s) expected
     \<or> seq_before (bs_start s) expected \<and> seq_after (bs_end s) expected"

text \<open>
  The loop ends because every round removes a segment from the buffer.  The last component is
  \<^verbatim>\<open>advanced\<close>.
\<close>

function consume_contiguous_buffer ::
  "tcp_direction_state \<Rightarrow> flow_direction \<Rightarrow> stream_chunk list \<Rightarrow> bool \<Rightarrow>
   tcp_direction_state \<times> stream_chunk list \<times> bool" where
  "consume_contiguous_buffer st direction chunks advanced =
     (case td_next_seq st of None \<Rightarrow> (st, chunks, advanced)
      | Some expected \<Rightarrow>
         (case position (consumable expected) (td_buffered st) of
            None \<Rightarrow> (st, chunks, advanced)
          | Some index \<Rightarrow>
             (let segment = td_buffered st ! index;
                  st1 = st\<lparr>td_buffered := remove_at index (td_buffered st),
                    td_buffered_bytes := td_buffered_bytes st - length (bs_bytes segment)\<rparr>;
                  chunks1 = (case into_stream_chunk segment expected direction of
                     Some chunk \<Rightarrow> chunks @ [chunk] | None \<Rightarrow> chunks)
              in if seq_after (bs_end segment) expected
                 then consume_contiguous_buffer (st1\<lparr>td_next_seq := Some (bs_end segment)\<rparr>)
                   direction chunks1 True
                 else consume_contiguous_buffer st1 direction chunks1 advanced)))"
  by pat_completeness auto
termination
  by (relation "measure (\<lambda>(st, _, _, _). length (td_buffered st))")
    (auto dest!: position_SomeD simp: nth_mem)

declare consume_contiguous_buffer.simps [simp del]

subsection \<open>One segment\<close>

definition td_observation ::
  "tcp_direction_state \<Rightarrow> tcp_segment \<Rightarrow> sequence_status \<Rightarrow> stream_chunk list \<Rightarrow> tcp_observation"
where
  "td_observation st segment status chunks = \<lparr>
     to_sequence_number = seg_seq segment,
     to_next_sequence = (case td_next_seq st of Some n \<Rightarrow> n | None \<Rightarrow> seg_seq segment),
     to_ack_number = seg_ack_number segment,
     to_payload_len = seg_payload_len segment,
     to_status = status,
     to_buffered_segments = length (td_buffered st),
     to_buffered_bytes = td_buffered_bytes st,
     to_chunks = chunks\<rparr>"

text \<open>The bookkeeping that precedes every branch.\<close>

definition td_note_segment :: "tcp_direction_state \<Rightarrow> tcp_segment \<Rightarrow> tcp_direction_state" where
  "td_note_segment st segment = st\<lparr>
     td_packets := sat_add (td_packets st) 1,
     td_payload_bytes := sat_add (td_payload_bytes st) (seg_payload_len segment),
     td_syn_seen := td_syn_seen st \<or> fl_syn (seg_flags segment),
     td_fin_seen := td_fin_seen st \<or> fl_fin (seg_flags segment),
     td_rst_seen := td_rst_seen st \<or> fl_rst (seg_flags segment)\<rparr>"

definition td_note_highest :: "tcp_direction_state \<Rightarrow> u32 \<Rightarrow> tcp_direction_state" where
  "td_note_highest st seg_end = st\<lparr>td_highest_seq := Some (case td_highest_seq st of
     None \<Rightarrow> seg_end
   | Some highest \<Rightarrow> (if seq_after seg_end highest then seg_end else highest))\<rparr>"

text \<open>The branch \<^verbatim>\<open>let Some(expected) = self.next_seq else\<close>.\<close>

definition td_first_segment ::
  "tcp_direction_state \<Rightarrow> flow_direction \<Rightarrow> tcp_segment \<Rightarrow> bytes \<Rightarrow> flow_table_stats \<Rightarrow>
   tcp_direction_state \<times> flow_table_stats \<times> sequence_status \<times> stream_chunk list" where
  "td_first_segment st direction segment payload stats =
     (let start = seg_seq segment; seg_end = start + sequence_span segment;
          st1 = st\<lparr>td_initial_seq := Some start, td_next_seq := Some seg_end\<rparr>;
          stats1 = (if fl_syn (seg_flags segment) then stats
            else stats\<lparr>fs_midstream_starts := sat_add (fs_midstream_starts stats) 1\<rparr>);
          (st2, chunks, _) = consume_contiguous_buffer st1 direction
            (push_current_stream_chunk [] direction segment payload CurrentSegment) False
      in (st2, stats1, Init, chunks))"

definition td_in_order ::
  "tcp_direction_state \<Rightarrow> flow_direction \<Rightarrow> tcp_segment \<Rightarrow> bytes \<Rightarrow>
   tcp_direction_state \<times> sequence_status \<times> stream_chunk list" where
  "td_in_order st direction segment payload =
     (let seg_end = seg_seq segment + sequence_span segment;
          (st2, chunks, advanced) = consume_contiguous_buffer (st\<lparr>td_next_seq := Some seg_end\<rparr>)
            direction (push_current_stream_chunk [] direction segment payload CurrentSegment) False
      in (st2, if advanced then GapFilled else if fl_fin (seg_flags segment) then Fin else InOrder,
          chunks))"

definition td_overlapping ::
  "tcp_direction_state \<Rightarrow> flow_direction \<Rightarrow> tcp_segment \<Rightarrow> bytes \<Rightarrow> u32 \<Rightarrow> flow_table_stats \<Rightarrow>
   tcp_direction_state \<times> flow_table_stats \<times> sequence_status \<times> stream_chunk list" where
  "td_overlapping st direction segment payload expected stats =
     (let seg_end = seg_seq segment + sequence_span segment;
          chunks0 = push_trimmed_current_stream_chunk [] direction segment payload expected;
          emitted_bytes = stream_chunk_bytes chunks0 - stream_chunk_bytes [];
          stats1 = stats\<lparr>fs_overlaps := sat_add (fs_overlaps stats) 1,
            fs_overlap_trimmed_bytes := sat_add (fs_overlap_trimmed_bytes stats)
              (length payload - emitted_bytes)\<rparr>;
          (st2, chunks, _) = consume_contiguous_buffer
            (st\<lparr>td_overlaps := sat_add (td_overlaps st) 1, td_next_seq := Some seg_end\<rparr>)
            direction chunks0 False
      in (st2, stats1, Overlap, chunks))"

definition note_retransmission ::
  "tcp_direction_state \<Rightarrow> bytes \<Rightarrow> flow_table_stats \<Rightarrow> tcp_direction_state \<times> flow_table_stats"
where
  "note_retransmission st payload stats =
     (st\<lparr>td_retransmissions := sat_add (td_retransmissions st) 1\<rparr>,
      stats\<lparr>fs_retransmissions := sat_add (fs_retransmissions stats) 1,
        fs_retransmitted_bytes := sat_add (fs_retransmitted_bytes stats) (length payload)\<rparr>)"

definition td_ahead ::
  "tcp_direction_state \<Rightarrow> tcp_segment \<Rightarrow> bytes \<Rightarrow> flow_table_config \<Rightarrow> nat \<Rightarrow> flow_table_stats \<Rightarrow>
   tcp_direction_state \<times> flow_table_stats \<times> sequence_status" where
  "td_ahead st segment payload config flow_buffered_bytes stats =
     (case buffer_out_of_order st segment payload config flow_buffered_bytes of
        (st1, Buffered) \<Rightarrow>
          (st1\<lparr>td_gaps := sat_add (td_gaps st1) 1,
             td_out_of_order_buffered := sat_add (td_out_of_order_buffered st1) 1\<rparr>,
           stats\<lparr>fs_gaps := sat_add (fs_gaps stats) 1,
             fs_ooo_buffered := sat_add (fs_ooo_buffered stats) 1,
             fs_ooo_buffered_bytes := sat_add (fs_ooo_buffered_bytes stats) (length payload)\<rparr>,
           OutOfOrderBuffered)
      | (st1, Duplicate) \<Rightarrow>
          (case note_retransmission st1 payload stats of
             (st2, stats1) \<Rightarrow> (st2, stats1, Retransmission))
      | (st1, Dropped) \<Rightarrow>
          (st1\<lparr>td_gaps := sat_add (td_gaps st1) 1,
             td_out_of_order_dropped := sat_add (td_out_of_order_dropped st1) 1\<rparr>,
           stats\<lparr>fs_gaps := sat_add (fs_gaps stats) 1,
             fs_ooo_dropped := sat_add (fs_ooo_dropped stats) 1,
             fs_ooo_dropped_bytes := sat_add (fs_ooo_dropped_bytes stats) (length payload)\<rparr>,
           OutOfOrderDropped))"

text \<open>The rest of the method: the branches for a stream whose next sequence number is known.\<close>

definition td_sequenced ::
  "tcp_direction_state \<Rightarrow> flow_direction \<Rightarrow> tcp_segment \<Rightarrow> bytes \<Rightarrow> flow_table_config \<Rightarrow> nat \<Rightarrow> u32 \<Rightarrow>
   flow_table_stats \<Rightarrow> tcp_direction_state \<times> flow_table_stats \<times> sequence_status \<times> stream_chunk list"
where
  "td_sequenced st direction segment payload config flow_buffered_bytes expected stats =
     (let start = seg_seq segment; seg_end = start + sequence_span segment in
      if seq_eq start expected then
        (case td_in_order st direction segment payload of
           (st1, status, chunks) \<Rightarrow> (st1, stats, status, chunks))
      else if seq_before start expected then
        (if seq_after seg_end expected
         then td_overlapping st direction segment payload expected stats
         else (case note_retransmission st payload stats of
                 (st1, stats1) \<Rightarrow> (st1, stats1, Retransmission, [])))
      else (case td_ahead st segment payload config flow_buffered_bytes stats of
              (st1, stats1, status) \<Rightarrow> (st1, stats1, status, [])))"

definition td_observe ::
  "tcp_direction_state \<Rightarrow> flow_direction \<Rightarrow> tcp_segment \<Rightarrow> bytes \<Rightarrow> flow_table_config \<Rightarrow> nat \<Rightarrow>
   flow_table_stats \<Rightarrow> tcp_direction_state \<times> flow_table_stats \<times> tcp_observation" where
  "td_observe st0 direction segment payload config flow_buffered_bytes stats =
     (let st = td_note_segment st0 segment in
      if fl_rst (seg_flags segment) then (st, stats, td_observation st segment Reset [])
      else if sequence_span segment = 0 then (st, stats, td_observation st segment NoSequence [])
      else let st1 = td_note_highest st (seg_seq segment + sequence_span segment);
               (st2, stats1, status, chunks) = (case td_next_seq st1 of
                  None \<Rightarrow> td_first_segment st1 direction segment payload stats
                | Some expected \<Rightarrow> td_sequenced st1 direction segment payload config
                    flow_buffered_bytes expected stats)
           in (st2, stats1, td_observation st2 segment status chunks))"

definition tf_buffered_bytes :: "tcp_flow_state \<Rightarrow> nat" where
  "tf_buffered_bytes tf =
     td_buffered_bytes (dir_get (tf_directions tf) AToB)
     + td_buffered_bytes (dir_get (tf_directions tf) BToA)"

definition tf_observe ::
  "tcp_flow_state \<Rightarrow> flow_direction \<Rightarrow> tcp_segment \<Rightarrow> bytes \<Rightarrow> flow_table_config \<Rightarrow>
   flow_table_stats \<Rightarrow> tcp_flow_state \<times> flow_table_stats \<times> tcp_observation" where
  "tf_observe tf direction segment payload config stats0 =
     (let stats1 = (if fl_syn (seg_flags segment)
            then stats0\<lparr>fs_syns := sat_add (fs_syns stats0) 1\<rparr> else stats0);
          stats2 = (if fl_fin (seg_flags segment)
            then stats1\<lparr>fs_fins := sat_add (fs_fins stats1) 1\<rparr> else stats1);
          (st, stats3, observation) = td_observe (dir_get (tf_directions tf) direction) direction
            segment payload config (tf_buffered_bytes tf) stats2;
          tf1 = tf\<lparr>tf_directions := dir_upd direction st (tf_directions tf)\<rparr>;
          stats4 = stats3\<lparr>fs_stream_chunks :=
              sat_add (fs_stream_chunks stats3) (length (to_chunks observation)),
            fs_stream_bytes := sat_add (fs_stream_bytes stats3)
              (stream_chunk_bytes (to_chunks observation))\<rparr>;
          stats5 = observe_stream_chunk_sources (to_chunks observation) stats4;
          stats6 = stats5\<lparr>fs_buffered_bytes_peak :=
            max (fs_buffered_bytes_peak stats5) (tf_buffered_bytes tf1)\<rparr>
      in if fl_rst (seg_flags segment)
         then (tf1\<lparr>tf_resets := sat_add (tf_resets tf1) 1, tf_finished := True\<rparr>,
               stats6\<lparr>fs_resets := sat_add (fs_resets stats6) 1\<rparr>, observation)
         else if td_fin_seen (dir_get (tf_directions tf1) AToB)
                 \<and> td_fin_seen (dir_get (tf_directions tf1) BToA)
         then (tf1\<lparr>tf_finished := True\<rparr>, stats6, observation)
         else (tf1, stats6, observation))"

end
