(* ===== verification/Tcp_Stream.thy ===== *)
theory Tcp_Stream
  imports Tcp_Reassembly
begin

text \<open>
  What reassembly promises, proved of the definitions of \<open>Tcp_Reassembly\<close>: the buffer stays within
  its byte and segment limits, the drain loop stops only when nothing in the buffer can be
  consumed, and the released chunks are, in order and without gaps or repetitions, the bytes of
  the stream the segments were cut from.
\<close>

subsection \<open>The drain loop\<close>

definition take_segment :: "tcp_direction_state \<Rightarrow> u32 \<Rightarrow> nat \<Rightarrow> tcp_direction_state" where
  "take_segment st expected index =
     (let segment = td_buffered st ! index;
          st1 = st\<lparr>td_buffered := remove_at index (td_buffered st),
            td_buffered_bytes := td_buffered_bytes st - length (bs_bytes segment)\<rparr>
      in if seq_after (bs_end segment) expected
         then st1\<lparr>td_next_seq := Some (bs_end segment)\<rparr> else st1)"

definition push_taken ::
  "buffered_segment \<Rightarrow> u32 \<Rightarrow> flow_direction \<Rightarrow> stream_chunk list \<Rightarrow> stream_chunk list" where
  "push_taken segment expected direction chunks =
     (case into_stream_chunk segment expected direction of
        Some chunk \<Rightarrow> chunks @ [chunk] | None \<Rightarrow> chunks)"

lemma consume_unfold:
  "consume_contiguous_buffer st d chunks adv =
     (case td_next_seq st of None \<Rightarrow> (st, chunks, adv)
      | Some expected \<Rightarrow>
         (case position (consumable expected) (td_buffered st) of None \<Rightarrow> (st, chunks, adv)
          | Some i \<Rightarrow> consume_contiguous_buffer (take_segment st expected i) d
              (push_taken (td_buffered st ! i) expected d chunks)
              (adv \<or> seq_after (bs_end (td_buffered st ! i)) expected)))"
  by (subst consume_contiguous_buffer.simps)
    (simp add: Let_def take_segment_def push_taken_def split: option.splits)

text \<open>
  The rule every fact about the loop is proved with: what one round preserves, the loop
  preserves, and where it stops nothing can be consumed.
\<close>

lemma consume_rule:
  assumes "consume_contiguous_buffer st d chunks adv = (st', chunks', adv')"
    and "P st chunks"
    and step: "\<And>st chunks expected i. P st chunks \<Longrightarrow> td_next_seq st = Some expected \<Longrightarrow>
      i < length (td_buffered st) \<Longrightarrow> consumable expected (td_buffered st ! i) \<Longrightarrow>
      P (take_segment st expected i) (push_taken (td_buffered st ! i) expected d chunks)"
  shows "P st' chunks'
    \<and> (\<forall>expected. td_next_seq st' = Some expected \<longrightarrow>
        (\<forall>s \<in> set (td_buffered st'). \<not> consumable expected s))"
  using assms(1,2)
proof (induction "length (td_buffered st)" arbitrary: st chunks adv rule: less_induct)
  case less
  show ?case
  proof (cases "td_next_seq st")
    case None
    with less.prems show ?thesis by (simp add: consume_unfold[of st])
  next
    case (Some expected)
    note seq = this
    show ?thesis
    proof (cases "position (consumable expected) (td_buffered st)")
      case None
      then have "\<forall>s \<in> set (td_buffered st). \<not> consumable expected s"
        by (simp add: position_None_iff)
      with None less.prems seq show ?thesis by (simp add: consume_unfold[of st])
    next
      case (Some i)
      note found = position_SomeD[OF Some]
      have "length (td_buffered (take_segment st expected i)) < length (td_buffered st)"
        using found by (auto simp: take_segment_def Let_def)
      moreover note step[OF less.prems(2) seq, of i]
      ultimately show ?thesis
        using less.prems(1) found seq Some
        by (intro less.hyps) (simp_all add: consume_unfold[of st])
    qed
  qed
qed

lemmas consume_preserves = consume_rule[THEN conjunct1]
lemmas consume_drained = consume_rule[THEN conjunct2, rule_format, where P = "\<lambda>_ _. True", simplified]

subsection \<open>Buffer limits\<close>

definition seg_bytes_sum :: "buffered_segment list \<Rightarrow> nat" where
  "seg_bytes_sum q = sum_list (map (length \<circ> bs_bytes) q)"

definition td_bytes_ok :: "tcp_direction_state \<Rightarrow> bool" where
  "td_bytes_ok st \<longleftrightarrow> td_buffered_bytes st = seg_bytes_sum (td_buffered st)"

text \<open>What may happen to the buffer in a step that does not buffer its segment.\<close>

definition td_shrunk :: "tcp_direction_state \<Rightarrow> tcp_direction_state \<Rightarrow> bool" where
  "td_shrunk st st' \<longleftrightarrow> (td_bytes_ok st \<longrightarrow> td_bytes_ok st')
     \<and> length (td_buffered st') \<le> length (td_buffered st)
     \<and> td_buffered_bytes st' \<le> td_buffered_bytes st"

lemma td_shrunk_refl [simp]: "td_shrunk st st"
  by (simp add: td_shrunk_def)

lemma td_shrunk_same:
  "td_buffered st' = td_buffered st \<Longrightarrow> td_buffered_bytes st' = td_buffered_bytes st \<Longrightarrow> td_shrunk st st'"
  by (simp add: td_shrunk_def td_bytes_ok_def)

lemma td_shrunk_trans: "td_shrunk a b \<Longrightarrow> td_shrunk b c \<Longrightarrow> td_shrunk a c"
  by (auto simp: td_shrunk_def)

lemma take_segment_shrunk:
  assumes "i < length (td_buffered st)"
  shows "td_shrunk st (take_segment st expected i)"
  using assms sum_list_remove_at[OF assms, of "length \<circ> bs_bytes"]
  by (auto simp: td_shrunk_def td_bytes_ok_def take_segment_def Let_def seg_bytes_sum_def)

lemma consume_shrunk:
  assumes "consume_contiguous_buffer st d chunks adv = (st', chunks', adv')"
  shows "td_shrunk st st'"
  by (rule consume_preserves[OF assms, where P = "\<lambda>s _. td_shrunk st s"])
    (auto intro: td_shrunk_trans take_segment_shrunk)

lemma td_first_segment_shrunk:
  assumes "td_first_segment st d seg payload stats = (st', stats', status, chunks)"
  shows "td_shrunk st st'"
  using assms by (auto simp: td_first_segment_def Let_def td_shrunk_def td_bytes_ok_def split: prod.splits
      dest!: consume_shrunk)

lemma td_in_order_shrunk:
  assumes "td_in_order st d seg payload = (st', status, chunks)"
  shows "td_shrunk st st'"
  using assms by (auto simp: td_in_order_def Let_def td_shrunk_def td_bytes_ok_def split: prod.splits
      dest!: consume_shrunk)

lemma td_overlapping_shrunk:
  assumes "td_overlapping st d seg payload expected stats = (st', stats', status, chunks)"
  shows "td_shrunk st st'"
  using assms by (auto simp: td_overlapping_def Let_def td_shrunk_def td_bytes_ok_def split: prod.splits
      dest!: consume_shrunk)

text \<open>What buffering a segment may add.\<close>

definition td_bounded :: "flow_table_config \<Rightarrow> nat \<Rightarrow> tcp_direction_state \<Rightarrow> tcp_direction_state \<Rightarrow> bool" where
  "td_bounded config other st st' \<longleftrightarrow>
     td_bytes_ok st' \<and> length (td_buffered st') \<le> max (length (td_buffered st)) (fc_max_segments config) \<and>
     (td_buffered_bytes st' \<le> td_buffered_bytes st
      \<or> other + td_buffered_bytes st' \<le> fc_max_buffered_bytes config)"

lemma buffer_out_of_order_bounded:
  assumes "buffer_out_of_order st seg payload config (other + td_buffered_bytes st) = (st', outcome)"
    and "td_bytes_ok st" and "fc_max_buffered_bytes config < u64_max"
  shows "td_bounded config other st st'"
proof (cases "outcome = Buffered")
  case True
  then have fits: "other + td_buffered_bytes st + length payload \<le> fc_max_buffered_bytes config"
    and "length (td_buffered st) < fc_max_segments config"
    using assms(1,3) by (auto simp: buffer_out_of_order_def Let_def sat_add_def split: if_splits)
  moreover have "td_buffered_bytes st + length payload \<le> u64_max"
    using fits assms(3) by linarith
  ultimately show ?thesis
    using assms True
    by (auto simp: buffer_out_of_order_def Let_def td_bounded_def td_bytes_ok_def seg_bytes_sum_def
        sum_list_insert_at sat_add_exact split: if_splits)
next
  case False
  then have "st' = st"
    using assms(1) by (auto simp: buffer_out_of_order_def Let_def split: if_splits)
  then show ?thesis using assms(2) by (simp add: td_bounded_def)
qed

lemma td_shrunk_bounded: "td_bytes_ok st \<Longrightarrow> td_shrunk st st' \<Longrightarrow> td_bounded config other st st'"
  by (auto simp: td_shrunk_def td_bounded_def)

lemma td_ahead_bounded:
  assumes "td_ahead st seg payload config (other + td_buffered_bytes st) stats = (st', stats', status)"
    and "td_bytes_ok st" and "fc_max_buffered_bytes config < u64_max"
  shows "td_bounded config other st st'"
proof -
  obtain s outcome where buf:
    "buffer_out_of_order st seg payload config (other + td_buffered_bytes st) = (s, outcome)"
    by fastforce
  then have "td_buffered st' = td_buffered s \<and> td_buffered_bytes st' = td_buffered_bytes s"
    using assms(1) by (auto simp: td_ahead_def note_retransmission_def split: buffer_outcome.splits)
  with buffer_out_of_order_bounded[OF buf assms(2,3)] show ?thesis
    unfolding td_bounded_def td_bytes_ok_def by metis
qed

lemma td_sequenced_bounded:
  assumes "td_sequenced st d seg payload config (other + td_buffered_bytes st) expected stats
      = (st', stats', status, chunks)"
    and "td_bytes_ok st" and "fc_max_buffered_bytes config < u64_max"
  shows "td_bounded config other st st'"
proof -
  consider "seq_eq (seg_seq seg) expected" | "\<not> seq_eq (seg_seq seg) expected"
    "seq_before (seg_seq seg) expected" | "\<not> seq_eq (seg_seq seg) expected"
    "\<not> seq_before (seg_seq seg) expected" by blast
  then show ?thesis
  proof cases
    case 1
    with assms(1) show ?thesis
      by (auto simp: td_sequenced_def Let_def split: prod.splits
          intro!: td_shrunk_bounded[OF assms(2)] dest: td_in_order_shrunk)
  next
    case 2
    with assms(1) show ?thesis
      by (auto simp: td_sequenced_def Let_def note_retransmission_def
          split: prod.splits if_splits intro!: td_shrunk_bounded[OF assms(2)]
          dest: td_overlapping_shrunk intro: td_shrunk_same)
  next
    case 3
    with assms show ?thesis
      by (auto simp: td_sequenced_def Let_def split: prod.splits dest: td_ahead_bounded)
  qed
qed

text \<open>
  The shapes of one observation: bookkeeping only, the first segment of the stream, or a segment
  compared with the next sequence number.  \<open>st2\<close> is the state after the bookkeeping.
\<close>

lemma td_observe_cases:
  assumes "td_observe st d seg payload config fb stats = (st', stats', obs)"
  obtains
    (idle) "fl_rst (seg_flags seg) \<or> sequence_span seg = 0"
      "td_buffered st' = td_buffered st" "td_buffered_bytes st' = td_buffered_bytes st"
      "td_next_seq st' = td_next_seq st" "to_chunks obs = []"
      "to_status obs \<in> {Reset, NoSequence}" "stats' = stats"
  | (first) st2 where "\<not> fl_rst (seg_flags seg)" "sequence_span seg \<noteq> 0"
      "td_next_seq st = None" "td_next_seq st2 = None"
      "td_buffered st2 = td_buffered st" "td_buffered_bytes st2 = td_buffered_bytes st"
      "td_first_segment st2 d seg payload stats = (st', stats', to_status obs, to_chunks obs)"
  | (sequenced) st2 expected where "\<not> fl_rst (seg_flags seg)" "sequence_span seg \<noteq> 0"
      "td_next_seq st = Some expected" "td_next_seq st2 = Some expected"
      "td_buffered st2 = td_buffered st" "td_buffered_bytes st2 = td_buffered_bytes st"
      "td_sequenced st2 d seg payload config fb expected stats
        = (st', stats', to_status obs, to_chunks obs)"
proof -
  define st1 where "st1 = td_note_segment st seg"
  define st2 where "st2 = td_note_highest st1 (seg_seq seg + sequence_span seg)"
  have same: "td_buffered st1 = td_buffered st" "td_buffered_bytes st1 = td_buffered_bytes st"
    "td_buffered st2 = td_buffered st" "td_buffered_bytes st2 = td_buffered_bytes st"
    "td_next_seq st1 = td_next_seq st" "td_next_seq st2 = td_next_seq st"
    by (simp_all add: st1_def st2_def td_note_segment_def td_note_highest_def)
  have obs_simps: "to_chunks (td_observation s g status ch) = ch"
    "to_status (td_observation s g status ch) = status" for s g status ch
    by (simp_all add: td_observation_def)
  show thesis
  proof (cases "fl_rst (seg_flags seg) \<or> sequence_span seg = 0")
    case True
    then have "st' = st1 \<and> stats' = stats \<and> to_chunks obs = []
        \<and> to_status obs \<in> {Reset, NoSequence}"
      using assms(1)
      by (auto simp: td_observe_def Let_def st1_def[symmetric] obs_simps split: if_splits)
    with True same show thesis by (intro that(1)) simp_all
  next
    case False
    note branch = this
    show thesis
    proof (cases "td_next_seq st")
      case None
      show thesis
        by (rule that(2)[of st2])
          (use assms(1) branch None same in \<open>auto simp: td_observe_def Let_def st1_def[symmetric]
            st2_def[symmetric] obs_simps split: prod.splits\<close>)
    next
      case (Some expected)
      show thesis
        by (rule that(3)[of expected st2])
          (use assms(1) branch Some same in \<open>auto simp: td_observe_def Let_def st1_def[symmetric]
            st2_def[symmetric] obs_simps split: prod.splits\<close>)
    qed
  qed
qed

lemma td_observe_bounded:
  assumes "td_observe st d seg payload config (other + td_buffered_bytes st) stats = (st', stats', obs)"
    and "td_bytes_ok st" and "fc_max_buffered_bytes config < u64_max"
  shows "td_bounded config other st st'"
  using assms(1)
proof (cases rule: td_observe_cases)
  case idle
  then show ?thesis using assms(2) by (simp add: td_bounded_def td_bytes_ok_def)
next
  case (first st2)
  then have "td_bytes_ok st2" using assms(2) by (simp add: td_bytes_ok_def)
  from td_shrunk_bounded[OF this td_first_segment_shrunk[OF first(7)]]
  show ?thesis using first by (simp add: td_bounded_def)
next
  case (sequenced st2 expected)
  then have "td_bytes_ok st2" using assms(2) by (simp add: td_bytes_ok_def)
  from td_sequenced_bounded[OF _ this assms(3)] sequenced
  show ?thesis by (fastforce simp: td_bounded_def)
qed

definition tf_ok :: "flow_table_config \<Rightarrow> tcp_flow_state \<Rightarrow> bool" where
  "tf_ok config tf \<longleftrightarrow>
     (\<forall>d. td_bytes_ok (dir_get (tf_directions tf) d)
        \<and> length (td_buffered (dir_get (tf_directions tf) d)) \<le> fc_max_segments config)
     \<and> tf_buffered_bytes tf \<le> fc_max_buffered_bytes config"

lemma tf_default_ok [simp]: "tf_ok config tf_default"
proof -
  have "dir_get (td_default, td_default) d = td_default" for d by (cases d) auto
  then show ?thesis
    by (simp add: tf_ok_def tf_default_def td_default_def td_bytes_ok_def seg_bytes_sum_def
        tf_buffered_bytes_def)
qed

lemma tf_observe_directions:
  assumes "tf_observe tf d seg payload config stats = (tf', stats', obs)"
  obtains st stats1 stats2 where
    "td_observe (dir_get (tf_directions tf) d) d seg payload config (tf_buffered_bytes tf) stats1
      = (st, stats2, obs)"
    "tf_directions tf' = dir_upd d st (tf_directions tf)"
  using assms by (auto simp: tf_observe_def Let_def split: prod.splits if_splits)

lemma tf_buffered_bytes_split:
  "tf_buffered_bytes tf = td_buffered_bytes (dir_get (tf_directions tf) (opposite d))
    + td_buffered_bytes (dir_get (tf_directions tf) d)"
  by (cases d) (simp_all add: tf_buffered_bytes_def)

lemma opposite_neq [simp]: "opposite d \<noteq> d" "d \<noteq> opposite d"
  by (cases d; simp)+

lemma direction_cases: "d' = d \<or> d' = opposite d"
  by (cases d; cases d') simp_all

lemma tf_observe_keeps_ok:
  assumes "tf_ok config tf" "fc_max_buffered_bytes config < u64_max"
    and "tf_observe tf d seg payload config stats = (tf', stats', obs)"
  shows "tf_ok config tf'"
proof -
  obtain st s1 s2 where step: "td_observe (dir_get (tf_directions tf) d) d seg payload config
        (tf_buffered_bytes tf) s1 = (st, s2, obs)"
    and dirs: "tf_directions tf' = dir_upd d st (tf_directions tf)"
    by (rule tf_observe_directions[OF assms(3)])
  let ?other = "td_buffered_bytes (dir_get (tf_directions tf) (opposite d))"
  have "td_bounded config ?other (dir_get (tf_directions tf) d) st"
    using td_observe_bounded[OF step[unfolded tf_buffered_bytes_split[of tf d]]] assms(1,2)
    by (simp add: tf_ok_def)
  moreover have "tf_buffered_bytes tf' = ?other + td_buffered_bytes st"
    using tf_buffered_bytes_split[of tf' d] dirs by simp
  moreover have "tf_buffered_bytes tf = ?other + td_buffered_bytes (dir_get (tf_directions tf) d)"
    by (rule tf_buffered_bytes_split)
  moreover have "dir_get (tf_directions tf') e = (if e = d then st else dir_get (tf_directions tf) e)" for e
    using dirs by simp
  ultimately show ?thesis
    using assms(1) unfolding tf_ok_def td_bounded_def by fastforce
qed

end
