(* ===== verification/Tcp_Correctness.thy ===== *)
theory Tcp_Correctness
  imports Tcp_Stream
begin

text \<open>
  Reassembly delivers the stream.  A stream is a function from positions to bytes, with no byte at
  the positions of SYN and FIN, which take a sequence number and carry nothing; the sequence
  number of position \<open>i\<close> is \<open>base + of_nat i\<close>, with wrap-around.  Segments are cut from the stream
  anywhere, may repeat and overlap, and arrive in any order.  Positions stay below \<open>2 ^ 31\<close>, the
  window in which 32-bit serial comparison is the comparison of positions.
\<close>

subsection \<open>Serial arithmetic in a window\<close>

lemma seq_before_window:
  assumes "x < 2 ^ 31" "y < 2 ^ 31"
  shows "seq_before (base + of_nat x) (base + of_nat y) \<longleftrightarrow> x < y"
proof -
  have "(base + of_nat x) - (base + of_nat y) = (word_of_int (int x - int y) :: u32)"
    by simp
  also have "sint \<dots> = signed_take_bit 31 (int x - int y)"
    unfolding sint_sbintrunc' by simp
  also have "\<dots> = int x - int y"
    using assms by (intro signed_take_bit_int_eq_self) auto
  finally show ?thesis by (simp only: seq_before_def) auto
qed

lemma unat_small: "x < 2 ^ 32 \<Longrightarrow> unat (of_nat x :: u32) = x"
  by (simp add: unat_of_nat)

lemma seq_eq_window:
  assumes "x < 2 ^ 31" "y < 2 ^ 31"
  shows "seq_eq (base + of_nat x) (base + of_nat y) \<longleftrightarrow> x = y"
proof -
  have "x < 2 ^ 32" "y < 2 ^ 32" using assms by simp_all
  then have "(of_nat x :: u32) = of_nat y \<longleftrightarrow> x = y"
    by (metis unat_small)
  then show ?thesis by (simp only: seq_eq_def add_left_cancel)
qed

lemma unat_window_diff:
  assumes "p \<le> n" "n < 2 ^ 31"
  shows "unat ((base + of_nat n) - (base + of_nat p) :: u32) = n - p"
proof -
  have "(base + of_nat n) - (base + of_nat p) = (of_nat (n - p) :: u32)"
    using assms(1) by (simp add: of_nat_diff)
  moreover have "n - p < 2 ^ 32" using assms by simp
  ultimately show ?thesis using unat_small[of "n - p"] by (simp only:)
qed

lemmas window_simps = seq_before_window seq_eq_window seq_after_def

subsection \<open>Streams and the segments cut from them\<close>

definition stream_between :: "(nat \<Rightarrow> u8 option) \<Rightarrow> nat \<Rightarrow> nat \<Rightarrow> bytes" where
  "stream_between f a b = List.map_filter f [a..<b]"

text \<open>Positions \<open>o..<e\<close> hold exactly the bytes \<open>bs\<close>, the first of them at position \<open>p\<close>.\<close>

definition region :: "(nat \<Rightarrow> u8 option) \<Rightarrow> nat \<Rightarrow> nat \<Rightarrow> nat \<Rightarrow> bytes \<Rightarrow> bool" where
  "region f a e p bs \<longleftrightarrow> a \<le> p \<and> p + length bs \<le> e \<and>
     map f [a..<e] = replicate (p - a) None @ map Some bs @ replicate (e - p - length bs) None"

definition segment_span :: "tcp_segment \<Rightarrow> bytes \<Rightarrow> nat" where
  "segment_span seg payload =
     length payload + of_bool (fl_syn (seg_flags seg)) + of_bool (fl_fin (seg_flags seg))"

definition segment_at ::
  "u32 \<Rightarrow> (nat \<Rightarrow> u8 option) \<Rightarrow> nat \<Rightarrow> tcp_segment \<Rightarrow> bytes \<Rightarrow> bool" where
  "segment_at base f a seg payload \<longleftrightarrow>
     seg_seq seg = base + of_nat a \<and> seg_payload_len seg = length payload \<and>
     a + segment_span seg payload < 2 ^ 31 \<and>
     region f a (a + segment_span seg payload) (a + of_bool (fl_syn (seg_flags seg))) payload"

definition emitted :: "stream_chunk list \<Rightarrow> bytes" where
  "emitted chunks = concat (map (as_slice \<circ> ch_bytes) chunks)"

definition chunk_at :: "u32 \<Rightarrow> (nat \<Rightarrow> u8 option) \<Rightarrow> stream_chunk \<Rightarrow> bool" where
  "chunk_at base f c \<longleftrightarrow> (\<exists>q. ch_start c = base + of_nat q \<and>
     ch_end c = base + of_nat (q + chunk_len c) \<and>
     map f [q..<q + chunk_len c] = map Some (as_slice (ch_bytes c)))"

lemma stream_between_empty [simp]: "stream_between f a a = []"
  by (simp add: stream_between_def List.map_filter_def)

lemma stream_between_append:
  "a \<le> b \<Longrightarrow> b \<le> c \<Longrightarrow> stream_between f a b @ stream_between f b c = stream_between f a c"
  using upt_add_eq_append[of a b "c - b"]
  by (simp add: stream_between_def List.map_filter_def)

lemma map_filter_via_map: "List.map_filter f xs = List.map_filter id (map f xs)"
  by (simp add: List.map_filter_def filter_map comp_def)

lemma map_filter_id_simps:
  "List.map_filter id (xs @ ys) = List.map_filter id xs @ List.map_filter id ys"
  "List.map_filter id (replicate k None) = []"
  "List.map_filter id (map Some bs) = bs"
  by (simp_all add: List.map_filter_def filter_map comp_def)

text \<open>From position \<open>n\<close> of a region on, the stream is what is left of its bytes.\<close>

lemma region_from:
  assumes "region f a e p bs" "a \<le> n" "n \<le> e"
  shows "stream_between f n e = drop (n - p) bs"
proof -
  have "map f [n..<e] = drop (n - a) (map f [a..<e])"
    using assms(2) by (simp add: drop_map)
  also have "\<dots> = replicate (p - n) None @ map Some (drop (n - p) bs)
      @ replicate (e - max n (p + length bs)) None"
    using assms by (auto simp: region_def drop_map max_def)
  finally show ?thesis
    by (simp add: stream_between_def map_filter_via_map[of f] map_filter_id_simps)
qed

lemma region_bytes:
  assumes "region f a e p bs" "q = max n p" "a \<le> n"
  shows "map f [q..<q + length (drop (n - p) bs)] = map Some (drop (n - p) bs)"
proof (cases "n - p < length bs")
  case True
  let ?l = "length (drop (n - p) bs)"
  have bounds: "a \<le> p" "p + length bs \<le> e"
    and eq: "map f [a..<e] = replicate (p - a) None @ map Some bs @ replicate (e - p - length bs) None"
    using assms(1) by (auto simp: region_def)
  have "map f [q..<q + ?l] = take ?l (drop (q - a) (map f [a..<e]))"
    using assms(2,3) True bounds by (auto simp: drop_map take_map max_def)
  also have "\<dots> = map Some (drop (n - p) bs)"
    unfolding eq using assms(2,3) True bounds by (auto simp: drop_map take_map max_def)
  finally show ?thesis .
qed simp

lemma segment_at_span:
  assumes "segment_at base f a seg payload"
  shows "sequence_span seg = of_nat (segment_span seg payload)"
    "unat (sequence_span seg) = segment_span seg payload"
proof -
  have "segment_span seg payload < 2 ^ 32"
    using assms by (simp add: segment_at_def)
  moreover have "seg_payload_len seg + 2 < 2 ^ 32"
    using assms by (simp add: segment_at_def segment_span_def)
  ultimately show "unat (sequence_span seg) = segment_span seg payload"
    using assms sequence_span_exact[of seg] by (simp add: segment_at_def segment_span_def)
  then show "sequence_span seg = of_nat (segment_span seg payload)"
    by (metis of_nat_unat ucast_id)
qed

lemma payload_start_at:
  "segment_at base f a seg payload \<Longrightarrow>
    payload_sequence_start seg = base + of_nat (a + of_bool (fl_syn (seg_flags seg)))"
  by (auto simp: segment_at_def payload_sequence_start_def u32_of_bool_def)

subsection \<open>What one chunk releases\<close>

lemma into_stream_chunk_window:
  assumes "bs_payload_start s = base + of_nat p" "p + length (bs_bytes s) < 2 ^ 31" "n < 2 ^ 31"
  shows "into_stream_chunk s (base + of_nat n) d =
    (if drop (n - p) (bs_bytes s) = [] then None
     else Some \<lparr>ch_direction = d, ch_start = base + of_nat (max n p),
       ch_end = base + of_nat (max n p + length (drop (n - p) (bs_bytes s))),
       ch_bytes = Owned (drop (n - p) (bs_bytes s)), ch_source = BufferedSegmentSource\<rparr>)"
proof -
  have stop: "bs_payload_start s + of_nat (length (bs_bytes s))
      = base + of_nat (p + length (bs_bytes s))"
    using assms(1) by simp
  show ?thesis
    unfolding into_stream_chunk_def Let_def stop
    using assms unat_window_diff[of p n base]
    by (auto simp: window_simps max_def min_def simp del: of_nat_add of_nat_diff)
      (simp_all add: of_nat_diff)
qed

lemma push_trimmed_window:
  assumes "payload_sequence_start seg = base + of_nat p" "seg_payload_len seg = length payload"
    "p + length payload < 2 ^ 31" "n < 2 ^ 31"
  shows "push_trimmed_current_stream_chunk chunks d seg payload (base + of_nat n) =
    (if drop (n - p) payload = [] then chunks
     else chunks @ [\<lparr>ch_direction = d, ch_start = base + of_nat (max n p),
       ch_end = base + of_nat (max n p + length (drop (n - p) payload)),
       ch_bytes = Borrowed (drop (n - p) payload), ch_source = OverlapTrimmed\<rparr>])"
proof -
  have stop: "payload_sequence_end seg = base + of_nat (p + length payload)"
    using assms(1,2) by (simp add: payload_sequence_end_def)
  show ?thesis
    unfolding push_trimmed_current_stream_chunk_def Let_def stop assms(1)
    using assms unat_window_diff[of p n base]
    by (auto simp: window_simps max_def min_def simp del: of_nat_add of_nat_diff)
      (simp_all add: of_nat_diff)
qed

lemma emitted_append: "emitted (xs @ ys) = emitted xs @ emitted ys"
  by (simp add: emitted_def)

lemma emitted_Nil [simp]: "emitted [] = []"
  by (simp add: emitted_def)

subsection \<open>The invariant\<close>

text \<open>A buffered segment holds positions \<open>a..<e\<close> of the stream.\<close>

definition buffered_at ::
  "u32 \<Rightarrow> (nat \<Rightarrow> u8 option) \<Rightarrow> buffered_segment \<Rightarrow> nat \<Rightarrow> nat \<Rightarrow> bool" where
  "buffered_at base f s a e \<longleftrightarrow> a < e \<and> e < 2 ^ 31 \<and>
     bs_start s = base + of_nat a \<and> bs_end s = base + of_nat e \<and>
     (\<exists>p. bs_payload_start s = base + of_nat p \<and> region f a e p (bs_bytes s))"

text \<open>
  The direction has delivered positions \<open>n0..<n\<close>; what it buffered is cut from the stream; and
  every accepted span (\<open>acc\<close>) is delivered or still buffered.
\<close>

definition delivered_to ::
  "u32 \<Rightarrow> (nat \<Rightarrow> u8 option) \<Rightarrow> (nat \<times> nat) set \<Rightarrow> nat \<Rightarrow> nat \<Rightarrow> tcp_direction_state \<Rightarrow> bool" where
  "delivered_to base f acc n0 n st \<longleftrightarrow>
     td_next_seq st = Some (base + of_nat n) \<and> n0 \<le> n \<and> n < 2 ^ 31 \<and>
     (\<forall>s \<in> set (td_buffered st). \<exists>a e. buffered_at base f s a e) \<and>
     (\<forall>(a, e) \<in> acc. a < e \<and> e < 2 ^ 31 \<and> (e \<le> n \<or>
        (\<exists>s \<in> set (td_buffered st). bs_start s = base + of_nat a \<and> bs_end s = base + of_nat e)))"

definition drained :: "tcp_direction_state \<Rightarrow> bool" where
  "drained st \<longleftrightarrow> (\<forall>expected. td_next_seq st = Some expected \<longrightarrow>
     (\<forall>s \<in> set (td_buffered st). \<not> consumable expected s))"

lemma consumable_at:
  assumes "buffered_at base f s a e" "n < 2 ^ 31"
  shows "consumable (base + of_nat n) s \<longleftrightarrow> a \<le> n \<and> n < e"
  using assms by (auto simp: buffered_at_def consumable_def window_simps)

lemma buffered_at_unique:
  assumes "buffered_at base f s a e" "bs_start s = base + of_nat b" "bs_end s = base + of_nat c"
    and "b < 2 ^ 31" "c < 2 ^ 31"
  shows "b = a \<and> c = e"
proof -
  have "seq_eq (base + of_nat b) (base + of_nat a)" "seq_eq (base + of_nat c) (base + of_nat e)"
    using assms(1-3) by (simp_all add: buffered_at_def seq_eq_def)
  moreover have "a < 2 ^ 31" "e < 2 ^ 31" using assms(1) by (simp_all add: buffered_at_def)
  ultimately show ?thesis using assms(4,5) by (simp only: seq_eq_window)
qed

text \<open>One round of the drain loop delivers the rest of the segment it takes.\<close>

lemma push_taken_delivers:
  assumes at: "buffered_at base f s a e" and pos: "a \<le> n" "n < e"
  shows "emitted (push_taken s (base + of_nat n) d chunks) = emitted chunks @ stream_between f n e"
    and "\<forall>c \<in> set chunks. chunk_at base f c \<Longrightarrow>
      \<forall>c \<in> set (push_taken s (base + of_nat n) d chunks). chunk_at base f c"
proof -
  obtain p where p: "bs_payload_start s = base + of_nat p" "region f a e p (bs_bytes s)"
    using at by (auto simp: buffered_at_def)
  have n: "n < 2 ^ 31" and len: "p + length (bs_bytes s) < 2 ^ 31"
    using p(2) at pos by (simp_all add: region_def buffered_at_def)
  define bs where "bs = drop (n - p) (bs_bytes s)"
  have push: "push_taken s (base + of_nat n) d chunks = (if bs = [] then chunks
     else chunks @ [\<lparr>ch_direction = d, ch_start = base + of_nat (max n p),
       ch_end = base + of_nat (max n p + length bs),
       ch_bytes = Owned bs, ch_source = BufferedSegmentSource\<rparr>])"
    unfolding push_taken_def into_stream_chunk_window[OF p(1) len n] bs_def by simp
  have rest: "stream_between f n e = bs"
    using region_from[OF p(2), of n] pos by (simp add: bs_def)
  have at_q: "map f [max n p..<max n p + length bs] = map Some bs"
    using region_bytes[OF p(2) refl, of n] pos by (simp only: bs_def)
  show "emitted (push_taken s (base + of_nat n) d chunks) = emitted chunks @ stream_between f n e"
    unfolding push rest by (simp add: emitted_def)
  have "chunk_at base f \<lparr>ch_direction = d, ch_start = base + of_nat (max n p),
       ch_end = base + of_nat (max n p + length bs),
       ch_bytes = Owned bs, ch_source = BufferedSegmentSource\<rparr>"
    unfolding chunk_at_def chunk_len_def
    by (rule exI[of _ "max n p"]) (simp only: at_q stream_chunk.simps as_slice.simps simp_thms)
  then show "\<forall>c \<in> set chunks. chunk_at base f c \<Longrightarrow>
      \<forall>c \<in> set (push_taken s (base + of_nat n) d chunks). chunk_at base f c"
    unfolding push by simp
qed

lemma take_segment_state:
  assumes "i < length (td_buffered st)" "buffered_at base f (td_buffered st ! i) a e" "n < e"
  shows "td_next_seq (take_segment st (base + of_nat n) i) = Some (base + of_nat e)"
    and "td_buffered (take_segment st (base + of_nat n) i) = remove_at i (td_buffered st)"
proof -
  have e: "e < 2 ^ 31" "bs_end (td_buffered st ! i) = base + of_nat e"
    using assms(2) by (simp_all only: buffered_at_def)
  have "n < 2 ^ 31" using assms(3) e(1) by simp
  then have "seq_after (bs_end (td_buffered st ! i)) (base + of_nat n)"
    unfolding e(2) seq_after_def using seq_before_window[OF _ e(1)] assms(3) by blast
  then show "td_next_seq (take_segment st (base + of_nat n) i) = Some (base + of_nat e)"
    and "td_buffered (take_segment st (base + of_nat n) i) = remove_at i (td_buffered st)"
    using e(2) by (simp_all add: take_segment_def Let_def)
qed

lemma in_remove_at:
  assumes "i < length xs" "x \<in> set xs" "x \<noteq> xs ! i"
  shows "x \<in> set (remove_at i xs)"
  using assms split_remove_at[OF assms(1)]
  by (metis insert_iff set_mset_add_mset_insert set_mset_mset)

lemma take_segment_delivers:
  assumes inv: "delivered_to base f acc n0 n st" and i: "i < length (td_buffered st)"
    and at: "buffered_at base f (td_buffered st ! i) a e" and pos: "a \<le> n" "n < e"
  shows "delivered_to base f acc n0 e (take_segment st (base + of_nat n) i)"
  unfolding delivered_to_def take_segment_state[OF i at pos(2)]
proof (intro conjI ballI)
  show "e < 2 ^ 31" using at by (simp only: buffered_at_def)
  show "n0 \<le> e" using inv pos by (simp add: delivered_to_def)
  show "\<exists>a e. buffered_at base f t a e" if "t \<in> set (remove_at i (td_buffered st))" for t
    using that inv set_remove_at_subset[of i "td_buffered st"]
    by (simp only: delivered_to_def) blast
  show "case x of (b, c) \<Rightarrow> b < c \<and> c < 2 ^ 31 \<and>
      (c \<le> e \<or> (\<exists>s \<in> set (remove_at i (td_buffered st)).
        bs_start s = base + of_nat b \<and> bs_end s = base + of_nat c))" if "x \<in> acc" for x
  proof -
    obtain b c where x: "x = (b, c)" by fastforce
    have bc: "b < c" "c < 2 ^ 31" "c \<le> n \<or> (\<exists>t \<in> set (td_buffered st).
        bs_start t = base + of_nat b \<and> bs_end t = base + of_nat c)"
      using inv that x unfolding delivered_to_def by blast+
    have "c \<le> e" if "t = td_buffered st ! i" "bs_start t = base + of_nat b"
      "bs_end t = base + of_nat c" for t
      using buffered_at_unique[OF at, of b c] that bc(1,2) by simp
    with bc(3) have "c \<le> e \<or> (\<exists>t \<in> set (remove_at i (td_buffered st)).
        bs_start t = base + of_nat b \<and> bs_end t = base + of_nat c)"
      using pos in_remove_at[OF i] by (metis less_imp_le order.trans)
    with bc x show ?thesis by simp
  qed
qed simp

lemma consume_delivers:
  assumes run: "consume_contiguous_buffer st d chunks adv = (st', chunks', adv')"
    and inv: "delivered_to base f acc n0 n st" and chunks: "\<forall>c \<in> set chunks. chunk_at base f c"
  obtains n' where "n \<le> n'" "delivered_to base f acc n0 n' st'" "drained st'"
    "emitted chunks' = emitted chunks @ stream_between f n n'" "\<forall>c \<in> set chunks'. chunk_at base f c"
proof -
  let ?P = "\<lambda>s ch. \<exists>n' \<ge> n. delivered_to base f acc n0 n' s
      \<and> emitted ch = emitted chunks @ stream_between f n n' \<and> (\<forall>c \<in> set ch. chunk_at base f c)"
  have "?P st' chunks' \<and> drained st'"
    unfolding drained_def
  proof (rule consume_rule[OF run, where P = ?P])
    show "?P st chunks" using inv chunks by auto
  next
    fix s ch expected i
    assume "?P s ch" and seq: "td_next_seq s = Some expected" and i: "i < length (td_buffered s)"
      and cons: "consumable expected (td_buffered s ! i)"
    then obtain n1 where n1: "n \<le> n1" "delivered_to base f acc n0 n1 s"
      "emitted ch = emitted chunks @ stream_between f n n1" "\<forall>c \<in> set ch. chunk_at base f c" by blast
    have next1: "expected = base + of_nat n1" "n1 < 2 ^ 31"
      using n1(2) seq by (simp_all add: delivered_to_def)
    obtain a e where at: "buffered_at base f (td_buffered s ! i) a e"
      using n1(2) i by (meson delivered_to_def nth_mem)
    then have pos: "a \<le> n1" "n1 < e" using cons consumable_at next1 by blast+
    show "?P (take_segment s expected i) (push_taken (td_buffered s ! i) expected d ch)"
      unfolding next1(1)
      using take_segment_delivers[OF n1(2) i at pos] push_taken_delivers[OF at pos] n1 pos
        stream_between_append[of n n1 e f]
      by (intro exI[of _ e]) simp
  qed
  then show thesis using that by blast
qed

subsection \<open>One segment\<close>

definition tracks ::
  "u32 \<Rightarrow> (nat \<Rightarrow> u8 option) \<Rightarrow> (nat \<times> nat) set \<Rightarrow> (nat \<times> nat) option \<Rightarrow> tcp_direction_state \<Rightarrow> bool"
where
  "tracks base f acc r st = (case r of
     None \<Rightarrow> td_next_seq st = None \<and> td_buffered st = [] \<and> acc = {}
   | Some (n0, n) \<Rightarrow> delivered_to base f acc n0 n st \<and> drained st)"

lemma delivered_advance:
  assumes "delivered_to base f acc n0 n st" "n \<le> m" "m < 2 ^ 31"
    and "td_buffered st' = td_buffered st" "td_next_seq st' = Some (base + of_nat m)"
  shows "delivered_to base f acc n0 m st'"
  using assms unfolding delivered_to_def by fastforce

lemma delivered_accept:
  assumes "delivered_to base f acc n0 n st" "a < e" "e < 2 ^ 31"
    "e \<le> n \<or> (\<exists>s \<in> set (td_buffered st). bs_start s = base + of_nat a \<and> bs_end s = base + of_nat e)"
  shows "delivered_to base f (insert (a, e) acc) n0 n st"
  using assms unfolding delivered_to_def by blast

lemma delivered_same:
  assumes "delivered_to base f acc n0 n st"
    and "td_buffered st' = td_buffered st" "td_next_seq st' = td_next_seq st"
  shows "delivered_to base f acc n0 n st'"
  using assms unfolding delivered_to_def by simp

lemma drained_same:
  assumes "drained st" "td_buffered st' = td_buffered st" "td_next_seq st' = td_next_seq st"
  shows "drained st'"
  using assms unfolding drained_def by simp

lemma push_current_delivers:
  assumes "segment_at base f a seg payload"
  shows "emitted (push_current_stream_chunk [] d seg payload src)
      = stream_between f a (a + segment_span seg payload)"
    and "\<forall>c \<in> set (push_current_stream_chunk [] d seg payload src). chunk_at base f c"
proof -
  let ?p = "a + of_bool (fl_syn (seg_flags seg))"
  have reg: "region f a (a + segment_span seg payload) ?p payload"
    using assms by (simp only: segment_at_def)
  have rest: "stream_between f a (a + segment_span seg payload) = payload"
    using region_from[OF reg, of a] by simp
  have at_p: "map f [?p..<?p + length payload] = map Some payload"
    using region_bytes[OF reg refl, of a] by (simp only: max_def) simp
  show "emitted (push_current_stream_chunk [] d seg payload src)
      = stream_between f a (a + segment_span seg payload)"
    unfolding rest by (simp add: push_current_stream_chunk_def emitted_def Let_def)
  have "chunk_at base f \<lparr>ch_direction = d, ch_start = base + of_nat ?p,
      ch_end = base + of_nat (?p + length payload), ch_bytes = Borrowed payload, ch_source = src\<rparr>"
    unfolding chunk_at_def chunk_len_def
    by (rule exI[of _ ?p]) (simp only: at_p stream_chunk.simps as_slice.simps simp_thms)
  then show "\<forall>c \<in> set (push_current_stream_chunk [] d seg payload src). chunk_at base f c"
    by (simp add: push_current_stream_chunk_def Let_def payload_start_at[OF assms] add.assoc)
qed

lemma push_trimmed_delivers:
  assumes at: "segment_at base f a seg payload" and pos: "a \<le> n" "n < a + segment_span seg payload"
  shows "emitted (push_trimmed_current_stream_chunk [] d seg payload (base + of_nat n))
      = stream_between f n (a + segment_span seg payload)"
    and "\<forall>c \<in> set (push_trimmed_current_stream_chunk [] d seg payload (base + of_nat n)). chunk_at base f c"
proof -
  let ?p = "a + of_bool (fl_syn (seg_flags seg))"
  define bs where "bs = drop (n - ?p) payload"
  have reg: "region f a (a + segment_span seg payload) ?p payload"
    and top: "a + segment_span seg payload < 2 ^ 31"
    and len: "seg_payload_len seg = length payload"
    using at by (simp_all only: segment_at_def)
  have small: "?p + length payload < 2 ^ 31" "n < 2 ^ 31"
    using reg top pos by (simp_all only: region_def) linarith+
  have push: "push_trimmed_current_stream_chunk [] d seg payload (base + of_nat n) =
    (if bs = [] then [] else [\<lparr>ch_direction = d, ch_start = base + of_nat (max n ?p),
       ch_end = base + of_nat (max n ?p + length bs), ch_bytes = Borrowed bs, ch_source = OverlapTrimmed\<rparr>])"
    unfolding push_trimmed_window[OF payload_start_at[OF at] len small] bs_def by simp
  have rest: "stream_between f n (a + segment_span seg payload) = bs"
    using region_from[OF reg, of n] pos by (simp add: bs_def)
  have at_q: "map f [max n ?p..<max n ?p + length bs] = map Some bs"
    using region_bytes[OF reg refl, of n] pos by (simp only: bs_def)
  show "emitted (push_trimmed_current_stream_chunk [] d seg payload (base + of_nat n))
      = stream_between f n (a + segment_span seg payload)"
    unfolding push rest by (simp add: emitted_def)
  have "chunk_at base f \<lparr>ch_direction = d, ch_start = base + of_nat (max n ?p),
       ch_end = base + of_nat (max n ?p + length bs), ch_bytes = Borrowed bs, ch_source = OverlapTrimmed\<rparr>"
    unfolding chunk_at_def chunk_len_def
    by (rule exI[of _ "max n ?p"]) (simp only: at_q stream_chunk.simps as_slice.simps simp_thms)
  then show "\<forall>c \<in> set (push_trimmed_current_stream_chunk [] d seg payload (base + of_nat n)). chunk_at base f c"
    unfolding push by simp
qed

text \<open>
  The result of a step: what the direction delivered grows to \<open>n'\<close>, the chunks are exactly the new
  part, and the segment's own span is accepted unless it was dropped.
\<close>

definition step_delivers ::
  "u32 \<Rightarrow> (nat \<Rightarrow> u8 option) \<Rightarrow> (nat \<times> nat) set \<Rightarrow> nat \<Rightarrow> nat \<Rightarrow> nat \<times> nat \<Rightarrow>
   tcp_direction_state \<Rightarrow> sequence_status \<Rightarrow> stream_chunk list \<Rightarrow> bool" where
  "step_delivers base f acc n0 n sp st' status chunks \<longleftrightarrow> (\<exists>n' \<ge> n.
     delivered_to base f (if status = OutOfOrderDropped then acc else insert sp acc) n0 n' st'
     \<and> drained st' \<and> emitted chunks = stream_between f n n' \<and> (\<forall>c \<in> set chunks. chunk_at base f c))"

lemma first_segment_delivers:
  assumes run: "td_first_segment st d seg payload stats = (st', stats', status, chunks)"
    and at: "segment_at base f a seg payload" and span: "0 < segment_span seg payload"
    and empty: "td_buffered st = []"
  shows "step_delivers base f {} a a (a, a + segment_span seg payload) st' status chunks"
proof -
  let ?e = "a + segment_span seg payload"
  have e: "seg_seq seg + sequence_span seg = base + of_nat ?e" "?e < 2 ^ 31"
    using at segment_at_span(1)[OF at] by (simp_all add: segment_at_def)
  obtain adv where consume: "consume_contiguous_buffer
      (st\<lparr>td_initial_seq := Some (seg_seq seg), td_next_seq := Some (base + of_nat ?e)\<rparr>) d
      (push_current_stream_chunk [] d seg payload CurrentSegment) False = (st', chunks, adv)"
    and status: "status = Init"
    using run unfolding e(1)[symmetric] by (auto simp: td_first_segment_def Let_def split: prod.splits)
  have inv: "delivered_to base f {(a, ?e)} a ?e
      (st\<lparr>td_initial_seq := Some (seg_seq seg), td_next_seq := Some (base + of_nat ?e)\<rparr>)"
    using empty e span by (simp add: delivered_to_def)
  obtain n' where "?e \<le> n'" "delivered_to base f {(a, ?e)} a n' st'" "drained st'"
    "emitted chunks = stream_between f a ?e @ stream_between f ?e n'" "\<forall>c \<in> set chunks. chunk_at base f c"
    by (rule consume_delivers[OF consume inv push_current_delivers(2)[OF at]])
      (simp only: push_current_delivers(1)[OF at])
  then show ?thesis
    unfolding step_delivers_def status using stream_between_append[of a ?e n' f]
    by (intro exI[of _ n']) simp
qed

lemma in_order_delivers:
  assumes run: "td_in_order st d seg payload = (st', status, chunks)"
    and at: "segment_at base f n seg payload" and span: "0 < segment_span seg payload"
    and inv: "delivered_to base f acc n0 n st"
  shows "step_delivers base f acc n0 n (n, n + segment_span seg payload) st' status chunks"
proof -
  let ?e = "n + segment_span seg payload"
  let ?st = "st\<lparr>td_next_seq := Some (base + of_nat ?e)\<rparr>"
  have e: "seg_seq seg + sequence_span seg = base + of_nat ?e" "?e < 2 ^ 31"
    using at segment_at_span(1)[OF at] by (simp_all add: segment_at_def)
  obtain adv where consume: "consume_contiguous_buffer ?st d
      (push_current_stream_chunk [] d seg payload CurrentSegment) False = (st', chunks, adv)"
    and status: "status \<noteq> OutOfOrderDropped"
    using run unfolding e(1)[symmetric]
    by (auto simp: td_in_order_def Let_def split: prod.splits if_splits)
  have inv': "delivered_to base f (insert (n, ?e) acc) n0 ?e ?st"
    by (intro delivered_accept delivered_advance[OF inv]) (use e span in simp_all)
  obtain n' where "?e \<le> n'" "delivered_to base f (insert (n, ?e) acc) n0 n' st'" "drained st'"
    "emitted chunks = stream_between f n ?e @ stream_between f ?e n'" "\<forall>c \<in> set chunks. chunk_at base f c"
    by (rule consume_delivers[OF consume inv' push_current_delivers(2)[OF at]])
      (simp only: push_current_delivers(1)[OF at])
  then show ?thesis
    unfolding step_delivers_def using status stream_between_append[of n ?e n' f]
    by (intro exI[of _ n']) simp
qed

lemma overlapping_delivers:
  assumes run: "td_overlapping st d seg payload (base + of_nat n) stats = (st', stats', status, chunks)"
    and at: "segment_at base f a seg payload" and pos: "a \<le> n" "n < a + segment_span seg payload"
    and inv: "delivered_to base f acc n0 n st"
  shows "step_delivers base f acc n0 n (a, a + segment_span seg payload) st' status chunks"
proof -
  let ?e = "a + segment_span seg payload"
  let ?st = "st\<lparr>td_overlaps := sat_add (td_overlaps st) 1, td_next_seq := Some (base + of_nat ?e)\<rparr>"
  have e: "seg_seq seg + sequence_span seg = base + of_nat ?e" "?e < 2 ^ 31"
    using at segment_at_span(1)[OF at] by (simp_all add: segment_at_def)
  obtain adv where consume: "consume_contiguous_buffer ?st d
      (push_trimmed_current_stream_chunk [] d seg payload (base + of_nat n)) False = (st', chunks, adv)"
    and status: "status = Overlap"
    using run unfolding e(1)[symmetric] by (auto simp: td_overlapping_def Let_def split: prod.splits)
  have inv': "delivered_to base f (insert (a, ?e) acc) n0 ?e ?st"
    by (intro delivered_accept delivered_advance[OF inv]) (use e pos in simp_all)
  obtain n' where "?e \<le> n'" "delivered_to base f (insert (a, ?e) acc) n0 n' st'" "drained st'"
    "emitted chunks = stream_between f n ?e @ stream_between f ?e n'" "\<forall>c \<in> set chunks. chunk_at base f c"
    by (rule consume_delivers[OF consume inv' push_trimmed_delivers(2)[OF at pos]])
      (simp only: push_trimmed_delivers(1)[OF at pos])
  then show ?thesis
    unfolding step_delivers_def status using pos stream_between_append[of n ?e n' f]
    by (intro exI[of _ n']) simp
qed

lemma buffer_out_of_order_delivers:
  assumes run: "buffer_out_of_order st seg payload config fb = (st', outcome)"
    and at: "segment_at base f a seg payload" and pos: "n < a"
    and inv: "delivered_to base f acc n0 n st" and dr: "drained st"
    and span: "0 < segment_span seg payload"
  shows "delivered_to base f
      (if outcome = Dropped then acc else insert (a, a + segment_span seg payload) acc) n0 n st'
    \<and> drained st'"
proof -
  let ?e = "a + segment_span seg payload"
  let ?p = "a + of_bool (fl_syn (seg_flags seg))"
  have e: "seg_seq seg = base + of_nat a" "seg_seq seg + sequence_span seg = base + of_nat ?e"
    "?e < 2 ^ 31" "region f a ?e ?p payload"
    using at segment_at_span(1)[OF at] by (simp_all add: segment_at_def)
  consider (dup) s where "outcome = Duplicate" "st' = st" "s \<in> set (td_buffered st)"
      "bs_start s = base + of_nat a" "bs_end s = base + of_nat ?e"
    | (drop) "outcome = Dropped" "st' = st"
    | (buf) i where "outcome = Buffered"
      "td_buffered st' = insert_at i \<lparr>bs_start = base + of_nat a, bs_end = base + of_nat ?e,
        bs_payload_start = payload_sequence_start seg, bs_bytes = payload\<rparr> (td_buffered st)"
      "td_next_seq st' = td_next_seq st"
    using run unfolding buffer_out_of_order_def Let_def e(2) unfolding e(1)
    by (auto split: if_splits simp del: of_nat_add)
  then show ?thesis
  proof cases
    case dup
    have "delivered_to base f (insert (a, ?e) acc) n0 n st"
      by (rule delivered_accept[OF inv]) (use dup e span in auto)
    then show ?thesis using dup dr by simp
  next
    case drop
    then show ?thesis using inv dr by simp
  next
    case buf
    let ?s = "\<lparr>bs_start = base + of_nat a, bs_end = base + of_nat ?e,
        bs_payload_start = payload_sequence_start seg, bs_bytes = payload\<rparr>"
    have new: "buffered_at base f ?s a ?e"
      unfolding buffered_at_def using e(3,4) span
      by (auto simp: payload_start_at[OF at] simp del: of_nat_add intro!: exI[of _ ?p])
    have "delivered_to base f acc n0 n st'"
      using inv new unfolding delivered_to_def buf(2,3) by (simp only: set_insert_at) blast
    then have "delivered_to base f (insert (a, ?e) acc) n0 n st'"
      by (rule delivered_accept) (use e span buf(2) in simp_all)
    moreover have "\<not> consumable (base + of_nat n) ?s"
      using consumable_at[OF new, of n] pos inv by (simp only: delivered_to_def) simp
    ultimately show ?thesis
      using dr inv buf by (simp add: drained_def delivered_to_def)
  qed
qed

lemma ahead_delivers:
  assumes run: "td_ahead st seg payload config fb stats = (st', stats', status)"
    and at: "segment_at base f a seg payload" and pos: "n < a"
    and inv: "delivered_to base f acc n0 n st" and dr: "drained st"
    and span: "0 < segment_span seg payload"
  shows "step_delivers base f acc n0 n (a, a + segment_span seg payload) st' status []"
proof -
  obtain s outcome where buf: "buffer_out_of_order st seg payload config fb = (s, outcome)"
    by fastforce
  have same: "td_buffered st' = td_buffered s" "td_next_seq st' = td_next_seq s"
    "status = OutOfOrderDropped \<longleftrightarrow> outcome = Dropped"
    using run buf
    by (auto simp: td_ahead_def note_retransmission_def split: buffer_outcome.splits)
  note res = buffer_out_of_order_delivers[OF buf at pos inv dr span]
  show ?thesis
    unfolding step_delivers_def same(3)
    using delivered_same[OF res[THEN conjunct1] same(1,2)] drained_same[OF res[THEN conjunct2] same(1,2)]
    by (intro exI[of _ n]) simp
qed

lemma sequenced_delivers:
  assumes run: "td_sequenced st d seg payload config fb (base + of_nat n) stats
      = (st', stats', status, chunks)"
    and at: "segment_at base f a seg payload"
    and inv: "delivered_to base f acc n0 n st" and dr: "drained st"
    and span: "0 < segment_span seg payload"
  shows "step_delivers base f acc n0 n (a, a + segment_span seg payload) st' status chunks"
proof -
  let ?e = "a + segment_span seg payload"
  have e: "seg_seq seg = base + of_nat a" "seg_seq seg + sequence_span seg = base + of_nat ?e"
    "?e < 2 ^ 31"
    using at segment_at_span(1)[OF at] by (simp_all add: segment_at_def)
  have n: "n < 2 ^ 31" and a: "a < 2 ^ 31"
    using inv e(3) by (simp_all add: delivered_to_def)
  note run' = run[unfolded td_sequenced_def Let_def e(2), unfolded e(1)
      seq_eq_window[OF a n] seq_before_window[OF a n] seq_after_def seq_before_window[OF n e(3)]]
  consider "a = n" | "a < n" "n < ?e" | "a < n" "?e \<le> n" | "n < a" by linarith
  then show ?thesis
  proof cases
    case 1
    with run' have "td_in_order st d seg payload = (st', status, chunks)"
      by (auto split: prod.splits)
    then show ?thesis using in_order_delivers[OF _ _ span inv] at 1 by simp
  next
    case 2
    with run' have "td_overlapping st d seg payload (base + of_nat n) stats = (st', stats', status, chunks)"
      by auto
    then show ?thesis using overlapping_delivers[OF _ at _ _ inv] 2 by simp
  next
    case 3
    with run' have st': "st' = fst (note_retransmission st payload stats)" "status = Retransmission"
      "chunks = []" by (auto simp: note_retransmission_def)
    have "delivered_to base f (insert (a, ?e) acc) n0 n st"
      by (rule delivered_accept[OF inv]) (use 3 e span in simp_all)
    then have "delivered_to base f (insert (a, ?e) acc) n0 n st'"
      by (rule delivered_same) (simp_all add: st' note_retransmission_def)
    moreover have "drained st'"
      by (rule drained_same[OF dr]) (simp_all add: st' note_retransmission_def)
    ultimately show ?thesis
      unfolding step_delivers_def st' by (intro exI[of _ n]) simp
  next
    case 4
    with run' obtain "td_ahead st seg payload config fb stats = (st', stats', status)" "chunks = []"
      by (auto split: prod.splits)
    then show ?thesis using ahead_delivers[OF _ at 4 inv dr span] by simp
  qed
qed

definition carries :: "tcp_segment \<Rightarrow> bytes \<Rightarrow> bool" where
  "carries seg payload \<longleftrightarrow> \<not> fl_rst (seg_flags seg) \<and> 0 < segment_span seg payload"

definition received :: "(nat \<Rightarrow> u8 option) \<Rightarrow> (nat \<times> nat) option \<Rightarrow> bytes" where
  "received f r = (case r of None \<Rightarrow> [] | Some (n0, n) \<Rightarrow> stream_between f n0 n)"

text \<open>What was delivered only grows, from the position of the first segment that carries anything.\<close>

definition extends :: "nat \<Rightarrow> bool \<Rightarrow> (nat \<times> nat) option \<Rightarrow> (nat \<times> nat) option \<Rightarrow> bool" where
  "extends a c r r' = (case r of
     Some (n0, n) \<Rightarrow> \<exists>n' \<ge> n. r' = Some (n0, n')
   | None \<Rightarrow> (if c then \<exists>n'. r' = Some (a, n') else r' = None))"

definition accept :: "nat \<Rightarrow> tcp_segment \<Rightarrow> bytes \<Rightarrow> sequence_status \<Rightarrow> (nat \<times> nat) set \<Rightarrow> (nat \<times> nat) set"
where
  "accept a seg payload status acc =
     (if carries seg payload \<and> status \<noteq> OutOfOrderDropped
      then insert (a, a + segment_span seg payload) acc else acc)"

lemma accept_carrying:
  assumes "\<not> fl_rst (seg_flags seg)" "0 < segment_span seg payload"
  shows "accept a seg payload status acc
    = (if status = OutOfOrderDropped then acc else insert (a, a + segment_span seg payload) acc)"
  using assms by (simp add: accept_def carries_def)

lemma td_observe_tracks:
  assumes run: "td_observe st d seg payload config fb stats = (st', stats', obs)"
    and at: "fl_rst (seg_flags seg) \<or> segment_at base f a seg payload"
    and tr: "tracks base f acc r st"
  shows "\<exists>r'. tracks base f (accept a seg payload (to_status obs) acc) r' st'
    \<and> received f r @ emitted (to_chunks obs) = received f r'
    \<and> (\<forall>c \<in> set (to_chunks obs). chunk_at base f c) \<and> extends a (carries seg payload) r r'"
  using run
proof (cases rule: td_observe_cases)
  case idle
  have none: "\<not> carries seg payload"
    using idle(1) at segment_at_span(2)[of base f a seg payload] by (auto simp: carries_def)
  have "tracks base f acc r st'"
    using tr idle(2,4) delivered_same drained_same
    by (fastforce simp: tracks_def split: option.splits)
  then show ?thesis
    using none idle(5) by (intro exI[of _ r]) (auto simp: accept_def extends_def split: option.splits)
next
  case (first st2)
  then have at': "segment_at base f a seg payload" using at by blast
  then have span: "0 < segment_span seg payload"
    using segment_at_span(1)[OF at'] first(2) by (cases "segment_span seg payload") auto
  have r: "r = None" and acc: "acc = {}" and empty: "td_buffered st2 = []"
    using tr first(3,5) by (auto simp: tracks_def delivered_to_def split: option.splits)
  obtain n' where n': "a \<le> n'" "delivered_to base f (accept a seg payload (to_status obs) {}) a n' st'"
    "drained st'" "emitted (to_chunks obs) = stream_between f a n'"
    "\<forall>c \<in> set (to_chunks obs). chunk_at base f c"
    using first_segment_delivers[OF first(7) at' span empty]
    unfolding step_delivers_def accept_carrying[OF first(1) span] by blast
  then show ?thesis
    using r acc first(1) span
    by (intro exI[of _ "Some (a, n')"]) (simp add: tracks_def received_def extends_def carries_def)
next
  case (sequenced st2 expected)
  then have at': "segment_at base f a seg payload" using at by blast
  then have span: "0 < segment_span seg payload"
    using segment_at_span(1)[OF at'] sequenced(2) by (cases "segment_span seg payload") auto
  obtain n0 n where r: "r = Some (n0, n)" and inv: "delivered_to base f acc n0 n st" and dr: "drained st"
    using tr sequenced(3) by (auto simp: tracks_def split: option.splits)
  have n: "expected = base + of_nat n" "n0 \<le> n" using inv sequenced(3) by (simp_all add: delivered_to_def)
  have inv2: "delivered_to base f acc n0 n st2" and dr2: "drained st2"
    using delivered_same[OF inv] drained_same[OF dr] sequenced(3-5) by simp_all
  obtain n' where n': "n \<le> n'" "delivered_to base f (accept a seg payload (to_status obs) acc) n0 n' st'"
    "drained st'" "emitted (to_chunks obs) = stream_between f n n'"
    "\<forall>c \<in> set (to_chunks obs). chunk_at base f c"
    using sequenced_delivers[OF sequenced(7)[unfolded n(1)] at' inv2 dr2 span]
    unfolding step_delivers_def accept_carrying[OF sequenced(1) span] by blast
  then show ?thesis
    using r n(2) stream_between_append[of n0 n n' f]
    by (intro exI[of _ "Some (n0, n')"]) (simp add: tracks_def received_def extends_def)
qed

text \<open>Nothing that an unbroken run of accepted segments covers is held back.\<close>

lemma tracks_complete:
  assumes "tracks base f acc (Some (n0, n)) st"
    and "\<forall>m. n0 \<le> m \<and> m < N \<longrightarrow> (\<exists>(a, e) \<in> acc. a \<le> m \<and> m < e)"
  shows "N \<le> n"
proof (rule ccontr)
  assume "\<not> N \<le> n"
  have inv: "delivered_to base f acc n0 n st" and dr: "drained st"
    using assms(1) by (simp_all add: tracks_def)
  then have n: "n0 \<le> n" "n < 2 ^ 31" "td_next_seq st = Some (base + of_nat n)"
    by (simp_all add: delivered_to_def)
  have "n < N" using \<open>\<not> N \<le> n\<close> by simp
  with assms(2) n(1) obtain a e where ae: "(a, e) \<in> acc" "a \<le> n" "n < e" by blast
  then have "a < e \<and> e < 2 ^ 31 \<and> (e \<le> n \<or> (\<exists>s \<in> set (td_buffered st).
      bs_start s = base + of_nat a \<and> bs_end s = base + of_nat e))"
    using inv unfolding delivered_to_def by blast
  then obtain s where s: "s \<in> set (td_buffered st)" "bs_start s = base + of_nat a"
    "bs_end s = base + of_nat e" and e: "e < 2 ^ 31" using ae(3) by auto
  obtain b c where at: "buffered_at base f s b c"
    using inv s(1) unfolding delivered_to_def by blast
  have "a < 2 ^ 31" using ae n(2) by linarith
  then have "a = b" "e = c" using buffered_at_unique[OF at s(2,3) _ e] by blast+
  then have "consumable (base + of_nat n) s"
    using consumable_at[OF at n(2)] ae by blast
  then show False using dr s(1) n(3) unfolding drained_def by blast
qed

subsection \<open>Whole conversations\<close>

fun tf_run ::
  "flow_table_config \<Rightarrow> tcp_flow_state \<Rightarrow> flow_table_stats \<Rightarrow>
   (flow_direction \<times> tcp_segment \<times> bytes) list \<Rightarrow>
   tcp_flow_state \<times> flow_table_stats \<times> (flow_direction \<times> tcp_observation) list" where
  "tf_run config tf stats [] = (tf, stats, [])"
| "tf_run config tf stats ((d, seg, payload) # evs) =
     (case tf_observe tf d seg payload config stats of (tf1, stats1, obs) \<Rightarrow>
        (case tf_run config tf1 stats1 evs of (tf2, stats2, rest) \<Rightarrow> (tf2, stats2, (d, obs) # rest)))"

definition delivered :: "flow_direction \<Rightarrow> (flow_direction \<times> tcp_observation) list \<Rightarrow> bytes" where
  "delivered d obs = concat (map (\<lambda>(d', ob). if d' = d then emitted (to_chunks ob) else []) obs)"

text \<open>
  Events with the position their segment was cut at.  The position is not an input of the program:
  \<open>wire\<close> removes it.
\<close>

type_synonym located = "flow_direction \<times> nat \<times> tcp_segment \<times> bytes"

definition wire :: "located list \<Rightarrow> (flow_direction \<times> tcp_segment \<times> bytes) list" where
  "wire evs = map (\<lambda>(d, a, seg, payload). (d, seg, payload)) evs"

definition cut_from :: "u32 \<Rightarrow> (nat \<Rightarrow> u8 option) \<Rightarrow> flow_direction \<Rightarrow> located list \<Rightarrow> bool" where
  "cut_from base f d evs \<longleftrightarrow> list_all (\<lambda>(d', a, seg, payload). d' \<noteq> d
     \<or> fl_rst (seg_flags seg) \<or> segment_at base f a seg payload) evs"

fun first_position :: "flow_direction \<Rightarrow> located list \<Rightarrow> nat option" where
  "first_position d [] = None"
| "first_position d ((d', a, seg, payload) # evs) =
     (if d' = d \<and> carries seg payload then Some a else first_position d evs)"

fun accepted ::
  "flow_direction \<Rightarrow> located list \<Rightarrow> (flow_direction \<times> tcp_observation) list \<Rightarrow> (nat \<times> nat) set \<Rightarrow>
   (nat \<times> nat) set" where
  "accepted d ((d', a, seg, payload) # evs) ((_, ob) # obs) acc =
     accepted d evs obs (if d' = d then accept a seg payload (to_status ob) acc else acc)"
| "accepted d _ _ acc = acc"

lemma tf_run_tracks:
  assumes "tf_run config tf stats (wire evs) = (tf', stats', obs)"
    and "cut_from base f d evs" and "tracks base f acc r (dir_get (tf_directions tf) d)"
  shows "\<exists>r'. tracks base f (accepted d evs obs acc) r' (dir_get (tf_directions tf') d)
    \<and> received f r @ delivered d obs = received f r'
    \<and> (\<forall>(d', ob) \<in> set obs. d' = d \<longrightarrow> (\<forall>c \<in> set (to_chunks ob). chunk_at base f c))
    \<and> (case r of Some (n0, n) \<Rightarrow> \<exists>n' \<ge> n. r' = Some (n0, n')
       | None \<Rightarrow> (case first_position d evs of None \<Rightarrow> r' = None
           | Some n0 \<Rightarrow> \<exists>n'. r' = Some (n0, n')))"
  using assms
proof (induction evs arbitrary: tf stats obs acc r)
  case Nil
  then show ?case
    by (intro exI[of _ r]) (auto simp: wire_def delivered_def split: option.splits)
next
  case (Cons ev evs)
  obtain d' a seg payload where ev: "ev = (d', a, seg, payload)" by (cases ev) auto
  obtain tf1 stats1 ob rest where step: "tf_observe tf d' seg payload config stats = (tf1, stats1, ob)"
    and run: "tf_run config tf1 stats1 (wire evs) = (tf', stats', rest)" and obs: "obs = (d', ob) # rest"
    using Cons.prems(1) by (auto simp: ev wire_def split: prod.splits)
  have cut: "cut_from base f d evs"
    and seg: "d' \<noteq> d \<or> fl_rst (seg_flags seg) \<or> segment_at base f a seg payload"
    using Cons.prems(2) by (simp_all add: cut_from_def ev)
  obtain st s1 s2 where td: "td_observe (dir_get (tf_directions tf) d') d' seg payload config
      (tf_buffered_bytes tf) s1 = (st, s2, ob)" and dirs: "tf_directions tf1 = dir_upd d' st (tf_directions tf)"
    by (rule tf_observe_directions[OF step])
  show ?case
  proof (cases "d' = d")
    case False
    then have "tracks base f acc r (dir_get (tf_directions tf1) d)"
      using Cons.prems(3) dirs by simp
    note tail = Cons.IH[OF run cut this]
    have chunks: "(\<forall>(e, ob) \<in> set obs. e = d \<longrightarrow> (\<forall>c \<in> set (to_chunks ob). chunk_at base f c))
      \<longleftrightarrow> (\<forall>(e, ob) \<in> set rest. e = d \<longrightarrow> (\<forall>c \<in> set (to_chunks ob). chunk_at base f c))"
      using False by (simp add: obs)
    have same: "first_position d (ev # evs) = first_position d evs"
      "accepted d (ev # evs) obs acc = accepted d evs rest acc" "delivered d obs = delivered d rest"
      using False by (simp_all add: ev obs delivered_def)
    show ?thesis unfolding same chunks by (rule tail)
  next
    case True
    obtain r1 where r1: "tracks base f (accept a seg payload (to_status ob) acc) r1 st"
      "received f r @ emitted (to_chunks ob) = received f r1" "extends a (carries seg payload) r r1"
      "\<forall>c \<in> set (to_chunks ob). chunk_at base f c"
      using td_observe_tracks[OF td[unfolded True], of base f a acc r] seg Cons.prems(3) True by blast
    then have "tracks base f (accept a seg payload (to_status ob) acc) r1 (dir_get (tf_directions tf1) d)"
      using dirs True by simp
    from Cons.IH[OF run cut this] obtain r' where r': "tracks base f
        (accepted d evs rest (accept a seg payload (to_status ob) acc)) r' (dir_get (tf_directions tf') d)"
      "received f r1 @ delivered d rest = received f r'"
      "\<forall>(d', ob) \<in> set rest. d' = d \<longrightarrow> (\<forall>c \<in> set (to_chunks ob). chunk_at base f c)"
      "case r1 of Some (n0, n) \<Rightarrow> \<exists>n' \<ge> n. r' = Some (n0, n')
       | None \<Rightarrow> (case first_position d evs of None \<Rightarrow> r' = None | Some n0 \<Rightarrow> \<exists>n'. r' = Some (n0, n'))"
      by blast
    have "delivered d obs = emitted (to_chunks ob) @ delivered d rest"
      using True by (simp add: obs delivered_def)
    moreover have "case r of Some (n0, n) \<Rightarrow> \<exists>n' \<ge> n. r' = Some (n0, n')
       | None \<Rightarrow> (case first_position d (ev # evs) of None \<Rightarrow> r' = None
           | Some n0 \<Rightarrow> \<exists>n'. r' = Some (n0, n'))"
      using r1(3) r'(4) True
      by (auto simp: extends_def ev split: option.splits if_splits intro: order.trans)
    ultimately show ?thesis
      using r'(1,2,3) r1(2,4) True by (intro exI[of _ r']) (simp add: ev obs flip: append_assoc)
  qed
qed

lemma accepted_mono: "acc \<subseteq> accepted d evs obs acc"
  by (induction d evs obs acc rule: accepted.induct)
    (auto simp: accept_def split: if_splits)

lemma accepted_all:
  assumes "tf_run config tf stats (wire evs) = (tf', stats', obs)"
    and "\<forall>(d', ob) \<in> set obs. d' = d \<longrightarrow> to_status ob \<noteq> OutOfOrderDropped"
    and "(d, a, seg, payload) \<in> set evs" "carries seg payload"
  shows "(a, a + segment_span seg payload) \<in> accepted d evs obs acc"
  using assms(1-3)
proof (induction evs arbitrary: tf stats obs acc)
  case Nil
  then show ?case by simp
next
  case (Cons ev evs)
  obtain d' b s p where ev: "ev = (d', b, s, p)" by (cases ev) auto
  obtain tf1 stats1 ob rest where run: "tf_run config tf1 stats1 (wire evs) = (tf', stats', rest)"
    and obs: "obs = (d', ob) # rest"
    using Cons.prems(1) by (auto simp: ev wire_def split: prod.splits)
  show ?case
  proof (cases "ev = (d, a, seg, payload)")
    case True
    then have "(a, a + segment_span seg payload) \<in> accept a seg payload (to_status ob) acc"
      using Cons.prems(2) assms(4) by (simp add: obs ev accept_def)
    then have "(a, a + segment_span seg payload)
        \<in> accepted d evs rest (accept a seg payload (to_status ob) acc)"
      by (rule subsetD[OF accepted_mono])
    then show ?thesis using True by (simp add: ev obs)
  next
    case False
    then have "(d, a, seg, payload) \<in> set evs" using Cons.prems(3) by auto
    then show ?thesis
      using Cons.IH[OF run] Cons.prems(2) by (simp add: ev obs)
  qed
qed

text \<open>
  C1. Whatever the order, the repetitions and the overlaps in which the segments of a stream
  arrive, and whatever the other direction carries, the chunks the flow releases for a direction
  are, concatenated, exactly the bytes of the stream from the first data segment's position up to
  the next expected sequence number; and every chunk bears the sequence numbers of its bytes.
\<close>

theorem reassembly_delivers_stream:
  assumes "tf_run config tf_default stats (wire evs) = (tf', stats', obs)"
    and "cut_from base f d evs"
  shows "(case first_position d evs of
      None \<Rightarrow> delivered d obs = [] \<and> td_next_seq (dir_get (tf_directions tf') d) = None
    | Some n0 \<Rightarrow> \<exists>n. n0 \<le> n \<and> n < 2 ^ 31 \<and> delivered d obs = stream_between f n0 n \<and>
        td_next_seq (dir_get (tf_directions tf') d) = Some (base + of_nat n)) \<and>
    (\<forall>(d', ob) \<in> set obs. d' = d \<longrightarrow> (\<forall>c \<in> set (to_chunks ob). chunk_at base f c))"
proof -
  have "tracks base f {} None (dir_get (tf_directions tf_default) d)"
    by (cases d) (simp_all add: tracks_def tf_default_def td_default_def)
  from tf_run_tracks[OF assms this] show ?thesis
    by (cases "first_position d evs") (force simp: tracks_def received_def delivered_to_def)+
qed

text \<open>
  C2. Reassembly is complete: when no segment of the direction is dropped for lack of buffer room
  and the segments together cover the stream from the first one's position up to \<open>N\<close>, then
  everything up to \<open>N\<close> has been delivered, in whatever order the segments came.
\<close>

theorem reassembly_complete:
  assumes "tf_run config tf_default stats (wire evs) = (tf', stats', obs)"
    and "cut_from base f d evs" and "first_position d evs = Some n0"
    and "\<forall>(d', ob) \<in> set obs. d' = d \<longrightarrow> to_status ob \<noteq> OutOfOrderDropped"
    and "\<forall>m. n0 \<le> m \<and> m < N \<longrightarrow> (\<exists>a seg payload. (d, a, seg, payload) \<in> set evs \<and>
          carries seg payload \<and> a \<le> m \<and> m < a + segment_span seg payload)"
  shows "\<exists>n \<ge> N. delivered d obs = stream_between f n0 n"
proof -
  have "tracks base f {} None (dir_get (tf_directions tf_default) d)"
    by (cases d) (simp_all add: tracks_def tf_default_def td_default_def)
  from tf_run_tracks[OF assms(1,2) this] assms(3) obtain n where
    tr: "tracks base f (accepted d evs obs {}) (Some (n0, n)) (dir_get (tf_directions tf') d)"
    and bytes: "delivered d obs = stream_between f n0 n"
    by (auto simp: received_def)
  have "N \<le> n"
    by (rule tracks_complete[OF tr]) (use assms(5) accepted_all[OF assms(1,4)] in blast)
  with bytes show ?thesis by blast
qed

text \<open>
  C3. Over any sequence of segments of both directions the bytes buffered by a flow stay within the
  per-flow limit, the segments buffered by a direction within the per-direction limit, and the
  byte counter of each direction is the number of bytes its buffer holds.
\<close>

theorem tf_run_keeps_limits:
  assumes "fc_max_buffered_bytes config < u64_max"
  shows "tf_ok config (fst (tf_run config tf_default stats evs))"
proof -
  have "tf_ok config tf \<Longrightarrow> tf_ok config (fst (tf_run config tf stats evs))" for tf
  proof (induction evs arbitrary: tf stats)
    case (Cons ev evs)
    obtain d seg payload where ev: "ev = (d, seg, payload)" by (cases ev) auto
    obtain tf1 stats1 ob where step: "tf_observe tf d seg payload config stats = (tf1, stats1, ob)"
      by (cases "tf_observe tf d seg payload config stats") auto
    from Cons.IH[OF tf_observe_keeps_ok[OF Cons.prems assms step], of stats1]
    show ?case by (simp add: ev step case_prod_beta)
  qed simp
  then show ?thesis by simp
qed

subsection \<open>Witnesses\<close>

definition plain_segment :: "u32 \<Rightarrow> bool \<Rightarrow> nat \<Rightarrow> tcp_segment" where
  "plain_segment seq syn len = \<lparr>seg_seq = seq, seg_ack_number = 0,
     seg_flags = \<lparr>fl_fin = False, fl_syn = syn, fl_rst = False, fl_psh = False, fl_ack = True,
       fl_urg = False, fl_ece = False, fl_cwr = False\<rparr>,
     seg_window = 0, seg_payload_len = len\<rparr>"

definition sample_config :: flow_table_config where
  "sample_config = flow_table_config_new 4 60000 1000 1"

text \<open>A SYN, then bytes 4 to 6 before bytes 1 to 3; the sequence numbers wrap at position 3.\<close>

definition sample_stream :: "nat \<Rightarrow> u8 option" where
  "sample_stream i = (if i = 0 \<or> 6 < i then None else Some (of_nat i))"

definition sample_events :: "located list" where
  "sample_events =
     [(AToB, 0, plain_segment (- 3) True 0, []), (AToB, 4, plain_segment 1 False 3, [4, 5, 6]),
      (AToB, 1, plain_segment (- 2) False 3, [1, 2, 3])]"

lemmas flow_eval = tf_observe_def td_observe_def td_note_segment_def td_note_highest_def
  td_first_segment_def td_sequenced_def td_in_order_def td_overlapping_def td_ahead_def
  note_retransmission_def buffer_out_of_order_def consume_unfold consumable_def seq_eq_def
  seq_after_def seq_before_def take_segment_def push_taken_def into_stream_chunk_def
  push_current_stream_chunk_def push_trimmed_current_stream_chunk_def sequence_span_def
  payload_sequence_start_def payload_sequence_end_def u32_sat_add_def u32_of_bool_def
  td_observation_def tf_buffered_bytes_def observe_stream_chunk_sources_def stream_chunk_bytes_def
  chunk_len_def Let_def sat_add_def sat_mul_def u64_max_def remove_at_def insert_at_def
  tf_default_def td_default_def stats_default_def plain_segment_def wire_def emitted_def

lemma sample_run:
  "map (\<lambda>(d, ob). (d, to_status ob, emitted (to_chunks ob)))
    (snd (snd (tf_run sample_config tf_default stats_default (wire sample_events))))
   = [(AToB, Init, []), (AToB, OutOfOrderBuffered, []), (AToB, GapFilled, [1, 2, 3, 4, 5, 6])]"
  by (simp add: flow_eval sample_events_def sample_config_def flow_table_config_new_def)

definition sample_result where
  "sample_result = tf_run sample_config tf_default stats_default (wire sample_events)"

lemma sample_result_split:
  "tf_run sample_config tf_default stats_default (wire sample_events)
    = (fst sample_result, fst (snd sample_result), snd (snd sample_result))"
  by (simp add: sample_result_def)

lemma sample_cut: "cut_from (- 3) sample_stream AToB sample_events"
proof -
  have syn: "region sample_stream 0 1 1 []"
    by (simp add: region_def sample_stream_def)
  have "map sample_stream [4..<7] = map Some [4, 5, 6]" "map sample_stream [1..<4] = map Some [1, 2, 3]"
    by (simp_all add: sample_stream_def upt_rec)
  then have late: "region sample_stream 4 7 4 [4, 5, 6]" and early: "region sample_stream 1 4 1 [1, 2, 3]"
    by (simp_all add: region_def del: list.map)
  have four: "Suc (Suc (Suc (Suc 0))) = 4" by simp
  show ?thesis
    using syn late early
    by (simp add: four cut_from_def sample_events_def segment_at_def segment_span_def plain_segment_def)
qed

lemma sample_first: "first_position AToB sample_events = Some 0"
  by (simp add: sample_events_def carries_def segment_span_def plain_segment_def)

lemma reassembly_delivers_stream_witness:
  "\<exists>n. delivered AToB (snd (snd sample_result)) = stream_between sample_stream 0 n"
  using reassembly_delivers_stream[OF sample_result_split sample_cut, THEN conjunct1]
  unfolding sample_first option.case by (elim exE conjE) (rule exI)

lemma sample_no_drop:
  "\<forall>(d', ob) \<in> set (snd (snd sample_result)). d' = AToB \<longrightarrow> to_status ob \<noteq> OutOfOrderDropped"
proof clarify
  fix ob
  assume "(AToB, ob) \<in> set (snd (snd sample_result))" and "to_status ob = OutOfOrderDropped"
  then have "(AToB, OutOfOrderDropped, emitted (to_chunks ob)) \<in> (\<lambda>(d, ob).
      (d, to_status ob, emitted (to_chunks ob))) ` set (snd (snd sample_result))"
    by (metis (mono_tags, lifting) case_prod_conv image_eqI)
  then show False
    unfolding sample_result_def list.set_map[symmetric] sample_run by simp
qed

lemma sample_covers:
  assumes "m < 7"
  shows "\<exists>a seg payload. (AToB, a, seg, payload) \<in> set sample_events \<and>
      carries seg payload \<and> a \<le> m \<and> m < a + segment_span seg payload"
proof -
  have cover: "\<exists>a seg payload. (AToB, a, seg, payload) \<in> set sample_events \<and>
      carries seg payload \<and> a \<le> m \<and> m < a + segment_span seg payload"
    if "(AToB, a, seg, payload) \<in> set sample_events" "carries seg payload"
      "a \<le> m" "m < a + segment_span seg payload" for a seg payload
    using that by blast
  consider "m = 0" | "1 \<le> m" "m < 4" | "4 \<le> m" "m < 7" using assms by linarith
  then show ?thesis
  proof cases
    case 1
    then show ?thesis
      by (intro cover[of 0 "plain_segment (- 3) True 0" "[]"])
        (simp_all add: sample_events_def carries_def segment_span_def plain_segment_def)
  next
    case 2
    then show ?thesis
      by (intro cover[of 1 "plain_segment (- 2) False 3" "[1, 2, 3]"])
        (simp_all add: sample_events_def carries_def segment_span_def plain_segment_def)
  next
    case 3
    then show ?thesis
      by (intro cover[of 4 "plain_segment 1 False 3" "[4, 5, 6]"])
        (simp_all add: sample_events_def carries_def segment_span_def plain_segment_def)
  qed
qed

lemma reassembly_complete_witness:
  "\<exists>n \<ge> 7. delivered AToB (snd (snd sample_result)) = stream_between sample_stream 0 n"
  by (rule reassembly_complete[OF sample_result_split sample_cut sample_first sample_no_drop])
    (use sample_covers in blast)

lemma tf_run_keeps_limits_witness:
  "tf_ok sample_config (fst sample_result)"
  unfolding sample_result_def
  by (rule tf_run_keeps_limits)
    (simp add: sample_config_def flow_table_config_new_def u64_max_def)

subsection \<open>Overtaken segments stay in the buffer\<close>

text \<open>
  A buffered segment that lies wholly before the next expected position is \<open>stale\<close>: no test of the
  drain loop ever selects it.
\<close>

definition stale :: "u32 \<Rightarrow> (nat \<Rightarrow> u8 option) \<Rightarrow> nat \<Rightarrow> buffered_segment \<Rightarrow> tcp_direction_state \<Rightarrow> bool" where
  "stale base f n t st \<longleftrightarrow> t \<in> set (td_buffered st) \<and> (\<exists>b c. buffered_at base f t b c \<and> c \<le> n)"

lemma consume_keeps_stale:
  assumes run: "consume_contiguous_buffer st d chunks adv = (st', chunks', adv')"
    and inv: "delivered_to base f acc n0 n st" and t: "stale base f n t st"
  shows "t \<in> set (td_buffered st')"
proof -
  obtain b c where tat: "buffered_at base f t b c" "c \<le> n" using t by (auto simp: stale_def)
  let ?P = "\<lambda>s ch. (\<exists>n' \<ge> n. delivered_to base f acc n0 n' s) \<and> t \<in> set (td_buffered s)"
  have "?P st' chunks'"
  proof (rule consume_preserves[OF run, where P = ?P])
    show "?P st chunks" using inv t by (auto simp: stale_def)
  next
    fix s ch expected i
    assume P: "?P s ch" and seq: "td_next_seq s = Some expected" and i: "i < length (td_buffered s)"
      and cons: "consumable expected (td_buffered s ! i)"
    obtain n1 where n1: "n \<le> n1" "delivered_to base f acc n0 n1 s" using P by blast
    have next1: "expected = base + of_nat n1" "n1 < 2 ^ 31"
      using n1(2) seq by (simp_all add: delivered_to_def)
    obtain a e where at: "buffered_at base f (td_buffered s ! i) a e"
      using n1(2) i by (meson delivered_to_def nth_mem)
    then have pos: "a \<le> n1" "n1 < e" using cons consumable_at next1 by blast+
    have "\<not> consumable expected t"
      using consumable_at[OF tat(1) next1(2)] tat(2) n1(1) next1(1) by simp
    then have "t \<noteq> td_buffered s ! i" using cons by blast
    then have "t \<in> set (td_buffered (take_segment s expected i))"
      unfolding next1(1) take_segment_state(2)[OF i at pos(2)] using in_remove_at[OF i] P by blast
    then show "?P (take_segment s expected i) (push_taken (td_buffered s ! i) expected d ch)"
      unfolding next1(1) using take_segment_delivers[OF n1(2) i at pos] n1(1) pos by (meson le_trans less_imp_le)
  qed
  then show ?thesis by blast
qed

lemma in_order_keeps_stale:
  assumes run: "td_in_order st d seg payload = (st', status, chunks)"
    and at: "segment_at base f n seg payload" and inv: "delivered_to base f acc n0 n st"
    and t: "stale base f n t st"
  shows "t \<in> set (td_buffered st')"
proof -
  let ?e = "n + segment_span seg payload"
  let ?st = "st\<lparr>td_next_seq := Some (base + of_nat ?e)\<rparr>"
  have e: "seg_seq seg + sequence_span seg = base + of_nat ?e" "?e < 2 ^ 31"
    using at segment_at_span(1)[OF at] by (simp_all add: segment_at_def)
  obtain adv where consume: "consume_contiguous_buffer ?st d
      (push_current_stream_chunk [] d seg payload CurrentSegment) False = (st', chunks, adv)"
    using run unfolding e(1)[symmetric]
    by (auto simp: td_in_order_def Let_def split: prod.splits if_splits)
  have "stale base f ?e t ?st" using t by (fastforce simp: stale_def)
  moreover have "delivered_to base f acc n0 ?e ?st"
    by (rule delivered_advance[OF inv]) (use e in simp_all)
  ultimately show ?thesis using consume_keeps_stale[OF consume] by blast
qed

lemma overlapping_keeps_stale:
  assumes run: "td_overlapping st d seg payload (base + of_nat n) stats = (st', stats', status, chunks)"
    and at: "segment_at base f a seg payload" and pos: "n < a + segment_span seg payload"
    and inv: "delivered_to base f acc n0 n st" and t: "stale base f n t st"
  shows "t \<in> set (td_buffered st')"
proof -
  let ?e = "a + segment_span seg payload"
  let ?st = "st\<lparr>td_overlaps := sat_add (td_overlaps st) 1, td_next_seq := Some (base + of_nat ?e)\<rparr>"
  have e: "seg_seq seg + sequence_span seg = base + of_nat ?e" "?e < 2 ^ 31"
    using at segment_at_span(1)[OF at] by (simp_all add: segment_at_def)
  obtain adv where consume: "consume_contiguous_buffer ?st d
      (push_trimmed_current_stream_chunk [] d seg payload (base + of_nat n)) False = (st', chunks, adv)"
    using run unfolding e(1)[symmetric] by (auto simp: td_overlapping_def Let_def split: prod.splits)
  have "stale base f ?e t ?st" using t pos by (fastforce simp: stale_def)
  moreover have "delivered_to base f acc n0 ?e ?st"
    by (rule delivered_advance[OF inv]) (use e pos in simp_all)
  ultimately show ?thesis using consume_keeps_stale[OF consume] by blast
qed

lemma ahead_keeps_buffer:
  assumes "td_ahead st seg payload config fb stats = (st', stats', status)" "t \<in> set (td_buffered st)"
  shows "t \<in> set (td_buffered st')"
  using assms
  by (auto simp: td_ahead_def buffer_out_of_order_def note_retransmission_def Let_def split: if_splits)

lemma sequenced_keeps_stale:
  assumes run: "td_sequenced st d seg payload config fb (base + of_nat n) stats
      = (st', stats', status, chunks)"
    and at: "segment_at base f a seg payload" and inv: "delivered_to base f acc n0 n st"
    and t: "stale base f n t st"
  shows "t \<in> set (td_buffered st')"
proof -
  let ?e = "a + segment_span seg payload"
  have e: "seg_seq seg = base + of_nat a" "seg_seq seg + sequence_span seg = base + of_nat ?e"
    "?e < 2 ^ 31"
    using at segment_at_span(1)[OF at] by (simp_all add: segment_at_def)
  have n: "n < 2 ^ 31" and a: "a < 2 ^ 31"
    using inv e(3) by (simp_all add: delivered_to_def)
  have mem: "t \<in> set (td_buffered st)" using t by (simp add: stale_def)
  note run' = run[unfolded td_sequenced_def Let_def e(2), unfolded e(1)
      seq_eq_window[OF a n] seq_before_window[OF a n] seq_after_def seq_before_window[OF n e(3)]]
  consider "a = n" | "a < n" "n < ?e" | "a < n" "?e \<le> n" | "n < a" by linarith
  then show ?thesis
  proof cases
    case 1
    with run' have "td_in_order st d seg payload = (st', status, chunks)"
      by (auto split: prod.splits)
    then show ?thesis using in_order_keeps_stale[OF _ _ inv t] at 1 by blast
  next
    case 2
    with run' have "td_overlapping st d seg payload (base + of_nat n) stats = (st', stats', status, chunks)"
      by auto
    then show ?thesis using overlapping_keeps_stale[OF _ at _ inv t] 2 by blast
  next
    case 3
    with run' mem show ?thesis by (auto simp: note_retransmission_def)
  next
    case 4
    with run' have "td_ahead st seg payload config fb stats = (st', stats', status)"
      by (auto split: prod.splits)
    then show ?thesis using ahead_keeps_buffer mem by blast
  qed
qed

lemma td_observe_keeps_stale:
  assumes run: "td_observe st d seg payload config fb stats = (st', stats', obs)"
    and at: "fl_rst (seg_flags seg) \<or> segment_at base f a seg payload"
    and inv: "delivered_to base f acc n0 n st" and t: "stale base f n t st"
  shows "t \<in> set (td_buffered st')"
  using run
proof (cases rule: td_observe_cases)
  case idle
  then show ?thesis using t by (simp add: stale_def)
next
  case (first st2)
  then show ?thesis using inv by (simp add: delivered_to_def)
next
  case (sequenced st2 expected)
  then have at': "segment_at base f a seg payload" using at by blast
  have n: "expected = base + of_nat n" using inv sequenced(3) by (simp add: delivered_to_def)
  show ?thesis
    by (rule sequenced_keeps_stale[OF sequenced(7)[unfolded n] at'])
      (rule delivered_same[OF inv], use sequenced(3-5) t in \<open>simp_all add: stale_def\<close>)
qed

lemma tf_run_keeps_stale:
  assumes "tf_run config tf stats (wire evs) = (tf', stats', obs)" and "cut_from base f d evs"
    and "tracks base f acc (Some (n0, n)) (dir_get (tf_directions tf) d)"
    and "stale base f n t (dir_get (tf_directions tf) d)"
  shows "t \<in> set (td_buffered (dir_get (tf_directions tf') d))"
  using assms
proof (induction evs arbitrary: tf stats obs acc n)
  case Nil
  then show ?case by (simp add: wire_def stale_def)
next
  case (Cons ev evs)
  obtain d' a seg payload where ev: "ev = (d', a, seg, payload)" by (cases ev) auto
  obtain tf1 stats1 ob rest where step: "tf_observe tf d' seg payload config stats = (tf1, stats1, ob)"
    and run: "tf_run config tf1 stats1 (wire evs) = (tf', stats', rest)"
    using Cons.prems(1) by (auto simp: ev wire_def split: prod.splits)
  have cut: "cut_from base f d evs"
    and seg: "d' \<noteq> d \<or> fl_rst (seg_flags seg) \<or> segment_at base f a seg payload"
    using Cons.prems(2) by (simp_all add: cut_from_def ev)
  obtain st s1 s2 where td: "td_observe (dir_get (tf_directions tf) d') d' seg payload config
      (tf_buffered_bytes tf) s1 = (st, s2, ob)" and dirs: "tf_directions tf1 = dir_upd d' st (tf_directions tf)"
    by (rule tf_observe_directions[OF step])
  show ?case
  proof (cases "d' = d")
    case False
    then show ?thesis
      using Cons.IH[OF run cut] Cons.prems(3,4) dirs by simp
  next
    case True
    obtain r1 where r1: "tracks base f (accept a seg payload (to_status ob) acc) r1 st"
      "extends a (carries seg payload) (Some (n0, n)) r1"
      using td_observe_tracks[OF td[unfolded True], of base f a acc "Some (n0, n)"] seg Cons.prems(3) True
      by blast
    then obtain n1 where n1: "n \<le> n1" "r1 = Some (n0, n1)" by (auto simp: extends_def)
    have "t \<in> set (td_buffered st)"
      by (rule td_observe_keeps_stale[OF td[unfolded True]])
        (use seg True Cons.prems(3,4) in \<open>auto simp: tracks_def\<close>)
    then have "stale base f n1 t st" using Cons.prems(4) n1(1) by (fastforce simp: stale_def)
    then show ?thesis
      using Cons.IH[OF run cut, of _ n1] r1(1) n1(2) dirs True by simp
  qed
qed

text \<open>
  An out-of-order segment that an in-order one overtakes is never released: once a buffered
  segment lies wholly before the next expected position, it is still in the buffer after any
  further segments of the stream, and keeps counting towards the segment and byte limits.
\<close>

theorem overtaken_segment_never_released:
  assumes "tf_run config tf stats (wire evs) = (tf', stats', obs)" "cut_from base f d evs"
    and "tracks base f acc (Some (n0, n)) (dir_get (tf_directions tf) d)"
    and "t \<in> set (td_buffered (dir_get (tf_directions tf) d))"
    and "buffered_at base f t b c" "c \<le> n"
  shows "t \<in> set (td_buffered (dir_get (tf_directions tf') d))"
  by (rule tf_run_keeps_stale[OF assms(1-3)]) (use assms(4-6) in \<open>auto simp: stale_def\<close>)

text \<open>Position 2 is buffered, then overtaken by the segment of positions 1 to 3.\<close>

definition overtake_events :: "(flow_direction \<times> tcp_segment \<times> bytes) list" where
  "overtake_events = [(AToB, plain_segment 0 False 1, [7]), (AToB, plain_segment 2 False 1, [7]),
     (AToB, plain_segment 1 False 3, [7, 7, 7])]"

definition overtaken_segment :: buffered_segment where
  "overtaken_segment = \<lparr>bs_start = 2, bs_end = 3, bs_payload_start = 2, bs_bytes = [7]\<rparr>"

definition overtake_state :: tcp_flow_state where
  "overtake_state = fst (tf_run sample_config tf_default stats_default overtake_events)"

definition later_events :: "located list" where
  "later_events = [(AToB, 5, plain_segment 5 False 1, [7]), (AToB, 4, plain_segment 4 False 1, [7])]"

lemma overtake_state_value:
  "overtake_state = \<lparr>tf_directions =
     (td_default\<lparr>td_initial_seq := Some 0, td_next_seq := Some 4, td_highest_seq := Some 4,
        td_packets := 3, td_payload_bytes := 5, td_gaps := 1, td_out_of_order_buffered := 1,
        td_buffered_bytes := 1, td_buffered := [overtaken_segment]\<rparr>, td_default),
     tf_resets = 0, tf_finished = False\<rparr>"
  by (simp add: overtake_state_def overtake_events_def flow_eval sample_config_def
      flow_table_config_new_def overtaken_segment_def)

lemma overtake_state_eval:
  "td_buffered (fst (tf_directions overtake_state)) = [overtaken_segment]"
  "td_next_seq (fst (tf_directions overtake_state)) = Some 4"
  by (simp_all add: overtake_state_value)

definition overtake_result where
  "overtake_result = tf_run sample_config overtake_state stats_default (wire later_events)"

lemma overtake_later_eval:
  "map (to_status \<circ> snd) (snd (snd overtake_result)) = [OutOfOrderDropped, InOrder]"
  by (simp add: overtake_result_def overtake_state_value flow_eval sample_config_def
      flow_table_config_new_def later_events_def overtaken_segment_def)

lemma constant_region: "a \<le> e \<Longrightarrow> region (\<lambda>_. Some x) a e a (replicate (e - a) x)"
  by (simp add: region_def map_replicate_const)

lemma overtake_state_tracks:
  "buffered_at 0 (\<lambda>_. Some 7) overtaken_segment 2 3"
  "tracks 0 (\<lambda>_. Some 7) {} (Some (0, 4)) (dir_get (tf_directions overtake_state) AToB)"
proof -
  have "region (\<lambda>_. Some 7) 2 3 2 [7]"
    using constant_region[of 2 3 7] by simp
  then show at: "buffered_at 0 (\<lambda>_. Some 7) overtaken_segment 2 3"
    unfolding buffered_at_def overtaken_segment_def by (intro conjI exI[of _ 2]) simp_all
  have "\<not> consumable 4 overtaken_segment"
    by (simp add: consumable_def overtaken_segment_def seq_eq_def seq_before_def seq_after_def)
  then have "drained (fst (tf_directions overtake_state))"
    by (simp add: drained_def overtake_state_eval)
  moreover have "delivered_to 0 (\<lambda>_. Some 7) {} 0 4 (fst (tf_directions overtake_state))"
    unfolding delivered_to_def overtake_state_eval using at by auto
  ultimately show "tracks 0 (\<lambda>_. Some 7) {} (Some (0, 4)) (dir_get (tf_directions overtake_state) AToB)"
    unfolding tracks_def by (simp add: overtake_state_value)
qed

lemma later_events_cut: "cut_from 0 (\<lambda>_. Some 7) AToB later_events"
  using constant_region[of 5 6 7] constant_region[of 4 5 7]
  by (simp add: cut_from_def later_events_def segment_at_def segment_span_def plain_segment_def)

lemma overtaken_segment_never_released_witness:
  "overtaken_segment \<in> set (td_buffered (dir_get (tf_directions (fst overtake_result)) AToB))"
proof (rule overtaken_segment_never_released[OF _ later_events_cut overtake_state_tracks(2) _
      overtake_state_tracks(1)])
  show "tf_run sample_config overtake_state stats_default (wire later_events)
      = (fst overtake_result, fst (snd overtake_result), snd (snd overtake_result))"
    by (simp add: overtake_result_def)
  show "overtaken_segment \<in> set (td_buffered (dir_get (tf_directions overtake_state) AToB))"
    by (simp add: overtake_state_value)
qed simp


end
