(* ===== verification/Registry.thy ===== *)
theory Registry
  imports Rust_Prelude
begin

text \<open>
  The contract that the program's bounded tables share: a step may make room by forgetting keys,
  never invents a key, always holds the key it was asked for, and never exceeds its capacity.  The
  flow table, the flow-owner table, the stream inventory, the content store and the message store
  provide it; what a whole run of such a table guarantees is proved here once.
\<close>

locale bounded_registry =
  fixes step :: "'op \<Rightarrow> 's \<Rightarrow> 's"
    and keys :: "'s \<Rightarrow> 'k set"
    and target :: "'op \<Rightarrow> 'k option"
    and inv :: "'s \<Rightarrow> bool"
    and cap :: "'s \<Rightarrow> nat"
  assumes inv_step: "inv s \<Longrightarrow> inv (step x s)"
    and keys_step: "inv s \<Longrightarrow> keys (step x s) \<subseteq> keys s \<union> set_option (target x)"
    and target_step: "inv s \<Longrightarrow> target x = Some k \<Longrightarrow> k \<in> keys (step x s)"
    and bounded: "inv s \<Longrightarrow> finite (keys s) \<and> card (keys s) \<le> cap s"
    and cap_step: "inv s \<Longrightarrow> cap (step x s) = cap s"
begin

lemma run_inv: "inv s \<Longrightarrow> inv (fold step xs s)"
  by (induction xs arbitrary: s) (auto intro: inv_step)

lemma run_cap: "inv s \<Longrightarrow> cap (fold step xs s) = cap s"
  by (induction xs arbitrary: s) (simp_all add: cap_step inv_step)

lemma run_bounded: "inv s \<Longrightarrow> card (keys (fold step xs s)) \<le> cap s"
  using bounded[OF run_inv] run_cap by metis

lemma run_keys: "inv s \<Longrightarrow> keys (fold step xs s) \<subseteq> keys s \<union> (\<Union>x \<in> set xs. set_option (target x))"
proof (induction xs arbitrary: s)
  case (Cons x xs)
  then show ?case using keys_step[OF Cons.prems, of x] inv_step by fastforce
qed simp

lemma run_last: "inv s \<Longrightarrow> target x = Some k \<Longrightarrow> k \<in> keys (fold step (xs @ [x]) s)"
  using run_inv[of s xs] target_step by simp

text \<open>A key is lost only to make room: while nothing is forgotten, the keys are the targets.\<close>

lemma run_keys_subset:
  "inv s \<Longrightarrow> keys s = {} \<Longrightarrow> k \<in> keys (fold step xs s) \<Longrightarrow> \<exists>x \<in> set xs. target x = Some k"
  using run_keys[of s xs] by (fastforce simp: elem_set)

end

end
