(* ===== verification/Flow_Table.thy ===== *)
theory Flow_Table
  imports Tcp_Correctness Registry
begin

text \<open>
  The flow table: \<^verbatim>\<open>FlowEntry\<close> and \<^verbatim>\<open>FlowTable\<close> of \<^verbatim>\<open>src/src/flow/mod.rs\<close>.  A table is its
  configuration, its entries by flow key, a packet counter and the statistics.
\<close>

subsection \<open>Entries\<close>

record direction_stats =
  ds_packets :: nat
  ds_bytes :: nat
  ds_payload_bytes :: nat

datatype transport_state = TcpState tcp_flow_state | Datagram

record flow_entry =
  fe_first_seen_us :: nat
  fe_last_seen_us :: nat
  fe_packets :: nat
  fe_bytes :: nat
  fe_directions :: "direction_stats \<times> direction_stats"
  fe_transport :: transport_state

record flow_packet =
  fp_direction :: flow_direction
  fp_now_us :: nat
  fp_bytes :: nat
  fp_payload_bytes :: nat
  fp_tcp_segment :: "tcp_segment option"
  fp_payload :: bytes

record flow_observation =
  fo_key :: flow_key
  fo_direction :: flow_direction
  fo_packets :: nat
  fo_bytes :: nat
  fo_is_new :: bool
  fo_tcp :: "tcp_observation option"

definition direction_stats_default :: direction_stats where
  "direction_stats_default = \<lparr>ds_packets = 0, ds_bytes = 0, ds_payload_bytes = 0\<rparr>"

definition flow_entry_new :: "nat \<Rightarrow> transport_protocol \<Rightarrow> flow_entry" where
  "flow_entry_new now_us protocol = \<lparr>fe_first_seen_us = now_us, fe_last_seen_us = now_us,
     fe_packets = 0, fe_bytes = 0,
     fe_directions = (direction_stats_default, direction_stats_default),
     fe_transport = (case protocol of Tcp \<Rightarrow> TcpState tf_default | _ \<Rightarrow> Datagram)\<rparr>"

definition fe_observe ::
  "flow_entry \<Rightarrow> flow_packet \<Rightarrow> flow_table_config \<Rightarrow> flow_table_stats \<Rightarrow>
   flow_entry \<times> flow_table_stats \<times> tcp_observation option" where
  "fe_observe entry packet config stats =
     (let ds = dir_get (fe_directions entry) (fp_direction packet);
          ds1 = ds\<lparr>ds_packets := sat_add (ds_packets ds) 1,
            ds_bytes := sat_add (ds_bytes ds) (fp_bytes packet),
            ds_payload_bytes := sat_add (ds_payload_bytes ds) (fp_payload_bytes packet)\<rparr>;
          entry1 = entry\<lparr>fe_last_seen_us := fp_now_us packet,
            fe_packets := sat_add (fe_packets entry) 1,
            fe_bytes := sat_add (fe_bytes entry) (fp_bytes packet),
            fe_directions := dir_upd (fp_direction packet) ds1 (fe_directions entry)\<rparr>
      in case fe_transport entry1 of
           Datagram \<Rightarrow> (entry1, stats, None)
         | TcpState tcp \<Rightarrow> (case fp_tcp_segment packet of
             None \<Rightarrow> (entry1, stats, None)
           | Some segment \<Rightarrow>
               (case tf_observe tcp (fp_direction packet) segment (fp_payload packet) config stats of
                  (tcp1, stats1, observation) \<Rightarrow>
                    (entry1\<lparr>fe_transport := TcpState tcp1\<rparr>, stats1, Some observation))))"

subsection \<open>The table\<close>

record flow_table =
  ft_config :: flow_table_config
  ft_entries :: "(flow_key \<times> flow_entry) list"
  ft_observed :: nat
  ft_stats :: flow_table_stats

definition flow_table_new :: "flow_table_config \<Rightarrow> flow_table" where
  "flow_table_new config =
     \<lparr>ft_config = config, ft_entries = [], ft_observed = 0, ft_stats = stats_default\<rparr>"

text \<open>
  \<^verbatim>\<open>timestamp_us\<close> adds without saturation; in a release build the sum wraps.
\<close>

definition timestamp_us :: "packet_timestamp \<Rightarrow> nat" where
  "timestamp_us ts = (sat_mul (ts_sec ts) 1000000 + ts_usec ts) mod 2 ^ 64"

text \<open>\<^verbatim>\<open>u64::is_multiple_of(0)\<close> holds of 0 only, as \<open>n mod 0 = 0\<close> does here.\<close>

definition should_evict :: "flow_table \<Rightarrow> bool" where
  "should_evict ft \<longleftrightarrow> ft_observed ft \<noteq> 0
     \<and> ft_observed ft mod fc_eviction_interval (ft_config ft) = 0"

definition evict_idle :: "flow_table \<Rightarrow> nat \<Rightarrow> flow_table" where
  "evict_idle ft now_us =
     (let kept = filter (\<lambda>(_, entry). now_us - fe_last_seen_us entry
            \<le> fc_idle_timeout_us (ft_config ft)) (ft_entries ft)
      in ft\<lparr>ft_entries := kept,
           ft_stats := (ft_stats ft)\<lparr>fs_evicted_flows := sat_add (fs_evicted_flows (ft_stats ft))
             (length (ft_entries ft) - length kept)\<rparr>\<rparr>)"

definition evict_oldest :: "flow_table \<Rightarrow> flow_table" where
  "evict_oldest ft =
     (case min_by_key (fe_last_seen_us \<circ> snd) (ft_entries ft) of
        None \<Rightarrow> ft
      | Some (key, _) \<Rightarrow> ft\<lparr>ft_entries := AList.delete key (ft_entries ft),
          ft_stats := (ft_stats ft)\<lparr>fs_evicted_flows :=
            sat_add (fs_evicted_flows (ft_stats ft)) 1\<rparr>\<rparr>)"

definition packet_of ::
  "decoded_packet \<Rightarrow> transport_payload \<Rightarrow> flow_direction \<Rightarrow> flow_packet" where
  "packet_of packet transport direction = \<lparr>fp_direction = direction,
     fp_now_us = timestamp_us (dp_timestamp packet), fp_bytes = length (dp_raw packet),
     fp_payload_bytes = length (tp_bytes transport), fp_tcp_segment = tp_tcp transport,
     fp_payload = tp_bytes transport\<rparr>"

text \<open>The branch for a key the table holds.\<close>

definition observe_known ::
  "flow_table \<Rightarrow> decoded_packet \<Rightarrow> transport_payload \<Rightarrow> flow_route \<Rightarrow> flow_entry \<Rightarrow>
   flow_table \<times> flow_observation option" where
  "observe_known ft packet transport route entry =
     (case fe_observe entry (packet_of packet transport (fr_direction route)) (ft_config ft)
        (ft_stats ft) of
        (entry1, stats1, tcp) \<Rightarrow>
          (ft\<lparr>ft_entries := AList.update (fr_key route) entry1 (ft_entries ft), ft_stats := stats1\<rparr>,
           Some \<lparr>fo_key = fr_key route, fo_direction = fr_direction route,
             fo_packets = fe_packets entry1, fo_bytes = fe_bytes entry1, fo_is_new = False,
             fo_tcp = tcp\<rparr>))"

text \<open>Making room, and the branch for a new key.\<close>

definition make_room :: "flow_table \<Rightarrow> nat \<Rightarrow> flow_table" where
  "make_room ft now_us =
     (if length (ft_entries ft) \<ge> fc_max_flows (ft_config ft)
      then let ft1 = evict_idle ft now_us in
        if length (ft_entries ft1) \<ge> fc_max_flows (ft_config ft1) then evict_oldest ft1 else ft1
      else ft)"

definition observe_new ::
  "flow_table \<Rightarrow> decoded_packet \<Rightarrow> transport_payload \<Rightarrow> flow_route \<Rightarrow>
   flow_table \<times> flow_observation option" where
  "observe_new ft0 packet transport route =
     (let now_us = timestamp_us (dp_timestamp packet); ft = make_room ft0 now_us in
      if length (ft_entries ft) \<ge> fc_max_flows (ft_config ft)
      then (ft\<lparr>ft_stats := (ft_stats ft)\<lparr>fs_dropped_new_flows :=
              sat_add (fs_dropped_new_flows (ft_stats ft)) 1\<rparr>\<rparr>, None)
      else (case fe_observe (flow_entry_new now_us (fk_protocol (fr_key route)))
              (packet_of packet transport (fr_direction route)) (ft_config ft) (ft_stats ft) of
        (entry1, stats1, tcp) \<Rightarrow>
          (ft\<lparr>ft_entries := AList.update (fr_key route) entry1 (ft_entries ft),
              ft_stats := stats1\<lparr>fs_created_flows := sat_add (fs_created_flows stats1) 1\<rparr>\<rparr>,
           Some \<lparr>fo_key = fr_key route, fo_direction = fr_direction route,
             fo_packets = fe_packets entry1, fo_bytes = fe_bytes entry1, fo_is_new = True,
             fo_tcp = tcp\<rparr>)))"

definition observe_with_route ::
  "flow_table \<Rightarrow> decoded_packet \<Rightarrow> flow_route \<Rightarrow> flow_table \<times> flow_observation option" where
  "observe_with_route ft packet route =
     (let ft1 = ft\<lparr>ft_observed := sat_add (ft_observed ft) 1\<rparr>;
          ft2 = (if should_evict ft1 then evict_idle ft1 (timestamp_us (dp_timestamp packet)) else ft1)
      in case transport_payload_of packet of
           None \<Rightarrow> (ft2, None)
         | Some transport \<Rightarrow> (case map_of (ft_entries ft2) (fr_key route) of
             Some entry \<Rightarrow> observe_known ft2 packet transport route entry
           | None \<Rightarrow> observe_new ft2 packet transport route))"

definition flow_table_observe ::
  "flow_table \<Rightarrow> decoded_packet \<Rightarrow> flow_table \<times> flow_observation option" where
  "flow_table_observe ft packet = (case route_from_packet packet of
     None \<Rightarrow> (ft, None)
   | Some route \<Rightarrow> observe_with_route ft packet route)"

definition flow_table_get :: "flow_table \<Rightarrow> flow_key \<Rightarrow> flow_entry option" where
  "flow_table_get ft key = map_of (ft_entries ft) key"

definition flow_table_stats_of :: "flow_table \<Rightarrow> flow_table_stats" where
  "flow_table_stats_of ft = (ft_stats ft)\<lparr>fs_active_flows := length (ft_entries ft)\<rparr>"

subsection \<open>What a segment leaves alone\<close>

text \<open>The statistics that only the table itself updates.\<close>

definition table_counts :: "flow_table_stats \<Rightarrow> nat \<times> nat \<times> nat" where
  "table_counts s = (fs_created_flows s, fs_evicted_flows s, fs_dropped_new_flows s)"

text \<open>The statistics of released chunks: in total, and by the source of the chunk.\<close>

definition chunk_counts :: "flow_table_stats \<Rightarrow> nat \<times> nat \<times> nat \<times> nat" where
  "chunk_counts s = (fs_stream_bytes s, fs_current_bytes s, fs_buffered_bytes s, fs_trimmed_bytes s)"

lemmas count_defs = table_counts_def chunk_counts_def

lemma td_ahead_counts:
  assumes "td_ahead st seg payload config fb stats = (st', stats', status)"
  shows "table_counts stats' = table_counts stats \<and> chunk_counts stats' = chunk_counts stats"
  using assms by (auto simp: td_ahead_def note_retransmission_def count_defs
      split: buffer_outcome.splits prod.splits)

lemma td_sequenced_counts:
  assumes "td_sequenced st d seg payload config fb expected stats = (st', stats', status, chunks)"
  shows "table_counts stats' = table_counts stats \<and> chunk_counts stats' = chunk_counts stats"
  using assms td_ahead_counts
  by (auto simp: td_sequenced_def Let_def td_overlapping_def note_retransmission_def count_defs
      split: prod.splits if_splits)

lemma td_observe_counts:
  assumes "td_observe st d seg payload config fb stats = (st', stats', obs)"
  shows "table_counts stats' = table_counts stats \<and> chunk_counts stats' = chunk_counts stats"
  using assms
proof (cases rule: td_observe_cases)
  case (first st2)
  then show ?thesis
    by (auto simp: td_first_segment_def Let_def count_defs split: prod.splits if_splits)
qed (auto dest: td_sequenced_counts)

lemma observe_sources_table_counts:
  "table_counts (observe_stream_chunk_sources chunks stats) = table_counts stats"
  unfolding observe_stream_chunk_sources_def
proof (induction chunks arbitrary: stats)
  case (Cons c chunks)
  then show ?case by (simp add: count_defs split: chunk_source.splits)
qed simp

text \<open>\<open>tf_observe\<close> up to the statistics and flags that follow the observation.\<close>

lemma tf_observe_stats:
  assumes "tf_observe tf d seg payload config stats = (tf', stats', obs)"
  obtains st stats1 stats2 where
    "td_observe (dir_get (tf_directions tf) d) d seg payload config (tf_buffered_bytes tf) stats1
      = (st, stats2, obs)"
    "table_counts stats1 = table_counts stats" "chunk_counts stats1 = chunk_counts stats"
    "table_counts stats' = table_counts (observe_stream_chunk_sources (to_chunks obs) (stats2
      \<lparr>fs_stream_chunks := sat_add (fs_stream_chunks stats2) (length (to_chunks obs)),
       fs_stream_bytes := sat_add (fs_stream_bytes stats2) (stream_chunk_bytes (to_chunks obs))\<rparr>))"
    "chunk_counts stats' = chunk_counts (observe_stream_chunk_sources (to_chunks obs) (stats2
      \<lparr>fs_stream_chunks := sat_add (fs_stream_chunks stats2) (length (to_chunks obs)),
       fs_stream_bytes := sat_add (fs_stream_bytes stats2) (stream_chunk_bytes (to_chunks obs))\<rparr>))"
proof -
  define stats1 where "stats1 = (let s = (if fl_syn (seg_flags seg)
      then stats\<lparr>fs_syns := sat_add (fs_syns stats) 1\<rparr> else stats) in
    if fl_fin (seg_flags seg) then s\<lparr>fs_fins := sat_add (fs_fins s) 1\<rparr> else s)"
  obtain st stats2 ob where td: "td_observe (dir_get (tf_directions tf) d) d seg payload config
      (tf_buffered_bytes tf) stats1 = (st, stats2, ob)" by (metis prod_cases3)
  have "table_counts stats1 = table_counts stats" "chunk_counts stats1 = chunk_counts stats"
    by (simp_all add: stats1_def count_defs Let_def)
  with assms td show thesis
    by (intro that[of stats1 st stats2])
      (auto simp: tf_observe_def Let_def stats1_def count_defs split: if_splits)
qed

lemma tf_observe_table_counts:
  assumes "tf_observe tf d seg payload config stats = (tf', stats', obs)"
  shows "table_counts stats' = table_counts stats"
proof -
  obtain st s1 s2 where td: "td_observe (dir_get (tf_directions tf) d) d seg payload config
      (tf_buffered_bytes tf) s1 = (st, s2, obs)" "table_counts s1 = table_counts stats"
    and fin: "table_counts stats' = table_counts (observe_stream_chunk_sources (to_chunks obs) (s2
      \<lparr>fs_stream_chunks := sat_add (fs_stream_chunks s2) (length (to_chunks obs)),
       fs_stream_bytes := sat_add (fs_stream_bytes s2) (stream_chunk_bytes (to_chunks obs))\<rparr>))"
    by (rule tf_observe_stats[OF assms])
  then show ?thesis
    using td_observe_counts[OF td(1)] unfolding fin observe_sources_table_counts
    by (simp add: table_counts_def)
qed

text \<open>While the byte total has not saturated, it is the sum of the three sources.\<close>

definition chunk_bytes_balanced :: "flow_table_stats \<Rightarrow> bool" where
  "chunk_bytes_balanced s \<longleftrightarrow>
     fs_stream_bytes s = fs_current_bytes s + fs_buffered_bytes s + fs_trimmed_bytes s"

lemma observe_sources_bytes:
  assumes "fs_current_bytes stats + fs_buffered_bytes stats + fs_trimmed_bytes stats
      + stream_chunk_bytes chunks \<le> u64_max"
  shows "fs_stream_bytes (observe_stream_chunk_sources chunks stats) = fs_stream_bytes stats \<and>
    fs_current_bytes (observe_stream_chunk_sources chunks stats)
      + fs_buffered_bytes (observe_stream_chunk_sources chunks stats)
      + fs_trimmed_bytes (observe_stream_chunk_sources chunks stats)
    = fs_current_bytes stats + fs_buffered_bytes stats + fs_trimmed_bytes stats + stream_chunk_bytes chunks"
  using assms unfolding observe_stream_chunk_sources_def
proof (induction chunks arbitrary: stats)
  case (Cons c chunks)
  have "chunk_len c + (fs_current_bytes stats + fs_buffered_bytes stats + fs_trimmed_bytes stats) \<le> u64_max"
    using Cons.prems by (simp add: stream_chunk_bytes_def)
  then have "fs_stream_bytes (observe_chunk_source stats c) = fs_stream_bytes stats \<and>
    fs_current_bytes (observe_chunk_source stats c) + fs_buffered_bytes (observe_chunk_source stats c)
      + fs_trimmed_bytes (observe_chunk_source stats c)
    = fs_current_bytes stats + fs_buffered_bytes stats + fs_trimmed_bytes stats + chunk_len c"
    by (cases "ch_source c") (simp_all add: sat_add_exact)
  with Cons.IH[of "observe_chunk_source stats c"] Cons.prems show ?case
    by (simp add: stream_chunk_bytes_def del: observe_chunk_source.simps)
qed (simp add: stream_chunk_bytes_def)

lemma tf_observe_balanced:
  assumes "tf_observe tf d seg payload config stats = (tf', stats', obs)"
    and "chunk_bytes_balanced stats" and "fs_stream_bytes stats' < u64_max"
  shows "chunk_bytes_balanced stats'
    \<and> fs_stream_bytes stats' = fs_stream_bytes stats + stream_chunk_bytes (to_chunks obs)"
proof -
  obtain st s1 s2 where td: "td_observe (dir_get (tf_directions tf) d) d seg payload config
      (tf_buffered_bytes tf) s1 = (st, s2, obs)" "chunk_counts s1 = chunk_counts stats"
    and fin: "chunk_counts stats' = chunk_counts (observe_stream_chunk_sources (to_chunks obs) (s2
      \<lparr>fs_stream_chunks := sat_add (fs_stream_chunks s2) (length (to_chunks obs)),
       fs_stream_bytes := sat_add (fs_stream_bytes s2) (stream_chunk_bytes (to_chunks obs))\<rparr>))"
    (is "_ = chunk_counts (observe_stream_chunk_sources _ ?s3)")
    by (rule tf_observe_stats[OF assms(1)])
  have s2: "chunk_counts s2 = chunk_counts stats" using td_observe_counts[OF td(1)] td(2) by simp
  have total: "fs_stream_bytes (observe_stream_chunk_sources ch s) = fs_stream_bytes s" for ch s
    unfolding observe_stream_chunk_sources_def
    by (induction ch arbitrary: s) (simp_all split: chunk_source.splits)
  have "fs_stream_bytes stats' = sat_add (fs_stream_bytes stats) (stream_chunk_bytes (to_chunks obs))"
    using fin s2 by (simp add: chunk_counts_def total)
  then have exact: "fs_stream_bytes stats + stream_chunk_bytes (to_chunks obs) < u64_max"
    "fs_stream_bytes stats' = fs_stream_bytes stats + stream_chunk_bytes (to_chunks obs)"
    using assms(3) by (auto simp: sat_add_def min_def split: if_splits)
  then show ?thesis
    using observe_sources_bytes[of ?s3 "to_chunks obs"] fin s2 assms(2)
    by (simp add: chunk_counts_def chunk_bytes_balanced_def)
qed

subsection \<open>The table invariant\<close>

definition entry_ok :: "flow_table_config \<Rightarrow> flow_entry \<Rightarrow> bool" where
  "entry_ok config e = (case fe_transport e of TcpState tf \<Rightarrow> tf_ok config tf | Datagram \<Rightarrow> True)"

definition ft_ok :: "flow_table_config \<Rightarrow> flow_table \<Rightarrow> bool" where
  "ft_ok config ft \<longleftrightarrow> ft_config ft = config \<and> tbl_ok (ft_entries ft) \<and>
     length (ft_entries ft) \<le> fc_max_flows config \<and>
     (\<forall>(k, e) \<in> set (ft_entries ft). entry_ok config e)"

definition config_ok :: "flow_table_config \<Rightarrow> bool" where
  "config_ok config \<longleftrightarrow> 0 < fc_max_flows config \<and> fc_max_buffered_bytes config < u64_max"

lemma fe_observe_ok:
  assumes "fe_observe e p config stats = (e', stats', tcp)" "entry_ok config e" "config_ok config"
  shows "entry_ok config e'"
  using assms tf_observe_keeps_ok
  by (auto simp: fe_observe_def entry_ok_def config_ok_def Let_def
      split: transport_state.splits option.splits prod.splits)

lemma fe_observe_counts:
  assumes "fe_observe e p config stats = (e', stats', tcp)"
  shows "table_counts stats' = table_counts stats"
  using assms tf_observe_table_counts
  by (auto simp: fe_observe_def Let_def split: transport_state.splits option.splits prod.splits)

lemma fe_observe_seen:
  assumes "fe_observe e p config stats = (e', stats', tcp)"
  shows "fe_last_seen_us e' = fp_now_us p" "fe_first_seen_us e' = fe_first_seen_us e"
    "fe_packets e' = sat_add (fe_packets e) 1" "fe_bytes e' = sat_add (fe_bytes e) (fp_bytes p)"
  using assms
  by (auto simp: fe_observe_def Let_def split: transport_state.splits option.splits prod.splits)

lemma flow_entry_new_ok [simp]: "entry_ok config (flow_entry_new now protocol)"
  by (simp add: entry_ok_def flow_entry_new_def split: transport_protocol.splits)

lemma evict_idle_ok: "ft_ok config ft \<Longrightarrow> ft_ok config (evict_idle ft now)"
  by (auto simp: ft_ok_def evict_idle_def Let_def intro: order.trans[OF length_filter_le])

lemma evict_oldest_ok: "ft_ok config ft \<Longrightarrow> ft_ok config (evict_oldest ft)"
proof -
  assume ok: "ft_ok config ft"
  have "set (AList.delete k m) \<subseteq> set m" for k and m :: "(flow_key \<times> flow_entry) list"
    by (auto simp: AList.delete_eq)
  then show ?thesis
    using ok length_delete_le[of _ "ft_entries ft"]
    by (fastforce simp: ft_ok_def evict_oldest_def split: option.splits intro: order.trans)
qed

lemma evict_oldest_room:
  assumes "tbl_ok (ft_entries ft)" "ft_entries ft \<noteq> []"
  shows "Suc (length (ft_entries (evict_oldest ft))) = length (ft_entries ft)"
proof -
  obtain k e where min: "min_by_key (fe_last_seen_us \<circ> snd) (ft_entries ft) = Some (k, e)"
    using assms(2) by (metis min_by_key_None option.exhaust surj_pair)
  then have "k \<in> fst ` set (ft_entries ft)"
    using min_by_key_SomeD[OF min] by force
  then show ?thesis
    using length_delete_present[OF assms(1)] min by (simp add: evict_oldest_def)
qed

lemma make_room_ok: "ft_ok config ft \<Longrightarrow> ft_ok config (make_room ft now)"
  by (simp add: make_room_def Let_def evict_idle_ok evict_oldest_ok)

lemma make_room_room:
  assumes "ft_ok config ft" "config_ok config"
  shows "length (ft_entries (make_room ft now)) < fc_max_flows config"
proof -
  have conf: "ft_config ft = config" "ft_config (evict_idle ft now) = config"
    using assms(1) evict_idle_ok by (auto simp: ft_ok_def)
  show ?thesis
  proof (cases "fc_max_flows config \<le> length (ft_entries (evict_idle ft now))")
    case True
    have ok: "ft_ok config (evict_idle ft now)" by (rule evict_idle_ok[OF assms(1)])
    have "ft_entries (evict_idle ft now) \<noteq> []"
      using True assms(2) by (auto simp: config_ok_def)
    then have "Suc (length (ft_entries (evict_oldest (evict_idle ft now)))) \<le> fc_max_flows config"
      using evict_oldest_room[of "evict_idle ft now"] ok by (simp add: ft_ok_def)
    then show ?thesis using True conf by (auto simp: make_room_def Let_def)
  next
    case False
    then show ?thesis using conf by (auto simp: make_room_def Let_def)
  qed
qed

lemma ft_ok_update:
  assumes "ft_ok config ft" "entry_ok config e"
    and "map_of (ft_entries ft) k \<noteq> None \<or> length (ft_entries ft) < fc_max_flows config"
  shows "ft_ok config (ft\<lparr>ft_entries := AList.update k e (ft_entries ft), ft_stats := stats\<rparr>)"
proof -
  have "length (AList.update k e (ft_entries ft)) \<le> fc_max_flows config"
    using assms length_update_present[of "ft_entries ft" k e] length_update_fresh[of "ft_entries ft" k e]
    by (cases "map_of (ft_entries ft) k") (auto simp: ft_ok_def)
  moreover have "set (AList.update k e m) \<subseteq> insert (k, e) (set m)"
    for m :: "(flow_key \<times> flow_entry) list"
    by (induction m) auto
  ultimately show ?thesis using assms(1,2) by (fastforce simp: ft_ok_def)
qed

definition before_dispatch :: "flow_table \<Rightarrow> decoded_packet \<Rightarrow> flow_table" where
  "before_dispatch ft packet = (let ft1 = ft\<lparr>ft_observed := sat_add (ft_observed ft) 1\<rparr> in
     if should_evict ft1 then evict_idle ft1 (timestamp_us (dp_timestamp packet)) else ft1)"

lemma before_dispatch_ok: "ft_ok config ft \<Longrightarrow> ft_ok config (before_dispatch ft packet)"
  using evict_idle_ok[of config "ft\<lparr>ft_observed := sat_add (ft_observed ft) 1\<rparr>"]
  by (simp add: before_dispatch_def Let_def ft_ok_def)

text \<open>The shapes of one observation, for a table that can hold an entry.\<close>

lemma observe_with_route_cases:
  assumes "observe_with_route ft packet route = (ft', obs)" "ft_ok config ft" "config_ok config"
  obtains
    (no_transport) "transport_payload_of packet = None" "ft' = before_dispatch ft packet" "obs = None"
  | (entry) transport base0 e0 e1 stats1 stats2 tcp where "transport_payload_of packet = Some transport"
      "ft_ok config base0"
      "base0 = before_dispatch ft packet \<and> map_of (ft_entries base0) (fr_key route) = Some e0 \<and> stats2 = stats1
       \<or> base0 = make_room (before_dispatch ft packet) (timestamp_us (dp_timestamp packet))
         \<and> map_of (ft_entries (before_dispatch ft packet)) (fr_key route) = None
         \<and> e0 = flow_entry_new (timestamp_us (dp_timestamp packet)) (fk_protocol (fr_key route))
         \<and> length (ft_entries base0) < fc_max_flows config
         \<and> stats2 = stats1\<lparr>fs_created_flows := sat_add (fs_created_flows stats1) 1\<rparr>"
      "fe_observe e0 (packet_of packet transport (fr_direction route)) config (ft_stats base0)
        = (e1, stats1, tcp)"
      "entry_ok config e0"
      "ft' = base0\<lparr>ft_entries := AList.update (fr_key route) e1 (ft_entries base0), ft_stats := stats2\<rparr>"
      "obs \<noteq> None" "fo_tcp (the obs) = tcp" "fo_key (the obs) = fr_key route"
proof -
  let ?b = "before_dispatch ft packet"
  have ok: "ft_ok config ?b" by (rule before_dispatch_ok[OF assms(2)])
  then have conf: "ft_config ?b = config" by (simp add: ft_ok_def)
  have run: "(case transport_payload_of packet of None \<Rightarrow> (?b, None)
     | Some transport \<Rightarrow> (case map_of (ft_entries ?b) (fr_key route) of
             Some entry \<Rightarrow> observe_known ?b packet transport route entry
           | None \<Rightarrow> observe_new ?b packet transport route)) = (ft', obs)"
    using assms(1) unfolding observe_with_route_def before_dispatch_def Let_def .
  show thesis
  proof (cases "transport_payload_of packet")
    case None
    with run show thesis by (intro that(1)) auto
  next
    case (Some transport)
    note tr = this
    show thesis
    proof (cases "map_of (ft_entries ?b) (fr_key route)")
      case (Some e0)
      have eok: "entry_ok config e0"
        using ok map_of_SomeD[OF Some] by (auto simp: ft_ok_def)
      obtain e1 s1 tcp where fe: "fe_observe e0 (packet_of packet transport (fr_direction route)) config
          (ft_stats ?b) = (e1, s1, tcp)" by (metis prod_cases3)
      show thesis
        by (rule that(2)[OF tr ok _ fe eok, of s1])
          (use run tr Some fe conf in \<open>auto simp: observe_known_def\<close>)
    next
      case None
      let ?now = "timestamp_us (dp_timestamp packet)"
      let ?m = "make_room ?b ?now"
      let ?e0 = "flow_entry_new ?now (fk_protocol (fr_key route))"
      have okm: "ft_ok config ?m" by (rule make_room_ok[OF ok])
      have room: "length (ft_entries ?m) < fc_max_flows config" by (rule make_room_room[OF ok assms(3)])
      have confm: "ft_config ?m = config" using okm by (simp add: ft_ok_def)
      obtain e1 s1 tcp where fe: "fe_observe ?e0 (packet_of packet transport (fr_direction route)) config
          (ft_stats ?m) = (e1, s1, tcp)" by (metis prod_cases3)
      show thesis
        by (rule that(2)[OF tr okm _ fe flow_entry_new_ok,
              of "s1\<lparr>fs_created_flows := sat_add (fs_created_flows s1) 1\<rparr>"])
          (use run tr None fe room confm in \<open>auto simp: observe_new_def Let_def\<close>)
    qed
  qed
qed

lemma observe_with_route_ok:
  assumes "ft_ok config ft" "config_ok config"
  shows "ft_ok config (fst (observe_with_route ft packet route))"
proof -
  obtain ft' obs where run: "observe_with_route ft packet route = (ft', obs)" by fastforce
  from run assms have "ft_ok config ft'"
  proof (cases rule: observe_with_route_cases)
    case no_transport
    then show ?thesis using before_dispatch_ok[OF assms(1)] by simp
  next
    case (entry transport base0 e0 e1 stats1 stats2 tcp)
    have "entry_ok config e1" by (rule fe_observe_ok[OF entry(4,5) assms(2)])
    then show ?thesis
      unfolding entry(6) using entry(2,3) by (intro ft_ok_update) auto
  qed
  then show ?thesis by (simp add: run)
qed

subsection \<open>Flow counts\<close>

text \<open>
  Every flow the table created is active or was evicted, and none was refused.  \<open>created \<le> observed\<close>
  rules out saturation of the counters before that of the packet counter.
\<close>

definition ft_counts_ok :: "flow_table \<Rightarrow> bool" where
  "ft_counts_ok ft \<longleftrightarrow>
     fs_created_flows (ft_stats ft) = length (ft_entries ft) + fs_evicted_flows (ft_stats ft) \<and>
     fs_created_flows (ft_stats ft) \<le> ft_observed ft \<and>
     fs_dropped_new_flows (ft_stats ft) = 0"

lemma evict_idle_counts:
  assumes "ft_counts_ok ft" "ft_observed ft \<le> u64_max"
  shows "ft_counts_ok (evict_idle ft now)"
proof -
  let ?kept = "filter (\<lambda>(_, entry). now - fe_last_seen_us entry
      \<le> fc_idle_timeout_us (ft_config ft)) (ft_entries ft)"
  obtain n where n: "length (ft_entries ft) = length ?kept + n"
    using le_Suc_ex[OF length_filter_le] by blast
  then have "fs_evicted_flows (ft_stats ft) + n \<le> u64_max"
    using assms unfolding ft_counts_ok_def by linarith
  with n show ?thesis
    using assms(1) by (simp add: ft_counts_ok_def evict_idle_def Let_def sat_add_exact)
qed

lemma evict_idle_observed [simp]: "ft_observed (evict_idle ft now) = ft_observed ft"
  by (simp add: evict_idle_def Let_def)

lemma evict_oldest_counts:
  assumes "ft_counts_ok ft" "ft_observed ft \<le> u64_max" "tbl_ok (ft_entries ft)"
  shows "ft_counts_ok (evict_oldest ft)"
proof (cases "ft_entries ft = []")
  case True
  then show ?thesis using assms(1) by (simp add: evict_oldest_def min_by_key_def)
next
  case False
  have "fs_evicted_flows (ft_stats ft) + 1 \<le> u64_max"
    using assms(1,2) False by (cases "ft_entries ft") (auto simp: ft_counts_ok_def)
  moreover have "fs_created_flows (ft_stats (evict_oldest ft)) = fs_created_flows (ft_stats ft)"
    "fs_dropped_new_flows (ft_stats (evict_oldest ft)) = fs_dropped_new_flows (ft_stats ft)"
    "ft_observed (evict_oldest ft) = ft_observed ft"
    by (simp_all add: evict_oldest_def split: option.splits prod.splits)
  moreover have "fs_evicted_flows (ft_stats (evict_oldest ft)) = sat_add (fs_evicted_flows (ft_stats ft)) 1"
    using False by (auto simp: evict_oldest_def split: option.splits)
  ultimately show ?thesis
    using evict_oldest_room[OF assms(3) False] assms(1) by (simp add: ft_counts_ok_def sat_add_exact)
qed

lemma evict_oldest_observed [simp]: "ft_observed (evict_oldest ft) = ft_observed ft"
  by (simp add: evict_oldest_def split: option.splits prod.splits)

lemma make_room_counts:
  assumes "ft_counts_ok ft" "ft_observed ft \<le> u64_max" "ft_ok config ft"
  shows "ft_counts_ok (make_room ft now)" "ft_observed (make_room ft now) = ft_observed ft"
  using assms evict_idle_counts[OF assms(1,2)] evict_idle_ok[OF assms(3), of now]
    evict_oldest_counts[of "evict_idle ft now"]
  by (auto simp: make_room_def Let_def ft_ok_def)

lemma before_dispatch_counts:
  assumes "ft_counts_ok ft" "ft_observed ft < u64_max"
  shows "ft_counts_ok (before_dispatch ft packet)"
    "ft_observed (before_dispatch ft packet) = Suc (ft_observed ft)"
    "fs_created_flows (ft_stats (before_dispatch ft packet)) \<le> ft_observed ft"
proof -
  let ?ft1 = "ft\<lparr>ft_observed := sat_add (ft_observed ft) 1\<rparr>"
  have obs: "ft_observed ?ft1 = Suc (ft_observed ft)" using assms(2) by (simp add: sat_add_exact)
  have "ft_counts_ok ?ft1" using assms obs by (simp add: ft_counts_ok_def)
  then show "ft_counts_ok (before_dispatch ft packet)"
    "ft_observed (before_dispatch ft packet) = Suc (ft_observed ft)"
    "fs_created_flows (ft_stats (before_dispatch ft packet)) \<le> ft_observed ft"
    using evict_idle_counts[of ?ft1] obs assms
    by (auto simp: before_dispatch_def Let_def ft_counts_ok_def evict_idle_def)
qed

lemma observe_with_route_counts:
  assumes "ft_ok config ft" "config_ok config" "ft_counts_ok ft" "ft_observed ft < u64_max"
  shows "ft_counts_ok (fst (observe_with_route ft packet route))
    \<and> ft_observed (fst (observe_with_route ft packet route)) = Suc (ft_observed ft)"
proof -
  let ?b = "before_dispatch ft packet"
  note b = before_dispatch_counts[OF assms(3,4), of packet]
  obtain ft' obs where run: "observe_with_route ft packet route = (ft', obs)" by fastforce
  from run assms(1,2) have "ft_counts_ok ft' \<and> ft_observed ft' = Suc (ft_observed ft)"
  proof (cases rule: observe_with_route_cases)
    case no_transport
    then show ?thesis using b by simp
  next
    case (entry transport base0 e0 e1 stats1 stats2 tcp)
    have counts: "table_counts stats1 = table_counts (ft_stats base0)"
      by (rule fe_observe_counts[OF entry(4)])
    from entry(3) show ?thesis
    proof (elim disjE conjE)
      assume base: "base0 = ?b" and hit: "map_of (ft_entries base0) (fr_key route) = Some e0"
        and stats: "stats2 = stats1"
      then show ?thesis
        using b counts length_update_present[of "ft_entries base0" "fr_key route" e1]
        by (simp add: entry(6) ft_counts_ok_def table_counts_def)
    next
      assume base: "base0 = make_room ?b (timestamp_us (dp_timestamp packet))"
        and miss: "map_of (ft_entries ?b) (fr_key route) = None"
        and stats: "stats2 = stats1\<lparr>fs_created_flows := sat_add (fs_created_flows stats1) 1\<rparr>"
      have okb: "ft_ok config ?b" by (rule before_dispatch_ok[OF assms(1)])
      have m: "ft_counts_ok base0" "ft_observed base0 = Suc (ft_observed ft)"
        using make_room_counts[OF b(1) _ okb] b(2) assms(4) by (simp_all add: base)
      have created: "fs_created_flows (ft_stats base0) \<le> ft_observed ft"
        using b(3) by (simp add: base make_room_def evict_idle_def evict_oldest_def Let_def
            split: option.splits prod.splits)
      have "set (ft_entries base0) \<subseteq> set (ft_entries ?b)"
        by (auto simp: base make_room_def evict_idle_def evict_oldest_def Let_def AList.delete_eq
            split: option.splits prod.splits if_splits)
      then have "map_of (ft_entries base0) (fr_key route) = None"
        using miss by (auto simp: map_of_eq_None_iff)
      from length_update_fresh[OF this, of e1] show ?thesis
        using m created counts stats assms(4)
        by (simp add: entry(6) ft_counts_ok_def table_counts_def sat_add_exact)
    qed
  qed
  then show ?thesis by (simp add: run)
qed

subsection \<open>Runs\<close>

definition flow_keys :: "flow_table \<Rightarrow> flow_key set" where
  "flow_keys ft = fst ` set (ft_entries ft)"

definition flow_step :: "decoded_packet \<times> flow_route \<Rightarrow> flow_table \<Rightarrow> flow_table" where
  "flow_step pr ft = fst (observe_with_route ft (fst pr) (snd pr))"

definition flow_target :: "decoded_packet \<times> flow_route \<Rightarrow> flow_key option" where
  "flow_target pr = (case transport_payload_of (fst pr) of
     None \<Rightarrow> None | Some _ \<Rightarrow> Some (fr_key (snd pr)))"

definition flow_inv :: "flow_table \<Rightarrow> bool" where
  "flow_inv ft \<longleftrightarrow> ft_ok (ft_config ft) ft \<and> config_ok (ft_config ft)"

lemma evict_entries_subset:
  "set (ft_entries (evict_idle ft now)) \<subseteq> set (ft_entries ft)"
  "set (ft_entries (evict_oldest ft)) \<subseteq> set (ft_entries ft)"
  "set (ft_entries (make_room ft now)) \<subseteq> set (ft_entries ft)"
  "set (ft_entries (before_dispatch ft packet)) \<subseteq> set (ft_entries ft)"
  by (auto simp: make_room_def before_dispatch_def evict_idle_def evict_oldest_def Let_def
      AList.delete_eq split: option.splits prod.splits if_splits)

lemma observe_with_route_keys:
  assumes "ft_ok config ft" "config_ok config"
  shows "flow_keys (fst (observe_with_route ft packet route))
      \<subseteq> flow_keys ft \<union> set_option (flow_target (packet, route))"
    and "flow_target (packet, route) = Some k \<Longrightarrow>
      k \<in> flow_keys (fst (observe_with_route ft packet route))"
proof -
  obtain ft' obs where run: "observe_with_route ft packet route = (ft', obs)" by fastforce
  from run assms have "flow_keys ft' \<subseteq> flow_keys ft \<union> set_option (flow_target (packet, route))
    \<and> (flow_target (packet, route) = Some k \<longrightarrow> k \<in> flow_keys ft')"
  proof (cases rule: observe_with_route_cases)
    case no_transport
    then show ?thesis using evict_entries_subset(4)[of ft packet]
      by (auto simp: flow_keys_def flow_target_def)
  next
    case (entry transport base0 e0 e1 stats1 stats2 tcp)
    have "set (ft_entries base0) \<subseteq> set (ft_entries ft)"
      using entry(3) evict_entries_subset(3,4) by blast
    then show ?thesis
      using entry(1) by (auto simp: entry(6) flow_keys_def flow_target_def tbl_keys_update)
  qed
  then show "flow_keys (fst (observe_with_route ft packet route))
      \<subseteq> flow_keys ft \<union> set_option (flow_target (packet, route))"
    and "flow_target (packet, route) = Some k \<Longrightarrow>
      k \<in> flow_keys (fst (observe_with_route ft packet route))"
    by (auto simp: run)
qed

lemma flow_keys_card: "ft_ok config ft \<Longrightarrow> card (flow_keys ft) = length (ft_entries ft)"
  by (metis distinct_card flow_keys_def ft_ok_def length_map list.set_map tbl_ok_def)

lemma flow_step_config:
  assumes "flow_inv ft"
  shows "ft_config (flow_step pr ft) = ft_config ft" "ft_ok (ft_config ft) (flow_step pr ft)"
proof -
  show "ft_ok (ft_config ft) (flow_step pr ft)"
    using assms observe_with_route_ok unfolding flow_step_def flow_inv_def by blast
  then show "ft_config (flow_step pr ft) = ft_config ft" by (simp add: ft_ok_def)
qed

lemma flow_step_inv: "flow_inv ft \<Longrightarrow> flow_inv (flow_step pr ft)"
  using flow_step_config[of ft pr] by (simp only: flow_inv_def)

lemma flow_step_keys:
  assumes "flow_inv ft"
  shows "flow_keys (flow_step pr ft) \<subseteq> flow_keys ft \<union> set_option (flow_target pr)"
    and "flow_target pr = Some k \<Longrightarrow> k \<in> flow_keys (flow_step pr ft)"
  using observe_with_route_keys[of "ft_config ft" ft "fst pr" "snd pr"] assms
  unfolding flow_step_def flow_inv_def prod.collapse by blast+

lemma flow_inv_card:
  "flow_inv ft \<Longrightarrow> finite (flow_keys ft) \<and> card (flow_keys ft) \<le> fc_max_flows (ft_config ft)"
  using flow_keys_card[of "ft_config ft" ft] by (simp add: flow_inv_def ft_ok_def) (simp add: flow_keys_def)

interpretation flows: bounded_registry flow_step flow_keys flow_target flow_inv
  "\<lambda>ft. fc_max_flows (ft_config ft)"
  by unfold_locales
    (rule flow_step_inv flow_step_keys flow_inv_card arg_cong[OF flow_step_config(1)]; assumption)+

lemma flow_table_new_inv: "config_ok config \<Longrightarrow> flow_inv (flow_table_new config)"
  by (simp add: flow_inv_def ft_ok_def flow_table_new_def)


text \<open>
  C12. Flow accounting: over any run of at most \<open>2 ^ 64 - 1\<close> packets the flows created are the flows
  active plus the flows evicted, and no new flow was ever refused; the counter of refused flows
  stays zero.
\<close>

theorem flow_table_accounting:
  assumes "config_ok config" "length prs \<le> u64_max"
  shows "fs_created_flows (ft_stats (fold flow_step prs (flow_table_new config)))
      = length (ft_entries (fold flow_step prs (flow_table_new config)))
        + fs_evicted_flows (ft_stats (fold flow_step prs (flow_table_new config)))
    \<and> fs_dropped_new_flows (ft_stats (fold flow_step prs (flow_table_new config))) = 0"
proof -
  have main: "ft_counts_ok (fold flow_step prs ft) \<and> ft_observed (fold flow_step prs ft) = ft_observed ft + length prs"
    if "flow_inv ft" "ft_counts_ok ft" "ft_observed ft + length prs \<le> u64_max" for ft
    using that
  proof (induction prs arbitrary: ft)
    case (Cons pr prs)
    have "ft_counts_ok (flow_step pr ft) \<and> ft_observed (flow_step pr ft) = Suc (ft_observed ft)"
      unfolding flow_step_def
      by (rule observe_with_route_counts) (use Cons.prems in \<open>auto simp: flow_inv_def\<close>)
    with Cons.IH[OF flows.inv_step[OF Cons.prems(1)], of pr] Cons.prems(3) show ?case by simp
  qed simp
  have "ft_counts_ok (flow_table_new config)" "ft_observed (flow_table_new config) + length prs \<le> u64_max"
    using assms(2) by (simp_all add: ft_counts_ok_def flow_table_new_def stats_default_def)
  from main[OF flow_table_new_inv[OF assms(1)] this] show ?thesis
    unfolding ft_counts_ok_def by blast
qed

text \<open>
  One packet touches one flow.  Every entry of another flow is kept as it was or evicted; the
  packet's own flow continues from its entry, or from a fresh one when the table has none, and its
  observation reports what reassembly released.
\<close>

theorem observe_with_route_frame:
  assumes "ft_ok config ft" "config_ok config" "transport_payload_of packet = Some transport"
  shows "(\<forall>k. k \<noteq> fr_key route \<longrightarrow>
      map_of (ft_entries (fst (observe_with_route ft packet route))) k \<in> {None, map_of (ft_entries ft) k})
    \<and> (\<exists>e0 stats0 e1 stats1 tcp.
        (e0 = flow_entry_new (timestamp_us (dp_timestamp packet)) (fk_protocol (fr_key route))
          \<or> map_of (ft_entries ft) (fr_key route) = Some e0)
        \<and> fe_observe e0 (packet_of packet transport (fr_direction route)) config stats0 = (e1, stats1, tcp)
        \<and> map_of (ft_entries (fst (observe_with_route ft packet route))) (fr_key route) = Some e1
        \<and> map_option fo_tcp (snd (observe_with_route ft packet route)) = Some tcp)"
proof -
  obtain ft' obs where run: "observe_with_route ft packet route = (ft', obs)" by fastforce
  from run assms(1,2) have "(\<forall>k. k \<noteq> fr_key route \<longrightarrow> map_of (ft_entries ft') k \<in> {None, map_of (ft_entries ft) k})
    \<and> (\<exists>e0 stats0 e1 stats1 tcp.
        (e0 = flow_entry_new (timestamp_us (dp_timestamp packet)) (fk_protocol (fr_key route))
          \<or> map_of (ft_entries ft) (fr_key route) = Some e0)
        \<and> fe_observe e0 (packet_of packet transport (fr_direction route)) config stats0 = (e1, stats1, tcp)
        \<and> map_of (ft_entries ft') (fr_key route) = Some e1 \<and> map_option fo_tcp obs = Some tcp)"
  proof (cases rule: observe_with_route_cases)
    case no_transport
    then show ?thesis using assms(3) by simp
  next
    case (entry tr base0 e0 e1 stats1 stats2 tcp)
    have sub: "set (ft_entries base0) \<subseteq> set (ft_entries ft)"
      using entry(3) evict_entries_subset(3,4) by blast
    have ok: "tbl_ok (ft_entries base0)" "tbl_ok (ft_entries ft)"
      using entry(2) assms(1) by (simp_all add: ft_ok_def)
    have same: "map_of (ft_entries base0) k \<in> {None, map_of (ft_entries ft) k}" for k
    proof (cases "map_of (ft_entries base0) k")
      case (Some e)
      then have "map_of (ft_entries ft) k = Some e"
        using sub tbl_map_of_iff[OF ok(1)] tbl_map_of_iff[OF ok(2)] by blast
      with Some show ?thesis by simp
    qed simp
    have e0: "e0 = flow_entry_new (timestamp_us (dp_timestamp packet)) (fk_protocol (fr_key route))
        \<or> map_of (ft_entries ft) (fr_key route) = Some e0"
      using entry(3) same[of "fr_key route"] by auto
    have upd: "map_of (ft_entries ft') k = (if k = fr_key route then Some e1 else map_of (ft_entries base0) k)" for k
      by (simp add: entry(6) update_conv')
    have "transport = tr" using entry(1) assms(3) by simp
    moreover have "map_option fo_tcp obs = Some tcp" using entry(7,8) by auto
    ultimately show ?thesis
      using e0 entry(4) upd same
      by (intro conjI exI[of _ e0] exI[of _ "ft_stats base0"] exI[of _ e1] exI[of _ stats1] exI[of _ tcp])
        simp_all
  qed
  then show ?thesis by (simp add: run)
qed

subsection \<open>Byte accounting\<close>

lemma emitted_length: "length (emitted chunks) = stream_chunk_bytes chunks"
  by (simp add: emitted_def stream_chunk_bytes_def length_concat comp_def
      chunk_len_def[abs_def])

lemma tf_observe_stream_bytes:
  assumes "tf_observe tf d seg payload config stats = (tf', stats', obs)" "fs_stream_bytes stats \<le> u64_max"
  shows "fs_stream_bytes stats \<le> fs_stream_bytes stats' \<and> fs_stream_bytes stats' \<le> u64_max"
proof -
  obtain st s1 s2 where td: "td_observe (dir_get (tf_directions tf) d) d seg payload config
      (tf_buffered_bytes tf) s1 = (st, s2, obs)" "chunk_counts s1 = chunk_counts stats"
    and fin: "chunk_counts stats' = chunk_counts (observe_stream_chunk_sources (to_chunks obs) (s2
      \<lparr>fs_stream_chunks := sat_add (fs_stream_chunks s2) (length (to_chunks obs)),
       fs_stream_bytes := sat_add (fs_stream_bytes s2) (stream_chunk_bytes (to_chunks obs))\<rparr>))"
    by (rule tf_observe_stats[OF assms(1)])
  have total: "fs_stream_bytes (observe_stream_chunk_sources ch s) = fs_stream_bytes s" for ch s
    unfolding observe_stream_chunk_sources_def
    by (induction ch arbitrary: s) (simp_all split: chunk_source.splits)
  have "fs_stream_bytes stats' = sat_add (fs_stream_bytes stats) (stream_chunk_bytes (to_chunks obs))"
    using fin td_observe_counts[OF td(1)] td(2) by (simp add: chunk_counts_def total)
  then show ?thesis using assms(2) by (simp add: sat_add_grows)
qed

lemma tf_run_balanced:
  assumes "tf_run config tf stats evs = (tf', stats', obs)" "fs_stream_bytes stats' < u64_max"
    and "chunk_bytes_balanced stats" "fs_stream_bytes stats \<le> u64_max"
  shows "chunk_bytes_balanced stats' \<and> fs_stream_bytes stats \<le> fs_stream_bytes stats' \<and>
    fs_stream_bytes stats' = fs_stream_bytes stats + length (delivered AToB obs) + length (delivered BToA obs)"
  using assms
proof (induction evs arbitrary: tf stats obs)
  case Nil
  then show ?case by (simp add: delivered_def)
next
  case (Cons ev evs)
  obtain d seg payload where ev: "ev = (d, seg, payload)" by (cases ev) auto
  obtain tf1 stats1 ob rest where step: "tf_observe tf d seg payload config stats = (tf1, stats1, ob)"
    and run: "tf_run config tf1 stats1 evs = (tf', stats', rest)" and obs: "obs = (d, ob) # rest"
    using Cons.prems(1) by (auto simp: ev split: prod.splits)
  note mono = tf_observe_stream_bytes[OF step Cons.prems(4)]
  have grows: "fs_stream_bytes s \<le> u64_max \<Longrightarrow> tf_run config t s es = (t', s', os) \<Longrightarrow>
      fs_stream_bytes s \<le> fs_stream_bytes s'" for t s es t' s' os
    by (induction es arbitrary: t s os)
      (fastforce dest: tf_observe_stream_bytes split: prod.splits)+
  have "fs_stream_bytes stats1 < u64_max"
    using grows[OF _ run] mono Cons.prems(2) by simp
  from tf_observe_balanced[OF step Cons.prems(3) this]
  have one: "chunk_bytes_balanced stats1"
    "fs_stream_bytes stats1 = fs_stream_bytes stats + stream_chunk_bytes (to_chunks ob)" by simp_all
  have "length (delivered AToB obs) + length (delivered BToA obs) = stream_chunk_bytes (to_chunks ob)
      + length (delivered AToB rest) + length (delivered BToA rest)"
    by (cases d) (simp_all add: obs delivered_def emitted_length)
  with Cons.IH[OF run Cons.prems(2) one(1)] one(2) mono show ?case by simp
qed

text \<open>
  Byte accounting: the byte total in the statistics is the number of bytes delivered in both
  directions, and it is the sum of the totals kept for in-order, buffered and trimmed chunks, as
  long as it has not reached the bound of \<^verbatim>\<open>u64\<close>.
\<close>

theorem stream_bytes_accounting:
  assumes "tf_run config tf_default stats_default evs = (tf', stats', obs)"
    and "fs_stream_bytes stats' < u64_max"
  shows "fs_stream_bytes stats' = length (delivered AToB obs) + length (delivered BToA obs) \<and>
    fs_stream_bytes stats' = fs_current_bytes stats' + fs_buffered_bytes stats' + fs_trimmed_bytes stats'"
  using tf_run_balanced[OF assms] by (simp add: chunk_bytes_balanced_def stats_default_def)

lemma sample_result_bytes: "fs_stream_bytes (fst (snd sample_result)) = 6"
  by (simp add: sample_result_def flow_eval sample_events_def sample_config_def flow_table_config_new_def)

lemma stream_bytes_accounting_witness:
  "length (delivered AToB (snd (snd sample_result))) + length (delivered BToA (snd (snd sample_result))) = 6"
  using stream_bytes_accounting[OF sample_result_split] sample_result_bytes by (simp add: u64_max_def)

subsection \<open>Witnesses\<close>

definition sample_slice :: tcp_slice where
  "sample_slice = \<lparr>tsl_source_port = 443, tsl_destination_port = 50000, tsl_seq = 1, tsl_ack_number = 0,
     tsl_flags = seg_flags (plain_segment 1 False 1), tsl_window = 0, tsl_payload = [7]\<rparr>"

definition sample_packet :: decoded_packet where
  "sample_packet = \<lparr>dp_timestamp = \<lparr>ts_sec = 1, ts_usec = 5\<rparr>, dp_link_layer = RawIp, dp_linktype = 12,
     dp_raw = [0, 7], dp_parsed = Some \<lparr>sp_net = Some (NetIpv4 [10, 0, 0, 1] [10, 0, 0, 2]),
       sp_transport = Some (SliceTcp sample_slice)\<rparr>, dp_decode_error = None\<rparr>"

definition sample_route :: flow_route where
  "sample_route = \<lparr>fr_key = sample_key, fr_direction = AToB\<rparr>"

lemma sample_config_ok: "config_ok sample_config"
  by (simp add: config_ok_def sample_config_def flow_table_config_new_def u64_max_def)

lemma sample_packet_transport: "transport_payload_of sample_packet \<noteq> None"
  by (simp add: transport_payload_of_def sample_packet_def)


lemma flow_table_accounting_witness:
  "fs_dropped_new_flows (ft_stats (fold flow_step [(sample_packet, sample_route)]
     (flow_table_new sample_config))) = 0"
  using flow_table_accounting[OF sample_config_ok, of "[(sample_packet, sample_route)]"]
  by (simp add: u64_max_def)

lemma observe_with_route_frame_witness:
  "\<exists>e1. map_of (ft_entries (fst (observe_with_route (flow_table_new sample_config) sample_packet
     sample_route))) sample_key = Some e1"
proof -
  have ok: "ft_ok sample_config (flow_table_new sample_config)"
    by (simp add: ft_ok_def flow_table_new_def)
  obtain transport where t: "transport_payload_of sample_packet = Some transport"
    using sample_packet_transport by blast
  show ?thesis
    using observe_with_route_frame[OF ok sample_config_ok t, of sample_route]
    by (auto simp: sample_route_def)
qed

end
