(* ===== verification/Stream_Content.thy ===== *)
theory Stream_Content
  imports Flow_Table
begin

text \<open>
  The content store: \<^verbatim>\<open>src/src/stream_content.rs\<close>.  For every flow and direction it keeps the most
  recent bytes in segments with logical offsets, under a limit per stream and a global one.

  The append loop makes no progress for a segment size of zero; that the loop does not end is the
  value \<open>None\<close> of \<open>append_loop\<close> and of the operations above it.  \<open>normalized\<close> never leaves such a
  configuration enabled, and the operations of a store that \<open>stream_content_new\<close> made are proved to
  return.
\<close>

subsection \<open>Data\<close>

record content_config =
  cc_enabled :: bool
  cc_max_streams :: nat
  cc_idle_timeout_ms :: nat
  cc_max_total_bytes :: nat
  cc_max_bytes_per_stream :: nat
  cc_max_segment_bytes :: nat

definition content_disabled :: content_config where
  "content_disabled = \<lparr>cc_enabled = False, cc_max_streams = 0, cc_idle_timeout_ms = 0,
     cc_max_total_bytes = 0, cc_max_bytes_per_stream = 0, cc_max_segment_bytes = 0\<rparr>"

definition content_normalized :: "content_config \<Rightarrow> content_config" where
  "content_normalized c =
     (if \<not> cc_enabled c \<or> cc_max_total_bytes c = 0 \<or> cc_max_bytes_per_stream c = 0
      then content_disabled
      else let per_stream = max (min (cc_max_bytes_per_stream c) (cc_max_total_bytes c)) 1 in
        \<lparr>cc_enabled = True, cc_max_streams = max (cc_max_streams c) 1,
         cc_idle_timeout_ms = cc_idle_timeout_ms c, cc_max_total_bytes = cc_max_total_bytes c,
         cc_max_bytes_per_stream = per_stream,
         cc_max_segment_bytes = max (min (cc_max_segment_bytes c) per_stream) 1\<rparr>)"

record content_stats =
  cs_active_streams :: nat
  cs_active_segments :: nat
  cs_stored_bytes :: nat
  cs_observed_bytes :: nat
  cs_dropped_bytes :: nat
  cs_evicted_streams :: nat
  cs_truncated_streams :: nat
  cs_updates :: nat
  cs_merged_segments :: nat

definition content_stats_default :: content_stats where
  "content_stats_default = \<lparr>cs_active_streams = 0, cs_active_segments = 0, cs_stored_bytes = 0,
     cs_observed_bytes = 0, cs_dropped_bytes = 0, cs_evicted_streams = 0, cs_truncated_streams = 0,
     cs_updates = 0, cs_merged_segments = 0\<rparr>"

record content_range =
  cr_stream_id :: u64w
  cr_direction :: flow_direction
  cr_logical_start :: nat
  cr_logical_end :: nat
  cr_sequence_start :: "u32 option"
  cr_sequence_end :: "u32 option"
  cr_stored_bytes :: nat

record content_update =
  cu_stream_id :: u64w
  cu_key :: flow_key
  cu_ranges :: "content_range list"
  cu_observed_bytes :: nat
  cu_stored_bytes_after :: nat

record content_window =
  cw_stream_id :: u64w
  cw_direction :: flow_direction
  cw_logical_start :: nat
  cw_bytes :: bytes

record content_segment =
  sg_logical_start :: nat
  sg_sequence_start :: "u32 option"
  sg_observed_us :: nat
  sg_bytes :: bytes

record direction_content =
  dn_next_offset :: nat
  dn_stored_bytes :: nat
  dn_segments :: "content_segment list"

definition direction_content_default :: direction_content where
  "direction_content_default = \<lparr>dn_next_offset = 0, dn_stored_bytes = 0, dn_segments = []\<rparr>"

record content_record =
  rc_id :: u64w
  rc_last_seen_us :: nat
  rc_directions :: "direction_content \<times> direction_content"
  rc_truncated :: bool

record append_stats =
  as_observed_bytes :: nat
  as_stored_bytes :: nat
  as_merged_segments :: nat

definition append_stats_default :: append_stats where
  "append_stats_default = \<lparr>as_observed_bytes = 0, as_stored_bytes = 0, as_merged_segments = 0\<rparr>"

record direction_append =
  da_ranges :: "content_range list"
  da_stats :: append_stats

definition direction_append_default :: direction_append where
  "direction_append_default = \<lparr>da_ranges = [], da_stats = append_stats_default\<rparr>"

record record_update =
  ru_ranges :: "content_range list"
  ru_appended :: append_stats
  ru_trimmed_bytes :: nat
  ru_newly_truncated :: bool

definition record_update_default :: record_update where
  "record_update_default = \<lparr>ru_ranges = [], ru_appended = append_stats_default,
     ru_trimmed_bytes = 0, ru_newly_truncated = False\<rparr>"

record stream_content =
  sc_config :: content_config
  sc_streams :: "(flow_key \<times> content_record) list"
  sc_observed_packets :: nat
  sc_stored_bytes :: nat
  sc_stats :: content_stats

definition stream_content_new :: "content_config \<Rightarrow> stream_content" where
  "stream_content_new config = \<lparr>sc_config = content_normalized config, sc_streams = [],
     sc_observed_packets = 0, sc_stored_bytes = 0, sc_stats = content_stats_default\<rparr>"

subsection \<open>Segments\<close>

definition logical_end :: "content_segment \<Rightarrow> nat" where
  "logical_end s = sat_add (sg_logical_start s) (length (sg_bytes s))"

definition sequence_end :: "content_segment \<Rightarrow> u32 option" where
  "sequence_end s = map_option (\<lambda>sequence. sequence + of_nat (length (sg_bytes s))) (sg_sequence_start s)"

text \<open>\<^verbatim>\<open>try_merge_last\<close>: the segments after the merge, or \<open>None\<close> for \<^verbatim>\<open>false\<close>.\<close>

definition try_merge_last ::
  "content_segment list \<Rightarrow> u32 option \<Rightarrow> bytes \<Rightarrow> nat \<Rightarrow> content_segment list option" where
  "try_merge_last segments sequence_start bs max_segment_bytes =
     (if segments = [] then None
      else let final = last segments in
        (case sequence_start of None \<Rightarrow> None
         | Some sequence \<Rightarrow> (case sequence_end final of None \<Rightarrow> None
           | Some last_sequence_end \<Rightarrow>
               if last_sequence_end \<noteq> sequence then None
               else if sat_add (length (sg_bytes final)) (length bs) > max_segment_bytes then None
               else Some (butlast segments @ [final\<lparr>sg_bytes := sg_bytes final @ bs\<rparr>]))))"

definition append_piece ::
  "direction_content \<Rightarrow> direction_append \<Rightarrow> u64w \<Rightarrow> flow_direction \<Rightarrow> bytes \<Rightarrow> u32 option \<Rightarrow> nat \<Rightarrow> nat \<Rightarrow>
   direction_content \<times> direction_append" where
  "append_piece dc ap stream_id direction piece segment_sequence observed_us max_segment_bytes =
     (let n = length piece;
          start = dn_next_offset dc;
          stop = sat_add start n;
          stats = da_stats ap;
          stats1 = stats\<lparr>as_observed_bytes := sat_add (as_observed_bytes stats) n,
            as_stored_bytes := sat_add (as_stored_bytes stats) n\<rparr>;
          (segments, stats2) =
            (case try_merge_last (dn_segments dc) segment_sequence piece max_segment_bytes of
               Some segments \<Rightarrow>
                 (segments, stats1\<lparr>as_merged_segments := sat_add (as_merged_segments stats1) 1\<rparr>)
             | None \<Rightarrow> (dn_segments dc @ [\<lparr>sg_logical_start = start,
                 sg_sequence_start = segment_sequence, sg_observed_us = observed_us,
                 sg_bytes = piece\<rparr>], stats1))
      in (\<lparr>dn_next_offset = stop, dn_stored_bytes = sat_add (dn_stored_bytes dc) n,
           dn_segments = segments\<rparr>,
          \<lparr>da_ranges = da_ranges ap @ [\<lparr>cr_stream_id = stream_id, cr_direction = direction,
             cr_logical_start = start, cr_logical_end = stop, cr_sequence_start = segment_sequence,
             cr_sequence_end = map_option (\<lambda>sequence. sequence + of_nat n) segment_sequence,
             cr_stored_bytes = n\<rparr>], da_stats = stats2\<rparr>))"

function append_loop ::
  "direction_content \<Rightarrow> direction_append \<Rightarrow> u64w \<Rightarrow> flow_direction \<Rightarrow> bytes \<Rightarrow> u32 option \<Rightarrow> nat \<Rightarrow> nat \<Rightarrow>
   nat \<Rightarrow> (direction_content \<times> direction_append) option" where
  "append_loop dc ap stream_id direction bs sequence_start observed_us max_segment_bytes consumed =
     (if consumed \<ge> length bs then Some (dc, ap)
      else let n = min (length bs - consumed) max_segment_bytes in
        if n = 0 then None
        else (case append_piece dc ap stream_id direction (take n (drop consumed bs))
                (map_option (\<lambda>sequence. sequence + of_nat consumed) sequence_start)
                observed_us max_segment_bytes of
           (dc1, ap1) \<Rightarrow> append_loop dc1 ap1 stream_id direction bs sequence_start observed_us
             max_segment_bytes (consumed + n)))"
  by pat_completeness auto
termination
  by (relation "measure (\<lambda>(_, _, _, _, bs, _, _, _, consumed). length bs - consumed)") auto

declare append_loop.simps [simp del]

definition direction_append_bytes ::
  "direction_content \<Rightarrow> u64w \<Rightarrow> flow_direction \<Rightarrow> bytes \<Rightarrow> u32 option \<Rightarrow> nat \<Rightarrow> nat \<Rightarrow>
   (direction_content \<times> direction_append) option" where
  "direction_append_bytes dc stream_id direction bs sequence_start observed_us max_segment_bytes =
     append_loop dc direction_append_default stream_id direction bs sequence_start observed_us
       max_segment_bytes 0"

text \<open>The loop of \<^verbatim>\<open>trim_oldest\<close>: the segments, \<^verbatim>\<open>stored_bytes\<close> and \<^verbatim>\<open>trimmed\<close>.\<close>

fun trim_loop ::
  "content_segment list \<Rightarrow> nat \<Rightarrow> nat \<Rightarrow> nat \<Rightarrow> content_segment list \<times> nat \<times> nat" where
  "trim_loop [] stored remaining trimmed = ([], stored, trimmed)"
| "trim_loop (seg # segs) stored remaining trimmed =
     (if remaining = 0 then (seg # segs, stored, trimmed)
      else let n = min remaining (length (sg_bytes seg)) in
        if n = length (sg_bytes seg)
        then trim_loop segs (stored - n) (remaining - n) (sat_add trimmed n)
        else (seg\<lparr>sg_logical_start := sat_add (sg_logical_start seg) n,
            sg_sequence_start := map_option (\<lambda>sequence. sequence + of_nat n) (sg_sequence_start seg),
            sg_bytes := drop n (sg_bytes seg)\<rparr> # segs, stored - n, sat_add trimmed n))"

definition trim_oldest :: "direction_content \<Rightarrow> nat \<Rightarrow> direction_content \<times> nat" where
  "trim_oldest dc n = (case trim_loop (dn_segments dc) (dn_stored_bytes dc) n 0 of
     (segments, stored, trimmed) \<Rightarrow>
       (dc\<lparr>dn_segments := segments, dn_stored_bytes := stored\<rparr>, trimmed))"

definition dn_bytes :: "direction_content \<Rightarrow> bytes" where
  "dn_bytes dc = concat (map sg_bytes (dn_segments dc))"

definition dn_ranges :: "direction_content \<Rightarrow> u64w \<Rightarrow> flow_direction \<Rightarrow> content_range list" where
  "dn_ranges dc stream_id direction = map (\<lambda>seg. \<lparr>cr_stream_id = stream_id,
     cr_direction = direction, cr_logical_start = sg_logical_start seg,
     cr_logical_end = logical_end seg, cr_sequence_start = sg_sequence_start seg,
     cr_sequence_end = sequence_end seg, cr_stored_bytes = length (sg_bytes seg)\<rparr>) (dn_segments dc)"

text \<open>The loop of \<^verbatim>\<open>windows\<close> over the segments, with the window being built.\<close>

primrec windows_loop ::
  "content_segment list \<Rightarrow> u64w \<Rightarrow> flow_direction \<Rightarrow> nat \<Rightarrow> nat \<Rightarrow>
   content_window list \<Rightarrow> nat \<Rightarrow> nat \<Rightarrow> bytes \<Rightarrow> content_window list" where
  "windows_loop [] stream_id direction lo hi ws cur_start cur_end cur_bytes =
     (if cur_bytes \<noteq> [] then ws @ [\<lparr>cw_stream_id = stream_id, cw_direction = direction,
        cw_logical_start = cur_start, cw_bytes = cur_bytes\<rparr>] else ws)"
| "windows_loop (seg # segs) stream_id direction lo hi ws cur_start cur_end cur_bytes =
     (let start = max (sg_logical_start seg) lo; stop = min (logical_end seg) hi in
      if start \<ge> stop
      then windows_loop segs stream_id direction lo hi ws cur_start cur_end cur_bytes
      else let bs = take (stop - start) (drop (start - sg_logical_start seg) (sg_bytes seg)) in
        if cur_bytes = []
        then windows_loop segs stream_id direction lo hi ws start stop bs
        else if start = cur_end
        then windows_loop segs stream_id direction lo hi ws cur_start stop (cur_bytes @ bs)
        else windows_loop segs stream_id direction lo hi
          (ws @ [\<lparr>cw_stream_id = stream_id, cw_direction = direction,
             cw_logical_start = cur_start, cw_bytes = cur_bytes\<rparr>]) start stop bs)"

definition dn_windows ::
  "direction_content \<Rightarrow> u64w \<Rightarrow> flow_direction \<Rightarrow> nat \<Rightarrow> nat \<Rightarrow> content_window list" where
  "dn_windows dc stream_id direction lo hi =
     (if lo \<ge> hi then []
      else windows_loop (dn_segments dc) stream_id direction lo hi [] 0 0 [])"

subsection \<open>Records\<close>

definition content_record_new :: "flow_key \<Rightarrow> nat \<Rightarrow> content_record" where
  "content_record_new key now_us = \<lparr>rc_id = stable_id key, rc_last_seen_us = now_us,
     rc_directions = (direction_content_default, direction_content_default), rc_truncated = False\<rparr>"

definition rc_stored_bytes :: "content_record \<Rightarrow> nat" where
  "rc_stored_bytes r = dn_stored_bytes (dir_get (rc_directions r) AToB)
     + dn_stored_bytes (dir_get (rc_directions r) BToA)"

definition rc_segment_count :: "content_record \<Rightarrow> nat" where
  "rc_segment_count r = length (dn_segments (dir_get (rc_directions r) AToB))
     + length (dn_segments (dir_get (rc_directions r) BToA))"

text \<open>The direction whose first segment was observed first, the lower logical start on a tie.\<close>

definition oldest_direction :: "content_record \<Rightarrow> flow_direction option" where
  "oldest_direction r =
     map_option fst (min_by_key snd (concat (map (\<lambda>d.
        (case dn_segments (dir_get (rc_directions r) d) of [] \<Rightarrow> []
         | seg # _ \<Rightarrow> [(d, sg_observed_us seg, sg_logical_start seg)])) [AToB, BToA])))"

definition dn_real_bytes :: "direction_content \<Rightarrow> nat" where
  "dn_real_bytes dc = length (dn_bytes dc)"

lemma trim_loop_measure:
  "trim_loop segs stored remaining trimmed = (segs', stored', trimmed') \<Longrightarrow>
    length (concat (map sg_bytes segs')) \<le> length (concat (map sg_bytes segs))
    \<and> (trimmed < trimmed' \<longrightarrow> length (concat (map sg_bytes segs')) < length (concat (map sg_bytes segs)))"
proof (induction segs stored remaining trimmed rule: trim_loop.induct)
  case (2 seg segs stored remaining trimmed)
  show ?case
  proof (cases "remaining = 0 \<or> min remaining (length (sg_bytes seg)) \<noteq> length (sg_bytes seg)")
    case True
    then show ?thesis using "2.prems" by (auto simp: Let_def min_def split: if_splits)
  next
    case False
    then have run: "trim_loop segs (stored - length (sg_bytes seg)) (remaining - length (sg_bytes seg))
        (sat_add trimmed (length (sg_bytes seg))) = (segs', stored', trimmed')"
      using "2.prems" by (simp add: Let_def)
    have "length (concat (map sg_bytes segs')) \<le> length (concat (map sg_bytes segs))
        \<and> (sat_add trimmed (length (sg_bytes seg)) < trimmed' \<longrightarrow>
          length (concat (map sg_bytes segs')) < length (concat (map sg_bytes segs)))"
      using "2.IH"[of "length (sg_bytes seg)"] False run by simp
    then show ?thesis
      by (cases "length (sg_bytes seg)") (auto simp: sat_add_def min_def split: if_splits)
  qed
qed simp

function trim_to_limit_loop :: "content_record \<Rightarrow> nat \<Rightarrow> nat \<Rightarrow> content_record \<times> nat" where
  "trim_to_limit_loop r limit trimmed =
     (if rc_stored_bytes r \<le> limit then (r, trimmed)
      else (case oldest_direction r of None \<Rightarrow> (r, trimmed)
        | Some d \<Rightarrow>
          (let (dc, dropped) = trim_oldest (dir_get (rc_directions r) d) (rc_stored_bytes r - limit);
               r1 = r\<lparr>rc_directions := dir_upd d dc (rc_directions r)\<rparr>
           in if dropped = 0 then (r1, trimmed)
              else trim_to_limit_loop (r1\<lparr>rc_truncated := True\<rparr>) limit (sat_add trimmed dropped))))"
  by pat_completeness auto
termination
proof (relation "measure (\<lambda>(r, _, _). dn_real_bytes (dir_get (rc_directions r) AToB)
    + dn_real_bytes (dir_get (rc_directions r) BToA))", goal_cases)
  case (2 r limit trimmed d x dc dropped r1)
  have "dn_real_bytes dc < dn_real_bytes (dir_get (rc_directions r) d)"
    using 2 trim_loop_measure[of _ _ _ 0]
    by (fastforce simp: trim_oldest_def dn_real_bytes_def dn_bytes_def split: prod.splits)
  then show ?case using 2(5) by (cases d) simp_all
qed simp

declare trim_to_limit_loop.simps [simp del]

definition trim_to_limit :: "content_record \<Rightarrow> nat \<Rightarrow> content_record \<times> nat" where
  "trim_to_limit r limit = trim_to_limit_loop r limit 0"

definition rc_observe_payload ::
  "content_record \<Rightarrow> flow_direction \<Rightarrow> bytes \<Rightarrow> u32 option \<Rightarrow> nat \<Rightarrow> nat \<Rightarrow> nat \<Rightarrow>
   (content_record \<times> record_update) option" where
  "rc_observe_payload r direction bs sequence_start observed_us max_segment_bytes max_bytes_per_stream =
     (if bs = [] then Some (r, record_update_default)
      else (case direction_append_bytes (dir_get (rc_directions r) direction) (rc_id r) direction bs
              sequence_start observed_us max_segment_bytes of
          None \<Rightarrow> None
        | Some (dc, appended) \<Rightarrow>
            (let r1 = r\<lparr>rc_directions := dir_upd direction dc (rc_directions r)\<rparr>;
                 was_truncated = rc_truncated r1;
                 (r2, trimmed) = trim_to_limit r1 max_bytes_per_stream
             in Some (r2, \<lparr>ru_ranges = da_ranges appended, ru_appended = da_stats appended,
                  ru_trimmed_bytes = trimmed,
                  ru_newly_truncated = (\<not> was_truncated \<and> rc_truncated r2)\<rparr>))))"

definition record_update_merge :: "record_update \<Rightarrow> record_update \<Rightarrow> record_update" where
  "record_update_merge u v = \<lparr>ru_ranges = ru_ranges u @ ru_ranges v,
     ru_appended = \<lparr>
       as_observed_bytes = sat_add (as_observed_bytes (ru_appended u)) (as_observed_bytes (ru_appended v)),
       as_stored_bytes = sat_add (as_stored_bytes (ru_appended u)) (as_stored_bytes (ru_appended v)),
       as_merged_segments = sat_add (as_merged_segments (ru_appended u)) (as_merged_segments (ru_appended v))\<rparr>,
     ru_trimmed_bytes = sat_add (ru_trimmed_bytes u) (ru_trimmed_bytes v),
     ru_newly_truncated = (ru_newly_truncated u \<or> ru_newly_truncated v)\<rparr>"

fun rc_observe_chunks_loop ::
  "content_record \<Rightarrow> stream_chunk list \<Rightarrow> nat \<Rightarrow> nat \<Rightarrow> nat \<Rightarrow> record_update \<Rightarrow>
   (content_record \<times> record_update) option" where
  "rc_observe_chunks_loop r [] observed_us max_segment_bytes max_bytes_per_stream update = Some (r, update)"
| "rc_observe_chunks_loop r (chunk # chunks) observed_us max_segment_bytes max_bytes_per_stream update =
     (case rc_observe_payload r (ch_direction chunk) (as_slice (ch_bytes chunk)) (Some (ch_start chunk))
        observed_us max_segment_bytes max_bytes_per_stream of
        None \<Rightarrow> None
      | Some (r1, update1) \<Rightarrow> rc_observe_chunks_loop r1 chunks observed_us max_segment_bytes
          max_bytes_per_stream (record_update_merge update update1))"

definition rc_observe_chunks where
  "rc_observe_chunks r chunks observed_us max_segment_bytes max_bytes_per_stream =
     rc_observe_chunks_loop r chunks observed_us max_segment_bytes max_bytes_per_stream record_update_default"

subsection \<open>The store\<close>

definition content_timestamp_us :: "packet_timestamp \<Rightarrow> nat" where
  "content_timestamp_us ts = sat_add (sat_mul (ts_sec ts) 1000000) (ts_usec ts)"

definition flow_has_content :: "decoded_packet \<Rightarrow> flow_observation \<Rightarrow> bool" where
  "flow_has_content packet flow = (case fo_tcp flow of
     Some tcp \<Rightarrow> to_chunks tcp \<noteq> []
   | None \<Rightarrow> (case transport_payload_of packet of None \<Rightarrow> False
       | Some transport \<Rightarrow> tp_bytes transport \<noteq> []))"

definition sc_should_evict :: "stream_content \<Rightarrow> bool" where
  "sc_should_evict sc \<longleftrightarrow> sc_observed_packets sc \<noteq> 0 \<and> sc_observed_packets sc mod 16384 = 0"

definition sc_remove_stream :: "flow_key \<Rightarrow> stream_content \<Rightarrow> stream_content" where
  "sc_remove_stream key sc = (case map_of (sc_streams sc) key of None \<Rightarrow> sc
     | Some r \<Rightarrow> (let stored = rc_stored_bytes r in
         sc\<lparr>sc_streams := AList.delete key (sc_streams sc),
            sc_stored_bytes := sc_stored_bytes sc - stored,
            sc_stats := (sc_stats sc)\<lparr>
              cs_dropped_bytes := sat_add (cs_dropped_bytes (sc_stats sc)) stored,
              cs_evicted_streams := sat_add (cs_evicted_streams (sc_stats sc)) 1\<rparr>\<rparr>))"

definition sc_evict_idle :: "stream_content \<Rightarrow> nat \<Rightarrow> stream_content" where
  "sc_evict_idle sc now_us =
     (let timeout_us = sat_mul (cc_idle_timeout_ms (sc_config sc)) 1000;
          expired = map fst (filter (\<lambda>(_, r). now_us - rc_last_seen_us r > timeout_us) (sc_streams sc))
      in fold sc_remove_stream expired sc)"

definition sc_evict_oldest :: "stream_content \<Rightarrow> flow_key option \<Rightarrow> stream_content \<times> bool" where
  "sc_evict_oldest sc excepted =
     (case min_by_key (rc_last_seen_us \<circ> snd)
             (filter (\<lambda>(key, _). Some key \<noteq> excepted) (sc_streams sc)) of
        None \<Rightarrow> (sc, False)
      | Some (key, _) \<Rightarrow> (sc_remove_stream key sc, True))"

text \<open>\<^verbatim>\<open>ensure_stream\<close> returns \<^verbatim>\<open>None\<close> exactly when the flag is false.\<close>

definition sc_ensure_stream :: "stream_content \<Rightarrow> flow_key \<Rightarrow> nat \<Rightarrow> stream_content \<times> bool" where
  "sc_ensure_stream sc key now_us =
     (if map_of (sc_streams sc) key \<noteq> None then (sc, True)
      else let sc1 = (if length (sc_streams sc) \<ge> cc_max_streams (sc_config sc)
             then let sc2 = sc_evict_idle sc now_us in
               if length (sc_streams sc2) \<ge> cc_max_streams (sc_config sc2)
               then fst (sc_evict_oldest sc2 None) else sc2
             else sc)
        in if length (sc_streams sc1) \<ge> cc_max_streams (sc_config sc1) then (sc1, False)
           else (sc1\<lparr>sc_streams := AList.update key (content_record_new key now_us) (sc_streams sc1)\<rparr>,
                 True))"

lemma sc_remove_stream_shrinks:
  "map_of (sc_streams sc) key \<noteq> None \<Longrightarrow>
    length (sc_streams (sc_remove_stream key sc)) < length (sc_streams sc)"
  by (auto simp: sc_remove_stream_def Let_def tbl_None_iff intro: length_delete_less
      split: option.splits)

lemma sc_evict_oldest_shrinks:
  assumes "sc_evict_oldest sc excepted = (sc', True)"
  shows "length (sc_streams sc') < length (sc_streams sc)"
proof -
  obtain key r where min: "min_by_key (rc_last_seen_us \<circ> snd)
      (filter (\<lambda>(key, _). Some key \<noteq> excepted) (sc_streams sc)) = Some (key, r)"
    and sc': "sc' = sc_remove_stream key sc"
    using assms by (auto simp: sc_evict_oldest_def split: option.splits)
  have "(key, r) \<in> set (sc_streams sc)" using min_by_key_SomeD[OF min] by simp
  then have "map_of (sc_streams sc) key \<noteq> None"
    using tbl_None_iff[of "sc_streams sc" key] by (metis fst_conv image_eqI)
  then show ?thesis unfolding sc' by (rule sc_remove_stream_shrinks)
qed

function sc_enforce_global_limit :: "stream_content \<Rightarrow> flow_key \<Rightarrow> stream_content" where
  "sc_enforce_global_limit sc current_key =
     (if sc_stored_bytes sc \<le> cc_max_total_bytes (sc_config sc) then sc
      else (case sc_evict_oldest sc (if length (sc_streams sc) > 1 then Some current_key else None) of
          (sc1, evicted) \<Rightarrow> if evicted then sc_enforce_global_limit sc1 current_key else sc1))"
  by pat_completeness auto
termination
  by (relation "measure (\<lambda>(sc, _). length (sc_streams sc))")
    (auto dest: sc_evict_oldest_shrinks[OF sym] simp del: length_greater_0_conv)

declare sc_enforce_global_limit.simps [simp del]

text \<open>The part of \<^verbatim>\<open>observe_flow\<close> that accounts for an update with new ranges.\<close>

definition sc_account :: "stream_content \<Rightarrow> record_update \<Rightarrow> stream_content" where
  "sc_account sc update =
     (let stats = sc_stats sc in
      sc\<lparr>sc_stored_bytes := sat_add (sc_stored_bytes sc) (as_stored_bytes (ru_appended update))
           - ru_trimmed_bytes update,
         sc_stats := stats\<lparr>
           cs_observed_bytes := sat_add (cs_observed_bytes stats) (as_observed_bytes (ru_appended update)),
           cs_dropped_bytes := sat_add (cs_dropped_bytes stats) (ru_trimmed_bytes update),
           cs_updates := sat_add (cs_updates stats) 1,
           cs_merged_segments := sat_add (cs_merged_segments stats) (as_merged_segments (ru_appended update)),
           cs_truncated_streams := (if ru_newly_truncated update
             then sat_add (cs_truncated_streams stats) 1 else cs_truncated_streams stats)\<rparr>\<rparr>)"

definition sc_begin_observe :: "stream_content \<Rightarrow> nat \<Rightarrow> stream_content" where
  "sc_begin_observe sc now_us =
     (let sc1 = sc\<lparr>sc_observed_packets := sat_add (sc_observed_packets sc) 1\<rparr>
      in if sc_should_evict sc1 then sc_evict_idle sc1 now_us else sc1)"

definition sc_update_record ::
  "stream_content \<Rightarrow> content_record \<Rightarrow> decoded_packet \<Rightarrow> flow_observation \<Rightarrow> nat \<Rightarrow>
   (content_record \<times> record_update) option" where
  "sc_update_record sc r packet flow now_us =
     (case fo_tcp flow of
        Some tcp \<Rightarrow> rc_observe_chunks r (to_chunks tcp) now_us (cc_max_segment_bytes (sc_config sc))
          (cc_max_bytes_per_stream (sc_config sc))
      | None \<Rightarrow> (case transport_payload_of packet of
          None \<Rightarrow> Some (r, record_update_default)
        | Some transport \<Rightarrow> rc_observe_payload r (fo_direction flow) (tp_bytes transport) None now_us
            (cc_max_segment_bytes (sc_config sc)) (cc_max_bytes_per_stream (sc_config sc))))"

definition sc_observe_flow ::
  "stream_content \<Rightarrow> decoded_packet \<Rightarrow> flow_observation \<Rightarrow> (stream_content \<times> content_update option) option"
where
  "sc_observe_flow sc packet flow =
     (if \<not> cc_enabled (sc_config sc) \<or> \<not> flow_has_content packet flow then Some (sc, None)
      else let now_us = content_timestamp_us (dp_timestamp packet);
               (sc1, ensured) = sc_ensure_stream (sc_begin_observe sc now_us) (fo_key flow) now_us
        in if \<not> ensured then Some (sc1, None)
           else (case map_of (sc_streams sc1) (fo_key flow) of
               None \<Rightarrow> Some (sc1, None)
             | Some r0 \<Rightarrow>
               (case sc_update_record sc1 (r0\<lparr>rc_last_seen_us := now_us\<rparr>) packet flow now_us of
                  None \<Rightarrow> None
                | Some (r1, update) \<Rightarrow>
                   (let sc2 = sc1\<lparr>sc_streams := AList.update (fo_key flow) r1 (sc_streams sc1)\<rparr>
                    in if ru_ranges update = [] then Some (sc2, None)
                       else let sc3 = sc_enforce_global_limit (sc_account sc2 update) (fo_key flow)
                         in Some (sc3, Some \<lparr>cu_stream_id = stable_id (fo_key flow),
                              cu_key = fo_key flow, cu_ranges = ru_ranges update,
                              cu_observed_bytes = as_observed_bytes (ru_appended update),
                              cu_stored_bytes_after = (case map_of (sc_streams sc3) (fo_key flow) of
                                 None \<Rightarrow> 0 | Some r \<Rightarrow> rc_stored_bytes r)\<rparr>)))))"

definition sc_direction_bytes :: "stream_content \<Rightarrow> flow_key \<Rightarrow> flow_direction \<Rightarrow> bytes option" where
  "sc_direction_bytes sc key d =
     map_option (\<lambda>r. dn_bytes (dir_get (rc_directions r) d)) (map_of (sc_streams sc) key)"

definition sc_direction_ranges ::
  "stream_content \<Rightarrow> flow_key \<Rightarrow> flow_direction \<Rightarrow> content_range list option" where
  "sc_direction_ranges sc key d =
     map_option (\<lambda>r. dn_ranges (dir_get (rc_directions r) d) (rc_id r) d) (map_of (sc_streams sc) key)"

definition sc_direction_windows ::
  "stream_content \<Rightarrow> flow_key \<Rightarrow> flow_direction \<Rightarrow> nat \<Rightarrow> nat \<Rightarrow> content_window list option" where
  "sc_direction_windows sc key d lo hi =
     map_option (\<lambda>r. dn_windows (dir_get (rc_directions r) d) (rc_id r) d lo hi)
       (map_of (sc_streams sc) key)"

definition content_stats_of :: "stream_content \<Rightarrow> content_stats" where
  "content_stats_of sc = (sc_stats sc)\<lparr>cs_active_streams := length (sc_streams sc),
     cs_active_segments := tbl_sum rc_segment_count (sc_streams sc),
     cs_stored_bytes := sc_stored_bytes sc\<rparr>"

end
