(* ===== verification/Content_Correctness.thy ===== *)
theory Content_Correctness
  imports Stream_Content
begin

text \<open>
  What the content store promises: each direction holds a suffix of everything ever appended to
  it, at the right logical offsets; windows are exactly the requested part of that suffix; and the
  limits per stream, per store and on the number of streams hold after every observation.
\<close>

subsection \<open>A direction is a suffix of its history\<close>

text \<open>Adjacent, non-empty segments from offset \<open>k\<close> on.\<close>

primrec segs_from :: "nat \<Rightarrow> content_segment list \<Rightarrow> bool" where
  "segs_from k [] = True"
| "segs_from k (s # ss) =
     (sg_logical_start s = k \<and> sg_bytes s \<noteq> [] \<and> segs_from (k + length (sg_bytes s)) ss)"

definition dc_abs :: "bytes \<Rightarrow> direction_content \<Rightarrow> bool" where
  "dc_abs h dc \<longleftrightarrow> dn_next_offset dc = length h \<and> dn_stored_bytes dc \<le> length h \<and>
     dn_bytes dc = drop (length h - dn_stored_bytes dc) h \<and>
     segs_from (length h - dn_stored_bytes dc) (dn_segments dc)"

definition segs_bytes :: "content_segment list \<Rightarrow> bytes" where
  "segs_bytes segs = concat (map sg_bytes segs)"

lemma segs_bytes_simps [simp]:
  "segs_bytes [] = []" "segs_bytes (s # ss) = sg_bytes s @ segs_bytes ss"
  "segs_bytes (xs @ ys) = segs_bytes xs @ segs_bytes ys"
  by (simp_all add: segs_bytes_def)

lemma dn_bytes_segs: "dn_bytes dc = segs_bytes (dn_segments dc)"
  by (simp add: dn_bytes_def segs_bytes_def)

lemma segs_from_append:
  "segs_from k (xs @ ys) \<longleftrightarrow> segs_from k xs \<and> segs_from (k + length (segs_bytes xs)) ys"
  by (induction xs arbitrary: k) (auto simp: add.assoc)

lemma segs_from_empty_iff: "segs_from k segs \<Longrightarrow> segs_bytes segs = [] \<longleftrightarrow> segs = []"
  by (cases segs) auto

lemma dc_abs_default [simp]: "dc_abs [] direction_content_default"
  by (simp add: dc_abs_def direction_content_default_def dn_bytes_def)

lemma dc_abs_stored: "dc_abs h dc \<Longrightarrow> dn_stored_bytes dc = length (dn_bytes dc)"
  by (simp add: dc_abs_def)

subsection \<open>Appending\<close>

lemma try_merge_last_segs:
  assumes "try_merge_last segs sq piece m = Some segs'" "segs_from k segs"
  shows "segs_from k segs' \<and> segs_bytes segs' = segs_bytes segs @ piece"
proof -
  have "segs \<noteq> []" and segs': "segs' = butlast segs @ [(last segs)\<lparr>sg_bytes := sg_bytes (last segs) @ piece\<rparr>]"
    using assms(1) by (auto simp: try_merge_last_def Let_def split: if_splits option.splits)
  then have split: "segs = butlast segs @ [last segs]" by simp
  have "segs_from k (butlast segs @ [last segs])" using assms(2) split by simp
  then have "segs_from k segs'" unfolding segs' segs_from_append by simp
  moreover have "segs_bytes segs' = segs_bytes (butlast segs @ [last segs]) @ piece"
    unfolding segs' by simp
  ultimately show ?thesis using split by simp
qed

lemma append_piece_abs:
  assumes "append_piece dc ap sid d piece sq t m = (dc', ap')"
    and "dc_abs h dc" "piece \<noteq> []" "length h + length piece \<le> u64_max"
  shows "dc_abs (h @ piece) dc'" "dn_stored_bytes dc' = dn_stored_bytes dc + length piece"
proof -
  have n: "dn_next_offset dc' = length h + length piece"
    "dn_stored_bytes dc' = dn_stored_bytes dc + length piece"
    using assms by (auto simp: append_piece_def Let_def dc_abs_def sat_add_exact split: prod.splits)
  let ?k = "length h - dn_stored_bytes dc"
  have segs: "segs_from ?k (dn_segments dc)" "segs_bytes (dn_segments dc) = drop ?k h"
    using assms(2) by (simp_all add: dc_abs_def dn_bytes_segs)
  have "segs_from ?k (dn_segments dc') \<and> segs_bytes (dn_segments dc') = drop ?k h @ piece"
  proof (cases "try_merge_last (dn_segments dc) sq piece m")
    case (Some segs')
    then have "dn_segments dc' = segs'"
      using assms(1) by (auto simp: append_piece_def Let_def)
    then show ?thesis using try_merge_last_segs[OF Some segs(1)] segs(2) by simp
  next
    case None
    then have "dn_segments dc' = dn_segments dc @ [\<lparr>sg_logical_start = dn_next_offset dc,
        sg_sequence_start = sq, sg_observed_us = t, sg_bytes = piece\<rparr>]"
      using assms(1) by (auto simp: append_piece_def Let_def)
    then show ?thesis
      using segs assms(2,3) by (simp add: segs_from_append dc_abs_def)
  qed
  then show "dc_abs (h @ piece) dc'" "dn_stored_bytes dc' = dn_stored_bytes dc + length piece"
    using n assms(2) by (auto simp: dc_abs_def dn_bytes_segs)
qed

text \<open>What the appends report: the bytes, and ranges that tile what was appended.\<close>

primrec ranges_from :: "nat \<Rightarrow> content_range list \<Rightarrow> nat \<Rightarrow> bool" where
  "ranges_from a [] b = (a = b)"
| "ranges_from a (r # rs) b = (cr_logical_start r = a \<and> a < cr_logical_end r \<and>
     cr_stored_bytes r = cr_logical_end r - a \<and> ranges_from (cr_logical_end r) rs b)"

lemma ranges_from_snoc:
  "ranges_from a (rs @ [r]) b \<longleftrightarrow> (\<exists>c. ranges_from a rs c \<and> ranges_from c [r] b)"
  by (induction rs arbitrary: a) auto

lemma append_piece_report:
  assumes "append_piece dc ap sid d piece sq t m = (dc', ap')"
    and "dc_abs h dc" "piece \<noteq> []" "length h + length piece \<le> u64_max"
    and "ranges_from a (da_ranges ap) (length h)" "as_observed_bytes (da_stats ap) = length h - a"
    and "as_stored_bytes (da_stats ap) = length h - a" "a \<le> length h"
    and "\<forall>r \<in> set (da_ranges ap). cr_stream_id r = sid \<and> cr_direction r = d"
  shows "ranges_from a (da_ranges ap') (length h + length piece)"
    "as_observed_bytes (da_stats ap') = length h + length piece - a"
    "as_stored_bytes (da_stats ap') = length h + length piece - a"
    "\<forall>r \<in> set (da_ranges ap'). cr_stream_id r = sid \<and> cr_direction r = d"
proof -
  have off: "dn_next_offset dc = length h" using assms(2) by (simp add: dc_abs_def)
  have parts: "da_ranges ap' = da_ranges ap @ [\<lparr>cr_stream_id = sid, cr_direction = d,
      cr_logical_start = length h, cr_logical_end = length h + length piece,
      cr_sequence_start = sq, cr_sequence_end = map_option (\<lambda>sequence. sequence + of_nat (length piece)) sq,
      cr_stored_bytes = length piece\<rparr>]"
    "as_observed_bytes (da_stats ap') = sat_add (length h - a) (length piece)"
    "as_stored_bytes (da_stats ap') = sat_add (length h - a) (length piece)"
    using assms(1,4,6,7) off
    by (auto simp: append_piece_def Let_def sat_add_exact split: prod.splits option.splits)
  show "ranges_from a (da_ranges ap') (length h + length piece)"
    unfolding parts(1) ranges_from_snoc using assms(3,5) by auto
  show "as_observed_bytes (da_stats ap') = length h + length piece - a"
    "as_stored_bytes (da_stats ap') = length h + length piece - a"
    unfolding parts(2,3) using assms(4,8) by (simp_all add: sat_add_exact)
  show "\<forall>r \<in> set (da_ranges ap'). cr_stream_id r = sid \<and> cr_direction r = d"
    unfolding parts(1) using assms(9) by simp
qed

definition reports :: "nat \<Rightarrow> nat \<Rightarrow> u64w \<Rightarrow> flow_direction \<Rightarrow> direction_append \<Rightarrow> bool" where
  "reports a b sid d ap \<longleftrightarrow> a \<le> b \<and> ranges_from a (da_ranges ap) b \<and>
     as_observed_bytes (da_stats ap) = b - a \<and> as_stored_bytes (da_stats ap) = b - a \<and>
     (\<forall>r \<in> set (da_ranges ap). cr_stream_id r = sid \<and> cr_direction r = d)"

lemma append_loop_abs:
  assumes "dc_abs h dc" "length h + (length bs - consumed) \<le> u64_max" "0 < m" "reports a (length h) sid d ap"
  shows "\<exists>dc' ap'. append_loop dc ap sid d bs sq t m consumed = Some (dc', ap')
    \<and> dc_abs (h @ drop consumed bs) dc'
    \<and> dn_stored_bytes dc' = dn_stored_bytes dc + (length bs - consumed)
    \<and> reports a (length h + (length bs - consumed)) sid d ap'"
  using assms
proof (induction "length bs - consumed" arbitrary: consumed dc ap h rule: less_induct)
  case less
  show ?case
  proof (cases "consumed \<ge> length bs")
    case True
    have "append_loop dc ap sid d bs sq t m consumed = Some (dc, ap)"
      by (subst append_loop.simps) (simp only: True if_True)
    moreover have "length bs - consumed = 0" "drop consumed bs = []" using True by simp_all
    ultimately show ?thesis using less.prems(1,4) by (simp only: add_0_right append_Nil2) blast
  next
    case False
    define n where "n = min (length bs - consumed) m"
    define piece where "piece = take n (drop consumed bs)"
    have n: "0 < n" "n \<le> length bs - consumed" using False less.prems(3) by (simp_all add: n_def)
    have len: "length piece = n" using n by (simp add: piece_def)
    then have ne: "piece \<noteq> []" using n(1) by auto
    obtain dc1 ap1 where piece1: "append_piece dc ap sid d piece
        (map_option (\<lambda>sequence. sequence + of_nat consumed) sq) t m = (dc1, ap1)" by fastforce
    have small: "length h + length piece \<le> u64_max" using less.prems(2) n(2) len by simp
    note abs1 = append_piece_abs[OF piece1 less.prems(1) ne small]
    have rep1: "reports a (length (h @ piece)) sid d ap1"
    proof -
      have pre: "ranges_from a (da_ranges ap) (length h)" "as_observed_bytes (da_stats ap) = length h - a"
        "as_stored_bytes (da_stats ap) = length h - a" "a \<le> length h"
        "\<forall>r \<in> set (da_ranges ap). cr_stream_id r = sid \<and> cr_direction r = d"
        using less.prems(4) unfolding reports_def by blast+
      show ?thesis
        unfolding reports_def length_append
        using append_piece_report[OF piece1 less.prems(1) ne small pre] pre(4) trans_le_add1 by blast
    qed
    have step: "append_loop dc ap sid d bs sq t m consumed = append_loop dc1 ap1 sid d bs sq t m (consumed + n)"
      using False n(1) piece1 unfolding piece_def
      by (subst append_loop.simps) (simp add: Let_def n_def[symmetric])
    have "drop consumed bs = piece @ drop n (drop consumed bs)"
      unfolding piece_def by (rule append_take_drop_id[symmetric])
    then have rest: "(h @ piece) @ drop (consumed + n) bs = h @ drop consumed bs"
      by (simp only: drop_drop add.commute[of n] append_assoc)
    have smaller: "length bs - (consumed + n) < length bs - consumed" using n by linarith
    have room: "length (h @ piece) + (length bs - (consumed + n)) \<le> u64_max"
      using less.prems(2) n(2) len by simp
    obtain dc' ap' where run: "append_loop dc1 ap1 sid d bs sq t m (consumed + n) = Some (dc', ap')"
      and abs': "dc_abs ((h @ piece) @ drop (consumed + n) bs) dc'"
      and stored: "dn_stored_bytes dc' = dn_stored_bytes dc1 + (length bs - (consumed + n))"
      and rep: "reports a (length (h @ piece) + (length bs - (consumed + n))) sid d ap'"
      using less.hyps[OF smaller abs1(1) room less.prems(3) rep1] by blast
    have "length (h @ piece) + (length bs - (consumed + n)) = length h + (length bs - consumed)"
      "dn_stored_bytes dc1 + (length bs - (consumed + n)) = dn_stored_bytes dc + (length bs - consumed)"
      using abs1(2) len n(2) by simp_all
    with run abs' stored rep show ?thesis
      unfolding step rest by metis
  qed
qed

subsection \<open>Trimming\<close>

lemma trim_loop_segs:
  assumes "trim_loop segs stored n trimmed = (segs', stored', trimmed')"
    and "segs_from k segs" "stored = length (segs_bytes segs)" "k + stored \<le> u64_max"
    and "trimmed + stored \<le> u64_max"
  shows "segs_from (k + min n stored) segs' \<and> segs_bytes segs' = drop n (segs_bytes segs)
    \<and> stored' = stored - n \<and> trimmed' = trimmed + min n stored"
  using assms
proof (induction segs stored n trimmed arbitrary: k rule: trim_loop.induct)
  case (1 stored n trimmed)
  then show ?case by simp
next
  case (2 seg segs stored n trimmed)
  have len: "stored = length (sg_bytes seg) + length (segs_bytes segs)" using "2.prems"(3) by simp
  show ?case
  proof (cases "n = 0 \<or> n < length (sg_bytes seg)")
    case True
    then show ?thesis
      using "2.prems" by (auto simp: Let_def sat_add_exact min_def split: if_splits)
  next
    case False
    let ?n = "length (sg_bytes seg)"
    have run: "trim_loop segs (stored - ?n) (n - ?n) (sat_add trimmed ?n) = (segs', stored', trimmed')"
      using "2.prems"(1) False by (auto simp: Let_def min_def split: if_splits)
    have add: "sat_add trimmed ?n = trimmed + ?n"
      using "2.prems"(5) len by (intro sat_add_exact) simp
    have "segs_from (k + ?n + min (n - ?n) (stored - ?n)) segs'
        \<and> segs_bytes segs' = drop (n - ?n) (segs_bytes segs)
        \<and> stored' = stored - ?n - (n - ?n) \<and> trimmed' = sat_add trimmed ?n + min (n - ?n) (stored - ?n)"
      by (rule "2.IH"[of ?n]) (use False run "2.prems" len add in \<open>auto simp: min_def\<close>)
    then show ?thesis using False len add by (auto simp: min_def add.assoc)
  qed
qed

lemma trim_oldest_abs:
  assumes "trim_oldest dc n = (dc', dropped)" "dc_abs h dc" "length h \<le> u64_max"
  shows "dc_abs h dc'" "dn_stored_bytes dc' = dn_stored_bytes dc - n" "dropped = min n (dn_stored_bytes dc)"
proof -
  let ?s = "dn_stored_bytes dc"
  obtain segs' stored' where loop: "trim_loop (dn_segments dc) ?s n 0 = (segs', stored', dropped)"
    and dc': "dc' = dc\<lparr>dn_segments := segs', dn_stored_bytes := stored'\<rparr>"
    using assms(1) by (auto simp: trim_oldest_def split: prod.splits)
  have abs: "segs_from (length h - ?s) (dn_segments dc)" "?s \<le> length h"
    "segs_bytes (dn_segments dc) = drop (length h - ?s) h"
    using assms(2) by (simp_all add: dc_abs_def dn_bytes_segs)
  then have res: "segs_from (length h - ?s + min n ?s) segs'" "segs_bytes segs' = drop n (drop (length h - ?s) h)"
    "stored' = ?s - n" "dropped = min n ?s"
    using trim_loop_segs[OF loop abs(1)] assms(3) by simp_all
  have "length h - ?s + min n ?s = length h - (?s - n)" using abs(2) by (simp add: min_def)
  moreover have "drop n (drop (length h - ?s) h) = drop (length h - (?s - n)) h"
    using abs(2) by (cases "n \<le> ?s") (simp_all add: add.commute)
  ultimately show "dc_abs h dc'" "dn_stored_bytes dc' = ?s - n" "dropped = min n ?s"
    using res assms(2) abs(2) by (simp_all add: dc' dc_abs_def dn_bytes_segs)
qed

subsection \<open>Windows\<close>

lemma windows_loop_skip:
  assumes "segs_from k segs" "hi \<le> k"
  shows "windows_loop segs sid d lo hi ws cs ce cb = windows_loop [] sid d lo hi ws cs ce cb"
  using assms by (induction segs arbitrary: k) (auto simp: Let_def)

text \<open>While a window is being built it ends where the next segment starts.\<close>

lemma windows_loop_extend:
  assumes "segs_from k segs" "k + length (segs_bytes segs) \<le> u64_max" "lo \<le> k" "k \<le> hi" "cb \<noteq> []"
  shows "windows_loop segs sid d lo hi ws cs k cb = ws @ [\<lparr>cw_stream_id = sid, cw_direction = d,
    cw_logical_start = cs, cw_bytes = cb @ take (hi - k) (segs_bytes segs)\<rparr>]"
  using assms
proof (induction segs arbitrary: k cb)
  case (Cons s segs)
  let ?n = "length (sg_bytes s)"
  have le: "logical_end s = k + ?n" using Cons.prems by (simp add: logical_end_def sat_add_exact)
  show ?case
  proof (cases "hi \<le> k + ?n")
    case True
    have "windows_loop segs sid d lo hi ws cs hi (cb @ take (hi - k) (sg_bytes s))
        = windows_loop [] sid d lo hi ws cs hi (cb @ take (hi - k) (sg_bytes s))"
      by (rule windows_loop_skip[of "k + ?n"]) (use Cons.prems True in simp_all)
    moreover have "windows_loop segs sid d lo hi ws cs k cb = windows_loop [] sid d lo hi ws cs k cb" if "hi = k"
      by (rule windows_loop_skip[of "k + ?n"]) (use Cons.prems True that in simp_all)
    ultimately show ?thesis using Cons.prems True le by (auto simp: Let_def min_def)
  next
    case False
    then have "windows_loop (s # segs) sid d lo hi ws cs k cb
        = windows_loop segs sid d lo hi ws cs (k + ?n) (cb @ sg_bytes s)"
      using Cons.prems le by (auto simp: Let_def)
    also have "\<dots> = ws @ [\<lparr>cw_stream_id = sid, cw_direction = d, cw_logical_start = cs,
        cw_bytes = (cb @ sg_bytes s) @ take (hi - (k + ?n)) (segs_bytes segs)\<rparr>]"
      by (rule Cons.IH) (use Cons.prems False in simp_all)
    finally show ?thesis using False by (simp add: diff_diff_left)
  qed
qed simp

lemma windows_loop_start:
  assumes "segs_from k segs" "k + length (segs_bytes segs) \<le> u64_max" "lo < hi"
  shows "windows_loop segs sid d lo hi [] cs ce [] =
    (let a = max lo k; b = min hi (k + length (segs_bytes segs)) in
     if a < b then [\<lparr>cw_stream_id = sid, cw_direction = d, cw_logical_start = a,
       cw_bytes = take (b - a) (drop (a - k) (segs_bytes segs))\<rparr>] else [])"
  using assms
proof (induction segs arbitrary: k cs ce)
  case (Cons s segs)
  let ?n = "length (sg_bytes s)"
  have le: "logical_end s = k + ?n" and ne: "0 < ?n" and st: "sg_logical_start s = k"
    using Cons.prems by (simp_all add: logical_end_def sat_add_exact)
  have tail: "segs_from (k + ?n) segs" "k + ?n + length (segs_bytes segs) \<le> u64_max"
    using Cons.prems by simp_all
  consider "hi \<le> k" | "k < hi" "k + ?n \<le> lo" | "k < hi" "lo < k + ?n" "hi \<le> k + ?n"
    | "k < hi" "lo < k + ?n" "k + ?n < hi" by linarith
  then show ?case
  proof cases
    case 1
    then have "windows_loop (s # segs) sid d lo hi [] cs ce [] = windows_loop [] sid d lo hi [] cs ce []"
      by (intro windows_loop_skip[OF Cons.prems(1)])
    then show ?thesis using 1 by (simp add: Let_def)
  next
    case 2
    moreover have "k < lo" using 2 ne by linarith
    ultimately show ?thesis
      using Cons.IH[OF tail Cons.prems(3)] le st by (simp add: Let_def max_def min_def)
  next
    case 3
    have "windows_loop segs sid d lo hi [] a b cb = windows_loop [] sid d lo hi [] a b cb" for a b cb
      by (rule windows_loop_skip[OF tail(1) 3(3)])
    then show ?thesis
      using 3 le st Cons.prems(3) by (auto simp: Let_def max_def min_def)
  next
    case 4
    define a cb where "a = max lo k" and "cb = drop (a - k) (sg_bytes s)"
    have a: "k \<le> a" "lo \<le> a" "a < k + ?n" using 4 ne by (simp_all add: a_def)
    have len: "length cb = k + ?n - a" using a(1) by (simp add: cb_def)
    then have "cb \<noteq> []" using a(3) by auto
    have "windows_loop (s # segs) sid d lo hi [] cs ce [] = windows_loop segs sid d lo hi [] a (k + ?n) cb"
      using 4 a le st by (simp add: Let_def a_def[symmetric] max.commute[of k] cb_def)
    also have "\<dots> = [] @ [\<lparr>cw_stream_id = sid, cw_direction = d, cw_logical_start = a,
        cw_bytes = cb @ take (hi - (k + ?n)) (segs_bytes segs)\<rparr>]"
      by (rule windows_loop_extend[OF tail _ _ \<open>cb \<noteq> []\<close>]) (use 4 in simp_all)
    also have "cb @ take (hi - (k + ?n)) (segs_bytes segs)
        = take (min hi (k + length (segs_bytes (s # segs))) - a) (drop (a - k) (segs_bytes (s # segs)))"
      using a 4 by (simp add: cb_def min_def) (simp add: add.commute)
    finally show ?thesis
      unfolding Let_def a_def[symmetric] using a 4 by simp
  qed
qed (simp add: Let_def)

text \<open>
  The window specification: the part of the history that is still stored and was asked for, in one
  piece, or nothing.
\<close>

definition window_spec ::
  "u64w \<Rightarrow> flow_direction \<Rightarrow> bytes \<Rightarrow> nat \<Rightarrow> nat \<Rightarrow> nat \<Rightarrow> content_window list" where
  "window_spec sid d h stored lo hi =
     (let a = max lo (length h - stored); b = min hi (length h) in
      if a < b then [\<lparr>cw_stream_id = sid, cw_direction = d, cw_logical_start = a,
        cw_bytes = take (b - a) (drop a h)\<rparr>] else [])"

lemma dn_windows_spec:
  assumes "dc_abs h dc" "length h \<le> u64_max"
  shows "dn_windows dc sid d lo hi = window_spec sid d h (dn_stored_bytes dc) lo hi"
proof (cases "lo < hi")
  case False
  then show ?thesis by (auto simp: dn_windows_def window_spec_def Let_def)
next
  case True
  let ?k = "length h - dn_stored_bytes dc"
  have abs: "segs_from ?k (dn_segments dc)" "segs_bytes (dn_segments dc) = drop ?k h"
    using assms(1) by (simp_all add: dc_abs_def dn_bytes_segs)
  have stop: "?k + length (segs_bytes (dn_segments dc)) = length h"
    using abs(2) assms(1) by (simp add: dc_abs_def)
  have drop: "drop (max lo ?k - ?k) (drop ?k h) = drop (max lo ?k) h" by simp
  show ?thesis
    using windows_loop_start[OF abs(1) _ True, of sid d 0 0] assms(2) True
    unfolding stop unfolding abs(2) drop
    by (simp add: dn_windows_def window_spec_def Let_def)
qed

subsection \<open>Records\<close>

definition rc_abs :: "(flow_direction \<Rightarrow> bytes) \<Rightarrow> content_record \<Rightarrow> bool" where
  "rc_abs H r \<longleftrightarrow> (\<forall>d. dc_abs (H d) (dir_get (rc_directions r) d))"

definition fits :: "(flow_direction \<Rightarrow> bytes) \<Rightarrow> bool" where
  "fits H \<longleftrightarrow> length (H AToB) + length (H BToA) \<le> u64_max"

lemma fits_dir: "fits H \<Longrightarrow> length (H d) \<le> u64_max"
  by (cases d) (simp_all add: fits_def)

lemma rc_abs_new [simp]: "rc_abs (\<lambda>_. []) (content_record_new key now)"
proof -
  have "dir_get (direction_content_default, direction_content_default) d = direction_content_default" for d
    by (cases d) simp_all
  then show ?thesis by (simp add: rc_abs_def content_record_new_def)
qed

lemma rc_stored_split:
  "rc_stored_bytes r = dn_stored_bytes (dir_get (rc_directions r) d)
    + dn_stored_bytes (dir_get (rc_directions r) (opposite d))"
  by (cases d) (simp_all add: rc_stored_bytes_def)

lemma rc_stored_le: "rc_abs H r \<Longrightarrow> fits H \<Longrightarrow> rc_stored_bytes r \<le> u64_max"
  unfolding rc_abs_def dc_abs_def fits_def rc_stored_bytes_def by (meson add_le_mono le_trans)

lemma oldest_direction_None:
  "oldest_direction r = None \<longleftrightarrow> dn_segments (dir_get (rc_directions r) AToB) = []
    \<and> dn_segments (dir_get (rc_directions r) BToA) = []"
  by (auto simp: oldest_direction_def split: list.splits)

lemma oldest_direction_Some:
  assumes "oldest_direction r = Some d"
  shows "dn_segments (dir_get (rc_directions r) d) \<noteq> []"
proof -
  obtain t k where "min_by_key snd (concat (map (\<lambda>d.
        (case dn_segments (dir_get (rc_directions r) d) of [] \<Rightarrow> []
         | seg # _ \<Rightarrow> [(d, sg_observed_us seg, sg_logical_start seg)])) [AToB, BToA])) = Some (d, t, k)"
    using assms by (auto simp: oldest_direction_def)
  from min_by_key_SomeD[OF this] show ?thesis by (auto split: list.splits)
qed

lemma trim_to_limit_abs:
  assumes "trim_to_limit_loop r limit trimmed = (r', trimmed')" "rc_abs H r" "fits H"
    and "trimmed + rc_stored_bytes r \<le> u64_max"
  shows "rc_abs H r' \<and> rc_stored_bytes r' = min limit (rc_stored_bytes r)
    \<and> trimmed' = trimmed + (rc_stored_bytes r - limit) \<and> rc_id r' = rc_id r
    \<and> rc_last_seen_us r' = rc_last_seen_us r"
  using assms
proof (induction "rc_stored_bytes r" arbitrary: r trimmed rule: less_induct)
  case less
  show ?case
  proof (cases "rc_stored_bytes r \<le> limit")
    case True
    then show ?thesis using less.prems by (simp add: trim_to_limit_loop.simps[of r])
  next
    case False
    have "oldest_direction r \<noteq> None"
    proof
      assume "oldest_direction r = None"
      then have "dn_bytes (dir_get (rc_directions r) d) = []" for d
        by (cases d) (simp_all add: oldest_direction_None dn_bytes_def)
      then have "dn_stored_bytes (dir_get (rc_directions r) d) = 0" for d
        using less.prems(2) dc_abs_stored by (fastforce simp: rc_abs_def)
      then show False using False by (simp add: rc_stored_bytes_def)
    qed
    then obtain d where d: "oldest_direction r = Some d" by blast
    let ?dc = "dir_get (rc_directions r) d"
    let ?x = "rc_stored_bytes r - limit"
    obtain dc dropped where trim: "trim_oldest ?dc ?x = (dc, dropped)" by fastforce
    have abs: "dc_abs (H d) ?dc" using less.prems(2) by (simp add: rc_abs_def)
    note res = trim_oldest_abs[OF trim abs fits_dir[OF less.prems(3)]]
    have "segs_bytes (dn_segments ?dc) \<noteq> []"
      using oldest_direction_Some[OF d] abs segs_from_empty_iff by (auto simp: dc_abs_def)
    then have pos: "0 < dn_stored_bytes ?dc"
      using dc_abs_stored[OF abs] by (simp add: dn_bytes_segs)
    let ?r1 = "r\<lparr>rc_directions := dir_upd d dc (rc_directions r), rc_truncated := True\<rparr>"
    have abs1: "rc_abs H ?r1" using less.prems(2) res(1) by (simp add: rc_abs_def)
    have stored1: "rc_stored_bytes ?r1 + dropped = rc_stored_bytes r"
      using res(2,3) by (simp add: rc_stored_split[of _ d])
    have dropped: "0 < dropped" "dropped \<le> ?x" using res(3) pos False by simp_all
    have add: "sat_add trimmed dropped = trimmed + dropped"
      using less.prems(4) stored1 by (intro sat_add_exact) linarith
    have step: "trim_to_limit_loop ?r1 limit (trimmed + dropped) = (r', trimmed')"
      using less.prems(1) False d trim dropped(1) add by (simp add: trim_to_limit_loop.simps[of r])
    have "rc_abs H r' \<and> rc_stored_bytes r' = min limit (rc_stored_bytes ?r1)
      \<and> trimmed' = trimmed + dropped + (rc_stored_bytes ?r1 - limit) \<and> rc_id r' = rc_id ?r1
      \<and> rc_last_seen_us r' = rc_last_seen_us ?r1"
      by (rule less.hyps[OF _ step abs1 less.prems(3)]) (use stored1 dropped less.prems(4) in linarith)+
    then show ?thesis using stored1 dropped False by auto
  qed
qed

text \<open>What a payload does to a record, and what it reports.\<close>

definition add_bytes :: "flow_direction \<Rightarrow> bytes \<Rightarrow> (flow_direction \<Rightarrow> bytes) \<Rightarrow> flow_direction \<Rightarrow> bytes" where
  "add_bytes d bs H = H(d := H d @ bs)"

lemma rc_observe_payload_abs:
  assumes "rc_abs H r" "fits (add_bytes d bs H)" "0 < m" "rc_stored_bytes r + length bs \<le> u64_max"
    and "rc_stored_bytes r \<le> limit"
  shows "\<exists>r' u. rc_observe_payload r d bs sq t m limit = Some (r', u) \<and> rc_abs (add_bytes d bs H) r'
    \<and> rc_stored_bytes r' \<le> limit \<and> rc_id r' = rc_id r \<and> rc_last_seen_us r' = rc_last_seen_us r
    \<and> rc_stored_bytes r' + ru_trimmed_bytes u = rc_stored_bytes r + as_stored_bytes (ru_appended u)
    \<and> as_stored_bytes (ru_appended u) = length bs \<and> as_observed_bytes (ru_appended u) = length bs
    \<and> (ru_ranges u = [] \<longleftrightarrow> bs = []) \<and> (bs = [] \<longrightarrow> ru_trimmed_bytes u = 0)"
proof (cases "bs = []")
  case True
  then show ?thesis
    using assms(1,5)
    by (simp add: rc_observe_payload_def add_bytes_def record_update_default_def append_stats_default_def)
next
  case False
  let ?dc = "dir_get (rc_directions r) d"
  have abs: "dc_abs (H d) ?dc" using assms(1) by (simp add: rc_abs_def)
  have "length (H d @ bs) \<le> u64_max"
    using fits_dir[OF assms(2), of d] by (simp add: add_bytes_def)
  then have room: "length (H d) + (length bs - 0) \<le> u64_max" by simp
  have rep0: "reports (length (H d)) (length (H d)) (rc_id r) d direction_append_default"
    by (simp add: reports_def direction_append_default_def append_stats_default_def)
  obtain dc ap where app: "direction_append_bytes ?dc (rc_id r) d bs sq t m = Some (dc, ap)"
    and dc: "dc_abs (H d @ bs) dc" "dn_stored_bytes dc = dn_stored_bytes ?dc + length bs"
    and rep: "reports (length (H d)) (length (H d) + length bs) (rc_id r) d ap"
    using append_loop_abs[OF abs room assms(3) rep0, of sq t] by (auto simp: direction_append_bytes_def)
  let ?r1 = "r\<lparr>rc_directions := dir_upd d dc (rc_directions r)\<rparr>"
  have abs1: "rc_abs (add_bytes d bs H) ?r1" using assms(1) dc(1) by (simp add: rc_abs_def add_bytes_def)
  have stored1: "rc_stored_bytes ?r1 = rc_stored_bytes r + length bs"
    using dc(2) by (simp add: rc_stored_split[of _ d])
  obtain r2 trimmed where trim: "trim_to_limit ?r1 limit = (r2, trimmed)" by fastforce
  have "rc_abs (add_bytes d bs H) r2 \<and> rc_stored_bytes r2 = min limit (rc_stored_bytes ?r1)
      \<and> trimmed = 0 + (rc_stored_bytes ?r1 - limit) \<and> rc_id r2 = rc_id ?r1
      \<and> rc_last_seen_us r2 = rc_last_seen_us ?r1"
    by (rule trim_to_limit_abs[OF trim[unfolded trim_to_limit_def] abs1 assms(2)])
      (use stored1 assms(4) in simp)
  moreover have "da_ranges ap \<noteq> []"
    using rep False by (cases "da_ranges ap") (auto simp: reports_def)
  moreover have "as_stored_bytes (da_stats ap) = length bs" "as_observed_bytes (da_stats ap) = length bs"
    using rep by (simp_all add: reports_def)
  ultimately show ?thesis
    using False app trim stored1 by (auto simp: rc_observe_payload_def Let_def min_def)
qed

definition add_all :: "(flow_direction \<Rightarrow> bytes) \<Rightarrow> (flow_direction \<Rightarrow> bytes) \<Rightarrow> flow_direction \<Rightarrow> bytes" where
  "add_all H N = (\<lambda>d. H d @ N d)"

definition chunk_bytes :: "stream_chunk list \<Rightarrow> flow_direction \<Rightarrow> bytes" where
  "chunk_bytes chunks d = concat (map (\<lambda>c. if ch_direction c = d then as_slice (ch_bytes c) else []) chunks)"

definition both_length :: "(flow_direction \<Rightarrow> bytes) \<Rightarrow> nat" where
  "both_length N = length (N AToB) + length (N BToA)"

lemma fits_add_all: "fits (add_all H N) \<longleftrightarrow> both_length H + both_length N \<le> u64_max"
  by (simp add: fits_def add_all_def both_length_def add.commute add.left_commute)

lemma both_length_chunk_Cons:
  "both_length (chunk_bytes (c # cs)) = length (as_slice (ch_bytes c)) + both_length (chunk_bytes cs)"
  by (cases "ch_direction c") (simp_all add: both_length_def chunk_bytes_def)

lemma add_all_chunk_Cons:
  "add_all H (chunk_bytes (c # cs)) = add_all (add_bytes (ch_direction c) (as_slice (ch_bytes c)) H) (chunk_bytes cs)"
  by (auto simp: fun_eq_iff add_all_def chunk_bytes_def add_bytes_def)

lemma both_length_add_bytes: "both_length (add_bytes d bs H) = both_length H + length bs"
  by (cases d) (simp_all add: both_length_def add_bytes_def)

text \<open>What an update says about the bytes that came in and those that were trimmed.\<close>

definition balanced :: "nat \<Rightarrow> nat \<Rightarrow> content_record \<Rightarrow> record_update \<Rightarrow> bool" where
  "balanced stored0 n r u \<longleftrightarrow> rc_stored_bytes r + ru_trimmed_bytes u = stored0 + n \<and>
     as_stored_bytes (ru_appended u) = n \<and> as_observed_bytes (ru_appended u) = n \<and>
     (ru_ranges u = [] \<longleftrightarrow> n = 0) \<and> (n = 0 \<longrightarrow> ru_trimmed_bytes u = 0)"

lemma rc_observe_chunks_abs:
  assumes "rc_abs H r" "fits (add_all H (chunk_bytes cs))" "0 < m" "rc_stored_bytes r \<le> limit"
    and "balanced stored0 n r u" "stored0 + n + both_length (chunk_bytes cs) \<le> u64_max"
  shows "\<exists>r' u'. rc_observe_chunks_loop r cs t m limit u = Some (r', u') \<and> rc_abs (add_all H (chunk_bytes cs)) r'
    \<and> rc_stored_bytes r' \<le> limit \<and> rc_id r' = rc_id r \<and> rc_last_seen_us r' = rc_last_seen_us r
    \<and> balanced stored0 (n + both_length (chunk_bytes cs)) r' u'"
  using assms
proof (induction cs arbitrary: r u H n)
  case Nil
  have "add_all H (chunk_bytes []) = H" by (simp add: add_all_def chunk_bytes_def)
  moreover have "both_length (chunk_bytes []) = 0" by (simp add: both_length_def chunk_bytes_def)
  ultimately show ?case using Nil by simp
next
  case (Cons c cs)
  let ?bs = "as_slice (ch_bytes c)"
  let ?H1 = "add_bytes (ch_direction c) ?bs H"
  have fits1: "fits ?H1" and fits2: "fits (add_all ?H1 (chunk_bytes cs))"
    using Cons.prems(2) unfolding add_all_chunk_Cons fits_add_all
    by (simp_all add: fits_def both_length_def)
  have small: "rc_stored_bytes r + length ?bs \<le> u64_max"
    using Cons.prems(5,6) by (simp add: balanced_def both_length_chunk_Cons)
  obtain r1 u1 where step: "rc_observe_payload r (ch_direction c) ?bs (Some (ch_start c)) t m limit = Some (r1, u1)"
    and r1: "rc_abs ?H1 r1" "rc_stored_bytes r1 \<le> limit" "rc_id r1 = rc_id r"
      "rc_last_seen_us r1 = rc_last_seen_us r"
    and b1: "rc_stored_bytes r1 + ru_trimmed_bytes u1 = rc_stored_bytes r + as_stored_bytes (ru_appended u1)"
      "as_stored_bytes (ru_appended u1) = length ?bs" "as_observed_bytes (ru_appended u1) = length ?bs"
      "ru_ranges u1 = [] \<longleftrightarrow> ?bs = []" "?bs = [] \<Longrightarrow> ru_trimmed_bytes u1 = 0"
    using rc_observe_payload_abs[OF Cons.prems(1) fits1 Cons.prems(3) small Cons.prems(4)] by blast
  have u: "rc_stored_bytes r + ru_trimmed_bytes u = stored0 + n" "as_stored_bytes (ru_appended u) = n"
    "as_observed_bytes (ru_appended u) = n" "ru_ranges u = [] \<longleftrightarrow> n = 0"
    "n = 0 \<Longrightarrow> ru_trimmed_bytes u = 0"
    using Cons.prems(5) by (simp_all add: balanced_def)
  have "ru_trimmed_bytes u + ru_trimmed_bytes u1 \<le> u64_max" "n + length ?bs \<le> u64_max"
    using u(1,2) b1(1,2) Cons.prems(6) by (simp_all add: both_length_chunk_Cons)
  then have bal1: "balanced stored0 (n + length ?bs) r1 (record_update_merge u u1)"
    using u b1 by (auto simp: balanced_def record_update_merge_def sat_add_exact)
  have total: "stored0 + (n + length ?bs) + both_length (chunk_bytes cs) \<le> u64_max"
    using Cons.prems(6) by (simp add: both_length_chunk_Cons)
  obtain r2 u2 where "rc_observe_chunks_loop r1 cs t m limit (record_update_merge u u1) = Some (r2, u2)"
    "rc_abs (add_all ?H1 (chunk_bytes cs)) r2" "rc_stored_bytes r2 \<le> limit" "rc_id r2 = rc_id r1"
    "rc_last_seen_us r2 = rc_last_seen_us r1"
    "balanced stored0 (n + length ?bs + both_length (chunk_bytes cs)) r2 u2"
    using Cons.IH[OF r1(1) fits2 Cons.prems(3) r1(2) bal1 total] by blast
  then show ?case
    unfolding add_all_chunk_Cons both_length_chunk_Cons using step r1 by (simp add: add.assoc)
qed

subsection \<open>The store\<close>

definition content_config_ok :: "content_config \<Rightarrow> bool" where
  "content_config_ok c \<longleftrightarrow> 0 < cc_max_segment_bytes c \<and> 0 < cc_max_streams c
     \<and> cc_max_bytes_per_stream c \<le> cc_max_total_bytes c"

lemma content_normalized_ok: "cc_enabled (content_normalized c) \<Longrightarrow> content_config_ok (content_normalized c)"
  by (auto simp: content_normalized_def content_disabled_def content_config_ok_def Let_def split: if_splits)

type_synonym histories = "flow_key \<Rightarrow> flow_direction \<Rightarrow> bytes"

definition sc_core :: "histories \<Rightarrow> stream_content \<Rightarrow> bool" where
  "sc_core H sc \<longleftrightarrow> content_config_ok (sc_config sc) \<and> tbl_ok (sc_streams sc)
     \<and> length (sc_streams sc) \<le> cc_max_streams (sc_config sc)
     \<and> sc_stored_bytes sc = tbl_sum rc_stored_bytes (sc_streams sc)
     \<and> (\<forall>k r. map_of (sc_streams sc) k = Some r \<longrightarrow> rc_abs (H k) r \<and> rc_id r = stable_id k
          \<and> rc_stored_bytes r \<le> cc_max_bytes_per_stream (sc_config sc))"

definition sc_ok :: "histories \<Rightarrow> stream_content \<Rightarrow> bool" where
  "sc_ok H sc \<longleftrightarrow> sc_core H sc \<and> sc_stored_bytes sc \<le> cc_max_total_bytes (sc_config sc)"

definition content_keys :: "stream_content \<Rightarrow> flow_key set" where
  "content_keys sc = fst ` set (sc_streams sc)"

lemma content_keys_iff: "k \<in> content_keys sc \<longleftrightarrow> map_of (sc_streams sc) k \<noteq> None"
  by (simp add: content_keys_def tbl_None_iff)

text \<open>What an eviction may do: forget streams, keep the others as they are.\<close>

definition sc_evicted :: "stream_content \<Rightarrow> stream_content \<Rightarrow> bool" where
  "sc_evicted sc sc' \<longleftrightarrow> sc_config sc' = sc_config sc
     \<and> (\<forall>k. map_of (sc_streams sc') k \<in> {None, map_of (sc_streams sc) k})
     \<and> length (sc_streams sc') \<le> length (sc_streams sc)
     \<and> sc_stored_bytes sc' \<le> sc_stored_bytes sc"

lemma sc_evicted_refl [simp]: "sc_evicted sc sc"
  by (simp add: sc_evicted_def)

lemma sc_evicted_trans: "sc_evicted a b \<Longrightarrow> sc_evicted b c \<Longrightarrow> sc_evicted a c"
  unfolding sc_evicted_def by (metis insertCI insertE le_trans singletonD)

lemma sc_remove_stream_core:
  assumes "sc_core H sc"
  shows "sc_core H (sc_remove_stream key sc) \<and> sc_evicted sc (sc_remove_stream key sc)"
proof (cases "map_of (sc_streams sc) key")
  case None
  then show ?thesis using assms by (simp add: sc_remove_stream_def)
next
  case (Some r)
  have ok: "tbl_ok (sc_streams sc)" using assms by (simp add: sc_core_def)
  have "tbl_sum rc_stored_bytes (AList.delete key (sc_streams sc)) + rc_stored_bytes r
      = tbl_sum rc_stored_bytes (sc_streams sc)"
    by (rule tbl_sum_delete[OF ok Some])
  moreover have "sc_streams (sc_remove_stream key sc) = AList.delete key (sc_streams sc)"
    "sc_stored_bytes (sc_remove_stream key sc) = sc_stored_bytes sc - rc_stored_bytes r"
    "sc_config (sc_remove_stream key sc) = sc_config sc"
    using Some by (simp_all add: sc_remove_stream_def Let_def)
  ultimately show ?thesis
    using assms length_delete_le[of key "sc_streams sc"]
    by (auto simp: sc_core_def sc_evicted_def delete_conv')
qed

lemma sc_evict_idle_core:
  assumes "sc_core H sc"
  shows "sc_core H (sc_evict_idle sc now) \<and> sc_evicted sc (sc_evict_idle sc now)"
proof -
  have "sc_core H s \<Longrightarrow> sc_core H (fold sc_remove_stream ks s) \<and> sc_evicted s (fold sc_remove_stream ks s)" for ks s
  proof (induction ks arbitrary: s)
    case (Cons k ks)
    from sc_remove_stream_core[OF Cons.prems, of k] Cons.IH[of "sc_remove_stream k s"] show ?case
      using sc_evicted_trans by simp blast
  qed simp
  then show ?thesis using assms by (simp add: sc_evict_idle_def Let_def)
qed

lemma sc_evict_oldest_core:
  assumes "sc_core H sc"
  shows "sc_core H (fst (sc_evict_oldest sc e)) \<and> sc_evicted sc (fst (sc_evict_oldest sc e))"
  using sc_remove_stream_core[OF assms] assms
  by (auto simp: sc_evict_oldest_def split: option.splits prod.splits)

lemma sc_evict_oldest_True:
  assumes "sc_streams sc \<noteq> []" "e = None \<or> 1 < length (sc_streams sc) \<and> tbl_ok (sc_streams sc)"
  shows "snd (sc_evict_oldest sc e)"
proof -
  have "filter (\<lambda>(key, _). Some key \<noteq> e) (sc_streams sc) \<noteq> []"
  proof (cases e)
    case None
    then show ?thesis using assms(1) by (simp add: case_prod_beta)
  next
    case (Some k)
    then have two: "1 < length (sc_streams sc)" "distinct (map fst (sc_streams sc))"
      using assms(2) by (simp_all add: tbl_ok_def)
    then obtain p q m where "sc_streams sc = p # q # m"
      by (metis One_nat_def length_0_conv length_Cons less_numeral_extra(3,4) list.exhaust not_less_zero)
    with two(2) Some show ?thesis by (cases "fst p = k") auto
  qed
  then show ?thesis by (auto simp: sc_evict_oldest_def split: option.splits)
qed

lemma sc_ensure_stream_core:
  assumes core: "sc_core H sc" and run: "sc_ensure_stream sc key now = (sc', ensured)"
  shows "ensured \<and> sc_config sc' = sc_config sc \<and> sc_stored_bytes sc' \<le> sc_stored_bytes sc
    \<and> (\<forall>k. k \<noteq> key \<longrightarrow> map_of (sc_streams sc') k \<in> {None, map_of (sc_streams sc) k})
    \<and> map_of (sc_streams sc') key \<noteq> None
    \<and> sc_core (if key \<in> content_keys sc then H else H(key := \<lambda>_. [])) sc'"
proof (cases "map_of (sc_streams sc) key")
  case (Some r)
  then show ?thesis using core run by (auto simp: sc_ensure_stream_def content_keys_iff)
next
  case None
  let ?mx = "cc_max_streams (sc_config sc)"
  define sc1 where "sc1 = (if length (sc_streams sc) \<ge> ?mx
     then let sc2 = sc_evict_idle sc now in
       if length (sc_streams sc2) \<ge> cc_max_streams (sc_config sc2) then fst (sc_evict_oldest sc2 None) else sc2
     else sc)"
  have idle: "sc_core H (sc_evict_idle sc now)" "sc_evicted sc (sc_evict_idle sc now)"
    using sc_evict_idle_core[OF core] by simp_all
  have old: "sc_core H (fst (sc_evict_oldest (sc_evict_idle sc now) None))"
    "sc_evicted sc (fst (sc_evict_oldest (sc_evict_idle sc now) None))"
    using sc_evict_oldest_core[OF idle(1)] idle(2) sc_evicted_trans by blast+
  have mx: "0 < ?mx" using core by (simp add: sc_core_def content_config_ok_def)
  have core1: "sc_core H sc1" and ev1: "sc_evicted sc sc1"
    using core idle old by (simp_all add: sc1_def Let_def)
  have conf: "sc_config (sc_evict_idle sc now) = sc_config sc" "sc_config sc1 = sc_config sc"
    using idle(2) ev1 by (simp_all add: sc_evicted_def)
  have room: "length (sc_streams sc1) < ?mx"
  proof -
    have "length (sc_streams (fst (sc_evict_oldest (sc_evict_idle sc now) None))) < ?mx"
      if full: "?mx \<le> length (sc_streams (sc_evict_idle sc now))"
    proof -
      have "sc_streams (sc_evict_idle sc now) \<noteq> []" using full mx by auto
      then have "snd (sc_evict_oldest (sc_evict_idle sc now) None)"
        by (intro sc_evict_oldest_True) simp_all
      then have "length (sc_streams (fst (sc_evict_oldest (sc_evict_idle sc now) None)))
          < length (sc_streams (sc_evict_idle sc now))"
        by (intro sc_evict_oldest_shrinks) (simp add: prod_eq_iff)
      moreover have "length (sc_streams (sc_evict_idle sc now)) \<le> ?mx"
        using idle(1) conf(1) by (simp add: sc_core_def)
      ultimately show ?thesis by simp
    qed
    then show ?thesis using conf(1) by (auto simp: sc1_def Let_def)
  qed
  have fresh: "map_of (sc_streams sc1) key = None"
    using ev1 None unfolding sc_evicted_def by (metis insertE singletonD)
  have sc': "ensured" "sc' = sc1\<lparr>sc_streams := AList.update key (content_record_new key now) (sc_streams sc1)\<rparr>"
    using run None room conf(2) by (auto simp: sc_ensure_stream_def Let_def sc1_def[symmetric] Let_def
        split: if_splits)
  let ?new = "content_record_new key now"
  have new: "rc_abs (\<lambda>_. []) ?new" "rc_id ?new = stable_id key" "rc_stored_bytes ?new = 0"
    by (simp_all only: rc_abs_new)
      (simp_all add: content_record_new_def rc_stored_bytes_def direction_content_default_def)
  have streams: "map_of (sc_streams sc') k = (if k = key then Some ?new else map_of (sc_streams sc1) k)" for k
    by (simp add: sc'(2) update_conv')
  have "sc_core (H(key := \<lambda>_. [])) sc'"
    unfolding sc_core_def
  proof (intro conjI allI impI)
    show "content_config_ok (sc_config sc')" "tbl_ok (sc_streams sc')"
      using core1 by (simp_all add: sc_core_def sc'(2))
    show "length (sc_streams sc') \<le> cc_max_streams (sc_config sc')"
      using room conf(2) length_update_fresh[OF fresh, of ?new] by (simp add: sc'(2))
    show "sc_stored_bytes sc' = tbl_sum rc_stored_bytes (sc_streams sc')"
      using core1 tbl_sum_update_fresh[OF fresh, of rc_stored_bytes ?new] new(3)
      by (simp add: sc_core_def sc'(2))
    fix k r
    assume "map_of (sc_streams sc') k = Some r"
    then have "if k = key then r = ?new else map_of (sc_streams sc1) k = Some r"
      unfolding streams by (simp split: if_splits)
    moreover have "sc_config sc' = sc_config sc1" by (simp add: sc'(2))
    ultimately show "rc_abs ((H(key := \<lambda>_. [])) k) r" "rc_id r = stable_id k"
      "rc_stored_bytes r \<le> cc_max_bytes_per_stream (sc_config sc')"
      using core1 new by (auto simp: sc_core_def split: if_splits)
  qed
  then show ?thesis
    using None ev1 sc' conf(2) by (auto simp: sc_evicted_def content_keys_iff update_conv')
qed

lemma sc_enforce_core:
  assumes "sc_core H sc" "map_of (sc_streams sc) key = Some r"
  shows "sc_core H (sc_enforce_global_limit sc key) \<and> sc_evicted sc (sc_enforce_global_limit sc key)
    \<and> sc_stored_bytes (sc_enforce_global_limit sc key) \<le> cc_max_total_bytes (sc_config sc)
    \<and> map_of (sc_streams (sc_enforce_global_limit sc key)) key = Some r"
  using assms
proof (induction "length (sc_streams sc)" arbitrary: sc rule: less_induct)
  case less
  show ?case
  proof (cases "sc_stored_bytes sc \<le> cc_max_total_bytes (sc_config sc)")
    case True
    then show ?thesis using less.prems by (simp add: sc_enforce_global_limit.simps[of sc])
  next
    case False
    have ne: "sc_streams sc \<noteq> []" and ok: "tbl_ok (sc_streams sc)"
      using less.prems by (auto simp: sc_core_def)
    have "rc_stored_bytes r \<le> cc_max_total_bytes (sc_config sc)"
      using less.prems by (fastforce simp: sc_core_def content_config_ok_def)
    moreover have "sc_stored_bytes sc = rc_stored_bytes r" if one: "length (sc_streams sc) \<le> 1"
    proof -
      obtain p where "sc_streams sc = [p]"
        using one ne by (cases "sc_streams sc") auto
      then show ?thesis using less.prems by (cases p) (auto simp: sc_core_def tbl_sum_def split: if_splits)
    qed
    ultimately have two: "1 < length (sc_streams sc)" using False by fastforce
    obtain sc1 where ev: "sc_evict_oldest sc (Some key) = (sc1, True)"
      using sc_evict_oldest_True[OF ne, of "Some key"] two ok by (metis prod.collapse)
    have core1: "sc_core H sc1" "sc_evicted sc sc1"
      using sc_evict_oldest_core[OF less.prems(1), of "Some key"] by (simp_all add: ev)
    have keep: "map_of (sc_streams sc1) key = Some r"
    proof -
      obtain k e where min: "min_by_key (rc_last_seen_us \<circ> snd)
          (filter (\<lambda>(k, _). Some k \<noteq> Some key) (sc_streams sc)) = Some (k, e)" and sc1: "sc1 = sc_remove_stream k sc"
        using ev by (auto simp: sc_evict_oldest_def split: option.splits)
      have "k \<noteq> key" using min_by_key_SomeD[OF min] by auto
      then show ?thesis
        using less.prems(2) unfolding sc1
        by (auto simp: sc_remove_stream_def Let_def delete_conv' split: option.splits)
    qed
    have step: "sc_enforce_global_limit sc key = sc_enforce_global_limit sc1 key"
      using False two ev by (simp add: sc_enforce_global_limit.simps[of sc])
    have "sc_config sc1 = sc_config sc" using core1(2) by (simp add: sc_evicted_def)
    then show ?thesis
      unfolding step using less.hyps[OF sc_evict_oldest_shrinks[OF ev] core1(1) keep] core1(2)
        sc_evicted_trans[OF core1(2)] by simp
  qed
qed

subsection \<open>One observation\<close>

text \<open>The bytes an observation carries, by direction.\<close>

definition flow_bytes :: "decoded_packet \<Rightarrow> flow_observation \<Rightarrow> flow_direction \<Rightarrow> bytes" where
  "flow_bytes packet flow = (case fo_tcp flow of
     Some tcp \<Rightarrow> chunk_bytes (to_chunks tcp)
   | None \<Rightarrow> (case transport_payload_of packet of
       None \<Rightarrow> (\<lambda>_. [])
     | Some transport \<Rightarrow> (\<lambda>d. if d = fo_direction flow then tp_bytes transport else [])))"

lemma flow_bytes_payload:
  assumes "fo_tcp flow = None" "transport_payload_of packet = Some transport"
  shows "add_all H (flow_bytes packet flow) = add_bytes (fo_direction flow) (tp_bytes transport) H"
    and "both_length (flow_bytes packet flow) = length (tp_bytes transport)"
  using assms by (auto simp: add_all_def flow_bytes_def add_bytes_def both_length_def fun_eq_iff)
    (cases "fo_direction flow"; simp)

lemma no_content_no_bytes: "\<not> flow_has_content packet flow \<Longrightarrow> flow_bytes packet flow = (\<lambda>_. [])"
  by (auto simp: flow_has_content_def flow_bytes_def chunk_bytes_def fun_eq_iff split: option.splits)

lemma sc_update_record_abs:
  assumes "rc_abs H r" "fits (add_all H (flow_bytes packet flow))" "content_config_ok (sc_config sc)"
    and "rc_stored_bytes r \<le> cc_max_bytes_per_stream (sc_config sc)"
    and "rc_stored_bytes r + both_length (flow_bytes packet flow) \<le> u64_max" "flow_has_content packet flow"
  shows "\<exists>r' u. sc_update_record sc r packet flow now = Some (r', u) \<and> rc_abs (add_all H (flow_bytes packet flow)) r'
    \<and> rc_stored_bytes r' \<le> cc_max_bytes_per_stream (sc_config sc) \<and> rc_id r' = rc_id r
    \<and> balanced (rc_stored_bytes r) (both_length (flow_bytes packet flow)) r' u"
proof (cases "fo_tcp flow")
  case (Some tcp)
  have seg: "0 < cc_max_segment_bytes (sc_config sc)" using assms(3) by (simp add: content_config_ok_def)
  have bal: "balanced (rc_stored_bytes r) 0 r record_update_default"
    by (simp add: balanced_def record_update_default_def append_stats_default_def)
  have bytes: "flow_bytes packet flow = chunk_bytes (to_chunks tcp)"
    using Some by (simp add: flow_bytes_def)
  obtain r' u where run: "rc_observe_chunks_loop r (to_chunks tcp) now (cc_max_segment_bytes (sc_config sc))
      (cc_max_bytes_per_stream (sc_config sc)) record_update_default = Some (r', u)"
    "rc_abs (add_all H (flow_bytes packet flow)) r'"
    "rc_stored_bytes r' \<le> cc_max_bytes_per_stream (sc_config sc)" "rc_id r' = rc_id r"
    "balanced (rc_stored_bytes r) (0 + both_length (flow_bytes packet flow)) r' u"
    using rc_observe_chunks_abs[OF assms(1) _ seg assms(4) bal, of "to_chunks tcp" now] assms(2,5)
    unfolding bytes by auto
  then show ?thesis using Some by (simp add: sc_update_record_def rc_observe_chunks_def)
next
  case None
  then obtain transport where t: "transport_payload_of packet = Some transport"
    using assms(6) by (auto simp: flow_has_content_def split: option.splits)
  note bytes = flow_bytes_payload[OF None t]
  have seg: "0 < cc_max_segment_bytes (sc_config sc)" using assms(3) by (simp add: content_config_ok_def)
  have fit: "fits (add_bytes (fo_direction flow) (tp_bytes transport) H)" using assms(2) bytes by simp
  have room: "rc_stored_bytes r + length (tp_bytes transport) \<le> u64_max" using assms(5) bytes by simp
  show ?thesis
    using rc_observe_payload_abs[OF assms(1) fit seg room assms(4), of None now] None t
    by (auto simp: sc_update_record_def bytes balanced_def)
qed

lemma sc_begin_observe_core:
  assumes "sc_core H sc"
  shows "sc_core H (sc_begin_observe sc now) \<and> sc_evicted sc (sc_begin_observe sc now)"
proof -
  let ?sc1 = "sc\<lparr>sc_observed_packets := sat_add (sc_observed_packets sc) 1\<rparr>"
  have "sc_core H ?sc1" using assms by (simp add: sc_core_def)
  from sc_evict_idle_core[OF this, of now] this show ?thesis
    by (simp add: sc_begin_observe_def Let_def sc_evicted_def)
qed

lemma sc_core_update:
  assumes core: "sc_core H sc" and r0: "map_of (sc_streams sc) key = Some r0"
    and r1: "rc_abs (add_all (H key) N) r1" "rc_id r1 = rc_id r0"
      "rc_stored_bytes r1 \<le> cc_max_bytes_per_stream (sc_config sc)"
    and bal: "balanced (rc_stored_bytes r0) (both_length N) r1 u"
    and small: "sc_stored_bytes sc + both_length N \<le> u64_max"
    and sc2: "sc2 = sc\<lparr>sc_streams := AList.update key r1 (sc_streams sc)\<rparr>"
  shows "sc_core (H(key := add_all (H key) N)) (sc_account sc2 u)"
    and "both_length N = 0 \<Longrightarrow> sc_core (H(key := add_all (H key) N)) sc2"
proof -
  have ok: "tbl_ok (sc_streams sc)" using core by (simp add: sc_core_def)
  have sum: "tbl_sum rc_stored_bytes (sc_streams sc2) + rc_stored_bytes r0
      = tbl_sum rc_stored_bytes (sc_streams sc) + rc_stored_bytes r1"
    using tbl_sum_update_present[OF ok r0] by (simp add: sc2)
  have ge: "rc_stored_bytes r0 \<le> sc_stored_bytes sc"
    using tbl_sum_ge[OF r0, of rc_stored_bytes] core by (simp add: sc_core_def)
  have b: "rc_stored_bytes r1 + ru_trimmed_bytes u = rc_stored_bytes r0 + both_length N"
    "as_stored_bytes (ru_appended u) = both_length N" "both_length N = 0 \<Longrightarrow> ru_trimmed_bytes u = 0"
    using bal by (simp_all add: balanced_def)
  have tbl: "sc_stored_bytes sc = tbl_sum rc_stored_bytes (sc_streams sc)" using core by (simp add: sc_core_def)
  have streams: "map_of (sc_streams sc2) k = (if k = key then Some r1 else map_of (sc_streams sc) k)" for k
    by (simp add: sc2 update_conv')
  have records: "rc_abs ((H(key := add_all (H key) N)) k) r \<and> rc_id r = stable_id k \<and>
      rc_stored_bytes r \<le> cc_max_bytes_per_stream (sc_config sc)" if "map_of (sc_streams sc2) k = Some r" for k r
    using that core r0 r1 unfolding streams by (auto simp: sc_core_def split: if_splits)
  have len: "length (sc_streams sc2) = length (sc_streams sc)"
    using length_update_present[of "sc_streams sc" key r1] r0 by (simp add: sc2)
  have "tbl_sum rc_stored_bytes (sc_streams sc2)
      = sc_stored_bytes sc + both_length N - ru_trimmed_bytes u"
    using sum b(1) ge tbl by linarith
  then show "sc_core (H(key := add_all (H key) N)) (sc_account sc2 u)"
    using core records len small b(2) ok
    by (auto simp: sc_core_def sc_account_def Let_def sat_add_exact sc2)
  assume none: "both_length N = 0"
  then have "tbl_sum rc_stored_bytes (sc_streams sc2) = sc_stored_bytes sc"
    using sum b(1) b(3)[OF none] ge tbl by linarith
  then show "sc_core (H(key := add_all (H key) N)) sc2"
    using core records len ok by (auto simp: sc_core_def sc2)
qed

text \<open>The effect of one observation on the histories: only the observed flow's grows or restarts.\<close>

definition history_step :: "flow_key \<Rightarrow> (flow_direction \<Rightarrow> bytes) \<Rightarrow> histories \<Rightarrow> histories \<Rightarrow> bool" where
  "history_step key N H H' \<longleftrightarrow> H' = H(key := add_all (H key) N) \<or> H' = H(key := N)"

lemma sc_observe_flow_core:
  assumes ok: "sc_ok H sc" and fit: "fits (add_all (H (fo_key flow)) (flow_bytes packet flow))"
    and small: "sc_stored_bytes sc + both_length (flow_bytes packet flow) \<le> u64_max"
    and on: "cc_enabled (sc_config sc)" "flow_has_content packet flow"
  obtains sc' u H' where "sc_observe_flow sc packet flow = Some (sc', u)" "sc_ok H' sc'"
    "history_step (fo_key flow) (flow_bytes packet flow) H H'" "fo_key flow \<in> content_keys sc'"
    "sc_config sc' = sc_config sc"
    "\<forall>k. k \<noteq> fo_key flow \<longrightarrow> map_of (sc_streams sc') k \<in> {None, map_of (sc_streams sc) k}"
    "map_option cu_observed_bytes u = (if both_length (flow_bytes packet flow) = 0 then None
       else Some (both_length (flow_bytes packet flow)))"
proof -
  let ?key = "fo_key flow"
  let ?N = "flow_bytes packet flow"
  let ?now = "content_timestamp_us (dp_timestamp packet)"
  define b where "b = sc_begin_observe sc ?now"
  have b: "sc_core H b" "sc_evicted sc b"
    using sc_begin_observe_core[of H sc ?now] ok by (simp_all add: b_def sc_ok_def)
  obtain sc1 ensured where ens: "sc_ensure_stream b ?key ?now = (sc1, ensured)" by fastforce
  define H1 where "H1 = (if ?key \<in> content_keys b then H else H(?key := \<lambda>_. []))"
  note e = sc_ensure_stream_core[OF b(1) ens]
  then obtain r0 where r0: "map_of (sc_streams sc1) ?key = Some r0" by blast
  have core1: "sc_core H1 sc1" and conf1: "sc_config sc1 = sc_config sc" and ensured: "ensured"
    using e b(2) by (simp_all add: H1_def sc_evicted_def)
  have le1: "sc_stored_bytes sc1 \<le> sc_stored_bytes sc" using e b(2) unfolding sc_evicted_def by linarith
  have others1: "map_of (sc_streams sc1) k \<in> {None, map_of (sc_streams sc) k}" if "k \<noteq> ?key" for k
    using e b(2) that unfolding sc_evicted_def by (metis insertE insertI1 singletonD)
  have fit1: "fits (add_all (H1 ?key) ?N)"
    using fit by (auto simp: H1_def fits_add_all both_length_def)
  let ?r0 = "r0\<lparr>rc_last_seen_us := ?now\<rparr>"
  have same: "rc_stored_bytes ?r0 = rc_stored_bytes r0" "rc_abs H0 ?r0 = rc_abs H0 r0" for H0
    by (simp_all add: rc_stored_bytes_def rc_abs_def)
  have r0ok: "rc_abs (H1 ?key) ?r0" "rc_stored_bytes ?r0 \<le> cc_max_bytes_per_stream (sc_config sc1)"
    "content_config_ok (sc_config sc1)"
    using core1 r0 same by (simp_all add: sc_core_def)
  have "rc_stored_bytes r0 \<le> sc_stored_bytes sc1"
    using tbl_sum_ge[OF r0, of rc_stored_bytes] core1 by (simp add: sc_core_def)
  then have room: "rc_stored_bytes ?r0 + both_length ?N \<le> u64_max" using small le1 same by simp
  obtain r1 u where upd: "sc_update_record sc1 ?r0 packet flow ?now = Some (r1, u)"
    and r1: "rc_abs (add_all (H1 ?key) ?N) r1" "rc_stored_bytes r1 \<le> cc_max_bytes_per_stream (sc_config sc1)"
      "rc_id r1 = rc_id r0"
    and bal: "balanced (rc_stored_bytes r0) (both_length ?N) r1 u"
    using sc_update_record_abs[OF r0ok(1) fit1 r0ok(3) r0ok(2) room on(2), of ?now] same(1) by auto
  define sc2 where "sc2 = sc1\<lparr>sc_streams := AList.update ?key r1 (sc_streams sc1)\<rparr>"
  let ?H' = "H1(?key := add_all (H1 ?key) ?N)"
  have small1: "sc_stored_bytes sc1 + both_length ?N \<le> u64_max" using small le1 by linarith
  note core2 = sc_core_update[OF core1 r0 r1(1,3,2) bal small1 sc2_def]
  have hist: "history_step ?key ?N H ?H'"
    by (auto simp: history_step_def H1_def add_all_def)
  have others2: "map_of (sc_streams sc2) k = (if k = ?key then Some r1 else map_of (sc_streams sc1) k)" for k
    by (simp add: sc2_def update_conv')
  have unfolded: "sc_observe_flow sc packet flow = (if ru_ranges u = [] then Some (sc2, None)
      else let sc3 = sc_enforce_global_limit (sc_account sc2 u) ?key
        in Some (sc3, Some \<lparr>cu_stream_id = stable_id ?key, cu_key = ?key, cu_ranges = ru_ranges u,
             cu_observed_bytes = as_observed_bytes (ru_appended u),
             cu_stored_bytes_after = (case map_of (sc_streams sc3) ?key of
                None \<Rightarrow> 0 | Some r \<Rightarrow> rc_stored_bytes r)\<rparr>))"
    using on ens ensured r0 upd by (simp add: sc_observe_flow_def b_def Let_def sc2_def)
  have ranges: "ru_ranges u = [] \<longleftrightarrow> both_length ?N = 0" "as_observed_bytes (ru_appended u) = both_length ?N"
    using bal by (simp_all add: balanced_def)
  show thesis
  proof (cases "both_length ?N = 0")
    case True
    have "sc_ok ?H' sc2"
      using core2(2)[OF True] le1 ok conf1 by (simp add: sc_ok_def sc2_def)
    then show thesis
      using that[of sc2 None ?H'] hist others1 others2 True ranges unfolded conf1
      by (simp add: content_keys_iff sc2_def)
  next
    case False
    let ?a = "sc_account sc2 u"
    have streams: "sc_streams ?a = sc_streams sc2" "sc_config ?a = sc_config sc1"
      by (simp_all add: sc_account_def Let_def sc2_def)
    have key: "map_of (sc_streams ?a) ?key = Some r1" using others2 streams by simp
    note enf = sc_enforce_core[OF core2(1) key]
    let ?sc3 = "sc_enforce_global_limit ?a ?key"
    have "map_of (sc_streams ?sc3) k \<in> {None, map_of (sc_streams sc) k}" if "k \<noteq> ?key" for k
      using enf others1[OF that] others2 streams that unfolding sc_evicted_def
      by (metis insertE insertI1 singletonD)
    moreover have "sc_ok ?H' ?sc3" using enf by (simp add: sc_ok_def sc_evicted_def)
    moreover have eq: "sc_observe_flow sc packet flow = Some (?sc3, Some \<lparr>cu_stream_id = stable_id ?key,
        cu_key = ?key, cu_ranges = ru_ranges u, cu_observed_bytes = as_observed_bytes (ru_appended u),
        cu_stored_bytes_after = (case map_of (sc_streams ?sc3) ?key of
           None \<Rightarrow> 0 | Some r \<Rightarrow> rc_stored_bytes r)\<rparr>)"
      using unfolded False ranges by (simp add: Let_def)
    ultimately show thesis
      using hist False ranges enf conf1 streams
      by (intro that[OF eq, of ?H']) (simp_all add: content_keys_iff sc_evicted_def)
  qed
qed

subsection \<open>Reading\<close>

definition bounded_histories :: "histories \<Rightarrow> bool" where
  "bounded_histories H \<longleftrightarrow> (\<forall>k. both_length (H k) \<le> u64_max)"

lemma bounded_dir: "bounded_histories H \<Longrightarrow> length (H k d) \<le> u64_max"
  unfolding bounded_histories_def both_length_def by (metis add_leD1 add_leD2 flow_direction.exhaust)

definition content_inv :: "stream_content \<Rightarrow> bool" where
  "content_inv sc \<longleftrightarrow> (\<exists>H. sc_ok H sc \<and> bounded_histories H)"

text \<open>What a direction of a stream holds: the offset of its first byte, and the bytes.\<close>

definition content_held :: "stream_content \<Rightarrow> flow_key \<Rightarrow> flow_direction \<Rightarrow> (nat \<times> bytes) option" where
  "content_held sc key d = map_option (\<lambda>r. let dc = dir_get (rc_directions r) d in
     (dn_next_offset dc - dn_stored_bytes dc, dn_bytes dc)) (map_of (sc_streams sc) key)"

lemma sc_ok_direction:
  assumes "sc_ok H sc" "map_of (sc_streams sc) key = Some r"
  shows "dc_abs (H key d) (dir_get (rc_directions r) d)" "rc_id r = stable_id key"
  using assms by (simp_all add: sc_ok_def sc_core_def rc_abs_def)

lemma content_held_spec:
  assumes "sc_ok H sc" "key \<in> content_keys sc"
  shows "\<exists>n \<le> length (H key d). content_held sc key d = Some (length (H key d) - n, drop (length (H key d) - n) (H key d))"
proof -
  obtain r where r: "map_of (sc_streams sc) key = Some r"
    using assms(2) by (auto simp: content_keys_iff)
  from sc_ok_direction(1)[OF assms(1) r, of d] show ?thesis
    by (intro exI[of _ "dn_stored_bytes (dir_get (rc_directions r) d)"])
      (simp add: content_held_def r dc_abs_def Let_def)
qed

definition one_window :: "u64w \<Rightarrow> flow_direction \<Rightarrow> nat \<Rightarrow> bytes \<Rightarrow> nat \<Rightarrow> nat \<Rightarrow> content_window list" where
  "one_window sid d a bs lo hi =
     (let x = max lo a; y = min hi (a + length bs) in
      if x < y then [\<lparr>cw_stream_id = sid, cw_direction = d, cw_logical_start = x,
        cw_bytes = take (y - x) (drop (x - a) bs)\<rparr>] else [])"

lemma one_window_sound:
  assumes "w \<in> set (one_window sid d a bs lo hi)"
  shows "lo \<le> cw_logical_start w" "cw_logical_start w + length (cw_bytes w) \<le> hi" "cw_bytes w \<noteq> []"
    "a \<le> cw_logical_start w" "cw_logical_start w + length (cw_bytes w) \<le> a + length bs"
    "cw_bytes w = take (length (cw_bytes w)) (drop (cw_logical_start w - a) bs)"
proof -
  let ?x = "max lo a" and ?y = "min hi (a + length bs)"
  have xy: "?x < ?y" and w: "w = \<lparr>cw_stream_id = sid, cw_direction = d, cw_logical_start = ?x,
      cw_bytes = take (?y - ?x) (drop (?x - a) bs)\<rparr>"
    using assms by (auto simp: one_window_def Let_def split: if_splits)
  have len: "length (cw_bytes w) = ?y - ?x"
    using xy by (simp add: w)
  have ne: "0 < length (cw_bytes w)" unfolding len using xy by linarith
  show "lo \<le> cw_logical_start w" "a \<le> cw_logical_start w" by (simp_all add: w)
  show "cw_logical_start w + length (cw_bytes w) \<le> hi"
    "cw_logical_start w + length (cw_bytes w) \<le> a + length bs"
    unfolding len using xy by (simp_all add: w)
  show "cw_bytes w \<noteq> []" using ne by auto
  show "cw_bytes w = take (length (cw_bytes w)) (drop (cw_logical_start w - a) bs)"
    unfolding len by (simp add: w)
qed

lemma window_spec_one:
  "n \<le> length h \<Longrightarrow> window_spec sid d h n lo hi = one_window sid d (length h - n) (drop (length h - n) h) lo hi"
  by (simp add: window_spec_def one_window_def Let_def max_def)

lemma sc_direction_windows_held:
  assumes "content_inv sc" "content_held sc key d = Some (a, bs)"
  shows "sc_direction_windows sc key d lo hi = Some (one_window (stable_id key) d a bs lo hi)"
    "a + length bs \<le> u64_max"
proof -
  obtain H where H: "sc_ok H sc" "bounded_histories H" using assms(1) by (auto simp: content_inv_def)
  obtain r where r: "map_of (sc_streams sc) key = Some r"
    using assms(2) by (auto simp: content_held_def)
  note abs = sc_ok_direction[OF H(1) r]
  have held: "a = length (H key d) - dn_stored_bytes (dir_get (rc_directions r) d)"
    "bs = drop (length (H key d) - dn_stored_bytes (dir_get (rc_directions r) d)) (H key d)"
    "dn_stored_bytes (dir_get (rc_directions r) d) \<le> length (H key d)"
    using assms(2) abs(1)[of d] by (auto simp: content_held_def r dc_abs_def Let_def)
  show "sc_direction_windows sc key d lo hi = Some (one_window (stable_id key) d a bs lo hi)"
    unfolding held using dn_windows_spec[OF abs(1) bounded_dir[OF H(2)]] window_spec_one[OF held(3)]
    by (simp add: sc_direction_windows_def r abs(2))
  show "a + length bs \<le> u64_max" unfolding held using bounded_dir[OF H(2), of key d] held(3) by simp
qed

text \<open>
  The interface the slice and pattern clients rely on: what a stream direction holds is one run of
  bytes at an offset, and a window request returns the requested part of it.
\<close>

locale content_source =
  fixes windows :: "'s \<Rightarrow> 'k \<Rightarrow> flow_direction \<Rightarrow> nat \<Rightarrow> nat \<Rightarrow> content_window list option"
    and held :: "'s \<Rightarrow> 'k \<Rightarrow> flow_direction \<Rightarrow> (nat \<times> bytes) option"
    and ident :: "'k \<Rightarrow> u64w"
    and inv :: "'s \<Rightarrow> bool"
  assumes windows_absent: "held s k d = None \<Longrightarrow> windows s k d lo hi = None"
    and windows_held: "inv s \<Longrightarrow> held s k d = Some (a, bs) \<Longrightarrow>
      windows s k d lo hi = Some (one_window (ident k) d a bs lo hi)"
begin

lemma windows_cases:
  assumes "inv s" "windows s k d lo hi = Some ws"
  obtains a bs where "held s k d = Some (a, bs)" "ws = one_window (ident k) d a bs lo hi"
  using assms windows_absent[of s k d lo hi] windows_held[OF assms(1)]
  by (cases "held s k d") auto

text \<open>A window lies in the requested range and holds the source's bytes at its offsets.\<close>

lemma window_sound:
  assumes "inv s" "windows s k d lo hi = Some ws" "w \<in> set ws" "held s k d = Some (a, bs)"
  shows "lo \<le> cw_logical_start w" "cw_logical_start w + length (cw_bytes w) \<le> hi" "cw_bytes w \<noteq> []"
    "a \<le> cw_logical_start w" "cw_logical_start w + length (cw_bytes w) \<le> a + length bs"
    "cw_bytes w = take (length (cw_bytes w)) (drop (cw_logical_start w - a) bs)"
proof -
  have "w \<in> set (one_window (ident k) d a bs lo hi)"
    using assms(2,3) windows_held[OF assms(1,4), of lo hi] by simp
  from one_window_sound[OF this] show "lo \<le> cw_logical_start w"
    "cw_logical_start w + length (cw_bytes w) \<le> hi" "cw_bytes w \<noteq> []" "a \<le> cw_logical_start w"
    "cw_logical_start w + length (cw_bytes w) \<le> a + length bs"
    "cw_bytes w = take (length (cw_bytes w)) (drop (cw_logical_start w - a) bs)" .
qed

lemma windows_at_most_one:
  assumes "inv s" "windows s k d lo hi = Some ws"
  shows "length ws \<le> 1"
  by (rule windows_cases[OF assms]) (simp add: one_window_def Let_def)

end

interpretation content: content_source sc_direction_windows content_held stable_id content_inv
  by unfold_locales
    (auto simp: sc_direction_windows_held(1), auto simp: content_held_def sc_direction_windows_def)

subsection \<open>Properties\<close>


text \<open>
  C6. Reading a window returns exactly the requested part of the stored suffix of the history, in
  one piece: no byte that was trimmed away, none beyond what was observed, and never two windows.
\<close>

theorem content_window_exact:
  assumes "sc_ok H sc" "bounded_histories H" "key \<in> content_keys sc"
  shows "\<exists>n \<le> length (H key d).
    sc_direction_bytes sc key d = Some (drop (length (H key d) - n) (H key d)) \<and>
    sc_direction_windows sc key d lo hi = Some (window_spec (stable_id key) d (H key d) n lo hi)"
proof -
  obtain n where n: "n \<le> length (H key d)"
    "content_held sc key d = Some (length (H key d) - n, drop (length (H key d) - n) (H key d))"
    using content_held_spec[OF assms(1,3)] by blast
  have inv: "content_inv sc" using assms(1,2) by (auto simp: content_inv_def)
  have "sc_direction_bytes sc key d = Some (drop (length (H key d) - n) (H key d))"
    using n(2) by (auto simp: content_held_def sc_direction_bytes_def Let_def)
  then show ?thesis
    using n(1) content.windows_held[OF inv n(2), of lo hi] window_spec_one[OF n(1)] by auto
qed

fun content_run ::
  "stream_content \<Rightarrow> (decoded_packet \<times> flow_observation) list \<Rightarrow> stream_content option" where
  "content_run sc [] = Some sc"
| "content_run sc ((packet, flow) # evs) = (case sc_observe_flow sc packet flow of
     None \<Rightarrow> None | Some (sc1, _) \<Rightarrow> content_run sc1 evs)"

definition incoming :: "(decoded_packet \<times> flow_observation) list \<Rightarrow> nat" where
  "incoming evs = sum_list (map (\<lambda>(packet, flow). both_length (flow_bytes packet flow)) evs)"

lemma content_run_ok:
  assumes "sc_ok H sc" "cc_enabled (sc_config sc)" "\<forall>k. both_length (H k) \<le> n"
    and "n + incoming evs \<le> u64_max" "cc_max_total_bytes (sc_config sc) + incoming evs \<le> u64_max"
  shows "\<exists>sc' H'. content_run sc evs = Some sc' \<and> sc_ok H' sc' \<and> bounded_histories H'
    \<and> sc_config sc' = sc_config sc"
  using assms
proof (induction evs arbitrary: sc H n)
  case Nil
  have "both_length (H k) \<le> u64_max" for k
    using Nil.prems(3)[rule_format, of k] Nil.prems(4) by linarith
  then show ?case using Nil.prems(1) by (simp add: bounded_histories_def exI[of _ H])
next
  case (Cons ev evs)
  obtain packet flow where ev: "ev = (packet, flow)" by fastforce
  let ?N = "flow_bytes packet flow"
  have total: "n + both_length ?N + incoming evs \<le> u64_max"
    "cc_max_total_bytes (sc_config sc) + both_length ?N + incoming evs \<le> u64_max"
    using Cons.prems(4,5) by (simp_all add: incoming_def ev)
  show ?case
  proof (cases "flow_has_content packet flow")
    case False
    then have step: "sc_observe_flow sc packet flow = Some (sc, None)" by (simp add: sc_observe_flow_def)
    have "\<exists>sc' H'. content_run sc evs = Some sc' \<and> sc_ok H' sc' \<and> bounded_histories H'
        \<and> sc_config sc' = sc_config sc"
      by (rule Cons.IH[OF Cons.prems(1-3)]) (use total in linarith)+
    then show ?thesis by (simp add: ev step)
  next
    case True
    have "both_length (H (fo_key flow)) + both_length ?N \<le> u64_max"
      using Cons.prems(3)[rule_format, of "fo_key flow"] total(1) by linarith
    then have fit: "fits (add_all (H (fo_key flow)) ?N)" by (simp add: fits_add_all)
    have small: "sc_stored_bytes sc + both_length ?N \<le> u64_max"
      using Cons.prems(1) total(2) unfolding sc_ok_def by linarith
    obtain sc1 u H1 where step: "sc_observe_flow sc packet flow = Some (sc1, u)" "sc_ok H1 sc1"
      "history_step (fo_key flow) ?N H H1" "sc_config sc1 = sc_config sc"
      by (rule sc_observe_flow_core[OF Cons.prems(1) fit small Cons.prems(2) True])
    have lens: "both_length (H1 k) \<le> n + both_length ?N" for k
    proof (cases "k = fo_key flow")
      case True
      have "both_length (add_all (H k) ?N) = both_length (H k) + both_length ?N"
        by (simp add: both_length_def add_all_def)
      then show ?thesis
        using step(3) True Cons.prems(3)[rule_format, of k] by (auto simp: history_step_def)
    next
      case False
      then have "H1 k = H k" using step(3) by (auto simp: history_step_def)
      then show ?thesis using Cons.prems(3)[rule_format, of k] by simp
    qed
    have "\<exists>sc' H'. content_run sc1 evs = Some sc' \<and> sc_ok H' sc' \<and> bounded_histories H'
        \<and> sc_config sc' = sc_config sc1"
    proof (rule Cons.IH[OF step(2), of "n + both_length ?N"])
      show "cc_enabled (sc_config sc1)" using Cons.prems(2) unfolding step(4) .
      show "\<forall>k. both_length (H1 k) \<le> n + both_length ?N" using lens by blast
      show "n + both_length ?N + incoming evs \<le> u64_max" by (rule total(1))
      show "cc_max_total_bytes (sc_config sc1) + incoming evs \<le> u64_max"
        using total(2) unfolding step(4) by linarith
    qed
    then show ?thesis unfolding ev step(4) by (simp only: content_run.simps step(1) option.case prod.case)
  qed
qed

text \<open>
  C7. Over any run of observations the store keeps its limits: it returns from every observation,
  holds no more streams than configured, no more bytes per stream than its limit, no more bytes in
  all than the global limit, and its byte counter is the sum of what the streams hold.
\<close>

theorem content_run_keeps_limits:
  assumes "cc_enabled (content_normalized config)"
    and "cc_max_total_bytes config + incoming evs \<le> u64_max"
  shows "\<exists>sc. content_run (stream_content_new config) evs = Some sc
    \<and> length (sc_streams sc) \<le> max (cc_max_streams config) 1
    \<and> sc_stored_bytes sc = tbl_sum rc_stored_bytes (sc_streams sc)
    \<and> sc_stored_bytes sc \<le> cc_max_total_bytes config
    \<and> (\<forall>(k, r) \<in> set (sc_streams sc). rc_stored_bytes r \<le> max (cc_max_bytes_per_stream config) 1)"
proof -
  let ?c = "content_normalized config"
  have conf: "cc_max_streams ?c = max (cc_max_streams config) 1"
    "cc_max_total_bytes ?c = cc_max_total_bytes config"
    "cc_max_bytes_per_stream ?c \<le> max (cc_max_bytes_per_stream config) 1"
    using assms(1) by (auto simp: content_normalized_def content_disabled_def Let_def split: if_splits)
  have "sc_ok (\<lambda>_ _. []) (stream_content_new config)"
    using content_normalized_ok[OF assms(1)]
    by (simp add: sc_ok_def sc_core_def stream_content_new_def)
  moreover have "cc_enabled (sc_config (stream_content_new config))"
    "cc_max_total_bytes (sc_config (stream_content_new config)) + incoming evs \<le> u64_max"
    using assms conf(2) by (simp_all add: stream_content_new_def)
  ultimately obtain sc H where sc: "content_run (stream_content_new config) evs = Some sc" "sc_ok H sc"
    "sc_config sc = ?c"
    using content_run_ok[of "\<lambda>_ _. []" "stream_content_new config" 0 evs] assms(2)
    by (auto simp: both_length_def stream_content_new_def)
  have "rc_stored_bytes r \<le> max (cc_max_bytes_per_stream config) 1" if "(k, r) \<in> set (sc_streams sc)" for k r
  proof -
    have "map_of (sc_streams sc) k = Some r"
      using that sc(2) tbl_map_of_iff[of "sc_streams sc" k r] by (simp add: sc_ok_def sc_core_def)
    then have "rc_stored_bytes r \<le> cc_max_bytes_per_stream ?c"
      using sc(2,3) by (auto simp: sc_ok_def sc_core_def)
    then show ?thesis using conf(3) by (rule le_trans)
  qed
  then show ?thesis
    using sc conf by (auto simp: sc_ok_def sc_core_def intro!: exI[of _ sc])
qed

subsection \<open>Witnesses\<close>

definition sample_content_config :: content_config where
  "sample_content_config = \<lparr>cc_enabled = True, cc_max_streams = 2, cc_idle_timeout_ms = 1000,
     cc_max_total_bytes = 8, cc_max_bytes_per_stream = 4, cc_max_segment_bytes = 3\<rparr>"

definition sample_flow :: flow_observation where
  "sample_flow = \<lparr>fo_key = sample_key, fo_direction = AToB, fo_packets = 1, fo_bytes = 5,
     fo_is_new = True, fo_tcp = None\<rparr>"

lemma sample_flow_bytes: "flow_bytes sample_packet sample_flow = (\<lambda>d. if d = AToB then [7] else [])"
  by (simp add: flow_bytes_def sample_flow_def sample_packet_def transport_payload_of_def sample_slice_def fun_eq_iff)

lemma sample_content_ok:
  "sc_ok (\<lambda>_ _. []) (stream_content_new sample_content_config)"
  "cc_enabled (sc_config (stream_content_new sample_content_config))"
  by (simp_all add: sc_ok_def sc_core_def stream_content_new_def content_normalized_def
      sample_content_config_def content_config_ok_def Let_def)

lemma sample_flow_content: "flow_has_content sample_packet sample_flow"
  by (simp add: flow_has_content_def sample_flow_def sample_packet_def transport_payload_of_def sample_slice_def)


definition sample_store :: stream_content where
  "sample_store = \<lparr>sc_config = content_normalized sample_content_config,
     sc_streams = [(sample_key, \<lparr>rc_id = stable_id sample_key, rc_last_seen_us = 0,
       rc_directions = (\<lparr>dn_next_offset = 3, dn_stored_bytes = 2, dn_segments =
         [\<lparr>sg_logical_start = 1, sg_sequence_start = None, sg_observed_us = 0, sg_bytes = [8]\<rparr>,
          \<lparr>sg_logical_start = 2, sg_sequence_start = None, sg_observed_us = 0, sg_bytes = [9]\<rparr>]\<rparr>,
         direction_content_default), rc_truncated = True\<rparr>)],
     sc_observed_packets = 3, sc_stored_bytes = 2, sc_stats = content_stats_default\<rparr>"

definition sample_history :: histories where
  "sample_history k d = (if k = sample_key \<and> d = AToB then [7, 8, 9] else [])"

lemma sample_store_ok: "sc_ok sample_history sample_store"
proof -
  have "rc_abs (sample_history sample_key) (snd (hd (sc_streams sample_store)))"
    unfolding rc_abs_def
  proof
    fix d
    show "dc_abs (sample_history sample_key d) (dir_get (rc_directions (snd (hd (sc_streams sample_store)))) d)"
      by (cases d) (simp_all add: sample_history_def sample_store_def dc_abs_def dn_bytes_def
          direction_content_default_def)
  qed
  then show ?thesis
    by (auto simp: sc_ok_def sc_core_def sample_store_def content_normalized_def sample_content_config_def
        content_config_ok_def tbl_ok_def tbl_sum_def rc_stored_bytes_def direction_content_default_def
        split: if_splits)
qed

lemma content_window_exact_witness:
  "\<exists>n \<le> 3. sc_direction_windows sample_store sample_key AToB 0 9
    = Some (window_spec (stable_id sample_key) AToB [7, 8, 9] n 0 9)"
proof -
  have "bounded_histories sample_history"
    by (simp add: bounded_histories_def both_length_def sample_history_def u64_max_def)
  moreover have "sample_key \<in> content_keys sample_store"
    by (simp add: content_keys_def sample_store_def)
  moreover have "sample_history sample_key AToB = [7, 8, 9]" by (simp add: sample_history_def)
  ultimately obtain n where "n \<le> 3" "sc_direction_windows sample_store sample_key AToB 0 9
    = Some (window_spec (stable_id sample_key) AToB [7, 8, 9] n 0 9)"
    using content_window_exact[OF sample_store_ok, of sample_key AToB 0 9]
    by (metis length_Cons list.size(3) numeral_3_eq_3)
  then show ?thesis by blast
qed

lemma content_run_keeps_limits_witness:
  "\<exists>sc. content_run (stream_content_new sample_content_config) [(sample_packet, sample_flow)] = Some sc
    \<and> sc_stored_bytes sc \<le> 8"
  using content_run_keeps_limits[of sample_content_config "[(sample_packet, sample_flow)]"]
    sample_content_ok(2)
  by (auto simp: incoming_def sample_flow_bytes both_length_def u64_max_def stream_content_new_def
      sample_content_config_def)

end
