(* ===== verification/Shard_Route.thy ===== *)
theory Shard_Route
  imports Flow_Key
begin

text \<open>
  The dispatcher's packet parser and the topology of shards, from \<^verbatim>\<open>src/src/shard.rs\<close>.  The
  dispatcher reads only as much of a packet as it needs to find the flow; a packet without a flow
  has a \<^verbatim>\<open>FallbackRouteReason\<close>.
\<close>

subsection \<open>The parser\<close>

datatype fallback_reason =
  FbUnsupportedLink | FbNonIp | FbMalformed | FbFragmented | FbUnsupportedTransport

definition sh_read_u16 :: "bytes \<Rightarrow> nat \<Rightarrow> fallback_reason + u16" where
  "sh_read_u16 data offset =
     try_bind (ok_or FbMalformed (get_at data offset)) (\<lambda>hi.
     try_bind (ok_or FbMalformed (get_at data (offset + 1))) (\<lambda>lo.
       Inr (u16_be hi lo)))"

text \<open>The loop over VLAN tags.\<close>

fun sh_vlan_loop :: "nat \<Rightarrow> bytes \<Rightarrow> u16 \<Rightarrow> nat \<Rightarrow> fallback_reason + u16 \<times> nat" where
  "sh_vlan_loop 0 data ethertype offset = Inr (ethertype, offset)"
| "sh_vlan_loop (Suc n) data ethertype offset =
     (if \<not> (ethertype = 0x8100 \<or> ethertype = 0x88a8 \<or> ethertype = 0x9100) then Inr (ethertype, offset)
      else if length data < offset + 4 then Inl FbMalformed
      else try_bind (sh_read_u16 data (offset + 2)) (\<lambda>e. sh_vlan_loop n data e (offset + 4)))"

definition sh_ethernet_payload :: "bytes \<Rightarrow> fallback_reason + u16 \<times> nat" where
  "sh_ethernet_payload data =
     (if length data < 14 then Inl FbMalformed
      else try_bind (sh_read_u16 data 12) (\<lambda>ethertype. sh_vlan_loop 2 data ethertype 14))"

definition route_transport ::
  "bytes \<Rightarrow> nat \<Rightarrow> u8 \<Rightarrow> ip_addr \<Rightarrow> ip_addr \<Rightarrow> fallback_reason + flow_route" where
  "route_transport data offset protocol source_addr destination_addr =
     try_bind (if protocol = 6 then Inr Tcp else if protocol = 17 then Inr Udp
               else Inl FbUnsupportedTransport) (\<lambda>transport.
     try_bind (sh_read_u16 data offset) (\<lambda>source_port.
     try_bind (sh_read_u16 data (offset + 2)) (\<lambda>destination_port.
       Inr (flow_route_new transport
         \<lparr>ep_addr = source_addr, ep_port = source_port\<rparr>
         \<lparr>ep_addr = destination_addr, ep_port = destination_port\<rparr>))))"

definition route_ipv4 :: "bytes \<Rightarrow> nat \<Rightarrow> fallback_reason + flow_route" where
  "route_ipv4 data offset =
     (if length data < offset + 20 then Inl FbMalformed
      else let version = drop_bit 4 (data ! offset);
               header_len = unat (data ! offset AND 0x0f) * 4
        in if version \<noteq> 4 \<or> header_len < 20 \<or> length data < offset + header_len then Inl FbMalformed
           else try_bind (sh_read_u16 data (offset + 2)) (\<lambda>total.
             if unat total < header_len then Inl FbMalformed
             else try_bind (sh_read_u16 data (offset + 6)) (\<lambda>fragment.
               if fragment AND 0x1fff \<noteq> 0 then Inl FbFragmented
               else route_transport data (offset + header_len) (data ! (offset + 9))
                 (V4 [data ! (offset + 12), data ! (offset + 13), data ! (offset + 14), data ! (offset + 15)])
                 (V4 [data ! (offset + 16), data ! (offset + 17), data ! (offset + 18), data ! (offset + 19)]))))"

text \<open>The walk over at most eight extension headers.\<close>

fun route_ipv6_transport ::
  "nat \<Rightarrow> bytes \<Rightarrow> nat \<Rightarrow> u8 \<Rightarrow> ip_addr \<Rightarrow> ip_addr \<Rightarrow> fallback_reason + flow_route" where
  "route_ipv6_transport 0 data offset next_header source destination = Inl FbUnsupportedTransport"
| "route_ipv6_transport (Suc n) data offset next_header source destination =
     (if next_header = 6 \<or> next_header = 17 then route_transport data offset next_header source destination
      else if next_header = 0 \<or> next_header = 43 \<or> next_header = 60 then
        (if length data < offset + 2 then Inl FbMalformed
         else route_ipv6_transport n data (sat_add offset ((unat (data ! (offset + 1)) + 1) * 8))
           (data ! offset) source destination)
      else if next_header = 44 then
        (if length data < offset + 8 then Inl FbMalformed
         else try_bind (sh_read_u16 data (offset + 2)) (\<lambda>fragment.
           if fragment AND 0xfff8 \<noteq> 0 then Inl FbFragmented
           else route_ipv6_transport n data (sat_add offset 8) (data ! offset) source destination))
      else if next_header = 51 then
        (if length data < offset + 2 then Inl FbMalformed
         else route_ipv6_transport n data (sat_add offset ((unat (data ! (offset + 1)) + 2) * 4))
           (data ! offset) source destination)
      else Inl FbUnsupportedTransport)"

definition route_ipv6 :: "bytes \<Rightarrow> nat \<Rightarrow> fallback_reason + flow_route" where
  "route_ipv6 data offset =
     (if length data < offset + 40 \<or> drop_bit 4 (data ! offset) \<noteq> 6 then Inl FbMalformed
      else try_bind (ok_or FbMalformed (get_range data (offset + 8) (offset + 24))) (\<lambda>source.
        try_bind (ok_or FbMalformed (get_range data (offset + 24) (offset + 40))) (\<lambda>destination.
          route_ipv6_transport 8 data (offset + 40) (data ! (offset + 6)) (V6 source) (V6 destination))))"

definition route_ip_by_ethertype :: "bytes \<Rightarrow> nat \<Rightarrow> u16 \<Rightarrow> fallback_reason + flow_route" where
  "route_ip_by_ethertype data offset ethertype =
     (if ethertype = 0x0800 then route_ipv4 data offset
      else if ethertype = 0x86dd then route_ipv6 data offset
      else Inl FbNonIp)"

definition route_raw_ip :: "bytes \<Rightarrow> nat \<Rightarrow> fallback_reason + flow_route" where
  "route_raw_ip data offset =
     try_bind (ok_or FbMalformed (get_at data offset)) (\<lambda>b.
       if drop_bit 4 b = 4 then route_ipv4 data offset
       else if drop_bit 4 b = 6 then route_ipv6 data offset
       else Inl FbNonIp)"

definition flow_route_from_raw_result :: "raw_packet \<Rightarrow> fallback_reason + flow_route" where
  "flow_route_from_raw_result raw = (case rp_link_layer raw of
     Ethernet \<Rightarrow> try_bind (sh_ethernet_payload (rp_data raw)) (\<lambda>(ethertype, payload_offset).
       route_ip_by_ethertype (rp_data raw) payload_offset ethertype)
   | LinuxSll \<Rightarrow> if length (rp_data raw) < 16 then Inl FbMalformed
       else try_bind (sh_read_u16 (rp_data raw) 14) (\<lambda>ethertype.
         route_ip_by_ethertype (rp_data raw) 16 ethertype)
   | RawIp \<Rightarrow> route_raw_ip (rp_data raw) 0
   | BsdLoopback \<Rightarrow> route_raw_ip (rp_data raw) 4
   | UnsupportedLayer \<Rightarrow> Inl FbUnsupportedLink)"

definition flow_route_from_raw :: "raw_packet \<Rightarrow> flow_route option" where
  "flow_route_from_raw raw = (case flow_route_from_raw_result raw of Inl _ \<Rightarrow> None | Inr r \<Rightarrow> Some r)"

subsection \<open>What the parser accepts\<close>

text \<open>The two copies of \<^verbatim>\<open>read_u16\<close> and \<^verbatim>\<open>ethernet_payload\<close>, in \<^verbatim>\<open>shard.rs\<close> and \<^verbatim>\<open>packet/mod.rs\<close>,
  agree.\<close>

lemma sh_read_u16_alt: "sh_read_u16 data offset = ok_or FbMalformed (read_u16 data offset)"
  by (simp add: sh_read_u16_def read_u16_def split: option.splits)

lemma sh_vlan_loop_alt: "sh_vlan_loop n data e off = ok_or FbMalformed (skip_vlan_tags n data e off)"
  by (induction n arbitrary: e off)
    (auto simp: sh_read_u16_alt is_vlan_tag_def split: option.splits)

lemma sh_ethernet_payload_alt: "sh_ethernet_payload data = ok_or FbMalformed (ethernet_payload data)"
  by (simp add: sh_ethernet_payload_def ethernet_payload_def sh_read_u16_alt sh_vlan_loop_alt
      split: option.splits)

definition route_wf :: "flow_route \<Rightarrow> bool" where
  "route_wf r \<longleftrightarrow> fk_protocol (fr_key r) \<in> {Tcp, Udp}
     \<and> endpoint_wf (fk_a (fr_key r)) \<and> endpoint_wf (fk_b (fr_key r))
     \<and> endpoint_sort_key (fk_a (fr_key r)) \<le> endpoint_sort_key (fk_b (fr_key r))"

lemma flow_route_new_wf:
  "endpoint_wf s \<Longrightarrow> endpoint_wf d \<Longrightarrow> p \<in> {Tcp, Udp} \<Longrightarrow> route_wf (flow_route_new p s d)"
  by (auto simp: route_wf_def flow_route_new_def simp del: endpoint_sort_key.simps)

lemma route_transport_wf:
  assumes "route_transport data off p (src :: ip_addr) dst = Inr r"
    and "endpoint_wf \<lparr>ep_addr = src, ep_port = 0\<rparr>" "endpoint_wf \<lparr>ep_addr = dst, ep_port = 0\<rparr>"
  shows "route_wf r"
proof -
  have "endpoint_wf \<lparr>ep_addr = src, ep_port = x\<rparr>" "endpoint_wf \<lparr>ep_addr = dst, ep_port = x\<rparr>" for x
    using assms(2,3) by (simp_all add: endpoint_wf_def)
  then show ?thesis
    using assms(1) by (auto simp: route_transport_def try_bind_eq_Inr intro!: flow_route_new_wf
        split: if_splits)
qed

lemma route_ipv6_transport_wf:
  assumes "route_ipv6_transport n data off h src dst = Inr r"
    and "endpoint_wf \<lparr>ep_addr = src, ep_port = 0\<rparr>" "endpoint_wf \<lparr>ep_addr = dst, ep_port = 0\<rparr>"
  shows "route_wf r"
  using assms(1)
  by (induction n arbitrary: off h)
    (auto simp: try_bind_eq_Inr dest: route_transport_wf[OF _ assms(2,3)] split: if_splits)

lemma route_ipv4_wf: "route_ipv4 data off = Inr r \<Longrightarrow> route_wf r"
  by (auto simp: route_ipv4_def Let_def try_bind_eq_Inr endpoint_wf_def split: if_splits
      intro!: route_transport_wf)

lemma route_ipv6_wf: "route_ipv6 data off = Inr r \<Longrightarrow> route_wf r"
  by (auto simp: route_ipv6_def try_bind_eq_Inr ok_or_eq_Inr endpoint_wf_def split: if_splits
      dest!: get_range_SomeD intro!: route_ipv6_transport_wf)

lemmas route_entry_defs = flow_route_from_raw_result_def route_ip_by_ethertype_def route_raw_ip_def
  try_bind_eq_Inr try_bind_eq_Inl

text \<open>
  Every route the dispatcher accepts is a TCP or UDP flow between two addresses of the right
  number of octets, with its endpoints in the canonical order of \<^verbatim>\<open>FlowRoute::new\<close>.
\<close>

theorem dispatched_route_wf:
  "flow_route_from_raw_result raw = Inr r \<Longrightarrow> route_wf r"
  by (auto simp: route_entry_defs split: link_layer.splits if_splits
      dest: route_ipv4_wf route_ipv6_wf)

lemma route_transport_not_fragmented: "route_transport data off p src dst \<noteq> Inl FbFragmented"
  by (auto simp: route_transport_def try_bind_eq_Inl sh_read_u16_alt ok_or_eq_Inl split: if_splits)

text \<open>The dispatcher's walk rejects as fragmented only what the decoder's walk finds, too.\<close>

lemma route_ipv6_transport_fragmented:
  "route_ipv6_transport n data off h src dst = Inl FbFragmented \<Longrightarrow> ipv6_fragment_walk n data h off"
  by (induction n arbitrary: off h)
    (auto simp: try_bind_eq_Inl sh_read_u16_alt ok_or_eq_Inl ok_or_eq_Inr route_transport_not_fragmented
      split: if_splits)

lemma route_ipv4_fragmented: "route_ipv4 data off = Inl FbFragmented \<Longrightarrow> ipv4_is_fragmented data off"
proof -
  have mask: "v AND 0x1fff = (v AND 0x3fff) AND 0x1fff" for v :: u16
    by (simp add: and.assoc)
  assume "route_ipv4 data off = Inl FbFragmented"
  then obtain fragment where f: "read_u16 data (off + 6) = Some fragment" "fragment AND 0x1fff \<noteq> 0"
    by (auto simp: route_ipv4_def Let_def try_bind_eq_Inl sh_read_u16_alt ok_or_eq_Inl ok_or_eq_Inr
        route_transport_not_fragmented split: if_splits)
  have "fragment AND 0x3fff \<noteq> 0"
  proof
    assume "fragment AND 0x3fff = 0"
    then have "fragment AND 0x1fff = 0" by (subst mask) simp
    then show False using f(2) by contradiction
  qed
  then show ?thesis by (simp add: ipv4_is_fragmented_def f(1))
qed

lemma route_ipv6_fragmented: "route_ipv6 data off = Inl FbFragmented \<Longrightarrow> ipv6_is_fragmented data off"
  by (auto simp: route_ipv6_def ipv6_is_fragmented_def try_bind_eq_Inl ok_or_eq_Inl ok_or_eq_Inr
      split: if_splits intro: route_ipv6_transport_fragmented)

lemmas fragment_scan_defs = raw_packet_is_fragmented_def network_payload_def network_from_ethertype_def
  network_from_ip_version_def

text \<open>
  C36. A packet that the dispatcher sends to the fallback route as a fragment is one that the
  decoder's own scan of the raw bytes, which also counts first fragments, finds fragmented.
\<close>

theorem fallback_fragment_is_fragmented:
  "flow_route_from_raw_result raw = Inl FbFragmented \<Longrightarrow>
    raw_packet_is_fragmented (rp_link_layer raw) (rp_data raw)"
  by (cases "rp_link_layer raw")
    (auto simp: route_entry_defs sh_ethernet_payload_alt sh_read_u16_alt ok_or_eq_Inl ok_or_eq_Inr
      fragment_scan_defs route_ipv4_fragmented route_ipv6_fragmented split: if_splits)

text \<open>An IPv4 packet over a raw link, in one fragment of a fragmented datagram, and whole.\<close>

definition sample_ipv4 :: "u8 \<Rightarrow> raw_packet" where
  "sample_ipv4 fragment_offset = \<lparr>rp_timestamp = \<lparr>ts_sec = 0, ts_usec = 0\<rparr>, rp_link_layer = RawIp,
     rp_linktype = 12, rp_data = [0x45, 0, 0, 28, 0, 0, 0, fragment_offset, 64, 17, 0, 0,
       10, 0, 0, 1, 10, 0, 0, 2, 0, 53, 195, 80, 0, 8, 0, 0]\<rparr>"

lemmas route_eval = route_entry_defs route_ipv4_def route_transport_def sh_read_u16_def get_at_def u16_be_def
  sample_ipv4_def Let_def

lemma dispatched_route_wf_witness:
  "\<exists>r. flow_route_from_raw_result (sample_ipv4 0) = Inr r \<and> route_wf r"
proof -
  have "flow_route_from_raw_result (sample_ipv4 0) = Inr (flow_route_new Udp
      \<lparr>ep_addr = V4 [10, 0, 0, 1], ep_port = 53\<rparr> \<lparr>ep_addr = V4 [10, 0, 0, 2], ep_port = 50000\<rparr>)"
    by (simp add: route_eval)
  then show ?thesis using dispatched_route_wf by blast
qed

lemma fallback_fragment_is_fragmented_witness:
  "raw_packet_is_fragmented RawIp (rp_data (sample_ipv4 9))"
proof -
  have "flow_route_from_raw_result (sample_ipv4 9) = Inl FbFragmented"
    by (simp add: route_eval)
  from fallback_fragment_is_fragmented[OF this] show ?thesis
    by (simp add: sample_ipv4_def)
qed

subsection \<open>The topology\<close>

text \<open>\<^verbatim>\<open>usize::is_power_of_two\<close>.\<close>

fun is_power_of_two :: "nat \<Rightarrow> bool" where
  "is_power_of_two n = (if n = 0 then False else if n = 1 then True
     else even n \<and> is_power_of_two (n div 2))"

declare is_power_of_two.simps [simp del]

record shard_topology =
  st_shard_count :: nat
  st_shard_mask :: "nat option"

definition topology_new :: "nat \<Rightarrow> shard_topology" where
  "topology_new shard_count = (let n = max shard_count 1 in
     \<lparr>st_shard_count = n, st_shard_mask = (if is_power_of_two n then Some (n - 1) else None)\<rparr>)"

definition is_single_shard :: "shard_topology \<Rightarrow> bool" where
  "is_single_shard t \<longleftrightarrow> st_shard_count t \<le> 1"

definition topology_is_power_of_two :: "shard_topology \<Rightarrow> bool" where
  "topology_is_power_of_two t \<longleftrightarrow> st_shard_mask t \<noteq> None"

definition shard_for_hash :: "shard_topology \<Rightarrow> u64w \<Rightarrow> nat" where
  "shard_for_hash t hash = (case st_shard_mask t of
     Some m \<Rightarrow> unat hash AND m | None \<Rightarrow> unat hash mod st_shard_count t)"

definition shard_for_sequence :: "shard_topology \<Rightarrow> nat \<Rightarrow> nat" where
  "shard_for_sequence t sequence = (case st_shard_mask t of
     Some m \<Rightarrow> sequence AND m | None \<Rightarrow> sequence mod st_shard_count t)"

lemma is_power_of_two_iff: "is_power_of_two n \<longleftrightarrow> (\<exists>k. n = 2 ^ k)"
proof (induction n rule: is_power_of_two.induct)
  case (1 n)
  show ?case
  proof (cases "n = 0 \<or> n = 1")
    case True
    then show ?thesis
      using is_power_of_two.simps[of 0] is_power_of_two.simps[of 1]
      by (auto intro: exI[of _ 0])
  next
    case False
    have "(even n \<and> (\<exists>k. n div 2 = 2 ^ k)) \<longleftrightarrow> (\<exists>k. n = 2 ^ k)"
    proof
      assume "even n \<and> (\<exists>k. n div 2 = 2 ^ k)"
      then obtain k where "n = 2 * 2 ^ k" by (metis dvd_mult_div_cancel)
      then have "n = 2 ^ Suc k" by simp
      then show "\<exists>k. n = 2 ^ k" by blast
    next
      assume "\<exists>k. n = 2 ^ k"
      then obtain k where k: "n = 2 ^ k" by blast
      then obtain j where "k = Suc j" using False by (cases k) auto
      then show "even n \<and> (\<exists>k. n div 2 = 2 ^ k)" using k by auto
    qed
    then show ?thesis
      using False 1 is_power_of_two.simps[of n] by simp
  qed
qed

text \<open>
  The shard of a hash or of a sequence number is its remainder modulo the number of shards,
  also where the topology uses a bit mask instead of a division, and so it is always a shard.
\<close>

theorem topology_shard_is_remainder:
  "shard_for_hash (topology_new n) h = unat h mod max n 1
   \<and> shard_for_sequence (topology_new n) s = s mod max n 1
   \<and> shard_for_hash (topology_new n) h < st_shard_count (topology_new n)
   \<and> shard_for_sequence (topology_new n) s < st_shard_count (topology_new n)"
proof -
  have mask: "x AND (2 ^ k - Suc 0) = x mod 2 ^ k" for x k :: nat
    using take_bit_eq_mask[of k x] take_bit_eq_mod[of k x] mask_eq_exp_minus_1[where 'a = nat, of k]
    by simp
  have "shard_for_hash (topology_new n) h = unat h mod max n 1"
    "shard_for_sequence (topology_new n) s = s mod max n 1"
    by (auto simp: shard_for_hash_def shard_for_sequence_def topology_new_def Let_def
        is_power_of_two_iff mask)
  moreover have "x mod max n 1 < max n 1" for x by (rule mod_less_divisor) simp
  ultimately show ?thesis by (simp only: topology_new_def Let_def shard_topology.select_convs)
qed

end
