(* ===== verification/Rust_Text.thy ===== *)
theory Rust_Text
  imports Rust_Prelude "HOL-Library.Char_ord"
begin

text \<open>
  Rust's strings and the formatting and parsing the program asks of the standard library.  A
  \<^verbatim>\<open>String\<close> is the list of its UTF-8 bytes, as HOL characters (a character is a byte), so
  \<^verbatim>\<open>len\<close> is the length and the order of strings is the order of their bytes.
\<close>

subsection \<open>Numbers\<close>

definition hex_digit :: "nat \<Rightarrow> char" where
  "hex_digit n = ''0123456789abcdef'' ! n"

text \<open>\<^verbatim>\<open>{:0kx}\<close> for a value that fits in \<open>k\<close> digits, and \<^verbatim>\<open>{:x}\<close>.\<close>

primrec hex_fixed :: "nat \<Rightarrow> nat \<Rightarrow> string" where
  "hex_fixed 0 n = []"
| "hex_fixed (Suc k) n = hex_fixed k (n div 16) @ [hex_digit (n mod 16)]"

fun hex_nat :: "nat \<Rightarrow> string" where
  "hex_nat n = (if n < 16 then [hex_digit n] else hex_nat (n div 16) @ [hex_digit (n mod 16)])"

fun show_nat :: "nat \<Rightarrow> string" where
  "show_nat n = (if n < 10 then [hex_digit n] else show_nat (n div 10) @ [hex_digit (n mod 10)])"

declare hex_nat.simps [simp del] show_nat.simps [simp del]

definition digit_value :: "char \<Rightarrow> nat option" where
  "digit_value c = (let n = of_char c in
     if 48 \<le> n \<and> n \<le> 57 then Some (n - 48)
     else if 97 \<le> n \<and> n \<le> 122 then Some (n - 87)
     else if 65 \<le> n \<and> n \<le> 90 then Some (n - 55) else None)"

text \<open>\<^verbatim>\<open>from_str_radix\<close> of an unsigned type with the given maximum: a sign \<^verbatim>\<open>+\<close> is accepted, an
  empty string, a foreign digit and an overflow are errors.\<close>

fun parse_digits :: "nat \<Rightarrow> nat \<Rightarrow> nat \<Rightarrow> string \<Rightarrow> nat option" where
  "parse_digits base mx acc [] = Some acc"
| "parse_digits base mx acc (c # cs) = (case digit_value c of
     None \<Rightarrow> None
   | Some v \<Rightarrow> if v \<ge> base then None
       else if acc * base + v > mx then None
       else parse_digits base mx (acc * base + v) cs)"

definition parse_unsigned :: "nat \<Rightarrow> nat \<Rightarrow> string \<Rightarrow> nat option" where
  "parse_unsigned base mx s = (case s of
     [] \<Rightarrow> None
   | c # cs \<Rightarrow> if c = CHR ''+'' then (if cs = [] then None else parse_digits base mx 0 cs)
       else parse_digits base mx 0 s)"

lemma digit_value_hex [simp]: "n < 16 \<Longrightarrow> digit_value (hex_digit n) = Some n"
proof -
  assume "n < 16"
  then have "n \<in> set [0..<16]" by simp
  moreover have "\<forall>n \<in> set [0..<16]. digit_value (hex_digit n) = Some n"
    by (simp add: upt_rec hex_digit_def digit_value_def)
  ultimately show ?thesis by blast
qed

lemma parse_digits_append:
  "parse_digits base mx acc (s @ t) = (case parse_digits base mx acc s of
     None \<Rightarrow> None | Some a \<Rightarrow> parse_digits base mx a t)"
  by (induction s arbitrary: acc) (auto split: option.splits)

lemma parse_digits_hex_fixed:
  "n < 16 ^ k \<Longrightarrow> n \<le> mx \<Longrightarrow> parse_digits 16 mx 0 (hex_fixed k n) = Some n"
proof (induction k arbitrary: n)
  case (Suc k)
  have "n div 16 < 16 ^ k" using Suc.prems(1) by (simp add: less_mult_imp_div_less mult.commute)
  moreover have "n div 16 \<le> mx" using Suc.prems(2) by (meson div_le_dividend order_trans)
  ultimately have "parse_digits 16 mx 0 (hex_fixed k (n div 16)) = Some (n div 16)"
    using Suc.IH by simp
  then show ?case
    using Suc.prems(2) by (simp add: parse_digits_append)
qed simp

lemma hex_digit_not_plus: "n < 16 \<Longrightarrow> hex_digit n \<noteq> CHR ''+''"
  using digit_value_hex[of n] by (auto simp: digit_value_def)

lemma hd_hex_fixed: "k > 0 \<Longrightarrow> n < 16 ^ k \<Longrightarrow> \<exists>m < 16. hd (hex_fixed k n) = hex_digit m"
proof (induction k arbitrary: n)
  case (Suc k)
  show ?case
  proof (cases "k = 0")
    case False
    moreover have "n div 16 < 16 ^ k"
      using Suc.prems(2) by (simp add: less_mult_imp_div_less mult.commute)
    ultimately obtain m where "m < 16" "hd (hex_fixed k (n div 16)) = hex_digit m"
      using Suc.IH by blast
    moreover have "hex_fixed k (n div 16) \<noteq> []" using False by (cases k) auto
    ultimately show ?thesis by auto
  qed (auto intro!: exI[of _ "n mod 16"])
qed simp

lemma length_hex_fixed [simp]: "length (hex_fixed k n) = k"
  by (induction k arbitrary: n) auto

text \<open>What \<^verbatim>\<open>{:0kx}\<close> writes, \<^verbatim>\<open>from_str_radix(_, 16)\<close> reads back.\<close>

lemma parse_hex_fixed:
  assumes "k > 0" "n < 16 ^ k" "n \<le> mx"
  shows "parse_unsigned 16 mx (hex_fixed k n) = Some n"
proof -
  obtain m where m: "m < 16" "hd (hex_fixed k n) = hex_digit m"
    using hd_hex_fixed assms by blast
  obtain c cs where c: "hex_fixed k n = c # cs"
    using assms(1) by (metis length_hex_fixed length_0_conv list.exhaust neq0_conv)
  then have "c \<noteq> CHR ''+''" using m hex_digit_not_plus by simp
  then show ?thesis
    using parse_digits_hex_fixed[OF assms(2,3)] by (simp add: parse_unsigned_def c)
qed

lemma parse_digits_show_nat: "n \<le> mx \<Longrightarrow> parse_digits 10 mx 0 (show_nat n) = Some n"
proof (induction n rule: show_nat.induct)
  case (1 n)
  show ?case
  proof (cases "n < 10")
    case True
    then show ?thesis using "1.prems" by (simp add: show_nat.simps[of n])
  next
    case False
    have "n div 10 \<le> mx" using "1.prems" by (meson div_le_dividend order_trans)
    then show ?thesis
      using "1.IH"[OF False] "1.prems" False
      by (simp add: show_nat.simps[of n] parse_digits_append)
  qed
qed

lemma show_nat_hd: "\<exists>m < 10. \<exists>cs. show_nat n = hex_digit m # cs"
proof (induction n rule: show_nat.induct)
  case (1 n)
  then show ?case
    by (cases "n < 10") (auto simp: show_nat.simps[of n] append_eq_Cons_conv)
qed

lemma parse_show_nat: "n \<le> mx \<Longrightarrow> parse_unsigned 10 mx (show_nat n) = Some n"
  using show_nat_hd[of n] parse_digits_show_nat[of n mx] hex_digit_not_plus
  by (fastforce simp: parse_unsigned_def)

subsection \<open>ASCII case and white space\<close>

definition ascii_lower_char :: "char \<Rightarrow> char" where
  "ascii_lower_char c = (if 65 \<le> (of_char c :: nat) \<and> (of_char c :: nat) \<le> 90
     then char_of ((of_char c :: nat) + 32) else c)"

definition to_ascii_lowercase :: "string \<Rightarrow> string" where
  "to_ascii_lowercase s = map ascii_lower_char s"

definition eq_ignore_ascii_case :: "string \<Rightarrow> string \<Rightarrow> bool" where
  "eq_ignore_ascii_case s t \<longleftrightarrow> to_ascii_lowercase s = to_ascii_lowercase t"

lemma ascii_lower_char_idem [simp]: "ascii_lower_char (ascii_lower_char c) = ascii_lower_char c"
  by (auto simp: ascii_lower_char_def)

lemma to_ascii_lowercase_idem [simp]: "to_ascii_lowercase (to_ascii_lowercase s) = to_ascii_lowercase s"
  by (simp add: to_ascii_lowercase_def)

lemma to_ascii_lowercase_simps [simp]:
  "to_ascii_lowercase [] = []" "to_ascii_lowercase (c # s) = ascii_lower_char c # to_ascii_lowercase s"
  by (simp_all add: to_ascii_lowercase_def)

lemma eq_ignore_ascii_case_refl [simp]: "eq_ignore_ascii_case s s"
  by (simp add: eq_ignore_ascii_case_def)

lemma eq_ignore_ascii_case_lower [simp]:
  "eq_ignore_ascii_case s (to_ascii_lowercase t) \<longleftrightarrow> eq_ignore_ascii_case s t"
  by (simp add: eq_ignore_ascii_case_def)

text \<open>
  The white space that \<^verbatim>\<open>str::trim\<close> strips is Unicode's \<^verbatim>\<open>White_Space\<close>.  \<open>ws_prefix\<close> is the number
  of bytes of the white space character that a string starts with, 0 if there is none.
\<close>

definition ws_prefix :: "nat list \<Rightarrow> nat" where
  "ws_prefix bs = (case bs of
     [] \<Rightarrow> 0
   | b # rest \<Rightarrow>
     if (9 \<le> b \<and> b \<le> 13) \<or> b = 32 then 1
     else if b = 0xC2 \<and> take 1 rest \<in> {[0x85], [0xA0]} then 2
     else if (b = 0xE1 \<and> take 2 rest = [0x9A, 0x80])
       \<or> (b = 0xE2 \<and> take 1 rest = [0x80] \<and> length rest \<ge> 2
          \<and> (let l = rest ! 1 in (0x80 \<le> l \<and> l \<le> 0x8A) \<or> l = 0xA8 \<or> l = 0xA9 \<or> l = 0xAF))
       \<or> (b = 0xE2 \<and> take 2 rest = [0x81, 0x9F])
       \<or> (b = 0xE3 \<and> take 2 rest = [0x80, 0x80]) then 3
     else 0)"

lemma ws_prefix_bounds: "ws_prefix bs \<le> length bs" "ws_prefix bs \<le> 3"
  by (auto simp: ws_prefix_def take_Suc_conv_app_nth split: list.splits
      dest!: arg_cong[where f = length])

function trim_front :: "string \<Rightarrow> string" where
  "trim_front s = (let n = ws_prefix (map of_char s) in
     if n = 0 then s else trim_front (drop n s))"
  by pat_completeness auto
termination
proof (relation "measure length")
  fix s :: string and x
  assume "x = ws_prefix (map of_char s)" "x \<noteq> 0"
  then show "(drop x s, s) \<in> measure length"
    using ws_prefix_bounds(1)[of "map of_char s"] by auto
qed simp

declare trim_front.simps [simp del]

text \<open>The number of bytes of the white space character at the end.\<close>

definition ws_suffix :: "nat list \<Rightarrow> nat" where
  "ws_suffix bs = (case filter (\<lambda>k. k \<le> length bs \<and> ws_prefix (drop (length bs - k) bs) = k) [1, 2, 3] of
     [] \<Rightarrow> 0 | k # _ \<Rightarrow> k)"

lemma ws_suffix_bounds: "ws_suffix bs \<le> length bs"
proof (cases "filter (\<lambda>k. k \<le> length bs \<and> ws_prefix (drop (length bs - k) bs) = k) [1, 2, 3]")
  case (Cons k ks)
  then have "k \<in> set (filter (\<lambda>k. k \<le> length bs \<and> ws_prefix (drop (length bs - k) bs) = k) [1, 2, 3])"
    by (metis list.set_intros(1))
  then have "k \<le> length bs" by (simp only: set_filter mem_Collect_eq)
  then show ?thesis unfolding ws_suffix_def Cons by simp
qed (simp only: ws_suffix_def list.case)

function trim_back :: "string \<Rightarrow> string" where
  "trim_back s = (let n = ws_suffix (map of_char s) in
     if n = 0 then s else trim_back (take (length s - n) s))"
  by pat_completeness auto
termination
proof (relation "measure length")
  fix s :: string and x
  assume "x = ws_suffix (map of_char s)" "x \<noteq> 0"
  then show "(take (length s - x) s, s) \<in> measure length"
    using ws_suffix_bounds[of "map of_char s"] by auto
qed simp

declare trim_back.simps [simp del]

definition str_trim :: "string \<Rightarrow> string" where
  "str_trim s = trim_back (trim_front s)"

text \<open>\<^verbatim>\<open>chars().take(n)\<close>: a character starts at every byte that is not a continuation byte.\<close>

definition is_continuation :: "char \<Rightarrow> bool" where
  "is_continuation c \<longleftrightarrow> 128 \<le> (of_char c :: nat) \<and> (of_char c :: nat) < 192"

fun take_chars :: "nat \<Rightarrow> string \<Rightarrow> string" where
  "take_chars n [] = []"
| "take_chars n (c # cs) =
     (if is_continuation c then c # take_chars n cs
      else if n = 0 then [] else c # take_chars (n - 1) cs)"

text \<open>\<^verbatim>\<open>str::replace\<close> of single ASCII characters by one character.\<close>

definition replace_chars :: "char list \<Rightarrow> char \<Rightarrow> string \<Rightarrow> string" where
  "replace_chars old new s = map (\<lambda>c. if c \<in> set old then new else c) s"

text \<open>\<^verbatim>\<open>[..].join(sep)\<close>.\<close>

fun join_with :: "string \<Rightarrow> string list \<Rightarrow> string" where
  "join_with sep [] = []"
| "join_with sep [s] = s"
| "join_with sep (s # t # ss) = s @ sep @ join_with sep (t # ss)"

subsection \<open>Text and bytes\<close>

definition str_bytes :: "string \<Rightarrow> bytes" where
  "str_bytes s = map (\<lambda>c. of_nat (of_char c)) s"

definition byte_char :: "u8 \<Rightarrow> char" where
  "byte_char b = char_of (unat b)"

lemma byte_char_inverse [simp]: "map (\<lambda>c. of_nat (of_char c)) (map byte_char bs) = (bs :: bytes)"
proof -
  have "of_nat (of_char (byte_char b)) = b" for b
  proof -
    have "unat b < 256" using unsigned_less[of b] by simp
    then show ?thesis by (simp add: byte_char_def)
  qed
  then show ?thesis by (simp add: o_def)
qed

end
