(* ===== verification/Rust_Str.thy ===== *)
theory Rust_Str
  imports Rust_Text
begin

text \<open>
  The string and slice searches that the stream parsers use: UTF-8 validation and lossy
  conversion, splitting, and the search for a byte pattern.
\<close>

subsection \<open>UTF-8\<close>

text \<open>The standard library's decoder on a non-empty byte string: whether it starts with a complete
  character, and the length of that character or of the maximal invalid prefix.\<close>

definition is_cont :: "u8 \<Rightarrow> bool" where
  "is_cont b \<longleftrightarrow> 0x80 \<le> b \<and> b \<le> 0xBF"

definition byte_at :: "bytes \<Rightarrow> nat \<Rightarrow> u8" where
  "byte_at bs i = (if i < length bs then bs ! i else 0)"

definition utf8_char :: "bytes \<Rightarrow> bool \<times> nat" where
  "utf8_char bs = (let b = byte_at bs 0; b1 = byte_at bs 1; b2 = byte_at bs 2; b3 = byte_at bs 3 in
     if b < 0x80 then (True, 1)
     else if 0xC2 \<le> b \<and> b \<le> 0xDF then (if is_cont b1 then (True, 2) else (False, 1))
     else if 0xE0 \<le> b \<and> b \<le> 0xEF then
       (if (b = 0xE0 \<and> 0xA0 \<le> b1 \<and> b1 \<le> 0xBF) \<or> (0xE1 \<le> b \<and> b \<le> 0xEC \<and> is_cont b1)
          \<or> (b = 0xED \<and> 0x80 \<le> b1 \<and> b1 \<le> 0x9F) \<or> (0xEE \<le> b \<and> is_cont b1)
        then (if is_cont b2 then (True, 3) else (False, 2)) else (False, 1))
     else if 0xF0 \<le> b \<and> b \<le> 0xF4 then
       (if (b = 0xF0 \<and> 0x90 \<le> b1 \<and> b1 \<le> 0xBF) \<or> (0xF1 \<le> b \<and> b \<le> 0xF3 \<and> is_cont b1)
          \<or> (b = 0xF4 \<and> 0x80 \<le> b1 \<and> b1 \<le> 0x8F)
        then (if is_cont b2 then (if is_cont b3 then (True, 4) else (False, 3)) else (False, 2))
        else (False, 1))
     else (False, 1))"

lemma utf8_char_pos [simp]: "0 < snd (utf8_char bs)"
  by (simp add: utf8_char_def Let_def)

lemma utf8_char_ascii: "b < 0x80 \<Longrightarrow> utf8_char (b # bs) = (True, 1)"
  by (simp add: utf8_char_def byte_at_def)

function utf8_valid :: "bytes \<Rightarrow> bool" where
  "utf8_valid [] = True"
| "utf8_valid (b # bs) = (fst (utf8_char (b # bs)) \<and> utf8_valid (drop (snd (utf8_char (b # bs))) (b # bs)))"
  by pat_completeness auto
termination by (relation "measure length") (auto simp: utf8_char_pos[simplified])

function utf8_lossy :: "bytes \<Rightarrow> bytes" where
  "utf8_lossy [] = []"
| "utf8_lossy (b # bs) = (let (ok, n) = utf8_char (b # bs) in
     (if ok then take n (b # bs) else [0xEF, 0xBF, 0xBD]) @ utf8_lossy (drop n (b # bs)))"
  by pat_completeness auto
termination
proof (relation "measure length")
  fix b bs x y and ok :: bool and n
  assume "x = utf8_char (b # bs)" "(ok, n) = x"
  then have "0 < n" using utf8_char_pos[of "b # bs"] by (metis snd_conv)
  then show "(drop n (b # bs), b # bs) \<in> measure length" by simp
qed simp

declare utf8_valid.simps(2) [simp del] utf8_lossy.simps(2) [simp del]

definition chars_of :: "bytes \<Rightarrow> string" where
  "chars_of bs = map byte_char bs"

definition str_from_utf8 :: "bytes \<Rightarrow> string option" where
  "str_from_utf8 bs = (if utf8_valid bs then Some (chars_of bs) else None)"

definition from_utf8_lossy :: "bytes \<Rightarrow> string" where
  "from_utf8_lossy bs = chars_of (utf8_lossy bs)"

lemma utf8_ascii: "list_all (\<lambda>b. b < 0x80) bs \<Longrightarrow> utf8_valid bs \<and> utf8_lossy bs = bs"
  by (induction bs) (auto simp: utf8_valid.simps(2) utf8_lossy.simps(2) utf8_char_ascii)

lemma lossy_valid: "utf8_valid bs \<Longrightarrow> utf8_lossy bs = bs"
proof (induction bs rule: utf8_valid.induct)
  case (2 b bs)
  obtain ok n where c: "utf8_char (b # bs) = (ok, n)" by fastforce
  with 2 show ?case
    by (simp add: utf8_valid.simps(2) utf8_lossy.simps(2))
qed simp

text \<open>Lossy conversion agrees with strict conversion wherever that succeeds.\<close>

lemma from_utf8_lossy_eq: "str_from_utf8 bs = Some s \<Longrightarrow> from_utf8_lossy bs = s"
  by (auto simp: str_from_utf8_def from_utf8_lossy_def lossy_valid split: if_splits)

subsection \<open>Searching and splitting\<close>

definition starts_with :: "'a list \<Rightarrow> 'a list \<Rightarrow> bool" where
  "starts_with p s \<longleftrightarrow> take (length p) s = p"

text \<open>\<^verbatim>\<open>windows(n).position(|w| w == pat)\<close> for a non-empty pattern.\<close>

fun find_window :: "'a list \<Rightarrow> 'a list \<Rightarrow> nat option" where
  "find_window pat [] = None"
| "find_window pat (x # xs) = (if starts_with pat (x # xs) then Some 0
     else map_option Suc (find_window pat xs))"

lemma find_window_bound:
  "find_window pat xs = Some i \<Longrightarrow> i + length pat \<le> length xs \<and> take (length pat) (drop i xs) = pat"
proof (induction xs arbitrary: i)
  case (Cons x xs)
  show ?case
  proof (cases "starts_with pat (x # xs)")
    case True
    then have "take (length pat) (x # xs) = pat" by (simp only: starts_with_def)
    moreover from this have "length pat \<le> length (x # xs)" by (metis length_take min.cobounded1)
    ultimately show ?thesis using Cons.prems True by simp
  next
    case False
    then obtain j where "find_window pat xs = Some j" "i = Suc j" using Cons.prems by auto
    then show ?thesis using Cons.IH by simp
  qed
qed simp

definition str_contains :: "string \<Rightarrow> string \<Rightarrow> bool" where
  "str_contains s pat \<longleftrightarrow> pat = [] \<or> find_window pat s \<noteq> None"

fun split_on :: "'a \<Rightarrow> 'a list \<Rightarrow> 'a list list" where
  "split_on c [] = [[]]"
| "split_on c (x # xs) = (if x = c then [] # split_on c xs
     else (x # hd (split_on c xs)) # tl (split_on c xs))"

lemma split_on_nonempty [simp]: "split_on c xs \<noteq> []"
  by (cases xs) auto

fun split_once :: "'a \<Rightarrow> 'a list \<Rightarrow> ('a list \<times> 'a list) option" where
  "split_once c [] = None"
| "split_once c (x # xs) = (if x = c then Some ([], xs)
     else map_option (\<lambda>(a, b). (x # a, b)) (split_once c xs))"

text \<open>\<^verbatim>\<open>splitn(n, c)\<close>.\<close>

fun splitn :: "nat \<Rightarrow> 'a \<Rightarrow> 'a list \<Rightarrow> 'a list list" where
  "splitn 0 c s = []"
| "splitn (Suc 0) c s = [s]"
| "splitn (Suc (Suc n)) c s = (case split_once c s of
     None \<Rightarrow> [s] | Some (a, b) \<Rightarrow> a # splitn (Suc n) c b)"

definition is_ascii_ws :: "char \<Rightarrow> bool" where
  "is_ascii_ws c \<longleftrightarrow> of_char c \<in> {9, 10, 12, 13, 32 :: nat}"

fun split_words :: "string \<Rightarrow> string \<Rightarrow> string list" where
  "split_words acc [] = (if acc = [] then [] else [acc])"
| "split_words acc (c # cs) = (if is_ascii_ws c
     then (if acc = [] then split_words [] cs else acc # split_words [] cs)
     else split_words (acc @ [c]) cs)"

definition split_ascii_whitespace :: "string \<Rightarrow> string list" where
  "split_ascii_whitespace s = split_words [] s"

text \<open>\<^verbatim>\<open>trim_end_matches(c)\<close> and \<^verbatim>\<open>replace(c, t)\<close>.\<close>

definition trim_end_matches :: "char \<Rightarrow> string \<Rightarrow> string" where
  "trim_end_matches c s = rev (dropWhile (\<lambda>x. x = c) (rev s))"

definition replace_char :: "char \<Rightarrow> string \<Rightarrow> string \<Rightarrow> string" where
  "replace_char c t s = concat (map (\<lambda>x. if x = c then t else [x]) s)"

text \<open>\<^verbatim>\<open>u32::from_be_bytes\<close> and \<^verbatim>\<open>u64::from_be_bytes\<close>, as numbers.\<close>

definition nat_be :: "bytes \<Rightarrow> nat" where
  "nat_be bs = foldl (\<lambda>n b. n * 256 + unat b) 0 bs"

lemma nat_be_snoc: "nat_be (bs @ [b]) = nat_be bs * 256 + unat b"
  by (simp add: nat_be_def)

lemma unat_u8 [simp]: "unat (b :: u8) < 256"
  using unsigned_less[of b] by simp

lemma nat_be_less: "nat_be bs < 256 ^ length bs"
proof (induction bs rule: rev_induct)
  case (snoc b bs)
  have "Suc (nat_be bs) * 256 \<le> 256 ^ length bs * 256"
    using snoc by (intro mult_le_mono1) simp
  then have "nat_be bs * 256 + unat b < 256 ^ length bs * 256"
    using unat_u8[of b] by (simp del: unat_u8)
  then show ?case by (simp add: nat_be_snoc mult.commute)
qed (simp add: nat_be_def)

lemma unat_u16_be: "unat (u16_be hi lo) = unat hi * 256 + unat lo"
proof -
  have fit: "unat hi * 256 < 65536" "unat lo < 65536" "unat hi < 65536" using unat_u8[of hi] unat_u8[of lo] by linarith+
  have "take_bit 16 (push_bit 8 (unat hi)) = push_bit 8 (unat hi)" "take_bit 16 (unat lo) = unat lo"
    "take_bit 16 (unat hi) = unat hi"
    using fit by (simp_all add: take_bit_nat_eq_self push_bit_eq_mult)
  then have "unat (u16_be hi lo) = (push_bit 8 (unat hi) OR unat lo)"
    by (simp add: u16_be_def unsigned_or_eq unsigned_push_bit_eq unsigned_ucast_eq)
  also have "\<dots> = push_bit 8 (unat hi) + unat lo"
    by (rule disjunctive_add[symmetric]) (auto simp: bit_simps dest: bit_imp_le_length)
  finally show ?thesis by (simp add: push_bit_eq_mult)
qed

end
