(* ===== verification/Ip_Text.thy ===== *)
theory Ip_Text
  imports Packet Rust_Str
begin

text \<open>
  The text of IP addresses, as the standard library writes and reads it: what the program relies on where
  it labels endpoints, records DNS answers and reads addresses back from events.
\<close>

subsection \<open>Display\<close>

text \<open>\<^verbatim>\<open>Display\<close> of \<^verbatim>\<open>std::net::IpAddr\<close>: the longest run of at least two zero groups, the first of
  several, is abbreviated; an IPv4-mapped address shows its last four octets in decimal.\<close>

definition show_ipv4 :: "bytes \<Rightarrow> string" where
  "show_ipv4 octets = join_with ''.'' (map (\<lambda>b. show_nat (unat b)) octets)"

fun ipv6_groups :: "bytes \<Rightarrow> u16 list" where
  "ipv6_groups (a # b # bs) = u16_be a b # ipv6_groups bs"
| "ipv6_groups _ = []"

text \<open>The fold over the groups: index, current span and longest span, as start and length.\<close>

fun zero_span :: "u16 list \<Rightarrow> nat \<Rightarrow> nat \<times> nat \<Rightarrow> nat \<times> nat \<Rightarrow> nat \<times> nat" where
  "zero_span [] i cur best = best"
| "zero_span (g # gs) i cur best =
     (if g = 0
      then let cur1 = (if snd cur = 0 then i else fst cur, snd cur + 1)
        in zero_span gs (i + 1) cur1 (if snd cur1 > snd best then cur1 else best)
      else zero_span gs (i + 1) (0, 0) best)"

definition show_groups :: "u16 list \<Rightarrow> string" where
  "show_groups gs = join_with '':'' (map (\<lambda>g. hex_nat (unat g)) gs)"

definition show_ipv6 :: "bytes \<Rightarrow> string" where
  "show_ipv6 octets =
     (if take 12 octets = replicate 10 0 @ [0xff, 0xff] then ''::ffff:'' @ show_ipv4 (drop 12 octets)
      else let gs = ipv6_groups octets; (start, n) = zero_span gs 0 (0, 0) (0, 0)
        in if n > 1 then show_groups (take start gs) @ ''::'' @ show_groups (drop (start + n) gs)
           else show_groups gs)"

subsection \<open>Parsing\<close>

text \<open>
  \<^verbatim>\<open>str::parse::<IpAddr>\<close>, after the recursive descent parser of \<^verbatim>\<open>std::net\<close>: every reader takes the
  rest of the text and gives its value with what follows, or fails without consuming anything.
\<close>

definition is_digit_of :: "nat \<Rightarrow> char \<Rightarrow> bool" where
  "is_digit_of radix c \<longleftrightarrow> (case digit_value c of None \<Rightarrow> False | Some v \<Rightarrow> v < radix)"

definition read_number :: "nat \<Rightarrow> nat \<Rightarrow> nat \<Rightarrow> bool \<Rightarrow> string \<Rightarrow> (nat \<times> string) option" where
  "read_number radix max_digits mx allow_zero_prefix s =
     (let digits = takeWhile (is_digit_of radix) s in
      if digits = [] \<or> length digits > max_digits then None
      else if \<not> allow_zero_prefix \<and> hd digits = CHR ''0'' \<and> length digits > 1 then None
      else map_option (\<lambda>v. (v, drop (length digits) s)) (parse_digits radix mx 0 digits))"

text \<open>The separator precedes every item but the first.\<close>

definition read_separator :: "char \<Rightarrow> nat \<Rightarrow> (string \<Rightarrow> ('a \<times> string) option) \<Rightarrow> string \<Rightarrow> ('a \<times> string) option" where
  "read_separator sep index inner s =
     (if index = 0 then inner s
      else case s of [] \<Rightarrow> None | c # cs \<Rightarrow> if c = sep then inner cs else None)"

fun read_octets :: "nat \<Rightarrow> nat \<Rightarrow> string \<Rightarrow> (bytes \<times> string) option" where
  "read_octets 0 index s = Some ([], s)"
| "read_octets (Suc k) index s =
     (case read_separator CHR ''.'' index (read_number 10 3 255 False) s of
        None \<Rightarrow> None
      | Some (v, rest) \<Rightarrow> map_option (\<lambda>(vs, rest). (of_nat v # vs, rest)) (read_octets k (index + 1) rest))"

definition read_ipv4 :: "string \<Rightarrow> (bytes \<times> string) option" where
  "read_ipv4 s = read_octets 4 0 s"

text \<open>At most \<open>k\<close> more groups, the first of them with the given index; an embedded IPv4 address needs two
  and ends the list.\<close>

fun read_groups :: "nat \<Rightarrow> nat \<Rightarrow> string \<Rightarrow> nat list \<times> bool \<times> string" where
  "read_groups 0 index s = ([], False, s)"
| "read_groups (Suc k) index s =
     (case (if k \<ge> 1 then read_separator CHR '':'' index read_ipv4 s else None) of
        Some (octets, rest) \<Rightarrow> (map (\<lambda>g. unat g) (ipv6_groups octets), True, rest)
      | None \<Rightarrow>
          (case read_separator CHR '':'' index (read_number 16 4 65535 True) s of
             None \<Rightarrow> ([], False, s)
           | Some (g, rest) \<Rightarrow>
               (case read_groups k (index + 1) rest of (gs, v4, rest) \<Rightarrow> (g # gs, v4, rest))))"

definition groups_octets :: "nat list \<Rightarrow> bytes" where
  "groups_octets gs = concat (map (\<lambda>g. [of_nat (g div 256), of_nat (g mod 256)]) gs)"

definition read_ipv6 :: "string \<Rightarrow> (bytes \<times> string) option" where
  "read_ipv6 s =
     (case read_groups 8 0 s of (head_groups, head_v4, rest) \<Rightarrow>
      if length head_groups = 8 then Some (groups_octets head_groups, rest)
      else if head_v4 then None
      else case rest of
        c # d # rest \<Rightarrow>
          if c = CHR '':'' \<and> d = CHR '':''
          then (case read_groups (8 - (length head_groups + 1)) 0 rest of (tail_groups, _, rest) \<Rightarrow>
            Some (groups_octets (head_groups
              @ replicate (8 - length head_groups - length tail_groups) 0 @ tail_groups), rest))
          else None
      | _ \<Rightarrow> None)"

definition parse_ip_addr :: "string \<Rightarrow> ip_addr option" where
  "parse_ip_addr s =
     (case read_ipv4 s of
        Some (octets, rest) \<Rightarrow> if rest = [] then Some (V4 octets) else None
      | None \<Rightarrow>
          (case read_ipv6 s of
             Some (octets, rest) \<Rightarrow> if rest = [] then Some (V6 octets) else None
           | None \<Rightarrow> None))"

lemma show_nat_digits: "c \<in> set (show_nat n) \<Longrightarrow> is_digit_of 10 c"
proof (induction n rule: show_nat.induct)
  case (1 n)
  then show ?case
    by (cases "n < 10") (auto simp: show_nat.simps[of n] is_digit_of_def)
qed

lemma length_show_octet: "n < 256 \<Longrightarrow> length (show_nat n) \<le> 3 \<and> show_nat n \<noteq> []"
  by (simp add: show_nat.simps[of n] show_nat.simps[of "n div 10"] show_nat.simps[of "n div 10 div 10"])

lemma show_nat_no_leading_zero: "hd (show_nat n) = CHR ''0'' \<Longrightarrow> length (show_nat n) = 1"
proof (induction n rule: show_nat.induct)
  case (1 n)
  show ?case
  proof (cases "n < 10")
    case False
    then have e: "show_nat n = show_nat (n div 10) @ [hex_digit (n mod 10)]" by (simp add: show_nat.simps[of n])
    have ne: "show_nat (n div 10) \<noteq> []" using show_nat_hd[of "n div 10"] by auto
    then have "hd (show_nat (n div 10)) = CHR ''0''" using "1.prems" e by simp
    then have "length (show_nat (n div 10)) = 1" using "1.IH" False by blast
    then have "n div 10 < 10" using show_nat.simps[of "n div 10"] ne
      by (metis append_is_Nil_conv length_append_singleton length_greater_0_conv less_numeral_extra(3) nat.inject One_nat_def
          list.size(3) show_nat_hd list.distinct(1))
    moreover from this have "show_nat (n div 10) = [hex_digit (n div 10)]" by (simp add: show_nat.simps)
    ultimately have "n div 10 = 0" using \<open>hd (show_nat (n div 10)) = CHR ''0''\<close> digit_value_hex[of "n div 10"]
      by (simp add: digit_value_def)
    then show ?thesis using False by simp
  qed (simp add: show_nat.simps[of n])
qed

lemma read_number_show:
  assumes "n < 256" "rest = [] \<or> \<not> is_digit_of 10 (hd rest)"
  shows "read_number 10 3 255 False (show_nat n @ rest) = Some (n, rest)"
proof -
  have "takeWhile (is_digit_of 10) (show_nat n @ rest) = show_nat n"
    using assms(2) by (cases rest) (simp_all add: show_nat_digits takeWhile_append2 takeWhile_tail)
  moreover have "\<not> (hd (show_nat n) = CHR ''0'' \<and> length (show_nat n) > 1)"
    using show_nat_no_leading_zero by fastforce
  ultimately show ?thesis
    using assms(1) length_show_octet[of n] parse_digits_show_nat[of n 255] by (auto simp: read_number_def Let_def)
qed

lemma read_octets_show:
  assumes "length bs = k" "0 < k" "i \<noteq> 0" "rest = [] \<or> \<not> is_digit_of 10 (hd rest)"
  shows "read_octets k i (CHR ''.'' # show_ipv4 bs @ rest) = Some (bs, rest)"
  using assms
proof (induction k arbitrary: bs i)
  case (Suc k)
  then obtain b cs where b: "bs = b # cs" by (cases bs) auto
  have dot: "\<not> is_digit_of 10 CHR ''.''" by (simp add: is_digit_of_def digit_value_def)
  show ?case
  proof (cases "k = 0")
    case True
    then have "bs = [b]" using Suc.prems b by simp
    then show ?thesis
      using True Suc.prems read_number_show[of "unat b" rest] by (simp add: show_ipv4_def read_separator_def)
  next
    case False
    then obtain c cs' where c: "cs = c # cs'" using Suc.prems b by (cases cs) auto
    have "show_ipv4 bs @ rest = show_nat (unat b) @ CHR ''.'' # show_ipv4 cs @ rest"
      by (simp add: show_ipv4_def b c)
    then show ?thesis
      using Suc.prems Suc.IH[of cs "Suc i"] False b read_number_show[of "unat b" "CHR ''.'' # show_ipv4 cs @ rest"] dot
      by (simp add: read_separator_def)
  qed
qed simp

lemma parse_show_ipv4:
  assumes "length bs = 4"
  shows "parse_ip_addr (show_ipv4 bs) = Some (V4 bs)"
proof -
  obtain a cs where a: "bs = a # cs" "length cs = 3" using assms by (cases bs) auto
  have dot: "\<not> is_digit_of 10 CHR ''.''" by (simp add: is_digit_of_def digit_value_def)
  obtain c cs' where c: "cs = c # cs'" using a(2) by (cases cs) auto
  have "show_ipv4 bs = show_nat (unat a) @ CHR ''.'' # show_ipv4 cs" by (simp add: show_ipv4_def a(1) c)
  moreover have "read_octets 3 (Suc 0) (CHR ''.'' # show_ipv4 cs) = Some (cs, [])"
    using read_octets_show[of cs 3 "Suc 0" "[]"] a(2) by simp
  ultimately have "read_ipv4 (show_ipv4 bs) = Some (bs, [])"
    using read_number_show[of "unat a" "CHR ''.'' # show_ipv4 cs"] dot
    using read_octets.simps(2)[of 3 0 "show_ipv4 bs"] by (simp add: read_ipv4_def read_separator_def a(1))
  then show ?thesis by (simp add: parse_ip_addr_def)
qed

end
