(* ===== verification/Shard.thy ===== *)
theory Shard
  imports Shard_Route Ip_Text
begin

text \<open>
  The shard coordinator, from \<^verbatim>\<open>src/src/shard.rs\<close>: which worker gets a packet, the table of flow
  owners, and the load metrics that placement and the health report read.

  The hash is \<^verbatim>\<open>RandomState::hash_one\<close> of the third-party crate \<^verbatim>\<open>ahash\<close> with fixed seeds; it is
  the parameter \<open>h\<close>, a function of what the code hashes (\<open>hash_input\<close>).  The panic of
  \<^verbatim>\<open>expect\<close> in \<^verbatim>\<open>route_flow\<close> is the value \<open>None\<close>.
\<close>

datatype hash_input =
    HashKey flow_key
  | HashSalted u64w flow_key
  | HashCandidate u64w flow_key nat
  | HashStripe u64w flow_key nat nat

definition secondary_route_hash_salt :: u64w where
  "secondary_route_hash_salt = 0x517cc1b727220a95"

definition striped_route_hash_salt :: u64w where
  "striped_route_hash_salt = 0x8f7c3b91c1d5aa6d"

subsection \<open>Configuration\<close>

datatype run_mode = Analyze | Dump

datatype fallback_policy = RoundRobin | FirstShard

datatype routing_policy = FlowAffinityPolicy fallback_policy

definition routing_policy_default :: routing_policy where
  "routing_policy_default = FlowAffinityPolicy RoundRobin"

fun policy_fallback :: "routing_policy \<Rightarrow> fallback_policy" where
  "policy_fallback (FlowAffinityPolicy fallback) = fallback"

fun fallback_route :: "fallback_policy \<Rightarrow> nat \<Rightarrow> shard_topology \<Rightarrow> nat" where
  "fallback_route RoundRobin sequence t = shard_for_sequence t sequence"
| "fallback_route FirstShard sequence t = 0"

record elephant_config =
  el_enabled :: bool
  el_min_packets :: nat
  el_min_bytes :: nat
  el_max_stripes :: nat

definition elephant_default :: elephant_config where
  "elephant_default = \<lparr>el_enabled = True, el_min_packets = 1024, el_min_bytes = 1048576,
     el_max_stripes = 0\<rparr>"

definition elephant_disabled :: elephant_config where
  "elephant_disabled = elephant_default\<lparr>el_enabled := False\<rparr>"

definition elephant_normalized :: "elephant_config \<Rightarrow> elephant_config" where
  "elephant_normalized c = \<lparr>el_enabled = el_enabled c, el_min_packets = max (el_min_packets c) 1,
     el_min_bytes = max (el_min_bytes c) 1, el_max_stripes = el_max_stripes c\<rparr>"

record coordinator_config =
  gc_shard_count :: nat
  gc_mode :: run_mode
  gc_routing_policy :: routing_policy
  gc_max_flow_owners :: nat
  gc_elephant_flows :: elephant_config

definition coordinator_config_new :: "nat \<Rightarrow> run_mode \<Rightarrow> coordinator_config" where
  "coordinator_config_new shard_count mode = \<lparr>gc_shard_count = shard_count, gc_mode = mode,
     gc_routing_policy = routing_policy_default, gc_max_flow_owners = 1048576,
     gc_elephant_flows = elephant_default\<rparr>"

definition with_max_flow_owners :: "coordinator_config \<Rightarrow> nat \<Rightarrow> coordinator_config" where
  "with_max_flow_owners c n = c\<lparr>gc_max_flow_owners := max n 1\<rparr>"

definition with_elephant_flows :: "coordinator_config \<Rightarrow> elephant_config \<Rightarrow> coordinator_config" where
  "with_elephant_flows c e = c\<lparr>gc_elephant_flows := elephant_normalized e\<rparr>"

subsection \<open>Flow owners\<close>

record owner_state =
  os_owner_shard :: nat
  os_packets :: nat
  os_bytes :: nat
  os_striped :: bool

record owner_snapshot =
  sn_owner_shard :: nat
  sn_packets :: nat
  sn_bytes :: nat
  sn_striped :: bool

record owner_table =
  ot_owners :: "(flow_key \<times> owner_state) list"
  ot_order :: "flow_key list"
  ot_max_owners :: nat
  ot_evictions :: nat

definition owner_table_new :: "nat \<Rightarrow> owner_table" where
  "owner_table_new max_owners = \<lparr>ot_owners = [], ot_order = [], ot_max_owners = max max_owners 1,
     ot_evictions = 0\<rparr>"

definition ot_owner :: "owner_table \<Rightarrow> flow_key \<Rightarrow> owner_snapshot option" where
  "ot_owner t key = map_option (\<lambda>state. \<lparr>sn_owner_shard = os_owner_shard state,
     sn_packets = os_packets state, sn_bytes = os_bytes state, sn_striped = os_striped state\<rparr>)
     (map_of (ot_owners t) key)"

definition count_removed :: "'v option \<Rightarrow> nat \<Rightarrow> nat" where
  "count_removed v e = (case v of None \<Rightarrow> e | Some _ \<Rightarrow> sat_add e 1)"

definition ot_remember :: "owner_table \<Rightarrow> flow_key \<Rightarrow> nat \<Rightarrow> owner_table" where
  "ot_remember t key shard = (case map_of (ot_owners t) key of
     Some owner \<Rightarrow>
       t\<lparr>ot_owners := AList.update key (owner\<lparr>os_owner_shard := shard\<rparr>) (ot_owners t)\<rparr>
   | None \<Rightarrow>
       (case fifo_evict count_removed (ot_max_owners t) (ot_owners t) (ot_order t) (ot_evictions t) of
         (owners, order, evictions) \<Rightarrow>
           if length owners \<ge> ot_max_owners t
           then t\<lparr>ot_owners := owners, ot_order := order, ot_evictions := evictions\<rparr>
           else t\<lparr>ot_owners := AList.update key \<lparr>os_owner_shard = shard, os_packets = 0,
                    os_bytes = 0, os_striped = False\<rparr> owners,
                  ot_order := order @ [key], ot_evictions := evictions\<rparr>))"

definition ot_observe :: "owner_table \<Rightarrow> flow_key \<Rightarrow> nat \<Rightarrow> owner_table" where
  "ot_observe t key n = (case map_of (ot_owners t) key of None \<Rightarrow> t
     | Some owner \<Rightarrow> t\<lparr>ot_owners := AList.update key
         (owner\<lparr>os_packets := sat_add (os_packets owner) 1, os_bytes := sat_add (os_bytes owner) n\<rparr>)
         (ot_owners t)\<rparr>)"

definition ot_mark_striped :: "owner_table \<Rightarrow> flow_key \<Rightarrow> owner_table" where
  "ot_mark_striped t key = (case map_of (ot_owners t) key of None \<Rightarrow> t
     | Some owner \<Rightarrow> t\<lparr>ot_owners := AList.update key (owner\<lparr>os_striped := True\<rparr>) (ot_owners t)\<rparr>)"

subsection \<open>Routes and loads\<close>

datatype route_kind = FlowAffinity | StripedFlow | Fallback | SingleShard | DumpRoute

record shard_route =
  sr_shard :: nat
  sr_owner_shard :: nat
  sr_kind :: route_kind
  sr_flow_route :: "flow_route option"
  sr_fallback_reason :: "fallback_reason option"

definition is_fallback :: "shard_route \<Rightarrow> bool" where
  "is_fallback r \<longleftrightarrow> sr_kind r = Fallback"

record shard_load =
  sl_id :: nat
  sl_packets :: nat
  sl_bytes :: nat
  sl_flow_routed :: nat
  sl_striped :: nat
  sl_fallback :: nat
  sl_unsupported_link :: nat
  sl_non_ip :: nat
  sl_malformed :: nat
  sl_fragmented :: nat
  sl_unsupported_transport :: nat
  sl_dump :: nat
  sl_single :: nat

definition shard_load_new :: "nat \<Rightarrow> shard_load" where
  "shard_load_new i = \<lparr>sl_id = i, sl_packets = 0, sl_bytes = 0, sl_flow_routed = 0, sl_striped = 0,
     sl_fallback = 0, sl_unsupported_link = 0, sl_non_ip = 0, sl_malformed = 0, sl_fragmented = 0,
     sl_unsupported_transport = 0, sl_dump = 0, sl_single = 0\<rparr>"

definition reason_or_malformed :: "fallback_reason option \<Rightarrow> fallback_reason" where
  "reason_or_malformed reason = (case reason of None \<Rightarrow> FbMalformed | Some r \<Rightarrow> r)"

definition load_observe_reason :: "shard_load \<Rightarrow> fallback_reason option \<Rightarrow> shard_load" where
  "load_observe_reason l reason = (case reason_or_malformed reason of
     FbUnsupportedLink \<Rightarrow> l\<lparr>sl_unsupported_link := sat_add (sl_unsupported_link l) 1\<rparr>
   | FbNonIp \<Rightarrow> l\<lparr>sl_non_ip := sat_add (sl_non_ip l) 1\<rparr>
   | FbMalformed \<Rightarrow> l\<lparr>sl_malformed := sat_add (sl_malformed l) 1\<rparr>
   | FbFragmented \<Rightarrow> l\<lparr>sl_fragmented := sat_add (sl_fragmented l) 1\<rparr>
   | FbUnsupportedTransport \<Rightarrow> l\<lparr>sl_unsupported_transport := sat_add (sl_unsupported_transport l) 1\<rparr>)"

definition load_observe :: "shard_load \<Rightarrow> route_kind \<Rightarrow> fallback_reason option \<Rightarrow> nat \<Rightarrow> shard_load" where
  "load_observe l0 kind reason n =
     (let l = l0\<lparr>sl_packets := sat_add (sl_packets l0) 1, sl_bytes := sat_add (sl_bytes l0) n\<rparr> in
      case kind of
        FlowAffinity \<Rightarrow> l\<lparr>sl_flow_routed := sat_add (sl_flow_routed l) 1\<rparr>
      | StripedFlow \<Rightarrow> l\<lparr>sl_flow_routed := sat_add (sl_flow_routed l) 1,
                        sl_striped := sat_add (sl_striped l) 1\<rparr>
      | Fallback \<Rightarrow> load_observe_reason (l\<lparr>sl_fallback := sat_add (sl_fallback l) 1\<rparr>) reason
      | SingleShard \<Rightarrow> l\<lparr>sl_single := sat_add (sl_single l) 1\<rparr>
      | DumpRoute \<Rightarrow> l\<lparr>sl_dump := sat_add (sl_dump l) 1\<rparr>)"

record flow_shard_load =
  fs_shard :: nat
  fs_packets :: nat
  fs_bytes :: nat

record flow_route_load =
  rl_total_packets :: nat
  rl_total_bytes :: nat
  rl_striped :: bool
  rl_shards :: "flow_shard_load list"

definition flow_load_new :: flow_route_load where
  "flow_load_new = \<lparr>rl_total_packets = 0, rl_total_bytes = 0, rl_striped = False, rl_shards = []\<rparr>"

text \<open>The search for the shard's entry, with its update in place, or the entry pushed at the end.\<close>

fun observe_shard_entry :: "flow_shard_load list \<Rightarrow> nat \<Rightarrow> nat \<Rightarrow> flow_shard_load list" where
  "observe_shard_entry [] shard n = [\<lparr>fs_shard = shard, fs_packets = 1, fs_bytes = n\<rparr>]"
| "observe_shard_entry (l # ls) shard n =
     (if fs_shard l = shard
      then l\<lparr>fs_packets := sat_add (fs_packets l) 1, fs_bytes := sat_add (fs_bytes l) n\<rparr> # ls
      else l # observe_shard_entry ls shard n)"

definition flow_load_observe :: "flow_route_load \<Rightarrow> nat \<Rightarrow> nat \<Rightarrow> bool \<Rightarrow> flow_route_load" where
  "flow_load_observe l shard n striped = \<lparr>rl_total_packets = sat_add (rl_total_packets l) 1,
     rl_total_bytes = sat_add (rl_total_bytes l) n, rl_striped = (rl_striped l \<or> striped),
     rl_shards = observe_shard_entry (rl_shards l) shard n\<rparr>"

definition flow_load_shard :: "flow_route_load \<Rightarrow> nat \<Rightarrow> flow_shard_load option" where
  "flow_load_shard l shard = find (\<lambda>load. fs_shard load = shard) (rl_shards l)"

definition flow_load_shard_count :: "flow_route_load \<Rightarrow> nat" where
  "flow_load_shard_count l = length (rl_shards l)"

record shard_metrics =
  sm_shards :: "shard_load list"
  sm_flow_loads :: "(flow_key \<times> flow_route_load) list"
  sm_flow_order :: "flow_key list"
  sm_max_tracked_flows :: nat
  sm_total_packets :: nat
  sm_total_bytes :: nat
  sm_flow_routed :: nat
  sm_striped :: nat
  sm_fallback :: nat
  sm_unsupported_link :: nat
  sm_non_ip :: nat
  sm_malformed :: nat
  sm_fragmented :: nat
  sm_unsupported_transport :: nat
  sm_dump :: nat
  sm_single :: nat

definition shard_metrics_new :: "nat \<Rightarrow> shard_metrics" where
  "shard_metrics_new shard_count = \<lparr>sm_shards = map shard_load_new [0..<max shard_count 1],
     sm_flow_loads = [], sm_flow_order = [], sm_max_tracked_flows = 1048576,
     sm_total_packets = 0, sm_total_bytes = 0, sm_flow_routed = 0, sm_striped = 0,
     sm_fallback = 0, sm_unsupported_link = 0, sm_non_ip = 0, sm_malformed = 0, sm_fragmented = 0,
     sm_unsupported_transport = 0, sm_dump = 0, sm_single = 0\<rparr>"

definition metrics_observe_flow ::
  "shard_metrics \<Rightarrow> flow_key \<Rightarrow> nat \<Rightarrow> nat \<Rightarrow> bool \<Rightarrow> shard_metrics" where
  "metrics_observe_flow m key shard n striped =
     (let upd = (\<lambda>load loads order. m\<lparr>sm_flow_loads :=
            AList.update key (flow_load_observe load shard n striped) loads, sm_flow_order := order\<rparr>)
      in case map_of (sm_flow_loads m) key of
        Some load \<Rightarrow> upd load (sm_flow_loads m) (sm_flow_order m)
      | None \<Rightarrow>
          (case fifo_evict (\<lambda>_ e. e) (sm_max_tracked_flows m) (sm_flow_loads m) (sm_flow_order m) 0 of
            (loads, order, _) \<Rightarrow>
              if length loads \<ge> sm_max_tracked_flows m
              then m\<lparr>sm_flow_loads := loads, sm_flow_order := order\<rparr>
              else upd flow_load_new loads (order @ [key])))"

definition metrics_observe_reason :: "shard_metrics \<Rightarrow> fallback_reason option \<Rightarrow> shard_metrics" where
  "metrics_observe_reason m reason = (case reason_or_malformed reason of
     FbUnsupportedLink \<Rightarrow> m\<lparr>sm_unsupported_link := sat_add (sm_unsupported_link m) 1\<rparr>
   | FbNonIp \<Rightarrow> m\<lparr>sm_non_ip := sat_add (sm_non_ip m) 1\<rparr>
   | FbMalformed \<Rightarrow> m\<lparr>sm_malformed := sat_add (sm_malformed m) 1\<rparr>
   | FbFragmented \<Rightarrow> m\<lparr>sm_fragmented := sat_add (sm_fragmented m) 1\<rparr>
   | FbUnsupportedTransport \<Rightarrow> m\<lparr>sm_unsupported_transport := sat_add (sm_unsupported_transport m) 1\<rparr>)"

definition metrics_count :: "shard_metrics \<Rightarrow> shard_route \<Rightarrow> nat \<Rightarrow> shard_metrics" where
  "metrics_count m0 route n =
     (let m = m0\<lparr>sm_total_packets := sat_add (sm_total_packets m0) 1,
                 sm_total_bytes := sat_add (sm_total_bytes m0) n\<rparr> in
      case sr_kind route of
        FlowAffinity \<Rightarrow> m\<lparr>sm_flow_routed := sat_add (sm_flow_routed m) 1\<rparr>
      | StripedFlow \<Rightarrow> m\<lparr>sm_flow_routed := sat_add (sm_flow_routed m) 1,
                        sm_striped := sat_add (sm_striped m) 1\<rparr>
      | Fallback \<Rightarrow> metrics_observe_reason (m\<lparr>sm_fallback := sat_add (sm_fallback m) 1\<rparr>)
                     (sr_fallback_reason route)
      | SingleShard \<Rightarrow> m\<lparr>sm_single := sat_add (sm_single m) 1\<rparr>
      | DumpRoute \<Rightarrow> m\<lparr>sm_dump := sat_add (sm_dump m) 1\<rparr>)"

definition metrics_observe_shard :: "shard_metrics \<Rightarrow> shard_route \<Rightarrow> nat \<Rightarrow> shard_metrics" where
  "metrics_observe_shard m route n =
     (if sr_shard route < length (sm_shards m)
      then m\<lparr>sm_shards := (sm_shards m)[sr_shard route :=
        load_observe (sm_shards m ! sr_shard route) (sr_kind route) (sr_fallback_reason route) n]\<rparr>
      else m)"

definition metrics_observe_route :: "shard_metrics \<Rightarrow> shard_route \<Rightarrow> nat \<Rightarrow> shard_metrics" where
  "metrics_observe_route m route n =
     (let m1 = metrics_observe_shard (metrics_count m route n) route n
      in if sr_kind route = FlowAffinity \<or> sr_kind route = StripedFlow
         then (case sr_flow_route route of
             None \<Rightarrow> m1
           | Some flow_route \<Rightarrow> metrics_observe_flow m1 (fr_key flow_route) (sr_shard route) n
               (sr_kind route = StripedFlow))
         else m1)"

definition metrics_shard :: "shard_metrics \<Rightarrow> nat \<Rightarrow> shard_load option" where
  "metrics_shard m shard = get_at (sm_shards m) shard"

subsection \<open>The coordinator\<close>

record shard_coordinator =
  co_topology :: shard_topology
  co_mode :: run_mode
  co_routing_policy :: routing_policy
  co_elephant_flows :: elephant_config
  co_next_sequence :: nat
  co_flow_owners :: owner_table
  co_metrics :: shard_metrics

definition coordinator_new :: "coordinator_config \<Rightarrow> shard_coordinator" where
  "coordinator_new config = \<lparr>co_topology = topology_new (gc_shard_count config),
     co_mode = gc_mode config, co_routing_policy = gc_routing_policy config,
     co_elephant_flows = elephant_normalized (gc_elephant_flows config), co_next_sequence = 0,
     co_flow_owners = owner_table_new (gc_max_flow_owners config),
     co_metrics = shard_metrics_new (st_shard_count (topology_new (gc_shard_count config)))\<rparr>"

text \<open>\<^verbatim>\<open>ShardPlacementLoad\<close>, with its derived order: bytes first, then packets.\<close>

definition placement_load :: "shard_coordinator \<Rightarrow> nat \<Rightarrow> nat \<times> nat" where
  "placement_load c shard = (case metrics_shard (co_metrics c) shard of
     None \<Rightarrow> (0, 0) | Some load \<Rightarrow> (sl_bytes load, sl_packets load))"

definition choose_shard_for_new_flow :: "(hash_input \<Rightarrow> u64w) \<Rightarrow> shard_coordinator \<Rightarrow> flow_key \<Rightarrow> nat" where
  "choose_shard_for_new_flow h c key =
     (let primary = shard_for_hash (co_topology c) (h (HashKey key));
          secondary = shard_for_hash (co_topology c) (h (HashSalted secondary_route_hash_salt key))
      in if primary = secondary then primary
         else if placement_load c secondary < placement_load c primary then secondary else primary)"

lemma sat_step_decreases: "salt < sat_mul a b \<Longrightarrow> sat_mul a b - sat_add salt n < sat_mul a b - salt"
  if "n > 0"
  using that by (auto simp: sat_add_def sat_mul_def)

function candidate_loop ::
  "(hash_input \<Rightarrow> u64w) \<Rightarrow> shard_topology \<Rightarrow> flow_key \<Rightarrow> nat \<Rightarrow> nat list \<Rightarrow> nat \<Rightarrow> nat list" where
  "candidate_loop h t key target candidates salt =
     (if length candidates < target \<and> salt < sat_mul (st_shard_count t) 4
      then let shard = shard_for_hash t (h (HashCandidate striped_route_hash_salt key salt))
        in candidate_loop h t key target
             (if shard \<in> set candidates then candidates else candidates @ [shard]) (sat_add salt 1)
      else candidates)"
  by pat_completeness auto
termination
  by (relation "measure (\<lambda>(_, t, _, _, _, salt). sat_mul (st_shard_count t) 4 - salt)")
    (auto intro: sat_step_decreases)

declare candidate_loop.simps [simp del]

definition elephant_stripe_candidates ::
  "(hash_input \<Rightarrow> u64w) \<Rightarrow> shard_coordinator \<Rightarrow> flow_key \<Rightarrow> nat \<Rightarrow> nat list" where
  "elephant_stripe_candidates h c key owner_shard =
     (let shard_count = st_shard_count (co_topology c);
          max_stripes = el_max_stripes (co_elephant_flows c)
      in if max_stripes = 0 \<or> max_stripes \<ge> shard_count then [0..<shard_count]
         else candidate_loop h (co_topology c) key (max max_stripes 1) [owner_shard] 0)"

definition better_stripe ::
  "(hash_input \<Rightarrow> u64w) \<Rightarrow> shard_coordinator \<Rightarrow> flow_key \<Rightarrow> nat \<Rightarrow> nat \<times> (nat \<times> nat) \<times> u64w \<Rightarrow> nat \<Rightarrow>
   nat \<times> (nat \<times> nat) \<times> u64w" where
  "better_stripe h c key sequence sel shard = (case sel of (selected, selected_load, selected_tie) \<Rightarrow>
     let load = placement_load c shard;
         tie = h (HashStripe striped_route_hash_salt key sequence shard)
     in if load < selected_load \<or> (load = selected_load \<and> tie < selected_tie) then (shard, load, tie)
        else sel)"

definition choose_shard_for_striped_flow ::
  "(hash_input \<Rightarrow> u64w) \<Rightarrow> shard_coordinator \<Rightarrow> flow_key \<Rightarrow> nat \<Rightarrow> nat \<Rightarrow> nat" where
  "choose_shard_for_striped_flow h c key sequence owner_shard =
     (let candidates = elephant_stripe_candidates h c key owner_shard
      in if length candidates \<le> 1 then owner_shard
         else fst (foldl (better_stripe h c key sequence)
           (owner_shard, placement_load c owner_shard,
            h (HashStripe striped_route_hash_salt key sequence owner_shard)) candidates))"

definition should_stripe_flow :: "shard_coordinator \<Rightarrow> flow_route \<Rightarrow> owner_snapshot \<Rightarrow> bool" where
  "should_stripe_flow c flow_route owner \<longleftrightarrow>
     el_enabled (co_elephant_flows c) \<and> \<not> sn_striped owner \<and> st_shard_count (co_topology c) > 1
     \<and> fk_protocol (fr_key flow_route) = Udp
     \<and> (sn_packets owner \<ge> el_min_packets (co_elephant_flows c)
        \<or> sn_bytes owner \<ge> el_min_bytes (co_elephant_flows c))"

text \<open>The first statement of \<^verbatim>\<open>route_flow\<close>: a flow without an owner gets one.\<close>

definition ensure_owner :: "(hash_input \<Rightarrow> u64w) \<Rightarrow> shard_coordinator \<Rightarrow> flow_key \<Rightarrow> shard_coordinator" where
  "ensure_owner h c key =
     (if ot_owner (co_flow_owners c) key = None
      then c\<lparr>co_flow_owners := ot_remember (co_flow_owners c) key (choose_shard_for_new_flow h c key)\<rparr>
      else c)"

definition route_flow ::
  "(hash_input \<Rightarrow> u64w) \<Rightarrow> shard_coordinator \<Rightarrow> nat \<Rightarrow> flow_route \<Rightarrow> nat \<Rightarrow>
   (shard_coordinator \<times> shard_route) option" where
  "route_flow h c0 sequence flow_route n =
     (let key = fr_key flow_route; c = ensure_owner h c0 key in
      case ot_owner (co_flow_owners c) key of
        None \<Rightarrow> None
      | Some owner0 \<Rightarrow>
          (let (c1, owner) = (if should_stripe_flow c flow_route owner0
                 then (c\<lparr>co_flow_owners := ot_mark_striped (co_flow_owners c) key\<rparr>,
                       owner0\<lparr>sn_striped := True\<rparr>)
                 else (c, owner0));
               shard = (if sn_striped owner
                 then choose_shard_for_striped_flow h c1 key sequence (sn_owner_shard owner)
                 else sn_owner_shard owner);
               c2 = c1\<lparr>co_flow_owners := ot_observe (co_flow_owners c1) key n\<rparr>
           in Some (c2, \<lparr>sr_shard = shard, sr_owner_shard = sn_owner_shard owner,
                sr_kind = (if sn_striped owner then StripedFlow else FlowAffinity),
                sr_flow_route = Some flow_route, sr_fallback_reason = None\<rparr>)))"

definition plain_route :: "nat \<Rightarrow> route_kind \<Rightarrow> fallback_reason option \<Rightarrow> shard_route" where
  "plain_route shard kind reason = \<lparr>sr_shard = shard, sr_owner_shard = 0, sr_kind = kind,
     sr_flow_route = None, sr_fallback_reason = reason\<rparr>"

definition route_packet_inner ::
  "(hash_input \<Rightarrow> u64w) \<Rightarrow> shard_coordinator \<Rightarrow> nat \<Rightarrow> raw_packet \<Rightarrow>
   (shard_coordinator \<times> shard_route) option" where
  "route_packet_inner h c sequence raw =
     (if co_mode c = Dump then Some (c, plain_route 0 DumpRoute None)
      else if is_single_shard (co_topology c) then Some (c, plain_route 0 SingleShard None)
      else case flow_route_from_raw_result raw of
          Inr flow_route \<Rightarrow> route_flow h c sequence flow_route (length (rp_data raw))
        | Inl reason \<Rightarrow> Some (c, plain_route
            (fallback_route (policy_fallback (co_routing_policy c)) sequence (co_topology c))
            Fallback (Some reason)))"

definition route_packet ::
  "(hash_input \<Rightarrow> u64w) \<Rightarrow> shard_coordinator \<Rightarrow> raw_packet \<Rightarrow> (shard_coordinator \<times> shard_route) option"
where
  "route_packet h c raw =
     (case route_packet_inner h (c\<lparr>co_next_sequence := sat_add (co_next_sequence c) 1\<rparr>)
             (co_next_sequence c) raw of
        None \<Rightarrow> None
      | Some (c1, route) \<Rightarrow> Some (c1\<lparr>co_metrics :=
            metrics_observe_route (co_metrics c1) route (length (rp_data raw))\<rparr>, route))"

definition shard_for_flow_key :: "(hash_input \<Rightarrow> u64w) \<Rightarrow> flow_key \<Rightarrow> nat \<Rightarrow> nat" where
  "shard_for_flow_key h key shard_count = shard_for_hash (topology_new shard_count) (h (HashKey key))"

subsection \<open>Snapshots\<close>

text \<open>The ratios are computed in 128 bits.\<close>

definition u128_max :: nat where
  "u128_max = 2 ^ 128 - 1"

definition skew_ratio_milli :: "nat \<Rightarrow> nat \<Rightarrow> nat \<Rightarrow> nat" where
  "skew_ratio_milli mx whole shard_count =
     (if whole = 0 \<or> shard_count = 0 then 0
      else min (min (min (mx * shard_count) u128_max * 1000) u128_max div whole) u64_max)"

definition ratio_milli :: "nat \<Rightarrow> nat \<Rightarrow> nat" where
  "ratio_milli part whole =
     (if whole = 0 then 0 else min (min (part * 1000) u128_max div whole) u64_max)"

record shard_load_snapshot =
  ss_shard_count :: nat
  ss_total_packets :: nat
  ss_total_bytes :: nat
  ss_flow_routed :: nat
  ss_striped :: nat
  ss_fallback :: nat
  ss_unsupported_link :: nat
  ss_non_ip :: nat
  ss_malformed :: nat
  ss_fragmented :: nat
  ss_unsupported_transport :: nat
  ss_dump :: nat
  ss_single :: nat
  ss_busiest_shard :: "nat option"
  ss_busiest_shard_packets :: nat
  ss_packet_skew_ratio_milli :: nat
  ss_busiest_byte_shard :: "nat option"
  ss_busiest_shard_bytes :: nat
  ss_byte_skew_ratio_milli :: nat
  ss_shards :: "shard_load list"

definition metrics_snapshot :: "shard_metrics \<Rightarrow> shard_load_snapshot" where
  "metrics_snapshot m =
     (let busiest_packets = max_by_key sl_packets (sm_shards m);
          busiest_bytes = max_by_key sl_bytes (sm_shards m);
          packets = (case busiest_packets of None \<Rightarrow> 0 | Some l \<Rightarrow> sl_packets l);
          total_bytes = (case busiest_bytes of None \<Rightarrow> 0 | Some l \<Rightarrow> sl_bytes l)
      in \<lparr>ss_shard_count = length (sm_shards m), ss_total_packets = sm_total_packets m,
          ss_total_bytes = sm_total_bytes m, ss_flow_routed = sm_flow_routed m,
          ss_striped = sm_striped m, ss_fallback = sm_fallback m,
          ss_unsupported_link = sm_unsupported_link m, ss_non_ip = sm_non_ip m,
          ss_malformed = sm_malformed m, ss_fragmented = sm_fragmented m,
          ss_unsupported_transport = sm_unsupported_transport m, ss_dump = sm_dump m,
          ss_single = sm_single m,
          ss_busiest_shard = (case busiest_packets of None \<Rightarrow> None
            | Some l \<Rightarrow> if sl_packets l \<noteq> 0 then Some (sl_id l) else None),
          ss_busiest_shard_packets = packets,
          ss_packet_skew_ratio_milli = skew_ratio_milli packets (sm_total_packets m) (length (sm_shards m)),
          ss_busiest_byte_shard = (case busiest_bytes of None \<Rightarrow> None
            | Some l \<Rightarrow> if sl_bytes l \<noteq> 0 then Some (sl_id l) else None),
          ss_busiest_shard_bytes = total_bytes,
          ss_byte_skew_ratio_milli = skew_ratio_milli total_bytes (sm_total_bytes m) (length (sm_shards m)),
          ss_shards = sm_shards m\<rparr>)"

definition endpoint_label :: "endpoint \<Rightarrow> string" where
  "endpoint_label e = (case ep_addr e of
     V4 addr \<Rightarrow> show_ipv4 addr @ '':'' @ show_nat (unat (ep_port e))
   | V6 addr \<Rightarrow> ''['' @ show_ipv6 addr @ '']:'' @ show_nat (unat (ep_port e)))"

fun transport_name :: "transport_protocol \<Rightarrow> string" where
  "transport_name Tcp = ''tcp''"
| "transport_name Udp = ''udp''"
| "transport_name Icmpv4 = ''icmpv4''"
| "transport_name Icmpv6 = ''icmpv6''"

record hot_flow_snapshot =
  hf_stream_id :: u64w
  hf_stream_id_hex :: string
  hf_protocol :: string
  hf_endpoint_a :: string
  hf_endpoint_b :: string
  hf_packets :: nat
  hf_bytes :: nat
  hf_total_packets :: nat
  hf_total_bytes :: nat
  hf_striped :: bool
  hf_stripe_shards :: nat
  hf_packet_share_milli :: nat
  hf_byte_share_milli :: nat

record worker_queue_snapshot =
  wq_id :: nat
  wq_len :: nat
  wq_capacity :: nat
  wq_routed_packets :: nat
  wq_routed_bytes :: nat
  wq_flow_routed :: nat
  wq_striped :: nat
  wq_fallback :: nat
  wq_unsupported_link :: nat
  wq_non_ip :: nat
  wq_malformed :: nat
  wq_fragmented :: nat
  wq_unsupported_transport :: nat
  wq_hot_flow :: "hot_flow_snapshot option"

record sharded_queue_snapshot =
  sq_workers :: "worker_queue_snapshot list"
  sq_output_queue_len :: nat
  sq_output_queue_capacity :: nat

record shard_queue_load =
  ql_shard :: nat
  ql_len :: nat
  ql_capacity :: nat

definition metrics_hot_flow :: "shard_metrics \<Rightarrow> nat \<Rightarrow> nat \<Rightarrow> nat \<Rightarrow> hot_flow_snapshot option" where
  "metrics_hot_flow m shard shard_packets shard_bytes =
     map_option (\<lambda>(key, load, part). \<lparr>hf_stream_id = stable_id key,
         hf_stream_id_hex = hex_fixed 16 (unat (stable_id key)),
         hf_protocol = transport_name (fk_protocol key), hf_endpoint_a = endpoint_label (fk_a key),
         hf_endpoint_b = endpoint_label (fk_b key), hf_packets = fs_packets part,
         hf_bytes = fs_bytes part, hf_total_packets = rl_total_packets load,
         hf_total_bytes = rl_total_bytes load, hf_striped = rl_striped load,
         hf_stripe_shards = flow_load_shard_count load,
         hf_packet_share_milli = ratio_milli (fs_packets part) shard_packets,
         hf_byte_share_milli = ratio_milli (fs_bytes part) shard_bytes\<rparr>)
       (max_by_key (\<lambda>(key, load, part). fs_bytes part)
         (List.map_filter (\<lambda>(key, load). map_option (\<lambda>part. (key, load, part)) (flow_load_shard load shard))
           (sm_flow_loads m)))"

definition worker_of_load :: "shard_metrics \<Rightarrow> shard_load \<Rightarrow> worker_queue_snapshot" where
  "worker_of_load m l = \<lparr>wq_id = sl_id l, wq_len = 0, wq_capacity = 0,
     wq_routed_packets = sl_packets l, wq_routed_bytes = sl_bytes l,
     wq_flow_routed = sl_flow_routed l, wq_striped = sl_striped l, wq_fallback = sl_fallback l,
     wq_unsupported_link = sl_unsupported_link l, wq_non_ip = sl_non_ip l,
     wq_malformed = sl_malformed l, wq_fragmented = sl_fragmented l,
     wq_unsupported_transport = sl_unsupported_transport l,
     wq_hot_flow = metrics_hot_flow m (sl_id l) (sl_packets l) (sl_bytes l)\<rparr>"

definition set_queue :: "worker_queue_snapshot list \<Rightarrow> shard_queue_load \<Rightarrow> worker_queue_snapshot list" where
  "set_queue workers q =
     (if ql_shard q < length workers
      then workers[ql_shard q := (workers ! ql_shard q)\<lparr>wq_len := ql_len q, wq_capacity := ql_capacity q\<rparr>]
      else workers)"

definition metrics_queue_snapshot ::
  "shard_metrics \<Rightarrow> shard_queue_load list \<Rightarrow> nat \<Rightarrow> nat \<Rightarrow> sharded_queue_snapshot" where
  "metrics_queue_snapshot m queues output_queue_len output_queue_capacity =
     \<lparr>sq_workers = foldl set_queue (map (worker_of_load m) (sm_shards m)) queues,
      sq_output_queue_len = output_queue_len, sq_output_queue_capacity = output_queue_capacity\<rparr>"

end
