(* ===== verification/Shard_Correctness.thy ===== *)
theory Shard_Correctness
  imports Shard Registry
begin

text \<open>
  The coordinator's invariant, flow affinity, and the conservation of its load metrics.  The
  owner table is a bounded registry (\<open>Registry\<close>), interpreted here.
\<close>

subsection \<open>The owner table\<close>

definition ot_ok :: "owner_table \<Rightarrow> bool" where
  "ot_ok t \<longleftrightarrow> fifo_ok (ot_owners t) (ot_order t) \<and> 0 < ot_max_owners t
     \<and> length (ot_owners t) \<le> ot_max_owners t \<and> ot_evictions t \<le> u64_max
     \<and> (\<forall>(k, s) \<in> set (ot_owners t). os_striped s \<longrightarrow> fk_protocol k = Udp)"

definition ot_keys :: "owner_table \<Rightarrow> flow_key set" where
  "ot_keys t = fst ` set (ot_owners t)"

lemma count_removed_le: "e \<le> u64_max \<Longrightarrow> e \<le> count_removed v e" "e \<le> u64_max \<Longrightarrow> count_removed v e \<le> u64_max"
  by (auto simp: count_removed_def sat_add_def split: option.splits)

lemma fifo_evict_counts:
  "e \<le> u64_max \<Longrightarrow> fifo_evict count_removed mx m q e = (m', q', e') \<Longrightarrow> e \<le> e' \<and> e' \<le> u64_max"
proof (induction "count_removed :: 'b option \<Rightarrow> nat \<Rightarrow> nat" mx m q e rule: fifo_evict.induct)
  case (2 mx m k q e)
  then show ?case
    using count_removed_le[of e "map_of m k"] by (auto split: if_splits)
qed simp

text \<open>While the eviction counter stays 0, nothing was evicted.\<close>

lemma fifo_evict_none:
  assumes "fifo_ok m q" "fifo_evict count_removed mx m q 0 = (m', q', 0)"
  shows "m' = m \<and> q' = q"
proof (cases q)
  case Nil
  then show ?thesis using assms(2) by simp
next
  case (Cons k ks)
  show ?thesis
  proof (cases "length m < mx")
    case True
    then show ?thesis using assms(2) Cons by simp
  next
    case False
    have "k \<in> fst ` set m" using assms(1) Cons by (auto simp: fifo_ok_def)
    then have one: "count_removed (map_of m k) 0 = 1"
      using tbl_in_keysD[of k m] by (auto simp: count_removed_def sat_add_def u64_max_def)
    have "fifo_evict count_removed mx (AList.delete k m) ks 1 = (m', q', 0)"
      using assms(2) False one unfolding Cons by simp
    then show ?thesis
      using fifo_evict_counts[of 1 mx "AList.delete k m" ks m' q' 0] by (simp add: u64_max_def)
  qed
qed

lemma ot_remember_ok:
  assumes "ot_ok t"
  shows "ot_ok (ot_remember t key shard) \<and> key \<in> ot_keys (ot_remember t key shard)
    \<and> ot_keys (ot_remember t key shard) \<subseteq> insert key (ot_keys t)
    \<and> ot_max_owners (ot_remember t key shard) = ot_max_owners t
    \<and> ot_evictions t \<le> ot_evictions (ot_remember t key shard)"
proof (cases "map_of (ot_owners t) key")
  case (Some s)
  have k: "key \<in> set (ot_order t)"
    using assms Some tbl_None_iff[of "ot_owners t" key] by (auto simp: ot_ok_def fifo_ok_def)
  have mem: "(key, s) \<in> set (ot_owners t)" using Some by (rule map_of_SomeD)
  have "\<forall>(k, s) \<in> set (AList.update key (s\<lparr>os_owner_shard := shard\<rparr>) (ot_owners t)).
      os_striped s \<longrightarrow> fk_protocol k = Udp"
    by (rule tbl_update_all) (use assms mem in \<open>auto simp: ot_ok_def\<close>)
  then show ?thesis
    using assms Some fifo_ok_update[OF _ k] length_update_present[of "ot_owners t" key]
    by (auto simp: ot_ok_def ot_remember_def ot_keys_def tbl_keys_update)
next
  case None
  obtain owners order ev where e:
    "fifo_evict count_removed (ot_max_owners t) (ot_owners t) (ot_order t) (ot_evictions t) = (owners, order, ev)"
    by (metis prod_cases3)
  have ok: "fifo_ok owners order" "length owners < ot_max_owners t"
    using fifo_evict_ok[OF _ e] fifo_evict_room[OF _ _ e] assms by (auto simp: ot_ok_def)
  have sub: "fst ` set owners \<subseteq> fst ` set (ot_owners t)" by (rule fifo_evict_subset[OF e])
  have fresh: "map_of owners key = None"
    using None sub by (auto simp: tbl_None_iff)
  have cnt: "ot_evictions t \<le> ev" "ev \<le> u64_max"
    using fifo_evict_counts[OF _ e] assms by (auto simp: ot_ok_def)
  have all: "\<forall>(k, s) \<in> set (AList.update key \<lparr>os_owner_shard = shard, os_packets = 0, os_bytes = 0,
      os_striped = False\<rparr> owners). os_striped s \<longrightarrow> fk_protocol k = Udp"
    by (rule tbl_update_all) (use assms fifo_evict_set[OF e] in \<open>auto simp: ot_ok_def\<close>)
  have t': "ot_remember t key shard = t\<lparr>ot_owners := AList.update key \<lparr>os_owner_shard = shard,
      os_packets = 0, os_bytes = 0, os_striped = False\<rparr> owners,
      ot_order := order @ [key], ot_evictions := ev\<rparr>"
    unfolding ot_remember_def using None e ok(2) by simp
  show ?thesis
    unfolding t' using assms sub cnt all fifo_ok_insert[OF ok(1) fresh] ok(2) length_update_fresh[OF fresh]
    by (auto simp: ot_ok_def ot_keys_def tbl_keys_update)
qed

lemma ot_bump_ok:
  assumes "ot_ok t" "map_of (ot_owners t) key = Some s" "os_striped s' \<longrightarrow> os_striped s \<or> fk_protocol key = Udp"
  shows "ot_ok (t\<lparr>ot_owners := AList.update key s' (ot_owners t)\<rparr>)"
proof -
  have k: "key \<in> set (ot_order t)"
    using assms tbl_None_iff[of "ot_owners t" key] by (auto simp: ot_ok_def fifo_ok_def)
  have mem: "(key, s) \<in> set (ot_owners t)" using assms(2) by (rule map_of_SomeD)
  have "\<forall>(k, s) \<in> set (AList.update key s' (ot_owners t)). os_striped s \<longrightarrow> fk_protocol k = Udp"
    by (rule tbl_update_all) (use assms mem in \<open>auto simp: ot_ok_def\<close>)
  then show ?thesis
    using assms fifo_ok_update[OF _ k] length_update_present[of "ot_owners t" key]
    by (auto simp: ot_ok_def)
qed

lemma ot_observe_ok: "ot_ok t \<Longrightarrow> ot_ok (ot_observe t key n)"
  by (auto simp: ot_observe_def split: option.splits intro!: ot_bump_ok)

lemma ot_mark_striped_ok: "ot_ok t \<Longrightarrow> fk_protocol key = Udp \<Longrightarrow> ot_ok (ot_mark_striped t key)"
  by (auto simp: ot_mark_striped_def split: option.splits intro!: ot_bump_ok)

fun owner_step :: "flow_key \<times> nat \<Rightarrow> owner_table \<Rightarrow> owner_table" where
  "owner_step (key, shard) t = ot_remember t key shard"

lemma ot_keys_card: "ot_ok t \<Longrightarrow> finite (ot_keys t) \<and> card (ot_keys t) \<le> ot_max_owners t"
  unfolding ot_keys_def ot_ok_def fifo_ok_def
  by (metis card_length finite_imageI finite_set length_map list.set_map order_trans)

lemma ot_remember_keys: "ot_ok t \<Longrightarrow> ot_keys (ot_remember t key shard) \<subseteq> insert key (ot_keys t)"
  using ot_remember_ok by blast

interpretation owners: bounded_registry owner_step ot_keys "\<lambda>(key, _). Some key" ot_ok ot_max_owners
  by unfold_locales (auto simp: ot_remember_ok ot_keys_card dest: subsetD[OF ot_remember_keys])

lemma owner_table_new_ok: "ot_ok (owner_table_new n)"
  by (simp add: ot_ok_def owner_table_new_def u64_max_def)

text \<open>
  However many flows are remembered, the owner table keeps at most \<open>max_owners\<close> of them (at least
  one), and the flow remembered last is among them.
\<close>

theorem owner_table_bounded:
  "card (ot_keys (fold owner_step (xs @ [(key, shard)]) (owner_table_new n))) \<le> max n 1
   \<and> key \<in> ot_keys (fold owner_step (xs @ [(key, shard)]) (owner_table_new n))"
proof
  have "ot_max_owners (owner_table_new n) = max n 1" by (simp add: owner_table_new_def)
  then show "card (ot_keys (fold owner_step (xs @ [(key, shard)]) (owner_table_new n))) \<le> max n 1"
    using owners.run_bounded[OF owner_table_new_ok] by metis
  show "key \<in> ot_keys (fold owner_step (xs @ [(key, shard)]) (owner_table_new n))"
    by (rule owners.run_last[OF owner_table_new_ok]) simp
qed

text \<open>While nothing is evicted, remembering a flow keeps the owners of the others.\<close>

lemma ot_remember_keeps:
  assumes "ot_ok t" "ot_evictions (ot_remember t key shard) = 0" "k \<noteq> key"
  shows "map_of (ot_owners (ot_remember t key shard)) k = map_of (ot_owners t) k"
proof (cases "map_of (ot_owners t) key")
  case (Some s)
  then show ?thesis using assms(3) by (simp add: ot_remember_def update_conv)
next
  case None
  obtain owners order ev where e:
    "fifo_evict count_removed (ot_max_owners t) (ot_owners t) (ot_order t) (ot_evictions t) = (owners, order, ev)"
    by (metis prod_cases3)
  have ev: "ev = 0" using assms(2) None e by (auto simp: ot_remember_def split: if_splits)
  have "ot_evictions t = 0"
    using fifo_evict_counts[OF _ e] assms(1) ev by (auto simp: ot_ok_def)
  then have "owners = ot_owners t"
    using fifo_evict_none[of "ot_owners t" "ot_order t" "ot_max_owners t" owners order] assms(1) e ev
    by (simp add: ot_ok_def)
  then show ?thesis
    using None e assms(3) by (simp add: ot_remember_def update_conv)
qed

subsection \<open>Choices\<close>

definition topology_ok :: "shard_topology \<Rightarrow> bool" where
  "topology_ok t \<longleftrightarrow> (\<exists>n. t = topology_new n)"

lemma topology_ok_shard [simp]:
  "topology_ok t \<Longrightarrow> shard_for_hash t x < st_shard_count t"
  "topology_ok t \<Longrightarrow> shard_for_sequence t s < st_shard_count t"
  using topology_shard_is_remainder by (auto simp: topology_ok_def)

lemma topology_ok_pos: "topology_ok t \<Longrightarrow> 0 < st_shard_count t"
  by (auto simp: topology_ok_def topology_new_def Let_def)

lemma choose_new_bounded:
  "topology_ok (co_topology c) \<Longrightarrow> choose_shard_for_new_flow h c key < st_shard_count (co_topology c)"
  by (simp add: choose_shard_for_new_flow_def Let_def)

lemma candidate_loop_bounded:
  "topology_ok t \<Longrightarrow> \<forall>s \<in> set cs. s < st_shard_count t \<Longrightarrow>
    \<forall>s \<in> set (candidate_loop h t key target cs salt). s < st_shard_count t"
proof (induction h t key target cs salt rule: candidate_loop.induct)
  case (1 h t key target cs salt)
  show ?case
  proof (cases "length cs < target \<and> salt < sat_mul (st_shard_count t) 4")
    case True
    let ?s = "shard_for_hash t (h (HashCandidate striped_route_hash_salt key salt))"
    have "\<forall>s \<in> set (if ?s \<in> set cs then cs else cs @ [?s]). s < st_shard_count t"
      using "1.prems" by auto
    with "1.IH"[OF True refl "1.prems"(1)] True show ?thesis
      by (simp only: candidate_loop.simps[of h t key target cs salt] Let_def if_True simp_thms)
  next
    case False
    then show ?thesis using "1.prems" by (auto simp: candidate_loop.simps[of h t key target cs salt])
  qed
qed

lemma candidates_bounded:
  "topology_ok (co_topology c) \<Longrightarrow> owner < st_shard_count (co_topology c) \<Longrightarrow>
    \<forall>s \<in> set (elephant_stripe_candidates h c key owner). s < st_shard_count (co_topology c)"
  by (auto simp: elephant_stripe_candidates_def Let_def dest!: candidate_loop_bounded[THEN bspec, rotated 2])

lemma foldl_better_stripe:
  assumes "fst (snd sel) = placement_load c (fst sel)"
  shows "fst (snd (foldl (better_stripe h c key sequence) sel xs))
      = placement_load c (fst (foldl (better_stripe h c key sequence) sel xs))
    \<and> fst (foldl (better_stripe h c key sequence) sel xs) \<in> insert (fst sel) (set xs)
    \<and> (\<forall>s \<in> insert (fst sel) (set xs).
        placement_load c (fst (foldl (better_stripe h c key sequence) sel xs)) \<le> placement_load c s)"
  using assms
proof (induction xs arbitrary: sel)
  case (Cons x xs)
  let ?sel = "better_stripe h c key sequence sel x"
  obtain a l tie where sel: "sel = (a, l, tie)" by (metis prod_cases3)
  have step: "fst (snd ?sel) = placement_load c (fst ?sel)" "fst ?sel \<in> {fst sel, x}"
    "placement_load c (fst ?sel) \<le> placement_load c (fst sel)" "placement_load c (fst ?sel) \<le> placement_load c x"
    using Cons.prems by (auto simp: sel better_stripe_def Let_def)
  have rest: "placement_load c (fst (foldl (better_stripe h c key sequence) ?sel xs)) \<le> placement_load c (fst ?sel)"
    using Cons.IH[OF step(1)] by blast
  show ?case
    using Cons.IH[OF step(1)] step(2) order_trans[OF rest step(3)] order_trans[OF rest step(4)] by auto
qed simp

text \<open>A striped packet goes to a least loaded one of the flow's candidate shards.\<close>

lemma striped_shard_least_loaded:
  "choose_shard_for_striped_flow h c key sequence owner
      \<in> insert owner (set (elephant_stripe_candidates h c key owner))
   \<and> (length (elephant_stripe_candidates h c key owner) > 1 \<longrightarrow>
      (\<forall>s \<in> set (elephant_stripe_candidates h c key owner).
        placement_load c (choose_shard_for_striped_flow h c key sequence owner) \<le> placement_load c s))"
proof (cases "length (elephant_stripe_candidates h c key owner) \<le> 1")
  case True
  then show ?thesis by (simp add: choose_shard_for_striped_flow_def Let_def)
next
  case False
  let ?sel = "(owner, placement_load c owner, h (HashStripe striped_route_hash_salt key sequence owner))"
  let ?r = "fst (foldl (better_stripe h c key sequence) ?sel (elephant_stripe_candidates h c key owner))"
  have r: "choose_shard_for_striped_flow h c key sequence owner = ?r"
    using False unfolding choose_shard_for_striped_flow_def Let_def by (simp only: if_False)
  have "?r \<in> insert owner (set (elephant_stripe_candidates h c key owner))
    \<and> (\<forall>s \<in> insert owner (set (elephant_stripe_candidates h c key owner)).
        placement_load c ?r \<le> placement_load c s)"
    using foldl_better_stripe[of ?sel c h key sequence "elephant_stripe_candidates h c key owner"]
    unfolding fst_conv snd_conv by blast
  then show ?thesis unfolding r by blast
qed

lemma choose_striped_bounded:
  "topology_ok (co_topology c) \<Longrightarrow> owner < st_shard_count (co_topology c) \<Longrightarrow>
    choose_shard_for_striped_flow h c key sequence owner < st_shard_count (co_topology c)"
  using striped_shard_least_loaded[of h c key sequence owner, THEN conjunct1]
    candidates_bounded[of c owner h key] by (metis insert_iff)

subsection \<open>The coordinator's invariant\<close>

definition owners_bounded :: "nat \<Rightarrow> owner_table \<Rightarrow> bool" where
  "owners_bounded n t \<longleftrightarrow> (\<forall>(k, s) \<in> set (ot_owners t). os_owner_shard s < n)"

definition coordinator_ok :: "shard_coordinator \<Rightarrow> bool" where
  "coordinator_ok c \<longleftrightarrow> topology_ok (co_topology c) \<and> ot_ok (co_flow_owners c)
     \<and> owners_bounded (st_shard_count (co_topology c)) (co_flow_owners c)
     \<and> length (sm_shards (co_metrics c)) = st_shard_count (co_topology c)"

lemma owners_bounded_lookup:
  "owners_bounded n t \<Longrightarrow> map_of (ot_owners t) k = Some s \<Longrightarrow> os_owner_shard s < n"
  unfolding owners_bounded_def by (drule map_of_SomeD) blast

lemma owners_bounded_update:
  "owners_bounded n t \<Longrightarrow> os_owner_shard s < n \<Longrightarrow>
    owners_bounded n (t\<lparr>ot_owners := AList.update k s (ot_owners t)\<rparr>)"
  unfolding owners_bounded_def by simp (rule tbl_update_all; simp)

lemma owners_bounded_remember:
  assumes "owners_bounded n t" "shard < n"
  shows "owners_bounded n (ot_remember t key shard)"
proof (cases "map_of (ot_owners t) key")
  case (Some s)
  then show ?thesis using owners_bounded_update[OF assms(1)] assms(2) by (simp add: ot_remember_def)
next
  case None
  obtain owners order ev where e:
    "fifo_evict count_removed (ot_max_owners t) (ot_owners t) (ot_order t) (ot_evictions t) = (owners, order, ev)"
    by (metis prod_cases3)
  have sub: "\<forall>(k, s) \<in> set owners. os_owner_shard s < n"
    using fifo_evict_set[OF e] assms(1) unfolding owners_bounded_def by blast
  have "\<forall>(k, s) \<in> set (AList.update key \<lparr>os_owner_shard = shard, os_packets = 0, os_bytes = 0,
      os_striped = False\<rparr> owners). os_owner_shard s < n"
    by (rule tbl_update_all[OF sub]) (simp add: assms(2))
  with sub show ?thesis using None e by (simp add: ot_remember_def owners_bounded_def)
qed

lemma owners_bounded_observe: "owners_bounded n t \<Longrightarrow> owners_bounded n (ot_observe t key m)"
  by (auto simp: ot_observe_def split: option.splits intro!: owners_bounded_update
      dest: owners_bounded_lookup)

lemma owners_bounded_striped: "owners_bounded n t \<Longrightarrow> owners_bounded n (ot_mark_striped t key)"
  by (auto simp: ot_mark_striped_def split: option.splits intro!: owners_bounded_update
      dest: owners_bounded_lookup)

lemma owners_bounded_new: "owners_bounded n (owner_table_new k)"
  by (simp add: owners_bounded_def owner_table_new_def)

lemma coordinator_new_ok: "coordinator_ok (coordinator_new config)"
  by (auto simp: coordinator_ok_def coordinator_new_def topology_ok_def owner_table_new_ok
      owners_bounded_new shard_metrics_new_def topology_new_def Let_def)

lemma metrics_observe_shards_length [simp]:
  "length (sm_shards (metrics_observe_route m route n)) = length (sm_shards m)"
proof -
  have flow: "sm_shards (metrics_observe_flow m k s b st) = sm_shards m" for m k s b st
    by (simp add: metrics_observe_flow_def Let_def split: option.splits prod.splits)
  have count: "sm_shards (metrics_count m route n) = sm_shards m"
    by (simp add: metrics_count_def metrics_observe_reason_def Let_def
        split: route_kind.splits fallback_reason.splits)
  show ?thesis
    by (simp add: metrics_observe_route_def Let_def flow count metrics_observe_shard_def split: option.splits)
qed

lemma ensure_owner_frame [simp]:
  "co_topology (ensure_owner h c key) = co_topology c" "co_mode (ensure_owner h c key) = co_mode c"
  "co_metrics (ensure_owner h c key) = co_metrics c"
  "co_elephant_flows (ensure_owner h c key) = co_elephant_flows c"
  "co_next_sequence (ensure_owner h c key) = co_next_sequence c"
  "co_routing_policy (ensure_owner h c key) = co_routing_policy c"
  by (simp_all add: ensure_owner_def)

text \<open>What \<open>ensure_owner\<close> guarantees: the \<^verbatim>\<open>expect\<close> that follows it finds an owner.\<close>

lemma ensure_owner_ok:
  assumes "coordinator_ok c"
  shows "coordinator_ok (ensure_owner h c key)
    \<and> (\<exists>s. map_of (ot_owners (co_flow_owners (ensure_owner h c key))) key = Some s)
    \<and> ot_evictions (co_flow_owners c) \<le> ot_evictions (co_flow_owners (ensure_owner h c key))"
proof (cases "ot_owner (co_flow_owners c) key")
  case None
  let ?s = "choose_shard_for_new_flow h c key"
  have "?s < st_shard_count (co_topology c)"
    using assms choose_new_bounded by (simp add: coordinator_ok_def)
  then show ?thesis
    using assms None ot_remember_ok[of "co_flow_owners c" key ?s] owners_bounded_remember
      tbl_in_keysD[of key "ot_owners (ot_remember (co_flow_owners c) key ?s)"]
    by (auto simp: coordinator_ok_def ensure_owner_def ot_keys_def)
next
  case (Some s)
  then show ?thesis using assms by (auto simp: ensure_owner_def ot_owner_def)
qed

subsection \<open>One packet\<close>

text \<open>How the owner of a flow changes when a packet of it is routed.\<close>

lemma route_flow_spec:
  assumes "coordinator_ok c"
  obtains c' route s where
    "route_flow h c sequence fr n = Some (c', route)" "coordinator_ok c'"
    "map_of (ot_owners (co_flow_owners (ensure_owner h c (fr_key fr)))) (fr_key fr) = Some s"
    "sr_shard route < st_shard_count (co_topology c)"
    "sr_owner_shard route = os_owner_shard s" "sr_flow_route route = Some fr"
    "sr_kind route \<in> {FlowAffinity, StripedFlow}"
    "sr_kind route = FlowAffinity \<longrightarrow> sr_shard route = sr_owner_shard route"
    "sr_kind route = StripedFlow \<longrightarrow> fk_protocol (fr_key fr) = Udp"
    "co_metrics c' = co_metrics c" "co_topology c' = co_topology c" "co_mode c' = co_mode c"
    "\<exists>s'. os_owner_shard s' = os_owner_shard s
      \<and> ot_owners (co_flow_owners c')
        = AList.update (fr_key fr) s' (ot_owners (co_flow_owners (ensure_owner h c (fr_key fr))))"
    "ot_evictions (co_flow_owners c') = ot_evictions (co_flow_owners (ensure_owner h c (fr_key fr)))"
proof -
  let ?k = "fr_key fr"
  let ?e = "ensure_owner h c ?k"
  obtain s where e: "coordinator_ok ?e" and s: "map_of (ot_owners (co_flow_owners ?e)) ?k = Some s"
    using ensure_owner_ok[OF assms] by blast
  let ?o = "\<lparr>sn_owner_shard = os_owner_shard s, sn_packets = os_packets s, sn_bytes = os_bytes s,
    sn_striped = os_striped s\<rparr>"
  have owner: "ot_owner (co_flow_owners ?e) ?k = Some ?o" by (simp add: ot_owner_def s)
  have udp: "os_striped s \<longrightarrow> fk_protocol ?k = Udp"
    using e map_of_SomeD[OF s] by (auto simp: coordinator_ok_def ot_ok_def)
  have bound: "os_owner_shard s < st_shard_count (co_topology ?e)"
    using e owners_bounded_lookup[OF _ s] by (simp add: coordinator_ok_def)
  show ?thesis
  proof (cases "should_stripe_flow ?e fr ?o")
    case True
    let ?c1 = "?e\<lparr>co_flow_owners := ot_mark_striped (co_flow_owners ?e) ?k\<rparr>"
    have p: "fk_protocol ?k = Udp" using True by (simp add: should_stripe_flow_def)
    have c1: "coordinator_ok ?c1"
      using e p ot_mark_striped_ok owners_bounded_striped by (simp add: coordinator_ok_def)
    show ?thesis
    proof (rule that)
      show "route_flow h c sequence fr n = Some
        (?c1\<lparr>co_flow_owners := ot_observe (co_flow_owners ?c1) ?k n\<rparr>,
         \<lparr>sr_shard = choose_shard_for_striped_flow h ?c1 ?k sequence (os_owner_shard s),
          sr_owner_shard = os_owner_shard s, sr_kind = StripedFlow, sr_flow_route = Some fr,
          sr_fallback_reason = None\<rparr>)"
        unfolding route_flow_def Let_def owner option.case using True by simp
      show "coordinator_ok (?c1\<lparr>co_flow_owners := ot_observe (co_flow_owners ?c1) ?k n\<rparr>)"
        using c1 ot_observe_ok owners_bounded_observe by (simp add: coordinator_ok_def)
      show "map_of (ot_owners (co_flow_owners ?e)) ?k = Some s" by (rule s)
      have "choose_shard_for_striped_flow h ?c1 ?k sequence (os_owner_shard s)
          < st_shard_count (co_topology ?c1)"
        by (rule choose_striped_bounded) (use c1 bound in \<open>simp_all add: coordinator_ok_def\<close>)
      then show "sr_shard \<lparr>sr_shard = choose_shard_for_striped_flow h ?c1 ?k sequence (os_owner_shard s),
          sr_owner_shard = os_owner_shard s, sr_kind = StripedFlow, sr_flow_route = Some fr,
          sr_fallback_reason = None\<rparr> < st_shard_count (co_topology c)" by simp
    qed (use s p in \<open>auto simp: ot_mark_striped_def ot_observe_def update_conv
        intro!: exI[of _ "s\<lparr>os_striped := True, os_packets := sat_add (os_packets s) 1,
          os_bytes := sat_add (os_bytes s) n\<rparr>"]\<close>)
  next
    case False
    let ?shard = "if os_striped s then choose_shard_for_striped_flow h ?e ?k sequence (os_owner_shard s)
      else os_owner_shard s"
    show ?thesis
    proof (rule that)
      show "route_flow h c sequence fr n = Some
        (?e\<lparr>co_flow_owners := ot_observe (co_flow_owners ?e) ?k n\<rparr>,
         \<lparr>sr_shard = ?shard, sr_owner_shard = os_owner_shard s,
          sr_kind = (if os_striped s then StripedFlow else FlowAffinity), sr_flow_route = Some fr,
          sr_fallback_reason = None\<rparr>)"
        unfolding route_flow_def Let_def owner option.case using False by simp
      show "coordinator_ok (?e\<lparr>co_flow_owners := ot_observe (co_flow_owners ?e) ?k n\<rparr>)"
        using e ot_observe_ok owners_bounded_observe by (simp add: coordinator_ok_def)
      show "map_of (ot_owners (co_flow_owners ?e)) ?k = Some s" by (rule s)
      have "choose_shard_for_striped_flow h ?e ?k sequence (os_owner_shard s)
          < st_shard_count (co_topology ?e)"
        by (rule choose_striped_bounded) (use e bound in \<open>simp_all add: coordinator_ok_def\<close>)
      then show "sr_shard \<lparr>sr_shard = ?shard, sr_owner_shard = os_owner_shard s,
          sr_kind = (if os_striped s then StripedFlow else FlowAffinity), sr_flow_route = Some fr,
          sr_fallback_reason = None\<rparr> < st_shard_count (co_topology c)"
        using bound by simp
    qed (use s udp in \<open>auto simp: ot_observe_def
        intro!: exI[of _ "s\<lparr>os_packets := sat_add (os_packets s) 1, os_bytes := sat_add (os_bytes s) n\<rparr>"]\<close>)
  qed
qed

lemma ensure_owner_keeps:
  assumes "coordinator_ok c" "ot_evictions (co_flow_owners (ensure_owner h c key)) = 0"
    "map_of (ot_owners (co_flow_owners c)) k = Some s"
  shows "map_of (ot_owners (co_flow_owners (ensure_owner h c key))) k = Some s"
proof (cases "ot_owner (co_flow_owners c) key")
  case None
  then have "map_of (ot_owners (co_flow_owners c)) key = None" by (simp add: ot_owner_def)
  then have "k \<noteq> key" using assms(3) by auto
  then show ?thesis
    using assms None ot_remember_keeps[of "co_flow_owners c" key "choose_shard_for_new_flow h c key" k]
    by (simp add: ensure_owner_def coordinator_ok_def)
qed (use assms in \<open>simp add: ensure_owner_def\<close>)

text \<open>The shard that owns a flow, if it is remembered.\<close>

definition owner_shard_of :: "shard_coordinator \<Rightarrow> flow_key \<Rightarrow> nat option" where
  "owner_shard_of c k = map_option os_owner_shard (map_of (ot_owners (co_flow_owners c)) k)"

lemma route_flow_keeps:
  assumes "coordinator_ok c" "route_flow h c sequence fr n = Some (c', route)"
    "ot_evictions (co_flow_owners c') = 0" "owner_shard_of c k = Some x"
  shows "owner_shard_of c' k = Some x"
proof -
  obtain c1 route1 s s' where r: "route_flow h c sequence fr n = Some (c1, route1)"
    "map_of (ot_owners (co_flow_owners (ensure_owner h c (fr_key fr)))) (fr_key fr) = Some s"
    "os_owner_shard s' = os_owner_shard s"
    "ot_owners (co_flow_owners c1)
      = AList.update (fr_key fr) s' (ot_owners (co_flow_owners (ensure_owner h c (fr_key fr))))"
    "ot_evictions (co_flow_owners c1) = ot_evictions (co_flow_owners (ensure_owner h c (fr_key fr)))"
    by (rule route_flow_spec[OF assms(1), of h sequence fr n]) blast
  have c1: "c1 = c'" using r(1) assms(2) by simp
  obtain t where t: "map_of (ot_owners (co_flow_owners c)) k = Some t" "os_owner_shard t = x"
    using assms(4) by (auto simp: owner_shard_of_def)
  have "map_of (ot_owners (co_flow_owners (ensure_owner h c (fr_key fr)))) k = Some t"
    using ensure_owner_keeps[OF assms(1) _ t(1), of h "fr_key fr"] r(5) assms(3) c1 by simp
  then show ?thesis
    using r(2,3,4) t(2) c1 by (auto simp: owner_shard_of_def update_conv)
qed

lemma plain_route_simps [simp]:
  "sr_shard (plain_route s k r) = s" "sr_owner_shard (plain_route s k r) = 0"
  "sr_kind (plain_route s k r) = k" "sr_flow_route (plain_route s k r) = None"
  "sr_fallback_reason (plain_route s k r) = r"
  by (simp_all add: plain_route_def)

definition affine_key :: "shard_coordinator \<Rightarrow> raw_packet \<Rightarrow> flow_key option" where
  "affine_key c raw = (case flow_route_from_raw_result raw of Inl _ \<Rightarrow> None
     | Inr fr \<Rightarrow> if fk_protocol (fr_key fr) = Udp then None else Some (fr_key fr))"

text \<open>One packet: it is routed to a shard that exists, without a panic; while no owner is evicted
  the remembered owners stay; and a packet of a flow that is never striped goes to its owner.\<close>

lemma route_packet_spec:
  assumes "coordinator_ok c"
  obtains c' route where
    "route_packet h c raw = Some (c', route)" "coordinator_ok c'"
    "sr_shard route < st_shard_count (co_topology c)" "sr_owner_shard route < st_shard_count (co_topology c)"
    "co_topology c' = co_topology c" "co_mode c' = co_mode c"
    "co_metrics c' = metrics_observe_route (co_metrics c) route (length (rp_data raw))"
    "ot_evictions (co_flow_owners c) \<le> ot_evictions (co_flow_owners c')"
    "ot_evictions (co_flow_owners c') = 0 \<longrightarrow>
      (\<forall>k x. owner_shard_of c k = Some x \<longrightarrow> owner_shard_of c' k = Some x)"
    "co_mode c \<noteq> Dump \<and> \<not> is_single_shard (co_topology c) \<longrightarrow>
      (\<forall>k. affine_key c raw = Some k \<longrightarrow> owner_shard_of c' k = Some (sr_shard route))"
    "co_mode c = Dump \<or> is_single_shard (co_topology c) \<longrightarrow> sr_shard route = 0"
proof -
  let ?c0 = "c\<lparr>co_next_sequence := sat_add (co_next_sequence c) 1\<rparr>"
  let ?out = "\<lambda>c1 r. c1\<lparr>co_metrics := metrics_observe_route (co_metrics c1) r (length (rp_data raw))\<rparr>"
  have ok0: "coordinator_ok ?c0" using assms by (simp add: coordinator_ok_def)
  have pos: "0 < st_shard_count (co_topology c)"
    using assms topology_ok_pos by (simp add: coordinator_ok_def)
  have out_ok: "coordinator_ok (?out c1 r)" if "coordinator_ok c1" for c1 r
    using that by (simp add: coordinator_ok_def)
  show ?thesis
  proof (cases "co_mode c = Dump \<or> is_single_shard (co_topology c) \<or> (\<exists>e. flow_route_from_raw_result raw = Inl e)")
    case True
    obtain route where r: "route_packet_inner h ?c0 (co_next_sequence c) raw = Some (?c0, route)"
      "sr_shard route < st_shard_count (co_topology c)" "sr_owner_shard route = 0"
      "co_mode c = Dump \<or> is_single_shard (co_topology c) \<longrightarrow> sr_shard route = 0"
    proof (cases "co_mode c = Dump \<or> is_single_shard (co_topology c)")
      case d: True
      show ?thesis
        by (rule that[of "plain_route 0 (if co_mode c = Dump then DumpRoute else SingleShard) None"])
          (use d pos in \<open>auto simp: route_packet_inner_def\<close>)
    next
      case nd: False
      then obtain e where e: "flow_route_from_raw_result raw = Inl e" using True by blast
      have b: "fallback_route p n (co_topology c) < st_shard_count (co_topology c)" for p n
        using assms pos by (cases p) (auto simp: coordinator_ok_def)
      show ?thesis
        by (rule that[of "plain_route (fallback_route (policy_fallback (co_routing_policy c))
              (co_next_sequence c) (co_topology c)) Fallback (Some e)"])
          (use nd e b in \<open>auto simp: route_packet_inner_def\<close>)
    qed
    show ?thesis
    proof (rule that)
      show "route_packet h c raw = Some (?out ?c0 route, route)"
        unfolding route_packet_def r(1) by simp
    qed (use r True pos out_ok[OF ok0] in \<open>auto simp: owner_shard_of_def affine_key_def\<close>)
  next
    case False
    then obtain fr where fr: "flow_route_from_raw_result raw = Inr fr"
      by (cases "flow_route_from_raw_result raw") auto
    obtain c1 route s s' where r: "route_flow h ?c0 (co_next_sequence c) fr (length (rp_data raw)) = Some (c1, route)"
      "coordinator_ok c1" "sr_shard route < st_shard_count (co_topology c)"
      "map_of (ot_owners (co_flow_owners (ensure_owner h ?c0 (fr_key fr)))) (fr_key fr) = Some s"
      "sr_owner_shard route = os_owner_shard s"
      "sr_kind route \<in> {FlowAffinity, StripedFlow}"
      "sr_kind route = FlowAffinity \<longrightarrow> sr_shard route = sr_owner_shard route"
      "sr_kind route = StripedFlow \<longrightarrow> fk_protocol (fr_key fr) = Udp"
      "co_metrics c1 = co_metrics c" "co_topology c1 = co_topology c" "co_mode c1 = co_mode c"
      "os_owner_shard s' = os_owner_shard s"
      "ot_owners (co_flow_owners c1)
        = AList.update (fr_key fr) s' (ot_owners (co_flow_owners (ensure_owner h ?c0 (fr_key fr))))"
      "ot_evictions (co_flow_owners c1) = ot_evictions (co_flow_owners (ensure_owner h ?c0 (fr_key fr)))"
      by (rule route_flow_spec[OF ok0, of h "co_next_sequence c" fr "length (rp_data raw)"]) auto
    have inner: "route_packet_inner h ?c0 (co_next_sequence c) raw = Some (c1, route)"
      using False fr r(1) by (simp add: route_packet_inner_def)
    have own: "owner_shard_of c1 (fr_key fr) = Some (os_owner_shard s)"
      using r(12,13) by (simp add: owner_shard_of_def update_conv)
    have os: "os_owner_shard s < st_shard_count (co_topology c)"
    proof -
      obtain z where z: "map_of (ot_owners (co_flow_owners c1)) (fr_key fr) = Some z"
        "os_owner_shard z = os_owner_shard s"
        using own by (auto simp: owner_shard_of_def)
      have "owners_bounded (st_shard_count (co_topology c)) (co_flow_owners c1)"
        using r(2,10) by (simp add: coordinator_ok_def)
      from owners_bounded_lookup[OF this z(1)] z(2) show ?thesis by simp
    qed
    have kept: "owner_shard_of c1 k = Some x"
      if "ot_evictions (co_flow_owners c1) = 0" "owner_shard_of c k = Some x" for k x
      using route_flow_keeps[OF ok0 r(1) that(1), of k x] that(2) by (simp add: owner_shard_of_def)
    have mono: "ot_evictions (co_flow_owners c) \<le> ot_evictions (co_flow_owners c1)"
      using ensure_owner_ok[OF ok0, of h "fr_key fr"] r(14) by simp
    show ?thesis
    proof (rule that)
      show "route_packet h c raw = Some (?out c1 route, route)"
        unfolding route_packet_def inner by simp
      show "coordinator_ok (?out c1 route)" by (rule out_ok[OF r(2)])
      show "ot_evictions (co_flow_owners (?out c1 route)) = 0 \<longrightarrow>
        (\<forall>k x. owner_shard_of c k = Some x \<longrightarrow> owner_shard_of (?out c1 route) k = Some x)"
        using kept by (simp add: owner_shard_of_def)
      show "co_mode c \<noteq> Dump \<and> \<not> is_single_shard (co_topology c) \<longrightarrow>
        (\<forall>k. affine_key c raw = Some k \<longrightarrow> owner_shard_of (?out c1 route) k = Some (sr_shard route))"
        using own r(5,6,7,8) fr by (auto simp: affine_key_def owner_shard_of_def)
    qed (use r os mono False in auto)
  qed
qed

subsection \<open>Runs\<close>

fun route_run ::
  "(hash_input \<Rightarrow> u64w) \<Rightarrow> shard_coordinator \<Rightarrow> raw_packet list \<Rightarrow>
   (shard_coordinator \<times> shard_route list) option" where
  "route_run h c [] = Some (c, [])"
| "route_run h c (raw # raws) = (case route_packet h c raw of None \<Rightarrow> None
     | Some (c1, route) \<Rightarrow> (case route_run h c1 raws of None \<Rightarrow> None
       | Some (c2, routes) \<Rightarrow> Some (c2, route # routes)))"

lemma route_run_ConsE:
  assumes "route_run h c (raw # raws) = Some (c', rs)"
  obtains c1 route rs1 where "route_packet h c raw = Some (c1, route)" "route_run h c1 raws = Some (c', rs1)"
    "rs = route # rs1"
  using assms by (auto split: option.splits prod.splits)

lemma route_run_total:
  "coordinator_ok c \<Longrightarrow> \<exists>c' rs. route_run h c raws = Some (c', rs) \<and> coordinator_ok c'
    \<and> co_topology c' = co_topology c \<and> length rs = length raws
    \<and> list_all (\<lambda>r. sr_shard r < st_shard_count (co_topology c)
        \<and> sr_owner_shard r < st_shard_count (co_topology c)) rs"
proof (induction raws arbitrary: c)
  case (Cons raw raws)
  obtain c1 route where p: "route_packet h c raw = Some (c1, route)" "coordinator_ok c1"
    "sr_shard route < st_shard_count (co_topology c)" "sr_owner_shard route < st_shard_count (co_topology c)"
    "co_topology c1 = co_topology c"
    by (rule route_packet_spec[OF Cons.prems, of h raw]) blast
  show ?case
    using Cons.IH[OF p(2)] p by fastforce
qed simp

text \<open>
  Whatever the hash function and the packets, the dispatcher routes every packet without a panic,
  and to a shard, with an owner shard, among the configured number of shards (at least one).
\<close>

theorem dispatcher_routes_every_packet:
  "\<exists>c rs. route_run h (coordinator_new config) raws = Some (c, rs) \<and> length rs = length raws
    \<and> list_all (\<lambda>r. sr_shard r < max (gc_shard_count config) 1
        \<and> sr_owner_shard r < max (gc_shard_count config) 1) rs"
proof -
  have "st_shard_count (co_topology (coordinator_new config)) = max (gc_shard_count config) 1"
    by (simp add: coordinator_new_def topology_new_def Let_def)
  then show ?thesis
    using route_run_total[OF coordinator_new_ok, of h config raws] by metis
qed

lemma route_run_affine:
  assumes "coordinator_ok c" "route_run h c raws = Some (c', rs)"
    and "ot_evictions (co_flow_owners c') = 0"
  shows "ot_evictions (co_flow_owners c) = 0
    \<and> (\<forall>k x. owner_shard_of c k = Some x \<longrightarrow> owner_shard_of c' k = Some x)
    \<and> (\<forall>i < length raws. \<forall>k. affine_key c (raws ! i) = Some k \<longrightarrow>
        (if co_mode c = Dump \<or> is_single_shard (co_topology c) then sr_shard (rs ! i) = 0
         else owner_shard_of c' k = Some (sr_shard (rs ! i))))"
  using assms
proof (induction raws arbitrary: c rs)
  case (Cons raw raws)
  obtain c1 route rs1 where r: "route_packet h c raw = Some (c1, route)"
    "route_run h c1 raws = Some (c', rs1)" "rs = route # rs1"
    by (rule route_run_ConsE[OF Cons.prems(2)])
  obtain c2 route2 where s: "route_packet h c raw = Some (c2, route2)" "coordinator_ok c2"
    "co_topology c2 = co_topology c" "co_mode c2 = co_mode c"
    "ot_evictions (co_flow_owners c) \<le> ot_evictions (co_flow_owners c2)"
    "ot_evictions (co_flow_owners c2) = 0 \<longrightarrow>
      (\<forall>k x. owner_shard_of c k = Some x \<longrightarrow> owner_shard_of c2 k = Some x)"
    "co_mode c \<noteq> Dump \<and> \<not> is_single_shard (co_topology c) \<longrightarrow>
      (\<forall>k. affine_key c raw = Some k \<longrightarrow> owner_shard_of c2 k = Some (sr_shard route2))"
    "co_mode c = Dump \<or> is_single_shard (co_topology c) \<longrightarrow> sr_shard route2 = 0"
    by (rule route_packet_spec[OF Cons.prems(1), of h raw]) (rule that; assumption)
  have same: "c2 = c1" "route2 = route" using r(1) s(1) by simp_all
  note s = s[unfolded same]
  have key: "affine_key c1 x = affine_key c x" for x by (simp add: affine_key_def)
  note IH = Cons.IH[OF s(2) r(2) Cons.prems(3), unfolded s(3,4) key]
  show ?case
  proof (intro conjI allI impI)
    show "ot_evictions (co_flow_owners c) = 0" using IH s(5) by simp
    show "owner_shard_of c' k = Some x" if "owner_shard_of c k = Some x" for k x
      using IH s(6) that by blast
    fix i k assume i: "i < length (raw # raws)" "affine_key c ((raw # raws) ! i) = Some k"
    show "if co_mode c = Dump \<or> is_single_shard (co_topology c) then sr_shard (rs ! i) = 0
        else owner_shard_of c' k = Some (sr_shard (rs ! i))"
    proof (cases i)
      case 0
      then show ?thesis using i(2) IH s(7,8) r(3) by auto
    next
      case (Suc j)
      then show ?thesis using i IH r(3) by simp
    qed
  qed
qed simp

text \<open>
  C8. Flow affinity: as long as no owner has been evicted, all packets of a flow that is not UDP, in
  both directions, go to one shard, however the load of the shards changes in between.
\<close>

theorem flow_affinity:
  assumes "route_run h (coordinator_new config) raws = Some (c, rs)"
    and "ot_evictions (co_flow_owners c) = 0"
    and "i < length raws" "flow_route_from_raw_result (raws ! i) = Inr r"
    and "j < length raws" "flow_route_from_raw_result (raws ! j) = Inr r'"
    and "fr_key r = fr_key r'" "fk_protocol (fr_key r) \<noteq> Udp"
  shows "sr_shard (rs ! i) = sr_shard (rs ! j)"
proof -
  have "affine_key (coordinator_new config) (raws ! i) = Some (fr_key r)"
    "affine_key (coordinator_new config) (raws ! j) = Some (fr_key r)"
    using assms(4,6-8) by (simp_all add: affine_key_def)
  then have shard: "if co_mode (coordinator_new config) = Dump \<or> is_single_shard (co_topology (coordinator_new config))
      then sr_shard (rs ! n) = 0 else owner_shard_of c (fr_key r) = Some (sr_shard (rs ! n))"
    if "n = i \<or> n = j" for n
    using route_run_affine[OF coordinator_new_ok assms(1,2)] assms(3,5) that by blast
  show ?thesis using shard[of i] shard[of j] by (simp split: if_splits)
qed

subsection \<open>Conservation of the load metrics\<close>

definition shard_total :: "(shard_load \<Rightarrow> nat) \<Rightarrow> shard_metrics \<Rightarrow> nat" where
  "shard_total f m = sum_list (map f (sm_shards m))"

text \<open>The metrics' counters, each with the counter of a shard that it is the total of.\<close>

definition metric_pairs :: "((shard_metrics \<Rightarrow> nat) \<times> (shard_load \<Rightarrow> nat)) list" where
  "metric_pairs = [(sm_total_packets, sl_packets), (sm_total_bytes, sl_bytes),
     (sm_flow_routed, sl_flow_routed), (sm_striped, sl_striped), (sm_fallback, sl_fallback),
     (sm_unsupported_link, sl_unsupported_link), (sm_non_ip, sl_non_ip), (sm_malformed, sl_malformed),
     (sm_fragmented, sl_fragmented), (sm_unsupported_transport, sl_unsupported_transport),
     (sm_dump, sl_dump), (sm_single, sl_single)]"

definition totals_ok :: "shard_metrics \<Rightarrow> bool" where
  "totals_ok m \<longleftrightarrow> list_all (\<lambda>(f, g). f m = shard_total g m) metric_pairs"

definition categories_ok :: "shard_metrics \<Rightarrow> bool" where
  "categories_ok m \<longleftrightarrow> sm_flow_routed m + sm_fallback m + sm_dump m + sm_single m = sm_total_packets m
     \<and> sm_unsupported_link m + sm_non_ip m + sm_malformed m + sm_fragmented m
        + sm_unsupported_transport m = sm_fallback m
     \<and> sm_striped m \<le> sm_flow_routed m"

lemma sum_list_list_update:
  "i < length xs \<Longrightarrow> sum_list (map f (xs[i := y])) + f (xs ! i) = sum_list (map f xs) + (f y :: nat)"
proof (induction xs arbitrary: i)
  case (Cons x xs)
  then show ?case by (cases i) auto
qed simp

text \<open>What one packet adds to a counter.\<close>

fun adds :: "route_kind \<Rightarrow> fallback_reason \<Rightarrow> nat \<Rightarrow> nat list" where
  "adds kind reason n = [1, n, of_bool (kind = FlowAffinity \<or> kind = StripedFlow),
     of_bool (kind = StripedFlow), of_bool (kind = Fallback),
     of_bool (kind = Fallback \<and> reason = FbUnsupportedLink), of_bool (kind = Fallback \<and> reason = FbNonIp),
     of_bool (kind = Fallback \<and> reason = FbMalformed), of_bool (kind = Fallback \<and> reason = FbFragmented),
     of_bool (kind = Fallback \<and> reason = FbUnsupportedTransport),
     of_bool (kind = DumpRoute), of_bool (kind = SingleShard)]"

lemmas metric_adds_defs = metric_pairs_def load_observe_def load_observe_reason_def metrics_count_def
  metrics_observe_reason_def Let_def sat_add_def min_absorb1

lemma load_observe_adds:
  assumes "list_all2 (\<lambda>(_, g) a. g l + a \<le> u64_max) metric_pairs (adds kind (reason_or_malformed reason) n)"
  shows "list_all2 (\<lambda>(_, g) a. g (load_observe l kind reason n) = g l + a) metric_pairs
    (adds kind (reason_or_malformed reason) n)"
  using assms
  by (cases kind; cases "reason_or_malformed reason") (simp_all add: metric_adds_defs)

lemma metrics_count_adds:
  assumes "list_all2 (\<lambda>(f, _) a. f m + a \<le> u64_max) metric_pairs
    (adds (sr_kind route) (reason_or_malformed (sr_fallback_reason route)) n)"
  shows "list_all2 (\<lambda>(f, _) a. f (metrics_count m route n) = f m + a) metric_pairs
    (adds (sr_kind route) (reason_or_malformed (sr_fallback_reason route)) n)"
  using assms
  by (cases "sr_kind route"; cases "reason_or_malformed (sr_fallback_reason route)")
    (simp_all add: metric_adds_defs)

lemma metrics_observe_flow_frame:
  "list_all (\<lambda>(f, g). f (metrics_observe_flow m k s n b) = f m
    \<and> shard_total g (metrics_observe_flow m k s n b) = shard_total g m) metric_pairs"
  by (simp add: metric_pairs_def metrics_observe_flow_def Let_def shard_total_def
      split: option.splits prod.splits)

lemma metrics_observe_shard_frame:
  "list_all (\<lambda>(f, _). f (metrics_observe_shard m route n) = f m) metric_pairs"
  by (simp add: metric_pairs_def metrics_observe_shard_def)

lemma shard_total_ge: "l \<in> set (sm_shards m) \<Longrightarrow> g l \<le> shard_total g m"
  using member_le_sum_list[of "g l" "map g (sm_shards m)"] by (simp add: shard_total_def)

lemma list_all2_all:
  "list_all2 P xs ys \<Longrightarrow> list_all Q xs \<Longrightarrow> (\<And>x y. P x y \<Longrightarrow> Q x \<Longrightarrow> R x y) \<Longrightarrow> list_all2 R xs ys"
  by (simp add: list_all2_conv_all_nth list_all_length)

lemma list_all2_both:
  "list_all2 P xs ys \<Longrightarrow> list_all2 Q xs ys \<Longrightarrow> list_all R xs \<Longrightarrow> (\<And>x y. P x y \<Longrightarrow> Q x y \<Longrightarrow> R x \<Longrightarrow> S x)
    \<Longrightarrow> list_all S xs"
  unfolding list_all2_conv_all_nth list_all_length by (metis (no_types, lifting))

lemma metrics_observe_shard_adds:
  assumes "sr_shard route < length (sm_shards m)"
    and "list_all2 (\<lambda>(_, g) a. shard_total g m + a \<le> u64_max) metric_pairs
      (adds (sr_kind route) (reason_or_malformed (sr_fallback_reason route)) n)"
  shows "list_all2 (\<lambda>(_, g) a. shard_total g (metrics_observe_shard m route n) = shard_total g m + a)
    metric_pairs (adds (sr_kind route) (reason_or_malformed (sr_fallback_reason route)) n)"
proof -
  let ?l = "sm_shards m ! sr_shard route"
  let ?l' = "load_observe ?l (sr_kind route) (sr_fallback_reason route) n"
  have mem: "?l \<in> set (sm_shards m)" using assms(1) by simp
  have "list_all2 (\<lambda>(_, g) a. g ?l + a \<le> u64_max) metric_pairs
      (adds (sr_kind route) (reason_or_malformed (sr_fallback_reason route)) n)"
    using assms(2)
  proof (rule list_all2_mono, clarify)
    fix f :: "shard_metrics \<Rightarrow> nat" and g :: "shard_load \<Rightarrow> nat" and a assume "shard_total g m + a \<le> u64_max"
    then show "g ?l + a \<le> u64_max" using shard_total_ge[OF mem, of g] by linarith
  qed
  from load_observe_adds[OF this] show ?thesis
  proof (rule list_all2_mono, clarify)
    fix f :: "shard_metrics \<Rightarrow> nat" and g :: "shard_load \<Rightarrow> nat" and a assume "g ?l' = g ?l + a"
    then show "shard_total g (metrics_observe_shard m route n) = shard_total g m + a"
      using sum_list_list_update[OF assms(1), of g ?l'] assms(1)
      by (simp add: shard_total_def metrics_observe_shard_def)
  qed
qed

lemma shard_total_count: "shard_total g (metrics_count m route n) = shard_total g m"
  by (simp add: shard_total_def metrics_count_def metrics_observe_reason_def Let_def
      split: route_kind.splits fallback_reason.splits)

lemma metrics_step:
  assumes "totals_ok m" "categories_ok m" "sr_shard route < length (sm_shards m)"
    and "sm_total_packets m < u64_max" "sm_total_bytes m + n \<le> u64_max"
  shows "totals_ok (metrics_observe_route m route n) \<and> categories_ok (metrics_observe_route m route n)
    \<and> sm_total_packets (metrics_observe_route m route n) = sm_total_packets m + 1
    \<and> sm_total_bytes (metrics_observe_route m route n) = sm_total_bytes m + n"
proof -
  let ?adds = "adds (sr_kind route) (reason_or_malformed (sr_fallback_reason route)) n"
  let ?m1 = "metrics_count m route n" and ?m2 = "metrics_observe_shard (metrics_count m route n) route n"
  let ?m3 = "metrics_observe_route m route n"
  have small: "list_all2 (\<lambda>(f, _) a. f m + a \<le> u64_max) metric_pairs ?adds"
    using assms(2,4,5) by (auto simp: metric_pairs_def categories_ok_def of_bool_def)
  then have shard_small: "list_all2 (\<lambda>(_, g) a. shard_total g ?m1 + a \<le> u64_max) metric_pairs ?adds"
    using assms(1) unfolding shard_total_count by (simp add: metric_pairs_def totals_ok_def)
  have len: "sr_shard route < length (sm_shards ?m1)"
    using assms(3) by (simp add: metrics_count_def metrics_observe_reason_def Let_def
        split: route_kind.splits fallback_reason.splits)
  have same: "list_all (\<lambda>(f, g). f ?m3 = f ?m2 \<and> shard_total g ?m3 = shard_total g ?m2) metric_pairs"
    unfolding metrics_observe_route_def Let_def
    by (cases "sr_flow_route route"; cases "sr_kind route")
      (simp_all add: metrics_observe_flow_frame, simp_all add: metric_pairs_def)
  have F: "list_all2 (\<lambda>(f, _) a. f ?m3 = f m + a) metric_pairs ?adds"
  proof (rule list_all2_all[OF _ same])
    show "list_all2 (\<lambda>(f, _) a. f ?m2 = f m + a) metric_pairs ?adds"
      by (rule list_all2_all[OF metrics_count_adds[OF small] metrics_observe_shard_frame[of ?m1 route n]])
        auto
  qed auto
  have G: "list_all2 (\<lambda>(_, g) a. shard_total g ?m3 = shard_total g m + a) metric_pairs ?adds"
    by (rule list_all2_all[OF metrics_observe_shard_adds[OF len shard_small] same])
      (auto simp: shard_total_count)
  have "totals_ok ?m3"
    unfolding totals_ok_def
    by (rule list_all2_both[OF F G assms(1)[unfolded totals_ok_def]]) auto
  moreover have "categories_ok ?m3 \<and> sm_total_packets ?m3 = sm_total_packets m + 1
      \<and> sm_total_bytes ?m3 = sm_total_bytes m + n"
    using F[unfolded metric_pairs_def, simplified] assms(2)
    unfolding categories_ok_def
    by (cases "sr_kind route"; cases "reason_or_malformed (sr_fallback_reason route)") simp_all
  ultimately show ?thesis by blast
qed

lemma metrics_new_ok: "totals_ok (shard_metrics_new n) \<and> categories_ok (shard_metrics_new n)"
proof -
  have "sum_list (map g (map shard_load_new xs)) = 0" if "\<And>i. g (shard_load_new i) = 0" for g and xs :: "nat list"
    by (induction xs) (simp_all add: that)
  then show ?thesis
    by (simp add: totals_ok_def categories_ok_def metric_pairs_def shard_total_def shard_metrics_new_def
        shard_load_new_def)
qed

lemma route_run_metrics:
  assumes "coordinator_ok c" "route_run h c raws = Some (c', rs)"
    and "totals_ok (co_metrics c)" "categories_ok (co_metrics c)"
    and "sm_total_packets (co_metrics c) + length raws \<le> u64_max"
    and "sm_total_bytes (co_metrics c) + sum_list (map (length \<circ> rp_data) raws) \<le> u64_max"
  shows "totals_ok (co_metrics c') \<and> categories_ok (co_metrics c')
    \<and> sm_total_packets (co_metrics c') = sm_total_packets (co_metrics c) + length raws
    \<and> sm_total_bytes (co_metrics c') = sm_total_bytes (co_metrics c) + sum_list (map (length \<circ> rp_data) raws)
    \<and> length (sm_shards (co_metrics c')) = length (sm_shards (co_metrics c))"
  using assms
proof (induction raws arbitrary: c rs)
  case (Cons raw raws)
  obtain c1 route rs1 where r: "route_packet h c raw = Some (c1, route)"
    "route_run h c1 raws = Some (c', rs1)" "rs = route # rs1"
    by (rule route_run_ConsE[OF Cons.prems(2)])
  obtain c2 route2 where s: "route_packet h c raw = Some (c2, route2)" "coordinator_ok c2"
    "sr_shard route2 < st_shard_count (co_topology c)"
    "co_metrics c2 = metrics_observe_route (co_metrics c) route2 (length (rp_data raw))"
    by (rule route_packet_spec[OF Cons.prems(1), of h raw]) (rule that; assumption)
  have same: "c2 = c1" "route2 = route" using r(1) s(1) by simp_all
  have lt: "sr_shard route2 < length (sm_shards (co_metrics c))"
    using s(3) Cons.prems(1) by (simp add: coordinator_ok_def)
  have "sm_total_packets (co_metrics c) < u64_max"
    "sm_total_bytes (co_metrics c) + length (rp_data raw) \<le> u64_max"
    using Cons.prems(5,6) by simp_all
  note step = metrics_step[OF Cons.prems(3,4) lt this, folded s(4), unfolded same]
  have ok: "coordinator_ok c1" using s(2) same by simp
  have len: "length (sm_shards (co_metrics c1)) = length (sm_shards (co_metrics c))"
    using s(4) same by simp
  have "totals_ok (co_metrics c') \<and> categories_ok (co_metrics c')
    \<and> sm_total_packets (co_metrics c') = sm_total_packets (co_metrics c1) + length raws
    \<and> sm_total_bytes (co_metrics c') = sm_total_bytes (co_metrics c1) + sum_list (map (length \<circ> rp_data) raws)
    \<and> length (sm_shards (co_metrics c')) = length (sm_shards (co_metrics c1))"
    by (rule Cons.IH[OF ok r(2)]) (use step Cons.prems(5,6) in simp_all)
  then show ?case using step len by (simp add: o_def)
qed simp

lemma run_accounts:
  assumes "route_run h (coordinator_new config) raws = Some (c, rs)"
    and "length raws \<le> u64_max" "sum_list (map (length \<circ> rp_data) raws) \<le> u64_max"
  shows "sm_total_packets (co_metrics c) = length raws
    \<and> sm_total_bytes (co_metrics c) = sum_list (map (length \<circ> rp_data) raws)
    \<and> totals_ok (co_metrics c) \<and> categories_ok (co_metrics c)"
proof -
  have "co_metrics (coordinator_new config) = shard_metrics_new (st_shard_count (topology_new (gc_shard_count config)))"
    by (simp add: coordinator_new_def)
  moreover have "sm_total_packets (shard_metrics_new n) = 0" "sm_total_bytes (shard_metrics_new n) = 0" for n
    by (simp_all add: shard_metrics_new_def)
  ultimately show ?thesis
    using route_run_metrics[OF coordinator_new_ok assms(1)] metrics_new_ok assms(2,3) by simp
qed

text \<open>
  C10. The load metrics account for every packet: after any run, below the bound of 64 bits, the
  totals are the number of packets and of bytes, every counter is the sum of the shards' counters,
  the four kinds of route partition the packets, and the five reasons the fallback packets.
\<close>

theorem load_metrics_account:
  assumes "route_run h (coordinator_new config) raws = Some (c, rs)"
    and "length raws \<le> u64_max" "sum_list (map (length \<circ> rp_data) raws) \<le> u64_max"
  shows "sm_total_packets (co_metrics c) = length raws
    \<and> sm_total_bytes (co_metrics c) = sum_list (map (length \<circ> rp_data) raws)
    \<and> totals_ok (co_metrics c) \<and> categories_ok (co_metrics c)"
  using assms by (rule run_accounts)

subsection \<open>Skew\<close>

lemma sum_list_le_max: "\<forall>x \<in> set xs. f x \<le> (m :: nat) \<Longrightarrow> sum_list (map f xs) \<le> m * length xs"
  by (induction xs) auto

lemma skew_ratio_bounds:
  assumes "0 < whole" "mx \<le> whole" "whole \<le> mx * n" "n \<le> 2 ^ 40" "whole \<le> u64_max"
  shows "1000 \<le> skew_ratio_milli mx whole n \<and> skew_ratio_milli mx whole n \<le> 1000 * n"
proof -
  have n: "0 < n" using assms(1,3) by (cases n) auto
  have "mx * n \<le> u64_max * 2 ^ 40" using assms(2,4,5) by (intro mult_le_mono) auto
  then have big: "mx * n \<le> u128_max" "mx * n * 1000 \<le> u128_max"
    by (auto simp: u128_max_def u64_max_def)
  have lo: "1000 \<le> mx * n * 1000 div whole"
    using assms(1,3) by (simp add: less_eq_div_iff_mult_less_eq)
  have "mx * n * 1000 \<le> 1000 * n * whole" using assms(2) by simp
  then have hi: "mx * n * 1000 div whole \<le> 1000 * n"
    using assms(1) by (metis div_le_mono nonzero_mult_div_cancel_right not_gr_zero)
  have "1000 * n \<le> u64_max" using assms(4) by (simp add: u64_max_def)
  then show ?thesis
    using assms(1) n lo hi big by (simp add: skew_ratio_milli_def min_absorb1)
qed

text \<open>
  After any run with packets over at most \<open>2 ^ 40\<close> shards, the reported packet skew, which is the
  share of the busiest shard over the even share, lies between 1 and the number of shards, in
  thousandths, and the busiest shard is reported with the packets it really got.
\<close>

theorem packet_skew_bounds:
  assumes "route_run h (coordinator_new config) raws = Some (c, rs)"
    and "raws \<noteq> []" "length raws \<le> u64_max" "sum_list (map (length \<circ> rp_data) raws) \<le> u64_max"
    and "gc_shard_count config \<le> 2 ^ 40"
  shows "1000 \<le> ss_packet_skew_ratio_milli (metrics_snapshot (co_metrics c))
    \<and> ss_packet_skew_ratio_milli (metrics_snapshot (co_metrics c)) \<le> 1000 * max (gc_shard_count config) 1
    \<and> list_all (\<lambda>l. sl_packets l \<le> ss_busiest_shard_packets (metrics_snapshot (co_metrics c)))
        (sm_shards (co_metrics c))
    \<and> length raws \<le> ss_busiest_shard_packets (metrics_snapshot (co_metrics c)) * max (gc_shard_count config) 1"
proof -
  let ?m = "co_metrics c" and ?n = "max (gc_shard_count config) 1"
  have acc: "sm_total_packets ?m = length raws" "totals_ok ?m"
    using run_accounts[OF assms(1,3,4)] by blast+
  have len: "length (sm_shards ?m) = ?n"
    using route_run_metrics[OF coordinator_new_ok assms(1)] metrics_new_ok assms(3,4)
    by (simp add: coordinator_new_def shard_metrics_new_def topology_new_def Let_def)
  have total: "sum_list (map sl_packets (sm_shards ?m)) = length raws"
    using acc by (simp add: totals_ok_def metric_pairs_def shard_total_def)
  obtain l where l: "max_by_key sl_packets (sm_shards ?m) = Some l"
    using len by (cases "max_by_key sl_packets (sm_shards ?m)") auto
  note top = max_by_key_SomeD[OF l]
  have le: "length raws \<le> sl_packets l * ?n"
    using sum_list_le_max[of "sm_shards ?m" sl_packets "sl_packets l"] top total len by simp
  have "sl_packets l \<le> length raws"
    using member_le_sum_list[of "sl_packets l" "map sl_packets (sm_shards ?m)"] top total by simp
  moreover have "?n \<le> 2 ^ 40" using assms(5) by simp
  ultimately have "1000 \<le> skew_ratio_milli (sl_packets l) (length raws) ?n
      \<and> skew_ratio_milli (sl_packets l) (length raws) ?n \<le> 1000 * ?n"
    using skew_ratio_bounds[of "length raws" "sl_packets l" ?n] assms(2,3) le by simp
  then show ?thesis
    using top le by (simp add: metrics_snapshot_def Let_def l acc(1) len list_all_iff)
qed

subsection \<open>Witnesses\<close>

definition sample_coordinator_config :: coordinator_config where
  "sample_coordinator_config = with_max_flow_owners (coordinator_config_new 4 Analyze) 8"

text \<open>A TCP packet and the reply to it, and the hash that sends every flow to shard 2.\<close>

definition sample_tcp :: "bool \<Rightarrow> raw_packet" where
  "sample_tcp reply = \<lparr>rp_timestamp = \<lparr>ts_sec = 0, ts_usec = 0\<rparr>, rp_link_layer = RawIp, rp_linktype = 12,
     rp_data = [0x45, 0, 0, 24, 0, 0, 0, 0, 64, 6, 0, 0] @
       (if reply then [10, 0, 0, 2, 10, 0, 0, 1, 195, 80, 0, 53]
        else [10, 0, 0, 1, 10, 0, 0, 2, 0, 53, 195, 80])\<rparr>"

definition sample_flow_route :: "bool \<Rightarrow> flow_route" where
  "sample_flow_route reply = \<lparr>fr_key = \<lparr>fk_protocol = Tcp, fk_a = \<lparr>ep_addr = V4 [10, 0, 0, 1], ep_port = 53\<rparr>,
     fk_b = \<lparr>ep_addr = V4 [10, 0, 0, 2], ep_port = 50000\<rparr>\<rparr>, fr_direction = (if reply then BToA else AToB)\<rparr>"

lemma replicate_12: "(replicate 12 0 :: bytes) = [0, 0, 0, 0, 0, 0, 0, 0, 0, 0, 0, 0]"
  by (simp add: numeral_eq_Suc)

lemma sample_tcp_route: "flow_route_from_raw_result (sample_tcp reply) = Inr (sample_flow_route reply)"
  by (cases reply) (simp_all add: route_eval sample_tcp_def sample_flow_route_def flow_route_new_def replicate_12)

definition sample_hash :: "hash_input \<Rightarrow> u64w" where
  "sample_hash x = 2"

definition sample_coordinator :: shard_coordinator where
  "sample_coordinator = fst (the (route_run sample_hash (coordinator_new sample_coordinator_config)
     [sample_tcp False, sample_tcp True]))"

lemmas coordinator_eval = route_packet_def route_packet_inner_def sample_tcp_route route_flow_def
  ensure_owner_def ot_owner_def ot_remember_def ot_observe_def choose_shard_for_new_flow_def
  should_stripe_flow_def sample_hash_def Let_def coordinator_new_def sample_coordinator_config_def
  with_max_flow_owners_def coordinator_config_new_def owner_table_new_def routing_policy_default_def
  elephant_normalized_def elephant_default_def is_single_shard_def

lemma sample_topology: "st_shard_count (topology_new 4) = 4" "shard_for_hash (topology_new 4) 2 = 2"
  using topology_shard_is_remainder[of 4 2 0] by (simp_all add: topology_new_def Let_def)

lemma sample_route_run:
  "\<exists>rs. route_run sample_hash (coordinator_new sample_coordinator_config) [sample_tcp False, sample_tcp True]
      = Some (sample_coordinator, rs)"
  using route_run_total[OF coordinator_new_ok, of sample_hash sample_coordinator_config
      "[sample_tcp False, sample_tcp True]"]
  by (auto simp: sample_coordinator_def simp del: route_run.simps)

lemma sample_evictions: "ot_evictions (co_flow_owners sample_coordinator) = 0"
  unfolding sample_coordinator_def
  by (simp add: coordinator_eval sample_topology sample_flow_route_def)

lemma flow_affinity_witness:
  "\<exists>rs. route_run sample_hash (coordinator_new sample_coordinator_config) [sample_tcp False, sample_tcp True]
      = Some (sample_coordinator, rs) \<and> sr_shard (rs ! 0) = sr_shard (rs ! 1)"
proof -
  obtain rs where rs: "route_run sample_hash (coordinator_new sample_coordinator_config)
      [sample_tcp False, sample_tcp True] = Some (sample_coordinator, rs)"
    using sample_route_run by blast
  have "sr_shard (rs ! 0) = sr_shard (rs ! 1)"
    by (rule flow_affinity[OF rs sample_evictions, of 0 "sample_flow_route False" 1 "sample_flow_route True"])
      (simp_all add: sample_tcp_route, simp_all add: sample_flow_route_def)
  with rs show ?thesis by blast
qed

lemma sample_sizes:
  "length [sample_tcp False, sample_tcp True] \<le> u64_max"
  "sum_list (map (length \<circ> rp_data) [sample_tcp False, sample_tcp True]) \<le> u64_max"
  by (simp_all add: u64_max_def sample_tcp_def)

lemma load_metrics_account_witness:
  "sm_total_packets (co_metrics sample_coordinator) = 2 \<and> sm_total_bytes (co_metrics sample_coordinator) = 48"
proof -
  obtain rs where rs: "route_run sample_hash (coordinator_new sample_coordinator_config)
      [sample_tcp False, sample_tcp True] = Some (sample_coordinator, rs)"
    using sample_route_run by blast
  show ?thesis using load_metrics_account[OF rs sample_sizes] by (simp add: sample_tcp_def)
qed

lemma packet_skew_bounds_witness:
  "ss_packet_skew_ratio_milli (metrics_snapshot (co_metrics sample_coordinator)) \<in> {1000..4000}"
proof -
  obtain rs where rs: "route_run sample_hash (coordinator_new sample_coordinator_config)
      [sample_tcp False, sample_tcp True] = Some (sample_coordinator, rs)"
    using sample_route_run by blast
  have n: "gc_shard_count sample_coordinator_config = 4"
    by (simp add: sample_coordinator_config_def with_max_flow_owners_def coordinator_config_new_def)
  show ?thesis
    using packet_skew_bounds[OF rs _ sample_sizes] unfolding n by simp
qed

end
