(* ===== verification/Event.thy ===== *)
theory Event
  imports Packet Rust_Text
begin

text \<open>
  Events, from \<^verbatim>\<open>src/src/event.rs\<close>.  Their payload is a JSON value, with the constructors of
  \<^verbatim>\<open>serde_json::Value\<close>; a number is a \<^verbatim>\<open>u64\<close> or the text of any other number.  The base64 encoder of
  the crate \<^verbatim>\<open>base64\<close> is the parameter \<open>b64\<close>.
\<close>

datatype json =
    JNull
  | JBool bool
  | JU64 nat
  | JOtherNumber string
  | JString string
  | JArray "json list"
  | JObject "(string \<times> json) list"

record event =
  ev_ts_sec :: nat
  ev_ts_usec :: nat
  ev_analyzer :: string
  ev_event_type :: string
  ev_length :: nat
  ev_link_layer :: string
  ev_linktype :: int
  ev_protocol :: "transport_protocol option"
  ev_source_addr :: "ip_addr option"
  ev_destination_addr :: "ip_addr option"
  ev_source_port :: "u16 option"
  ev_destination_port :: "u16 option"
  ev_fields :: json

definition event_from_packet :: "string \<Rightarrow> string \<Rightarrow> decoded_packet \<Rightarrow> nat \<Rightarrow> json \<Rightarrow> event" where
  "event_from_packet analyzer event_type packet len payload =
     (let (source_addr, destination_addr) = ip_addresses packet;
          transport = transport_payload_of packet
      in \<lparr>ev_ts_sec = ts_sec (dp_timestamp packet), ev_ts_usec = ts_usec (dp_timestamp packet),
          ev_analyzer = analyzer, ev_event_type = event_type, ev_length = len,
          ev_link_layer = link_layer_as_str (dp_link_layer packet), ev_linktype = dp_linktype packet,
          ev_protocol = map_option tp_protocol transport,
          ev_source_addr = source_addr, ev_destination_addr = destination_addr,
          ev_source_port = Option.bind transport tp_source_port,
          ev_destination_port = Option.bind transport tp_destination_port, ev_fields = payload\<rparr>)"

definition packet_dump :: "(bytes \<Rightarrow> string) \<Rightarrow> raw_packet \<Rightarrow> event" where
  "packet_dump b64 packet = \<lparr>ev_ts_sec = ts_sec (rp_timestamp packet),
     ev_ts_usec = ts_usec (rp_timestamp packet), ev_analyzer = ''packet'', ev_event_type = ''raw_packet'',
     ev_length = length (rp_data packet), ev_link_layer = link_layer_as_str (rp_link_layer packet),
     ev_linktype = rp_linktype packet, ev_protocol = None, ev_source_addr = None,
     ev_destination_addr = None, ev_source_port = None, ev_destination_port = None,
     ev_fields = JObject [(''data_base64'', JString (b64 (rp_data packet)))]\<rparr>"

end
