(* ===== verification/Stream_Message.thy ===== *)
theory Stream_Message
  imports Event Flow_Key Rust_Str
begin

text \<open>
  The messages that the protocol parsers produce, and their identifiers, from
  \<^verbatim>\<open>src/src/stream_message.rs\<close>.  The \<^verbatim>\<open>serde\<close> derivations that turn a message into a JSON value and
  back are third-party code: \<open>to_value\<close> and \<open>from_value\<close> are parameters where they are used.
\<close>

subsection \<open>Messages\<close>

datatype message_protocol = Http1 | Dns | WebSocket | Tls

datatype message_kind = Request | Response | UnknownKind

datatype message_status = Complete | Partial | ParseError

record http1_header =
  hh_name :: string
  hh_value :: string

record http1_body_info =
  hb_framing :: string
  hb_wire_bytes :: nat
  hb_normalized_bytes :: "nat option"
  hb_chunk_count :: "nat option"
  hb_trailer_bytes :: "nat option"
  hb_transforms :: "string list"

record http1_info =
  hi_start_line :: string
  hi_method :: "string option"
  hi_target :: "string option"
  hi_version :: "string option"
  hi_status_code :: "nat option"
  hi_reason :: "string option"
  hi_headers :: "http1_header list"
  hi_headers_truncated :: bool
  hi_host :: "string option"
  hi_content_length :: "nat option"
  hi_transfer_encoding :: "string option"
  hi_content_encoding :: "string option"
  hi_body :: "http1_body_info option"

record dns_question =
  dq_name :: string
  dq_qtype :: string
  dq_qclass :: string

record dns_record =
  dr_name :: string
  dr_rr_type :: string
  dr_class :: string
  dr_ttl :: nat
  dr_data :: string

record dns_info =
  di_transaction_id :: u16
  di_opcode :: u8
  di_rcode :: u8
  di_query :: bool
  di_authoritative :: bool
  di_truncated :: bool
  di_recursion_desired :: bool
  di_recursion_available :: bool
  di_questions :: "dns_question list"
  di_answers :: "dns_record list"
  di_authorities :: "dns_record list"
  di_additionals :: "dns_record list"
  di_questions_truncated :: bool
  di_records_truncated :: bool

record ws_info =
  wi_opcode :: u8
  wi_opcode_name :: string
  wi_fin :: bool
  wi_rsv1 :: bool
  wi_rsv2 :: bool
  wi_rsv3 :: bool
  wi_masked :: bool
  wi_control :: bool
  wi_payload_bytes :: nat
  wi_header_bytes :: nat
  wi_close_code :: "u16 option"
  wi_text_preview :: "string option"

record tls_info =
  ti_content_type :: string
  ti_record_version :: string
  ti_record_len :: nat
  ti_handshake_type :: "string option"
  ti_handshake_version :: "string option"
  ti_sni :: "string option"
  ti_alpn :: "string list"
  ti_cipher_suite :: "string option"
  ti_cipher_suites :: "nat option"
  ti_extensions :: "nat option"

record stream_message =
  msg_stream_id :: u64w
  msg_stream_id_hex :: string
  msg_message_id :: u64w
  msg_protocol :: message_protocol
  msg_kind :: message_kind
  msg_status :: message_status
  msg_direction :: flow_direction
  msg_ordinal :: nat
  msg_summary :: string
  msg_logical_start :: nat
  msg_logical_end :: nat
  msg_header_start :: "nat option"
  msg_header_end :: "nat option"
  msg_body_start :: "nat option"
  msg_body_end :: "nat option"
  msg_wire_bytes :: nat
  msg_header_bytes :: nat
  msg_body_bytes :: nat
  msg_http :: "http1_info option"
  msg_dns :: "dns_info option"
  msg_websocket :: "ws_info option"
  msg_tls :: "tls_info option"
  msg_error :: "string option"

definition protocol_message_analyzer :: string where
  "protocol_message_analyzer = ''protocol_message''"

definition message_from_event :: "(json \<Rightarrow> stream_message option) \<Rightarrow> event \<Rightarrow> stream_message option" where
  "message_from_event from_value ev =
     (if ev_analyzer ev \<noteq> protocol_message_analyzer then None else from_value (ev_fields ev))"

fun event_type_of :: "message_protocol \<Rightarrow> message_kind \<Rightarrow> message_status \<Rightarrow> string" where
  "event_type_of Http1 _ ParseError = ''http1_parse_error''"
| "event_type_of Dns _ ParseError = ''dns_parse_error''"
| "event_type_of WebSocket _ ParseError = ''websocket_parse_error''"
| "event_type_of Tls _ ParseError = ''tls_parse_error''"
| "event_type_of Http1 Request _ = ''http1_request''"
| "event_type_of Http1 Response _ = ''http1_response''"
| "event_type_of Http1 UnknownKind _ = ''http1_message''"
| "event_type_of Dns Request _ = ''dns_query''"
| "event_type_of Dns Response _ = ''dns_response''"
| "event_type_of Dns UnknownKind _ = ''dns_message''"
| "event_type_of WebSocket _ _ = ''websocket_frame''"
| "event_type_of Tls _ _ = ''tls_record''"

definition message_event_type :: "stream_message \<Rightarrow> string" where
  "message_event_type m = event_type_of (msg_protocol m) (msg_kind m) (msg_status m)"

subsection \<open>Identifiers\<close>

definition splitmix64 :: "u64w \<Rightarrow> u64w" where
  "splitmix64 value =
     (let value = value + 0x9e3779b97f4a7c15;
          mixed = (value XOR drop_bit 30 value) * 0xbf58476d1ce4e5b9;
          mixed = (mixed XOR drop_bit 27 mixed) * 0x94d049bb133111eb
      in mixed XOR drop_bit 31 mixed)"

definition stable_message_id :: "u64w \<Rightarrow> flow_direction \<Rightarrow> nat \<Rightarrow> u64w" where
  "stable_message_id stream_id direction ordinal =
     (let direction_bit = (case direction of AToB \<Rightarrow> 0 | BToA \<Rightarrow> 1);
          seed = stream_id XOR push_bit 1 (of_nat ordinal + 1) XOR direction_bit
      in splitmix64 seed)"

text \<open>The mixer is a bijection: a shift-and-xor can be undone, and the two factors are odd.\<close>

lemma xorshift_inverse:
  fixes x :: u64w
  assumes "22 \<le> n" "z = x XOR drop_bit n x"
  shows "x = z XOR drop_bit n z XOR drop_bit (2 * n) z"
proof (rule bit_word_eqI)
  fix i :: nat assume i: "i < LENGTH(64)"
  have out: "\<not> bit x (n + (2 * n + i))"
    using bit_imp_le_length[of x "n + (2 * n + i)"] assms(1) by auto
  show "bit x i = bit (z XOR drop_bit n z XOR drop_bit (2 * n) z) i"
    unfolding assms(2) using out by (auto simp: bit_simps add.assoc mult_2)
qed

lemma xorshift_inj:
  fixes x y :: u64w
  assumes "22 \<le> n" "x XOR drop_bit n x = y XOR drop_bit n y"
  shows "x = y"
  by (subst xorshift_inverse[OF assms(1) refl, of x], subst xorshift_inverse[OF assms(1) refl, of y])
    (simp only: assms(2))

lemma mult_inj_inverse: "x = y" if "x * c = y * c" "c * d = 1" for x y c d :: u64w
proof -
  have "x * (c * d) = y * (c * d)" using that(1) by (simp flip: mult.assoc)
  then show ?thesis by (simp add: that(2))
qed

lemma xor_cancel_left: "s XOR x = s XOR y \<longleftrightarrow> x = y" for s x y :: u64w
proof
  assume "s XOR x = s XOR y"
  then have "s XOR (s XOR x) = s XOR (s XOR y)" by (rule arg_cong)
  then show "x = y" by (simp flip: xor.assoc)
qed simp

lemma xor_cancel_right: "x XOR s = y XOR s \<longleftrightarrow> x = y" for s x y :: u64w
  using xor_cancel_left[of s x y] by (simp add: xor.commute)

lemma splitmix64_inj: "splitmix64 x = splitmix64 y \<longleftrightarrow> x = y"
proof
  assume eq: "splitmix64 x = splitmix64 y"
  let ?a = "\<lambda>x :: u64w. x + 0x9e3779b97f4a7c15"
  let ?b = "\<lambda>x :: u64w. (x XOR drop_bit 30 x) * 0xbf58476d1ce4e5b9"
  let ?c = "\<lambda>x :: u64w. (x XOR drop_bit 27 x) * 0x94d049bb133111eb"
  have "?c (?b (?a x)) XOR drop_bit 31 (?c (?b (?a x))) = ?c (?b (?a y)) XOR drop_bit 31 (?c (?b (?a y)))"
    using eq by (simp only: splitmix64_def Let_def)
  then have "?c (?b (?a x)) = ?c (?b (?a y))" by (rule xorshift_inj[rotated]) simp
  then have "?b (?a x) XOR drop_bit 27 (?b (?a x)) = ?b (?a y) XOR drop_bit 27 (?b (?a y))"
    by (rule mult_inj_inverse[where d = "0x319642b2d24d8ec3"]) simp
  then have "?b (?a x) = ?b (?a y)" by (rule xorshift_inj[rotated]) simp
  then have "?a x XOR drop_bit 30 (?a x) = ?a y XOR drop_bit 30 (?a y)"
    by (rule mult_inj_inverse[where d = "0x96de1b173f119089"]) simp
  then have "?a x = ?a y" by (rule xorshift_inj[rotated]) simp
  then show "x = y" by simp
qed simp

lemma message_seed_inj:
  fixes s :: u64w
  assumes "m < 2 ^ 63 - 1" "n < 2 ^ 63 - 1"
    and "s XOR push_bit 1 (of_nat m + 1) XOR of_bool a = s XOR push_bit 1 (of_nat n + 1) XOR of_bool b"
  shows "m = n \<and> a = b"
proof -
  have eq: "push_bit 1 (of_nat m + 1) XOR (of_bool a :: u64w) = push_bit 1 (of_nat n + 1) XOR of_bool b"
    using assms(3) by (simp only: xor.assoc xor_cancel_left)
  have low: "bit (push_bit 1 x XOR (of_bool c :: u64w)) 0 \<longleftrightarrow> c" for x c
    by (simp only: bit_xor_iff bit_push_bit_iff) (cases c; simp)
  have ab: "a = b"
    using low[of "of_nat m + 1" a] low[of "of_nat n + 1" b] unfolding eq by simp
  then have "push_bit 1 (of_nat m + 1 :: u64w) = push_bit 1 (of_nat n + 1)"
    using eq by (simp only: xor_cancel_right)
  then have "(of_nat (2 * (m + 1)) :: u64w) = of_nat (2 * (n + 1))"
    by (simp add: push_bit_eq_mult mult.commute)
  moreover have "2 * (m + 1) < 2 ^ 64" "2 * (n + 1) < 2 ^ 64" using assms(1,2) by simp_all
  ultimately have "2 * (m + 1) = 2 * (n + 1)"
    using of_nat_inverse[of "2 * (m + 1)" "of_nat (2 * (n + 1)) :: u64w"]
      of_nat_inverse[of "2 * (n + 1)" "of_nat (2 * (n + 1)) :: u64w"] by simp
  with ab show ?thesis by simp
qed

text \<open>
  Within a stream a message identifier names one message: two identifiers are equal only for the
  same direction and the same ordinal (ordinals below \<open>2 ^ 63 - 1\<close>).
\<close>

theorem message_ids_unique:
  assumes "m < 2 ^ 63 - 1" "n < 2 ^ 63 - 1"
  shows "stable_message_id s d m = stable_message_id s e n \<longleftrightarrow> d = e \<and> m = n"
proof -
  have id: "stable_message_id s d m = splitmix64 (s XOR push_bit 1 (of_nat m + 1) XOR of_bool (d = BToA))"
    for d m by (cases d) (simp_all add: stable_message_id_def Let_def)
  have dir: "(d = BToA) = (e = BToA) \<longleftrightarrow> d = e" by (cases d; cases e) simp_all
  show ?thesis
    unfolding id splitmix64_inj using message_seed_inj[OF assms, of s "d = BToA" "e = BToA"] dir by metis
qed

lemma message_ids_unique_witness: "stable_message_id 7 AToB 0 \<noteq> stable_message_id 7 BToA 0"
  using message_ids_unique[of 0 0 7 AToB BToA] by simp

end
