(* ===== verification/Message_Store.thy ===== *)
theory Message_Store
  imports Stream_Message Registry
begin

text \<open>
  The message store, from \<^verbatim>\<open>src/src/stream_message.rs\<close>: the last messages of each stream, with
  first-in-first-out eviction of streams and paged queries.  The panic of \<^verbatim>\<open>expect\<close> in \<^verbatim>\<open>insert\<close> is
  \<open>None\<close>.
\<close>

subsection \<open>The store\<close>

record message_store_config =
  xc_max_streams :: nat
  xc_max_messages :: nat
  xc_max_query_limit :: nat

definition message_store_config_default :: message_store_config where
  "message_store_config_default = \<lparr>xc_max_streams = 65536, xc_max_messages = 2048, xc_max_query_limit = 512\<rparr>"

record message_stats =
  xs_active_streams :: nat
  xs_stored :: nat
  xs_dropped :: nat
  xs_observed :: nat
  xs_http1 :: nat
  xs_dns :: nat
  xs_websocket :: nat
  xs_tls :: nat
  xs_parse_errors :: nat

definition message_stats_default :: message_stats where
  "message_stats_default = \<lparr>xs_active_streams = 0, xs_stored = 0, xs_dropped = 0, xs_observed = 0,
     xs_http1 = 0, xs_dns = 0, xs_websocket = 0, xs_tls = 0, xs_parse_errors = 0\<rparr>"

record message_store =
  xm_config :: message_store_config
  xm_streams :: "(u64w \<times> stream_message list) list"
  xm_order :: "u64w list"
  xm_stats :: message_stats

definition message_store_new :: "message_store_config \<Rightarrow> message_store" where
  "message_store_new config = \<lparr>xm_config = \<lparr>xc_max_streams = max (xc_max_streams config) 1,
       xc_max_messages = max (xc_max_messages config) 1,
       xc_max_query_limit = max (xc_max_query_limit config) 1\<rparr>,
     xm_streams = [], xm_order = [], xm_stats = message_stats_default\<rparr>"

definition xm_refresh_counts :: "message_store \<Rightarrow> message_store" where
  "xm_refresh_counts st = st\<lparr>xm_stats := (xm_stats st)\<lparr>xs_active_streams := length (xm_streams st),
     xs_stored := tbl_sum length (xm_streams st)\<rparr>\<rparr>"

definition count_dropped_messages :: "stream_message list option \<Rightarrow> nat \<Rightarrow> nat" where
  "count_dropped_messages v e = (case v of None \<Rightarrow> e | Some messages \<Rightarrow> sat_add e (length messages))"

definition xm_ensure_stream :: "message_store \<Rightarrow> u64w \<Rightarrow> message_store" where
  "xm_ensure_stream st stream_id =
     (if map_of (xm_streams st) stream_id \<noteq> None then st
      else (case fifo_evict count_dropped_messages (xc_max_streams (xm_config st)) (xm_streams st)
              (xm_order st) (xs_dropped (xm_stats st)) of
        (streams, order, dropped) \<Rightarrow>
          xm_refresh_counts (st\<lparr>xm_streams := AList.update stream_id [] streams,
            xm_order := order @ [stream_id], xm_stats := (xm_stats st)\<lparr>xs_dropped := dropped\<rparr>\<rparr>)))"

text \<open>The loop that drops the oldest messages of a stream.\<close>

fun pop_messages :: "nat \<Rightarrow> stream_message list \<Rightarrow> nat \<Rightarrow> stream_message list \<times> nat" where
  "pop_messages mx [] dropped = ([], dropped)"
| "pop_messages mx (m # ms) dropped =
     (if length (m # ms) > mx then pop_messages mx ms (sat_add dropped 1) else (m # ms, dropped))"

definition count_message :: "message_stats \<Rightarrow> stream_message \<Rightarrow> message_stats" where
  "count_message s m =
     (let s1 = s\<lparr>xs_observed := sat_add (xs_observed s) 1\<rparr>;
          s2 = (if msg_protocol m = Http1 then s1\<lparr>xs_http1 := sat_add (xs_http1 s1) 1\<rparr> else s1);
          s3 = (if msg_protocol m = Dns then s2\<lparr>xs_dns := sat_add (xs_dns s2) 1\<rparr> else s2);
          s4 = (if msg_protocol m = WebSocket then s3\<lparr>xs_websocket := sat_add (xs_websocket s3) 1\<rparr> else s3);
          s5 = (if msg_protocol m = Tls then s4\<lparr>xs_tls := sat_add (xs_tls s4) 1\<rparr> else s4)
      in if msg_status m = ParseError then s5\<lparr>xs_parse_errors := sat_add (xs_parse_errors s5) 1\<rparr> else s5)"

definition xm_insert :: "message_store \<Rightarrow> stream_message \<Rightarrow> message_store option" where
  "xm_insert st0 m =
     (let st = xm_ensure_stream st0 (msg_stream_id m) in
      case map_of (xm_streams st) (msg_stream_id m) of
        None \<Rightarrow> None
      | Some stream \<Rightarrow>
          (let stats = count_message (xm_stats st) m;
               (kept, dropped) = pop_messages (xc_max_messages (xm_config st)) (stream @ [m]) (xs_dropped stats)
           in Some (xm_refresh_counts (st\<lparr>xm_streams := AList.update (msg_stream_id m) kept (xm_streams st),
                xm_stats := stats\<lparr>xs_dropped := dropped\<rparr>\<rparr>))))"

fun xm_observe_events :: "(json \<Rightarrow> stream_message option) \<Rightarrow> message_store \<Rightarrow> event list \<Rightarrow> message_store option" where
  "xm_observe_events from_value st [] = Some st"
| "xm_observe_events from_value st (ev # evs) = (case message_from_event from_value ev of
     None \<Rightarrow> xm_observe_events from_value st evs
   | Some m \<Rightarrow> (case xm_insert st m of None \<Rightarrow> None
       | Some st1 \<Rightarrow> xm_observe_events from_value st1 evs))"

subsection \<open>Queries\<close>

record message_query =
  mq_cursor :: nat
  mq_limit :: nat
  mq_direction :: "flow_direction option"
  mq_protocol :: "message_protocol option"
  mq_kind :: "message_kind option"
  mq_status :: "message_status option"

definition message_query_default :: message_query where
  "message_query_default = \<lparr>mq_cursor = 0, mq_limit = 128, mq_direction = None, mq_protocol = None,
     mq_kind = None, mq_status = None\<rparr>"

record message_query_result =
  mr_stream_id :: u64w
  mr_stream_id_hex :: string
  mr_cursor :: nat
  mr_next_cursor :: nat
  mr_total :: nat
  mr_messages :: "stream_message list"

definition none_or :: "'a option \<Rightarrow> 'a \<Rightarrow> bool" where
  "none_or o' x \<longleftrightarrow> (case o' of None \<Rightarrow> True | Some y \<Rightarrow> y = x)"

definition query_matches :: "message_query \<Rightarrow> stream_message \<Rightarrow> bool" where
  "query_matches q m \<longleftrightarrow> none_or (mq_direction q) (msg_direction m)
     \<and> none_or (mq_protocol q) (msg_protocol m) \<and> none_or (mq_kind q) (msg_kind m)
     \<and> none_or (mq_status q) (msg_status m)"

definition xm_query :: "message_store \<Rightarrow> u64w \<Rightarrow> message_query \<Rightarrow> message_query_result" where
  "xm_query st stream_id q =
     (let limit = min (max (mq_limit q) 1) (xc_max_query_limit (xm_config st)) in
      case map_of (xm_streams st) stream_id of
        None \<Rightarrow> \<lparr>mr_stream_id = stream_id, mr_stream_id_hex = hex_fixed 16 (unat stream_id),
          mr_cursor = mq_cursor q, mr_next_cursor = mq_cursor q, mr_total = 0, mr_messages = []\<rparr>
      | Some messages \<Rightarrow>
          (let filtered = filter (query_matches q) messages;
               whole = length filtered;
               page = take limit (drop (mq_cursor q) filtered)
           in \<lparr>mr_stream_id = stream_id, mr_stream_id_hex = hex_fixed 16 (unat stream_id),
               mr_cursor = mq_cursor q,
               mr_next_cursor = min (sat_add (mq_cursor q) (length page)) whole,
               mr_total = whole, mr_messages = page\<rparr>))"

subsection \<open>Insertion keeps the store in order\<close>

definition xm_ok :: "message_store \<Rightarrow> bool" where
  "xm_ok st \<longleftrightarrow> fifo_ok (xm_streams st) (xm_order st) \<and> 0 < xc_max_streams (xm_config st)
     \<and> 0 < xc_max_messages (xm_config st) \<and> length (xm_streams st) \<le> xc_max_streams (xm_config st)
     \<and> (\<forall>(k, ms) \<in> set (xm_streams st). length ms \<le> xc_max_messages (xm_config st))
     \<and> xs_active_streams (xm_stats st) = length (xm_streams st)
     \<and> xs_stored (xm_stats st) = tbl_sum length (xm_streams st)"

text \<open>Every kept message has been observed, and every observed one is kept or counted as dropped.\<close>

definition xm_balanced :: "message_store \<Rightarrow> bool" where
  "xm_balanced st \<longleftrightarrow> xs_observed (xm_stats st) = xs_dropped (xm_stats st) + tbl_sum length (xm_streams st)
     \<and> xs_http1 (xm_stats st) + xs_dns (xm_stats st) + xs_websocket (xm_stats st) + xs_tls (xm_stats st)
       = xs_observed (xm_stats st)
     \<and> xs_parse_errors (xm_stats st) \<le> xs_observed (xm_stats st)"

text \<open>The store holds, for each of its streams, the end of what was inserted for it.\<close>

definition xm_suffix :: "stream_message list \<Rightarrow> message_store \<Rightarrow> bool" where
  "xm_suffix hist st \<longleftrightarrow> (\<forall>(k, ms) \<in> set (xm_streams st).
     \<exists>n. ms = drop n (filter (\<lambda>m. msg_stream_id m = k) hist))"

lemma pop_messages_spec:
  "pop_messages mx ms d = (kept, d') \<Longrightarrow> d + length ms \<le> u64_max \<Longrightarrow>
    kept = drop (length ms - mx) ms \<and> d' = d + (length ms - mx)"
proof (induction mx ms d rule: pop_messages.induct)
  case (2 mx m ms d)
  show ?case
  proof (cases "length (m # ms) > mx")
    case True
    then have "sat_add d 1 = d + 1" using "2.prems"(2) by (simp add: sat_add_exact)
    then show ?thesis using "2.IH"[OF True] "2.prems" True by (auto simp: Suc_diff_le)
  qed (use "2.prems" in auto)
qed simp

lemma pop_messages_kept: "fst (pop_messages mx ms d) = drop (length ms - mx) ms"
  by (induction mx ms d rule: pop_messages.induct) (auto simp: Suc_diff_le)

lemma fifo_evict_dropped:
  "tbl_ok m \<Longrightarrow> e + tbl_sum length m \<le> u64_max \<Longrightarrow>
    fifo_evict count_dropped_messages mx m q e = (m', q', e') \<Longrightarrow> e' + tbl_sum length m' = e + tbl_sum length m"
proof (induction "count_dropped_messages" mx m q e rule: fifo_evict.induct)
  case (2 mx m k q e)
  show ?case
  proof (cases "length m < mx")
    case False
    have ev: "fifo_evict count_dropped_messages mx (AList.delete k m) q (count_dropped_messages (map_of m k) e) = (m', q', e')"
      using "2.prems"(3) False by simp
    have sum: "count_dropped_messages (map_of m k) e + tbl_sum length (AList.delete k m) = e + tbl_sum length m"
    proof (cases "map_of m k")
      case None
      then have "AList.delete k m = m" using delete_id[of k m] tbl_None_iff[of m k] by blast
      then show ?thesis using None by (simp add: count_dropped_messages_def)
    next
      case (Some v)
      then show ?thesis
        using tbl_sum_delete[OF "2.prems"(1) Some, of length] "2.prems"(2)
        by (simp add: count_dropped_messages_def sat_add_exact)
    qed
    then have "count_dropped_messages (map_of m k) e + tbl_sum length (AList.delete k m) \<le> u64_max"
      using "2.prems"(2) by simp
    from "2.hyps"[OF False _ this ev] "2.prems"(1) sum show ?thesis by simp
  qed (use "2.prems" in auto)
qed simp

lemma tbl_sum_update_nil: "map_of m k = None \<Longrightarrow> tbl_sum length (AList.update k [] m) = tbl_sum length m"
  by (simp add: tbl_sum_update_fresh)

text \<open>Making room for a stream keeps the rest of the store.\<close>

lemma xm_ensure_stream_spec:
  fixes st :: message_store and k :: u64w
  assumes "xm_ok st"
  defines "st' \<equiv> xm_ensure_stream st k"
  shows "xm_ok st'" "xm_config st' = xm_config st"
    and "xm_suffix hist st \<Longrightarrow> xm_suffix hist st'"
    and "xm_balanced st \<Longrightarrow> xs_observed (xm_stats st) \<le> u64_max \<Longrightarrow>
      xm_balanced st' \<and> xs_observed (xm_stats st') = xs_observed (xm_stats st)"
    and "\<exists>ms. map_of (xm_streams st') k = Some ms"
    and "fst ` set (xm_streams st') \<subseteq> insert k (fst ` set (xm_streams st))"
proof -
  have main: "xm_ok st' \<and> xm_config st' = xm_config st
    \<and> (xm_suffix hist st \<longrightarrow> xm_suffix hist st')
    \<and> (xm_balanced st \<longrightarrow> xs_observed (xm_stats st) \<le> u64_max \<longrightarrow>
        xm_balanced st' \<and> xs_observed (xm_stats st') = xs_observed (xm_stats st))
    \<and> (\<exists>ms. map_of (xm_streams st') k = Some ms)
    \<and> fst ` set (xm_streams st') \<subseteq> insert k (fst ` set (xm_streams st))"
  proof (cases "map_of (xm_streams st) k")
    case (Some ms)
    then have "st' = st" by (simp add: st'_def xm_ensure_stream_def)
    then show ?thesis
      using assms(1) Some by auto
  next
    case None
    obtain m q d where e: "fifo_evict count_dropped_messages (xc_max_streams (xm_config st))
        (xm_streams st) (xm_order st) (xs_dropped (xm_stats st)) = (m, q, d)"
      by (metis prod_cases3)
    have st': "st' = xm_refresh_counts (st\<lparr>xm_streams := AList.update k [] m, xm_order := q @ [k],
        xm_stats := (xm_stats st)\<lparr>xs_dropped := d\<rparr>\<rparr>)"
      using None e by (simp add: st'_def xm_ensure_stream_def)
    have ok: "fifo_ok m q" "length m < xc_max_streams (xm_config st)"
      using fifo_evict_ok[OF _ e] fifo_evict_room[OF _ _ e] assms(1) by (auto simp: xm_ok_def)
    have sub: "set m \<subseteq> set (xm_streams st)" by (rule fifo_evict_set[OF e])
    have fresh: "map_of m k = None"
      using None sub by (auto simp: tbl_None_iff)
    have lens: "\<forall>(j, ms) \<in> set (AList.update k [] m). length ms \<le> xc_max_messages (xm_config st)"
      by (rule tbl_update_all) (use assms(1) sub in \<open>auto simp: xm_ok_def\<close>)
    have suf: "\<forall>(j, ms) \<in> set (AList.update k [] m). \<exists>n. ms = drop n (filter (\<lambda>m. msg_stream_id m = j) hist)"
      if "xm_suffix hist st"
    proof (rule tbl_update_all)
      show "\<forall>(j, ms) \<in> set m. \<exists>n. ms = drop n (filter (\<lambda>m. msg_stream_id m = j) hist)"
        using that sub unfolding xm_suffix_def by blast
      show "\<exists>n. [] = drop n (filter (\<lambda>m. msg_stream_id m = k) hist)"
        by (rule exI[of _ "length (filter (\<lambda>m. msg_stream_id m = k) hist)"]) simp
    qed
    have bal: "d + tbl_sum length m = xs_dropped (xm_stats st) + tbl_sum length (xm_streams st)"
      if "xm_balanced st" "xs_observed (xm_stats st) \<le> u64_max"
      using fifo_evict_dropped[OF _ _ e] assms(1) that
      by (simp add: xm_ok_def xm_balanced_def fifo_ok_def)
    have keys: "fst ` set (AList.update k [] m) \<subseteq> insert k (fst ` set (xm_streams st))"
      using sub by (auto simp: dom_update)
    have suf': "xm_suffix hist st'" if "xm_suffix hist st"
      using suf[OF that] unfolding st' xm_refresh_counts_def by (simp add: xm_suffix_def)
    have "xm_ok st' \<and> xm_config st' = xm_config st
      \<and> (xm_balanced st \<longrightarrow> xs_observed (xm_stats st) \<le> u64_max \<longrightarrow>
          xm_balanced st' \<and> xs_observed (xm_stats st') = xs_observed (xm_stats st))
      \<and> (\<exists>ms. map_of (xm_streams st') k = Some ms)
      \<and> fst ` set (xm_streams st') \<subseteq> insert k (fst ` set (xm_streams st))"
      unfolding st' xm_ok_def xm_refresh_counts_def
      using assms(1) fifo_ok_insert[OF ok(1) fresh] length_update_fresh[OF fresh, of "[]"] ok(2) lens bal keys
      by (auto simp: xm_ok_def xm_balanced_def tbl_sum_update_nil[OF fresh] update_conv')
    with suf' show ?thesis by blast
  qed
  then show "xm_ok st'" "xm_config st' = xm_config st"
    "xm_suffix hist st \<Longrightarrow> xm_suffix hist st'"
    "xm_balanced st \<Longrightarrow> xs_observed (xm_stats st) \<le> u64_max \<Longrightarrow>
      xm_balanced st' \<and> xs_observed (xm_stats st') = xs_observed (xm_stats st)"
    "\<exists>ms. map_of (xm_streams st') k = Some ms"
    "fst ` set (xm_streams st') \<subseteq> insert k (fst ` set (xm_streams st))"
    by blast+
qed

lemma in_tbl_update:
  assumes "tbl_ok m" "(j, v) \<in> set (AList.update k w m)"
  shows "if j = k then v = w else (j, v) \<in> set m"
proof -
  have "map_of (AList.update k w m) j = Some v"
    using assms tbl_map_of_iff[of "AList.update k w m" j v] by simp
  then show ?thesis
    using tbl_map_of_iff[OF assms(1), of j v] by (auto simp: update_conv')
qed

lemma count_message_frame [simp]:
  "xs_dropped (count_message s m) = xs_dropped s"
  by (simp add: count_message_def Let_def)

lemma count_message_observed:
  assumes "xs_http1 s + xs_dns s + xs_websocket s + xs_tls s = xs_observed s"
    "xs_parse_errors s \<le> xs_observed s" "xs_observed s < u64_max"
  shows "xs_observed (count_message s m) = xs_observed s + 1
    \<and> xs_http1 (count_message s m) + xs_dns (count_message s m) + xs_websocket (count_message s m)
        + xs_tls (count_message s m) = xs_observed s + 1
    \<and> xs_parse_errors (count_message s m) \<le> xs_observed s + 1"
  using assms by (cases "msg_protocol m") (simp_all add: count_message_def Let_def sat_add_def)

lemma xm_insert_spec:
  assumes "xm_ok st"
  obtains st' where "xm_insert st m = Some st'" "xm_ok st'" "xm_config st' = xm_config st"
    "xm_suffix hist st \<Longrightarrow> xm_suffix (hist @ [m]) st'"
    "xm_balanced st \<Longrightarrow> xs_observed (xm_stats st) < u64_max \<Longrightarrow>
      xm_balanced st' \<and> xs_observed (xm_stats st') = xs_observed (xm_stats st) + 1"
    "\<exists>ms. map_of (xm_streams st') (msg_stream_id m) = Some ms \<and> ms \<noteq> [] \<and> last ms = m"
    "fst ` set (xm_streams st') \<subseteq> insert (msg_stream_id m) (fst ` set (xm_streams st))"
proof -
  let ?k = "msg_stream_id m"
  let ?e = "xm_ensure_stream st ?k"
  let ?mx = "xc_max_messages (xm_config ?e)"
  note e = xm_ensure_stream_spec[OF assms, where k = ?k]
  obtain ms where ms: "map_of (xm_streams ?e) ?k = Some ms" using e(5) by blast
  let ?c = "count_message (xm_stats ?e) m"
  obtain kept d where p: "pop_messages ?mx (ms @ [m]) (xs_dropped ?c) = (kept, d)" by fastforce
  have kept: "kept = drop (length (ms @ [m]) - ?mx) (ms @ [m])"
    using pop_messages_kept[of ?mx "ms @ [m]" "xs_dropped ?c"] p by simp
  let ?st = "xm_refresh_counts (?e\<lparr>xm_streams := AList.update ?k kept (xm_streams ?e),
    xm_stats := ?c\<lparr>xs_dropped := d\<rparr>\<rparr>)"
  have pos: "0 < ?mx" using e(1) by (simp add: xm_ok_def)
  have mem: "(?k, ms) \<in> set (xm_streams ?e)" using ms by (rule map_of_SomeD)
  have order: "?k \<in> set (xm_order ?e)"
    using e(1) mem by (force simp: xm_ok_def fifo_ok_def)
  have lens: "\<forall>(j, ms) \<in> set (AList.update ?k kept (xm_streams ?e)). length ms \<le> ?mx"
    by (rule tbl_update_all) (use e(1) kept in \<open>auto simp: xm_ok_def\<close>)
  have last_m: "kept \<noteq> [] \<and> last kept = m" using pos unfolding kept by (auto simp: last_drop)
  show ?thesis
  proof (rule that)
    show "xm_insert st m = Some ?st"
      unfolding xm_insert_def Let_def ms option.case p prod.case by (rule refl)
    show "xm_ok ?st"
      using e(1) fifo_ok_update[OF _ order, of "xm_streams ?e" kept] lens
        length_update_present[of "xm_streams ?e" ?k kept] ms
      by (simp add: xm_ok_def xm_refresh_counts_def)
    show "xm_config ?st = xm_config st" using e(2) by (simp add: xm_refresh_counts_def)
    show "\<exists>ms. map_of (xm_streams ?st) ?k = Some ms \<and> ms \<noteq> [] \<and> last ms = m"
      using last_m by (simp add: xm_refresh_counts_def update_conv')
    show "fst ` set (xm_streams ?st) \<subseteq> insert ?k (fst ` set (xm_streams st))"
      using e(6) by (auto simp: xm_refresh_counts_def dom_update)
    show "xm_suffix (hist @ [m]) ?st" if "xm_suffix hist st"
    proof -
      have old: "xm_suffix hist ?e" by (rule e(3)[OF that])
      have "\<exists>n. ms = drop n (filter (\<lambda>x. msg_stream_id x = ?k) hist)"
        using old mem unfolding xm_suffix_def by blast
      then obtain n where n: "ms = drop n (filter (\<lambda>x. msg_stream_id x = ?k) hist)" by blast
      let ?h = "filter (\<lambda>x. msg_stream_id x = ?k) hist"
      have "ms @ [m] = drop (min n (length ?h)) (?h @ [m])" using n by (simp add: min_def)
      note ms_h = this
      have here: "\<exists>n. kept = drop n (filter (\<lambda>x. msg_stream_id x = ?k) (hist @ [m]))"
      proof -
        have "kept = drop (length (ms @ [m]) - ?mx) (drop (min n (length ?h)) (?h @ [m]))"
          unfolding ms_h[symmetric] by (rule kept)
        then have "kept = drop (length (ms @ [m]) - ?mx + min n (length ?h)) (?h @ [m])"
          by (simp only: drop_drop)
        then show ?thesis by (auto intro: exI)
      qed
      have other: "\<forall>(j, v) \<in> set (AList.update ?k kept (xm_streams ?e)).
          if j = ?k then v = kept else (j, v) \<in> set (xm_streams ?e)"
        using in_tbl_update[of "xm_streams ?e"] e(1) unfolding xm_ok_def fifo_ok_def by blast
      have "\<exists>n. v = drop n (filter (\<lambda>x. msg_stream_id x = j) (hist @ [m]))"
        if "(j, v) \<in> set (AList.update ?k kept (xm_streams ?e))" for j v
      proof (cases "j = ?k")
        case True
        then show ?thesis using here other that by fastforce
      next
        case False
        then have "(j, v) \<in> set (xm_streams ?e)" using other that by fastforce
        then show ?thesis using old False unfolding xm_suffix_def by fastforce
      qed
      moreover have "xm_streams ?st = AList.update ?k kept (xm_streams ?e)"
        by (simp add: xm_refresh_counts_def)
      ultimately show ?thesis unfolding xm_suffix_def by auto
    qed
    show "xm_balanced ?st \<and> xs_observed (xm_stats ?st) = xs_observed (xm_stats st) + 1"
      if "xm_balanced st" "xs_observed (xm_stats st) < u64_max"
    proof -
      have b: "xm_balanced ?e" "xs_observed (xm_stats ?e) = xs_observed (xm_stats st)"
        using e(4) that by simp_all
      have c: "xs_observed ?c = xs_observed (xm_stats ?e) + 1"
        "xs_http1 ?c + xs_dns ?c + xs_websocket ?c + xs_tls ?c = xs_observed (xm_stats ?e) + 1"
        "xs_parse_errors ?c \<le> xs_observed (xm_stats ?e) + 1"
        using count_message_observed[of "xm_stats ?e" m] b that(2) by (simp_all add: xm_balanced_def)
      have "length ms \<le> tbl_sum length (xm_streams ?e)"
        by (rule tbl_sum_ge[OF ms])
      then have "xs_dropped ?c + length (ms @ [m]) \<le> u64_max"
        using b that(2) by (simp add: xm_balanced_def)
      from pop_messages_spec[OF p this]
      have "d + length kept = xs_dropped (xm_stats ?e) + length ms + 1" by simp
      moreover have "tbl_sum length (AList.update ?k kept (xm_streams ?e)) + length ms
          = tbl_sum length (xm_streams ?e) + length kept"
        using tbl_sum_update_present[OF _ ms, of length kept] e(1) by (simp add: xm_ok_def fifo_ok_def)
      ultimately have "d + tbl_sum length (AList.update ?k kept (xm_streams ?e))
          = xs_dropped (xm_stats ?e) + tbl_sum length (xm_streams ?e) + 1"
        by linarith
      then show ?thesis
        using b c by (simp add: xm_balanced_def xm_refresh_counts_def)
    qed
  qed
qed

subsection \<open>The store as a bounded registry\<close>

definition xm_step :: "stream_message \<Rightarrow> message_store \<Rightarrow> message_store" where
  "xm_step m st = the (xm_insert st m)"

definition xm_keys :: "message_store \<Rightarrow> u64w set" where
  "xm_keys st = fst ` set (xm_streams st)"

lemma xm_step_spec:
  assumes "xm_ok st"
  shows "xm_ok (xm_step m st)" "xm_config (xm_step m st) = xm_config st"
    "xm_keys (xm_step m st) \<subseteq> insert (msg_stream_id m) (xm_keys st)"
    "msg_stream_id m \<in> xm_keys (xm_step m st)"
    "xm_suffix hist st \<Longrightarrow> xm_suffix (hist @ [m]) (xm_step m st)"
proof -
  obtain st' where s: "xm_insert st m = Some st'" "xm_ok st'" "xm_config st' = xm_config st"
    "xm_suffix hist st \<Longrightarrow> xm_suffix (hist @ [m]) st'"
    "\<exists>ms. map_of (xm_streams st') (msg_stream_id m) = Some ms \<and> ms \<noteq> [] \<and> last ms = m"
    "fst ` set (xm_streams st') \<subseteq> insert (msg_stream_id m) (fst ` set (xm_streams st))"
    by (rule xm_insert_spec[OF assms, of m hist]) (rule that; assumption)
  have step: "xm_step m st = st'" by (simp add: xm_step_def s(1))
  show "xm_ok (xm_step m st)" "xm_config (xm_step m st) = xm_config st"
    "xm_suffix hist st \<Longrightarrow> xm_suffix (hist @ [m]) (xm_step m st)"
    "xm_keys (xm_step m st) \<subseteq> insert (msg_stream_id m) (xm_keys st)"
    unfolding step xm_keys_def by (fact s)+
  show "msg_stream_id m \<in> xm_keys (xm_step m st)"
    unfolding step xm_keys_def using s(5) map_of_SomeD by force
qed

lemma xm_insert_step: "xm_ok st \<Longrightarrow> xm_insert st m = Some (xm_step m st)"
  by (rule xm_insert_spec[of st m "[]"]) (simp_all add: xm_step_def)

lemma xm_keys_card: "xm_ok st \<Longrightarrow> finite (xm_keys st) \<and> card (xm_keys st) \<le> xc_max_streams (xm_config st)"
  unfolding xm_keys_def xm_ok_def
  by (metis card_length finite_imageI finite_set length_map list.set_map order_trans)

interpretation messages: bounded_registry xm_step xm_keys "\<lambda>m. Some (msg_stream_id m)" xm_ok
  "\<lambda>st. xc_max_streams (xm_config st)"
  by unfold_locales (auto simp: xm_step_spec xm_keys_card dest: subsetD[OF xm_step_spec(3)])

lemma xm_observe_events_fold:
  "xm_ok st \<Longrightarrow> xm_observe_events from_value st evs
    = Some (fold xm_step (List.map_filter (message_from_event from_value) evs) st)"
  by (induction evs arbitrary: st)
    (auto simp: List.map_filter_simps xm_insert_step xm_step_spec(1) split: option.splits)

lemma message_store_new_ok: "xm_ok (message_store_new config)"
  by (simp add: xm_ok_def message_store_new_def message_stats_default_def tbl_sum_def less_max_iff_disj)

lemma xm_run_suffix:
  "xm_ok st \<Longrightarrow> xm_suffix hist st \<Longrightarrow> xm_suffix (hist @ ms) (fold xm_step ms st)"
proof (induction ms arbitrary: hist st)
  case (Cons m ms)
  show ?case
    using Cons.IH[OF xm_step_spec(1)[OF Cons.prems(1)] xm_step_spec(5)[OF Cons.prems]] by simp
qed simp

lemma xm_run_balanced:
  assumes "xm_ok st" "xm_balanced st" "xs_observed (xm_stats st) + length ms \<le> u64_max"
  shows "xm_balanced (fold xm_step ms st)
    \<and> xs_observed (xm_stats (fold xm_step ms st)) = xs_observed (xm_stats st) + length ms"
  using assms
proof (induction ms arbitrary: st)
  case (Cons m ms)
  obtain st' where s: "xm_insert st m = Some st'"
    "xm_balanced st \<Longrightarrow> xs_observed (xm_stats st) < u64_max \<Longrightarrow>
      xm_balanced st' \<and> xs_observed (xm_stats st') = xs_observed (xm_stats st) + 1"
    by (rule xm_insert_spec[OF Cons.prems(1), of m "[]"]) (rule that; assumption)
  have step: "xm_step m st = st'" by (simp add: xm_step_def s(1))
  have b: "xm_balanced (xm_step m st)" "xs_observed (xm_stats (xm_step m st)) = xs_observed (xm_stats st) + 1"
    using s(2) Cons.prems(2,3) step by simp_all
  have "xs_observed (xm_stats (xm_step m st)) + length ms \<le> u64_max" using b(2) Cons.prems(3) by simp
  from Cons.IH[OF xm_step_spec(1)[OF Cons.prems(1)] b(1) this] show ?case using b(2) by simp
qed simp

text \<open>
  C14. Observing events never panics and keeps the store within its limits: at most \<open>max_streams\<close>
  streams of at most \<open>max_messages_per_stream\<close> messages (both at least one), with the counts of
  streams and of stored messages exact.
\<close>

theorem message_store_bounded:
  "\<exists>st. xm_observe_events from_value (message_store_new config) evs = Some st
    \<and> length (xm_streams st) \<le> max (xc_max_streams config) 1
    \<and> list_all (\<lambda>(k, ms). length ms \<le> max (xc_max_messages config) 1) (xm_streams st)
    \<and> xs_active_streams (xm_stats st) = length (xm_streams st)
    \<and> xs_stored (xm_stats st) = tbl_sum length (xm_streams st)"
proof -
  let ?st = "fold xm_step (List.map_filter (message_from_event from_value) evs) (message_store_new config)"
  have ok: "xm_ok ?st" by (rule messages.run_inv[OF message_store_new_ok])
  have "xm_config (fold xm_step ms st) = xm_config st" if "xm_ok st" for ms st
    using that
  proof (induction ms arbitrary: st)
    case (Cons m ms)
    then show ?case using xm_step_spec(1,2)[OF Cons.prems, of m] by simp
  qed simp
  then have "xm_config ?st = xm_config (message_store_new config)" using message_store_new_ok by blast
  then have "xc_max_streams (xm_config ?st) = max (xc_max_streams config) 1"
    "xc_max_messages (xm_config ?st) = max (xc_max_messages config) 1"
    by (simp_all add: message_store_new_def)
  with ok xm_observe_events_fold[OF message_store_new_ok] show ?thesis
    by (auto simp: xm_ok_def list_all_iff)
qed


subsection \<open>Paging\<close>

text \<open>A client that follows \<^verbatim>\<open>next_cursor\<close> for \<open>n\<close> pages.\<close>

primrec follow_pages :: "nat \<Rightarrow> message_store \<Rightarrow> u64w \<Rightarrow> message_query \<Rightarrow> stream_message list" where
  "follow_pages 0 st k q = []"
| "follow_pages (Suc n) st k q = mr_messages (xm_query st k q)
     @ follow_pages n st k (q\<lparr>mq_cursor := mr_next_cursor (xm_query st k q)\<rparr>)"

lemma query_matches_cursor [simp]: "query_matches (q\<lparr>mq_cursor := c\<rparr>) = query_matches q"
  by (simp add: query_matches_def fun_eq_iff)

lemma take_drop_length: "take l ys @ drop (length (take l ys)) ys = ys"
  by (cases "l \<le> length ys") simp_all

lemma follow_pages_drop:
  assumes "map_of (xm_streams st) k = Some ms" "0 < xc_max_query_limit (xm_config st)"
    and "length ms \<le> u64_max" "length (filter (query_matches q) ms) \<le> mq_cursor q + n"
  shows "follow_pages n st k q = drop (mq_cursor q) (filter (query_matches q) ms)"
  using assms(4)
proof (induction n arbitrary: q)
  case (Suc n)
  let ?f = "filter (query_matches q) ms"
  let ?limit = "min (max (mq_limit q) 1) (xc_max_query_limit (xm_config st))"
  let ?page = "take ?limit (drop (mq_cursor q) ?f)"
  let ?next = "min (sat_add (mq_cursor q) (length ?page)) (length ?f)"
  have q: "mr_messages (xm_query st k q) = ?page" "mr_next_cursor (xm_query st k q) = ?next"
    by (simp_all add: xm_query_def assms(1) Let_def)
  have limit: "0 < ?limit" using assms(2) by simp
  have len: "length ?f \<le> u64_max" using assms(3) length_filter_le[of "query_matches q" ms] by linarith
  show ?case
  proof (cases "mq_cursor q < length ?f")
    case True
    then have next_eq: "?next = mq_cursor q + length ?page"
      using len by (simp add: sat_add_def)
    have page: "0 < length ?page" using True limit by simp
    have "length ?f \<le> ?next + n" using Suc.prems next_eq page by linarith
    moreover define q' where "q' = q\<lparr>mq_cursor := ?next\<rparr>"
    have q': "mq_cursor q' = ?next" "query_matches q' = query_matches q" by (simp_all add: q'_def)
    ultimately have "follow_pages n st k q' = drop ?next ?f"
      using Suc.IH[of q'] unfolding q' by blast
    also have "\<dots> = drop (length ?page) (drop (mq_cursor q) ?f)"
      unfolding next_eq drop_drop by (simp only: add.commute)
    finally show ?thesis
      unfolding follow_pages.simps q q'_def[symmetric] by (simp only: take_drop_length)
  next
    case False
    then have "?page = []" by simp
    moreover have "length (filter (query_matches (q\<lparr>mq_cursor := ?next\<rparr>)) ms) \<le> ?next + n"
      using False len by (simp add: sat_add_def)
    ultimately show ?thesis
      using Suc.IH[of "q\<lparr>mq_cursor := ?next\<rparr>"] False len by (simp add: q sat_add_def)
  qed
qed simp

text \<open>
  C15. Paging through a stream's messages by \<^verbatim>\<open>next_cursor\<close>, whatever the limit asked for, lists the
  matching messages of the stream, each once and in order, and ends after at most as many pages.
\<close>

theorem message_pages_complete:
  assumes "xm_observe_events from_value (message_store_new config) evs = Some st"
    and "map_of (xm_streams st) k = Some ms" "length evs \<le> u64_max"
    and "mq_cursor q = 0" "length ms \<le> n"
  shows "follow_pages n st k q = filter (query_matches q) ms"
proof -
  let ?hist = "List.map_filter (message_from_event from_value) evs"
  have st: "st = fold xm_step ?hist (message_store_new config)"
    using assms(1) xm_observe_events_fold[OF message_store_new_ok] by simp
  have "xc_max_query_limit (xm_config (fold xm_step hs s)) = xc_max_query_limit (xm_config s)" if "xm_ok s" for hs s
    using that
  proof (induction hs arbitrary: s)
    case (Cons m hs)
    then show ?case using xm_step_spec(1,2)[OF Cons.prems, of m] by simp
  qed simp
  then have "0 < xc_max_query_limit (xm_config st)"
    unfolding st using message_store_new_ok by (simp add: message_store_new_def less_max_iff_disj)
  moreover have "length ms \<le> u64_max"
  proof -
    have "xm_suffix [] (message_store_new config)" by (simp add: xm_suffix_def message_store_new_def)
    from xm_run_suffix[OF message_store_new_ok this, of ?hist] have "xm_suffix ?hist st"
      unfolding st by simp
    then obtain i where "ms = drop i (filter (\<lambda>m. msg_stream_id m = k) ?hist)"
      using map_of_SomeD[OF assms(2)] unfolding xm_suffix_def by blast
    then have "length ms \<le> length ?hist"
      using length_filter_le[of "\<lambda>m. msg_stream_id m = k" ?hist] by (simp add: le_diff_conv trans_le_add1)
    moreover have "length ?hist \<le> length evs" by (simp add: List.map_filter_def length_filter_le)
    ultimately show ?thesis using assms(3) by linarith
  qed
  moreover have "length (filter (query_matches q) ms) \<le> mq_cursor q + n"
    using length_filter_le[of "query_matches q" ms] assms(5) by linarith
  ultimately show ?thesis
    using follow_pages_drop[OF assms(2)] assms(4) by simp
qed

subsection \<open>Witnesses\<close>

definition sample_message :: "nat \<Rightarrow> stream_message" where
  "sample_message n = \<lparr>msg_stream_id = 7, msg_stream_id_hex = hex_fixed 16 7,
     msg_message_id = stable_message_id 7 AToB n, msg_protocol = Dns, msg_kind = Request,
     msg_status = Complete, msg_direction = AToB, msg_ordinal = n, msg_summary = ''DNS query A .'',
     msg_logical_start = 0, msg_logical_end = 17, msg_header_start = Some 0, msg_header_end = Some 12,
     msg_body_start = Some 12, msg_body_end = Some 17, msg_wire_bytes = 17, msg_header_bytes = 12,
     msg_body_bytes = 5, msg_http = None, msg_dns = None, msg_websocket = None, msg_tls = None,
     msg_error = None\<rparr>"

definition sample_event :: "nat \<Rightarrow> event" where
  "sample_event n = \<lparr>ev_ts_sec = 0, ev_ts_usec = 0, ev_analyzer = ''protocol_message'',
     ev_event_type = ''dns_query'', ev_length = 17, ev_link_layer = ''ethernet'', ev_linktype = 1,
     ev_protocol = Some Udp, ev_source_addr = None, ev_destination_addr = None, ev_source_port = None,
     ev_destination_port = None, ev_fields = JU64 n\<rparr>"

definition sample_from_value :: "json \<Rightarrow> stream_message option" where
  "sample_from_value v = (case v of JU64 n \<Rightarrow> Some (sample_message n) | _ \<Rightarrow> None)"

definition sample_store_config :: message_store_config where
  "sample_store_config = \<lparr>xc_max_streams = 2, xc_max_messages = 2, xc_max_query_limit = 1\<rparr>"

definition sample_events :: "event list" where
  "sample_events = [sample_event 0, sample_event 1, sample_event 2]"

lemma sample_history: "List.map_filter (message_from_event sample_from_value) sample_events
    = [sample_message 0, sample_message 1, sample_message 2]"
  by (simp add: List.map_filter_simps sample_events_def sample_event_def message_from_event_def
      protocol_message_analyzer_def sample_from_value_def)

lemma sample_stored:
  obtains st where "xm_observe_events sample_from_value (message_store_new sample_store_config) sample_events = Some st"
    "map_of (xm_streams st) 7 = Some [sample_message 1, sample_message 2]"
proof -
  obtain st where st: "xm_observe_events sample_from_value (message_store_new sample_store_config) sample_events = Some st"
    using xm_observe_events_fold[OF message_store_new_ok] by blast
  then have "map_of (xm_streams st) 7 = Some [sample_message 1, sample_message 2]"
    unfolding xm_observe_events_fold[OF message_store_new_ok] sample_history
    by (auto simp: xm_step_def xm_insert_def xm_ensure_stream_def xm_refresh_counts_def Let_def
        message_store_new_def sample_store_config_def sample_message_def count_message_def)
  with st show thesis by (rule that)
qed

lemma sample_events_few: "length sample_events \<le> u64_max"
  by (simp add: sample_events_def u64_max_def)


lemma message_pages_complete_witness:
  "\<exists>st. xm_observe_events sample_from_value (message_store_new sample_store_config) sample_events = Some st
    \<and> follow_pages 2 st 7 message_query_default = [sample_message 1, sample_message 2]"
proof -
  obtain st where st: "xm_observe_events sample_from_value (message_store_new sample_store_config) sample_events = Some st"
    "map_of (xm_streams st) 7 = Some [sample_message 1, sample_message 2]"
    by (rule sample_stored)
  have "query_matches message_query_default m" for m
    by (simp add: query_matches_def message_query_default_def none_or_def)
  moreover have "mq_cursor message_query_default = 0" by (simp add: message_query_default_def)
  ultimately show ?thesis
    using message_pages_complete[OF st sample_events_few, of message_query_default 2] st(1) by simp
qed

end
