(* ===== verification/Http1_Parser.thy ===== *)
theory Http1_Parser
  imports Stream_Message
begin

text \<open>
  The HTTP/1 parser of \<^verbatim>\<open>src/src/stream_message.rs\<close>: the searches for line and header ends, message
  heads, body framing with chunked bodies, and the state \<^verbatim>\<open>Http1DirectionState\<close> with its buffer and the
  pending message whose \<^verbatim>\<open>Content-Length\<close> body is still arriving.
\<close>

subsection \<open>Searching\<close>

definition crlf :: bytes where
  "crlf = [13, 10]"

definition or_else :: "'a option \<Rightarrow> 'a option \<Rightarrow> 'a option" where
  "or_else a b = (case a of None \<Rightarrow> b | Some x \<Rightarrow> Some x)"

definition find_header_end :: "bytes \<Rightarrow> (nat \<times> nat) option" where
  "find_header_end bs =
     or_else (map_option (\<lambda>pos. (pos, pos + 4)) (find_window [13, 10, 13, 10] bs))
       (map_option (\<lambda>pos. (pos, pos + 2)) (find_window [10, 10] bs))"

definition find_line_end :: "bytes \<Rightarrow> (nat \<times> nat) option" where
  "find_line_end bs =
     or_else (map_option (\<lambda>pos. (pos, pos + 2)) (find_window crlf bs))
       (map_option (\<lambda>pos. (pos, pos + 1)) (position (\<lambda>b. b = 10) bs))"

definition http_signatures :: "bytes list" where
  "http_signatures = map str_bytes
     [''GET'', ''POST'', ''PUT'', ''DELETE'', ''PATCH'', ''HEAD'', ''OPTIONS'', ''TRACE'', ''CONNECT'', ''HTTP/'']"

definition looks_like_http_prefix :: "bytes \<Rightarrow> bool" where
  "looks_like_http_prefix bs \<longleftrightarrow>
     bs \<noteq> [] \<and> list_ex (\<lambda>signature. starts_with bs signature \<or> starts_with signature bs) http_signatures"

definition find_http_start_from :: "bytes \<Rightarrow> nat \<Rightarrow> nat option" where
  "find_http_start_from bs start = List.find (\<lambda>offset. looks_like_http_prefix (drop offset bs)) [start..<length bs]"

definition find_http_start :: "bytes \<Rightarrow> nat option" where
  "find_http_start bs = find_http_start_from bs 0"

definition looks_like_tls_prefix :: "bytes \<Rightarrow> bool" where
  "looks_like_tls_prefix bs = (case bs of
     [] \<Rightarrow> False
   | content_type # rest \<Rightarrow>
       if \<not> (20 \<le> content_type \<and> content_type \<le> 23) then False
       else if length rest < 2 then True
       else rest ! 0 = 3 \<and> rest ! 1 \<le> 4)"

subsection \<open>Heads\<close>

definition trim_line :: "string \<Rightarrow> string" where
  "trim_line line = str_trim (trim_end_matches (char_of (13 :: nat)) line)"

definition is_http_method :: "string \<Rightarrow> bool" where
  "is_http_method s \<longleftrightarrow> s \<in> set [''GET'', ''POST'', ''PUT'', ''DELETE'', ''PATCH'', ''HEAD'', ''OPTIONS'', ''TRACE'', ''CONNECT'']"

definition header_value :: "http1_header list \<Rightarrow> string \<Rightarrow> string option" where
  "header_value headers name = map_option hh_value (List.find (\<lambda>h. eq_ignore_ascii_case (hh_name h) name) headers)"

definition parse_content_length :: "string \<Rightarrow> nat option" where
  "parse_content_length v = parse_unsigned 10 u64_max (str_trim (hd (split_on CHR '','' v)))"

record http1_head =
  hd_kind :: message_kind
  hd_summary :: string
  hd_info :: http1_info

definition max_stored_http_headers :: nat where
  "max_stored_http_headers = 128"

text \<open>The loop over the header lines.\<close>

fun header_lines :: "string list \<Rightarrow> http1_header list \<Rightarrow> bool \<Rightarrow> http1_header list \<times> bool" where
  "header_lines [] headers truncated = (headers, truncated)"
| "header_lines (l # ls) headers truncated =
     (let line = trim_line l in
      if line = [] then header_lines ls headers truncated
      else case split_once CHR '':'' line of
        None \<Rightarrow> header_lines ls headers truncated
      | Some (name, v) \<Rightarrow>
          if length headers \<ge> max_stored_http_headers then header_lines ls headers True
          else header_lines ls
            (headers @ [\<lparr>hh_name = to_ascii_lowercase (str_trim name), hh_value = str_trim v\<rparr>]) truncated)"

definition parse_request_head ::
  "string \<Rightarrow> http1_header list \<Rightarrow> bool \<Rightarrow> string option \<Rightarrow> nat option \<Rightarrow> string option \<Rightarrow> string option \<Rightarrow>
   string + http1_head" where
  "parse_request_head start_line headers headers_truncated host content_length transfer_encoding content_encoding =
     (let parts = split_ascii_whitespace start_line in
      try_bind (ok_or ''missing http method'' (get_at parts 0)) (\<lambda>method.
      if \<not> is_http_method method then Inl ''unknown http method''
      else try_bind (ok_or ''missing http target'' (get_at parts 1)) (\<lambda>target.
        let version = (case get_at parts 2 of None \<Rightarrow> [] | Some v \<Rightarrow> v);
            summary = method @ '' '' @ target
        in Inr \<lparr>hd_kind = Request, hd_summary = summary,
             hd_info = \<lparr>hi_start_line = start_line, hi_method = Some method, hi_target = Some target,
               hi_version = (if version = [] then None else Some version), hi_status_code = None,
               hi_reason = None, hi_headers = headers, hi_headers_truncated = headers_truncated,
               hi_host = host, hi_content_length = content_length,
               hi_transfer_encoding = transfer_encoding, hi_content_encoding = content_encoding,
               hi_body = None\<rparr>\<rparr>)))"

definition parse_response_head ::
  "string \<Rightarrow> http1_header list \<Rightarrow> bool \<Rightarrow> string option \<Rightarrow> nat option \<Rightarrow> string option \<Rightarrow> string option \<Rightarrow>
   string + http1_head" where
  "parse_response_head start_line headers headers_truncated host content_length transfer_encoding content_encoding =
     (let parts = splitn 3 CHR '' '' start_line in
      try_bind (ok_or ''missing http version'' (get_at parts 0)) (\<lambda>version.
      if \<not> starts_with ''HTTP/'' version then Inl ''invalid http response version''
      else try_bind (ok_or ''missing http status'' (get_at parts 1)) (\<lambda>status.
        try_bind (ok_or ''invalid http status'' (parse_unsigned 10 65535 status)) (\<lambda>status_code.
        let reason = (case get_at parts 2 of None \<Rightarrow> [] | Some r \<Rightarrow> r);
            summary = (if reason = [] then ''HTTP '' @ show_nat status_code
              else ''HTTP '' @ show_nat status_code @ '' '' @ reason)
        in Inr \<lparr>hd_kind = Response, hd_summary = summary,
             hd_info = \<lparr>hi_start_line = start_line, hi_method = None, hi_target = None,
               hi_version = Some version, hi_status_code = Some status_code,
               hi_reason = (if reason = [] then None else Some reason), hi_headers = headers,
               hi_headers_truncated = headers_truncated, hi_host = host,
               hi_content_length = content_length, hi_transfer_encoding = transfer_encoding,
               hi_content_encoding = content_encoding, hi_body = None\<rparr>\<rparr>))))"

definition parse_http1_head :: "bytes \<Rightarrow> string + http1_head" where
  "parse_http1_head header =
     (let lines = split_on (char_of (10 :: nat)) (from_utf8_lossy header);
          start_line = trim_line (hd lines)
      in if start_line = [] then Inl ''empty http start line''
         else
           let (headers, headers_truncated) = header_lines (tl lines) [] False;
               host = header_value headers ''host'';
               content_length = Option.bind (header_value headers ''content-length'') parse_content_length;
               transfer_encoding = header_value headers ''transfer-encoding'';
               content_encoding = header_value headers ''content-encoding''
           in if starts_with ''HTTP/'' start_line
              then parse_response_head start_line headers headers_truncated host content_length
                transfer_encoding content_encoding
              else parse_request_head start_line headers headers_truncated host content_length
                transfer_encoding content_encoding)"

subsection \<open>Bodies\<close>

datatype body_framing_kind = NoBody | ContentLength nat | Chunked

definition body_framing :: "http1_head \<Rightarrow> body_framing_kind" where
  "body_framing head =
     (if (case hi_transfer_encoding (hd_info head) of None \<Rightarrow> False
          | Some v \<Rightarrow> str_contains (to_ascii_lowercase v) ''chunked'')
      then Chunked
      else case hi_content_length (hd_info head) of None \<Rightarrow> NoBody | Some n \<Rightarrow> ContentLength n)"

definition http_has_gzip :: "http1_info \<Rightarrow> bool" where
  "http_has_gzip http = (case hi_content_encoding http of None \<Rightarrow> False
     | Some v \<Rightarrow> str_contains (to_ascii_lowercase v) ''gzip'')"

definition http_body_transforms :: "http1_info \<Rightarrow> bool \<Rightarrow> string list" where
  "http_body_transforms http chunked =
     (if chunked then [''http_chunked''] else []) @ (if http_has_gzip http then [''http_gzip''] else [])"

definition http_content_length_body :: "http1_info \<Rightarrow> nat \<Rightarrow> http1_body_info option" where
  "http_content_length_body http body_len =
     (if body_len = 0 then None
      else Some \<lparr>hb_framing = ''content_length'', hb_wire_bytes = body_len,
        hb_normalized_bytes = (if \<not> http_has_gzip http then Some body_len else None),
        hb_chunk_count = None, hb_trailer_bytes = None,
        hb_transforms = http_body_transforms http False\<rparr>)"

record chunked_body_info =
  cb_wire_bytes :: nat
  cb_decoded_bytes :: nat
  cb_chunks :: nat
  cb_trailer_bytes :: nat

datatype chunked_body_end = ChunkedComplete chunked_body_info | ChunkedIncomplete | ChunkedInvalid string

definition http_chunked_body :: "http1_info \<Rightarrow> chunked_body_info \<Rightarrow> http1_body_info option" where
  "http_chunked_body http chunked =
     Some \<lparr>hb_framing = ''chunked'', hb_wire_bytes = cb_wire_bytes chunked,
       hb_normalized_bytes = Some (cb_decoded_bytes chunked), hb_chunk_count = Some (cb_chunks chunked),
       hb_trailer_bytes = Some (cb_trailer_bytes chunked),
       hb_transforms = http_body_transforms http True\<rparr>"

definition byte_is_ascii_ws :: "u8 \<Rightarrow> bool" where
  "byte_is_ascii_ws b \<longleftrightarrow> b \<in> set [9, 10, 12, 13, 32]"

text \<open>The size on a chunk's line: what precedes a semicolon, without white space, in hexadecimal.\<close>

definition chunk_size :: "bytes \<Rightarrow> string + nat" where
  "chunk_size line =
     (let size_token = filter (\<lambda>b. \<not> byte_is_ascii_ws b) (hd (split_on 59 line)) in
      try_bind (ok_or ''chunk size is not ascii'' (str_from_utf8 size_token)) (\<lambda>size_raw.
      ok_or ''invalid chunk size'' (parse_unsigned 16 u64_max size_raw)))"

text \<open>What follows the last chunk: an empty line or a trailer.\<close>

definition last_chunk :: "bytes \<Rightarrow> nat \<Rightarrow> nat \<Rightarrow> nat \<Rightarrow> chunked_body_end" where
  "last_chunk body pos decoded_bytes chunks =
     (if get_range body pos (pos + 2) = Some crlf then
        ChunkedComplete \<lparr>cb_wire_bytes = pos + 2, cb_decoded_bytes = decoded_bytes,
          cb_chunks = chunks, cb_trailer_bytes = 2\<rparr>
      else if get_at body pos = Some 10 then
        ChunkedComplete \<lparr>cb_wire_bytes = pos + 1, cb_decoded_bytes = decoded_bytes,
          cb_chunks = chunks, cb_trailer_bytes = 1\<rparr>
      else case find_header_end (drop pos body) of
        None \<Rightarrow> ChunkedIncomplete
      | Some (_, stop) \<Rightarrow> ChunkedComplete \<lparr>cb_wire_bytes = pos + stop,
          cb_decoded_bytes = decoded_bytes, cb_chunks = chunks, cb_trailer_bytes = stop\<rparr>)"

lemma find_line_end_bound: "find_line_end bs = Some (n, t) \<Longrightarrow> n < t \<and> t \<le> length bs"
  by (auto simp: find_line_end_def or_else_def crlf_def dest!: find_window_bound position_SomeD split: option.splits)

lemma find_header_end_bound: "find_header_end bs = Some (n, t) \<Longrightarrow> n < t \<and> t \<le> length bs"
  by (auto simp: find_header_end_def or_else_def dest!: find_window_bound split: option.splits)

text \<open>
  The loop.  \<^verbatim>\<open>position.saturating_add(size)\<close> is written \<open>+\<close>: it is only compared with the length of
  the body, which is far below the value it saturates at.
\<close>

function chunked_loop :: "bytes \<Rightarrow> nat \<Rightarrow> nat \<Rightarrow> nat \<Rightarrow> chunked_body_end" where
  "chunked_loop body pos decoded_bytes chunks =
     (case find_line_end (drop pos body) of
        None \<Rightarrow> ChunkedIncomplete
      | Some (line_len, line_total_len) \<Rightarrow>
          (case chunk_size (take line_len (drop pos body)) of
             Inl reason \<Rightarrow> ChunkedInvalid reason
           | Inr n \<Rightarrow>
               let pos = pos + line_total_len in
               if n = 0 then last_chunk body pos decoded_bytes chunks
               else if length body < pos + n then ChunkedIncomplete
               else
                 let decoded_bytes = sat_add decoded_bytes n;
                     chunks = sat_add chunks 1;
                     pos = pos + n
                 in if length body < pos + 1 then ChunkedIncomplete
                    else if get_range body pos (pos + 2) = Some crlf
                      then chunked_loop body (pos + 2) decoded_bytes chunks
                    else if get_at body pos = Some 10
                      then chunked_loop body (pos + 1) decoded_bytes chunks
                    else ChunkedInvalid ''chunk data is not followed by a newline''))"
  by pat_completeness auto
termination by (relation "measure (\<lambda>(body, pos, _, _). length body - pos)") simp_all

declare chunked_loop.simps [simp del]

definition find_chunked_body_end :: "bytes \<Rightarrow> chunked_body_end" where
  "find_chunked_body_end body = chunked_loop body 0 0 0"

subsection \<open>The direction state\<close>

record pending_content_length =
  pc_ordinal :: nat
  pc_kind :: message_kind
  pc_summary :: string
  pc_logical_start :: nat
  pc_header_end :: nat
  pc_body_start :: nat
  pc_body_len :: nat
  pc_remaining :: nat
  pc_http :: http1_info

record http1_state =
  hz_buffer :: bytes
  hz_buffer_start :: nat
  hz_next_logical :: nat
  hz_next_ordinal :: nat
  hz_pending :: "pending_content_length option"

definition http1_default :: http1_state where
  "http1_default = \<lparr>hz_buffer = [], hz_buffer_start = 0, hz_next_logical = 0, hz_next_ordinal = 0,
     hz_pending = None\<rparr>"

definition pending_complete :: "pending_content_length \<Rightarrow> u64w \<Rightarrow> flow_direction \<Rightarrow> stream_message" where
  "pending_complete p stream_id direction =
     (let logical_end = sat_add (pc_body_start p) (pc_body_len p) in
      \<lparr>msg_stream_id = stream_id, msg_stream_id_hex = hex_fixed 16 (unat stream_id),
       msg_message_id = stable_message_id stream_id direction (pc_ordinal p), msg_protocol = Http1,
       msg_kind = pc_kind p, msg_status = Complete, msg_direction = direction,
       msg_ordinal = pc_ordinal p, msg_summary = pc_summary p, msg_logical_start = pc_logical_start p,
       msg_logical_end = logical_end, msg_header_start = Some (pc_logical_start p),
       msg_header_end = Some (pc_header_end p), msg_body_start = Some (pc_body_start p),
       msg_body_end = Some logical_end, msg_wire_bytes = logical_end - pc_logical_start p,
       msg_header_bytes = pc_header_end p - pc_logical_start p, msg_body_bytes = pc_body_len p,
       msg_http = Some (pc_http p), msg_dns = None, msg_websocket = None, msg_tls = None,
       msg_error = None\<rparr>)"

definition build_message ::
  "u64w \<Rightarrow> flow_direction \<Rightarrow> nat \<Rightarrow> http1_head \<Rightarrow> nat \<Rightarrow> nat \<Rightarrow> nat \<Rightarrow> stream_message" where
  "build_message stream_id direction ordinal head logical_start body_start body_len =
     (let logical_end = sat_add body_start body_len in
      \<lparr>msg_stream_id = stream_id, msg_stream_id_hex = hex_fixed 16 (unat stream_id),
       msg_message_id = stable_message_id stream_id direction ordinal, msg_protocol = Http1,
       msg_kind = hd_kind head, msg_status = Complete, msg_direction = direction,
       msg_ordinal = ordinal, msg_summary = hd_summary head, msg_logical_start = logical_start,
       msg_logical_end = logical_end, msg_header_start = Some logical_start,
       msg_header_end = Some body_start, msg_body_start = Some body_start,
       msg_body_end = Some logical_end, msg_wire_bytes = logical_end - logical_start,
       msg_header_bytes = body_start - logical_start, msg_body_bytes = body_len,
       msg_http = Some (hd_info head), msg_dns = None, msg_websocket = None, msg_tls = None,
       msg_error = None\<rparr>)"

text \<open>\<^verbatim>\<open>end.zip(start).map_or(0, |(end, start)| end - start)\<close>.\<close>

definition span_bytes :: "nat option \<Rightarrow> nat option \<Rightarrow> nat" where
  "span_bytes stop start = (case (stop, start) of (Some e, Some s) \<Rightarrow> e - s | _ \<Rightarrow> 0)"

definition fix_message_context :: "stream_message \<Rightarrow> nat \<Rightarrow> stream_message" where
  "fix_message_context m consumed =
     m\<lparr>msg_logical_end := sat_add (msg_logical_start m) consumed, msg_wire_bytes := consumed,
       msg_header_bytes := span_bytes (msg_header_end m) (msg_header_start m),
       msg_body_bytes := span_bytes (msg_body_end m) (msg_body_start m)\<rparr>"

definition http1_parse_error :: "http1_state \<Rightarrow> u64w \<Rightarrow> flow_direction \<Rightarrow> string \<Rightarrow> stream_message \<times> http1_state" where
  "http1_parse_error st stream_id direction reason =
     (let start = hz_buffer_start st;
          stop = sat_add start (length (hz_buffer st));
          ordinal = hz_next_ordinal st
      in (\<lparr>msg_stream_id = stream_id, msg_stream_id_hex = hex_fixed 16 (unat stream_id),
           msg_message_id = stable_message_id stream_id direction ordinal, msg_protocol = Http1,
           msg_kind = UnknownKind, msg_status = ParseError, msg_direction = direction,
           msg_ordinal = ordinal, msg_summary = ''HTTP/1 parse error'', msg_logical_start = start,
           msg_logical_end = stop, msg_header_start = Some start, msg_header_end = Some stop,
           msg_body_start = None, msg_body_end = None, msg_wire_bytes = stop - start,
           msg_header_bytes = stop - start, msg_body_bytes = 0, msg_http = None, msg_dns = None,
           msg_websocket = None, msg_tls = None, msg_error = Some reason\<rparr>,
          st\<lparr>hz_next_ordinal := sat_add ordinal 1\<rparr>))"

definition http1_clear :: "http1_state \<Rightarrow> http1_state" where
  "http1_clear st = st\<lparr>hz_buffer := [], hz_buffer_start := hz_next_logical st\<rparr>"

definition http1_drain :: "http1_state \<Rightarrow> nat \<Rightarrow> http1_state" where
  "http1_drain st n =
     (if n \<ge> length (hz_buffer st) then http1_clear st
      else st\<lparr>hz_buffer := drop n (hz_buffer st), hz_buffer_start := sat_add (hz_buffer_start st) n\<rparr>)"

definition resync_or_clear :: "http1_state \<Rightarrow> http1_state" where
  "resync_or_clear st = (case find_http_start_from (hz_buffer st) 1 of
     Some offset \<Rightarrow> http1_drain st offset
   | None \<Rightarrow> http1_clear st)"

text \<open>The complete message of a head and a body of which \<open>consumed\<close> bytes in all are in the buffer; the
  ordinal is taken.\<close>

definition complete_message ::
  "http1_state \<Rightarrow> u64w \<Rightarrow> flow_direction \<Rightarrow> http1_head \<Rightarrow> nat \<Rightarrow> nat \<Rightarrow> nat \<Rightarrow> stream_message \<times> http1_state" where
  "complete_message st stream_id direction head body_start body_len consumed =
     (fix_message_context (build_message stream_id direction (hz_next_ordinal st) head (hz_buffer_start st)
        body_start body_len) consumed,
      http1_drain (st\<lparr>hz_next_ordinal := sat_add (hz_next_ordinal st) 1\<rparr>) consumed)"

definition set_body :: "http1_head \<Rightarrow> http1_body_info option \<Rightarrow> http1_head" where
  "set_body head body = head\<lparr>hd_info := (hd_info head)\<lparr>hi_body := body\<rparr>\<rparr>"

definition start_pending :: "http1_state \<Rightarrow> http1_head \<Rightarrow> nat \<Rightarrow> nat \<Rightarrow> nat \<Rightarrow> http1_state" where
  "start_pending st head body_start body_len observed =
     (http1_clear (st\<lparr>hz_next_ordinal := sat_add (hz_next_ordinal st) 1\<rparr>))
       \<lparr>hz_pending := Some \<lparr>pc_ordinal = hz_next_ordinal st, pc_kind = hd_kind head,
          pc_summary = hd_summary head, pc_logical_start = hz_buffer_start st,
          pc_header_end = body_start, pc_body_start = body_start, pc_body_len = body_len,
          pc_remaining = body_len - observed,
          pc_http = (hd_info head)\<lparr>hi_body := http_content_length_body (hd_info head) body_len\<rparr>\<rparr>\<rparr>"

lemma http1_drain_shorter: "0 < n \<Longrightarrow> hz_buffer st \<noteq> [] \<Longrightarrow> length (hz_buffer (http1_drain st n)) < length (hz_buffer st)"
  by (auto simp: http1_drain_def http1_clear_def)

lemma find_http_start_from_bound: "find_http_start_from bs start = Some k \<Longrightarrow> start \<le> k \<and> k < length bs"
  by (auto simp: find_http_start_from_def find_Some_iff)

lemma resync_shorter: "hz_buffer st \<noteq> [] \<Longrightarrow> length (hz_buffer (resync_or_clear st)) < length (hz_buffer st)"
  by (auto simp: resync_or_clear_def http1_clear_def intro!: http1_drain_shorter
      dest!: find_http_start_from_bound split: option.splits)

lemma http1_error_drain_shorter:
  "(m, st1) = http1_parse_error st stream_id direction reason \<Longrightarrow> 0 < n \<Longrightarrow> hz_buffer st \<noteq> [] \<Longrightarrow>
    length (hz_buffer (http1_drain st1 n)) < length (hz_buffer st)"
  by (auto simp: http1_parse_error_def http1_drain_def http1_clear_def Let_def)

lemma complete_message_shorter:
  "(m, st1) = complete_message st stream_id direction head body_start body_len consumed \<Longrightarrow> 0 < consumed \<Longrightarrow>
    hz_buffer st \<noteq> [] \<Longrightarrow> length (hz_buffer st1) < length (hz_buffer st)"
  by (auto simp: complete_message_def http1_drain_def http1_clear_def)

function http1_parse_buffer ::
  "u64w \<Rightarrow> flow_direction \<Rightarrow> nat \<Rightarrow> nat \<Rightarrow> http1_state \<Rightarrow> stream_message list \<Rightarrow> stream_message list \<times> http1_state" where
  "http1_parse_buffer stream_id direction max_header max_buffer st messages =
     (if hz_buffer st = [] then (messages, st)
      else if \<not> looks_like_http_prefix (hz_buffer st)
        then http1_parse_buffer stream_id direction max_header max_buffer (resync_or_clear st) messages
      else if length (hz_buffer st) > max_buffer
        then (case http1_parse_error st stream_id direction ''http message exceeded parser buffer limit'' of
          (m, st1) \<Rightarrow> (messages @ [m], http1_clear st1))
      else case find_header_end (hz_buffer st) of
        None \<Rightarrow>
          if length (hz_buffer st) > max_header
          then (case http1_parse_error st stream_id direction ''http header exceeded parser limit'' of
            (m, st1) \<Rightarrow> (messages @ [m], http1_clear st1))
          else (messages, st)
      | Some (header_len, header_total_len) \<Rightarrow>
        (case parse_http1_head (take header_len (hz_buffer st)) of
          Inl err \<Rightarrow>
            (case http1_parse_error st stream_id direction err of
              (m, st1) \<Rightarrow> http1_parse_buffer stream_id direction max_header max_buffer
                (http1_drain st1 header_total_len) (messages @ [m]))
        | Inr head \<Rightarrow>
          let body_start = sat_add (hz_buffer_start st) header_total_len;
              available_body = length (hz_buffer st) - header_total_len
          in (case body_framing head of
            ContentLength body_len \<Rightarrow>
              if body_len > available_body
              then (messages, start_pending st head body_start body_len available_body)
              else (case complete_message st stream_id direction
                  (set_body head (http_content_length_body (hd_info head) body_len)) body_start body_len
                  (header_total_len + body_len) of
                (m, st1) \<Rightarrow> http1_parse_buffer stream_id direction max_header max_buffer st1 (messages @ [m]))
          | Chunked \<Rightarrow>
              (case find_chunked_body_end (drop header_total_len (hz_buffer st)) of
                ChunkedComplete chunked \<Rightarrow>
                  (case complete_message st stream_id direction
                      (set_body head (http_chunked_body (hd_info head) chunked)) body_start
                      (cb_wire_bytes chunked) (header_total_len + cb_wire_bytes chunked) of
                    (m, st1) \<Rightarrow> http1_parse_buffer stream_id direction max_header max_buffer st1 (messages @ [m]))
              | ChunkedIncomplete \<Rightarrow> (messages, st)
              | ChunkedInvalid reason \<Rightarrow>
                  (case http1_parse_error st stream_id direction reason of
                    (m, st1) \<Rightarrow> http1_parse_buffer stream_id direction max_header max_buffer
                      (http1_drain st1 header_total_len) (messages @ [m])))
          | NoBody \<Rightarrow>
              (case complete_message st stream_id direction head body_start 0 header_total_len of
                (m, st1) \<Rightarrow> http1_parse_buffer stream_id direction max_header max_buffer st1 (messages @ [m])))))"
  by pat_completeness auto

termination
proof (relation "measure (\<lambda>(_, _, _, _, st, _). length (hz_buffer st))", goal_cases)
  case 2
  then show ?case by (simp add: resync_shorter)
qed (auto dest!: find_header_end_bound intro: http1_error_drain_shorter complete_message_shorter)

declare http1_parse_buffer.simps [simp del]

definition http_input :: "http1_state \<Rightarrow> bytes \<Rightarrow> (nat \<times> bytes) option" where
  "http_input st input =
     (if input = [] then None
      else if hz_buffer st \<noteq> [] then Some (0, input)
      else case find_http_start input of
        None \<Rightarrow> None
      | Some start \<Rightarrow> Some (start, drop start input))"

definition append_input ::
  "u64w \<Rightarrow> flow_direction \<Rightarrow> nat \<Rightarrow> nat \<Rightarrow> http1_state \<Rightarrow> bytes \<Rightarrow> nat \<Rightarrow> stream_message list \<Rightarrow>
   stream_message list \<times> http1_state" where
  "append_input stream_id direction max_header max_buffer st input input_start messages =
     (case http_input st input of
        None \<Rightarrow> (messages, st)
      | Some (start_offset, input) \<Rightarrow>
          let input_start = sat_add input_start start_offset;
              st1 = (if hz_buffer st = [] then st\<lparr>hz_buffer_start := input_start\<rparr> else st);
              st2 = st1\<lparr>hz_buffer := hz_buffer st1 @ input\<rparr>
          in http1_parse_buffer stream_id direction max_header max_buffer st2 messages)"

text \<open>The loop of \<^verbatim>\<open>push\<close>: the rest of a pending body first, then the parser.\<close>

function http1_push_loop ::
  "u64w \<Rightarrow> flow_direction \<Rightarrow> nat \<Rightarrow> nat \<Rightarrow> http1_state \<Rightarrow> bytes \<Rightarrow> nat \<Rightarrow> stream_message list \<Rightarrow>
   stream_message list \<times> http1_state" where
  "http1_push_loop stream_id direction max_header max_buffer st input input_start messages =
     (if input = [] then (messages, st)
      else case hz_pending st of
        Some p \<Rightarrow>
          let consumed = min (pc_remaining p) (length input);
              p1 = p\<lparr>pc_remaining := pc_remaining p - consumed\<rparr>;
              input1 = drop consumed input;
              start1 = sat_add input_start consumed
          in if pc_remaining p1 = 0
             then http1_push_loop stream_id direction max_header max_buffer (st\<lparr>hz_pending := None\<rparr>)
               input1 start1 (messages @ [pending_complete p1 stream_id direction])
             else (messages, st\<lparr>hz_pending := Some p1\<rparr>)
      | None \<Rightarrow> append_input stream_id direction max_header max_buffer st input input_start messages)"
  by pat_completeness auto
termination
  by (relation "measure (\<lambda>(_, _, _, _, st, _, _, _). if hz_pending st = None then 0 else 1)") auto

declare http1_push_loop.simps [simp del]

definition http1_push ::
  "http1_state \<Rightarrow> u64w \<Rightarrow> flow_direction \<Rightarrow> bytes \<Rightarrow> nat \<Rightarrow> nat \<Rightarrow> stream_message list \<times> http1_state" where
  "http1_push st stream_id direction bs max_header_bytes max_buffer_bytes =
     (if bs = [] then ([], st)
      else http1_push_loop stream_id direction max_header_bytes max_buffer_bytes
        (st\<lparr>hz_next_logical := sat_add (hz_next_logical st) (length bs)\<rparr>) bs (hz_next_logical st) [])"

subsection \<open>The upgrade to WebSocket\<close>

definition http1_is_websocket_upgrade :: "stream_message \<Rightarrow> bool" where
  "http1_is_websocket_upgrade m \<longleftrightarrow> msg_protocol m = Http1 \<and>
     (case msg_http m of
        None \<Rightarrow> False
      | Some http \<Rightarrow>
          let upgrade = (case header_value (hi_headers http) ''upgrade'' of
                None \<Rightarrow> False | Some v \<Rightarrow> eq_ignore_ascii_case v ''websocket'');
              connection_upgrade = (case header_value (hi_headers http) ''connection'' of
                None \<Rightarrow> False
              | Some v \<Rightarrow> list_ex (\<lambda>token. eq_ignore_ascii_case (str_trim token) ''upgrade'') (split_on CHR '','' v))
          in (msg_kind m = Request \<and> upgrade \<and> connection_upgrade)
             \<or> (msg_kind m = Response \<and> hi_status_code http = Some 101 \<and> upgrade))"

end
