(* ===== verification/Wire_Encoding.thy ===== *)
theory Wire_Encoding
  imports Rust_Str
begin

text \<open>
  The encodings that the parsers' round trips are stated against: big-endian numbers, and the
  decoding of their bytes by \<^verbatim>\<open>from_be_bytes\<close>.  Nothing here models code of the program; these are
  the writers of the wire formats (RFC 6455, 8446, 1035, 9112) that the program only reads.
\<close>

primrec be_bytes :: "nat \<Rightarrow> nat \<Rightarrow> bytes" where
  "be_bytes 0 n = []"
| "be_bytes (Suc k) n = be_bytes k (n div 256) @ [of_nat (n mod 256)]"

lemma length_be_bytes [simp]: "length (be_bytes k n) = k"
  by (induction k arbitrary: n) auto

lemma unat_of_nat_u8 [simp]: "n < 256 \<Longrightarrow> unat (of_nat n :: u8) = n"
  by (simp add: unsigned_of_nat take_bit_nat_eq_self)

lemma nat_be_be_bytes: "n < 256 ^ k \<Longrightarrow> nat_be (be_bytes k n) = n"
proof (induction k arbitrary: n)
  case (Suc k)
  have "n div 256 < 256 ^ k" using Suc.prems by (simp add: less_mult_imp_div_less mult.commute)
  then show ?case using Suc.IH by (simp add: nat_be_snoc)
qed (simp add: nat_be_def)

lemma be_bytes_2: "be_bytes 2 n = [of_nat (n div 256 mod 256), of_nat (n mod 256)]"
  by (simp add: numeral_2_eq_2)

lemma u16_be_be_bytes: "n < 65536 \<Longrightarrow> unat (u16_be (of_nat (n div 256 mod 256)) (of_nat (n mod 256))) = n"
  by (simp add: unat_u16_be less_mult_imp_div_less)

lemma take_append_exact: "length as = n \<Longrightarrow> take n (as @ bs) = as"
  by simp

lemma nth_append_offset: "length as = n \<Longrightarrow> (as @ bs) ! (n + i) = bs ! i"
  by (simp add: nth_append)

end
