(* ===== verification/Http1_Correctness.thy ===== *)
theory Http1_Correctness
  imports Http1_Parser Wire_Encoding
begin

text \<open>
  Correctness of the HTTP/1 parser: chunked bodies are read back, a buffered message ends where its
  framing says, and a stream of messages gives the same messages however it is cut into chunks.
\<close>

subsection \<open>Searching in a longer string\<close>

lemma starts_with_append: "length pat \<le> length xs \<Longrightarrow> starts_with pat (xs @ ys) = starts_with pat xs"
  by (simp add: starts_with_def)

lemma starts_with_length: "starts_with pat xs \<Longrightarrow> length pat \<le> length xs"
  by (metis length_take min.cobounded1 starts_with_def)

lemma find_window_append: "find_window pat xs = Some i \<Longrightarrow> find_window pat (xs @ ys) = Some i"
proof (induction xs arbitrary: i)
  case (Cons x xs)
  show ?case
  proof (cases "starts_with pat (x # xs)")
    case True
    then show ?thesis using Cons.prems starts_with_append[OF starts_with_length[OF True], of ys] by simp
  next
    case False
    then obtain j where j: "find_window pat xs = Some j" "i = Suc j" using Cons.prems by auto
    have "length pat \<le> length (x # xs)" using find_window_bound[OF j(1)] by simp
    then show ?thesis using False j Cons.IH[OF j(1)] starts_with_append[of pat "x # xs" ys] by simp
  qed
qed simp

lemma find_window_prefix:
  assumes "find_window pat (xs @ ys) = Some i" "length xs < i + length pat"
  shows "find_window pat xs = None"
proof (rule ccontr)
  assume "find_window pat xs \<noteq> None"
  then obtain j where j: "find_window pat xs = Some j" by blast
  then show False using find_window_append[OF j, of ys] find_window_bound[OF j] assms by simp
qed

lemma find_window_None_prefix: "find_window pat (xs @ ys) = None \<Longrightarrow> find_window pat xs = None"
  using find_window_append[of pat xs _ ys] by (cases "find_window pat xs") auto

lemma find_window_first:
  "p \<notin> set xs \<Longrightarrow> find_window (p # pat) (xs @ p # pat @ ys) = Some (length xs)"
  by (induction xs) (auto simp: starts_with_def)

subsection \<open>Chunked bodies as RFC 9112 writes them\<close>

definition chunk_bytes :: "bytes \<Rightarrow> bytes" where
  "chunk_bytes c = str_bytes (hex_nat (length c)) @ crlf @ c @ crlf"

definition chunked_body_bytes :: "bytes list \<Rightarrow> bytes" where
  "chunked_body_bytes chunks = concat (map chunk_bytes chunks) @ str_bytes ''0'' @ crlf @ crlf"

lemma chars_of_str_bytes [simp]: "chars_of (str_bytes s) = s"
proof -
  have "byte_char (of_nat (of_char c)) = c" for c
  proof -
    have "(of_char c :: nat) < 256" by simp
    then show ?thesis by (simp add: byte_char_def)
  qed
  then show ?thesis by (simp add: chars_of_def str_bytes_def o_def)
qed

text \<open>The bytes of a hexadecimal numeral.\<close>

definition hex_byte :: "u8 \<Rightarrow> bool" where
  "hex_byte b \<longleftrightarrow> b \<in> set (str_bytes ''0123456789abcdef'')"

lemma hex_digit_byte: "n < 16 \<Longrightarrow> hex_byte (of_nat (of_char (hex_digit n)))"
proof -
  assume "n < 16"
  then have "hex_digit n \<in> set ''0123456789abcdef''"
    unfolding hex_digit_def by (intro nth_mem) simp
  then show ?thesis unfolding hex_byte_def str_bytes_def set_map by (rule imageI)
qed

lemma hex_nat_bytes: "list_all hex_byte (str_bytes (hex_nat n)) \<and> hex_nat n \<noteq> []"
proof (induction n rule: hex_nat.induct)
  case (1 n)
  show ?case
  proof (cases "n < 16")
    case True
    then show ?thesis using hex_digit_byte[of n] by (simp add: hex_nat.simps[of n] str_bytes_def)
  next
    case False
    then show ?thesis
      using 1 hex_digit_byte[of "n mod 16"] by (simp add: hex_nat.simps[of n] str_bytes_def)
  qed
qed

lemma hex_byte_plain: "hex_byte b \<Longrightarrow> b \<noteq> 13 \<and> b \<noteq> 59 \<and> \<not> byte_is_ascii_ws b \<and> b < 0x80"
  by (auto simp: hex_byte_def str_bytes_def byte_is_ascii_ws_def)

lemma parse_digits_hex_nat: "n \<le> mx \<Longrightarrow> parse_digits 16 mx 0 (hex_nat n) = Some n"
proof (induction n rule: hex_nat.induct)
  case (1 n)
  show ?case
  proof (cases "n < 16")
    case True
    then show ?thesis using "1.prems" by (simp add: hex_nat.simps[of n])
  next
    case False
    have "n div 16 \<le> mx" using "1.prems" by (meson div_le_dividend order_trans)
    then show ?thesis
      using "1.IH"[OF False] "1.prems" False by (simp add: hex_nat.simps[of n] parse_digits_append)
  qed
qed

lemma hex_nat_hd: "\<exists>m < 16. \<exists>cs. hex_nat n = hex_digit m # cs"
proof (induction n rule: hex_nat.induct)
  case (1 n)
  then show ?case by (cases "n < 16") (auto simp: hex_nat.simps[of n] append_eq_Cons_conv)
qed

lemma parse_hex_nat: "n \<le> mx \<Longrightarrow> parse_unsigned 16 mx (hex_nat n) = Some n"
  using hex_nat_hd[of n] parse_digits_hex_nat[of n mx] hex_digit_not_plus
  by (fastforce simp: parse_unsigned_def)

lemma split_on_absent: "c \<notin> set xs \<Longrightarrow> split_on c xs = [xs]"
  by (induction xs) auto

lemma chunk_size_hex: "n \<le> u64_max \<Longrightarrow> chunk_size (str_bytes (hex_nat n)) = Inr n"
proof -
  assume n: "n \<le> u64_max"
  let ?b = "str_bytes (hex_nat n)"
  have plain: "\<forall>b \<in> set ?b. b \<noteq> 13 \<and> b \<noteq> 59 \<and> \<not> byte_is_ascii_ws b \<and> b < 0x80"
    using hex_nat_bytes[of n] hex_byte_plain by (auto simp: list_all_iff)
  then have "split_on 59 ?b = [?b]" "filter (\<lambda>b. \<not> byte_is_ascii_ws b) ?b = ?b"
    by (auto intro: split_on_absent simp: filter_id_conv)
  moreover have "utf8_valid ?b" using utf8_ascii[of ?b] plain by (simp add: list_all_iff)
  ultimately show ?thesis
    using n by (simp add: chunk_size_def str_from_utf8_def parse_hex_nat)
qed

lemma find_line_end_hex:
  "find_line_end (str_bytes (hex_nat n) @ crlf @ rest) = Some (length (hex_nat n), length (hex_nat n) + 2)"
proof -
  have "13 \<notin> set (str_bytes (hex_nat n))"
    using hex_nat_bytes[of n] hex_byte_plain by (auto simp: list_all_iff)
  then show ?thesis
    using find_window_first[of 13 "str_bytes (hex_nat n)" "[10]" rest]
    by (simp add: find_line_end_def or_else_def crlf_def str_bytes_def)
qed

lemma get_range_middle: "length pre = i \<Longrightarrow> length xs = n \<Longrightarrow> get_range (pre @ xs @ post) i (i + n) = Some xs"
  by (simp add: get_range_def)

lemma chunked_loop_encoded:
  assumes "\<forall>c \<in> set chunks. c \<noteq> []"
    and "decoded + sum_list (map length chunks) \<le> u64_max" "seen + length chunks \<le> u64_max"
  shows "chunked_loop (pre @ chunked_body_bytes chunks @ rest) (length pre) decoded seen
    = ChunkedComplete \<lparr>cb_wire_bytes = length pre + length (chunked_body_bytes chunks),
        cb_decoded_bytes = decoded + sum_list (map length chunks), cb_chunks = seen + length chunks,
        cb_trailer_bytes = 2\<rparr>"
  using assms
proof (induction chunks arbitrary: pre decoded seen)
  case Nil
  let ?body = "pre @ str_bytes ''0'' @ crlf @ crlf @ rest"
  have zero: "hex_nat 0 = ''0''" by (simp add: hex_nat.simps[of 0] hex_digit_def)
  have line: "find_line_end (drop (length pre) ?body) = Some (1, 3)"
    using find_line_end_hex[of 0 "crlf @ rest"] by (simp add: zero)
  have "chunk_size (str_bytes ''0'') = Inr 0" using chunk_size_hex[of 0] by (simp add: zero)
  moreover have "str_bytes ''0'' = take 1 (drop (length pre) ?body)" by (simp add: str_bytes_def)
  ultimately have size: "chunk_size (take 1 (drop (length pre) ?body)) = Inr 0" by (simp only:)
  have "get_range ?body (length pre + 3) (length pre + 3 + 2) = Some crlf"
    using get_range_middle[of "pre @ str_bytes ''0'' @ crlf" "length pre + 3" crlf 2 rest]
    by (simp add: str_bytes_def crlf_def)
  then have "last_chunk ?body (length pre + 3) decoded seen = ChunkedComplete
      \<lparr>cb_wire_bytes = length pre + 3 + 2, cb_decoded_bytes = decoded, cb_chunks = seen, cb_trailer_bytes = 2\<rparr>"
    by (simp add: last_chunk_def)
  then have "chunked_loop ?body (length pre) decoded seen = ChunkedComplete
      \<lparr>cb_wire_bytes = length pre + 3 + 2, cb_decoded_bytes = decoded, cb_chunks = seen, cb_trailer_bytes = 2\<rparr>"
    by (subst chunked_loop.simps)
      (simp only: line size option.case sum.case prod.case Let_def if_True simp_thms)
  moreover have "pre @ chunked_body_bytes [] @ rest = ?body" by (simp add: chunked_body_bytes_def)
  moreover have "length (chunked_body_bytes []) = 5" by (simp add: chunked_body_bytes_def str_bytes_def crlf_def)
  ultimately show ?case by simp
next
  case (Cons c chunks)
  have c: "c \<noteq> []" "length c \<le> u64_max" using Cons.prems by auto
  let ?hex = "str_bytes (hex_nat (length c))"
  let ?tail = "chunked_body_bytes chunks @ rest"
  let ?body = "pre @ ?hex @ crlf @ c @ crlf @ ?tail"
  let ?h = "length ?hex"
  have hl: "length (hex_nat (length c)) = ?h" by (simp add: str_bytes_def)
  have two: "length crlf = 2" by (simp add: crlf_def)
  have body: "pre @ chunked_body_bytes (c # chunks) @ rest = ?body"
    by (simp add: chunked_body_bytes_def chunk_bytes_def)
  have line: "find_line_end (drop (length pre) ?body) = Some (?h, ?h + 2)"
    using find_line_end_hex[of "length c" "c @ crlf @ ?tail"] by (simp add: hl)
  have "take ?h (drop (length pre) ?body) = ?hex" by simp
  then have size: "chunk_size (take ?h (drop (length pre) ?body)) = Inr (length c)"
    using chunk_size_hex[OF c(2)] by (simp only:)
  let ?pos = "length pre + (?h + 2) + length c"
  have long: "\<not> length ?body < ?pos" "\<not> length ?body < ?pos + 1" by (simp_all add: two)
  have end_line: "get_range ?body ?pos (?pos + 2) = Some crlf"
    using get_range_middle[of "pre @ ?hex @ crlf @ c" ?pos crlf 2 ?tail] by (simp add: two)
  have adds: "sat_add decoded (length c) = decoded + length c" "sat_add seen 1 = seen + 1"
    using Cons.prems(2,3) by (simp_all add: sat_add_def)
  have "chunked_loop ?body (length pre) decoded seen
      = chunked_loop ?body (?pos + 2) (decoded + length c) (seen + 1)"
    using c(1) by (subst chunked_loop.simps)
      (simp only: line size long end_line adds option.case sum.case prod.case Let_def if_False if_True
        list.size length_0_conv simp_thms)
  also have "\<dots> = chunked_loop ((pre @ ?hex @ crlf @ c @ crlf) @ ?tail) (length (pre @ ?hex @ crlf @ c @ crlf))
      (decoded + length c) (seen + 1)"
    by (simp add: two add.assoc)
  also have "\<dots> = ChunkedComplete \<lparr>cb_wire_bytes = length (pre @ ?hex @ crlf @ c @ crlf) + length (chunked_body_bytes chunks),
      cb_decoded_bytes = decoded + length c + sum_list (map length chunks),
      cb_chunks = seen + 1 + length chunks, cb_trailer_bytes = 2\<rparr>"
    by (rule Cons.IH) (use Cons.prems in simp_all)
  finally show ?case
    unfolding body by (simp add: chunked_body_bytes_def chunk_bytes_def)
qed

text \<open>
  C20. A chunked body written as RFC 9112 writes it is found to end exactly at its end, whatever follows
  it in the stream, and its chunks and decoded bytes are counted.
\<close>

theorem chunked_body_roundtrip:
  assumes "list_all (\<lambda>c. c \<noteq> []) chunks" "sum_list (map length chunks) \<le> u64_max" "length chunks \<le> u64_max"
  shows "find_chunked_body_end (chunked_body_bytes chunks @ rest) = ChunkedComplete
    \<lparr>cb_wire_bytes = length (chunked_body_bytes chunks), cb_decoded_bytes = sum_list (map length chunks),
     cb_chunks = length chunks, cb_trailer_bytes = 2\<rparr>"
  using chunked_loop_encoded[of chunks 0 0 "[]" rest] assms
  by (simp add: find_chunked_body_end_def list_all_iff)

lemma chunked_body_roundtrip_witness:
  "find_chunked_body_end (chunked_body_bytes [[104, 105]] @ [71]) = ChunkedComplete
    \<lparr>cb_wire_bytes = 12, cb_decoded_bytes = 2, cb_chunks = 1, cb_trailer_bytes = 2\<rparr>"
proof -
  have "hex_nat (Suc (Suc 0)) = ''2''" by (simp add: hex_nat.simps hex_digit_def)
  then show ?thesis
    using chunked_body_roundtrip[of "[[104, 105]]" "[71]"]
    by (simp add: u64_max_def chunked_body_bytes_def chunk_bytes_def str_bytes_def crlf_def)
qed

subsection \<open>Streams of messages\<close>

text \<open>A head as RFC 9112 writes it: it ends with its first empty line, has no bare line feeds and starts
  with a method or a version.\<close>

definition http_head_ok :: "bytes \<Rightarrow> bool" where
  "http_head_ok h \<longleftrightarrow> 4 \<le> length h \<and> find_window [13, 10, 13, 10] h = Some (length h - 4)
     \<and> find_window [10, 10] h = None \<and> list_ex (\<lambda>signature. starts_with signature h) http_signatures"

text \<open>The message the parser should make of a head and a body, and when the body is the head's body.\<close>

definition http_framed_body :: "http1_head \<Rightarrow> bytes \<Rightarrow> http1_body_info option option" where
  "http_framed_body head b = (case body_framing head of
     NoBody \<Rightarrow> if b = [] then Some (hi_body (hd_info head)) else None
   | ContentLength n \<Rightarrow> if length b = n then Some (http_content_length_body (hd_info head) n) else None
   | Chunked \<Rightarrow> (case find_chunked_body_end b of
       ChunkedComplete chunked \<Rightarrow>
         if cb_wire_bytes chunked = length b then Some (http_chunked_body (hd_info head) chunked) else None
     | _ \<Rightarrow> None))"

text \<open>A chunked body must be recognised as soon as it is there and not earlier.\<close>

definition chunked_stable :: "bytes \<Rightarrow> bool" where
  "chunked_stable b \<longleftrightarrow> (\<forall>xs. find_chunked_body_end (b @ xs) = find_chunked_body_end b)
     \<and> (\<forall>k < length b. find_chunked_body_end (take k b) = ChunkedIncomplete)"

definition http_message_ok :: "bytes \<times> bytes \<Rightarrow> bool" where
  "http_message_ok m \<longleftrightarrow> http_head_ok (fst m)
     \<and> (case parse_http1_head (take (length (fst m) - 4) (fst m)) of
          Inl _ \<Rightarrow> False
        | Inr head \<Rightarrow> http_framed_body head (snd m) \<noteq> None
            \<and> (body_framing head = Chunked \<longrightarrow> chunked_stable (snd m)))"

definition http_wire :: "bytes \<times> bytes \<Rightarrow> bytes" where
  "http_wire m = fst m @ snd m"

definition http_expected :: "u64w \<Rightarrow> flow_direction \<Rightarrow> nat \<Rightarrow> nat \<Rightarrow> bytes \<times> bytes \<Rightarrow> stream_message" where
  "http_expected stream_id direction ordinal start m =
     (case parse_http1_head (take (length (fst m) - 4) (fst m)) of
        Inr head \<Rightarrow>
          fix_message_context (build_message stream_id direction ordinal
            (set_body head (the (http_framed_body head (snd m)))) start (start + length (fst m)) (length (snd m)))
            (length (http_wire m)))"

fun http_messages :: "u64w \<Rightarrow> flow_direction \<Rightarrow> nat \<Rightarrow> nat \<Rightarrow> (bytes \<times> bytes) list \<Rightarrow> stream_message list" where
  "http_messages stream_id direction ordinal start [] = []"
| "http_messages stream_id direction ordinal start (m # ms) =
     http_expected stream_id direction ordinal start m
     # http_messages stream_id direction (ordinal + 1) (start + length (http_wire m)) ms"

lemma http_messages_append:
  "http_messages sid d n s (as @ bs) = http_messages sid d n s as
    @ http_messages sid d (n + length as) (s + sum_list (map (length \<circ> http_wire) as)) bs"
  by (induction as arbitrary: n s) (simp_all add: add.assoc)

lemma http_head_prefix:
  assumes "http_head_ok h" "k < length h"
  shows "find_header_end (take k h) = None"
proof -
  have "find_window [13, 10, 13, 10] (take k h @ drop k h) = Some (length h - 4)"
    "find_window [10, 10] (take k h @ drop k h) = None"
    using assms(1) by (simp_all add: http_head_ok_def)
  then have "find_window [13, 10, 13, 10] (take k h) = None" "find_window [10, 10] (take k h) = None"
    using assms find_window_prefix[of "[13, 10, 13, 10]" "take k h" "drop k h"]
      find_window_None_prefix[of "[10, 10]" "take k h" "drop k h"]
    by (auto simp: http_head_ok_def)
  then show ?thesis by (simp add: find_header_end_def or_else_def)
qed

lemma http_head_found:
  "http_head_ok h \<Longrightarrow> find_header_end (h @ xs) = Some (length h - 4, length h)"
  using find_window_append[of "[13, 10, 13, 10]" h "length h - 4" xs]
  by (auto simp: find_header_end_def or_else_def http_head_ok_def)

lemma http_head_looks:
  assumes "http_head_ok h" "0 < k"
  shows "looks_like_http_prefix (take k (h @ xs))"
proof -
  obtain s where s: "s \<in> set http_signatures" "starts_with s h"
    using assms(1) by (auto simp: http_head_ok_def list_ex_iff)
  have h: "h \<noteq> []" using assms(1) by (auto simp: http_head_ok_def)
  have pre: "take (length s) (h @ xs) = s"
    using s(2) starts_with_length[OF s(2)] by (simp add: starts_with_def)
  have "starts_with (take k (h @ xs)) s \<or> starts_with s (take k (h @ xs))"
  proof (cases "k \<le> length s")
    case True
    then have "take k (h @ xs) = take k s" by (metis pre min.absorb1 take_take)
    then show ?thesis using True by (simp add: starts_with_def)
  next
    case False
    then have "take (length s) (take k (h @ xs)) = s"
      using pre by (simp only: take_take min.absorb1 nat_le_linear not_le less_imp_le)
    then show ?thesis by (simp add: starts_with_def)
  qed
  then show ?thesis using s(1) h assms(2) by (auto simp: looks_like_http_prefix_def list_ex_iff)
qed

definition http_stream :: "(bytes \<times> bytes) list \<Rightarrow> bytes" where
  "http_stream ms = concat (map http_wire ms)"

lemma http_stream_simps [simp]:
  "http_stream [] = []" "http_stream (m # ms) = fst m @ snd m @ http_stream ms"
  by (simp_all add: http_stream_def http_wire_def)

text \<open>
  The parser is \<open>k\<close> bytes into the messages \<open>ms\<close>, the first of which has ordinal \<open>n\<close> and starts at \<open>s\<close>:
  either those bytes are in the buffer, or the head was parsed and the rest of its body is pending.
\<close>

definition http_at ::
  "u64w \<Rightarrow> flow_direction \<Rightarrow> (bytes \<times> bytes) list \<Rightarrow> nat \<Rightarrow> nat \<Rightarrow> nat \<Rightarrow> http1_state \<Rightarrow> bool" where
  "http_at sid d ms n s k st \<longleftrightarrow> hz_next_logical st = s + k
     \<and> (case ms of [] \<Rightarrow> k = 0 | m # _ \<Rightarrow> k < length (http_wire m))
     \<and> (case hz_pending st of
          None \<Rightarrow> hz_next_ordinal st = n \<and> hz_buffer st = take k (http_stream ms)
            \<and> (hz_buffer st \<noteq> [] \<longrightarrow> hz_buffer_start st = s)
        | Some p \<Rightarrow> hz_next_ordinal st = n + 1 \<and> hz_buffer st = []
            \<and> (case ms of [] \<Rightarrow> False | m # _ \<Rightarrow> pending_complete p sid d = http_expected sid d n s m
                \<and> pc_remaining p = length (http_wire m) - k))"

definition http_limits_ok :: "nat \<Rightarrow> (bytes \<times> bytes) list \<Rightarrow> bool" where
  "http_limits_ok mh ms \<longleftrightarrow> list_all (\<lambda>m. http_message_ok m \<and> length (fst m) \<le> mh) ms"

lemma http_wire_pos: "http_message_ok m \<Longrightarrow> 4 \<le> length (fst m) \<and> 0 < length (http_wire m)"
  by (auto simp: http_message_ok_def http_head_ok_def http_wire_def)

lemma complete_message_step:
  assumes "hz_buffer st = take k (http_stream (m # ms))" "k \<le> length (http_stream (m # ms))"
    and "length (http_wire m) \<le> k" "hz_pending st = None" "hz_next_logical st = s + k"
    and "hz_buffer_start st = s" "s + k \<le> u64_max" "hz_next_ordinal st < u64_max"
  shows "\<exists>st1. complete_message st sid d head bs bl (length (http_wire m))
      = (fix_message_context (build_message sid d (hz_next_ordinal st) head s bs bl) (length (http_wire m)), st1)
    \<and> hz_pending st1 = None \<and> hz_next_ordinal st1 = hz_next_ordinal st + 1
    \<and> hz_buffer st1 = take (k - length (http_wire m)) (http_stream ms)
    \<and> hz_next_logical st1 = (s + length (http_wire m)) + (k - length (http_wire m))
    \<and> (hz_buffer st1 \<noteq> [] \<longrightarrow> hz_buffer_start st1 = s + length (http_wire m))"
proof -
  let ?w = "length (http_wire m)"
  let ?st = "st\<lparr>hz_next_ordinal := sat_add (hz_next_ordinal st) 1\<rparr>"
  have drop: "drop ?w (hz_buffer st) = take (k - ?w) (http_stream ms)"
    unfolding assms(1) using assms(3) by (simp add: http_wire_def drop_take)
  have len: "length (hz_buffer st) = k" using assms(1,2) by simp
  have ord: "sat_add (hz_next_ordinal st) 1 = hz_next_ordinal st + 1" using assms(8) by (simp add: sat_add_def)
  have start: "sat_add s ?w = s + ?w" using assms(3,7) by (simp add: sat_add_def)
  show ?thesis
  proof (cases "k \<le> ?w")
    case True
    then have "http1_drain ?st ?w = http1_clear ?st" by (simp add: http1_drain_def len)
    then show ?thesis
      using True assms(3-6) ord drop len by (simp add: complete_message_def http1_clear_def)
  next
    case False
    then have "http1_drain ?st ?w = ?st\<lparr>hz_buffer := drop ?w (hz_buffer st), hz_buffer_start := sat_add s ?w\<rparr>"
      by (simp add: http1_drain_def len assms(6))
    then show ?thesis
      using False assms(3-6) ord drop start by (simp add: complete_message_def)
  qed
qed

lemma set_body_same: "set_body head (hi_body (hd_info head)) = head"
  by (simp add: set_body_def)

text \<open>The start of a pending body: the message it will complete to.\<close>

lemma start_pending_expected:
  assumes "parse_http1_head (take (length h - 4) h) = Inr head" "body_framing head = ContentLength (length b)"
    and "hz_buffer_start st = s" "s + length h + length b \<le> u64_max" "hz_next_ordinal st < u64_max"
    and "hz_next_logical st = s + length h + k" "k < length b"
  shows "http_at sid d ((h, b) # ms) (hz_next_ordinal st) s (length h + k)
    (start_pending st head (s + length h) (length b) k)"
proof -
  have "sat_add (s + length h) (length b) = s + length h + length b" "sat_add s (length h + length b) = s + length h + length b"
    "sat_add (hz_next_ordinal st) 1 = hz_next_ordinal st + 1"
    using assms(4,5) by (simp_all add: sat_add_def add.assoc)
  then show ?thesis
    using assms(6,7)
    by (simp add: http_at_def http_wire_def start_pending_def http1_clear_def pending_complete_def http_expected_def
        assms(1-3) http_framed_body_def fix_message_context_def build_message_def span_bytes_def set_body_def Let_def
        add.assoc)
qed

text \<open>What the head of a well-formed message gives, at the front of the buffer.\<close>

lemma http_message_okE:
  assumes "http_message_ok (h, b)"
  obtains head where "http_head_ok h" "parse_http1_head (take (length h - 4) h) = Inr head"
    "http_framed_body head b \<noteq> None" "body_framing head = Chunked \<Longrightarrow> chunked_stable b"
  using assms by (auto simp: http_message_ok_def split: sum.splits)

text \<open>The parser on a buffer that holds the first \<open>k\<close> bytes of a stream of messages.\<close>

lemma http1_parse_buffer_stream:
  assumes "http_limits_ok mh ms" "k \<le> length (http_stream ms)" "k \<le> mb"
    and "hz_pending st = None" "hz_buffer st = take k (http_stream ms)" "hz_next_logical st = s + k"
    and "hz_buffer st \<noteq> [] \<Longrightarrow> hz_buffer_start st = s" "hz_next_ordinal st = n"
    and "s + k \<le> u64_max" "n + length ms \<le> u64_max" "s + length (http_stream ms) \<le> u64_max"
  shows "\<exists>ds rest k' st'. ms = ds @ rest \<and> http1_parse_buffer sid d mh mb st acc = (acc @ http_messages sid d n s ds, st')
    \<and> sum_list (map (length \<circ> http_wire) ds) + k' = k
    \<and> http_at sid d rest (n + length ds) (s + sum_list (map (length \<circ> http_wire) ds)) k' st'"
  using assms
proof (induction ms arbitrary: st s n k acc)
  case Nil
  then have "http1_parse_buffer sid d mh mb st acc = (acc, st)" by (simp add: http1_parse_buffer.simps)
  then show ?case using Nil.prems by (intro exI[of _ "[]"] exI[of _ 0] exI[of _ st]) (simp add: http_at_def)
next
  case (Cons m ms)
  obtain h b where m: "m = (h, b)" by fastforce
  have okm: "http_message_ok (h, b)" "length h \<le> mh" "http_limits_ok mh ms"
    using Cons.prems(1) by (simp_all add: http_limits_ok_def m)
  obtain head where head: "http_head_ok h" "parse_http1_head (take (length h - 4) h) = Inr head"
    "http_framed_body head b \<noteq> None" "body_framing head = Chunked \<Longrightarrow> chunked_stable b"
    using http_message_okE[OF okm(1)] by blast
  have h4: "4 \<le> length h" using head(1) by (simp add: http_head_ok_def)
  have buf: "hz_buffer st = take k (h @ b @ http_stream ms)" using Cons.prems(5) by (simp add: m)
  have len: "length (hz_buffer st) = k" using Cons.prems(2,5) by simp
  note step = http1_parse_buffer.simps[of sid d mh mb st acc]
  have waiting: "\<exists>ds rest k' st'. m # ms = ds @ rest
      \<and> http1_parse_buffer sid d mh mb st acc = (acc @ http_messages sid d n s ds, st')
      \<and> sum_list (map (length \<circ> http_wire) ds) + k' = k
      \<and> http_at sid d rest (n + length ds) (s + sum_list (map (length \<circ> http_wire) ds)) k' st'"
    if "http1_parse_buffer sid d mh mb st acc = (acc, st')" "http_at sid d (m # ms) n s k st'" for st'
  proof (intro exI conjI)
    show "m # ms = [] @ m # ms" by simp
  qed (use that in simp_all)
  have wire: "length (http_wire m) = length h + length b" by (simp add: m http_wire_def)
  show ?case
  proof (cases "k < length h")
    case True
    show ?thesis
    proof (rule waiting)
      show "http1_parse_buffer sid d mh mb st acc = (acc, st)"
      proof (cases "k = 0")
        case True
        then show ?thesis using len by (simp add: step)
      next
        case False
        have "hz_buffer st = take k h" using buf True by simp
        then have "find_header_end (hz_buffer st) = None" "looks_like_http_prefix (hz_buffer st)"
          using http_head_prefix[OF head(1) True] http_head_looks[OF head(1), of k "[]"] False by simp_all
        moreover have "hz_buffer st \<noteq> []" using len False by auto
        ultimately show ?thesis using True okm(2) Cons.prems(3) len by (simp add: step)
      qed
      show "http_at sid d (m # ms) n s k st"
        using Cons.prems(4-8) True wire by (simp add: http_at_def)
    qed
  next
    case False
    let ?y = "take (k - length h) (b @ http_stream ms)"
    have buf2: "hz_buffer st = h @ ?y" using buf False by simp
    have ylen: "length ?y = k - length h" using len buf2 False by simp
    have found: "find_header_end (hz_buffer st) = Some (length h - 4, length h)"
      unfolding buf2 by (rule http_head_found[OF head(1)])
    have looks: "looks_like_http_prefix (hz_buffer st)"
      using http_head_looks[OF head(1), of k "b @ http_stream ms"] buf False h4 by simp
    have ne: "hz_buffer st \<noteq> []" using buf2 h4 by auto
    have start: "hz_buffer_start st = s" using Cons.prems(7) ne by blast
    have hd: "parse_http1_head (take (length h - 4) (hz_buffer st)) = Inr head"
      using head(2) by (simp add: buf2)
    have bs: "sat_add s (length h) = s + length h" using Cons.prems(9) False by (simp add: sat_add_def)
    have avail: "length (hz_buffer st) - length h = k - length h" using len by simp
    have nolimit: "\<not> mb < length (hz_buffer st)" using Cons.prems(3) len by simp
    have body: "drop (length h) (hz_buffer st) = ?y" by (simp add: buf2)
    note parsed = step[unfolded found option.case prod.case hd sum.case start bs avail body Let_def]
    have ord: "hz_next_ordinal st < u64_max" using Cons.prems(8,10) by simp
    have finish: "\<exists>ds rest k' st'. m # ms = ds @ rest
        \<and> http1_parse_buffer sid d mh mb st acc = (acc @ http_messages sid d n s ds, st')
        \<and> sum_list (map (length \<circ> http_wire) ds) + k' = k
        \<and> http_at sid d rest (n + length ds) (s + sum_list (map (length \<circ> http_wire) ds)) k' st'"
      if consumed: "length (http_wire m) \<le> k"
        and go: "http1_parse_buffer sid d mh mb st acc = (case complete_message st sid d
            (set_body head (the (http_framed_body head b))) (s + length h) (length b) (length (http_wire m)) of
          (msg, st1) \<Rightarrow> http1_parse_buffer sid d mh mb st1 (acc @ [msg]))"
    proof -
      let ?w = "length (http_wire m)"
      let ?msg = "http_expected sid d n s m"
      obtain st1 where st1: "complete_message st sid d (set_body head (the (http_framed_body head b)))
          (s + length h) (length b) ?w = (?msg, st1)"
        "hz_pending st1 = None" "hz_next_ordinal st1 = n + 1" "hz_buffer st1 = take (k - ?w) (http_stream ms)"
        "hz_next_logical st1 = (s + ?w) + (k - ?w)" "hz_buffer st1 \<noteq> [] \<longrightarrow> hz_buffer_start st1 = s + ?w"
        using complete_message_step[OF Cons.prems(5,2) consumed Cons.prems(4,6) start Cons.prems(9) ord,
            of sid d "set_body head (the (http_framed_body head b))" "s + length h" "length b"] Cons.prems(8)
        by (auto simp: http_expected_def m head(2))
      have small: "k - ?w \<le> length (http_stream ms)" "s + ?w + length (http_stream ms) \<le> u64_max"
        using Cons.prems(2,11) wire by (simp_all add: m)
      obtain ds rest k' st' where ih: "ms = ds @ rest"
        "http1_parse_buffer sid d mh mb st1 (acc @ [?msg]) = ((acc @ [?msg]) @ http_messages sid d (n + 1) (s + ?w) ds, st')"
        "sum_list (map (length \<circ> http_wire) ds) + k' = k - ?w"
        "http_at sid d rest (n + 1 + length ds) (s + ?w + sum_list (map (length \<circ> http_wire) ds)) k' st'"
        using Cons.IH[OF okm(3) small(1) _ st1(2,4,5) _ st1(3), of "acc @ [?msg]"] st1(6) Cons.prems(3,9,10) consumed small
        by fastforce
      show ?thesis
      proof (intro exI conjI)
        show "m # ms = (m # ds) @ rest" using ih(1) by simp
      qed (use ih consumed go st1(1) in \<open>simp_all add: add.assoc\<close>)
    qed
    show ?thesis
    proof (cases "body_framing head")
      case NoBody
      then have b: "b = []" "the (http_framed_body head b) = hi_body (hd_info head)"
        using head(3) by (auto simp: http_framed_body_def split: if_splits)
      show ?thesis
        by (rule finish) (use False wire b NoBody ne looks nolimit in \<open>simp_all add: parsed set_body_same\<close>)
    next
      case (ContentLength bl)
      then have b: "length b = bl" "the (http_framed_body head b) = http_content_length_body (hd_info head) bl"
        using head(3) by (auto simp: http_framed_body_def split: if_splits)
      show ?thesis
      proof (cases "k - length h < bl")
        case True
        show ?thesis
        proof (rule waiting)
          show "http1_parse_buffer sid d mh mb st acc = (acc, start_pending st head (s + length h) bl (k - length h))"
            using True ContentLength ne looks nolimit by (simp add: parsed)
          have "http_at sid d ((h, b) # ms) (hz_next_ordinal st) s (length h + (k - length h))
              (start_pending st head (s + length h) (length b) (k - length h))"
            by (rule start_pending_expected[OF head(2)])
              (use ContentLength b(1) start ord Cons.prems(6,11) False True in \<open>simp_all add: m\<close>)
          then show "http_at sid d (m # ms) n s k (start_pending st head (s + length h) bl (k - length h))"
            using False Cons.prems(8) by (simp add: m b(1))
        qed
      next
        case enough: False
        show ?thesis
          by (rule finish) (use False enough wire b ContentLength ne looks nolimit in \<open>simp_all add: parsed\<close>)
      qed
    next
      case Chunked
      then obtain c where c: "find_chunked_body_end b = ChunkedComplete c" "cb_wire_bytes c = length b"
        "the (http_framed_body head b) = http_chunked_body (hd_info head) c"
        using head(3) by (auto simp: http_framed_body_def split: chunked_body_end.splits if_splits)
      have stable: "chunked_stable b" by (rule head(4)[OF Chunked])
      show ?thesis
      proof (cases "k - length h < length b")
        case True
        then have "?y = take (k - length h) b" by simp
        then have inc: "find_chunked_body_end ?y = ChunkedIncomplete"
          using stable True by (simp add: chunked_stable_def)
        show ?thesis
        proof (rule waiting)
          show "http1_parse_buffer sid d mh mb st acc = (acc, st)"
            using Chunked ne looks nolimit inc by (simp add: parsed)
          show "http_at sid d (m # ms) n s k st"
            using Cons.prems(4-8) True wire False by (simp add: http_at_def)
        qed
      next
        case enough: False
        then have "?y = b @ take (k - length h - length b) (http_stream ms)" by simp
        then have com: "find_chunked_body_end ?y = ChunkedComplete c"
          using stable c(1) by (simp add: chunked_stable_def)
        show ?thesis
          by (rule finish) (use False enough wire c Chunked ne looks nolimit com in \<open>simp_all add: parsed\<close>)
      qed
    qed
  qed
qed

text \<open>New bytes when no body is pending go through the buffer.\<close>

lemma http1_push_loop_buffer:
  assumes ok: "http_limits_ok mh ms" and lim: "k + length c \<le> length (http_stream ms)" "k + length c \<le> mb"
    and st: "hz_pending st = None" "hz_buffer st = take k (http_stream ms)" "hz_next_logical st = s + k + length c"
      "hz_buffer st \<noteq> [] \<Longrightarrow> hz_buffer_start st = s" "hz_next_ordinal st = n"
    and c: "c \<noteq> []" "c = take (length c) (drop k (http_stream ms))"
    and bounds: "n + length ms \<le> u64_max" "s + length (http_stream ms) \<le> u64_max"
  shows "\<exists>ds rest k' st'. ms = ds @ rest
    \<and> http1_push_loop sid d mh mb st c (s + k) acc = (acc @ http_messages sid d n s ds, st')
    \<and> sum_list (map (length \<circ> http_wire) ds) + k' = k + length c
    \<and> http_at sid d rest (n + length ds) (s + sum_list (map (length \<circ> http_wire) ds)) k' st'"
proof -
  let ?st = "st\<lparr>hz_buffer_start := s, hz_buffer := take (k + length c) (http_stream ms)\<rparr>"
  have joined: "hz_buffer st @ c = take (k + length c) (http_stream ms)"
    unfolding st(2) by (subst c(2)) (rule take_add[symmetric])
  have "http1_push_loop sid d mh mb st c (s + k) acc = http1_parse_buffer sid d mh mb ?st acc"
  proof (cases "hz_buffer st = []")
    case True
    then have k: "k = 0" using st(2) lim(1) c(1) by auto
    obtain m ms' where ms: "ms = m # ms'" using c lim by (cases ms) auto
    have head: "http_head_ok (fst m)" using ok by (simp add: ms http_limits_ok_def http_message_ok_def)
    have "c = take (length c) (fst m @ snd m @ http_stream ms')" using c(2) by (simp add: ms k)
    then have "looks_like_http_prefix c" using http_head_looks[OF head, of "length c"] c(1) by (metis length_greater_0_conv)
    then have "find_http_start c = Some 0"
      using c(1) by (simp add: find_http_start_def find_http_start_from_def upt_conv_Cons)
    moreover have "sat_add s 0 = s" using bounds(2) by (simp add: sat_add_def)
    ultimately show ?thesis
      using True st(1) joined c(1) k
      by (simp add: http1_push_loop.simps append_input_def http_input_def Let_def)
  next
    case False
    then have "st\<lparr>hz_buffer := hz_buffer st @ c\<rparr> = ?st" using st(4) joined by simp
    then show ?thesis
      using False st(1) c(1) by (simp add: http1_push_loop.simps append_input_def http_input_def Let_def)
  qed
  moreover have "\<exists>ds rest k' st'. ms = ds @ rest
    \<and> http1_parse_buffer sid d mh mb ?st acc = (acc @ http_messages sid d n s ds, st')
    \<and> sum_list (map (length \<circ> http_wire) ds) + k' = k + length c
    \<and> http_at sid d rest (n + length ds) (s + sum_list (map (length \<circ> http_wire) ds)) k' st'"
    by (rule http1_parse_buffer_stream[OF ok lim]) (use st bounds lim in simp_all)
  ultimately show ?thesis by simp
qed

text \<open>One push, in the middle of a stream of messages.\<close>

lemma http1_push_stream:
  assumes ok: "http_limits_ok mh ms" and at: "http_at sid d ms n s k st"
    and c: "k + length c \<le> length (http_stream ms)" "c = take (length c) (drop k (http_stream ms))"
    and room: "list_all (\<lambda>m. length (http_wire m) + length c \<le> mb) ms"
    and bounds: "n + length ms \<le> u64_max" "s + length (http_stream ms) \<le> u64_max"
  shows "\<exists>ds rest k' st'. ms = ds @ rest
    \<and> http1_push st sid d c mh mb = (http_messages sid d n s ds, st')
    \<and> sum_list (map (length \<circ> http_wire) ds) + k' = k + length c
    \<and> http_at sid d rest (n + length ds) (s + sum_list (map (length \<circ> http_wire) ds)) k' st'"
proof (cases "c = []")
  case True
  show ?thesis
  proof (intro exI conjI)
    show "ms = [] @ ms" by simp
  qed (use True at in \<open>simp_all add: http1_push_def\<close>)
next
  case False
  obtain m ms' where ms: "ms = m # ms'" using c False by (cases ms) auto
  let ?w = "length (http_wire m)"
  let ?st = "st\<lparr>hz_next_logical := s + k + length c\<rparr>"
  have logical: "hz_next_logical st = s + k" and kw: "k < ?w" using at by (simp_all add: http_at_def ms)
  have mb: "?w + length c \<le> mb" using room by (simp add: ms)
  have push: "http1_push st sid d c mh mb = http1_push_loop sid d mh mb ?st c (s + k) []"
    using False logical c(1) bounds(2) by (simp add: http1_push_def sat_add_def)
  show ?thesis
  proof (cases "hz_pending st")
    case None
    then show ?thesis
      unfolding push
      using http1_push_loop_buffer[OF ok c(1) _ _ _ _ _ _ False c(2) bounds, of mb ?st sid d "[]"] at kw mb
      by (simp add: http_at_def)
  next
    case (Some p)
    have p: "hz_next_ordinal st = n + 1" "hz_buffer st = []" "pending_complete p sid d = http_expected sid d n s m"
      "pc_remaining p = ?w - k"
      using at Some by (simp_all add: http_at_def ms)
    have complete: "pending_complete (p\<lparr>pc_remaining := r\<rparr>) sid d = http_expected sid d n s m" for r
      using p(3) by (simp add: pending_complete_def)
    show ?thesis
    proof (cases "length c < ?w - k")
      case True
      then have run: "http1_push_loop sid d mh mb ?st c (s + k) []
          = ([], ?st\<lparr>hz_pending := Some (p\<lparr>pc_remaining := ?w - k - length c\<rparr>)\<rparr>)"
        using False Some p(4) by (simp add: http1_push_loop.simps Let_def)
      show ?thesis
        unfolding push run
      proof (intro exI conjI)
        show "ms = [] @ ms" by simp
        show "sum_list (map (length \<circ> http_wire) []) + (k + length c) = k + length c" by simp
        show "([], ?st\<lparr>hz_pending := Some (p\<lparr>pc_remaining := ?w - k - length c\<rparr>)\<rparr>)
            = (http_messages sid d n s [], ?st\<lparr>hz_pending := Some (p\<lparr>pc_remaining := ?w - k - length c\<rparr>)\<rparr>)" by simp
      qed (use True p complete in \<open>simp_all add: http_at_def ms\<close>)
    next
      case big: False
      let ?c = "drop (?w - k) c"
      let ?st1 = "?st\<lparr>hz_pending := None\<rparr>"
      have run: "http1_push_loop sid d mh mb ?st c (s + k) []
          = http1_push_loop sid d mh mb ?st1 ?c (s + ?w) [http_expected sid d n s m]"
        using False big kw Some p(4) complete bounds(2) c(1)
        by (subst http1_push_loop.simps) (simp add: Let_def sat_add_def ms http_wire_def)
      have len: "length ?c \<le> length (http_stream ms')"
        using c(1) big kw by (simp add: ms http_wire_def)
      have part: "?c = take (length ?c) (drop 0 (http_stream ms'))"
      proof -
        have "?c = drop (?w - k) (take (length c) (drop k (http_stream ms)))" using c(2) by simp
        also have "\<dots> = take (length c - (?w - k)) (drop ?w (http_stream ms))" using kw by (simp add: drop_take)
        also have "drop ?w (http_stream ms) = http_stream ms'" by (simp add: ms http_wire_def)
        finally show ?thesis unfolding length_drop drop_0 .
      qed
      have ok': "http_limits_ok mh ms'" using ok by (simp add: ms http_limits_ok_def)
      have bounds': "n + 1 + length ms' \<le> u64_max" "s + ?w + length (http_stream ms') \<le> u64_max"
        using bounds by (simp_all add: ms http_wire_def)
      have "\<exists>ds rest k' st'. ms' = ds @ rest
          \<and> http1_push_loop sid d mh mb ?st1 ?c (s + ?w) [http_expected sid d n s m]
            = ([http_expected sid d n s m] @ http_messages sid d (n + 1) (s + ?w) ds, st')
          \<and> sum_list (map (length \<circ> http_wire) ds) + k' = length ?c
          \<and> http_at sid d rest (n + 1 + length ds) (s + ?w + sum_list (map (length \<circ> http_wire) ds)) k' st'"
      proof (cases "?c = []")
        case True
        have "http_at sid d ms' (n + 1) (s + ?w) 0 ?st1"
          using True p kw big ok' http_wire_pos
          by (auto simp: http_at_def http_limits_ok_def split: list.splits)
        then show ?thesis
          using True http1_push_loop.simps[of sid d mh mb ?st1 ?c "s + ?w" "[http_expected sid d n s m]"]
          by (metis (no_types, lifting) add_0 append_Nil append_Nil2 add.right_neutral http_messages.simps(1) list.map(1)
              list.size(3) sum_list.Nil)
      next
        case rest: False
        have "0 + length ?c \<le> length (http_stream ms')" "0 + length ?c \<le> mb" using len mb by simp_all
        from http1_push_loop_buffer[OF ok' this _ _ _ _ _ rest part bounds', of ?st1 sid d "[http_expected sid d n s m]"]
        show ?thesis using p kw big by simp
      qed
      then obtain ds rest k' st' where go: "ms' = ds @ rest"
        "http1_push_loop sid d mh mb ?st1 ?c (s + ?w) [http_expected sid d n s m]
          = ([http_expected sid d n s m] @ http_messages sid d (n + 1) (s + ?w) ds, st')"
        "sum_list (map (length \<circ> http_wire) ds) + k' = length ?c"
        "http_at sid d rest (n + 1 + length ds) (s + ?w + sum_list (map (length \<circ> http_wire) ds)) k' st'"
        by blast
      show ?thesis
        unfolding push run
      proof (intro exI conjI)
        show "ms = (m # ds) @ rest" using go(1) by (simp add: ms)
      qed (use go kw big in \<open>simp_all add: add.assoc\<close>)
    qed
  qed
qed

text \<open>A connection direction: the parser is pushed the chunks in which the stream arrives.\<close>

fun http1_run ::
  "http1_state \<Rightarrow> u64w \<Rightarrow> flow_direction \<Rightarrow> nat \<Rightarrow> nat \<Rightarrow> bytes list \<Rightarrow> stream_message list \<times> http1_state" where
  "http1_run st sid d mh mb [] = ([], st)"
| "http1_run st sid d mh mb (c # cs) =
     (case http1_push st sid d c mh mb of (messages, st1) \<Rightarrow>
      case http1_run st1 sid d mh mb cs of (later, st2) \<Rightarrow> (messages @ later, st2))"

lemma http_stream_append: "http_stream (as @ bs) = http_stream as @ http_stream bs"
  by (simp add: http_stream_def)

lemma http_stream_length: "length (http_stream ms) = sum_list (map (length \<circ> http_wire) ms)"
  by (induction ms) (simp_all add: http_wire_def)

lemma http1_run_stream:
  assumes "http_limits_ok mh ms" "http_at sid d ms n s k st" "concat cs = drop k (http_stream ms)"
    and "k \<le> length (http_stream ms)" "list_all (\<lambda>c. list_all (\<lambda>m. length (http_wire m) + length c \<le> mb) ms) cs"
    and "n + length ms \<le> u64_max" "s + length (http_stream ms) \<le> u64_max"
  shows "fst (http1_run st sid d mh mb cs) = http_messages sid d n s ms"
  using assms
proof (induction cs arbitrary: ms n s k st)
  case Nil
  then have "k = length (http_stream ms)" by simp
  then have "ms = []" using Nil.prems(2) by (cases ms) (simp_all add: http_at_def http_wire_def)
  then show ?case by simp
next
  case (Cons c cs)
  have len: "length c \<le> length (http_stream ms) - k" using arg_cong[OF Cons.prems(3), of length] by simp
  have c: "c = take (length c) (drop k (http_stream ms))"
    unfolding Cons.prems(3)[symmetric] by simp
  have kc: "k + length c \<le> length (http_stream ms)" using len Cons.prems(4) by simp
  have room: "list_all (\<lambda>m. length (http_wire m) + length c \<le> mb) ms" using Cons.prems(5) by simp
  obtain ds rest k' st' where go: "ms = ds @ rest" "http1_push st sid d c mh mb = (http_messages sid d n s ds, st')"
    "sum_list (map (length \<circ> http_wire) ds) + k' = k + length c"
    "http_at sid d rest (n + length ds) (s + sum_list (map (length \<circ> http_wire) ds)) k' st'"
    using http1_push_stream[OF Cons.prems(1,2) kc c room Cons.prems(6,7)] by blast
  have k': "k + length c = length (http_stream ds) + k'" using go(3) by (simp add: http_stream_length)
  have left: "concat cs = drop k' (http_stream rest)"
  proof -
    have "concat cs = drop (length c) (concat (c # cs))" by simp
    also have "\<dots> = drop (k + length c) (http_stream ms)" unfolding Cons.prems(3) by (simp add: add.commute)
    finally show ?thesis by (simp add: k' go(1) http_stream_append)
  qed
  have small: "k' \<le> length (http_stream rest)" using kc k' by (simp add: go(1) http_stream_append)
  have "fst (http1_run st' sid d mh mb cs)
      = http_messages sid d (n + length ds) (s + sum_list (map (length \<circ> http_wire) ds)) rest"
    by (rule Cons.IH[OF _ go(4) left small])
      (use Cons.prems(1,5-7) in \<open>simp_all add: go(1) http_limits_ok_def list_all_iff http_stream_append http_stream_length\<close>)
  then show ?case using go(1,2) by (simp add: http_messages_append case_prod_beta)
qed


definition sample_request :: "bytes \<times> bytes" where
  "sample_request = (str_bytes ''GET /x HTTP/1.1'' @ crlf @ crlf, [])"

lemma http_unchunked_ok:
  assumes "http_head_ok h" "case parse_http1_head (take (length h - 4) h) of Inl _ \<Rightarrow> False
    | Inr head \<Rightarrow> http_framed_body head b \<noteq> None \<and> body_framing head \<noteq> Chunked"
  shows "http_message_ok (h, b)"
  using assms by (auto simp: http_message_ok_def split: sum.splits)

lemma sample_request_ok: "http_message_ok sample_request"
proof -
  have "http_message_ok (fst sample_request, snd sample_request)" by (rule http_unchunked_ok) code_simp+
  then show ?thesis by simp
qed


end
