(* ===== verification/Framed_Stream.thy ===== *)
theory Framed_Stream
  imports Stream_Message
begin

text \<open>
  The reassembly of frames from a byte stream.  \<^verbatim>\<open>WebSocketDirectionState\<close> and \<^verbatim>\<open>TlsDirectionState\<close>
  of \<^verbatim>\<open>src/src/stream_message.rs\<close> have the same fields and the same \<^verbatim>\<open>push\<close>, up to the parser of one
  frame and the messages built; that common part is written once here, over the parser.  A loop
  that would not end (a frame of length 0) is the value \<open>None\<close>.

  The locale \<open>framing\<close> is what \<^verbatim>\<open>push\<close> needs of a frame parser; it is interpreted on the WebSocket and
  the TLS parsers in the theories that define them.
\<close>

subsection \<open>The direction state\<close>

datatype 'f frame_parse = FrameComplete 'f | FrameIncomplete | FrameInvalid string

record framed_state =
  fz_buffer :: bytes
  fz_buffer_start :: nat
  fz_next_logical :: nat
  fz_next_ordinal :: nat

definition framed_default :: framed_state where
  "framed_default = \<lparr>fz_buffer = [], fz_buffer_start = 0, fz_next_logical = 0, fz_next_ordinal = 0\<rparr>"

definition framed_clear :: "framed_state \<Rightarrow> framed_state" where
  "framed_clear st = st\<lparr>fz_buffer := [], fz_buffer_start := fz_next_logical st\<rparr>"

definition framed_drain :: "framed_state \<Rightarrow> nat \<Rightarrow> framed_state" where
  "framed_drain st n =
     (if n \<ge> length (fz_buffer st) then framed_clear st
      else st\<lparr>fz_buffer := drop n (fz_buffer st), fz_buffer_start := sat_add (fz_buffer_start st) n\<rparr>)"

definition framed_error ::
  "message_protocol \<Rightarrow> string \<Rightarrow> u64w \<Rightarrow> flow_direction \<Rightarrow> framed_state \<Rightarrow> string \<Rightarrow> stream_message \<times> framed_state"
where
  "framed_error protocol summary stream_id direction st reason =
     (let start = fz_buffer_start st;
          stop = sat_add start (length (fz_buffer st));
          ordinal = fz_next_ordinal st
      in (\<lparr>msg_stream_id = stream_id, msg_stream_id_hex = hex_fixed 16 (unat stream_id),
           msg_message_id = stable_message_id stream_id direction ordinal, msg_protocol = protocol,
           msg_kind = UnknownKind, msg_status = ParseError, msg_direction = direction,
           msg_ordinal = ordinal, msg_summary = summary, msg_logical_start = start,
           msg_logical_end = stop, msg_header_start = Some start, msg_header_end = Some stop,
           msg_body_start = None, msg_body_end = None, msg_wire_bytes = stop - start,
           msg_header_bytes = stop - start, msg_body_bytes = 0, msg_http = None, msg_dns = None,
           msg_websocket = None, msg_tls = None, msg_error = Some reason\<rparr>,
          st\<lparr>fz_next_ordinal := sat_add ordinal 1\<rparr>))"

text \<open>The loop of \<^verbatim>\<open>push\<close>.  \<open>mk\<close> builds the message of a frame from its ordinal and logical start.\<close>

function framed_loop ::
  "(bytes \<Rightarrow> 'f frame_parse) \<Rightarrow> ('f \<Rightarrow> nat) \<Rightarrow> (nat \<Rightarrow> nat \<Rightarrow> 'f \<Rightarrow> stream_message) \<Rightarrow>
   (framed_state \<Rightarrow> string \<Rightarrow> stream_message \<times> framed_state) \<Rightarrow> framed_state \<Rightarrow> stream_message list \<Rightarrow>
   (stream_message list \<times> framed_state) option" where
  "framed_loop parse flen mk err st messages = (case parse (fz_buffer st) of
     FrameIncomplete \<Rightarrow> Some (messages, st)
   | FrameInvalid reason \<Rightarrow> (case err st reason of (m, st1) \<Rightarrow> Some (messages @ [m], framed_clear st1))
   | FrameComplete f \<Rightarrow>
       (let m = mk (fz_next_ordinal st) (fz_buffer_start st) f;
            st1 = framed_drain (st\<lparr>fz_next_ordinal := sat_add (fz_next_ordinal st) 1\<rparr>) (flen f)
        in if fz_buffer st1 = [] then Some (messages @ [m], st1)
           else if flen f = 0 then None
           else framed_loop parse flen mk err st1 (messages @ [m])))"
  by pat_completeness auto
termination
  by (relation "measure (\<lambda>(_, _, _, _, st, _). length (fz_buffer st))")
    (auto simp: framed_drain_def framed_clear_def split: if_splits)

declare framed_loop.simps [simp del]

definition framed_input :: "framed_state \<Rightarrow> bytes \<Rightarrow> framed_state" where
  "framed_input st bs =
     (let st1 = (if fz_buffer st = [] then st\<lparr>fz_buffer_start := fz_next_logical st\<rparr> else st)
      in st1\<lparr>fz_next_logical := sat_add (fz_next_logical st1) (length bs), fz_buffer := fz_buffer st1 @ bs\<rparr>)"

definition framed_push ::
  "(bytes \<Rightarrow> 'f frame_parse) \<Rightarrow> ('f \<Rightarrow> nat) \<Rightarrow> (nat \<Rightarrow> nat \<Rightarrow> 'f \<Rightarrow> stream_message) \<Rightarrow>
   (framed_state \<Rightarrow> string \<Rightarrow> stream_message \<times> framed_state) \<Rightarrow> string \<Rightarrow> framed_state \<Rightarrow> bytes \<Rightarrow> nat \<Rightarrow>
   (stream_message list \<times> framed_state) option" where
  "framed_push parse flen mk err limit_reason st bs max_buffer_bytes =
     (if bs = [] then Some ([], st)
      else let st1 = framed_input st bs in
        if length (fz_buffer st1) > max_buffer_bytes
        then (case err st1 limit_reason of (m, st2) \<Rightarrow> Some ([m], framed_clear st2))
        else framed_loop parse flen mk err st1 [])"

text \<open>The pushes of consecutive chunks.\<close>

fun framed_run ::
  "(framed_state \<Rightarrow> bytes \<Rightarrow> (stream_message list \<times> framed_state) option) \<Rightarrow> framed_state \<Rightarrow> bytes list \<Rightarrow>
   (stream_message list \<times> framed_state) option" where
  "framed_run push st [] = Some ([], st)"
| "framed_run push st (c # cs) = (case push st c of
     None \<Rightarrow> None
   | Some (ms, st1) \<Rightarrow> (case framed_run push st1 cs of
       None \<Rightarrow> None
     | Some (ms', st2) \<Rightarrow> Some (ms @ ms', st2)))"

subsection \<open>The frames of a byte string\<close>

text \<open>The specification: the frames at the start of a byte string, what is left, and whether the rest
  is invalid.\<close>

function split_frames :: "(bytes \<Rightarrow> 'f frame_parse) \<Rightarrow> ('f \<Rightarrow> nat) \<Rightarrow> bytes \<Rightarrow> 'f list \<times> bytes \<times> string option" where
  "split_frames parse flen bs =
     (if bs = [] then ([], [], None)
      else case parse bs of
        FrameIncomplete \<Rightarrow> ([], bs, None)
      | FrameInvalid reason \<Rightarrow> ([], bs, Some reason)
      | FrameComplete f \<Rightarrow>
          if flen f = 0 then ([], bs, None)
          else (case split_frames parse flen (drop (flen f) bs) of (fs, rest, e) \<Rightarrow> (f # fs, rest, e)))"
  by pat_completeness auto
termination by (relation "measure (\<lambda>(_, _, bs). length bs)") auto

declare split_frames.simps [simp del]

text \<open>The messages of consecutive frames, the first with the given ordinal and logical start.\<close>

fun build_messages ::
  "('f \<Rightarrow> nat) \<Rightarrow> (nat \<Rightarrow> nat \<Rightarrow> 'f \<Rightarrow> stream_message) \<Rightarrow> nat \<Rightarrow> nat \<Rightarrow> 'f list \<Rightarrow> stream_message list" where
  "build_messages flen mk ordinal start [] = []"
| "build_messages flen mk ordinal start (f # fs) =
     mk ordinal start f # build_messages flen mk (sat_add ordinal 1) (start + flen f) fs"

fun add_ordinals :: "nat \<Rightarrow> nat \<Rightarrow> nat" where
  "add_ordinals ordinal 0 = ordinal"
| "add_ordinals ordinal (Suc n) = add_ordinals (sat_add ordinal 1) n"

lemma add_ordinals_add: "add_ordinals ordinal (m + n) = add_ordinals (add_ordinals ordinal m) n"
  by (induction m arbitrary: ordinal) simp_all

lemma build_messages_append:
  "build_messages flen mk ordinal start (fs @ gs) = build_messages flen mk ordinal start fs
    @ build_messages flen mk (add_ordinals ordinal (length fs)) (start + sum_list (map flen fs)) gs"
  by (induction fs arbitrary: ordinal start) (simp_all add: add.assoc)

text \<open>The state's bytes end where the stream read so far ends.\<close>

definition framed_ok :: "framed_state \<Rightarrow> bool" where
  "framed_ok st \<longleftrightarrow> fz_buffer_start st + length (fz_buffer st) = fz_next_logical st
     \<and> fz_next_logical st \<le> u64_max"

lemma framed_default_ok: "framed_ok framed_default"
  by (simp add: framed_ok_def framed_default_def)

lemma framed_drain_ok:
  "framed_ok st \<Longrightarrow> n \<le> length (fz_buffer st) \<Longrightarrow> framed_ok (framed_drain st n)
    \<and> fz_buffer (framed_drain st n) = drop n (fz_buffer st)
    \<and> fz_buffer_start (framed_drain st n) = fz_buffer_start st + n
    \<and> fz_next_logical (framed_drain st n) = fz_next_logical st
    \<and> fz_next_ordinal (framed_drain st n) = fz_next_ordinal st"
  by (auto simp: framed_drain_def framed_clear_def framed_ok_def sat_add_def)

lemma framed_input_ok:
  "framed_ok st \<Longrightarrow> fz_next_logical st + length bs \<le> u64_max \<Longrightarrow> framed_ok (framed_input st bs)
    \<and> fz_buffer (framed_input st bs) = fz_buffer st @ bs
    \<and> fz_buffer_start (framed_input st bs) = fz_buffer_start st
    \<and> fz_next_ordinal (framed_input st bs) = fz_next_ordinal st
    \<and> fz_next_logical (framed_input st bs) = fz_next_logical st + length bs"
  by (auto simp: framed_input_def framed_ok_def sat_add_def Let_def)

subsection \<open>What a frame parser promises\<close>

locale framing =
  fixes parse :: "bytes \<Rightarrow> 'f frame_parse" and flen :: "'f \<Rightarrow> nat"
  assumes frame_length: "parse bs = FrameComplete f \<Longrightarrow> 0 < flen f \<and> flen f \<le> length bs"
    and frame_extend: "parse bs = FrameComplete f \<Longrightarrow> parse (bs @ xs) = FrameComplete f"
    and invalid_extend: "parse bs = FrameInvalid reason \<Longrightarrow> parse (bs @ xs) = FrameInvalid reason"
    and empty_incomplete: "parse [] = FrameIncomplete"
begin

lemma split_frames_append:
  "split_frames parse flen bs = (fs, rest, None) \<Longrightarrow>
    split_frames parse flen (bs @ xs) = (case split_frames parse flen (rest @ xs) of
      (gs, rest', e) \<Rightarrow> (fs @ gs, rest', e))"
proof (induction "length bs" arbitrary: bs fs rule: less_induct)
  case less
  show ?case
  proof (cases "bs = []")
    case True
    then show ?thesis using less.prems by (auto simp: split_frames.simps[of parse flen "[]"] split: prod.splits)
  next
    case False
    show ?thesis
    proof (cases "parse bs")
      case (FrameComplete f)
      note len = frame_length[OF FrameComplete]
      obtain fs1 where tail: "split_frames parse flen (drop (flen f) bs) = (fs1, rest, None)" "fs = f # fs1"
        using less.prems len False
        by (auto simp: split_frames.simps[of parse flen bs] FrameComplete split: prod.splits)
      have "split_frames parse flen (drop (flen f) bs @ xs) = (case split_frames parse flen (rest @ xs) of
          (gs, rest', e) \<Rightarrow> (fs1 @ gs, rest', e))"
        by (rule less.hyps[OF _ tail(1)]) (use len False in simp)
      then show ?thesis
        using len False by (simp add: split_frames.simps[of parse flen "bs @ xs"]
            frame_extend[OF FrameComplete] tail(2) split: prod.splits)
    next
      case FrameIncomplete
      then show ?thesis
        using less.prems False by (auto simp: split_frames.simps[of parse flen bs] split: prod.splits)
    next
      case (FrameInvalid reason)
      then show ?thesis using less.prems False by (simp add: split_frames.simps[of parse flen bs])
    qed
  qed
qed

text \<open>A prefix of a valid stream is valid.\<close>

lemma split_frames_prefix:
  "snd (snd (split_frames parse flen (bs @ xs))) = None \<Longrightarrow> snd (snd (split_frames parse flen bs)) = None"
proof (induction "length bs" arbitrary: bs rule: less_induct)
  case less
  show ?case
  proof (cases "bs = []")
    case True
    then show ?thesis by (simp add: split_frames.simps[of parse flen "[]"])
  next
    case False
    show ?thesis
    proof (cases "parse bs")
      case (FrameComplete f)
      note len = frame_length[OF FrameComplete]
      have "snd (snd (split_frames parse flen (drop (flen f) bs @ xs))) = None"
        using less.prems len False by (simp add: split_frames.simps[of parse flen "bs @ xs"]
            frame_extend[OF FrameComplete] split: prod.splits)
      then have "snd (snd (split_frames parse flen (drop (flen f) bs))) = None"
        by (rule less.hyps[rotated]) (use len False in simp)
      then show ?thesis
        by (cases "split_frames parse flen (drop (flen f) bs)")
          (simp add: split_frames.simps[of parse flen bs] FrameComplete)
    next
      case FrameIncomplete
      then show ?thesis by (simp add: split_frames.simps[of parse flen bs])
    next
      case (FrameInvalid reason)
      then show ?thesis
        using less.prems False invalid_extend[OF FrameInvalid, of xs]
        by (simp add: split_frames.simps[of parse flen "bs @ xs"])
    qed
  qed
qed

lemma split_frames_concat:
  "split_frames parse flen bs = (fs, rest, e) \<Longrightarrow>
    sum_list (map flen fs) + length rest = length bs \<and> rest = drop (sum_list (map flen fs)) bs"
proof (induction "length bs" arbitrary: bs fs rule: less_induct)
  case less
  show ?case
  proof (cases "bs = []")
    case True
    then show ?thesis using less.prems by (auto simp: split_frames.simps[of parse flen "[]"])
  next
    case False
    show ?thesis
    proof (cases "parse bs")
      case (FrameComplete f)
      note len = frame_length[OF FrameComplete]
      obtain fs1 where tail: "split_frames parse flen (drop (flen f) bs) = (fs1, rest, e)" "fs = f # fs1"
        using less.prems len False
        by (auto simp: split_frames.simps[of parse flen bs] FrameComplete split: prod.splits)
      show ?thesis
        using less.hyps[OF _ tail(1)] len False tail(2) by (auto simp: add.commute)
    qed (use less.prems False in \<open>auto simp: split_frames.simps[of parse flen bs]\<close>)
  qed
qed

text \<open>The loop turns the frames of the buffer into messages and keeps the rest.\<close>

lemma framed_loop_frames:
  assumes "framed_ok st" "split_frames parse flen (fz_buffer st) = (fs, rest, None)"
  shows "\<exists>st'. framed_loop parse flen mk err st messages
      = Some (messages @ build_messages flen mk (fz_next_ordinal st) (fz_buffer_start st) fs, st')
    \<and> framed_ok st' \<and> fz_buffer st' = rest \<and> fz_next_logical st' = fz_next_logical st
    \<and> fz_buffer_start st' = fz_buffer_start st + sum_list (map flen fs)
    \<and> fz_next_ordinal st' = add_ordinals (fz_next_ordinal st) (length fs)"
  using assms
proof (induction "length (fz_buffer st)" arbitrary: st fs messages rule: less_induct)
  case less
  show ?case
  proof (cases "fz_buffer st = []")
    case True
    then show ?thesis
      using less.prems empty_incomplete
      by (auto simp: framed_loop.simps[of parse flen mk err st] split_frames.simps[of parse flen "[]"])
  next
    case False
    show ?thesis
    proof (cases "parse (fz_buffer st)")
      case (FrameComplete f)
      note len = frame_length[OF FrameComplete]
      obtain fs1 where tail: "split_frames parse flen (drop (flen f) (fz_buffer st)) = (fs1, rest, None)"
        "fs = f # fs1"
        using less.prems(2) len False
        by (auto simp: split_frames.simps[of parse flen "fz_buffer st"] FrameComplete split: prod.splits)
      let ?st = "st\<lparr>fz_next_ordinal := sat_add (fz_next_ordinal st) 1\<rparr>"
      let ?st1 = "framed_drain ?st (flen f)"
      have d: "framed_ok ?st1" "fz_buffer ?st1 = drop (flen f) (fz_buffer st)"
        "fz_buffer_start ?st1 = fz_buffer_start st + flen f" "fz_next_logical ?st1 = fz_next_logical st"
        "fz_next_ordinal ?st1 = sat_add (fz_next_ordinal st) 1"
        using framed_drain_ok[of ?st "flen f"] less.prems(1) len by (auto simp: framed_ok_def)
      have step: "framed_loop parse flen mk err st messages
          = (if fz_buffer ?st1 = []
             then Some (messages @ [mk (fz_next_ordinal st) (fz_buffer_start st) f], ?st1)
             else framed_loop parse flen mk err ?st1 (messages @ [mk (fz_next_ordinal st) (fz_buffer_start st) f]))"
        using len by (simp add: framed_loop.simps[of parse flen mk err st] FrameComplete Let_def)
      show ?thesis
      proof (cases "fz_buffer ?st1 = []")
        case True
        then have "fs1 = []" "rest = []"
          using tail(1) unfolding d(2) by (auto simp: split_frames.simps[of parse flen "[]"])
        then show ?thesis
          using True d step tail(2) by (auto intro!: exI[of _ ?st1])
      next
        case nonempty: False
        have shorter: "length (fz_buffer ?st1) < length (fz_buffer st)" using d(2) len False by simp
        obtain st' where st': "framed_loop parse flen mk err ?st1
              (messages @ [mk (fz_next_ordinal st) (fz_buffer_start st) f])
            = Some ((messages @ [mk (fz_next_ordinal st) (fz_buffer_start st) f])
              @ build_messages flen mk (fz_next_ordinal ?st1) (fz_buffer_start ?st1) fs1, st')"
          "framed_ok st'" "fz_buffer st' = rest" "fz_next_logical st' = fz_next_logical ?st1"
          "fz_buffer_start st' = fz_buffer_start ?st1 + sum_list (map flen fs1)"
          "fz_next_ordinal st' = add_ordinals (fz_next_ordinal ?st1) (length fs1)"
          using less.hyps[OF shorter d(1) tail(1)[folded d(2)]] by blast
        show ?thesis
          using st' step nonempty d(3,4,5) tail(2) by (auto intro!: exI[of _ st'])
      qed
    next
      case FrameIncomplete
      then show ?thesis
        using less.prems False
        by (auto simp: framed_loop.simps[of parse flen mk err st] split_frames.simps[of parse flen "fz_buffer st"])
    next
      case (FrameInvalid reason)
      then show ?thesis
        using less.prems False by (simp add: split_frames.simps[of parse flen "fz_buffer st"])
    qed
  qed
qed

text \<open>Without an invalid frame, and within the buffer limit, \<^verbatim>\<open>push\<close> delivers exactly the frames.\<close>

lemma framed_push_frames:
  assumes "framed_ok st" "fz_next_logical st + length bs \<le> u64_max" "length (fz_buffer st @ bs) \<le> mx"
    and "bs \<noteq> []" "split_frames parse flen (fz_buffer st @ bs) = (fs, rest, None)"
  shows "\<exists>st'. framed_push parse flen mk err limit st bs mx
      = Some (build_messages flen mk (fz_next_ordinal st) (fz_buffer_start st) fs, st')
    \<and> framed_ok st' \<and> fz_buffer st' = rest \<and> fz_next_logical st' = fz_next_logical st + length bs
    \<and> fz_buffer_start st' = fz_buffer_start st + sum_list (map flen fs)
    \<and> fz_next_ordinal st' = add_ordinals (fz_next_ordinal st) (length fs)"
proof -
  note i = framed_input_ok[OF assms(1,2)]
  have "framed_push parse flen mk err limit st bs mx = framed_loop parse flen mk err (framed_input st bs) []"
    using assms(3,4) i by (simp add: framed_push_def Let_def)
  moreover have "framed_ok (framed_input st bs)" using i by blast
  moreover have "split_frames parse flen (fz_buffer (framed_input st bs)) = (fs, rest, None)"
    using assms(5) i by simp
  ultimately show ?thesis
    using framed_loop_frames[of "framed_input st bs" fs rest mk err "[]"] i by simp
qed

text \<open>How the stream is cut into chunks does not matter.\<close>

lemma framed_push_split:
  assumes "framed_ok st" "fz_next_logical st + length (as @ bs) \<le> u64_max"
    and "length (fz_buffer st @ as @ bs) \<le> mx" "as \<noteq> []" "bs \<noteq> []"
    and "snd (snd (split_frames parse flen (fz_buffer st @ as @ bs))) = None"
  shows "\<exists>ms1 st1 ms2 st2. framed_push parse flen mk err limit st as mx = Some (ms1, st1)
    \<and> framed_push parse flen mk err limit st1 bs mx = Some (ms2, st2)
    \<and> framed_push parse flen mk err limit st (as @ bs) mx = Some (ms1 @ ms2, st2)"
proof -
  have "snd (snd (split_frames parse flen (fz_buffer st @ as))) = None"
    by (rule split_frames_prefix[of _ bs]) (use assms(6) in simp)
  then obtain fs r where fs: "split_frames parse flen (fz_buffer st @ as) = (fs, r, None)"
    by (metis prod.collapse)
  obtain gs r' e where gs: "split_frames parse flen (r @ bs) = (gs, r', e)" by (metis prod_cases3)
  have both: "split_frames parse flen (fz_buffer st @ as @ bs) = (fs @ gs, r', e)"
    using split_frames_append[OF fs, of bs] gs by simp
  then have e: "e = None" using assms(6) by simp
  have conc: "length r \<le> length (fz_buffer st @ as)" using split_frames_concat[OF fs] by linarith
  obtain st1 where st1: "framed_push parse flen mk err limit st as mx
      = Some (build_messages flen mk (fz_next_ordinal st) (fz_buffer_start st) fs, st1)"
    "framed_ok st1" "fz_buffer st1 = r" "fz_next_logical st1 = fz_next_logical st + length as"
    "fz_buffer_start st1 = fz_buffer_start st + sum_list (map flen fs)"
    "fz_next_ordinal st1 = add_ordinals (fz_next_ordinal st) (length fs)"
    using framed_push_frames[OF assms(1) _ _ assms(4) fs, of mx mk err limit] assms(2,3) by auto
  obtain st2 where st2: "framed_push parse flen mk err limit st1 bs mx
      = Some (build_messages flen mk (fz_next_ordinal st1) (fz_buffer_start st1) gs, st2)"
    "framed_ok st2" "fz_buffer st2 = r'" "fz_next_logical st2 = fz_next_logical st1 + length bs"
    "fz_buffer_start st2 = fz_buffer_start st1 + sum_list (map flen gs)"
    "fz_next_ordinal st2 = add_ordinals (fz_next_ordinal st1) (length gs)"
    using framed_push_frames[OF st1(2) _ _ assms(5), of mx gs r' mk err limit] st1(3,4) gs e assms(2,3) conc
    by auto
  obtain st3 where st3: "framed_push parse flen mk err limit st (as @ bs) mx
      = Some (build_messages flen mk (fz_next_ordinal st) (fz_buffer_start st) (fs @ gs), st3)"
    "framed_ok st3" "fz_buffer st3 = r'" "fz_next_logical st3 = fz_next_logical st + length (as @ bs)"
    "fz_buffer_start st3 = fz_buffer_start st + sum_list (map flen (fs @ gs))"
    "fz_next_ordinal st3 = add_ordinals (fz_next_ordinal st) (length (fs @ gs))"
    using framed_push_frames[OF assms(1) _ _ _ both[unfolded e], of mx mk err limit] assms(2-5) by auto
  have "st3 = st2"
    using st1 st2 st3 by (intro framed_state.equality) (simp_all add: add_ordinals_add)
  moreover have "build_messages flen mk (fz_next_ordinal st) (fz_buffer_start st) (fs @ gs)
      = build_messages flen mk (fz_next_ordinal st) (fz_buffer_start st) fs
        @ build_messages flen mk (fz_next_ordinal st1) (fz_buffer_start st1) gs"
    unfolding build_messages_append st1(5,6) by (rule refl)
  ultimately show ?thesis using st1(1) st2(1) st3(1) by simp
qed

text \<open>\<^verbatim>\<open>push\<close> returns, on any bytes and in any state.\<close>

lemma framed_loop_returns: "\<exists>ms st'. framed_loop parse flen mk err st messages = Some (ms, st')"
proof (induction "length (fz_buffer st)" arbitrary: st messages rule: less_induct)
  case less
  show ?case
  proof (cases "parse (fz_buffer st)")
    case (FrameComplete f)
    note len = frame_length[OF FrameComplete]
    let ?st1 = "framed_drain (st\<lparr>fz_next_ordinal := sat_add (fz_next_ordinal st) 1\<rparr>) (flen f)"
    have "fz_buffer ?st1 \<noteq> [] \<Longrightarrow> length (fz_buffer ?st1) < length (fz_buffer st)"
      using len by (auto simp: framed_drain_def framed_clear_def split: if_splits)
    then show ?thesis
      using less.hyps len by (simp add: framed_loop.simps[of parse flen mk err st] FrameComplete Let_def)
  next
    case (FrameInvalid reason)
    then show ?thesis by (simp add: framed_loop.simps[of parse flen mk err st] split: prod.splits)
  qed (simp add: framed_loop.simps[of parse flen mk err st])
qed

lemma framed_push_returns: "\<exists>ms st'. framed_push parse flen mk err limit st bs mx = Some (ms, st')"
  using framed_loop_returns by (auto simp: framed_push_def Let_def split: prod.splits)

text \<open>Any way of cutting a valid stream into chunks gives the messages of its frames.\<close>

lemma split_frames_rest: "split_frames parse flen bs = (fs, rest, None) \<Longrightarrow> split_frames parse flen rest = ([], rest, None)"
proof (induction "length bs" arbitrary: bs fs rule: less_induct)
  case less
  show ?case
  proof (cases "bs = []")
    case True
    then show ?thesis using less.prems by (auto simp: split_frames.simps[of parse flen "[]"])
  next
    case False
    show ?thesis
    proof (cases "parse bs")
      case (FrameComplete f)
      note len = frame_length[OF FrameComplete]
      obtain fs1 where tail: "split_frames parse flen (drop (flen f) bs) = (fs1, rest, None)"
        using less.prems len False
        by (auto simp: split_frames.simps[of parse flen bs] FrameComplete split: prod.splits)
      show ?thesis by (rule less.hyps[OF _ tail]) (use len False in simp)
    next
      case FrameIncomplete
      then have "rest = bs" "fs = []" using less.prems False by (simp_all add: split_frames.simps[of parse flen bs])
      then show ?thesis using less.prems by simp
    qed (use less.prems False in \<open>simp_all add: split_frames.simps[of parse flen bs]\<close>)
  qed
qed

lemma framed_run_frames:
  assumes "framed_ok st" "fz_next_logical st + length (concat cs) \<le> u64_max"
    and "length (fz_buffer st @ concat cs) \<le> mx"
    and "split_frames parse flen (fz_buffer st) = ([], fz_buffer st, None)"
    and "split_frames parse flen (fz_buffer st @ concat cs) = (fs, rest, None)"
  shows "\<exists>st'. framed_run (\<lambda>st bs. framed_push parse flen mk err limit st bs mx) st cs
      = Some (build_messages flen mk (fz_next_ordinal st) (fz_buffer_start st) fs, st')
    \<and> framed_ok st' \<and> fz_buffer st' = rest"
  using assms
proof (induction cs arbitrary: st fs)
  case (Cons c cs)
  show ?case
  proof (cases "c = []")
    case True
    have "framed_push parse flen mk err limit st c mx = Some ([], st)" by (simp add: framed_push_def True)
    then show ?thesis using Cons.IH[OF Cons.prems(1) _ _ Cons.prems(4), of fs] Cons.prems True by auto
  next
    case False
    have "snd (snd (split_frames parse flen (fz_buffer st @ c))) = None"
      by (rule split_frames_prefix[of _ "concat cs"]) (use Cons.prems(5) in simp)
    then obtain gs r where gs: "split_frames parse flen (fz_buffer st @ c) = (gs, r, None)"
      by (metis prod.collapse)
    obtain hs r' e where hs: "split_frames parse flen (r @ concat cs) = (hs, r', e)" by (metis prod_cases3)
    have both: "fs = gs @ hs" "r' = rest" "e = None"
      using split_frames_append[OF gs, of "concat cs"] hs Cons.prems(5) by simp_all
    obtain st1 where st1: "framed_push parse flen mk err limit st c mx
        = Some (build_messages flen mk (fz_next_ordinal st) (fz_buffer_start st) gs, st1)"
      "framed_ok st1" "fz_buffer st1 = r" "fz_next_logical st1 = fz_next_logical st + length c"
      "fz_buffer_start st1 = fz_buffer_start st + sum_list (map flen gs)"
      "fz_next_ordinal st1 = add_ordinals (fz_next_ordinal st) (length gs)"
      using framed_push_frames[OF Cons.prems(1) _ _ False gs, of mx mk err limit] Cons.prems(2,3) by auto
    have "length r \<le> length (fz_buffer st @ c)" using split_frames_concat[OF gs] by linarith
    then obtain st' where st': "framed_run (\<lambda>st bs. framed_push parse flen mk err limit st bs mx) st1 cs
        = Some (build_messages flen mk (fz_next_ordinal st1) (fz_buffer_start st1) hs, st')"
      "framed_ok st'" "fz_buffer st' = rest"
      using Cons.IH[OF st1(2), of hs] split_frames_rest[OF gs] st1(3,4) hs both Cons.prems(2,3) by auto
    show ?thesis
      using st1(1,5,6) st' by (simp add: both(1) build_messages_append)
  qed
qed auto

lemma split_frames_encoded:
  "(\<And>f e xs. (f, e) \<in> set fes \<Longrightarrow> flen f = length e \<and> parse (e @ xs) = FrameComplete f) \<Longrightarrow>
    split_frames parse flen (concat (map snd fes)) = (map fst fes, [], None)"
proof (induction fes)
  case (Cons p fes)
  obtain f e where p: "p = (f, e)" by fastforce
  have e: "flen f = length e" "parse (e @ concat (map snd fes)) = FrameComplete f"
    using Cons.prems[of f e "concat (map snd fes)"] by (simp_all add: p)
  have "parse e = FrameComplete f" using Cons.prems[of f e "[]"] by (simp add: p)
  then have "0 < length e" using frame_length e(1) by fastforce
  moreover have "split_frames parse flen (concat (map snd fes)) = (map fst fes, [], None)"
    by (rule Cons.IH) (use Cons.prems in simp)
  ultimately show ?case
    using e by (simp add: p split_frames.simps[of parse flen "e @ concat (map snd fes)"])
qed (simp add: split_frames.simps[of parse flen "[]"])

end

end
