(* ===== verification/Ws_Parser.thy ===== *)
theory Ws_Parser
  imports Framed_Stream Wire_Encoding
begin

text \<open>
  The WebSocket frame parser of \<^verbatim>\<open>src/src/stream_message.rs\<close> and its stream state
  \<^verbatim>\<open>WebSocketDirectionState\<close>, an instance of \<open>framed_push\<close>.
\<close>

subsection \<open>One frame\<close>

record parsed_ws_frame =
  wf_total_len :: nat
  wf_header_len :: nat
  wf_info :: ws_info

definition max_ws_payload_preview_bytes :: nat where
  "max_ws_payload_preview_bytes = 128"

text \<open>\<^verbatim>\<open>mask.map_or(byte, |mask| byte ^ mask[index % 4])\<close>; a mask has four bytes.\<close>

definition unmask_byte :: "u8 \<Rightarrow> bytes option \<Rightarrow> nat \<Rightarrow> u8" where
  "unmask_byte byte msk index = (case msk of None \<Rightarrow> byte | Some m \<Rightarrow> byte XOR m ! (index mod 4))"

definition websocket_opcode_name :: "u8 \<Rightarrow> string" where
  "websocket_opcode_name opcode =
     (if opcode = 0 then ''continuation''
      else if opcode = 1 then ''text''
      else if opcode = 2 then ''binary''
      else if opcode = 8 then ''close''
      else if opcode = 9 then ''ping''
      else if opcode = 10 then ''pong''
      else ''unknown'')"

definition escape_newlines :: "string \<Rightarrow> string" where
  "escape_newlines s =
     replace_char (char_of (10 :: nat)) [CHR 0x5C, CHR ''n''] (replace_char (char_of (13 :: nat)) [CHR 0x5C, CHR ''r''] s)"

definition websocket_payload_preview :: "bytes \<Rightarrow> bytes option \<Rightarrow> u8 \<Rightarrow> string option" where
  "websocket_payload_preview payload msk opcode =
     (if \<not> (opcode = 1 \<or> opcode = 8 \<or> opcode = 9 \<or> opcode = 10) then None
      else
        let decoded = map (\<lambda>(index, byte). unmask_byte byte msk index)
              (enumerate 0 (take (min (length payload) max_ws_payload_preview_bytes) payload))
        in case str_from_utf8 decoded of
             None \<Rightarrow> None
           | Some text \<Rightarrow> (let text = escape_newlines text in if text = [] then None else Some text))"

text \<open>The length field: the payload's length and the header's length so far, \<open>None\<close> when more bytes
  are needed.\<close>

definition ws_length_field :: "bytes \<Rightarrow> u8 \<Rightarrow> (nat \<times> nat) option" where
  "ws_length_field bs len7 =
     (if len7 = 126 then (if length bs < 4 then None else Some (unat (u16_be (bs ! 2) (bs ! 3)), 4))
      else if len7 = 127 then (if length bs < 10 then None else Some (nat_be (take 8 (drop 2 bs)), 10))
      else Some (unat len7, 2))"

definition ws_mask_field :: "bytes \<Rightarrow> bool \<Rightarrow> nat \<Rightarrow> (bytes option \<times> nat) option" where
  "ws_mask_field bs masked header_len =
     (if masked then (if length bs < header_len + 4 then None
        else Some (Some (take 4 (drop header_len bs)), header_len + 4))
      else Some (None, header_len))"

definition ws_close_code :: "bytes \<Rightarrow> bytes option \<Rightarrow> u8 \<Rightarrow> nat \<Rightarrow> u16 option" where
  "ws_close_code payload msk opcode payload_len =
     (if opcode = 8 \<and> payload_len \<ge> 2
      then Some (u16_be (unmask_byte (payload ! 0) msk 0) (unmask_byte (payload ! 1) msk 1)) else None)"

definition parse_websocket_frame :: "bytes \<Rightarrow> parsed_ws_frame frame_parse" where
  "parse_websocket_frame bs =
     (if length bs < 2 then FrameIncomplete
      else
        let first = bs ! 0; second = bs ! 1;
            fin = first AND 0x80 \<noteq> 0;
            opcode = first AND 0x0f
        in if \<not> (opcode \<le> 2 \<or> (8 \<le> opcode \<and> opcode \<le> 10))
           then FrameInvalid (''unsupported websocket opcode '' @ show_nat (unat opcode))
           else
             let control = opcode \<ge> 8 in
             if control \<and> \<not> fin then FrameInvalid ''fragmented websocket control frame''
             else
               let masked = second AND 0x80 \<noteq> 0 in
               case ws_length_field bs (second AND 0x7f) of
                 None \<Rightarrow> FrameIncomplete
               | Some (payload_len, header_len0) \<Rightarrow>
                   if control \<and> payload_len > 125 then FrameInvalid ''oversized websocket control frame''
                   else if payload_len > u64_max then FrameInvalid ''websocket payload is too large''
                   else case ws_mask_field bs masked header_len0 of
                     None \<Rightarrow> FrameIncomplete
                   | Some (msk, header_len) \<Rightarrow>
                       let total_len = sat_add header_len payload_len in
                       if length bs < total_len then FrameIncomplete
                       else
                         let payload = take (total_len - header_len) (drop header_len bs) in
                         FrameComplete \<lparr>wf_total_len = total_len, wf_header_len = header_len,
                           wf_info = \<lparr>wi_opcode = opcode, wi_opcode_name = websocket_opcode_name opcode,
                             wi_fin = fin, wi_rsv1 = first AND 0x40 \<noteq> 0, wi_rsv2 = first AND 0x20 \<noteq> 0,
                             wi_rsv3 = first AND 0x10 \<noteq> 0, wi_masked = masked, wi_control = control,
                             wi_payload_bytes = payload_len, wi_header_bytes = header_len,
                             wi_close_code = ws_close_code payload msk opcode payload_len,
                             wi_text_preview = websocket_payload_preview payload msk opcode\<rparr>\<rparr>)"

subsection \<open>The messages of a stream\<close>

definition websocket_summary :: "ws_info \<Rightarrow> string" where
  "websocket_summary info =
     ''WS '' @ wi_opcode_name info @ '' '' @ show_nat (wi_payload_bytes info) @ '' bytes''
     @ (if wi_rsv1 info then '' compressed'' else [])
     @ (case wi_close_code info of None \<Rightarrow> [] | Some c \<Rightarrow> '' close='' @ show_nat (unat c))
     @ (case wi_text_preview info of None \<Rightarrow> [] | Some p \<Rightarrow> '' '' @ p)"

definition websocket_stream_message ::
  "u64w \<Rightarrow> flow_direction \<Rightarrow> nat \<Rightarrow> nat \<Rightarrow> nat \<Rightarrow> nat \<Rightarrow> ws_info \<Rightarrow> stream_message" where
  "websocket_stream_message stream_id direction ordinal logical_start header_end logical_end info =
     \<lparr>msg_stream_id = stream_id, msg_stream_id_hex = hex_fixed 16 (unat stream_id),
      msg_message_id = stable_message_id stream_id direction ordinal, msg_protocol = WebSocket,
      msg_kind = UnknownKind, msg_status = Complete, msg_direction = direction, msg_ordinal = ordinal,
      msg_summary = websocket_summary info, msg_logical_start = logical_start,
      msg_logical_end = logical_end, msg_header_start = Some logical_start,
      msg_header_end = Some header_end, msg_body_start = Some header_end,
      msg_body_end = Some logical_end, msg_wire_bytes = logical_end - logical_start,
      msg_header_bytes = header_end - logical_start, msg_body_bytes = logical_end - header_end,
      msg_http = None, msg_dns = None, msg_websocket = Some info, msg_tls = None, msg_error = None\<rparr>"

definition ws_frame_message :: "u64w \<Rightarrow> flow_direction \<Rightarrow> nat \<Rightarrow> nat \<Rightarrow> parsed_ws_frame \<Rightarrow> stream_message" where
  "ws_frame_message stream_id direction ordinal logical_start frame =
     websocket_stream_message stream_id direction ordinal logical_start
       (sat_add logical_start (wf_header_len frame)) (sat_add logical_start (wf_total_len frame)) (wf_info frame)"

definition ws_parse_error ::
  "u64w \<Rightarrow> flow_direction \<Rightarrow> framed_state \<Rightarrow> string \<Rightarrow> stream_message \<times> framed_state" where
  "ws_parse_error = framed_error WebSocket ''WebSocket parse error''"

definition ws_push ::
  "framed_state \<Rightarrow> u64w \<Rightarrow> flow_direction \<Rightarrow> bytes \<Rightarrow> nat \<Rightarrow> (stream_message list \<times> framed_state) option" where
  "ws_push st stream_id direction bs max_buffer_bytes =
     framed_push parse_websocket_frame wf_total_len (ws_frame_message stream_id direction)
       (ws_parse_error stream_id direction) ''websocket frame exceeded parser buffer limit'' st bs max_buffer_bytes"

subsection \<open>The parser is a framing\<close>

lemma ws_length_field_extend: "ws_length_field bs l = Some r \<Longrightarrow> 2 \<le> length bs \<Longrightarrow> ws_length_field (bs @ xs) l = Some r"
  by (auto simp: ws_length_field_def nth_append split: if_splits)

lemma ws_mask_field_extend: "ws_mask_field bs masked h = Some r \<Longrightarrow> ws_mask_field (bs @ xs) masked h = Some r"
  by (auto simp: ws_mask_field_def split: if_splits)

lemma ws_length_field_bound: "ws_length_field bs l = Some (n, h) \<Longrightarrow> 2 \<le> h"
  by (auto simp: ws_length_field_def split: if_splits)

lemma ws_length_field_le: "ws_length_field bs l = Some (n, h) \<Longrightarrow> h \<le> 10"
  by (auto simp: ws_length_field_def split: if_splits)

lemma ws_mask_field_bound: "ws_mask_field bs masked h0 = Some (m, h) \<Longrightarrow> h0 \<le> h \<and> h \<le> h0 + 4"
  by (auto simp: ws_mask_field_def split: if_splits)

text \<open>Once the two header bytes are there, more bytes change nothing that is already decided.\<close>

lemma ws_parse_extend:
  assumes "parse_websocket_frame bs \<noteq> FrameIncomplete"
  shows "parse_websocket_frame (bs @ xs) = parse_websocket_frame bs"
proof -
  have two: "2 \<le> length bs" using assms by (auto simp: parse_websocket_frame_def split: if_splits)
  then have first: "(bs @ xs) ! 0 = bs ! 0" "(bs @ xs) ! Suc 0 = bs ! Suc 0"
    by (auto simp: nth_append)
  show ?thesis
  proof (cases "ws_length_field bs (bs ! 1 AND 0x7f)")
    case None
    then show ?thesis
      using assms two by (simp add: parse_websocket_frame_def first Let_def split: if_splits)
  next
    case (Some lenf)
    obtain n h0 where lenf: "lenf = (n, h0)" by fastforce
    note ext = ws_length_field_extend[OF Some two, of xs]
    show ?thesis
    proof (cases "ws_mask_field bs (bs ! 1 AND 0x80 \<noteq> 0) h0")
      case None
      then show ?thesis
        using assms two Some ext
        by (simp add: parse_websocket_frame_def first lenf Let_def split: if_splits)
    next
      case (Some mf)
      obtain m h where mf: "mf = (m, h)" by fastforce
      have "h \<le> 14" using ws_mask_field_bound[of bs _ h0 m h] Some mf ws_length_field_le
          \<open>ws_length_field bs (bs ! 1 AND 0x7f) = Some lenf\<close> lenf by fastforce
      then have h: "h \<le> sat_add h n" by (simp add: sat_add_def u64_max_def)
      show ?thesis
        using assms two ext \<open>ws_length_field bs (bs ! 1 AND 0x7f) = Some lenf\<close>
          Some ws_mask_field_extend[OF Some, of xs] h
        by (simp add: parse_websocket_frame_def first lenf mf Let_def split: if_splits)
    qed
  qed
qed

lemma ws_parse_length:
  assumes "parse_websocket_frame bs = FrameComplete f"
  shows "0 < wf_total_len f \<and> wf_total_len f \<le> length bs"
proof -
  obtain n h0 where l: "ws_length_field bs (bs ! 1 AND 0x7f) = Some (n, h0)"
    using assms by (auto simp: parse_websocket_frame_def Let_def split: if_splits option.splits)
  obtain m h where k: "ws_mask_field bs (bs ! 1 AND 0x80 \<noteq> 0) h0 = Some (m, h)"
    using assms l by (auto simp: parse_websocket_frame_def Let_def split: if_splits option.splits)
  have "2 \<le> h" using ws_length_field_bound[OF l] ws_mask_field_bound[OF k] by linarith
  moreover have "wf_total_len f = sat_add h n \<and> sat_add h n \<le> length bs"
    using assms l k by (auto simp: parse_websocket_frame_def Let_def split: if_splits)
  ultimately show ?thesis by (auto simp: sat_add_def u64_max_def)
qed

interpretation ws: framing parse_websocket_frame wf_total_len
proof unfold_locales
  show "parse_websocket_frame bs = FrameComplete f \<Longrightarrow> 0 < wf_total_len f \<and> wf_total_len f \<le> length bs" for bs f
    by (rule ws_parse_length)
next
  show "parse_websocket_frame (bs @ xs) = FrameComplete f" if "parse_websocket_frame bs = FrameComplete f" for bs xs f
    using that ws_parse_extend[of bs xs] by simp
next
  show "parse_websocket_frame (bs @ xs) = FrameInvalid r" if "parse_websocket_frame bs = FrameInvalid r" for bs xs r
    using that ws_parse_extend[of bs xs] by simp
qed (simp add: parse_websocket_frame_def)

subsection \<open>Frames as RFC 6455 writes them\<close>

definition ws_mask_payload :: "bytes option \<Rightarrow> bytes \<Rightarrow> bytes" where
  "ws_mask_payload msk payload = (case msk of
     None \<Rightarrow> payload
   | Some m \<Rightarrow> map (\<lambda>i. payload ! i XOR m ! (i mod 4)) [0..<length payload])"

definition ws_encode_header :: "bool \<Rightarrow> u8 \<Rightarrow> bytes option \<Rightarrow> nat \<Rightarrow> bytes" where
  "ws_encode_header fin opcode msk n =
     (let m = (if msk = None then 0 else 0x80) in
      [(if fin then 0x80 else 0) OR opcode]
      @ (if n < 126 then [m OR of_nat n]
         else if n < 65536 then (m OR 126) # be_bytes 2 n
         else (m OR 127) # be_bytes 8 n)
      @ (case msk of None \<Rightarrow> [] | Some k \<Rightarrow> k))"

definition ws_encode :: "bool \<Rightarrow> u8 \<Rightarrow> bytes option \<Rightarrow> bytes \<Rightarrow> bytes" where
  "ws_encode fin opcode msk payload =
     ws_encode_header fin opcode msk (length payload) @ ws_mask_payload msk payload"

text \<open>What the parser should report of such a frame.\<close>

definition ws_decoded :: "bool \<Rightarrow> u8 \<Rightarrow> bytes option \<Rightarrow> bytes \<Rightarrow> parsed_ws_frame" where
  "ws_decoded fin opcode msk payload =
     (let header_len = length (ws_encode_header fin opcode msk (length payload)) in
      \<lparr>wf_total_len = header_len + length payload, wf_header_len = header_len,
       wf_info = \<lparr>wi_opcode = opcode, wi_opcode_name = websocket_opcode_name opcode, wi_fin = fin,
         wi_rsv1 = False, wi_rsv2 = False, wi_rsv3 = False, wi_masked = (msk \<noteq> None),
         wi_control = (8 \<le> opcode), wi_payload_bytes = length payload, wi_header_bytes = header_len,
         wi_close_code = (if opcode = 8 \<and> 2 \<le> length payload
           then Some (u16_be (payload ! 0) (payload ! 1)) else None),
         wi_text_preview = websocket_payload_preview payload None opcode\<rparr>\<rparr>)"

text \<open>What RFC 6455 asks of a frame: a defined opcode, control frames unfragmented and short, a mask
  of four bytes.\<close>

definition ws_frame_ok :: "bool \<Rightarrow> u8 \<Rightarrow> bytes option \<Rightarrow> bytes \<Rightarrow> bool" where
  "ws_frame_ok fin opcode msk payload \<longleftrightarrow> opcode \<in> {0, 1, 2, 8, 9, 10}
     \<and> (8 \<le> opcode \<longrightarrow> fin \<and> length payload \<le> 125)
     \<and> (case msk of None \<Rightarrow> True | Some m \<Rightarrow> length m = 4) \<and> length payload < 2 ^ 63"

lemma length_ws_mask_payload [simp]: "length (ws_mask_payload msk payload) = length payload"
  by (simp add: ws_mask_payload_def split: option.split)

lemma nth_ws_mask_payload: "i < length payload \<Longrightarrow> ws_mask_payload msk payload ! i = unmask_byte (payload ! i) msk i"
  by (simp add: ws_mask_payload_def unmask_byte_def split: option.split)

lemma ws_decoded_len: "wf_total_len (ws_decoded fin opcode msk payload) = length (ws_encode fin opcode msk payload)"
  by (simp add: ws_decoded_def ws_encode_def Let_def)

lemma xor_self_cancel: "(b XOR k) XOR k = b" for b k :: u8
  by (simp add: xor.assoc)

lemma unmask_unmask [simp]: "unmask_byte (unmask_byte b msk i) msk i = b"
  by (cases msk) (simp_all add: unmask_byte_def xor_self_cancel)

lemma ws_preview_unmasks:
  "websocket_payload_preview (ws_mask_payload msk payload) msk opcode = websocket_payload_preview payload None opcode"
proof -
  let ?n = "min (length payload) max_ws_payload_preview_bytes"
  have "map (\<lambda>(i, b). unmask_byte b msk i) (enumerate 0 (take ?n (ws_mask_payload msk payload)))
      = map (\<lambda>(i, b). unmask_byte b None i) (enumerate 0 (take ?n payload))"
    by (rule nth_equalityI) (auto simp: nth_enumerate_eq nth_ws_mask_payload unmask_byte_def[of _ None])
  then show ?thesis by (simp add: websocket_payload_preview_def)
qed

lemma ws_len_byte:
  fixes n :: nat
  assumes "n < 128"
  shows "((if m then 0x80 else 0) OR of_nat n :: u8) AND 0x7f = of_nat n"
    and "((if m then 0x80 else 0) OR of_nat n :: u8) AND 0x80 \<noteq> 0 \<longleftrightarrow> m"
proof -
  have "(of_nat n :: u8) AND mask 7 = of_nat n"
    using assms by (simp only: take_bit_eq_mask[symmetric] take_bit_of_nat) (simp add: take_bit_nat_eq_self)
  then have low: "(of_nat n :: u8) AND 0x7f = of_nat n" by (simp add: mask_numeral)
  have "(of_nat n :: u8) AND 0x80 = (of_nat n AND 0x7f) AND 0x80" by (simp only: low)
  also have "\<dots> = 0" by (simp add: and.assoc)
  finally have high: "(of_nat n :: u8) AND 0x80 = 0" .
  show "((if m then 0x80 else 0) OR of_nat n :: u8) AND 0x7f = of_nat n"
    by (simp add: bit.conj_disj_distrib2 low)
  show "((if m then 0x80 else 0) OR of_nat n :: u8) AND 0x80 \<noteq> 0 \<longleftrightarrow> m"
    by (simp add: bit.conj_disj_distrib2 high)
qed

lemma ws_first_byte:
  assumes "opcode \<in> {0, 1, 2, 8, 9, 10 :: u8}"
  shows "((if fin then 0x80 else 0) OR opcode) AND 0x0f = opcode"
    and "((if fin then 0x80 else 0) OR opcode) AND 0x80 \<noteq> 0 \<longleftrightarrow> fin"
    and "((if fin then 0x80 else 0) OR opcode) AND 0x40 = 0"
    and "((if fin then 0x80 else 0) OR opcode) AND 0x20 = 0"
    and "((if fin then 0x80 else 0) OR opcode) AND 0x10 = 0"
    and "opcode \<le> 2 \<or> (8 \<le> opcode \<and> opcode \<le> 10)"
  using assms by auto

lemma ws_encode_header_shape:
  assumes "n < 2 ^ 63"
  shows "\<exists>second ext. (\<forall>fin opcode. ws_encode_header fin opcode msk n
        = ((if fin then 0x80 else 0) OR opcode) # second # ext @ (case msk of None \<Rightarrow> [] | Some k \<Rightarrow> k))
    \<and> (second AND 0x80 \<noteq> 0 \<longleftrightarrow> msk \<noteq> None) \<and> length ext \<le> 8
    \<and> (\<forall>b xs. ws_length_field (b # second # ext @ xs) (second AND 0x7f) = Some (n, 2 + length ext))"
    (is "\<exists>second ext. ?P second ext")
proof -
  let ?m = "if msk \<noteq> None then 0x80 else 0 :: u8"
  have m: "(if msk = None then 0 else 0x80) = ?m" by simp
  consider "n < 126" | "126 \<le> n" "n < 65536" | "65536 \<le> n" by linarith
  then show ?thesis
  proof cases
    case 1
    have "(of_nat n :: u8) \<noteq> 126" "(of_nat n :: u8) \<noteq> 127"
      using 1 unat_of_nat_u8[of n] by (auto simp del: unat_of_nat_u8)
    then have "?P (?m OR of_nat n) []"
      using 1 ws_len_byte[of n "msk \<noteq> None"]
      by (simp add: ws_encode_header_def ws_length_field_def m del: not_None_eq)
    then show ?thesis by blast
  next
    case 2
    have "?P (?m OR 126) (be_bytes 2 n)"
      using 2 ws_len_byte[of 126 "msk \<noteq> None"] u16_be_be_bytes[of n]
      by (simp add: ws_encode_header_def ws_length_field_def be_bytes_2 m del: not_None_eq)
    then show ?thesis by blast
  next
    case 3
    have "nat_be (be_bytes 8 n) = n" using assms by (intro nat_be_be_bytes) simp
    then have "?P (?m OR 127) (be_bytes 8 n)"
      using 3 ws_len_byte[of 127 "msk \<noteq> None"]
      by (simp add: ws_encode_header_def ws_length_field_def m del: not_None_eq)
    then show ?thesis by blast
  qed
qed

lemma ws_parse_complete:
  assumes "2 \<le> length bs" "bs ! 0 = first" "bs ! 1 = second" "first AND 0x0f = opcode"
    and "opcode \<le> 2 \<or> (8 \<le> opcode \<and> opcode \<le> 10)"
    and "8 \<le> opcode \<Longrightarrow> first AND 0x80 \<noteq> 0 \<and> n \<le> 125"
    and "ws_length_field bs (second AND 0x7f) = Some (n, h0)"
    and "ws_mask_field bs (second AND 0x80 \<noteq> 0) h0 = Some (msk, h)"
    and "n \<le> u64_max" "sat_add h n = h + n" "h + n \<le> length bs" "take n (drop h bs) = w"
  shows "parse_websocket_frame bs = FrameComplete \<lparr>wf_total_len = h + n, wf_header_len = h,
    wf_info = \<lparr>wi_opcode = opcode, wi_opcode_name = websocket_opcode_name opcode,
      wi_fin = first AND 0x80 \<noteq> 0, wi_rsv1 = first AND 0x40 \<noteq> 0, wi_rsv2 = first AND 0x20 \<noteq> 0,
      wi_rsv3 = first AND 0x10 \<noteq> 0, wi_masked = second AND 0x80 \<noteq> 0, wi_control = 8 \<le> opcode,
      wi_payload_bytes = n, wi_header_bytes = h, wi_close_code = ws_close_code w msk opcode n,
      wi_text_preview = websocket_payload_preview w msk opcode\<rparr>\<rparr>"
proof -
  have "\<not> length bs < 2" "\<not> length bs < h + n" "\<not> u64_max < n" using assms(1,9,11) by linarith+
  moreover have "\<not> (8 \<le> opcode \<and> \<not> first AND 0x80 \<noteq> 0)" "\<not> (8 \<le> opcode \<and> 125 < n)"
    using assms(6) by auto
  ultimately show ?thesis
    using assms(5) unfolding parse_websocket_frame_def Let_def assms(2-4,7)
    by (simp add: assms(8,10,12) del: not_le)
qed

lemma ws_parse_encode:
  assumes "ws_frame_ok fin opcode msk payload"
  shows "parse_websocket_frame (ws_encode fin opcode msk payload @ rest)
    = FrameComplete (ws_decoded fin opcode msk payload)"
proof -
  let ?n = "length payload" and ?w = "ws_mask_payload msk payload"
  let ?mb = "case msk of None \<Rightarrow> [] | Some k \<Rightarrow> k"
  have ok: "opcode \<in> {0, 1, 2, 8, 9, 10}" "8 \<le> opcode \<Longrightarrow> fin \<and> ?n \<le> 125" "?n < 2 ^ 63"
    and mlen: "msk = Some k \<Longrightarrow> length k = 4" for k
    using assms by (auto simp: ws_frame_ok_def)
  obtain second ext where h: "ws_encode_header fin opcode msk ?n
      = ((if fin then 0x80 else 0) OR opcode) # second # ext @ ?mb"
    and sec: "second AND 0x80 \<noteq> 0 \<longleftrightarrow> msk \<noteq> None" and ext: "length ext \<le> 8"
    and lf: "\<And>b xs. ws_length_field (b # second # ext @ xs) (second AND 0x7f) = Some (?n, 2 + length ext)"
    using ws_encode_header_shape[OF ok(3), of msk] by blast
  let ?first = "(if fin then 0x80 else 0) OR opcode"
  let ?bs = "ws_encode fin opcode msk payload @ rest"
  have bs: "?bs = ?first # second # ext @ ?mb @ ?w @ rest" by (simp add: ws_encode_def h)
  let ?h = "length (ws_encode_header fin opcode msk ?n)"
  have hl: "?h = 2 + length ext + length ?mb" by (simp add: h)
  have mf: "ws_mask_field ?bs (second AND 0x80 \<noteq> 0) (2 + length ext) = Some (msk, ?h)"
    unfolding bs hl using sec by (cases msk) (auto simp: ws_mask_field_def dest: mlen)
  have "length ?mb \<le> 4" using mlen by (cases msk) auto
  then have total: "sat_add ?h ?n = ?h + ?n"
    using ok(3) ext hl by (simp add: sat_add_def u64_max_def)
  have payload: "take (?h + ?n - ?h) (drop ?h ?bs) = ?w" by (simp add: ws_encode_def)
  have cc: "ws_close_code ?w msk opcode ?n = (if opcode = 8 \<and> 2 \<le> ?n
      then Some (u16_be (payload ! 0) (payload ! 1)) else None)"
  proof (cases "2 \<le> ?n")
    case True
    then have "0 < ?n" "1 < ?n" by linarith+
    then show ?thesis
      using nth_ws_mask_payload[of 0 payload msk] nth_ws_mask_payload[of 1 payload msk]
      unfolding ws_close_code_def by (simp del: length_greater_0_conv)
  qed (simp add: ws_close_code_def)
  have len: "length ?bs = ?h + ?n + length rest" by (simp add: ws_encode_def)
  have i: "?bs ! 0 = ?first" "?bs ! 1 = second" by (simp_all add: bs)
  have l: "ws_length_field ?bs (second AND 0x7f) = Some (?n, 2 + length ext)" unfolding bs by (rule lf)
  have "?n \<le> u64_max" using ok(3) by (simp add: u64_max_def)
  have "parse_websocket_frame ?bs = FrameComplete \<lparr>wf_total_len = ?h + ?n, wf_header_len = ?h,
    wf_info = \<lparr>wi_opcode = opcode, wi_opcode_name = websocket_opcode_name opcode,
      wi_fin = ?first AND 0x80 \<noteq> 0, wi_rsv1 = ?first AND 0x40 \<noteq> 0, wi_rsv2 = ?first AND 0x20 \<noteq> 0,
      wi_rsv3 = ?first AND 0x10 \<noteq> 0, wi_masked = second AND 0x80 \<noteq> 0, wi_control = 8 \<le> opcode,
      wi_payload_bytes = ?n, wi_header_bytes = ?h, wi_close_code = ws_close_code ?w msk opcode ?n,
      wi_text_preview = websocket_payload_preview ?w msk opcode\<rparr>\<rparr>"
  proof (rule ws_parse_complete[OF _ i ws_first_byte(1)[OF ok(1)] ws_first_byte(6)[OF ok(1)] _ l mf])
    show "8 \<le> opcode \<Longrightarrow> ?first AND 0x80 \<noteq> 0 \<and> ?n \<le> 125"
      using ok(2) ws_first_byte(2)[OF ok(1), of fin] by blast
  qed (use hl len total \<open>?n \<le> u64_max\<close> payload in simp_all)
  then show ?thesis
    by (simp only: ws_first_byte(2-5)[OF ok(1)] sec cc ws_preview_unmasks ws_decoded_def Let_def simp_thms)
qed

text \<open>
  C17. A frame written as RFC 6455 asks is parsed back, whatever follows it in the stream: its opcode,
  its \<^verbatim>\<open>FIN\<close> bit, the length of its payload in each of the three encodings, the status code of a close
  frame and the preview of the unmasked payload.
\<close>

theorem websocket_frame_roundtrip:
  assumes "ws_frame_ok fin opcode msk payload"
  shows "parse_websocket_frame (ws_encode fin opcode msk payload @ rest)
    = FrameComplete (ws_decoded fin opcode msk payload)"
  using assms by (rule ws_parse_encode)

lemma websocket_frame_roundtrip_witness:
  "parse_websocket_frame (ws_encode True 1 (Some [1, 2, 3, 4]) [72, 105] @ [0x81])
    = FrameComplete (ws_decoded True 1 (Some [1, 2, 3, 4]) [72, 105])"
  using websocket_frame_roundtrip[of True 1 "Some [1, 2, 3, 4]" "[72, 105]" "[0x81]"]
  by (simp add: ws_frame_ok_def)

subsection \<open>Streams of frames\<close>

text \<open>
  C16. However a sequence of well-formed frames is cut into the chunks that reach the parser, the
  messages are one per frame, in order, with consecutive ordinals and logical offsets, and no byte is
  left in the buffer, as long as the bytes fit in the buffer limit.
\<close>

theorem websocket_stream_delivers_frames:
  assumes "list_all (\<lambda>(fin, opcode, msk, payload). ws_frame_ok fin opcode msk payload) frames"
    and "concat chunks = concat (map (\<lambda>(fin, opcode, msk, payload). ws_encode fin opcode msk payload) frames)"
    and "length (concat chunks) \<le> max_buffer_bytes" "max_buffer_bytes \<le> u64_max"
  shows "map_option (\<lambda>(messages, st). (messages, fz_buffer st))
      (framed_run (\<lambda>st bs. ws_push st stream_id direction bs max_buffer_bytes) framed_default chunks)
    = Some (build_messages wf_total_len (ws_frame_message stream_id direction) 0 0
        (map (\<lambda>(fin, opcode, msk, payload). ws_decoded fin opcode msk payload) frames), [])"
proof -
  let ?e = "\<lambda>(fin, opcode, msk, payload). ws_encode fin opcode msk payload"
  let ?d = "\<lambda>(fin, opcode, msk, payload). ws_decoded fin opcode msk payload"
  let ?fes = "map (\<lambda>x. (?d x, ?e x)) frames"
  have "split_frames parse_websocket_frame wf_total_len (concat (map snd ?fes)) = (map fst ?fes, [], None)"
  proof (rule ws.split_frames_encoded)
    fix f e xs assume "(f, e) \<in> set ?fes"
    then obtain fin opcode msk payload where
      "ws_frame_ok fin opcode msk payload" "f = ws_decoded fin opcode msk payload" "e = ws_encode fin opcode msk payload"
      using assms(1) by (fastforce simp: list_all_iff)
    then show "wf_total_len f = length e \<and> parse_websocket_frame (e @ xs) = FrameComplete f"
      by (simp add: ws_parse_encode ws_decoded_len)
  qed
  then have split: "split_frames parse_websocket_frame wf_total_len (fz_buffer framed_default @ concat chunks)
      = (map ?d frames, [], None)"
    using assms(2) by (simp add: framed_default_def o_def)
  have none: "split_frames parse_websocket_frame wf_total_len (fz_buffer framed_default)
      = ([], fz_buffer framed_default, None)"
    by (simp add: framed_default_def split_frames.simps)
  have fits: "fz_next_logical framed_default + length (concat chunks) \<le> u64_max"
    "length (fz_buffer framed_default @ concat chunks) \<le> max_buffer_bytes"
    using assms(3,4) by (simp_all add: framed_default_def)
  show ?thesis
    unfolding ws_push_def using ws.framed_run_frames[OF framed_default_ok fits none split]
    by (fastforce simp: framed_default_def)
qed

lemma websocket_stream_delivers_frames_witness:
  "map_option (\<lambda>(messages, st). (messages, fz_buffer st))
      (framed_run (\<lambda>st bs. ws_push st 7 AToB bs 4096) framed_default [[0x81], [1, 65, 0x8A, 0]])
    = Some (build_messages wf_total_len (ws_frame_message 7 AToB) 0 0
        [ws_decoded True 1 None [65], ws_decoded True 10 None []], [])"
  using websocket_stream_delivers_frames[of "[(True, 1, None, [65]), (True, 10, None, [])]"
      "[[0x81], [1, 65, 0x8A, 0]]" 4096 7 AToB]
  by (simp add: ws_frame_ok_def ws_encode_def ws_encode_header_def ws_mask_payload_def unmask_byte_def u64_max_def)

text \<open>
  A push returns whatever the bytes, the state and the buffer limit: the loop over the frames of the
  buffer ends, because every frame it takes has at least two bytes.
\<close>

lemma websocket_push_returns: "\<exists>messages st'. ws_push st stream_id direction bs max_buffer_bytes = Some (messages, st')"
  unfolding ws_push_def by (rule ws.framed_push_returns)

end
