(* ===== verification/Tls_Parser.thy ===== *)
theory Tls_Parser
  imports Framed_Stream Wire_Encoding
begin

text \<open>
  The TLS record parser of \<^verbatim>\<open>src/src/stream_message.rs\<close> and its stream state \<^verbatim>\<open>TlsDirectionState\<close>, an
  instance of \<open>framed_push\<close>.  A record's payload has at most 65535 bytes, so the cursor's
  \<^verbatim>\<open>saturating_add\<close> never saturates and is written \<open>+\<close>.
\<close>

subsection \<open>Names\<close>

definition tls_content_type_name :: "u8 \<Rightarrow> string" where
  "tls_content_type_name content_type =
     (if content_type = 20 then ''change_cipher_spec''
      else if content_type = 21 then ''alert''
      else if content_type = 22 then ''handshake''
      else if content_type = 23 then ''application_data''
      else ''unknown'')"

definition tls_handshake_type_name :: "u8 \<Rightarrow> string" where
  "tls_handshake_type_name handshake_type =
     (if handshake_type = 1 then ''client_hello''
      else if handshake_type = 2 then ''server_hello''
      else if handshake_type = 11 then ''certificate''
      else if handshake_type = 12 then ''server_key_exchange''
      else if handshake_type = 14 then ''server_hello_done''
      else if handshake_type = 16 then ''client_key_exchange''
      else if handshake_type = 20 then ''finished''
      else ''handshake'')"

definition known_tls_version_name :: "u8 \<Rightarrow> u8 \<Rightarrow> string option" where
  "known_tls_version_name major minor =
     (if major \<noteq> 3 then None
      else if minor = 0 then Some ''SSL 3.0''
      else if minor = 1 then Some ''TLS 1.0''
      else if minor = 2 then Some ''TLS 1.1''
      else if minor = 3 then Some ''TLS 1.2''
      else if minor = 4 then Some ''TLS 1.3''
      else None)"

definition tls_version_name :: "u8 \<Rightarrow> u8 \<Rightarrow> string" where
  "tls_version_name major minor = (case known_tls_version_name major minor of
     Some name \<Rightarrow> name
   | None \<Rightarrow> show_nat (unat major) @ ''.'' @ show_nat (unat minor))"

definition tls_cipher_suite_name :: "u16 \<Rightarrow> string" where
  "tls_cipher_suite_name cipher =
     (if cipher = 0x1301 then ''TLS_AES_128_GCM_SHA256''
      else if cipher = 0x1302 then ''TLS_AES_256_GCM_SHA384''
      else if cipher = 0x1303 then ''TLS_CHACHA20_POLY1305_SHA256''
      else if cipher = 0xC02F then ''TLS_ECDHE_RSA_WITH_AES_128_GCM_SHA256''
      else if cipher = 0xC030 then ''TLS_ECDHE_RSA_WITH_AES_256_GCM_SHA384''
      else ''0x'' @ hex_fixed 4 (unat cipher))"

definition read_u24 :: "bytes \<Rightarrow> nat \<Rightarrow> nat option" where
  "read_u24 bs offset = map_option nat_be (get_range bs offset (offset + 3))"

text \<open>\<^verbatim>\<open>u16::from_be_bytes([bytes[i], bytes[i + 1]]) as usize\<close>, at a position the caller has checked.\<close>

definition u16_at :: "bytes \<Rightarrow> nat \<Rightarrow> nat" where
  "u16_at bs i = unat (u16_be (bs ! i) (bs ! (i + 1)))"

definition slice_of :: "bytes \<Rightarrow> nat \<Rightarrow> nat \<Rightarrow> bytes" where
  "slice_of bs i n = take n (drop i bs)"

subsection \<open>Extensions\<close>

definition max_tls_alpn_protocols :: nat where
  "max_tls_alpn_protocols = 16"

definition max_tls_extensions :: nat where
  "max_tls_extensions = 256"

function tls_sni_loop :: "bytes \<Rightarrow> nat \<Rightarrow> nat \<Rightarrow> string option" where
  "tls_sni_loop data cursor stop =
     (if cursor + 3 \<le> stop then
        let name_type = data ! cursor;
            name_len = u16_at data (cursor + 1);
            cursor = cursor + 3
        in if stop < cursor + name_len then None
           else if name_type = 0 then str_from_utf8 (slice_of data cursor name_len)
           else tls_sni_loop data (cursor + name_len) stop
      else None)"
  by pat_completeness auto
termination by (relation "measure (\<lambda>(_, cursor, stop). stop - cursor)") auto

declare tls_sni_loop.simps [simp del]

definition parse_tls_sni :: "bytes \<Rightarrow> string option" where
  "parse_tls_sni data =
     (if length data < 5 then None
      else tls_sni_loop data 2 (min (2 + u16_at data 0) (length data)))"

function tls_alpn_loop :: "bytes \<Rightarrow> nat \<Rightarrow> nat \<Rightarrow> string list \<Rightarrow> string list" where
  "tls_alpn_loop data cursor stop protocols =
     (if cursor < stop \<and> length protocols < max_tls_alpn_protocols then
        let len = unat (data ! cursor);
            cursor = cursor + 1
        in if stop < cursor + len then protocols
           else tls_alpn_loop data (cursor + len) stop
             (case str_from_utf8 (slice_of data cursor len) of
                None \<Rightarrow> protocols | Some protocol \<Rightarrow> protocols @ [protocol])
      else protocols)"
  by pat_completeness auto
termination by (relation "measure (\<lambda>(_, cursor, stop, _). stop - cursor)") auto

declare tls_alpn_loop.simps [simp del]

definition parse_tls_alpn :: "bytes \<Rightarrow> string list" where
  "parse_tls_alpn data =
     (if length data < 2 then []
      else tls_alpn_loop data 2 (min (2 + u16_at data 0) (length data)) [])"

text \<open>The tuple maximum of two versions is lexicographic.\<close>

function tls_version_loop :: "bytes \<Rightarrow> nat \<Rightarrow> nat \<Rightarrow> (u8 \<times> u8) option \<Rightarrow> (u8 \<times> u8) option" where
  "tls_version_loop rest cursor stop best =
     (if cursor + 2 \<le> stop then
        let version = (rest ! cursor, rest ! (cursor + 1)) in
        tls_version_loop rest (cursor + 2) stop
          (if known_tls_version_name (fst version) (snd version) \<noteq> None
           then Some (case best of None \<Rightarrow> version | Some current \<Rightarrow> max current version)
           else best)
      else best)"
  by pat_completeness auto
termination by (relation "measure (\<lambda>(_, cursor, stop, _). stop - cursor)") auto

declare tls_version_loop.simps [simp del]

definition parse_tls_supported_version :: "bytes \<Rightarrow> bool \<Rightarrow> string option" where
  "parse_tls_supported_version data server =
     (if server then
        (if length data \<ge> 2 then known_tls_version_name (data ! 0) (data ! 1) else None)
      else case data of
        [] \<Rightarrow> None
      | list_len # rest \<Rightarrow>
          (case tls_version_loop rest 0 (min (unat list_len) (length rest)) None of
             None \<Rightarrow> None
           | Some (major, minor) \<Rightarrow> known_tls_version_name major minor))"

text \<open>The effect of one extension.\<close>

definition tls_extension_step :: "bool \<Rightarrow> nat \<Rightarrow> bytes \<Rightarrow> tls_info \<Rightarrow> tls_info" where
  "tls_extension_step server ext_type data info =
     (if ext_type = 0 then (if \<not> server then info\<lparr>ti_sni := parse_tls_sni data\<rparr> else info)
      else if ext_type = 16 then info\<lparr>ti_alpn := parse_tls_alpn data\<rparr>
      else if ext_type = 43 then (case parse_tls_supported_version data server of
          None \<Rightarrow> info
        | Some version \<Rightarrow> info\<lparr>ti_handshake_version := Some version\<rparr>)
      else info)"

function tls_extensions_loop :: "bytes \<Rightarrow> nat \<Rightarrow> nat \<Rightarrow> nat \<Rightarrow> bool \<Rightarrow> tls_info \<Rightarrow> nat \<times> tls_info" where
  "tls_extensions_loop body cursor stop seen server info =
     (if cursor + 4 \<le> stop \<and> seen < max_tls_extensions then
        let ext_type = u16_at body cursor;
            ext_len = u16_at body (cursor + 2);
            cursor = cursor + 4
        in if stop < cursor + ext_len then (seen, info)
           else tls_extensions_loop body (cursor + ext_len) stop (seen + 1) server
             (tls_extension_step server ext_type (slice_of body cursor ext_len) info)
      else (seen, info))"
  by pat_completeness auto
termination by (relation "measure (\<lambda>(_, cursor, stop, _). stop - cursor)") auto

declare tls_extensions_loop.simps [simp del]

definition parse_tls_extensions :: "bytes \<Rightarrow> nat \<Rightarrow> tls_info \<Rightarrow> bool \<Rightarrow> tls_info" where
  "parse_tls_extensions body offset info server =
     (if length body < offset + 2 then info
      else
        let cursor = offset + 2;
            stop = min (cursor + u16_at body offset) (length body)
        in case tls_extensions_loop body cursor stop 0 server info of
             (seen, info) \<Rightarrow> info\<lparr>ti_extensions := Some seen\<rparr>)"

subsection \<open>Hellos\<close>

definition parse_tls_client_hello :: "bytes \<Rightarrow> tls_info \<Rightarrow> tls_info" where
  "parse_tls_client_hello body info =
     (if length body < 34 then info
      else
        let info = info\<lparr>ti_handshake_version := Some (tls_version_name (body ! 0) (body ! 1))\<rparr>
        in case get_at body 34 of
             None \<Rightarrow> info
           | Some session_id_len \<Rightarrow>
               let offset = 34 + 1 + unat session_id_len in
               if length body < offset + 2 then info
               else
                 let cipher_suites_len = u16_at body offset;
                     info = info\<lparr>ti_cipher_suites := Some (min (cipher_suites_len div 2) 65535)\<rparr>;
                     offset = offset + 2 + cipher_suites_len
                 in if length body \<le> offset then info
                    else parse_tls_extensions body (offset + 1 + unat (body ! offset)) info False)"

definition parse_tls_server_hello :: "bytes \<Rightarrow> tls_info \<Rightarrow> tls_info" where
  "parse_tls_server_hello body info =
     (if length body < 38 then info
      else
        let info = info\<lparr>ti_handshake_version := Some (tls_version_name (body ! 0) (body ! 1))\<rparr>
        in case get_at body 34 of
             None \<Rightarrow> info
           | Some session_id_len \<Rightarrow>
               let offset = 34 + 1 + unat session_id_len in
               if length body < offset + 3 then info
               else
                 let cipher = u16_be (body ! offset) (body ! (offset + 1));
                     info = info\<lparr>ti_cipher_suite := Some (tls_cipher_suite_name cipher)\<rparr>
                 in parse_tls_extensions body (offset + 3) info True)"

definition parse_tls_handshake :: "bytes \<Rightarrow> tls_info \<Rightarrow> tls_info" where
  "parse_tls_handshake payload info =
     (let handshake_type = payload ! 0;
          handshake_len = (case read_u24 payload 1 of None \<Rightarrow> 0 | Some n \<Rightarrow> n);
          body_end = min (4 + handshake_len) (length payload);
          body = slice_of payload 4 (body_end - 4);
          info = info\<lparr>ti_handshake_type := Some (tls_handshake_type_name handshake_type)\<rparr>
      in if handshake_type = 1 then parse_tls_client_hello body info
         else if handshake_type = 2 then parse_tls_server_hello body info
         else info)"

subsection \<open>One record\<close>

record parsed_tls_record =
  tr_total_len :: nat
  tr_info :: tls_info

definition parse_tls_record :: "bytes \<Rightarrow> parsed_tls_record frame_parse" where
  "parse_tls_record bs =
     (if length bs < 5 then FrameIncomplete
      else
        let content_type = bs ! 0; major = bs ! 1; minor = bs ! 2 in
        if \<not> (20 \<le> content_type \<and> content_type \<le> 23)
        then FrameInvalid (''unsupported tls content type '' @ show_nat (unat content_type))
        else if major \<noteq> 3 \<or> minor > 4 then FrameInvalid ''unsupported tls record version''
        else
          let record_len = u16_at bs 3;
              total_len = 5 + record_len
          in if length bs < total_len then FrameIncomplete
             else
               let payload = slice_of bs 5 record_len;
                   info = \<lparr>ti_content_type = tls_content_type_name content_type,
                     ti_record_version = tls_version_name major minor, ti_record_len = record_len,
                     ti_handshake_type = None, ti_handshake_version = None, ti_sni = None, ti_alpn = [],
                     ti_cipher_suite = None, ti_cipher_suites = None, ti_extensions = None\<rparr>
               in FrameComplete \<lparr>tr_total_len = total_len,
                    tr_info = (if content_type = 22 \<and> length payload \<ge> 4
                      then parse_tls_handshake payload info else info)\<rparr>)"

subsection \<open>The messages of a stream\<close>

definition tls_summary :: "tls_info \<Rightarrow> string" where
  "tls_summary info = ''TLS '' @ ti_content_type info
     @ (case ti_handshake_type info of None \<Rightarrow> [] | Some handshake \<Rightarrow> '' '' @ handshake)
     @ (case ti_sni info of None \<Rightarrow> [] | Some sni \<Rightarrow> '' sni='' @ sni)
     @ (if ti_alpn info = [] then [] else '' alpn='' @ join_with '','' (ti_alpn info))
     @ (case ti_cipher_suite info of None \<Rightarrow> [] | Some cipher \<Rightarrow> '' cipher='' @ cipher)"

definition tls_stream_message ::
  "u64w \<Rightarrow> flow_direction \<Rightarrow> nat \<Rightarrow> nat \<Rightarrow> nat \<Rightarrow> nat \<Rightarrow> tls_info \<Rightarrow> stream_message" where
  "tls_stream_message stream_id direction ordinal logical_start header_end logical_end info =
     \<lparr>msg_stream_id = stream_id, msg_stream_id_hex = hex_fixed 16 (unat stream_id),
      msg_message_id = stable_message_id stream_id direction ordinal, msg_protocol = Tls,
      msg_kind = UnknownKind, msg_status = Complete, msg_direction = direction, msg_ordinal = ordinal,
      msg_summary = tls_summary info, msg_logical_start = logical_start,
      msg_logical_end = logical_end, msg_header_start = Some logical_start,
      msg_header_end = Some header_end, msg_body_start = Some header_end,
      msg_body_end = Some logical_end, msg_wire_bytes = logical_end - logical_start,
      msg_header_bytes = header_end - logical_start, msg_body_bytes = logical_end - header_end,
      msg_http = None, msg_dns = None, msg_websocket = None, msg_tls = Some info, msg_error = None\<rparr>"

definition tls_record_message :: "u64w \<Rightarrow> flow_direction \<Rightarrow> nat \<Rightarrow> nat \<Rightarrow> parsed_tls_record \<Rightarrow> stream_message" where
  "tls_record_message stream_id direction ordinal logical_start r =
     tls_stream_message stream_id direction ordinal logical_start
       (sat_add logical_start 5) (sat_add logical_start (tr_total_len r)) (tr_info r)"

definition tls_parse_error ::
  "u64w \<Rightarrow> flow_direction \<Rightarrow> framed_state \<Rightarrow> string \<Rightarrow> stream_message \<times> framed_state" where
  "tls_parse_error = framed_error Tls ''TLS parse error''"

definition tls_push ::
  "framed_state \<Rightarrow> u64w \<Rightarrow> flow_direction \<Rightarrow> bytes \<Rightarrow> nat \<Rightarrow> (stream_message list \<times> framed_state) option" where
  "tls_push st stream_id direction bs max_buffer_bytes =
     framed_push parse_tls_record tr_total_len (tls_record_message stream_id direction)
       (tls_parse_error stream_id direction) ''tls record exceeded parser buffer limit'' st bs max_buffer_bytes"

subsection \<open>The parser is a framing\<close>

lemma u16_at_append: "i + 1 < length bs \<Longrightarrow> u16_at (bs @ xs) i = u16_at bs i"
  by (simp add: u16_at_def nth_append)

lemma slice_of_append: "i + n \<le> length bs \<Longrightarrow> slice_of (bs @ xs) i n = slice_of bs i n"
  by (simp add: slice_of_def)

lemma tls_parse_extend:
  assumes "parse_tls_record bs \<noteq> FrameIncomplete"
  shows "parse_tls_record (bs @ xs) = parse_tls_record bs"
proof -
  have five: "5 \<le> length bs" using assms by (auto simp: parse_tls_record_def split: if_splits)
  then have first: "(bs @ xs) ! 0 = bs ! 0" "(bs @ xs) ! Suc 0 = bs ! Suc 0" "(bs @ xs) ! 2 = bs ! 2"
    "u16_at (bs @ xs) 3 = u16_at bs 3"
    by (auto simp: nth_append u16_at_append)
  show ?thesis
    using assms five first by (simp add: parse_tls_record_def Let_def slice_of_append split: if_splits)
qed

interpretation tls: framing parse_tls_record tr_total_len
proof unfold_locales
  show "parse_tls_record bs = FrameComplete f \<Longrightarrow> 0 < tr_total_len f \<and> tr_total_len f \<le> length bs" for bs f
    by (auto simp: parse_tls_record_def Let_def split: if_splits)
next
  show "parse_tls_record (bs @ xs) = FrameComplete f" if "parse_tls_record bs = FrameComplete f" for bs xs f
    using that tls_parse_extend[of bs xs] by simp
next
  show "parse_tls_record (bs @ xs) = FrameInvalid r" if "parse_tls_record bs = FrameInvalid r" for bs xs r
    using that tls_parse_extend[of bs xs] by simp
qed (simp add: parse_tls_record_def)

subsection \<open>Hellos as RFC 8446 and RFC 6066 write them\<close>

definition tls_record_bytes :: "u8 \<Rightarrow> u8 \<Rightarrow> bytes \<Rightarrow> bytes" where
  "tls_record_bytes content_type minor payload =
     [content_type, 3, minor] @ be_bytes 2 (length payload) @ payload"

definition tls_handshake_bytes :: "u8 \<Rightarrow> bytes \<Rightarrow> bytes" where
  "tls_handshake_bytes handshake_type body = [handshake_type] @ be_bytes 3 (length body) @ body"

definition tls_extension_bytes :: "nat \<times> bytes \<Rightarrow> bytes" where
  "tls_extension_bytes e = be_bytes 2 (fst e) @ be_bytes 2 (length (snd e)) @ snd e"

definition tls_hello_front :: "bytes \<Rightarrow> bytes \<Rightarrow> bytes \<Rightarrow> bytes \<Rightarrow> bytes" where
  "tls_hello_front random session suites compression =
     [3, 3] @ random @ [of_nat (length session)] @ session @ be_bytes 2 (length suites) @ suites
     @ [of_nat (length compression)] @ compression"

definition tls_client_hello_bytes :: "bytes \<Rightarrow> bytes \<Rightarrow> bytes \<Rightarrow> bytes \<Rightarrow> (nat \<times> bytes) list \<Rightarrow> bytes" where
  "tls_client_hello_bytes random session suites compression exts =
     (let eb = concat (map tls_extension_bytes exts) in
      tls_hello_front random session suites compression @ be_bytes 2 (length eb) @ eb)"

definition tls_sni_bytes :: "bytes \<Rightarrow> bytes" where
  "tls_sni_bytes host = be_bytes 2 (length host + 3) @ [0] @ be_bytes 2 (length host) @ host"

definition tls_alpn_bytes :: "bytes list \<Rightarrow> bytes" where
  "tls_alpn_bytes protocols =
     (let pb = concat (map (\<lambda>p. of_nat (length p) # p) protocols) in be_bytes 2 (length pb) @ pb)"

lemma u16_at_be_bytes: "n < 65536 \<Longrightarrow> length pre = i \<Longrightarrow> u16_at (pre @ be_bytes 2 n @ post) i = n"
  using u16_be_be_bytes[of n] by (auto simp: u16_at_def be_bytes_2 nth_append simp del: mod_less)

lemma slice_of_exact: "length pre = i \<Longrightarrow> length xs = n \<Longrightarrow> slice_of (pre @ xs @ post) i n = xs"
  by (simp add: slice_of_def)

lemma tls_extensions_loop_encoded:
  assumes "\<forall>e \<in> set exts. fst e < 65536 \<and> length (snd e) < 65536" "seen + length exts \<le> max_tls_extensions"
  shows "tls_extensions_loop (pre @ concat (map tls_extension_bytes exts)) (length pre)
      (length pre + length (concat (map tls_extension_bytes exts))) seen server info
    = (seen + length exts, fold (\<lambda>e. tls_extension_step server (fst e) (snd e)) exts info)"
  using assms
proof (induction exts arbitrary: pre seen info)
  case Nil
  then show ?case by (simp add: tls_extensions_loop.simps)
next
  case (Cons e exts)
  let ?tail = "concat (map tls_extension_bytes exts)"
  let ?body = "pre @ be_bytes 2 (fst e) @ be_bytes 2 (length (snd e)) @ snd e @ ?tail"
  have fits: "fst e < 65536" "length (snd e) < 65536" using Cons.prems(1) by auto
  have t: "u16_at ?body (length pre) = fst e" by (rule u16_at_be_bytes[OF fits(1) refl])
  have l: "u16_at ?body (length pre + 2) = length (snd e)"
    using u16_at_be_bytes[OF fits(2), of "pre @ be_bytes 2 (fst e)"] by simp
  have d: "slice_of ?body (length pre + 4) (length (snd e)) = snd e"
    using slice_of_exact[of "pre @ be_bytes 2 (fst e) @ be_bytes 2 (length (snd e))" "length pre + 4" "snd e"] by simp
  let ?pre = "pre @ be_bytes 2 (fst e) @ be_bytes 2 (length (snd e)) @ snd e"
  let ?info = "tls_extension_step server (fst e) (snd e) info"
  have plen: "length ?pre = length pre + (4 + length (snd e))" by simp
  have "tls_extensions_loop (?pre @ ?tail) (length ?pre) (length ?pre + length ?tail) (seen + 1) server ?info
      = (seen + 1 + length exts, fold (\<lambda>e. tls_extension_step server (fst e) (snd e)) exts ?info)"
    by (rule Cons.IH) (use Cons.prems in simp_all)
  then have ih: "tls_extensions_loop ?body (length pre + (4 + length (snd e)))
      (length pre + (4 + (length (snd e) + length ?tail))) (seen + 1) server ?info
    = (seen + 1 + length exts, fold (\<lambda>e. tls_extension_step server (fst e) (snd e)) exts ?info)"
    by (simp only: plen append_assoc add.assoc)
  have shape: "pre @ concat (map tls_extension_bytes (e # exts)) = ?body"
    "length (concat (map tls_extension_bytes (e # exts))) = 4 + (length (snd e) + length ?tail)"
    by (simp_all add: tls_extension_bytes_def)
  have go: "length pre + 4 \<le> length pre + (4 + (length (snd e) + length ?tail))" "seen < max_tls_extensions"
    "\<not> length pre + (4 + (length (snd e) + length ?tail)) < length pre + (4 + length (snd e))"
    using Cons.prems(2) by simp_all
  have "tls_extensions_loop ?body (length pre) (length pre + (4 + (length (snd e) + length ?tail))) seen server info
    = tls_extensions_loop ?body (length pre + (4 + length (snd e))) (length pre + (4 + (length (snd e) + length ?tail)))
        (seen + 1) server (tls_extension_step server (fst e) (snd e) info)"
    by (subst tls_extensions_loop.simps) (simp only: go t l d Let_def if_True if_False simp_thms add.assoc)
  also note ih
  finally show ?case unfolding shape by simp
qed

lemma parse_tls_sni_encoded:
  "length host < 65000 \<Longrightarrow> utf8_valid host \<Longrightarrow> parse_tls_sni (tls_sni_bytes host) = Some (chars_of host)"
proof -
  assume h: "length host < 65000" "utf8_valid host"
  let ?data = "tls_sni_bytes host"
  have l0: "u16_at ?data 0 = length host + 3"
    using u16_at_be_bytes[of "length host + 3" "[]" 0] h(1) by (simp add: tls_sni_bytes_def)
  have l1: "u16_at ?data 3 = length host"
    using u16_at_be_bytes[of "length host" "be_bytes 2 (length host + 3) @ [0]" 3 host] h(1)
    by (simp add: tls_sni_bytes_def)
  have d: "slice_of ?data 5 (length host) = host"
    using slice_of_exact[of "be_bytes 2 (length host + 3) @ [0] @ be_bytes 2 (length host)" 5 host _ "[]"]
    by (simp add: tls_sni_bytes_def)
  have n: "?data ! 2 = 0" by (simp add: tls_sni_bytes_def nth_append)
  have len: "length ?data = length host + 5" by (simp add: tls_sni_bytes_def)
  show ?thesis
    using h(2) by (simp add: parse_tls_sni_def len l0 tls_sni_loop.simps[of ?data 2] l1 n d str_from_utf8_def)
qed

lemma tls_alpn_loop_encoded:
  assumes "\<forall>p \<in> set ps. length p < 256 \<and> utf8_valid p" "length acc + length ps \<le> max_tls_alpn_protocols"
  shows "tls_alpn_loop (pre @ concat (map (\<lambda>p. of_nat (length p) # p) ps)) (length pre)
      (length pre + length (concat (map (\<lambda>p. of_nat (length p) # p :: u8 list) ps))) acc
    = acc @ map chars_of ps"
  using assms
proof (induction ps arbitrary: pre acc)
  case Nil
  then show ?case by (simp add: tls_alpn_loop.simps)
next
  case (Cons p ps)
  let ?tail = "concat (map (\<lambda>p. of_nat (length p) # p :: u8 list) ps)"
  let ?data = "pre @ of_nat (length p) # p @ ?tail"
  have p: "length p < 256" "utf8_valid p" using Cons.prems(1) by auto
  have d: "slice_of ?data (Suc (length pre)) (length p) = p" by (simp add: slice_of_def)
  have ih: "tls_alpn_loop ?data (Suc (length pre + length p)) (Suc (length pre + (length p + length ?tail)))
      (acc @ [chars_of p]) = (acc @ [chars_of p]) @ map chars_of ps"
    using Cons.IH[of "acc @ [chars_of p]" "pre @ of_nat (length p) # p"] Cons.prems by (simp add: add.assoc)
  show ?case
    using Cons.prems(2) p ih d
    by (simp add: tls_alpn_loop.simps[of ?data "length pre"] str_from_utf8_def)
qed

lemma parse_tls_alpn_encoded:
  assumes "\<forall>p \<in> set ps. length p < 256 \<and> utf8_valid p" "length ps \<le> max_tls_alpn_protocols"
    and "length (concat (map (\<lambda>p. of_nat (length p) # p :: u8 list) ps)) < 65536"
  shows "parse_tls_alpn (tls_alpn_bytes ps) = map chars_of ps"
proof -
  let ?pb = "concat (map (\<lambda>p. of_nat (length p) # p :: u8 list) ps)"
  have l: "u16_at (be_bytes 2 (length ?pb) @ ?pb) 0 = length ?pb"
    using u16_at_be_bytes[OF assms(3), of "[]" 0] by simp
  show ?thesis
    using tls_alpn_loop_encoded[OF assms(1), of "[]" "be_bytes 2 (length ?pb)"] assms(2) l
    by (simp add: parse_tls_alpn_def tls_alpn_bytes_def Let_def)
qed
lemma parse_tls_extensions_encoded:
  assumes "\<forall>e \<in> set exts. fst e < 65536 \<and> length (snd e) < 65536" "length exts \<le> max_tls_extensions"
    and "length (concat (map tls_extension_bytes exts)) < 65536" "length pre = offset"
  shows "parse_tls_extensions (pre @ be_bytes 2 (length (concat (map tls_extension_bytes exts)))
        @ concat (map tls_extension_bytes exts)) offset info server
    = (fold (\<lambda>e. tls_extension_step server (fst e) (snd e)) exts info)\<lparr>ti_extensions := Some (length exts)\<rparr>"
proof -
  let ?eb = "concat (map tls_extension_bytes exts)"
  let ?body = "pre @ be_bytes 2 (length ?eb) @ ?eb"
  have l: "u16_at ?body offset = length ?eb" by (rule u16_at_be_bytes[OF assms(3,4)])
  have loop: "tls_extensions_loop ?body (offset + 2) (offset + 2 + length ?eb) 0 server info
      = (length exts, fold (\<lambda>e. tls_extension_step server (fst e) (snd e)) exts info)"
    using tls_extensions_loop_encoded[OF assms(1), of 0 "pre @ be_bytes 2 (length ?eb)" server info] assms(2,4)
    by simp
  have len: "length ?body = offset + 2 + length ?eb" by (simp add: assms(4))
  show ?thesis unfolding parse_tls_extensions_def Let_def l len using loop by simp
qed

lemma parse_tls_client_hello_encoded:
  assumes "length random = 32" "length session < 256" "length suites < 65536" "length compression < 256"
    and "\<forall>e \<in> set exts. fst e < 65536 \<and> length (snd e) < 65536" "length exts \<le> max_tls_extensions"
    and "length (concat (map tls_extension_bytes exts)) < 65536"
  shows "parse_tls_client_hello (tls_client_hello_bytes random session suites compression exts) info
    = (fold (\<lambda>e. tls_extension_step False (fst e) (snd e)) exts
        (info\<lparr>ti_handshake_version := Some ''TLS 1.2'', ti_cipher_suites := Some (length suites div 2)\<rparr>))
      \<lparr>ti_extensions := Some (length exts)\<rparr>"
proof -
  let ?eb = "concat (map tls_extension_bytes exts)"
  let ?ext = "be_bytes 2 (length ?eb) @ ?eb"
  let ?front = "tls_hello_front random session suites compression"
  let ?body = "?front @ ?ext"
  let ?o1 = "35 + length session"
  let ?o2 = "?o1 + 2 + length suites"
  have body: "tls_client_hello_bytes random session suites compression exts = ?body"
    by (simp add: tls_client_hello_bytes_def Let_def)
  have flen: "length ?front = ?o2 + 1 + length compression"
    by (simp add: tls_hello_front_def assms(1))
  have v: "?body ! 0 = 3" "?body ! 1 = 3" by (simp_all add: tls_hello_front_def)
  have s: "get_at ?body 34 = Some (of_nat (length session))"
    using assms(1) by (simp add: get_at_def tls_hello_front_def nth_append)
  have cs: "u16_at ?body ?o1 = length suites"
    using u16_at_be_bytes[OF assms(3), of "[3, 3] @ random @ [of_nat (length session)] @ session" ?o1] assms(1)
    by (simp add: tls_hello_front_def)
  have comp: "unat (?body ! ?o2) = length compression"
    using assms(1,4) by (simp add: tls_hello_front_def nth_append)
  have ext: "parse_tls_extensions ?body (length ?front) i False
      = (fold (\<lambda>e. tls_extension_step False (fst e) (snd e)) exts i)\<lparr>ti_extensions := Some (length exts)\<rparr>" for i
    by (rule parse_tls_extensions_encoded[OF assms(5-7) refl])
  have sess: "unat (of_nat (length session) :: u8) = length session" using assms(2) by simp
  have len: "\<not> length ?body < 34" "\<not> length ?body < ?o1 + 2" "\<not> length ?body \<le> ?o2"
    using flen by simp_all
  have name: "tls_version_name 3 3 = ''TLS 1.2''" by (simp add: tls_version_name_def known_tls_version_name_def)
  have mn: "min (length suites div 2) 65535 = length suites div 2" using assms(3) by simp
  have o: "34 + 1 + length session = ?o1" by simp
  show ?thesis
    unfolding body parse_tls_client_hello_def Let_def s option.case sess o cs comp v name mn
    using len flen ext by simp
qed

lemma parse_tls_handshake_encoded:
  assumes "length body < 2 ^ 24"
  shows "parse_tls_handshake (tls_handshake_bytes 1 body) info
    = parse_tls_client_hello body (info\<lparr>ti_handshake_type := Some ''client_hello''\<rparr>)"
proof -
  have "nat_be (be_bytes 3 (length body)) = length body" by (rule nat_be_be_bytes) (use assms in simp)
  then have "read_u24 (tls_handshake_bytes 1 body) 1 = Some (length body)"
    by (simp add: read_u24_def get_range_def tls_handshake_bytes_def)
  moreover have "slice_of (tls_handshake_bytes 1 body) 4 (length body) = body"
    by (simp add: slice_of_def tls_handshake_bytes_def)
  moreover have "tls_handshake_bytes 1 body ! 0 = 1" "length (tls_handshake_bytes 1 body) = 4 + length body"
    by (simp_all add: tls_handshake_bytes_def)
  ultimately show ?thesis by (simp add: parse_tls_handshake_def Let_def tls_handshake_type_name_def)
qed

lemma parse_tls_record_encoded:
  assumes "20 \<le> content_type" "content_type \<le> 23" "minor \<le> 4" "length payload < 65536"
  shows "parse_tls_record (tls_record_bytes content_type minor payload @ rest) = FrameComplete
    \<lparr>tr_total_len = 5 + length payload,
     tr_info = (let info = \<lparr>ti_content_type = tls_content_type_name content_type,
         ti_record_version = tls_version_name 3 minor, ti_record_len = length payload,
         ti_handshake_type = None, ti_handshake_version = None, ti_sni = None, ti_alpn = [],
         ti_cipher_suite = None, ti_cipher_suites = None, ti_extensions = None\<rparr>
       in if content_type = 22 \<and> length payload \<ge> 4 then parse_tls_handshake payload info else info)\<rparr>"
proof -
  let ?bs = "tls_record_bytes content_type minor payload @ rest"
  have l: "u16_at ?bs 3 = length payload"
    using u16_at_be_bytes[OF assms(4), of "[content_type, 3, minor]" 3 "payload @ rest"]
    by (simp add: tls_record_bytes_def)
  have p: "slice_of ?bs 5 (length payload) = payload"
    using slice_of_exact[of "[content_type, 3, minor] @ be_bytes 2 (length payload)" 5 payload _ rest]
    by (simp add: tls_record_bytes_def)
  have b: "?bs ! 0 = content_type" "?bs ! 1 = 3" "?bs ! 2 = minor" "length ?bs = 5 + length payload + length rest"
    by (simp_all add: tls_record_bytes_def)
  have "\<not> (5 + length payload + length rest < 5)" "\<not> (5 + length payload + length rest < 5 + length payload)"
    "\<not> 4 < minor" using assms(3) by auto
  then show ?thesis
    using assms(1,2) unfolding parse_tls_record_def Let_def l p b
    by (simp only: if_False simp_thms)
qed



text \<open>
  A stream of TLS records may be cut anywhere: pushing two chunks one after the other gives the same
  messages and the same parser state as pushing them at once, as long as no record is invalid and the
  bytes fit in the buffer limit.
\<close>

theorem tls_push_split:
  assumes "framed_ok st" "fz_next_logical st + length (as @ bs) \<le> u64_max"
    and "length (fz_buffer st @ as @ bs) \<le> max_buffer_bytes" "as \<noteq> []" "bs \<noteq> []"
    and "snd (snd (split_frames parse_tls_record tr_total_len (fz_buffer st @ as @ bs))) = None"
  shows "\<exists>ms1 st1 ms2 st2. tls_push st stream_id direction as max_buffer_bytes = Some (ms1, st1)
    \<and> tls_push st1 stream_id direction bs max_buffer_bytes = Some (ms2, st2)
    \<and> tls_push st stream_id direction (as @ bs) max_buffer_bytes = Some (ms1 @ ms2, st2)"
  unfolding tls_push_def by (rule tls.framed_push_split[OF assms])

lemma tls_push_split_witness:
  "\<exists>ms1 st1 ms2 st2. tls_push framed_default 7 AToB [20, 3] 4096 = Some (ms1, st1)
    \<and> tls_push st1 7 AToB [3, 0, 1, 1] 4096 = Some (ms2, st2)
    \<and> tls_push framed_default 7 AToB ([20, 3] @ [3, 0, 1, 1]) 4096 = Some (ms1 @ ms2, st2)"
proof -
  have "parse_tls_record [20, 3, 3, 0, 1, 1] \<noteq> FrameIncomplete"
    "\<And>r. parse_tls_record [20, 3, 3, 0, 1, 1] \<noteq> FrameInvalid r"
    by (simp_all add: parse_tls_record_def u16_at_def unat_u16_be)
  moreover have "tr_total_len f = 6" if "parse_tls_record [20, 3, 3, 0, 1, 1] = FrameComplete f" for f
    using that by (auto simp: parse_tls_record_def u16_at_def unat_u16_be Let_def split: if_splits)
  ultimately have "snd (snd (split_frames parse_tls_record tr_total_len [20, 3, 3, 0, 1, 1])) = None"
    by (cases "parse_tls_record [20, 3, 3, 0, 1, 1]")
      (auto simp: split_frames.simps[of _ _ "[20, 3, 3, 0, 1, 1]"] split_frames.simps[of _ _ "[]"])
  then show ?thesis
    by (intro tls_push_split) (simp_all add: framed_ok_def framed_default_def u64_max_def)
qed

end
