(* ===== verification/Dns_Parser.thy ===== *)
theory Dns_Parser
  imports Stream_Message Wire_Encoding Shard
begin

text \<open>
  The DNS message parser of \<^verbatim>\<open>src/src/stream_message.rs\<close>: the cursor, names with compression pointers,
  questions, resource records and their presentation, and the state \<^verbatim>\<open>DnsDirectionState\<close>.  A
  \<^verbatim>\<open>DnsCursor\<close> is its offset; the message it borrows is an argument.  An error is the reason on the
  left of a sum.
\<close>

subsection \<open>Names of numbers\<close>

definition dns_type_name :: "u16 \<Rightarrow> string" where
  "dns_type_name v =
     (if v = 1 then ''A'' else if v = 2 then ''NS'' else if v = 5 then ''CNAME''
      else if v = 6 then ''SOA'' else if v = 12 then ''PTR'' else if v = 15 then ''MX''
      else if v = 16 then ''TXT'' else if v = 28 then ''AAAA'' else if v = 33 then ''SRV''
      else if v = 41 then ''OPT'' else if v = 255 then ''ANY'' else ''UNKNOWN'')"

definition dns_class_name :: "u16 \<Rightarrow> string" where
  "dns_class_name v =
     (if v = 1 then ''IN'' else if v = 3 then ''CH'' else if v = 4 then ''HS''
      else if v = 255 then ''ANY'' else ''UNKNOWN'')"

definition format_dns_hex :: "bytes \<Rightarrow> string" where
  "format_dns_hex bs = concat (map (\<lambda>b. [hex_digit (unat (drop_bit 4 b)), hex_digit (unat (b AND 0x0f))]) bs)"

subsection \<open>Numbers at an offset\<close>

definition dns_u16_at :: "bytes \<Rightarrow> nat \<Rightarrow> string + u16" where
  "dns_u16_at bs offset =
     (case (get_at bs offset, get_at bs (offset + 1)) of
        (Some hi, Some lo) \<Rightarrow> Inr (u16_be hi lo)
      | _ \<Rightarrow> Inl ''dns u16 is truncated'')"

definition dns_u32_at :: "bytes \<Rightarrow> nat \<Rightarrow> string + nat" where
  "dns_u32_at bs offset = map_sum id nat_be (ok_or ''dns u32 is truncated'' (get_range bs offset (offset + 4)))"

definition result_ok :: "'e + 'a \<Rightarrow> 'a option" where
  "result_ok r = (case r of Inl _ \<Rightarrow> None | Inr a \<Rightarrow> Some a)"

lemma ok_simps [simp]: "result_ok (Inl e) = None" "result_ok (Inr a) = Some a"
  by (simp_all add: result_ok_def)

subsection \<open>Names\<close>

definition max_dns_name_jumps :: nat where
  "max_dns_name_jumps = 16"

definition show_dns_name :: "string list \<Rightarrow> string" where
  "show_dns_name labels = (if labels = [] then ''.'' else join_with ''.'' labels)"

definition dns_pointer :: "u8 \<Rightarrow> u8 \<Rightarrow> nat" where
  "dns_pointer hi lo = unat ((push_bit 8 (ucast hi AND 0x3f) OR ucast lo) :: u16)"

text \<open>The loop of \<^verbatim>\<open>read_dns_name\<close>: the cursor, the offset after the first pointer, the jumps and the
  labels so far.\<close>

function read_dns_name_loop ::
  "bytes \<Rightarrow> nat \<Rightarrow> nat option \<Rightarrow> nat \<Rightarrow> string list \<Rightarrow> string + (string \<times> nat)" where
  "read_dns_name_loop message cursor next_offset jumps labels =
     (case get_at message cursor of
        None \<Rightarrow> Inl ''dns name is truncated''
      | Some len \<Rightarrow>
          if len AND 0xc0 = 0xc0 then
            (case get_at message (cursor + 1) of
               None \<Rightarrow> Inl ''dns compression pointer is truncated''
             | Some next \<Rightarrow>
                 let pointer = dns_pointer len next in
                 if pointer \<ge> length message then Inl ''dns compression pointer is out of range''
                 else
                   let next_offset = (case next_offset of None \<Rightarrow> Some (cursor + 2) | Some n \<Rightarrow> Some n);
                       jumps = jumps + 1
                   in if jumps > max_dns_name_jumps then Inl ''dns compression pointer loop''
                      else read_dns_name_loop message pointer next_offset jumps labels)
          else if len AND 0xc0 \<noteq> 0 then Inl ''dns label uses an unsupported compression form''
          else
            let cursor = cursor + 1 in
            if len = 0 then
              Inr (show_dns_name labels, case next_offset of None \<Rightarrow> cursor | Some n \<Rightarrow> n)
            else
              let len = unat len in
              if len > 63 \<or> length message < cursor + len then Inl ''dns label is truncated''
              else read_dns_name_loop message (cursor + len) next_offset jumps
                (labels @ [from_utf8_lossy (take len (drop cursor message))]))"
  by pat_completeness auto
termination
  by (relation "measures [\<lambda>(_, _, _, jumps, _). Suc max_dns_name_jumps - jumps,
      \<lambda>(message, cursor, _, _, _). length message - cursor]") (auto simp: get_at_def split: if_splits)

declare read_dns_name_loop.simps [simp del]

definition read_dns_name :: "bytes \<Rightarrow> nat \<Rightarrow> string + (string \<times> nat)" where
  "read_dns_name message offset = read_dns_name_loop message offset None 0 []"

subsection \<open>The cursor\<close>

definition cursor_u16 :: "bytes \<Rightarrow> nat \<Rightarrow> string + (u16 \<times> nat)" where
  "cursor_u16 bs offset = try_bind (dns_u16_at bs offset) (\<lambda>v. Inr (v, offset + 2))"

definition cursor_u32 :: "bytes \<Rightarrow> nat \<Rightarrow> string + (nat \<times> nat)" where
  "cursor_u32 bs offset = try_bind (dns_u32_at bs offset) (\<lambda>v. Inr (v, offset + 4))"

definition cursor_name :: "bytes \<Rightarrow> nat \<Rightarrow> string + (string \<times> nat)" where
  "cursor_name bs offset = try_bind (read_dns_name bs offset) (\<lambda>(name, next_offset). Inr (name, next_offset))"

definition cursor_skip :: "bytes \<Rightarrow> nat \<Rightarrow> nat \<Rightarrow> string + nat" where
  "cursor_skip bs offset n =
     (if length bs < offset + n then Inl ''dns field is truncated'' else Inr (offset + n))"

subsection \<open>Record data\<close>

definition dns_mx_data :: "bytes \<Rightarrow> nat \<Rightarrow> bytes \<Rightarrow> string option" where
  "dns_mx_data message offset rdata =
     (if length rdata < 3 then None
      else Option.bind (result_ok (dns_u16_at rdata 0)) (\<lambda>preference.
           Option.bind (result_ok (read_dns_name message (offset + 2))) (\<lambda>(exchange, _).
           Some (show_nat (unat preference) @ '' '' @ exchange))))"

definition dns_srv_data :: "bytes \<Rightarrow> nat \<Rightarrow> bytes \<Rightarrow> string option" where
  "dns_srv_data message offset rdata =
     (if length rdata < 7 then None
      else Option.bind (result_ok (dns_u16_at rdata 0)) (\<lambda>priority.
           Option.bind (result_ok (dns_u16_at rdata 2)) (\<lambda>weight.
           Option.bind (result_ok (dns_u16_at rdata 4)) (\<lambda>port.
           Option.bind (result_ok (read_dns_name message (offset + 6))) (\<lambda>(target, _).
           Some (show_nat (unat priority) @ '' '' @ show_nat (unat weight) @ '' ''
             @ show_nat (unat port) @ '' '' @ target))))))"

definition dns_soa_data :: "bytes \<Rightarrow> nat \<Rightarrow> bytes \<Rightarrow> string option" where
  "dns_soa_data message offset rdata =
     Option.bind (result_ok (read_dns_name message offset)) (\<lambda>(mname, after_mname).
     Option.bind (result_ok (read_dns_name message after_mname)) (\<lambda>(rname, after_rname).
     if after_rname < offset then None
     else if length rdata < after_rname - offset + 20 then None
     else Option.bind (result_ok (dns_u32_at message after_rname)) (\<lambda>serial.
       Some (mname @ '' '' @ rname @ '' serial='' @ show_nat serial))))"

function dns_txt_loop :: "bytes \<Rightarrow> nat \<Rightarrow> string list \<Rightarrow> string list option" where
  "dns_txt_loop rdata offset parts =
     (if offset < length rdata then
        let len = unat (rdata ! offset);
            offset = offset + 1
        in if length rdata < offset + len then None
           else dns_txt_loop rdata (offset + len) (parts @ [from_utf8_lossy (take len (drop offset rdata))])
      else Some parts)"
  by pat_completeness auto
termination by (relation "measure (\<lambda>(rdata, offset, _). length rdata - offset)") auto

declare dns_txt_loop.simps [simp del]

definition dns_txt_data :: "bytes \<Rightarrow> string" where
  "dns_txt_data rdata = (case dns_txt_loop rdata 0 [] of
     None \<Rightarrow> format_dns_hex rdata
   | Some parts \<Rightarrow> join_with '''' parts)"

definition or_hex :: "bytes \<Rightarrow> string option \<Rightarrow> string" where
  "or_hex rdata r = (case r of None \<Rightarrow> format_dns_hex rdata | Some s \<Rightarrow> s)"

definition dns_record_data :: "bytes \<Rightarrow> nat \<Rightarrow> u16 \<Rightarrow> bytes \<Rightarrow> string" where
  "dns_record_data message rdata_offset rr_type rdata =
     (if rr_type = 1 \<and> length rdata = 4 then show_ipv4 rdata
      else if rr_type = 2 \<or> rr_type = 5 \<or> rr_type = 12
        then or_hex rdata (map_option fst (result_ok (read_dns_name message rdata_offset)))
      else if rr_type = 6 then or_hex rdata (dns_soa_data message rdata_offset rdata)
      else if rr_type = 15 then or_hex rdata (dns_mx_data message rdata_offset rdata)
      else if rr_type = 16 then dns_txt_data rdata
      else if rr_type = 28 \<and> length rdata = 16 then show_ipv6 rdata
      else if rr_type = 33 then or_hex rdata (dns_srv_data message rdata_offset rdata)
      else format_dns_hex rdata)"

subsection \<open>Questions and records\<close>

definition max_stored_dns_questions :: nat where
  "max_stored_dns_questions = 16"

definition max_stored_dns_records :: nat where
  "max_stored_dns_records = 32"

definition parse_dns_question :: "bytes \<Rightarrow> nat \<Rightarrow> string + (dns_question \<times> nat)" where
  "parse_dns_question bs offset =
     try_bind (cursor_name bs offset) (\<lambda>(name, offset).
     try_bind (cursor_u16 bs offset) (\<lambda>(qtype, offset).
     try_bind (cursor_u16 bs offset) (\<lambda>(qclass, offset).
     Inr (\<lparr>dq_name = name, dq_qtype = dns_type_name qtype, dq_qclass = dns_class_name qclass\<rparr>, offset))))"

definition parse_dns_record :: "bytes \<Rightarrow> nat \<Rightarrow> string + (dns_record \<times> nat)" where
  "parse_dns_record bs offset =
     try_bind (cursor_name bs offset) (\<lambda>(name, offset).
     try_bind (cursor_u16 bs offset) (\<lambda>(rr_type, offset).
     try_bind (cursor_u16 bs offset) (\<lambda>(class_no, offset).
     try_bind (cursor_u32 bs offset) (\<lambda>(ttl, offset).
     try_bind (cursor_u16 bs offset) (\<lambda>(rdlen, rdata_offset).
     try_bind (cursor_skip bs rdata_offset (unat rdlen)) (\<lambda>offset.
     try_bind (ok_or ''dns record data is truncated'' (get_range bs rdata_offset (rdata_offset + unat rdlen))) (\<lambda>rdata.
     Inr (\<lparr>dr_name = name, dr_rr_type = dns_type_name rr_type, dr_class = dns_class_name class_no,
           dr_ttl = ttl, dr_data = dns_record_data bs rdata_offset rr_type rdata\<rparr>, offset))))))))"

text \<open>The loops \<^verbatim>\<open>for index in 0..count\<close>: entries past the limit are parsed but not stored.\<close>

fun dns_entries_loop ::
  "(bytes \<Rightarrow> nat \<Rightarrow> string + ('a \<times> nat)) \<Rightarrow> nat \<Rightarrow> bytes \<Rightarrow> nat \<Rightarrow> nat \<Rightarrow> nat \<Rightarrow> 'a list \<Rightarrow> bool \<Rightarrow>
   string + ('a list \<times> bool \<times> nat)" where
  "dns_entries_loop entry limit bs 0 index offset acc truncated = Inr (acc, truncated, offset)"
| "dns_entries_loop entry limit bs (Suc n) index offset acc truncated =
     try_bind (entry bs offset) (\<lambda>(e, offset).
       if index < limit then dns_entries_loop entry limit bs n (index + 1) offset (acc @ [e]) truncated
       else dns_entries_loop entry limit bs n (index + 1) offset acc True)"

definition parse_dns_questions :: "bytes \<Rightarrow> nat \<Rightarrow> nat \<Rightarrow> string + (dns_question list \<times> bool \<times> nat)" where
  "parse_dns_questions bs n offset =
     dns_entries_loop parse_dns_question max_stored_dns_questions bs n 0 offset [] False"

definition parse_dns_records :: "bytes \<Rightarrow> nat \<Rightarrow> nat \<Rightarrow> string + (dns_record list \<times> bool \<times> nat)" where
  "parse_dns_records bs n offset =
     dns_entries_loop parse_dns_record max_stored_dns_records bs n 0 offset [] False"

definition parse_dns_message :: "bytes \<Rightarrow> string + dns_info" where
  "parse_dns_message bs =
     (if length bs < 12 then Inl ''dns message is shorter than header''
      else
        try_bind (cursor_u16 bs 0) (\<lambda>(transaction_id, offset).
        try_bind (cursor_u16 bs offset) (\<lambda>(flags, offset).
        try_bind (cursor_u16 bs offset) (\<lambda>(question_count, offset).
        try_bind (cursor_u16 bs offset) (\<lambda>(answer_count, offset).
        try_bind (cursor_u16 bs offset) (\<lambda>(authority_count, offset).
        try_bind (cursor_u16 bs offset) (\<lambda>(additional_count, offset).
        try_bind (parse_dns_questions bs (unat question_count) offset) (\<lambda>(questions, questions_truncated, offset).
        try_bind (parse_dns_records bs (unat answer_count) offset) (\<lambda>(answers, answers_truncated, offset).
        try_bind (parse_dns_records bs (unat authority_count) offset) (\<lambda>(authorities, authorities_truncated, offset).
        try_bind (parse_dns_records bs (unat additional_count) offset) (\<lambda>(additionals, additionals_truncated, offset).
        Inr \<lparr>di_transaction_id = transaction_id,
          di_opcode = ucast (drop_bit 11 flags AND 0x0f), di_rcode = ucast (flags AND 0x0f),
          di_query = (flags AND 0x8000 = 0), di_authoritative = (flags AND 0x0400 \<noteq> 0),
          di_truncated = (flags AND 0x0200 \<noteq> 0), di_recursion_desired = (flags AND 0x0100 \<noteq> 0),
          di_recursion_available = (flags AND 0x0080 \<noteq> 0), di_questions = questions,
          di_answers = answers, di_authorities = authorities, di_additionals = additionals,
          di_questions_truncated = questions_truncated,
          di_records_truncated = (answers_truncated \<or> authorities_truncated \<or> additionals_truncated)\<rparr>)))))))))))"

definition looks_like_dns_datagram :: "bytes \<Rightarrow> bool" where
  "looks_like_dns_datagram bs \<longleftrightarrow> length bs \<ge> 12
     \<and> (let questions = u16_be (bs ! 4) (bs ! 5);
            answers = u16_be (bs ! 6) (bs ! 7);
            opcode = drop_bit 3 (bs ! 2) AND 0x0f
        in opcode \<le> 5 \<and> questions \<noteq> 0 \<and> questions \<le> 64 \<and> answers \<le> 512)"

subsection \<open>The messages of a flow\<close>

record dns_direction_state =
  dz_next_logical :: nat
  dz_next_ordinal :: nat

definition dns_state_default :: dns_direction_state where
  "dns_state_default = \<lparr>dz_next_logical = 0, dz_next_ordinal = 0\<rparr>"

definition dns_summary :: "dns_info \<Rightarrow> string" where
  "dns_summary dns =
     (let prefix = (if di_query dns then ''DNS query'' else ''DNS response'');
          question = (case di_questions dns of
            [] \<Rightarrow> ''no question'' | q # _ \<Rightarrow> dq_qtype q @ '' '' @ dq_name q)
      in if di_query dns then prefix @ '' '' @ question
         else prefix @ '' '' @ question @ '' rcode='' @ show_nat (unat (di_rcode dns))
           @ '' answers='' @ show_nat (length (di_answers dns)))"

definition dns_stream_message ::
  "u64w \<Rightarrow> flow_direction \<Rightarrow> nat \<Rightarrow> nat \<Rightarrow> nat \<Rightarrow> dns_info \<Rightarrow> stream_message" where
  "dns_stream_message stream_id direction ordinal logical_start logical_end dns =
     \<lparr>msg_stream_id = stream_id, msg_stream_id_hex = hex_fixed 16 (unat stream_id),
      msg_message_id = stable_message_id stream_id direction ordinal, msg_protocol = Dns,
      msg_kind = (if di_query dns then Request else Response), msg_status = Complete,
      msg_direction = direction, msg_ordinal = ordinal, msg_summary = dns_summary dns,
      msg_logical_start = logical_start, msg_logical_end = logical_end,
      msg_header_start = Some logical_start, msg_header_end = Some (sat_add logical_start 12),
      msg_body_start = Some (sat_add logical_start 12), msg_body_end = Some logical_end,
      msg_wire_bytes = logical_end - logical_start, msg_header_bytes = 12,
      msg_body_bytes = logical_end - logical_start - 12, msg_http = None, msg_dns = Some dns,
      msg_websocket = None, msg_tls = None, msg_error = None\<rparr>"

definition dns_parse_error ::
  "u64w \<Rightarrow> flow_direction \<Rightarrow> nat \<Rightarrow> nat \<Rightarrow> nat \<Rightarrow> string \<Rightarrow> stream_message" where
  "dns_parse_error stream_id direction ordinal logical_start logical_end error =
     \<lparr>msg_stream_id = stream_id, msg_stream_id_hex = hex_fixed 16 (unat stream_id),
      msg_message_id = stable_message_id stream_id direction ordinal, msg_protocol = Dns,
      msg_kind = UnknownKind, msg_status = ParseError, msg_direction = direction,
      msg_ordinal = ordinal, msg_summary = ''DNS parse error'', msg_logical_start = logical_start,
      msg_logical_end = logical_end, msg_header_start = Some logical_start,
      msg_header_end = Some logical_end, msg_body_start = None, msg_body_end = None,
      msg_wire_bytes = logical_end - logical_start, msg_header_bytes = logical_end - logical_start,
      msg_body_bytes = 0, msg_http = None, msg_dns = None, msg_websocket = None, msg_tls = None,
      msg_error = Some error\<rparr>"

definition parse_datagram ::
  "dns_direction_state \<Rightarrow> u64w \<Rightarrow> flow_direction \<Rightarrow> bytes \<Rightarrow> stream_message \<times> dns_direction_state" where
  "parse_datagram st stream_id direction bs =
     (let logical_start = dz_next_logical st;
          logical_end = sat_add logical_start (length bs);
          ordinal = dz_next_ordinal st;
          st1 = \<lparr>dz_next_logical = logical_end, dz_next_ordinal = sat_add ordinal 1\<rparr>
      in (case parse_dns_message bs of
            Inr dns \<Rightarrow> dns_stream_message stream_id direction ordinal logical_start logical_end dns
          | Inl error \<Rightarrow> dns_parse_error stream_id direction ordinal logical_start logical_end error, st1))"

subsection \<open>Names as RFC 1035 defines them\<close>

text \<open>
  \<open>dns_name_at message offset jumps labels stop\<close>: a name with these labels starts at the offset, its
  encoding there ends before \<open>stop\<close>, and \<open>jumps\<close> compression pointers are followed.
\<close>

inductive dns_name_at :: "bytes \<Rightarrow> nat \<Rightarrow> nat \<Rightarrow> string list \<Rightarrow> nat \<Rightarrow> bool" for message where
  root: "get_at message c = Some 0 \<Longrightarrow> dns_name_at message c 0 [] (Suc c)"
| label: "get_at message c = Some len \<Longrightarrow> 0 < unat len \<Longrightarrow> unat len \<le> 63 \<Longrightarrow> Suc (c + unat len) \<le> length message
    \<Longrightarrow> dns_name_at message (Suc (c + unat len)) j ls e
    \<Longrightarrow> dns_name_at message c j (from_utf8_lossy (take (unat len) (drop (Suc c) message)) # ls) e"
| pointer: "get_at message c = Some hi \<Longrightarrow> hi AND 0xc0 = 0xc0 \<Longrightarrow> get_at message (Suc c) = Some lo
    \<Longrightarrow> dns_pointer hi lo < length message \<Longrightarrow> dns_name_at message (dns_pointer hi lo) j ls e
    \<Longrightarrow> dns_name_at message c (Suc j) ls (Suc (Suc c))"

inductive_cases dns_name_atE: "dns_name_at message c j ls e"

lemma label_byte_iff: "(len :: u8) AND 0xc0 = 0 \<longleftrightarrow> unat len \<le> 63"
proof
  assume z: "len AND 0xc0 = 0"
  have "len = len AND NOT 0" by simp
  also have "NOT 0 = (0xc0 OR mask 6 :: u8)" by (simp add: mask_numeral)
  also have "len AND (0xc0 OR mask 6) = len AND mask 6" using z by (simp only: bit.conj_disj_distrib or.left_neutral)
  finally have "len = take_bit 6 len" by (simp only: take_bit_eq_mask)
  then have "unat len = take_bit 6 (unat len)" by (metis unsigned_take_bit_eq)
  moreover have "take_bit 6 (unat len) < 2 ^ 6" by (rule take_bit_nat_less_exp)
  ultimately show "unat len \<le> 63" by simp
next
  assume "unat len \<le> 63"
  then have "unat (take_bit 6 len) = unat len" by (simp add: unsigned_take_bit_eq take_bit_nat_eq_self)
  then have "take_bit 6 len = len" by (simp only: word_unat_eq_iff)
  then have "len = len AND 0x3f" by (simp add: take_bit_eq_mask mask_numeral)
  then have "len AND 0xc0 = len AND (0x3f AND 0xc0)" by (metis and.assoc)
  then show "len AND 0xc0 = 0" by simp
qed

text \<open>The three forms of the byte at the cursor exclude each other.\<close>

lemma dns_name_at_root_iff:
  "get_at message c = Some 0 \<Longrightarrow> dns_name_at message c j ls e \<longleftrightarrow> j = 0 \<and> ls = [] \<and> e = Suc c"
  by (auto intro: dns_name_at.root elim: dns_name_atE)

lemma dns_name_at_label_iff:
  assumes "get_at message c = Some len" "len \<noteq> 0" "unat len \<le> 63"
  shows "dns_name_at message c j ls e \<longleftrightarrow> Suc (c + unat len) \<le> length message
    \<and> (\<exists>ls'. ls = from_utf8_lossy (take (unat len) (drop (Suc c) message)) # ls'
        \<and> dns_name_at message (Suc (c + unat len)) j ls' e)"
proof -
  have "0 < unat len" using assms(2) by (simp add: unat_gt_0)
  moreover have "len AND 0xc0 \<noteq> 0xc0" using assms(3) label_byte_iff[of len] by simp
  ultimately show ?thesis using assms by (auto intro: dns_name_at.label elim: dns_name_atE)
qed

lemma dns_name_at_pointer_iff:
  assumes "get_at message c = Some hi" "hi AND 0xc0 = 0xc0"
  shows "dns_name_at message c j ls e \<longleftrightarrow> (\<exists>lo j' e'. get_at message (Suc c) = Some lo
    \<and> dns_pointer hi lo < length message \<and> dns_name_at message (dns_pointer hi lo) j' ls e'
    \<and> j = Suc j' \<and> e = Suc (Suc c))"
proof -
  have "\<not> unat hi \<le> 63" using assms(2) label_byte_iff[of hi] by auto
  show ?thesis
  proof
    assume "dns_name_at message c j ls e"
    then show "\<exists>lo j' e'. get_at message (Suc c) = Some lo \<and> dns_pointer hi lo < length message
        \<and> dns_name_at message (dns_pointer hi lo) j' ls e' \<and> j = Suc j' \<and> e = Suc (Suc c)"
      by (rule dns_name_atE) (use assms \<open>\<not> unat hi \<le> 63\<close> in auto)
  qed (use assms in \<open>blast intro: dns_name_at.pointer\<close>)
qed

lemma dns_name_at_other:
  assumes "get_at message c = Some len" "len AND 0xc0 \<noteq> 0xc0" "len AND 0xc0 \<noteq> 0"
  shows "\<not> dns_name_at message c j ls e"
  using assms label_byte_iff[of len] by (auto elim: dns_name_atE)

lemma jump_shift:
  "(\<exists>ls j e. (\<exists>j' e'. P ls j' e' \<and> j = Suc j' \<and> e = E) \<and> jumps + j \<le> M \<and> r = f ls e)
    \<longleftrightarrow> (\<exists>ls j e. P ls j e \<and> jumps + 1 + j \<le> M \<and> r = f ls E)" for jumps M :: nat
  by (metis add.commute add_Suc_right plus_1_eq_Suc)

lemma read_dns_name_loop_iff:
  "jumps \<le> max_dns_name_jumps \<Longrightarrow> read_dns_name_loop message c nx jumps labels = Inr r \<longleftrightarrow>
    (\<exists>ls j e. dns_name_at message c j ls e \<and> jumps + j \<le> max_dns_name_jumps
      \<and> r = (show_dns_name (labels @ ls), case nx of None \<Rightarrow> e | Some n \<Rightarrow> n))"
proof (induction message c nx jumps labels rule: read_dns_name_loop.induct)
  case (1 message c nx jumps labels)
  note step = read_dns_name_loop.simps[of message c nx jumps labels]
  show ?case
  proof (cases "get_at message c")
    case None
    then show ?thesis by (auto simp: step elim: dns_name_atE)
  next
    case (Some len)
    consider (ptr) "len AND 0xc0 = 0xc0" | (other) "len AND 0xc0 \<noteq> 0xc0" "len AND 0xc0 \<noteq> 0"
      | (root) "len = 0" | (lab) "len AND 0xc0 = 0" "len \<noteq> 0" by blast
    then show ?thesis
    proof cases
      case ptr
      show ?thesis
      proof (cases "get_at message (c + 1)")
        case None
        then show ?thesis using Some ptr by (simp add: step dns_name_at_pointer_iff[OF Some ptr])
      next
        case lo: (Some lo)
        let ?p = "dns_pointer len lo"
        let ?nx = "case nx of None \<Rightarrow> Some (c + 2) | Some n \<Rightarrow> Some n"
        have ptr_iff: "dns_name_at message c j ls e \<longleftrightarrow> ?p < length message
            \<and> (\<exists>j' e'. dns_name_at message ?p j' ls e' \<and> j = Suc j' \<and> e = c + 2)" for j ls e
          using lo by (simp add: dns_name_at_pointer_iff[OF Some ptr])
        have rhs: "(\<exists>ls j e. dns_name_at message c j ls e \<and> jumps + j \<le> max_dns_name_jumps
              \<and> r = (show_dns_name (labels @ ls), case nx of None \<Rightarrow> e | Some n \<Rightarrow> n))
          \<longleftrightarrow> ?p < length message \<and> (\<exists>ls j e. dns_name_at message ?p j ls e \<and> jumps + 1 + j \<le> max_dns_name_jumps
              \<and> r = (show_dns_name (labels @ ls), case ?nx of None \<Rightarrow> e | Some n \<Rightarrow> n))"
        proof (cases "?p < length message")
          case True
          have "(case ?nx of None \<Rightarrow> e | Some n \<Rightarrow> n) = (case nx of None \<Rightarrow> c + 2 | Some n \<Rightarrow> n)" for e
            by (cases nx) simp_all
          with True show ?thesis
            using jump_shift[of "\<lambda>ls j e. dns_name_at message ?p j ls e" "c + 2" jumps max_dns_name_jumps r
                "\<lambda>ls e. (show_dns_name (labels @ ls), case nx of None \<Rightarrow> e | Some n \<Rightarrow> n)"]
            by (simp only: ptr_iff simp_thms)
        qed (simp add: ptr_iff)
        show ?thesis
        proof (cases "?p < length message \<and> jumps + 1 \<le> max_dns_name_jumps")
          case True
          then have "read_dns_name_loop message c nx jumps labels = read_dns_name_loop message ?p ?nx (jumps + 1) labels"
            using Some ptr lo by (simp add: step Let_def)
          moreover note "1.IH"(1)[OF Some ptr lo refl _ refl refl]
          ultimately show ?thesis using True unfolding rhs by simp
        next
          case False
          then show ?thesis unfolding rhs using Some ptr lo by (auto simp: step Let_def)
        qed
      qed
    next
      case other
      then show ?thesis using Some dns_name_at_other[OF Some other] by (simp add: step)
    next
      case root
      then show ?thesis using Some "1.prems" by (auto simp: step dns_name_at_root_iff)
    next
      case lab
      have len: "unat len \<le> 63" using lab(1) by (simp add: label_byte_iff)
      show ?thesis
        using Some lab len "1.prems" "1.IH"(2)[OF Some _ _ refl lab(2) refl]
        by (auto simp: step dns_name_at_label_iff[OF Some lab(2) len] Let_def)
    qed
  qed
qed

text \<open>
  A name is read exactly when RFC 1035 defines one at the offset that follows at most 16 compression
  pointers: the labels, joined by dots, and the offset after the name's encoding are the ones of that
  name; in every other case (truncation, a pointer out of range, a loop of pointers, a reserved label
  form) the result is an error.
\<close>

theorem dns_name_read_iff:
  "read_dns_name message offset = Inr (name, stop) \<longleftrightarrow>
    (\<exists>labels jumps. dns_name_at message offset jumps labels stop \<and> jumps \<le> 16 \<and> name = show_dns_name labels)"
  unfolding read_dns_name_def
  by (subst read_dns_name_loop_iff) (auto simp: max_dns_name_jumps_def)

lemma read_dns_nameI:
  "dns_name_at message offset jumps labels stop \<Longrightarrow> jumps \<le> 16 \<Longrightarrow>
    read_dns_name message offset = Inr (show_dns_name labels, stop)"
  unfolding read_dns_name_def
  by (subst read_dns_name_loop_iff) (auto simp: max_dns_name_jumps_def)

text \<open>
  A compression pointer that points to itself is always an error, and the parser returns it: no
  message makes \<^verbatim>\<open>read_dns_name\<close> loop.
\<close>

lemma dns_self_pointer_rejected:
  assumes "get_at message offset = Some hi" "hi AND 0xc0 = 0xc0" "get_at message (Suc offset) = Some lo"
    and "dns_pointer hi lo = offset"
  shows "\<exists>reason. read_dns_name message offset = Inl reason"
proof -
  have "\<not> dns_name_at message offset j ls e" for j ls e
  proof (induction j arbitrary: e)
    case 0
    show ?case by (subst dns_name_at_pointer_iff[OF assms(1,2)]) simp
  next
    case (Suc j)
    then show ?case by (subst dns_name_at_pointer_iff[OF assms(1,2)]) (simp add: assms(3,4))
  qed
  then have "read_dns_name message offset \<noteq> Inr r" for r
    unfolding read_dns_name_def by (subst read_dns_name_loop_iff) auto
  then show ?thesis by (metis sum.exhaust)
qed

lemma dns_self_pointer_rejected_witness: "\<exists>reason. read_dns_name [0xc0, 0] 0 = Inl reason"
  using dns_self_pointer_rejected[of "[0xc0, 0]" 0 "0xc0" 0] by (simp add: get_at_def dns_pointer_def)

subsection \<open>Messages as RFC 1035 writes them\<close>

definition dns_name_bytes :: "bytes list \<Rightarrow> bytes" where
  "dns_name_bytes labels = concat (map (\<lambda>l. of_nat (length l) # l) labels) @ [0]"

definition dns_question_bytes :: "bytes list \<Rightarrow> u16 \<Rightarrow> u16 \<Rightarrow> bytes" where
  "dns_question_bytes labels qtype qclass = dns_name_bytes labels @ be_bytes 2 (unat qtype) @ be_bytes 2 (unat qclass)"

text \<open>An address record whose name is a pointer to the question's name, at offset 12.\<close>

definition dns_answer_bytes :: "nat \<times> bytes \<Rightarrow> bytes" where
  "dns_answer_bytes a = [0xc0, 0x0c] @ be_bytes 2 1 @ be_bytes 2 1 @ be_bytes 4 (fst a) @ be_bytes 2 4 @ snd a"

definition dns_message_bytes ::
  "u16 \<Rightarrow> u16 \<Rightarrow> bytes list \<Rightarrow> u16 \<Rightarrow> u16 \<Rightarrow> (nat \<times> bytes) list \<Rightarrow> bytes" where
  "dns_message_bytes ident flags labels qtype qclass answers =
     be_bytes 2 (unat ident) @ be_bytes 2 (unat flags) @ be_bytes 2 1 @ be_bytes 2 (length answers)
     @ be_bytes 2 0 @ be_bytes 2 0 @ dns_question_bytes labels qtype qclass
     @ concat (map dns_answer_bytes answers)"

lemma get_at_middle: "length pre = i \<Longrightarrow> get_at (pre @ x # post) i = Some x"
  by (simp add: get_at_def nth_append)

lemma dns_name_at_bytes:
  "\<forall>l \<in> set labels. l \<noteq> [] \<and> length l \<le> 63 \<Longrightarrow>
    dns_name_at (pre @ dns_name_bytes labels @ post) (length pre) 0 (map from_utf8_lossy labels)
      (length pre + length (dns_name_bytes labels))"
proof (induction labels arbitrary: pre)
  case Nil
  then show ?case
    using dns_name_at.root[OF get_at_middle[of pre "length pre" 0 post]] by (simp add: dns_name_bytes_def)
next
  case (Cons l labels)
  let ?m = "pre @ (of_nat (length l) # l) @ dns_name_bytes labels @ post"
  have l: "l \<noteq> []" "length l \<le> 63" using Cons.prems by auto
  then have u: "unat (of_nat (length l) :: u8) = length l" by simp
  have m: "pre @ dns_name_bytes (l # labels) @ post = ?m" by (simp add: dns_name_bytes_def)
  have tl: "dns_name_at ?m (Suc (length pre + length l)) 0 (map from_utf8_lossy labels)
      (Suc (length pre + length l) + length (dns_name_bytes labels))"
    using Cons.IH[of "pre @ of_nat (length l) # l"] Cons.prems by simp
  have "dns_name_at ?m (length pre) 0
      (from_utf8_lossy (take (unat (of_nat (length l) :: u8)) (drop (Suc (length pre)) ?m)) # map from_utf8_lossy labels)
      (Suc (length pre + length l) + length (dns_name_bytes labels))"
    by (rule dns_name_at.label) (use l u tl in \<open>simp_all add: get_at_middle\<close>)
  then show ?case
    unfolding m using u by (simp add: dns_name_bytes_def add.assoc)
qed

lemma u16_be_word: "u16_be (of_nat (unat w div 256 mod 256)) (of_nat (unat w mod 256)) = w"
proof -
  have "unat w < 65536" using unsigned_less[of w] by simp
  then have "unat (u16_be (of_nat (unat w div 256 mod 256)) (of_nat (unat w mod 256))) = unat w"
    by (rule u16_be_be_bytes)
  then show ?thesis by (simp only: word_unat_eq_iff)
qed

lemma cursor_u16_bytes: "length pre = i \<Longrightarrow> cursor_u16 (pre @ be_bytes 2 (unat w) @ post) i = Inr (w, i + 2)"
  using u16_be_word[of w]
  by (simp add: cursor_u16_def dns_u16_at_def be_bytes_2 get_at_def nth_append del: mod_less)

lemma cursor_u32_bytes:
  "length pre = i \<Longrightarrow> n < 2 ^ 32 \<Longrightarrow> cursor_u32 (pre @ be_bytes 4 n @ post) i = Inr (n, i + 4)"
  using nat_be_be_bytes[of n 4] by (simp add: cursor_u32_def dns_u32_at_def get_range_def)

lemma cursor_u16_num:
  "length pre = i \<Longrightarrow> n < 65536 \<Longrightarrow> cursor_u16 (pre @ be_bytes 2 n @ post) i = Inr (of_nat n, i + 2)"
  using cursor_u16_bytes[of pre i "of_nat n" post] by (simp add: unsigned_of_nat take_bit_nat_eq_self)

lemma dns_pointer_c00c: "dns_pointer 0xc0 0x0c = 12"
  by (simp add: dns_pointer_def)

lemma parse_dns_question_bytes:
  assumes "\<forall>l \<in> set labels. l \<noteq> [] \<and> length l \<le> 63"
  shows "parse_dns_question (pre @ dns_question_bytes labels qtype qclass @ post) (length pre)
    = Inr (\<lparr>dq_name = show_dns_name (map from_utf8_lossy labels), dq_qtype = dns_type_name qtype,
            dq_qclass = dns_class_name qclass\<rparr>, length pre + length (dns_question_bytes labels qtype qclass))"
proof -
  let ?m = "pre @ dns_name_bytes labels @ be_bytes 2 (unat qtype) @ be_bytes 2 (unat qclass) @ post"
  let ?n = "length pre + length (dns_name_bytes labels)"
  have name: "read_dns_name ?m (length pre) = Inr (show_dns_name (map from_utf8_lossy labels), ?n)"
    by (rule read_dns_nameI[OF dns_name_at_bytes[OF assms]]) simp
  have t: "cursor_u16 ?m ?n = Inr (qtype, ?n + 2)"
    using cursor_u16_bytes[of "pre @ dns_name_bytes labels" ?n qtype] by simp
  have c: "cursor_u16 ?m (?n + 2) = Inr (qclass, ?n + 2 + 2)"
    using cursor_u16_bytes[of "pre @ dns_name_bytes labels @ be_bytes 2 (unat qtype)" "?n + 2" qclass] by simp
  have "parse_dns_question ?m (length pre) = Inr (\<lparr>dq_name = show_dns_name (map from_utf8_lossy labels),
      dq_qtype = dns_type_name qtype, dq_qclass = dns_class_name qclass\<rparr>, ?n + 2 + 2)"
    unfolding parse_dns_question_def cursor_name_def name try_bind_simps prod.case t c by simp
  then show ?thesis by (simp add: dns_question_bytes_def)
qed

definition dns_answer_record :: "string list \<Rightarrow> nat \<times> bytes \<Rightarrow> dns_record" where
  "dns_answer_record names a = \<lparr>dr_name = show_dns_name names, dr_rr_type = ''A'', dr_class = ''IN'',
     dr_ttl = fst a, dr_data = show_ipv4 (snd a)\<rparr>"

lemma parse_dns_record_bytes:
  assumes "message = pre @ dns_answer_bytes a @ post" "fst a < 2 ^ 32" "length (snd a) = 4"
    and "dns_name_at message 12 0 names stop" "12 < length message"
  shows "parse_dns_record message (length pre) = Inr (dns_answer_record names a, length pre + 16)"
proof -
  let ?o = "length pre"
  let ?tail = "be_bytes 2 1 @ be_bytes 2 1 @ be_bytes 4 (fst a) @ be_bytes 2 4 @ snd a @ post"
  have m: "message = pre @ 0xc0 # 0x0c # ?tail" by (simp add: assms(1) dns_answer_bytes_def)
  have hi: "get_at message ?o = Some 0xc0" by (simp add: m get_at_middle)
  have lo: "get_at message (Suc ?o) = Some 0x0c"
    using get_at_middle[of "pre @ [0xc0]" "Suc ?o" "0x0c" ?tail] by (simp add: m)
  have "dns_name_at message ?o (Suc 0) names (Suc (Suc ?o))"
    by (rule dns_name_at.pointer[OF hi _ lo _ assms(4)[folded dns_pointer_c00c]])
      (simp_all add: dns_pointer_c00c assms(5))
  then have name: "read_dns_name message ?o = Inr (show_dns_name names, ?o + 2)"
    using read_dns_nameI by fastforce
  have t: "cursor_u16 message (?o + 2) = Inr (1, ?o + 4)"
    using cursor_u16_num[of "pre @ [0xc0, 0x0c]" "?o + 2" 1] by (simp add: m)
  have c: "cursor_u16 message (?o + 4) = Inr (1, ?o + 6)"
    using cursor_u16_num[of "pre @ [0xc0, 0x0c] @ be_bytes 2 1" "?o + 4" 1] by (simp add: m)
  have l: "cursor_u32 message (?o + 6) = Inr (fst a, ?o + 10)"
    using cursor_u32_bytes[of "pre @ [0xc0, 0x0c] @ be_bytes 2 1 @ be_bytes 2 1" "?o + 6" "fst a"] assms(2)
    by (simp add: m)
  have r: "cursor_u16 message (?o + 10) = Inr (4, ?o + 12)"
    using cursor_u16_num[of "pre @ [0xc0, 0x0c] @ be_bytes 2 1 @ be_bytes 2 1 @ be_bytes 4 (fst a)" "?o + 10" 4]
    by (simp add: m)
  have k: "cursor_skip message (?o + 12) 4 = Inr (?o + 16)"
    using assms(3) by (simp add: cursor_skip_def m)
  have d: "get_range message (?o + 12) (?o + 12 + 4) = Some (snd a)"
    using assms(3) by (simp add: get_range_def m)
  have u4: "unat (4 :: u16) = 4" by simp
  show ?thesis
    unfolding parse_dns_record_def cursor_name_def name try_bind_simps prod.case t c l r u4 k d ok_or_simps
    using assms(3) by (simp add: dns_answer_record_def dns_record_data_def dns_type_name_def dns_class_name_def)
qed

lemma dns_entries_loop_answers:
  assumes "message = pre @ concat (map dns_answer_bytes answers) @ post"
    and "\<forall>a \<in> set answers. fst a < 2 ^ 32 \<and> length (snd a) = 4"
    and "dns_name_at message 12 0 names stop" "12 < length message" "index + length answers \<le> limit"
  shows "dns_entries_loop parse_dns_record limit message (length answers) index (length pre) acc False
    = Inr (acc @ map (dns_answer_record names) answers, False, length pre + 16 * length answers)"
  using assms
proof (induction answers arbitrary: pre index acc)
  case (Cons a answers)
  have a: "fst a < 2 ^ 32" "length (snd a) = 4" using Cons.prems(2) by auto
  have m: "message = pre @ dns_answer_bytes a @ concat (map dns_answer_bytes answers) @ post"
    using Cons.prems(1) by simp
  have rec: "parse_dns_record message (length pre) = Inr (dns_answer_record names a, length pre + 16)"
    by (rule parse_dns_record_bytes[OF m a Cons.prems(3,4)])
  have "length (pre @ dns_answer_bytes a) = length pre + 16" by (simp add: dns_answer_bytes_def a)
  moreover have "dns_entries_loop parse_dns_record limit message (length answers) (index + 1)
      (length (pre @ dns_answer_bytes a)) (acc @ [dns_answer_record names a]) False
    = Inr ((acc @ [dns_answer_record names a]) @ map (dns_answer_record names) answers, False,
        length (pre @ dns_answer_bytes a) + 16 * length answers)"
    by (rule Cons.IH) (use Cons.prems m in simp_all)
  ultimately show ?case using Cons.prems(5) by (simp add: rec)
qed simp
text \<open>
  C19. A DNS message written as RFC 1035 writes it is parsed back: the header's identifier and flags, the
  question, and up to 32 address records whose name is a compression pointer to the question's name, each
  with its time to live and its address, whatever bytes follow.
\<close>

theorem dns_message_roundtrip:
  assumes "list_all (\<lambda>l. l \<noteq> [] \<and> length l \<le> 63) labels" "length answers \<le> 32"
    and "list_all (\<lambda>a. fst a < 2 ^ 32 \<and> length (snd a) = 4) answers"
  shows "parse_dns_message (dns_message_bytes ident flags labels qtype qclass answers @ rest) = Inr
    \<lparr>di_transaction_id = ident, di_opcode = ucast (drop_bit 11 flags AND 0x0f),
     di_rcode = ucast (flags AND 0x0f), di_query = (flags AND 0x8000 = 0),
     di_authoritative = (flags AND 0x0400 \<noteq> 0), di_truncated = (flags AND 0x0200 \<noteq> 0),
     di_recursion_desired = (flags AND 0x0100 \<noteq> 0), di_recursion_available = (flags AND 0x0080 \<noteq> 0),
     di_questions = [\<lparr>dq_name = show_dns_name (map from_utf8_lossy labels), dq_qtype = dns_type_name qtype,
       dq_qclass = dns_class_name qclass\<rparr>],
     di_answers = map (dns_answer_record (map from_utf8_lossy labels)) answers, di_authorities = [],
     di_additionals = [], di_questions_truncated = False, di_records_truncated = False\<rparr>"
proof -
  let ?q = "dns_question_bytes labels qtype qclass"
  let ?tail = "?q @ concat (map dns_answer_bytes answers) @ rest"
  let ?h = "be_bytes 2 (unat ident) @ be_bytes 2 (unat flags) @ be_bytes 2 1 @ be_bytes 2 (length answers)
     @ be_bytes 2 0 @ be_bytes 2 0"
  obtain m where m: "m = ?h @ ?tail" by blast
  have msg: "dns_message_bytes ident flags labels qtype qclass answers @ rest = m"
    by (simp add: dns_message_bytes_def m)
  have labels: "\<forall>l \<in> set labels. l \<noteq> [] \<and> length l \<le> 63" using assms(1) by (simp add: list_all_iff)
  have h: "length ?h = 12" by simp
  have c0: "cursor_u16 m 0 = Inr (ident, 2)" using cursor_u16_bytes[of "[]" 0 ident] by (simp add: m)
  have c2: "cursor_u16 m 2 = Inr (flags, 4)"
    using cursor_u16_bytes[of "be_bytes 2 (unat ident)" 2 flags] by (simp add: m)
  have c4: "cursor_u16 m 4 = Inr (1, 6)"
    using cursor_u16_num[of "be_bytes 2 (unat ident) @ be_bytes 2 (unat flags)" 4 1] by (simp add: m)
  have c6: "cursor_u16 m 6 = Inr (of_nat (length answers), 8)"
    using cursor_u16_num[of "be_bytes 2 (unat ident) @ be_bytes 2 (unat flags) @ be_bytes 2 1" 6 "length answers"] assms(2)
    by (simp add: m)
  have c8: "cursor_u16 m 8 = Inr (0, 10)"
    using cursor_u16_num[of "be_bytes 2 (unat ident) @ be_bytes 2 (unat flags) @ be_bytes 2 1
        @ be_bytes 2 (length answers)" 8 0] by (simp add: m)
  have c10: "cursor_u16 m 10 = Inr (0, 12)"
    using cursor_u16_num[of "be_bytes 2 (unat ident) @ be_bytes 2 (unat flags) @ be_bytes 2 1
        @ be_bytes 2 (length answers) @ be_bytes 2 0" 10 0] by (simp add: m)
  have name: "dns_name_at m 12 0 (map from_utf8_lossy labels) (12 + length (dns_name_bytes labels))"
    using dns_name_at_bytes[OF labels, of ?h] by (simp add: m dns_question_bytes_def)
  have long: "12 < length m" by (simp add: m dns_question_bytes_def dns_name_bytes_def)
  have q: "parse_dns_questions m 1 12 = Inr ([\<lparr>dq_name = show_dns_name (map from_utf8_lossy labels),
      dq_qtype = dns_type_name qtype, dq_qclass = dns_class_name qclass\<rparr>], False, 12 + length ?q)"
    using parse_dns_question_bytes[OF labels, of ?h qtype qclass]
    by (simp add: m parse_dns_questions_def max_stored_dns_questions_def)
  have "m = (?h @ ?q) @ concat (map dns_answer_bytes answers) @ rest" by (simp add: m)
  moreover have hl: "length (?h @ ?q) = 12 + length ?q" by simp
  ultimately have a: "parse_dns_records m (length answers) (12 + length ?q)
      = Inr (map (dns_answer_record (map from_utf8_lossy labels)) answers, False, 12 + length ?q + 16 * length answers)"
    unfolding parse_dns_records_def max_stored_dns_records_def
    using dns_entries_loop_answers[OF _ _ name long, of "?h @ ?q" answers rest 0 32 "[]", unfolded hl] assms(2,3)
    by (simp only: list_all_iff append_Nil add_0 simp_thms)
  have none: "parse_dns_records m 0 k = Inr ([], False, k)" for k by (simp add: parse_dns_records_def)
  have n: "unat (of_nat (length answers) :: u16) = length answers"
    using assms(2) by (simp add: unsigned_of_nat take_bit_nat_eq_self)
  have "\<not> length m < 12" using long by simp
  then show ?thesis
    unfolding msg parse_dns_message_def c0 c2 c4 c6 c8 c10 try_bind_simps prod.case unsigned_1 unsigned_0 n q a none
    by simp
qed

lemma dns_message_roundtrip_witness:
  "map_sum id di_answers (parse_dns_message (dns_message_bytes 7 0x8180 [[97]] 1 1 [(60, [10, 0, 0, 1])] @ []))
    = Inr [dns_answer_record [from_utf8_lossy [97]] (60, [10, 0, 0, 1])]"
  using dns_message_roundtrip[of "[[97]]" "[(60, [10, 0, 0, 1])]" 7 "0x8180" 1 1 "[]"] by simp

end
