(* ===== verification/Protocol_Detection.thy ===== *)
theory Protocol_Detection
  imports Flow_Key Rust_Str
begin

text \<open>
  The detection of a flow's service from its ports and from the first bytes of a payload, the whole of
  \<^verbatim>\<open>src/src/protocol_detection.rs\<close>.
\<close>

subsection \<open>Detections\<close>

datatype detection_source = SourceUnknown | SourcePort | SourcePayload | SourcePortAndPayload

datatype service_side = SideA | SideB | SideUnknown

record protocol_detection =
  pd_service :: string
  pd_side :: service_side
  pd_confidence :: nat
  pd_source :: detection_source
  pd_evidence :: string

fun detection_source_as_str :: "detection_source \<Rightarrow> string" where
  "detection_source_as_str SourceUnknown = ''unknown''"
| "detection_source_as_str SourcePort = ''port''"
| "detection_source_as_str SourcePayload = ''payload''"
| "detection_source_as_str SourcePortAndPayload = ''port_and_payload''"

fun service_side_as_str :: "service_side \<Rightarrow> string" where
  "service_side_as_str SideA = ''a''"
| "service_side_as_str SideB = ''b''"
| "service_side_as_str SideUnknown = ''unknown''"

definition detection_unknown :: protocol_detection where
  "detection_unknown = \<lparr>pd_service = ''unknown'', pd_side = SideUnknown, pd_confidence = 0,
     pd_source = SourceUnknown, pd_evidence = ''none''\<rparr>"

definition known_service :: "transport_protocol \<Rightarrow> u16 \<Rightarrow> (string \<times> nat) option" where
  "known_service protocol port =
     (if protocol = Tcp \<and> (port = 20 \<or> port = 21) then Some (''ftp'', 90)
      else if protocol = Tcp \<and> port = 22 then Some (''ssh'', 95)
      else if protocol = Udp \<and> (port = 67 \<or> port = 68) then Some (''dhcp'', 85)
      else if (protocol = Tcp \<or> protocol = Udp) \<and> port = 53 then Some (''dns'', 95)
      else if protocol = Udp \<and> port = 137 then Some (''netbios'', 85)
      else if protocol = Udp \<and> port = 123 then Some (''ntp'', 85)
      else if protocol = Tcp \<and> port \<in> set [80, 8080, 8000, 8008, 8081, 8888] then Some (''http'', 90)
      else if protocol = Tcp \<and> (port = 110 \<or> port = 995) then Some (''pop3'', 85)
      else if protocol = Tcp \<and> (port = 143 \<or> port = 993) then Some (''imap'', 85)
      else if protocol = Tcp \<and> (port = 443 \<or> port = 8443) then Some (''https'', 92)
      else if protocol = Udp \<and> (port = 443 \<or> port = 8443) then Some (''quic'', 80)
      else if protocol = Tcp \<and> port \<in> set [465, 587, 25] then Some (''smtp'', 85)
      else if protocol = Udp \<and> port = 1900 then Some (''ssdp'', 85)
      else if protocol = Tcp \<and> port = 3306 then Some (''mysql'', 90)
      else if protocol = Tcp \<and> port = 3389 then Some (''rdp'', 90)
      else if protocol = Tcp \<and> port = 5432 then Some (''postgres'', 90)
      else if protocol = Udp \<and> port = 5353 then Some (''mdns'', 85)
      else if protocol = Udp \<and> port = 5355 then Some (''llmnr'', 85)
      else if protocol = Tcp \<and> port = 6379 then Some (''redis'', 90)
      else if (protocol = Tcp \<or> protocol = Udp) \<and> port = 11211 then Some (''memcached'', 85)
      else if protocol = Tcp \<and> port = 27017 then Some (''mongodb'', 85)
      else None)"

definition port_detection :: "service_side \<Rightarrow> string \<times> nat \<Rightarrow> protocol_detection" where
  "port_detection side known = \<lparr>pd_service = fst known, pd_side = side, pd_confidence = snd known,
     pd_source = SourcePort, pd_evidence = ''well_known_port''\<rparr>"

definition detection_from_port :: "flow_key \<Rightarrow> protocol_detection" where
  "detection_from_port key =
     (case known_service (fk_protocol key) (ep_port (fk_a key)) of
        Some known \<Rightarrow> port_detection SideA known
      | None \<Rightarrow>
          (case known_service (fk_protocol key) (ep_port (fk_b key)) of
             Some known \<Rightarrow> port_detection SideB known
           | None \<Rightarrow> detection_unknown))"

subsection \<open>Merging\<close>

fun source_side :: "flow_direction \<Rightarrow> service_side" where
  "source_side AToB = SideA"
| "source_side BToA = SideB"

fun destination_side :: "flow_direction \<Rightarrow> service_side" where
  "destination_side AToB = SideB"
| "destination_side BToA = SideA"

definition prefer_known_side :: "service_side \<Rightarrow> service_side \<Rightarrow> service_side" where
  "prefer_known_side known fallback = (if known = SideUnknown then fallback else known)"

definition merge_side :: "service_side \<Rightarrow> service_side \<Rightarrow> service_side" where
  "merge_side left right =
     (if left = SideUnknown then right
      else if right = SideUnknown \<or> left = right then left
      else right)"

definition merge_source :: "detection_source \<Rightarrow> detection_source \<Rightarrow> detection_source" where
  "merge_source left right =
     (if left = SourceUnknown then right
      else if right = SourceUnknown then left
      else if (left = SourcePort \<and> right = SourcePayload) \<or> (left = SourcePayload \<and> right = SourcePort)
        \<or> left = SourcePortAndPayload \<or> right = SourcePortAndPayload then SourcePortAndPayload
      else left)"

definition services_are_compatible :: "string \<Rightarrow> string \<Rightarrow> bool" where
  "services_are_compatible left right \<longleftrightarrow>
     (left = ''https'' \<and> right = ''tls'') \<or> (left = ''tls'' \<and> right = ''https'')"

definition preferred_service :: "string \<Rightarrow> string \<Rightarrow> string" where
  "preferred_service left right = (if left = ''https'' \<or> right = ''https'' then ''https'' else left)"

text \<open>The confidences are \<^verbatim>\<open>u8\<close>; \<^verbatim>\<open>saturating_add\<close> is \<open>min _ 255\<close>.\<close>

definition detection_merge :: "protocol_detection \<Rightarrow> protocol_detection \<Rightarrow> protocol_detection" where
  "detection_merge this next_one =
     (if pd_service next_one = ''unknown'' then this
      else if pd_service this = ''unknown'' then next_one
      else if pd_service this = pd_service next_one
        \<or> services_are_compatible (pd_service this) (pd_service next_one)
      then \<lparr>pd_service = preferred_service (pd_service this) (pd_service next_one),
             pd_side = merge_side (pd_side this) (pd_side next_one),
             pd_confidence = min (min (max (pd_confidence this) (pd_confidence next_one) + 2) 255) 100,
             pd_source = merge_source (pd_source this) (pd_source next_one),
             pd_evidence = pd_evidence next_one\<rparr>
      else if pd_confidence next_one \<ge> min (pd_confidence this + 8) 255 then next_one
      else this)"

subsection \<open>Byte tests\<close>

definition byte_lower :: "u8 \<Rightarrow> u8" where
  "byte_lower b = (if 65 \<le> b \<and> b \<le> 90 then b + 32 else b)"

definition byte_ascii_ws :: "u8 \<Rightarrow> bool" where
  "byte_ascii_ws b \<longleftrightarrow> b \<in> set [9, 10, 12, 13, 32]"

definition trim_ascii :: "bytes \<Rightarrow> bytes" where
  "trim_ascii bs = rev (dropWhile byte_ascii_ws (rev (dropWhile byte_ascii_ws bs)))"

definition ascii_starts_with_ignore_case :: "bytes \<Rightarrow> bytes \<Rightarrow> bool" where
  "ascii_starts_with_ignore_case bs prefix \<longleftrightarrow> length bs \<ge> length prefix
     \<and> map byte_lower (take (length prefix) bs) = map byte_lower prefix"

text \<open>\<^verbatim>\<open>haystack.windows(needle.len()).any(..)\<close>.\<close>

definition ascii_contains_ignore_case :: "bytes \<Rightarrow> bytes \<Rightarrow> bool" where
  "ascii_contains_ignore_case haystack needle \<longleftrightarrow> needle \<noteq> []
     \<and> list_ex (\<lambda>i. ascii_starts_with_ignore_case (take (length needle) (drop i haystack)) needle)
         [0..<length haystack + 1 - length needle]"

definition looks_like_http_request :: "bytes \<Rightarrow> bool" where
  "looks_like_http_request bs \<longleftrightarrow> list_ex (\<lambda>method. starts_with (str_bytes method) bs)
     [''GET '', ''POST '', ''PUT '', ''DELETE '', ''PATCH '', ''HEAD '', ''OPTIONS '', ''TRACE '', ''CONNECT '']"

definition has_header_token :: "bytes \<Rightarrow> bytes \<Rightarrow> bytes \<Rightarrow> bool" where
  "has_header_token bs header token = (case find_window [13, 10, 13, 10] bs of
     None \<Rightarrow> False
   | Some header_end \<Rightarrow>
       list_ex (\<lambda>line. let line = trim_ascii line in
           length line \<ge> length header \<and> ascii_starts_with_ignore_case line header
           \<and> ascii_contains_ignore_case line token)
         (split_on 10 (take header_end bs)))"

definition is_tls_record :: "bytes \<Rightarrow> bool" where
  "is_tls_record bs \<longleftrightarrow> length bs \<ge> 5 \<and> 0x14 \<le> bs ! 0 \<and> bs ! 0 \<le> 0x17 \<and> bs ! 1 = 3 \<and> bs ! 2 \<le> 4
     \<and> u16_be (bs ! 3) (bs ! 4) \<noteq> 0"

definition is_redis :: "bytes \<Rightarrow> bool" where
  "is_redis bs \<longleftrightarrow> (case bs of [] \<Rightarrow> False | b # _ \<Rightarrow> b \<in> set (str_bytes ''*$+-:''))
     \<and> find_window [13, 10] bs \<noteq> None"

definition is_mysql_handshake :: "bytes \<Rightarrow> bool" where
  "is_mysql_handshake bs \<longleftrightarrow> length bs \<ge> 6 \<and> bs ! 0 = 10 \<and> find_window (str_bytes ''mysql_'') (drop 1 bs) \<noteq> None"

definition is_postgres_startup :: "bytes \<Rightarrow> bool" where
  "is_postgres_startup bs \<longleftrightarrow> length bs \<ge> 8
     \<and> (let len = nat_be (take 4 bs); version = nat_be (take 4 (drop 4 bs))
        in len \<ge> 8 \<and> len \<le> length bs \<and> (version = 196608 \<or> version = 80877103))"

definition is_mongodb :: "bytes \<Rightarrow> bool" where
  "is_mongodb bs \<longleftrightarrow> length bs \<ge> 16
     \<and> (let len = nat_be (rev (take 4 bs)); opcode = nat_be (rev (take 4 (drop 12 bs)))
        in len \<ge> 16 \<and> len \<le> length bs + 16 * 1024 \<and> (opcode = 1 \<or> opcode = 2001 \<or> opcode = 2013))"

definition is_memcached_ascii :: "bytes \<Rightarrow> bool" where
  "is_memcached_ascii bs \<longleftrightarrow> list_ex (\<lambda>command. ascii_starts_with_ignore_case bs (str_bytes command))
     [''get '', ''gets '', ''set '', ''add '', ''replace '', ''append '', ''prepend '', ''delete '', ''incr '', ''decr '']"

definition dns_header_plausible :: "bytes \<Rightarrow> bool" where
  "dns_header_plausible dns \<longleftrightarrow> length dns \<ge> 12
     \<and> (let questions = u16_be (dns ! 4) (dns ! 5);
            answers = u16_be (dns ! 6) (dns ! 7);
            opcode = drop_bit 3 (dns ! 2) AND 0x0f
        in opcode \<le> 5 \<and> questions \<noteq> 0 \<and> questions \<le> 64 \<and> answers \<le> 512)"

definition is_dns_payload :: "transport_protocol \<Rightarrow> bytes \<Rightarrow> bool" where
  "is_dns_payload transport bs =
     (if transport = Udp then dns_header_plausible bs
      else if transport = Tcp \<and> length bs \<ge> 14 then
        (let len = unat (u16_be (bs ! 0) (bs ! 1)) in
         if len + 2 > length bs \<or> len < 12 then False else dns_header_plausible (drop 2 bs))
      else False)"

definition dns_side :: "bytes \<Rightarrow> service_side \<Rightarrow> service_side \<Rightarrow> service_side" where
  "dns_side bs src dst =
     (let offset = (if length bs \<ge> 14
            then (let tcp_len = unat (u16_be (bs ! 0) (bs ! 1))
                  in if tcp_len + 2 \<le> length bs \<and> tcp_len \<ge> 12 then 2 else 0)
            else 0)
      in if (case get_at bs (offset + 2) of None \<Rightarrow> False | Some flags \<Rightarrow> flags AND 0x80 \<noteq> 0)
         then src else dst)"

definition is_quic_long_header :: "bytes \<Rightarrow> bool" where
  "is_quic_long_header bs \<longleftrightarrow> length bs \<ge> 6 \<and> bs ! 0 AND 0xc0 = 0xc0 \<and> take 4 (drop 1 bs) \<noteq> [0, 0, 0, 0]"

definition is_ntp :: "bytes \<Rightarrow> bool" where
  "is_ntp bs \<longleftrightarrow> length bs \<ge> 48
     \<and> (let mode = bs ! 0 AND 0x07; version = drop_bit 3 (bs ! 0) AND 0x07
        in 3 \<le> mode \<and> mode \<le> 4 \<and> 3 \<le> version \<and> version \<le> 4)"

definition is_smtp :: "bytes \<Rightarrow> bool" where
  "is_smtp bs \<longleftrightarrow> list_ex (ascii_starts_with_ignore_case bs)
     [str_bytes ''220 '', str_bytes ''EHLO '', str_bytes ''HELO '', str_bytes ''MAIL FROM:'',
      str_bytes ''RCPT TO:'', str_bytes ''DATA'' @ [13, 10], str_bytes ''QUIT'' @ [13, 10],
      str_bytes ''STARTTLS'' @ [13, 10]]"

definition is_ftp :: "bytes \<Rightarrow> bool" where
  "is_ftp bs \<longleftrightarrow> list_ex (ascii_starts_with_ignore_case bs)
     [str_bytes ''220 '', str_bytes ''USER '', str_bytes ''PASS '', str_bytes ''SYST'' @ [13, 10],
      str_bytes ''FEAT'' @ [13, 10], str_bytes ''PWD'' @ [13, 10], str_bytes ''TYPE '',
      str_bytes ''PASV'' @ [13, 10]]"

subsection \<open>The rules\<close>

definition payload_detection :: "string \<Rightarrow> service_side \<Rightarrow> nat \<Rightarrow> string \<Rightarrow> protocol_detection" where
  "payload_detection service side confidence evidence = \<lparr>pd_service = service, pd_side = side,
     pd_confidence = confidence, pd_source = SourcePayload, pd_evidence = evidence\<rparr>"

definition http2_preface :: bytes where
  "http2_preface = str_bytes ''PRI * HTTP/2.0'' @ [13, 10, 13, 10] @ str_bytes ''SM'' @ [13, 10, 13, 10]"

definition detect_http :: "bytes \<Rightarrow> service_side \<Rightarrow> service_side \<Rightarrow> protocol_detection option" where
  "detect_http bs src dst =
     (if starts_with http2_preface bs then
        Some (payload_detection ''http2'' dst 99 ''http2_preface'')
      else if looks_like_http_request bs then
        (if has_header_token bs (str_bytes ''upgrade:'') (str_bytes ''websocket'')
         then Some (payload_detection ''websocket'' dst 99 ''http_websocket_upgrade'')
         else Some (payload_detection ''http'' dst 98 ''http_request''))
      else if starts_with (str_bytes ''HTTP/1.'') bs then
        Some (payload_detection ''http'' src 98 ''http_response'')
      else None)"

definition payload_rule ::
  "transport_protocol \<Rightarrow> bytes \<Rightarrow> service_side \<Rightarrow> service_side \<Rightarrow> protocol_detection \<Rightarrow> protocol_detection option" where
  "payload_rule transport bs src dst port_det =
     (case detect_http bs src dst of
        Some service \<Rightarrow> Some service
      | None \<Rightarrow>
        (let known = prefer_known_side (pd_side port_det) in
         if is_tls_record bs then
           (let service = (if pd_service port_det = ''https'' then ''https'' else ''tls'');
                evidence = (if service = ''https'' then ''https_tls_record'' else ''tls_record'')
            in Some (payload_detection service (known dst) 98 evidence))
         else if starts_with (str_bytes ''SSH-'') bs then Some (payload_detection ''ssh'' src 98 ''ssh_banner'')
         else if is_redis bs then Some (payload_detection ''redis'' (known dst) 96 ''redis_resp'')
         else if is_mysql_handshake bs then Some (payload_detection ''mysql'' src 94 ''mysql_handshake'')
         else if is_postgres_startup bs then Some (payload_detection ''postgres'' dst 92 ''postgres_startup'')
         else if is_mongodb bs then Some (payload_detection ''mongodb'' (known dst) 90 ''mongodb_wire'')
         else if is_memcached_ascii bs
           then Some (payload_detection ''memcached'' (known dst) 90 ''memcached_ascii'')
         else if is_dns_payload transport bs
           then Some (payload_detection ''dns'' (dns_side bs src dst) 91 ''dns_header'')
         else if transport = Udp \<and> is_quic_long_header bs
           then Some (payload_detection ''quic'' (known dst) 91 ''quic_long_header'')
         else if transport = Udp \<and> is_ntp bs then Some (payload_detection ''ntp'' dst 90 ''ntp_header'')
         else if is_smtp bs then Some (payload_detection ''smtp'' (known src) 88 ''smtp_text'')
         else if is_ftp bs then Some (payload_detection ''ftp'' (known src) 88 ''ftp_text'')
         else None))"

definition detect_payload :: "flow_key \<Rightarrow> flow_direction \<Rightarrow> bytes \<Rightarrow> protocol_detection option" where
  "detect_payload key direction bs =
     (if bs = [] then None
      else
        let port_det = detection_from_port key in
        map_option (detection_merge port_det)
          (payload_rule (fk_protocol key) bs (source_side direction) (destination_side direction) port_det))"

end
