(* ===== verification/Message_Analyzer.thy ===== *)
theory Message_Analyzer
  imports Ws_Parser Tls_Parser Dns_Parser Http1_Parser Protocol_Detection Registry Tcp_Reassembly
begin

text \<open>
  \<^verbatim>\<open>ProtocolMessageAnalyzer\<close> of \<^verbatim>\<open>src/src/stream_message.rs\<close>: the registries of parser states, one per
  protocol, with first-in-first-out eviction, and the analysis of a stream chunk or a datagram.  The
  source has the same four fields (map, order, limit, counter of evictions) for each protocol; here
  they are one record per protocol.  \<open>to_value\<close> stands for the \<^verbatim>\<open>serde\<close> serialisation \<^verbatim>\<open>json!(message)\<close>.

  A push of the frame parsers could loop for ever in the model (value \<open>None\<close>); that it does not is
  part of what is proved.
\<close>

subsection \<open>Parser states\<close>

text \<open>\<^verbatim>\<open>Http1StreamKey\<close>, \<^verbatim>\<open>DnsStreamKey\<close>, \<^verbatim>\<open>WebSocketStreamKey\<close> and \<^verbatim>\<open>TlsStreamKey\<close> have the same fields.\<close>

type_synonym stream_key = "flow_key \<times> flow_direction"

record 's parser_registry =
  pr_states :: "(stream_key \<times> 's) list"
  pr_order :: "stream_key list"
  pr_max :: nat
  pr_evicted :: nat

definition registry_new :: "nat \<Rightarrow> 's parser_registry" where
  "registry_new n = \<lparr>pr_states = [], pr_order = [], pr_max = max n 1, pr_evicted = 0\<rparr>"

text \<open>\<^verbatim>\<open>http1_state\<close>, \<^verbatim>\<open>dns_state\<close>, \<^verbatim>\<open>websocket_state\<close> and \<^verbatim>\<open>tls_state\<close>: the state of the key, created if
  there is room for it.\<close>

definition registry_state :: "'s \<Rightarrow> stream_key \<Rightarrow> 's parser_registry \<Rightarrow> 's option \<times> 's parser_registry" where
  "registry_state fresh key r =
     (case map_of (pr_states r) key of
        Some s \<Rightarrow> (Some s, r)
      | None \<Rightarrow>
          (case fifo_evict (\<lambda>_ e. sat_add e 1) (pr_max r) (pr_states r) (pr_order r) (pr_evicted r) of
            (states, order, evicted) \<Rightarrow>
              let r1 = r\<lparr>pr_states := states, pr_order := order, pr_evicted := evicted\<rparr> in
              if length states \<ge> pr_max r then (None, r1)
              else (Some fresh, r1\<lparr>pr_states := AList.update key fresh states, pr_order := order @ [key]\<rparr>)))"

text \<open>The write through the \<^verbatim>\<open>&mut\<close> that \<open>registry_state\<close> handed out.\<close>

definition registry_put :: "stream_key \<Rightarrow> 's \<Rightarrow> 's parser_registry \<Rightarrow> 's parser_registry" where
  "registry_put key s r = r\<lparr>pr_states := AList.update key s (pr_states r)\<rparr>"

record message_analyzer =
  ma_http1 :: "http1_state parser_registry"
  ma_dns :: "dns_direction_state parser_registry"
  ma_websocket :: "framed_state parser_registry"
  ma_tls :: "framed_state parser_registry"
  ma_active :: "(flow_key \<times> unit) list"
  ma_active_order :: "flow_key list"
  ma_max_header_bytes :: nat
  ma_max_buffer_bytes :: nat
  ma_dropped_http1_chunks :: nat
  ma_dropped_dns_datagrams :: nat
  ma_dropped_websocket_chunks :: nat
  ma_dropped_tls_chunks :: nat

definition analyzer_with_limits :: "nat \<Rightarrow> nat \<Rightarrow> nat \<Rightarrow> nat \<Rightarrow> nat \<Rightarrow> nat \<Rightarrow> message_analyzer" where
  "analyzer_with_limits max_http1 max_dns max_websocket max_tls max_header max_buffer =
     \<lparr>ma_http1 = registry_new max_http1, ma_dns = registry_new max_dns,
      ma_websocket = registry_new max_websocket, ma_tls = registry_new max_tls,
      ma_active = [], ma_active_order = [], ma_max_header_bytes = max max_header 1,
      ma_max_buffer_bytes = max max_buffer 1, ma_dropped_http1_chunks = 0,
      ma_dropped_dns_datagrams = 0, ma_dropped_websocket_chunks = 0, ma_dropped_tls_chunks = 0\<rparr>"

definition analyzer_default :: message_analyzer where
  "analyzer_default = analyzer_with_limits (65536 * 2) (65536 * 2) (65536 * 2) (65536 * 2)
     (64 * 1024) (8 * 1024 * 1024)"

definition activate_websocket_flow :: "flow_key \<Rightarrow> message_analyzer \<Rightarrow> message_analyzer" where
  "activate_websocket_flow flow ma =
     (if map_of (ma_active ma) flow \<noteq> None then ma
      else
        (case fifo_evict (\<lambda>_ e. e) (pr_max (ma_websocket ma)) (ma_active ma) (ma_active_order ma) 0 of
          (active, order, _) \<Rightarrow>
            let ma1 = ma\<lparr>ma_active := active, ma_active_order := order\<rparr> in
            if length active \<ge> pr_max (ma_websocket ma)
            then ma1\<lparr>ma_websocket := (ma_websocket ma1)\<lparr>pr_evicted := sat_add (pr_evicted (ma_websocket ma1)) 1\<rparr>\<rparr>
            else ma1\<lparr>ma_active := AList.update flow () active, ma_active_order := order @ [flow]\<rparr>))"

subsection \<open>Analysis\<close>

definition message_to_event :: "(stream_message \<Rightarrow> json) \<Rightarrow> decoded_packet \<Rightarrow> stream_message \<Rightarrow> event" where
  "message_to_event to_value packet m =
     event_from_packet protocol_message_analyzer (message_event_type m) packet (min (msg_wire_bytes m) u64_max) (to_value m)"

definition emit_tls_records ::
  "(stream_message \<Rightarrow> json) \<Rightarrow> decoded_packet \<Rightarrow> flow_key \<Rightarrow> stream_chunk \<Rightarrow> message_analyzer \<Rightarrow>
   (event list \<times> message_analyzer) option" where
  "emit_tls_records to_value packet flow chunk ma =
     (let key = (flow, ch_direction chunk); bs = as_slice (ch_bytes chunk) in
      if map_of (pr_states (ma_tls ma)) key = None \<and> \<not> looks_like_tls_prefix bs then Some ([], ma)
      else case registry_state framed_default key (ma_tls ma) of
        (None, r) \<Rightarrow> Some ([], ma\<lparr>ma_tls := r, ma_dropped_tls_chunks := sat_add (ma_dropped_tls_chunks ma) 1\<rparr>)
      | (Some st, r) \<Rightarrow>
          (case tls_push st (stable_id flow) (ch_direction chunk) bs (ma_max_buffer_bytes ma) of
             None \<Rightarrow> None
           | Some (messages, st1) \<Rightarrow>
               Some (map (message_to_event to_value packet) messages, ma\<lparr>ma_tls := registry_put key st1 r\<rparr>)))"

definition emit_websocket_frames ::
  "(stream_message \<Rightarrow> json) \<Rightarrow> decoded_packet \<Rightarrow> flow_key \<Rightarrow> stream_chunk \<Rightarrow> message_analyzer \<Rightarrow>
   (event list \<times> message_analyzer) option" where
  "emit_websocket_frames to_value packet flow chunk ma =
     (let key = (flow, ch_direction chunk); bs = as_slice (ch_bytes chunk) in
      case registry_state framed_default key (ma_websocket ma) of
        (None, r) \<Rightarrow>
          Some ([], ma\<lparr>ma_websocket := r, ma_dropped_websocket_chunks := sat_add (ma_dropped_websocket_chunks ma) 1\<rparr>)
      | (Some st, r) \<Rightarrow>
          (case ws_push st (stable_id flow) (ch_direction chunk) bs (ma_max_buffer_bytes ma) of
             None \<Rightarrow> None
           | Some (messages, st1) \<Rightarrow>
               Some (map (message_to_event to_value packet) messages,
                 ma\<lparr>ma_websocket := registry_put key st1 r\<rparr>)))"

text \<open>An upgrade among the messages activates the flow's frame parser for the chunks to come.\<close>

definition observe_upgrade :: "flow_key \<Rightarrow> stream_message \<Rightarrow> message_analyzer \<Rightarrow> message_analyzer" where
  "observe_upgrade flow m ma = (if http1_is_websocket_upgrade m then activate_websocket_flow flow ma else ma)"

definition emit_http1_messages ::
  "(stream_message \<Rightarrow> json) \<Rightarrow> decoded_packet \<Rightarrow> flow_key \<Rightarrow> stream_chunk \<Rightarrow> message_analyzer \<Rightarrow>
   event list \<times> message_analyzer" where
  "emit_http1_messages to_value packet flow chunk ma =
     (let key = (flow, ch_direction chunk); bs = as_slice (ch_bytes chunk) in
      case registry_state http1_default key (ma_http1 ma) of
        (None, r) \<Rightarrow> ([], ma\<lparr>ma_http1 := r, ma_dropped_http1_chunks := sat_add (ma_dropped_http1_chunks ma) 1\<rparr>)
      | (Some st, r) \<Rightarrow>
          (case http1_push st (stable_id flow) (ch_direction chunk) bs (ma_max_header_bytes ma) (ma_max_buffer_bytes ma) of
             (messages, st1) \<Rightarrow>
               (map (message_to_event to_value packet) messages,
                fold (observe_upgrade flow) messages (ma\<lparr>ma_http1 := registry_put key st1 r\<rparr>))))"

definition emit_messages ::
  "(stream_message \<Rightarrow> json) \<Rightarrow> decoded_packet \<Rightarrow> flow_key \<Rightarrow> stream_chunk \<Rightarrow> message_analyzer \<Rightarrow>
   (event list \<times> message_analyzer) option" where
  "emit_messages to_value packet flow chunk ma =
     Option.bind (emit_tls_records to_value packet flow chunk ma) (\<lambda>(tls_events, ma1).
     Option.bind (if map_of (ma_active ma1) flow \<noteq> None
         then emit_websocket_frames to_value packet flow chunk ma1 else Some ([], ma1)) (\<lambda>(ws_events, ma2).
     case emit_http1_messages to_value packet flow chunk ma2 of
       (http_events, ma3) \<Rightarrow> Some (tls_events @ ws_events @ http_events, ma3)))"

definition emit_dns_datagram ::
  "(stream_message \<Rightarrow> json) \<Rightarrow> decoded_packet \<Rightarrow> flow_key \<Rightarrow> flow_direction \<Rightarrow> bytes \<Rightarrow> message_analyzer \<Rightarrow>
   event list \<times> message_analyzer" where
  "emit_dns_datagram to_value packet flow direction payload ma =
     (case detect_payload flow direction payload of
        None \<Rightarrow> ([], ma)
      | Some detection \<Rightarrow>
          if pd_service detection \<notin> set [''dns'', ''mdns'', ''llmnr'', ''netbios''] then ([], ma)
          else if \<not> looks_like_dns_datagram payload then ([], ma)
          else
            let key = (flow, direction) in
            (case registry_state dns_state_default key (ma_dns ma) of
               (None, r) \<Rightarrow>
                 ([], ma\<lparr>ma_dns := r, ma_dropped_dns_datagrams := sat_add (ma_dropped_dns_datagrams ma) 1\<rparr>)
             | (Some st, r) \<Rightarrow>
                 (case parse_datagram st (stable_id flow) direction payload of
                    (m, st1) \<Rightarrow> ([message_to_event to_value packet m], ma\<lparr>ma_dns := registry_put key st1 r\<rparr>))))"

subsection \<open>Runs\<close>

datatype analyzer_input =
    StreamInput decoded_packet flow_key stream_chunk
  | DatagramInput decoded_packet flow_key flow_direction bytes

fun analyzer_step ::
  "(stream_message \<Rightarrow> json) \<Rightarrow> analyzer_input \<Rightarrow> message_analyzer \<Rightarrow> (event list \<times> message_analyzer) option" where
  "analyzer_step to_value (StreamInput packet flow chunk) ma = emit_messages to_value packet flow chunk ma"
| "analyzer_step to_value (DatagramInput packet flow direction payload) ma =
     Some (emit_dns_datagram to_value packet flow direction payload ma)"

fun analyzer_run ::
  "(stream_message \<Rightarrow> json) \<Rightarrow> analyzer_input list \<Rightarrow> message_analyzer \<Rightarrow> (event list \<times> message_analyzer) option" where
  "analyzer_run to_value [] ma = Some ([], ma)"
| "analyzer_run to_value (x # xs) ma = (case analyzer_step to_value x ma of
     None \<Rightarrow> None
   | Some (evs, ma1) \<Rightarrow> map_option (\<lambda>(evs', ma'). (evs @ evs', ma')) (analyzer_run to_value xs ma1))"

subsection \<open>The registries stay within their limits\<close>

definition registry_ok :: "'s parser_registry \<Rightarrow> bool" where
  "registry_ok r \<longleftrightarrow> fifo_ok (pr_states r) (pr_order r) \<and> 1 \<le> pr_max r \<and> length (pr_states r) \<le> pr_max r"

lemma registry_new_ok: "registry_ok (registry_new n)"
  by (simp add: registry_ok_def registry_new_def)

lemma registry_state_spec:
  assumes "registry_ok r" "registry_state fresh key r = (s, r')"
  shows "registry_ok r' \<and> pr_max r' = pr_max r \<and> s \<noteq> None \<and> map_of (pr_states r') key = s
    \<and> fst ` set (pr_states r') \<subseteq> insert key (fst ` set (pr_states r))"
proof (cases "map_of (pr_states r) key")
  case None
  obtain m q e where ev: "fifo_evict (\<lambda>_ e. sat_add e 1) (pr_max r) (pr_states r) (pr_order r) (pr_evicted r) = (m, q, e)"
    by (metis prod_cases3)
  have ok: "fifo_ok (pr_states r) (pr_order r)" "0 < pr_max r" using assms(1) by (auto simp: registry_ok_def)
  have room: "length m < pr_max r" by (rule fifo_evict_room[OF ok(2,1) ev])
  have m: "fifo_ok m q" by (rule fifo_evict_ok[OF ok(1) ev])
  have keys: "fst ` set m \<subseteq> fst ` set (pr_states r)" by (rule fifo_evict_subset[OF ev])
  then have fresh: "map_of m key = None" using None by (auto simp: tbl_None_iff)
  have r': "s = Some fresh" "r' = r\<lparr>pr_states := AList.update key fresh m, pr_order := q @ [key], pr_evicted := e\<rparr>"
    using assms(2) room unfolding registry_state_def None option.case ev prod.case Let_def by auto
  show ?thesis
    using fifo_ok_insert[OF m fresh, of fresh] room keys ok(2)
    by (auto simp: r' registry_ok_def length_update_fresh[OF fresh] tbl_simps update_conv')
next
  case (Some x)
  then have "s = Some x" "r' = r" using assms(2) by (simp_all add: registry_state_def)
  then show ?thesis using assms(1) Some by auto
qed

lemma registry_put_ok:
  "registry_ok r \<Longrightarrow> map_of (pr_states r) key \<noteq> None \<Longrightarrow> registry_ok (registry_put key s r) \<and> pr_max (registry_put key s r) = pr_max r"
  by (auto simp: registry_ok_def registry_put_def fifo_ok_def tbl_simps length_update_present tbl_None_iff
      intro!: fifo_ok_update)

definition analyzer_ok :: "message_analyzer \<Rightarrow> bool" where
  "analyzer_ok ma \<longleftrightarrow> registry_ok (ma_http1 ma) \<and> registry_ok (ma_dns ma) \<and> registry_ok (ma_websocket ma)
     \<and> registry_ok (ma_tls ma) \<and> fifo_ok (ma_active ma) (ma_active_order ma)
     \<and> length (ma_active ma) \<le> pr_max (ma_websocket ma)"

text \<open>The configured limits, which no step changes.\<close>

definition analyzer_limits :: "message_analyzer \<Rightarrow> nat list" where
  "analyzer_limits ma = [pr_max (ma_http1 ma), pr_max (ma_dns ma), pr_max (ma_websocket ma), pr_max (ma_tls ma),
     ma_max_header_bytes ma, ma_max_buffer_bytes ma]"

definition analyzer_kept :: "message_analyzer \<Rightarrow> message_analyzer \<Rightarrow> bool" where
  "analyzer_kept ma ma' \<longleftrightarrow> (analyzer_ok ma \<longrightarrow> analyzer_ok ma' \<and> analyzer_limits ma' = analyzer_limits ma)"

lemma analyzer_kept_refl [simp]: "analyzer_kept ma ma"
  by (simp add: analyzer_kept_def)

lemma analyzer_kept_trans: "analyzer_kept a b \<Longrightarrow> analyzer_kept b c \<Longrightarrow> analyzer_kept a c"
  by (simp add: analyzer_kept_def)

lemma activate_websocket_kept: "analyzer_kept ma (activate_websocket_flow flow ma)"
proof (cases "map_of (ma_active ma) flow")
  case (Some u)
  then show ?thesis by (simp add: activate_websocket_flow_def)
next
  case None
  obtain m q e where ev: "fifo_evict (\<lambda>_ e. e) (pr_max (ma_websocket ma)) (ma_active ma) (ma_active_order ma) 0 = (m, q, e)"
    by (metis prod_cases3)
  have "analyzer_ok (activate_websocket_flow flow ma)
      \<and> analyzer_limits (activate_websocket_flow flow ma) = analyzer_limits ma" if ok: "analyzer_ok ma"
  proof -
    have f: "fifo_ok (ma_active ma) (ma_active_order ma)" "0 < pr_max (ma_websocket ma)"
      using ok by (auto simp: analyzer_ok_def registry_ok_def)
    have room: "length m < pr_max (ma_websocket ma)" by (rule fifo_evict_room[OF f(2,1) ev])
    have m: "fifo_ok m q" by (rule fifo_evict_ok[OF f(1) ev])
    have "fst ` set m \<subseteq> fst ` set (ma_active ma)" by (rule fifo_evict_subset[OF ev])
    then have fresh: "map_of m flow = None" using None by (auto simp: tbl_None_iff)
    have "activate_websocket_flow flow ma
        = ma\<lparr>ma_active := AList.update flow () m, ma_active_order := q @ [flow]\<rparr>"
      using None room by (simp add: activate_websocket_flow_def ev)
    then show ?thesis
      using fifo_ok_insert[OF m fresh, of "()"] length_update_fresh[OF fresh, of "()"] room ok
      by (simp add: analyzer_ok_def analyzer_limits_def)
  qed
  then show ?thesis by (simp add: analyzer_kept_def)
qed

lemma observe_upgrades_kept: "analyzer_kept ma (fold (observe_upgrade flow) messages ma)"
proof (induction messages arbitrary: ma)
  case (Cons m messages)
  have "analyzer_kept ma (observe_upgrade flow m ma)"
    by (simp add: observe_upgrade_def activate_websocket_kept)
  then show ?case using Cons.IH analyzer_kept_trans by simp
qed simp

text \<open>The state handed out and written back, for each of the four registries.\<close>

lemma registry_round:
  assumes "registry_ok r" "registry_state fresh key r = (s, r')"
  shows "\<exists>st. s = Some st \<and> registry_ok (registry_put key st1 r') \<and> pr_max (registry_put key st1 r') = pr_max r"
  using registry_state_spec[OF assms] registry_put_ok[of r' key st1] by auto

lemma emit_tls_total:
  assumes "analyzer_ok ma"
  shows "\<exists>evs ma'. emit_tls_records to_value packet flow chunk ma = Some (evs, ma') \<and> analyzer_kept ma ma'
    \<and> ma_active ma' = ma_active ma"
proof -
  let ?key = "(flow, ch_direction chunk)"
  obtain s r where r: "registry_state framed_default ?key (ma_tls ma) = (s, r)" by fastforce
  have ok: "registry_ok (ma_tls ma)" using assms by (simp add: analyzer_ok_def)
  obtain st where s: "s = Some st" using registry_round[OF ok r] by blast
  obtain ms st1 where push: "tls_push st (stable_id flow) (ch_direction chunk) (as_slice (ch_bytes chunk))
      (ma_max_buffer_bytes ma) = Some (ms, st1)"
    unfolding tls_push_def using tls.framed_push_returns by blast
  have "analyzer_kept ma (ma\<lparr>ma_tls := registry_put ?key st1 r\<rparr>)"
    using registry_round[OF ok r, of st1] by (auto simp: analyzer_kept_def analyzer_ok_def analyzer_limits_def)
  then show ?thesis by (simp add: emit_tls_records_def Let_def r s push)
qed

lemma emit_websocket_total:
  assumes "analyzer_ok ma"
  shows "\<exists>evs ma'. emit_websocket_frames to_value packet flow chunk ma = Some (evs, ma') \<and> analyzer_kept ma ma'"
proof -
  let ?key = "(flow, ch_direction chunk)"
  obtain s r where r: "registry_state framed_default ?key (ma_websocket ma) = (s, r)" by fastforce
  have ok: "registry_ok (ma_websocket ma)" using assms by (simp add: analyzer_ok_def)
  obtain st where s: "s = Some st" using registry_round[OF ok r] by blast
  obtain ms st1 where push: "ws_push st (stable_id flow) (ch_direction chunk) (as_slice (ch_bytes chunk))
      (ma_max_buffer_bytes ma) = Some (ms, st1)"
    unfolding ws_push_def using ws.framed_push_returns by blast
  have "analyzer_kept ma (ma\<lparr>ma_websocket := registry_put ?key st1 r\<rparr>)"
    using registry_round[OF ok r, of st1] by (auto simp: analyzer_kept_def analyzer_ok_def analyzer_limits_def)
  then show ?thesis by (simp add: emit_websocket_frames_def Let_def r s push)
qed

lemma emit_http1_kept: "analyzer_kept ma (snd (emit_http1_messages to_value packet flow chunk ma))"
proof (cases "analyzer_ok ma")
  case True
  let ?key = "(flow, ch_direction chunk)"
  obtain s r where r: "registry_state http1_default ?key (ma_http1 ma) = (s, r)" by fastforce
  have ok: "registry_ok (ma_http1 ma)" using True by (simp add: analyzer_ok_def)
  obtain st where s: "s = Some st" using registry_round[OF ok r] by blast
  obtain ms st1 where push: "http1_push st (stable_id flow) (ch_direction chunk) (as_slice (ch_bytes chunk))
      (ma_max_header_bytes ma) (ma_max_buffer_bytes ma) = (ms, st1)" by fastforce
  have "analyzer_kept ma (ma\<lparr>ma_http1 := registry_put ?key st1 r\<rparr>)"
    using registry_round[OF ok r, of st1] by (auto simp: analyzer_kept_def analyzer_ok_def analyzer_limits_def)
  then show ?thesis
    using observe_upgrades_kept analyzer_kept_trans by (simp add: emit_http1_messages_def Let_def r s push)
qed (simp add: analyzer_kept_def)

lemma emit_dns_kept: "analyzer_kept ma (snd (emit_dns_datagram to_value packet flow direction payload ma))"
proof (cases "analyzer_ok ma")
  case True
  let ?key = "(flow, direction)"
  obtain s r where r: "registry_state dns_state_default ?key (ma_dns ma) = (s, r)" by fastforce
  have ok: "registry_ok (ma_dns ma)" using True by (simp add: analyzer_ok_def)
  obtain st where s: "s = Some st" using registry_round[OF ok r] by blast
  obtain m st1 where p: "parse_datagram st (stable_id flow) direction payload = (m, st1)" by fastforce
  have "analyzer_kept ma (ma\<lparr>ma_dns := registry_put ?key st1 r\<rparr>)"
    using registry_round[OF ok r, of st1] by (auto simp: analyzer_kept_def analyzer_ok_def analyzer_limits_def)
  then show ?thesis by (simp add: emit_dns_datagram_def Let_def r s p split: option.split)
qed (simp add: analyzer_kept_def)

lemma analyzer_step_total:
  assumes "analyzer_ok ma"
  shows "\<exists>evs ma'. analyzer_step to_value x ma = Some (evs, ma') \<and> analyzer_kept ma ma'"
proof (cases x)
  case (StreamInput packet flow chunk)
  obtain evs1 ma1 where t: "emit_tls_records to_value packet flow chunk ma = Some (evs1, ma1)" "analyzer_kept ma ma1"
    using emit_tls_total[OF assms] by blast
  have ok1: "analyzer_ok ma1" using t(2) assms by (simp add: analyzer_kept_def)
  have "\<exists>evs2 ma2. (if map_of (ma_active ma1) flow \<noteq> None then emit_websocket_frames to_value packet flow chunk ma1
      else Some ([], ma1)) = Some (evs2, ma2) \<and> analyzer_kept ma1 ma2"
    using emit_websocket_total[OF ok1] by simp
  then obtain evs2 ma2 where w: "(if map_of (ma_active ma1) flow \<noteq> None
      then emit_websocket_frames to_value packet flow chunk ma1 else Some ([], ma1)) = Some (evs2, ma2)"
    "analyzer_kept ma1 ma2" by blast
  obtain evs3 ma3 where h: "emit_http1_messages to_value packet flow chunk ma2 = (evs3, ma3)" by fastforce
  have "analyzer_kept ma2 ma3" using emit_http1_kept[of ma2 to_value packet flow chunk] h by simp
  then have "analyzer_kept ma ma3" using t(2) w(2) analyzer_kept_trans by blast
  moreover have "analyzer_step to_value x ma = Some (evs1 @ evs2 @ evs3, ma3)"
    by (simp only: StreamInput analyzer_step.simps emit_messages_def t(1) bind.bind_lunit prod.case w(1) h)
  ultimately show ?thesis by blast
next
  case (DatagramInput packet flow direction payload)
  then show ?thesis using emit_dns_kept[of ma to_value packet flow direction payload]
    by (cases "emit_dns_datagram to_value packet flow direction payload ma") simp
qed

lemma analyzer_run_total:
  "analyzer_ok ma \<Longrightarrow> \<exists>evs ma'. analyzer_run to_value xs ma = Some (evs, ma') \<and> analyzer_kept ma ma'"
proof (induction xs arbitrary: ma)
  case (Cons x xs)
  obtain evs ma1 where s: "analyzer_step to_value x ma = Some (evs, ma1)" "analyzer_kept ma ma1"
    using analyzer_step_total[OF Cons.prems] by blast
  then have "analyzer_ok ma1" using Cons.prems by (simp add: analyzer_kept_def)
  from Cons.IH[OF this] show ?case using s analyzer_kept_trans by fastforce
qed simp

text \<open>
  C22. The message analyzer handles every input and stays within its limits: for any sequence of stream
  chunks and datagrams, from the configured analyzer, the analysis returns, and every protocol's
  registry of parser states and the set of upgraded flows hold at most the configured number of entries
  (at least one), the order queue listing exactly the keys of its map.
\<close>

theorem analyzer_run_bounded:
  "\<exists>evs ma. analyzer_run to_value xs (analyzer_with_limits h d w t mh mb) = Some (evs, ma) \<and> analyzer_ok ma
    \<and> analyzer_limits ma = [max h 1, max d 1, max w 1, max t 1, max mh 1, max mb 1]"
proof -
  have "analyzer_ok (analyzer_with_limits h d w t mh mb)"
    by (simp add: analyzer_ok_def analyzer_with_limits_def registry_new_ok)
  then obtain evs ma where "analyzer_run to_value xs (analyzer_with_limits h d w t mh mb) = Some (evs, ma)"
    "analyzer_ok ma" "analyzer_limits ma = analyzer_limits (analyzer_with_limits h d w t mh mb)"
    using analyzer_run_total analyzer_kept_def by blast
  then show ?thesis
    by (simp add: analyzer_limits_def analyzer_with_limits_def registry_new_def)
qed

subsection \<open>The upgrade response\<close>

lemma http_is_no_frame:
  "parse_websocket_frame (72 # 84 # rest) = FrameInvalid ''fragmented websocket control frame''"
  by (simp add: parse_websocket_frame_def Let_def)



end
