(* ===== verification/View_Types.thy ===== *)
theory View_Types
  imports Event Flow_Key Ip_Text
begin

text \<open>
  The types that the stream view, the service profiles, the content slices and the HTTP interface share:
  the enumerations with their spellings, hide rules and pattern matches, from
  \<^verbatim>\<open>src/src/stream_view.rs\<close>, \<^verbatim>\<open>src/src/stream_slice.rs\<close> and \<^verbatim>\<open>src/src/stream_transform.rs\<close>, and the
  readers of the fields of a JSON object.
\<close>

subsection \<open>Enumerations\<close>

datatype view_status = ViewOpen | ViewClosing | ViewClosed | ViewStatusUnknown

datatype view_content_kind = ViewKindUnknown | ViewText | ViewBinary | ViewMixed

datatype pattern_type = PatternSubstring | PatternRegex | PatternBinary | PatternTypeUnknown

datatype slice_mode = SliceRaw | SliceText | SliceHex

datatype transform_mode =
    TransformAuto | UrlDecode | Gzip | HttpChunked | HttpGzip | WebSocketDeflate

definition view_status_from_str :: "string \<Rightarrow> view_status" where
  "view_status_from_str s = (if s = ''open'' then ViewOpen else if s = ''closing'' then ViewClosing
     else if s = ''closed'' then ViewClosed else ViewStatusUnknown)"

fun view_status_as_str :: "view_status \<Rightarrow> string" where
  "view_status_as_str ViewOpen = ''open''"
| "view_status_as_str ViewClosing = ''closing''"
| "view_status_as_str ViewClosed = ''closed''"
| "view_status_as_str ViewStatusUnknown = ''unknown''"

definition view_kind_from_str :: "string \<Rightarrow> view_content_kind" where
  "view_kind_from_str s = (if s = ''text'' then ViewText else if s = ''binary'' then ViewBinary
     else if s = ''mixed'' then ViewMixed else ViewKindUnknown)"

fun view_kind_as_str :: "view_content_kind \<Rightarrow> string" where
  "view_kind_as_str ViewKindUnknown = ''unknown''"
| "view_kind_as_str ViewText = ''text''"
| "view_kind_as_str ViewBinary = ''binary''"
| "view_kind_as_str ViewMixed = ''mixed''"

definition pattern_type_from_str :: "string \<Rightarrow> pattern_type" where
  "pattern_type_from_str s = (if s = ''substring'' then PatternSubstring
     else if s = ''regex'' then PatternRegex else if s = ''binary'' then PatternBinary
     else PatternTypeUnknown)"

fun view_protocol_name :: "transport_protocol \<Rightarrow> string" where
  "view_protocol_name Tcp = ''tcp''"
| "view_protocol_name Udp = ''udp''"
| "view_protocol_name Icmpv4 = ''icmpv4''"
| "view_protocol_name Icmpv6 = ''icmpv6''"

definition view_parse_protocol :: "string \<Rightarrow> transport_protocol option" where
  "view_parse_protocol s = (if s = ''tcp'' then Some Tcp else if s = ''udp'' then Some Udp
     else if s = ''icmpv4'' then Some Icmpv4 else if s = ''icmpv6'' then Some Icmpv6 else None)"

lemma view_status_from_as_str [simp]: "view_status_from_str (view_status_as_str s) = s"
  by (cases s) (simp_all add: view_status_from_str_def)

lemma view_kind_from_as_str [simp]: "view_kind_from_str (view_kind_as_str k) = k"
  by (cases k) (simp_all add: view_kind_from_str_def)

lemma view_parse_protocol_name [simp]: "view_parse_protocol (view_protocol_name p) = Some p"
  by (cases p) (simp_all add: view_parse_protocol_def)

subsection \<open>Fields of a JSON object\<close>

definition json_get :: "json \<Rightarrow> string \<Rightarrow> json option" where
  "json_get v name = (case v of JObject m \<Rightarrow> map_of m name | _ \<Rightarrow> None)"

definition json_as_u64 :: "json \<Rightarrow> nat option" where
  "json_as_u64 v = (case v of JU64 n \<Rightarrow> Some n | _ \<Rightarrow> None)"

definition string_field :: "json \<Rightarrow> string \<Rightarrow> string option" where
  "string_field v name = (case json_get v name of Some (JString s) \<Rightarrow> Some s | _ \<Rightarrow> None)"

definition u64_field :: "json \<Rightarrow> string \<Rightarrow> nat option" where
  "u64_field v name = Option.bind (json_get v name) json_as_u64"

text \<open>\<^verbatim>\<open>usize\<close> has 64 bits, so its conversion from \<^verbatim>\<open>u64\<close> cannot fail.\<close>

definition usize_field :: "json \<Rightarrow> string \<Rightarrow> nat option" where
  "usize_field v name = u64_field v name"

definition optional_usize_field :: "json \<Rightarrow> string \<Rightarrow> nat option option" where
  "optional_usize_field v name = (case json_get v name of
     None \<Rightarrow> Some None
   | Some JNull \<Rightarrow> Some None
   | Some w \<Rightarrow> map_option Some (json_as_u64 w))"

definition u16_field :: "json \<Rightarrow> string \<Rightarrow> u16 option" where
  "u16_field v name = Option.bind (u64_field v name) (\<lambda>n. if n \<le> 65535 then Some (of_nat n) else None)"

definition u8_field :: "json \<Rightarrow> string \<Rightarrow> nat option" where
  "u8_field v name = Option.bind (u64_field v name) (\<lambda>n. if n \<le> 255 then Some n else None)"

definition optional_u32_field :: "json \<Rightarrow> string \<Rightarrow> u32 option option" where
  "optional_u32_field v name = (case json_get v name of
     None \<Rightarrow> None
   | Some JNull \<Rightarrow> Some None
   | Some w \<Rightarrow> Option.bind (json_as_u64 w) (\<lambda>n. if n < 2 ^ 32 then Some (Some (of_nat n)) else None))"

definition stream_id_field :: "json \<Rightarrow> string \<Rightarrow> u64w option" where
  "stream_id_field v name =
     Option.bind (string_field v name) (\<lambda>s. map_option of_nat (parse_unsigned 16 u64_max s))"

definition status_field :: "json \<Rightarrow> string \<Rightarrow> view_status option" where
  "status_field v name = map_option view_status_from_str (string_field v name)"

definition content_kind_field :: "json \<Rightarrow> string \<Rightarrow> view_content_kind option" where
  "content_kind_field v name = map_option view_kind_from_str (string_field v name)"

definition pattern_type_field :: "json \<Rightarrow> string \<Rightarrow> pattern_type option" where
  "pattern_type_field v name = map_option pattern_type_from_str (string_field v name)"

definition direction_field :: "json \<Rightarrow> string \<Rightarrow> flow_direction option" where
  "direction_field v name = Option.bind (string_field v name)
     (\<lambda>s. if s = ''a_to_b'' then Some AToB else if s = ''b_to_a'' then Some BToA else None)"

definition protocol_field :: "json \<Rightarrow> string \<Rightarrow> transport_protocol option" where
  "protocol_field v name = Option.bind (string_field v name) view_parse_protocol"

lemmas json_field_defs = json_get_def json_as_u64_def string_field_def u64_field_def usize_field_def
  optional_usize_field_def u16_field_def u8_field_def optional_u32_field_def status_field_def
  content_kind_field_def pattern_type_field_def direction_field_def protocol_field_def

subsection \<open>Hide rules and pattern matches\<close>

datatype hide_rule =
    HideStreamId u64w
  | HideService string
  | HideProtocol transport_protocol
  | HidePort u16
  | HideContentKind view_content_kind
  | HideStatus view_status
  | HidePatternId string

fun hide_rule_normalized :: "hide_rule \<Rightarrow> hide_rule" where
  "hide_rule_normalized (HideService service) = HideService (to_ascii_lowercase service)"
| "hide_rule_normalized (HidePatternId pattern_id) = HidePatternId (str_trim pattern_id)"
| "hide_rule_normalized other = other"

definition view_stream_id_hex :: "u64w \<Rightarrow> string" where
  "view_stream_id_hex stream_id = hex_fixed 16 (unat stream_id)"

fun hide_rule_label :: "hide_rule \<Rightarrow> string" where
  "hide_rule_label (HideStreamId stream_id) = ''stream:'' @ view_stream_id_hex stream_id"
| "hide_rule_label (HideService service) = ''service:'' @ service"
| "hide_rule_label (HideProtocol protocol) = ''protocol:'' @ view_protocol_name protocol"
| "hide_rule_label (HidePort port) = ''port:'' @ show_nat (unat port)"
| "hide_rule_label (HideContentKind kind) = ''content_kind:'' @ view_kind_as_str kind"
| "hide_rule_label (HideStatus status) = ''status:'' @ view_status_as_str status"
| "hide_rule_label (HidePatternId pattern_id) = ''pattern:'' @ pattern_id"

record pattern_match =
  pm_stream_id :: u64w
  pm_stream_id_hex :: string
  pm_pattern_id :: string
  pm_pattern_name :: string
  pm_pattern_type :: pattern_type
  pm_direction :: flow_direction
  pm_logical_start :: nat
  pm_logical_end :: nat
  pm_match_len :: nat
  pm_match_text :: "string option"

definition match_text_preview_limit :: nat where
  "match_text_preview_limit = 256"

definition trim_match_text :: "string \<Rightarrow> string" where
  "trim_match_text s =
     (if length s \<le> match_text_preview_limit then s else take_chars match_text_preview_limit s)"

definition pattern_match_from_event :: "event \<Rightarrow> pattern_match option" where
  "pattern_match_from_event ev = (let v = ev_fields ev in
     Option.bind (stream_id_field v ''stream_id'') (\<lambda>stream_id.
     Option.bind (string_field v ''pattern_id'') (\<lambda>pattern_id.
     Option.bind (string_field v ''pattern_name'') (\<lambda>pattern_name.
     let pattern_type = (case pattern_type_field v ''pattern_type'' of None \<Rightarrow> PatternTypeUnknown | Some t \<Rightarrow> t) in
     Option.bind (direction_field v ''direction'') (\<lambda>direction.
     Option.bind (u64_field v ''logical_start'') (\<lambda>logical_start.
     Option.bind (u64_field v ''logical_end'') (\<lambda>logical_end.
     Option.bind (usize_field v ''match_len'') (\<lambda>match_len.
     Some \<lparr>pm_stream_id = stream_id, pm_stream_id_hex = view_stream_id_hex stream_id,
       pm_pattern_id = pattern_id, pm_pattern_name = pattern_name, pm_pattern_type = pattern_type,
       pm_direction = direction, pm_logical_start = logical_start, pm_logical_end = logical_end,
       pm_match_len = match_len,
       pm_match_text = map_option trim_match_text (string_field v ''match_text'')\<rparr>))))))))"

lemma stream_id_field_hex:
  "string_field v name = Some (view_stream_id_hex stream_id) \<Longrightarrow> stream_id_field v name = Some stream_id"
proof -
  assume "string_field v name = Some (view_stream_id_hex stream_id)"
  moreover have "unat stream_id < 16 ^ 16" using unsigned_less[of stream_id, where 'a = nat] by simp
  moreover have "unat stream_id \<le> u64_max" using unsigned_less[of stream_id, where 'a = nat] by (simp add: u64_max_def)
  ultimately show "stream_id_field v name = Some stream_id"
    using parse_hex_fixed[of 16 "unat stream_id" u64_max] by (simp add: stream_id_field_def view_stream_id_hex_def)
qed

end
