(* ===== verification/Service_Profile.thy ===== *)
theory Service_Profile
  imports View_Types
begin

text \<open>
  Service profiles, from \<^verbatim>\<open>src/src/service_profile.rs\<close>: the built-in set, the profile file's settings
  with their parsers, normalisation, and the set with its insertion by identifier and its order by
  priority.  \<^verbatim>\<open>serde_json::from_str\<close> is the parameter \<open>parse_file\<close>; the text of the standard library's
  integer errors is the constructor \<open>InvalidInteger\<close>.
\<close>

subsection \<open>Profiles\<close>

record service_profile =
  sp_id :: string
  sp_name :: string
  sp_description :: string
  sp_priority :: nat
  sp_enabled :: bool
  sp_protocol :: "transport_protocol option"
  sp_services :: "string list"
  sp_ports :: "u16 list"
  sp_content_kind :: "view_content_kind option"
  sp_pattern_ids :: "string list"
  sp_default_direction :: "flow_direction option"
  sp_default_mode :: "slice_mode option"
  sp_default_transform :: "transform_mode option"
  sp_default_transforms :: "transform_mode list"
  sp_hide_rules :: "hide_rule list"

record service_profile_stats =
  sps_total_streams :: nat
  sps_visible_streams :: nat
  sps_hidden_streams :: nat
  sps_matched_streams :: nat
  sps_favorite_streams :: nat

definition normalized_id :: "string \<Rightarrow> string" where
  "normalized_id ident = replace_chars [CHR '' '', CHR ''-''] CHR ''_'' (to_ascii_lowercase (str_trim ident))"

definition normalized_token :: "string \<Rightarrow> string" where
  "normalized_token raw = replace_chars [CHR ''-'', CHR '' ''] CHR ''_'' (to_ascii_lowercase (str_trim raw))"

definition profile_normalized :: "service_profile \<Rightarrow> service_profile" where
  "profile_normalized p =
     (let default_transform = (case sp_default_transform p of
            None \<Rightarrow> (case sp_default_transforms p of [] \<Rightarrow> None | t # _ \<Rightarrow> Some t)
          | Some t \<Rightarrow> Some t);
          default_transforms = (case (sp_default_transforms p, default_transform) of
            ([], Some t) \<Rightarrow> [t] | (ts, _) \<Rightarrow> ts)
      in p\<lparr>sp_id := normalized_id (sp_id p),
           sp_services := filter (\<lambda>s. s \<noteq> []) (map (\<lambda>s. to_ascii_lowercase (str_trim s)) (sp_services p)),
           sp_pattern_ids := filter (\<lambda>s. s \<noteq> []) (map str_trim (sp_pattern_ids p)),
           sp_ports := remdups_adj (sort (sp_ports p)),
           sp_hide_rules := map hide_rule_normalized (sp_hide_rules p),
           sp_default_transform := default_transform,
           sp_default_transforms := default_transforms\<rparr>)"

subsection \<open>The set\<close>

text \<open>\<^verbatim>\<open>sort_by_key\<close> is stable.\<close>

definition profiles_sort :: "service_profile list \<Rightarrow> service_profile list" where
  "profiles_sort = sort_key (\<lambda>p. - int (sp_priority p))"

definition profiles_upsert :: "service_profile list \<Rightarrow> service_profile \<Rightarrow> service_profile list" where
  "profiles_upsert set_of profile =
     (let profile = profile_normalized profile
      in filter (\<lambda>existing. sp_id existing \<noteq> sp_id profile) set_of @ [profile])"

definition profiles_get :: "service_profile list \<Rightarrow> string \<Rightarrow> service_profile option" where
  "profiles_get profiles ident = (let ident = normalized_id ident in List.find (\<lambda>p. sp_id p = ident) profiles)"

definition tcp_web_profile ::
  "string \<Rightarrow> string \<Rightarrow> string \<Rightarrow> nat \<Rightarrow> string list \<Rightarrow> u16 list \<Rightarrow> slice_mode \<Rightarrow> transform_mode option \<Rightarrow>
   transform_mode list \<Rightarrow> hide_rule list \<Rightarrow> service_profile" where
  "tcp_web_profile ident name description priority services ports mode transform transforms rules =
     \<lparr>sp_id = ident, sp_name = name, sp_description = description, sp_priority = priority,
      sp_enabled = True, sp_protocol = Some Tcp, sp_services = services, sp_ports = ports,
      sp_content_kind = None, sp_pattern_ids = [], sp_default_direction = Some AToB,
      sp_default_mode = Some mode, sp_default_transform = transform, sp_default_transforms = transforms,
      sp_hide_rules = rules\<rparr>"

definition builtin_profiles :: "service_profile list" where
  "builtin_profiles = profiles_sort (map profile_normalized
     [tcp_web_profile ''http'' ''HTTP'' ''Plain HTTP and common web challenge ports'' 100 [''http'', ''http2'']
        [80, 8000, 8008, 8080, 8081, 8888] SliceText (Some TransformAuto) [HttpChunked, HttpGzip, UrlDecode]
        [HideService ''http''],
      tcp_web_profile ''https'' ''HTTPS'' ''HTTP over TLS on HTTPS ports or HTTP ALPN'' 97 [''https'']
        [443, 8443] SliceHex None [] [HideService ''https''],
      tcp_web_profile ''tls'' ''TLS'' ''Generic TLS streams without HTTP evidence'' 95 [''tls'']
        [] SliceHex None [] [HideService ''tls''],
      (tcp_web_profile ''dns'' ''DNS'' ''DNS traffic on classic and multicast resolver ports'' 90
        [''dns'', ''mdns'', ''llmnr''] [53, 5353, 5355] SliceHex None [] [HideService ''dns''])
        \<lparr>sp_protocol := None\<rparr>,
      tcp_web_profile ''websocket'' ''WebSocket'' ''WebSocket-heavy app streams and common upgrade ports'' 80
        [''websocket'', ''http''] [80, 8000, 8008, 8080, 8081, 8888] SliceText (Some WebSocketDeflate)
        [WebSocketDeflate, UrlDecode] [],
      (tcp_web_profile ''binary'' ''Binary'' ''Unknown or custom binary protocols'' 20 [] [] SliceHex None []
        [HideContentKind ViewBinary])\<lparr>sp_protocol := None, sp_content_kind := Some ViewBinary\<rparr>,
      (tcp_web_profile ''matched'' ''Matched'' ''Streams with retained pattern matches'' 10 [] [] SliceText
        (Some TransformAuto) [TransformAuto] [])\<lparr>sp_protocol := None\<rparr>])"

subsection \<open>Settings\<close>

datatype profile_error = ProfileError string | InvalidInteger

record hide_rule_config =
  hrc_kind :: string
  hrc_value :: json

record service_profile_config =
  spc_id :: string
  spc_name :: "string option"
  spc_description :: "string option"
  spc_priority :: "nat option"
  spc_enabled :: "bool option"
  spc_protocol :: "string option"
  spc_services :: "string list"
  spc_ports :: "u16 list"
  spc_content_kind :: "string option"
  spc_pattern_ids :: "string list"
  spc_default_direction :: "string option"
  spc_default_mode :: "string option"
  spc_default_transform :: "string option"
  spc_default_transforms :: "string list"
  spc_hide_rules :: "hide_rule_config list"

record service_profile_file =
  spf_include_builtins :: "bool option"
  spf_profiles :: "service_profile_config list"

text \<open>\<^verbatim>\<open>iter().map(f).collect::<Result<Vec<_>>>()\<close> and \<^verbatim>\<open>option.map(f).transpose()\<close>.\<close>

fun collect_results :: "('a \<Rightarrow> 'e + 'b) \<Rightarrow> 'a list \<Rightarrow> 'e + 'b list" where
  "collect_results f [] = Inr []"
| "collect_results f (x # xs) = try_bind (f x) (\<lambda>y. try_bind (collect_results f xs) (\<lambda>ys. Inr (y # ys)))"

definition transpose_result :: "('a \<Rightarrow> 'e + 'b) \<Rightarrow> 'a option \<Rightarrow> 'e + 'b option" where
  "transpose_result f opt = (case opt of None \<Rightarrow> Inr None | Some x \<Rightarrow> try_bind (f x) (\<lambda>y. Inr (Some y)))"

definition strip_prefix :: "string \<Rightarrow> string \<Rightarrow> string option" where
  "strip_prefix prefix s = (if starts_with prefix s then Some (drop (length prefix) s) else None)"

definition is_hex_letter :: "char \<Rightarrow> bool" where
  "is_hex_letter c \<longleftrightarrow> (97 \<le> (of_char c :: nat) \<and> (of_char c :: nat) \<le> 102)
     \<or> (65 \<le> (of_char c :: nat) \<and> (of_char c :: nat) \<le> 70)"

definition profile_parse_stream_id :: "string \<Rightarrow> profile_error + u64w" where
  "profile_parse_stream_id raw =
     (let v = str_trim raw;
          hex = (case strip_prefix ''0x'' v of Some h \<Rightarrow> h
            | None \<Rightarrow> (case strip_prefix ''0X'' v of Some h \<Rightarrow> h | None \<Rightarrow> v));
          looks_hex = (starts_with ''0x'' v \<or> starts_with ''0X'' v \<or> list_ex is_hex_letter hex)
      in map_sum id of_nat (ok_or InvalidInteger
           (if looks_hex then parse_unsigned 16 u64_max hex else parse_unsigned 10 u64_max v)))"

definition profile_parse_protocol :: "string \<Rightarrow> profile_error + transport_protocol" where
  "profile_parse_protocol raw = (let token = normalized_token raw in
     if token = ''tcp'' then Inr Tcp
     else if token = ''udp'' then Inr Udp
     else if token = ''icmpv4'' \<or> token = ''icmp_v4'' then Inr Icmpv4
     else if token = ''icmpv6'' \<or> token = ''icmp_v6'' then Inr Icmpv6
     else Inl (ProfileError (''invalid protocol: '' @ raw)))"

definition profile_parse_content_kind :: "string \<Rightarrow> profile_error + view_content_kind" where
  "profile_parse_content_kind raw = (let token = normalized_token raw in
     if token = ''unknown'' then Inr ViewKindUnknown
     else if token = ''text'' then Inr ViewText
     else if token = ''binary'' then Inr ViewBinary
     else if token = ''mixed'' then Inr ViewMixed
     else Inl (ProfileError (''invalid content_kind: '' @ raw)))"

definition profile_parse_status :: "string \<Rightarrow> profile_error + view_status" where
  "profile_parse_status raw = (let token = normalized_token raw in
     if token = ''open'' then Inr ViewOpen
     else if token = ''closing'' then Inr ViewClosing
     else if token = ''closed'' then Inr ViewClosed
     else if token = ''unknown'' then Inr ViewStatusUnknown
     else Inl (ProfileError (''invalid status: '' @ raw)))"

definition profile_parse_direction :: "string \<Rightarrow> profile_error + flow_direction" where
  "profile_parse_direction raw = (let token = normalized_token raw in
     if token \<in> set [''a_to_b'', ''atob'', ''a_b''] then Inr AToB
     else if token \<in> set [''b_to_a'', ''btoa'', ''b_a''] then Inr BToA
     else Inl (ProfileError (''invalid direction: '' @ raw)))"

definition profile_parse_mode :: "string \<Rightarrow> profile_error + slice_mode" where
  "profile_parse_mode raw = (let token = normalized_token raw in
     if token = ''raw'' then Inr SliceRaw
     else if token = ''text'' then Inr SliceText
     else if token = ''hex'' then Inr SliceHex
     else Inl (ProfileError (''invalid mode: '' @ raw)))"

definition profile_parse_transform :: "string \<Rightarrow> profile_error + transform_mode" where
  "profile_parse_transform raw = (let token = normalized_token raw in
     if token = ''auto'' then Inr TransformAuto
     else if token \<in> set [''url'', ''url_decode'', ''urldecode''] then Inr UrlDecode
     else if token = ''gzip'' then Inr Gzip
     else if token = ''http_chunked'' \<or> token = ''chunked'' then Inr HttpChunked
     else if token = ''http_gzip'' then Inr HttpGzip
     else if token = ''websocket_deflate'' \<or> token = ''ws_deflate'' then Inr WebSocketDeflate
     else Inl (ProfileError (''invalid transform: '' @ raw)))"

definition json_scalar_to_string :: "json \<Rightarrow> profile_error + string" where
  "json_scalar_to_string v =
     try_bind (case v of
         JString s \<Rightarrow> Inr (str_trim s)
       | JU64 n \<Rightarrow> Inr (show_nat n)
       | JOtherNumber s \<Rightarrow> Inr s
       | JBool b \<Rightarrow> Inr (if b then ''true'' else ''false'')
       | _ \<Rightarrow> Inl (ProfileError ''hide rule value must be a scalar''))
       (\<lambda>s. if s = [] then Inl (ProfileError ''hide rule value is empty'') else Inr s)"

definition hide_rule_of_config :: "hide_rule_config \<Rightarrow> profile_error + hide_rule" where
  "hide_rule_of_config c =
     try_bind (json_scalar_to_string (hrc_value c)) (\<lambda>v.
     let kind = normalized_token (hrc_kind c) in
     try_bind
       (if kind \<in> set [''stream'', ''stream_id''] then try_bind (profile_parse_stream_id v) (\<lambda>i. Inr (HideStreamId i))
        else if kind = ''service'' then Inr (HideService v)
        else if kind = ''protocol'' then try_bind (profile_parse_protocol v) (\<lambda>p. Inr (HideProtocol p))
        else if kind = ''port''
          then try_bind (ok_or InvalidInteger (parse_unsigned 10 65535 v)) (\<lambda>p. Inr (HidePort (of_nat p)))
        else if kind \<in> set [''content_kind'', ''kind'']
          then try_bind (profile_parse_content_kind v) (\<lambda>k. Inr (HideContentKind k))
        else if kind = ''status'' then try_bind (profile_parse_status v) (\<lambda>s. Inr (HideStatus s))
        else if kind \<in> set [''pattern'', ''pattern_id''] then Inr (HidePatternId v)
        else Inl (ProfileError (''invalid hide rule kind: '' @ kind)))
       (\<lambda>rule. Inr (hide_rule_normalized rule)))"

definition into_profile :: "service_profile_config \<Rightarrow> profile_error + service_profile" where
  "into_profile c =
     (let ident = normalized_id (spc_id c) in
      if ident = [] then Inl (ProfileError ''service profile id is empty'')
      else
        try_bind (transpose_result profile_parse_transform (spc_default_transform c)) (\<lambda>default_transform.
        try_bind (collect_results profile_parse_transform (spc_default_transforms c)) (\<lambda>default_transforms.
        try_bind (transpose_result profile_parse_protocol (spc_protocol c)) (\<lambda>protocol.
        try_bind (transpose_result profile_parse_content_kind (spc_content_kind c)) (\<lambda>content_kind.
        try_bind (transpose_result profile_parse_direction (spc_default_direction c)) (\<lambda>default_direction.
        try_bind (transpose_result profile_parse_mode (spc_default_mode c)) (\<lambda>default_mode.
        try_bind (collect_results hide_rule_of_config (spc_hide_rules c)) (\<lambda>hide_rules.
        Inr \<lparr>sp_id = ident, sp_name = (case spc_name c of None \<Rightarrow> ident | Some n \<Rightarrow> n),
          sp_description = (case spc_description c of None \<Rightarrow> [] | Some d \<Rightarrow> d),
          sp_priority = (case spc_priority c of None \<Rightarrow> 50 | Some p \<Rightarrow> p),
          sp_enabled = (case spc_enabled c of None \<Rightarrow> True | Some e \<Rightarrow> e),
          sp_protocol = protocol, sp_services = spc_services c, sp_ports = spc_ports c,
          sp_content_kind = content_kind, sp_pattern_ids = spc_pattern_ids c,
          sp_default_direction = default_direction, sp_default_mode = default_mode,
          sp_default_transform = default_transform, sp_default_transforms = default_transforms,
          sp_hide_rules = hide_rules\<rparr>))))))))"

text \<open>The loop over the profiles of the file.\<close>

fun upsert_all :: "service_profile list \<Rightarrow> service_profile_config list \<Rightarrow> profile_error + service_profile list" where
  "upsert_all set_of [] = Inr set_of"
| "upsert_all set_of (c # cs) = try_bind (into_profile c) (\<lambda>p. upsert_all (profiles_upsert set_of p) cs)"

definition profiles_from_json_str ::
  "(string \<Rightarrow> profile_error + service_profile_file) \<Rightarrow> string \<Rightarrow> profile_error + service_profile list" where
  "profiles_from_json_str parse_file raw =
     try_bind (parse_file raw) (\<lambda>file.
     let base = (case spf_include_builtins file of Some False \<Rightarrow> [] | _ \<Rightarrow> builtin_profiles)
     in try_bind (upsert_all base (spf_profiles file)) (\<lambda>profiles. Inr (profiles_sort profiles)))"

subsection \<open>What a profile file gives\<close>

lemma upsert_all_distinct:
  "upsert_all ps cs = Inr qs \<Longrightarrow> distinct (map sp_id ps) \<Longrightarrow> distinct (map sp_id qs)"
proof (induction cs arbitrary: ps)
  case (Cons c cs)
  obtain x where x: "into_profile c = Inr x" "upsert_all (profiles_upsert ps x) cs = Inr qs"
    using Cons.prems(1) by (auto simp: try_bind_eq_Inr)
  have "distinct (map sp_id (profiles_upsert ps x))"
    using Cons.prems(2) by (auto simp: profiles_upsert_def Let_def distinct_map_filter)
  then show ?case using Cons.IH[OF x(2)] by blast
qed simp

lemma upsert_all_keeps:
  "upsert_all ps cs = Inr qs \<Longrightarrow> p \<in> set ps \<Longrightarrow>
    p \<in> set qs \<or> (\<exists>q \<in> set qs. sp_id q = sp_id p)"
proof (induction cs arbitrary: ps p)
  case (Cons c cs)
  obtain x where x: "into_profile c = Inr x" "upsert_all (profiles_upsert ps x) cs = Inr qs"
    using Cons.prems(1) by (auto simp: try_bind_eq_Inr)
  show ?case
  proof (cases "sp_id p = sp_id (profile_normalized x)")
    case True
    have "profile_normalized x \<in> set (profiles_upsert ps x)" by (simp add: profiles_upsert_def Let_def)
    then show ?thesis using Cons.IH[OF x(2)] True by metis
  next
    case False
    then have "p \<in> set (profiles_upsert ps x)" using Cons.prems(2) by (simp add: profiles_upsert_def Let_def)
    then show ?thesis using Cons.IH[OF x(2)] by blast
  qed
qed auto

lemma builtin_ids: "map sp_id builtin_profiles = [''http'', ''https'', ''tls'', ''dns'', ''websocket'', ''binary'', ''matched'']"
  by code_simp

lemma profiles_sort_set [simp]: "set (profiles_sort ps) = set ps"
  by (simp add: profiles_sort_def)

lemma profiles_sort_distinct: "distinct (map sp_id ps) \<Longrightarrow> distinct (map sp_id (profiles_sort ps))"
  by (metis mset_eq_imp_distinct_iff mset_map mset_sort profiles_sort_def)

end
