(* ===== verification/Stream_View.thy ===== *)
theory Stream_View
  imports Service_Profile Stream_Message "HOL-Library.Char_ord" "HOL-Library.List_Lexorder"
begin

text \<open>
  The coordinator's view of the streams, from \<^verbatim>\<open>src/src/stream_view.rs\<close>: the index that the events of
  the workers feed, with its retained matches, favorites, hidden streams and hide rules, and the queries
  over it.  A hash set is a list without repetitions, in the unspecified order of its iteration.
  \<^verbatim>\<open>StreamMessage::from_event\<close> ends in \<^verbatim>\<open>serde\<close>, the parameter \<open>from_value\<close>.
\<close>

subsection \<open>Data\<close>

record view_config =
  vc_enabled :: bool
  vc_max_streams :: nat
  vc_max_matches_per_stream :: nat
  vc_max_query_limit :: nat

definition view_config_disabled :: view_config where
  "view_config_disabled = \<lparr>vc_enabled = False, vc_max_streams = 0, vc_max_matches_per_stream = 0,
     vc_max_query_limit = 0\<rparr>"

record view_stats =
  vst_tracked_streams :: nat
  vst_favorite_streams :: nat
  vst_manually_hidden_streams :: nat
  vst_matched_streams :: nat
  vst_stored_matches :: nat
  vst_dropped_matches :: nat
  vst_orphan_matches :: nat
  vst_evicted_streams :: nat
  vst_hide_rules :: nat

definition view_stats_default :: view_stats where
  "view_stats_default = \<lparr>vst_tracked_streams = 0, vst_favorite_streams = 0, vst_manually_hidden_streams = 0,
     vst_matched_streams = 0, vst_stored_matches = 0, vst_dropped_matches = 0, vst_orphan_matches = 0,
     vst_evicted_streams = 0, vst_hide_rules = 0\<rparr>"

record view_query =
  vq_cursor :: nat
  vq_limit :: nat
  vq_include_hidden :: bool
  vq_only_favorites :: bool
  vq_only_matched :: bool
  vq_profile :: "service_profile option"
  vq_protocol :: "transport_protocol option"
  vq_service :: "string option"
  vq_port :: "u16 option"
  vq_content_kind :: "view_content_kind option"
  vq_status :: "view_status option"
  vq_pattern_id :: "string option"

definition view_query_default :: view_query where
  "view_query_default = \<lparr>vq_cursor = 0, vq_limit = 100, vq_include_hidden = False, vq_only_favorites = False,
     vq_only_matched = False, vq_profile = None, vq_protocol = None, vq_service = None, vq_port = None,
     vq_content_kind = None, vq_status = None, vq_pattern_id = None\<rparr>"

record view_endpoint =
  vep_addr :: ip_addr
  vep_port :: u16

record view_service =
  vse_name :: string
  vse_side :: string
  vse_confidence :: nat
  vse_source :: "string option"
  vse_evidence :: "string option"

record view_direction =
  vd_packets :: nat
  vd_bytes :: nat
  vd_payload_bytes :: nat
  vd_stream_bytes :: nat
  vd_stream_chunks :: nat
  vd_first_sequence :: "u32 option"
  vd_last_sequence :: "u32 option"
  vd_content_kind :: view_content_kind
  vd_preview_base64 :: string
  vd_preview_text :: "string option"

record view_entry =
  ve_stream_id :: u64w
  ve_content_shard :: "nat option"
  ve_first_seen_us :: nat
  ve_last_seen_us :: nat
  ve_protocol :: transport_protocol
  ve_endpoint_a :: view_endpoint
  ve_endpoint_b :: view_endpoint
  ve_service :: view_service
  ve_status :: view_status
  ve_content_kind :: view_content_kind
  ve_packets :: nat
  ve_bytes :: nat
  ve_payload_bytes :: nat
  ve_stream_bytes :: nat
  ve_stream_chunks :: nat
  ve_directions :: "view_direction \<times> view_direction"
  ve_matches :: "pattern_match list"
  ve_match_count :: nat
  ve_pattern_ids :: "string list"

record view_row =
  vr_stream_id :: u64w
  vr_stream_id_hex :: string
  vr_content_shard :: "nat option"
  vr_first_seen_us :: nat
  vr_last_seen_us :: nat
  vr_protocol :: transport_protocol
  vr_endpoint_a :: view_endpoint
  vr_endpoint_b :: view_endpoint
  vr_service :: view_service
  vr_status :: view_status
  vr_content_kind :: view_content_kind
  vr_packets :: nat
  vr_bytes :: nat
  vr_payload_bytes :: nat
  vr_stream_bytes :: nat
  vr_stream_chunks :: nat
  vr_match_count :: nat
  vr_stored_match_count :: nat
  vr_pattern_ids :: "string list"
  vr_favorite :: bool
  vr_hidden :: bool
  vr_hidden_reason :: "string option"

record view_query_result =
  vqr_rows :: "view_row list"
  vqr_next_cursor :: "nat option"
  vqr_scanned :: nat

record view_state =
  sv_config :: view_config
  sv_streams :: "(u64w \<times> view_entry) list"
  sv_order :: "u64w list"
  sv_favorites :: "u64w list"
  sv_manually_hidden :: "u64w list"
  sv_matched_streams :: "u64w list"
  sv_pattern_index :: "(string \<times> u64w list) list"
  sv_hide_rules :: "hide_rule list"
  sv_stats :: view_stats

definition view_new :: "view_config \<Rightarrow> view_state" where
  "view_new config = \<lparr>sv_config = config, sv_streams = [], sv_order = [], sv_favorites = [],
     sv_manually_hidden = [], sv_matched_streams = [], sv_pattern_index = [], sv_hide_rules = [],
     sv_stats = view_stats_default\<rparr>"

definition view_flow_key :: "view_entry \<Rightarrow> flow_key" where
  "view_flow_key e = \<lparr>fk_protocol = ve_protocol e,
     fk_a = \<lparr>ep_addr = vep_addr (ve_endpoint_a e), ep_port = vep_port (ve_endpoint_a e)\<rparr>,
     fk_b = \<lparr>ep_addr = vep_addr (ve_endpoint_b e), ep_port = vep_port (ve_endpoint_b e)\<rparr>\<rparr>"

subsection \<open>Entries from events\<close>

definition view_endpoint_field :: "json \<Rightarrow> string \<Rightarrow> view_endpoint option" where
  "view_endpoint_field v name =
     Option.bind (json_get v name) (\<lambda>endpoint.
     Option.bind (Option.bind (string_field endpoint ''addr'') parse_ip_addr) (\<lambda>addr.
     Option.bind (u16_field endpoint ''port'') (\<lambda>port. Some \<lparr>vep_addr = addr, vep_port = port\<rparr>)))"

definition view_service_field :: "json \<Rightarrow> string \<Rightarrow> view_service option" where
  "view_service_field v name =
     Option.bind (json_get v name) (\<lambda>service.
     Option.bind (string_field service ''name'') (\<lambda>n.
     Option.bind (string_field service ''side'') (\<lambda>side.
     Option.bind (u8_field service ''confidence'') (\<lambda>confidence.
     Some \<lparr>vse_name = n, vse_side = side, vse_confidence = confidence,
       vse_source = string_field service ''source'', vse_evidence = string_field service ''evidence''\<rparr>))))"

definition view_direction_field :: "json \<Rightarrow> string \<Rightarrow> view_direction option" where
  "view_direction_field v name =
     Option.bind (json_get v name) (\<lambda>direction.
     Option.bind (u64_field direction ''packets'') (\<lambda>packets.
     Option.bind (u64_field direction ''bytes'') (\<lambda>bs.
     Option.bind (u64_field direction ''payload_bytes'') (\<lambda>payload_bytes.
     Option.bind (u64_field direction ''stream_bytes'') (\<lambda>stream_bytes.
     Option.bind (u64_field direction ''stream_chunks'') (\<lambda>stream_chunks.
     Option.bind (optional_u32_field direction ''first_sequence'') (\<lambda>first_sequence.
     Option.bind (optional_u32_field direction ''last_sequence'') (\<lambda>last_sequence.
     let kind = (case content_kind_field direction ''content_kind'' of None \<Rightarrow> ViewKindUnknown | Some k \<Rightarrow> k) in
     Option.bind (string_field direction ''preview_base64'') (\<lambda>preview_base64.
     Some \<lparr>vd_packets = packets, vd_bytes = bs, vd_payload_bytes = payload_bytes,
       vd_stream_bytes = stream_bytes, vd_stream_chunks = stream_chunks,
       vd_first_sequence = first_sequence, vd_last_sequence = last_sequence, vd_content_kind = kind,
       vd_preview_base64 = preview_base64, vd_preview_text = string_field direction ''preview_text''\<rparr>)))))))))"

definition view_directions_field :: "json \<Rightarrow> (view_direction \<times> view_direction) option" where
  "view_directions_field v =
     Option.bind (json_get v ''directions'') (\<lambda>directions.
     Option.bind (view_direction_field directions ''a_to_b'') (\<lambda>a_to_b.
     Option.bind (view_direction_field directions ''b_to_a'') (\<lambda>b_to_a. Some (a_to_b, b_to_a))))"

definition view_entry_from_event :: "event \<Rightarrow> view_entry option" where
  "view_entry_from_event ev = (let v = ev_fields ev in
     Option.bind (stream_id_field v ''stream_id'') (\<lambda>stream_id.
     let content_shard = (case optional_usize_field v ''content_shard'' of None \<Rightarrow> None | Some s \<Rightarrow> s) in
     Option.bind (u64_field v ''first_seen_us'') (\<lambda>first_seen_us.
     Option.bind (u64_field v ''last_seen_us'') (\<lambda>last_seen_us.
     Option.bind (protocol_field v ''protocol'') (\<lambda>protocol.
     Option.bind (view_endpoint_field v ''endpoint_a'') (\<lambda>endpoint_a.
     Option.bind (view_endpoint_field v ''endpoint_b'') (\<lambda>endpoint_b.
     Option.bind (view_service_field v ''service'') (\<lambda>service.
     let status = (case status_field v ''status'' of None \<Rightarrow> ViewStatusUnknown | Some s \<Rightarrow> s);
         kind = (case content_kind_field v ''content_kind'' of None \<Rightarrow> ViewKindUnknown | Some k \<Rightarrow> k) in
     Option.bind (u64_field v ''packets'') (\<lambda>packets.
     Option.bind (u64_field v ''bytes'') (\<lambda>bs.
     Option.bind (u64_field v ''payload_bytes'') (\<lambda>payload_bytes.
     Option.bind (u64_field v ''stream_bytes'') (\<lambda>stream_bytes.
     Option.bind (u64_field v ''stream_chunks'') (\<lambda>stream_chunks.
     Option.bind (view_directions_field v) (\<lambda>directions.
     Some \<lparr>ve_stream_id = stream_id, ve_content_shard = content_shard, ve_first_seen_us = first_seen_us,
       ve_last_seen_us = last_seen_us, ve_protocol = protocol, ve_endpoint_a = endpoint_a,
       ve_endpoint_b = endpoint_b, ve_service = service, ve_status = status, ve_content_kind = kind,
       ve_packets = packets, ve_bytes = bs, ve_payload_bytes = payload_bytes,
       ve_stream_bytes = stream_bytes, ve_stream_chunks = stream_chunks, ve_directions = directions,
       ve_matches = [], ve_match_count = 0, ve_pattern_ids = []\<rparr>))))))))))))))"

subsection \<open>Services from protocol messages\<close>

definition alpn_is_http :: "string \<Rightarrow> bool" where
  "alpn_is_http protocol \<longleftrightarrow>
     protocol \<in> set [''h2'', ''http/1.1'', ''http/1.0'', ''http/1.1-draft''] \<or> starts_with ''h3'' protocol"

definition message_has_http_alpn :: "stream_message \<Rightarrow> bool" where
  "message_has_http_alpn m \<longleftrightarrow> (case msg_tls m of None \<Rightarrow> False | Some tls \<Rightarrow> list_ex alpn_is_http (ti_alpn tls))"

definition tls_message_is_https :: "stream_message \<Rightarrow> event \<Rightarrow> bool" where
  "tls_message_is_https m ev \<longleftrightarrow> msg_protocol m = Tls
     \<and> (message_has_http_alpn m
        \<or> (case ev_source_port ev of None \<Rightarrow> False | Some port \<Rightarrow> port = 443 \<or> port = 8443)
        \<or> (case ev_destination_port ev of None \<Rightarrow> False | Some port \<Rightarrow> port = 443 \<or> port = 8443))"

definition service_name_from_message :: "stream_message \<Rightarrow> event \<Rightarrow> string" where
  "service_name_from_message m ev = (case msg_protocol m of
     Http1 \<Rightarrow> ''http''
   | Dns \<Rightarrow> ''dns''
   | WebSocket \<Rightarrow> ''websocket''
   | Tls \<Rightarrow> if tls_message_is_https m ev then ''https'' else ''tls'')"

fun source_side_name :: "flow_direction \<Rightarrow> string" where
  "source_side_name AToB = ''a''"
| "source_side_name BToA = ''b''"

fun destination_side_name :: "flow_direction \<Rightarrow> string" where
  "destination_side_name AToB = ''b''"
| "destination_side_name BToA = ''a''"

definition service_port_side :: "event \<Rightarrow> flow_direction \<Rightarrow> u16 list \<Rightarrow> string option" where
  "service_port_side ev direction ports =
     (if (case ev_source_port ev of None \<Rightarrow> False | Some port \<Rightarrow> port \<in> set ports)
        then Some (source_side_name direction)
      else if (case ev_destination_port ev of None \<Rightarrow> False | Some port \<Rightarrow> port \<in> set ports)
        then Some (destination_side_name direction)
      else None)"

definition message_side :: "flow_direction \<Rightarrow> message_kind \<Rightarrow> string" where
  "message_side direction kind = (case (direction, kind) of
     (AToB, Request) \<Rightarrow> ''b''
   | (BToA, Request) \<Rightarrow> ''a''
   | (AToB, Response) \<Rightarrow> ''a''
   | (BToA, Response) \<Rightarrow> ''b''
   | (_, UnknownKind) \<Rightarrow> ''unknown'')"

definition service_side_from_message :: "stream_message \<Rightarrow> event \<Rightarrow> string" where
  "service_side_from_message m ev =
     (let handshake = Option.bind (msg_tls m) ti_handshake_type in
      if msg_protocol m = Tls
      then (case service_port_side ev (msg_direction m) [443, 8443] of
          Some side \<Rightarrow> side
        | None \<Rightarrow>
            if handshake = Some ''client_hello'' then destination_side_name (msg_direction m)
            else if handshake \<noteq> None then source_side_name (msg_direction m)
            else message_side (msg_direction m) (msg_kind m))
      else message_side (msg_direction m) (msg_kind m))"

definition service_evidence_from_message :: "stream_message \<Rightarrow> event \<Rightarrow> string" where
  "service_evidence_from_message m ev =
     (if msg_protocol m = Tls \<and> message_has_http_alpn m then ''tls_alpn_http''
      else if msg_protocol m = Tls \<and> tls_message_is_https m ev then ''https_port''
      else ev_event_type ev)"

definition service_from_message :: "stream_message \<Rightarrow> event \<Rightarrow> view_service" where
  "service_from_message m ev = \<lparr>vse_name = service_name_from_message m ev,
     vse_side = service_side_from_message m ev, vse_confidence = 100, vse_source = Some ''parser'',
     vse_evidence = Some (service_evidence_from_message m ev)\<rparr>"

definition should_replace_service :: "view_service \<Rightarrow> view_service \<Rightarrow> bool" where
  "should_replace_service current new \<longleftrightarrow>
     \<not> (vse_name current = ''https'' \<and> vse_name new = ''tls'')
     \<and> (vse_name current = ''unknown'' \<or> vse_confidence new \<ge> min (vse_confidence current + 5) 255
        \<or> (vse_name current = ''http'' \<and> vse_name new = ''websocket'')
        \<or> (vse_name current = ''tls'' \<and> vse_name new = ''https'')
        \<or> vse_source current \<noteq> Some ''parser'')"

definition content_kind_from_message :: "message_protocol \<Rightarrow> view_content_kind \<Rightarrow> view_content_kind" where
  "content_kind_from_message protocol current = (case protocol of
     Http1 \<Rightarrow> (case current of ViewKindUnknown \<Rightarrow> ViewText | ViewBinary \<Rightarrow> ViewMixed | k \<Rightarrow> k)
   | WebSocket \<Rightarrow> (case current of ViewKindUnknown \<Rightarrow> ViewMixed | ViewBinary \<Rightarrow> ViewMixed | k \<Rightarrow> k)
   | _ \<Rightarrow> (case current of ViewKindUnknown \<Rightarrow> ViewBinary | k \<Rightarrow> k))"

subsection \<open>Hiding and matching\<close>

fun hide_rule_matches :: "hide_rule \<Rightarrow> view_entry \<Rightarrow> bool" where
  "hide_rule_matches (HideStreamId stream_id) e \<longleftrightarrow> ve_stream_id e = stream_id"
| "hide_rule_matches (HideService service) e \<longleftrightarrow> eq_ignore_ascii_case (vse_name (ve_service e)) service"
| "hide_rule_matches (HideProtocol protocol) e \<longleftrightarrow> ve_protocol e = protocol"
| "hide_rule_matches (HidePort port) e \<longleftrightarrow> vep_port (ve_endpoint_a e) = port \<or> vep_port (ve_endpoint_b e) = port"
| "hide_rule_matches (HideContentKind kind) e \<longleftrightarrow> ve_content_kind e = kind"
| "hide_rule_matches (HideStatus status) e \<longleftrightarrow> ve_status e = status"
| "hide_rule_matches (HidePatternId pattern_id) e \<longleftrightarrow> pattern_id \<in> set (ve_pattern_ids e)"

definition matches_profile :: "view_entry \<Rightarrow> service_profile \<Rightarrow> bool" where
  "matches_profile e p =
     (if \<not> sp_enabled p then False
      else if (case sp_protocol p of None \<Rightarrow> False | Some protocol \<Rightarrow> ve_protocol e \<noteq> protocol) then False
      else if sp_id p = ''matched'' then ve_match_count e \<noteq> 0
      else
        (sp_services p \<noteq> [] \<and> list_ex (\<lambda>s. eq_ignore_ascii_case (vse_name (ve_service e)) s) (sp_services p))
        \<or> (sp_ports p \<noteq> [] \<and> list_ex (\<lambda>port. vep_port (ve_endpoint_a e) = port \<or> vep_port (ve_endpoint_b e) = port)
             (sp_ports p))
        \<or> (case sp_content_kind p of None \<Rightarrow> False | Some kind \<Rightarrow> ve_content_kind e = kind)
        \<or> (sp_pattern_ids p \<noteq> [] \<and> list_ex (\<lambda>i. i \<in> set (ve_pattern_ids e)) (sp_pattern_ids p)))"

definition hidden_reason :: "view_state \<Rightarrow> view_entry \<Rightarrow> string option" where
  "hidden_reason sv e =
     (if ve_stream_id e \<in> set (sv_manually_hidden sv) then Some ''manual''
      else map_option hide_rule_label (List.find (\<lambda>rule. hide_rule_matches rule e) (sv_hide_rules sv)))"

definition opt_rejects :: "'a option \<Rightarrow> ('a \<Rightarrow> bool) \<Rightarrow> bool" where
  "opt_rejects opt reject = (case opt of None \<Rightarrow> False | Some x \<Rightarrow> reject x)"

definition matches_query :: "view_state \<Rightarrow> view_entry \<Rightarrow> view_query \<Rightarrow> string option \<Rightarrow> bool" where
  "matches_query sv e q reason =
     (if reason \<noteq> None \<and> \<not> vq_include_hidden q then False
      else if vq_only_favorites q \<and> ve_stream_id e \<notin> set (sv_favorites sv) then False
      else if vq_only_matched q \<and> ve_match_count e = 0 then False
      else if opt_rejects (vq_profile q) (\<lambda>p. \<not> matches_profile e p) then False
      else if opt_rejects (vq_protocol q) (\<lambda>p. ve_protocol e \<noteq> p) then False
      else if opt_rejects (vq_service q) (\<lambda>s. \<not> eq_ignore_ascii_case (vse_name (ve_service e)) s) then False
      else if opt_rejects (vq_port q)
          (\<lambda>port. vep_port (ve_endpoint_a e) \<noteq> port \<and> vep_port (ve_endpoint_b e) \<noteq> port) then False
      else if opt_rejects (vq_content_kind q) (\<lambda>k. ve_content_kind e \<noteq> k) then False
      else if opt_rejects (vq_status q) (\<lambda>s. ve_status e \<noteq> s) then False
      else if opt_rejects (vq_pattern_id q) (\<lambda>i. i \<notin> set (ve_pattern_ids e)) then False
      else True)"

definition view_row_of :: "view_state \<Rightarrow> view_entry \<Rightarrow> string option \<Rightarrow> view_row" where
  "view_row_of sv e reason = \<lparr>vr_stream_id = ve_stream_id e,
     vr_stream_id_hex = view_stream_id_hex (ve_stream_id e), vr_content_shard = ve_content_shard e,
     vr_first_seen_us = ve_first_seen_us e, vr_last_seen_us = ve_last_seen_us e,
     vr_protocol = ve_protocol e, vr_endpoint_a = ve_endpoint_a e, vr_endpoint_b = ve_endpoint_b e,
     vr_service = ve_service e, vr_status = ve_status e, vr_content_kind = ve_content_kind e,
     vr_packets = ve_packets e, vr_bytes = ve_bytes e, vr_payload_bytes = ve_payload_bytes e,
     vr_stream_bytes = ve_stream_bytes e, vr_stream_chunks = ve_stream_chunks e,
     vr_match_count = ve_match_count e, vr_stored_match_count = length (ve_matches e),
     vr_pattern_ids = sort (ve_pattern_ids e), vr_favorite = (ve_stream_id e \<in> set (sv_favorites sv)),
     vr_hidden = (reason \<noteq> None), vr_hidden_reason = reason\<rparr>"

subsection \<open>Updates\<close>

definition unindex_pattern :: "u64w \<Rightarrow> (string \<times> u64w list) list \<Rightarrow> string \<Rightarrow> (string \<times> u64w list) list" where
  "unindex_pattern stream_id index pattern_id = (case map_of index pattern_id of
     None \<Rightarrow> index
   | Some ids \<Rightarrow>
       let ids = removeAll stream_id ids
       in if ids = [] then AList.delete pattern_id index else AList.update pattern_id ids index)"

definition view_remove_stream :: "view_state \<Rightarrow> u64w \<Rightarrow> bool \<times> view_state" where
  "view_remove_stream sv stream_id = (case map_of (sv_streams sv) stream_id of
     None \<Rightarrow> (False, sv)
   | Some e \<Rightarrow> (True, sv\<lparr>sv_streams := AList.delete stream_id (sv_streams sv),
       sv_stats := (sv_stats sv)\<lparr>
         vst_stored_matches := vst_stored_matches (sv_stats sv) - length (ve_matches e),
         vst_evicted_streams := sat_add (vst_evicted_streams (sv_stats sv)) 1\<rparr>,
       sv_favorites := removeAll stream_id (sv_favorites sv),
       sv_manually_hidden := removeAll stream_id (sv_manually_hidden sv),
       sv_matched_streams := removeAll stream_id (sv_matched_streams sv),
       sv_pattern_index := foldl (unindex_pattern stream_id) (sv_pattern_index sv) (ve_pattern_ids e)\<rparr>))"

text \<open>The loop pops the deque until a stream was removed.\<close>

fun view_evict_loop :: "view_state \<Rightarrow> u64w list \<Rightarrow> view_state" where
  "view_evict_loop sv [] = sv\<lparr>sv_order := []\<rparr>"
| "view_evict_loop sv (stream_id # q) =
     (case view_remove_stream (sv\<lparr>sv_order := q\<rparr>) stream_id of
        (True, sv1) \<Rightarrow> sv1
      | (False, sv1) \<Rightarrow> view_evict_loop sv1 q)"

definition view_evict_oldest :: "view_state \<Rightarrow> view_state" where
  "view_evict_oldest sv = view_evict_loop sv (sv_order sv)"

definition view_upsert_stream :: "view_state \<Rightarrow> view_entry \<Rightarrow> view_state" where
  "view_upsert_stream sv e =
     (let stream_id = ve_stream_id e in
      case map_of (sv_streams sv) stream_id of
        Some existing \<Rightarrow> sv\<lparr>sv_streams := AList.update stream_id
            (e\<lparr>ve_matches := ve_matches existing, ve_match_count := ve_match_count existing,
               ve_pattern_ids := ve_pattern_ids existing\<rparr>) (sv_streams sv)\<rparr>
      | None \<Rightarrow>
          let sv1 = (if length (sv_streams sv) \<ge> vc_max_streams (sv_config sv) then view_evict_oldest sv else sv)
          in if length (sv_streams sv1) \<ge> vc_max_streams (sv_config sv1) then sv1
             else sv1\<lparr>sv_order := sv_order sv1 @ [stream_id],
                      sv_streams := AList.update stream_id e (sv_streams sv1)\<rparr>)"

text \<open>A match among the retained ones of its entry; what is stored and dropped.\<close>

definition retain_match :: "nat \<Rightarrow> pattern_match list \<Rightarrow> pattern_match \<Rightarrow> view_stats \<Rightarrow> pattern_match list \<times> view_stats" where
  "retain_match mx ms m stats =
     (let (ms1, stats1) = (if length ms \<ge> mx
        then (tl ms, stats\<lparr>vst_stored_matches := vst_stored_matches stats - 1,
          vst_dropped_matches := sat_add (vst_dropped_matches stats) 1\<rparr>)
        else (ms, stats))
      in (ms1 @ [m], stats1\<lparr>vst_stored_matches := sat_add (vst_stored_matches stats1) 1\<rparr>))"

definition index_pattern :: "u64w \<Rightarrow> string \<Rightarrow> (string \<times> u64w list) list \<Rightarrow> (string \<times> u64w list) list" where
  "index_pattern stream_id pattern_id index =
     AList.update pattern_id (List.insert stream_id (case map_of index pattern_id of None \<Rightarrow> [] | Some ids \<Rightarrow> ids)) index"

definition view_observe_match :: "view_state \<Rightarrow> pattern_match \<Rightarrow> view_state" where
  "view_observe_match sv m =
     (let stream_id = pm_stream_id m; stats = sv_stats sv in
      case map_of (sv_streams sv) stream_id of
        None \<Rightarrow> sv\<lparr>sv_stats := stats\<lparr>vst_orphan_matches := sat_add (vst_orphan_matches stats) 1\<rparr>\<rparr>
      | Some e \<Rightarrow>
          let e1 = e\<lparr>ve_match_count := sat_add (ve_match_count e) 1,
                     ve_pattern_ids := List.insert (pm_pattern_id m) (ve_pattern_ids e)\<rparr>;
              sv1 = sv\<lparr>sv_matched_streams := List.insert stream_id (sv_matched_streams sv),
                       sv_pattern_index := index_pattern stream_id (pm_pattern_id m) (sv_pattern_index sv)\<rparr>
          in if vc_max_matches_per_stream (sv_config sv) = 0
             then sv1\<lparr>sv_streams := AList.update stream_id e1 (sv_streams sv1),
                      sv_stats := stats\<lparr>vst_dropped_matches := sat_add (vst_dropped_matches stats) 1\<rparr>\<rparr>
             else
               let (ms, stats1) = retain_match (vc_max_matches_per_stream (sv_config sv)) (ve_matches e1) m stats
               in sv1\<lparr>sv_streams := AList.update stream_id (e1\<lparr>ve_matches := ms\<rparr>) (sv_streams sv1),
                      sv_stats := stats1\<rparr>)"

definition view_observe_protocol_message :: "(json \<Rightarrow> stream_message option) \<Rightarrow> view_state \<Rightarrow> event \<Rightarrow> view_state" where
  "view_observe_protocol_message from_value sv ev = (case message_from_event from_value ev of
     None \<Rightarrow> sv
   | Some m \<Rightarrow>
       if msg_status m = ParseError then sv
       else (case map_of (sv_streams sv) (msg_stream_id m) of
         None \<Rightarrow> sv
       | Some e \<Rightarrow>
           let service = service_from_message m ev;
               e1 = (if should_replace_service (ve_service e) service then e\<lparr>ve_service := service\<rparr> else e);
               e2 = e1\<lparr>ve_content_kind := content_kind_from_message (msg_protocol m) (ve_content_kind e1)\<rparr>
           in sv\<lparr>sv_streams := AList.update (msg_stream_id m) e2 (sv_streams sv)\<rparr>))"

definition view_observe_event :: "(json \<Rightarrow> stream_message option) \<Rightarrow> view_state \<Rightarrow> event \<Rightarrow> view_state" where
  "view_observe_event from_value sv ev =
     (if \<not> vc_enabled (sv_config sv) then sv
      else if ev_analyzer ev = ''stream_inventory''
        \<and> (ev_event_type ev = ''stream_open'' \<or> ev_event_type ev = ''stream_update'')
      then (case view_entry_from_event ev of None \<Rightarrow> sv | Some e \<Rightarrow> view_upsert_stream sv e)
      else if ev_analyzer ev = ''pattern'' \<and> ev_event_type ev = ''pattern_match''
      then (case pattern_match_from_event ev of None \<Rightarrow> sv | Some m \<Rightarrow> view_observe_match sv m)
      else if ev_analyzer ev = ''protocol_message'' then view_observe_protocol_message from_value sv ev
      else sv)"

definition view_observe_events :: "(json \<Rightarrow> stream_message option) \<Rightarrow> view_state \<Rightarrow> event list \<Rightarrow> view_state" where
  "view_observe_events from_value sv evs =
     (if \<not> vc_enabled (sv_config sv) then sv else foldl (view_observe_event from_value) sv evs)"

definition view_set_favorite :: "view_state \<Rightarrow> u64w \<Rightarrow> bool \<Rightarrow> bool \<times> view_state" where
  "view_set_favorite sv stream_id favorite =
     (if map_of (sv_streams sv) stream_id = None then (False, sv)
      else (True, sv\<lparr>sv_favorites :=
        (if favorite then List.insert stream_id (sv_favorites sv) else removeAll stream_id (sv_favorites sv))\<rparr>))"

definition view_set_hidden :: "view_state \<Rightarrow> u64w \<Rightarrow> bool \<Rightarrow> bool \<times> view_state" where
  "view_set_hidden sv stream_id hidden =
     (if map_of (sv_streams sv) stream_id = None then (False, sv)
      else (True, sv\<lparr>sv_manually_hidden :=
        (if hidden then List.insert stream_id (sv_manually_hidden sv)
         else removeAll stream_id (sv_manually_hidden sv))\<rparr>))"

definition view_add_hide_rule :: "view_state \<Rightarrow> hide_rule \<Rightarrow> view_state" where
  "view_add_hide_rule sv rule = (let rule = hide_rule_normalized rule in
     if rule \<in> set (sv_hide_rules sv) then sv else sv\<lparr>sv_hide_rules := sv_hide_rules sv @ [rule]\<rparr>)"

definition view_clear_hide_rules :: "view_state \<Rightarrow> view_state" where
  "view_clear_hide_rules sv = sv\<lparr>sv_hide_rules := []\<rparr>"

subsection \<open>Queries\<close>

definition view_limit :: "view_state \<Rightarrow> view_query \<Rightarrow> nat" where
  "view_limit sv q = min (max (vq_limit q) 1) (max (vc_max_query_limit (sv_config sv)) 1)"

text \<open>The loop over the deque from an index.\<close>

fun view_query_loop ::
  "view_state \<Rightarrow> view_query \<Rightarrow> nat \<Rightarrow> u64w list \<Rightarrow> view_row list \<Rightarrow> nat \<Rightarrow> view_query_result" where
  "view_query_loop sv q index [] rows scanned =
     \<lparr>vqr_rows = rows, vqr_next_cursor = None, vqr_scanned = scanned\<rparr>"
| "view_query_loop sv q index (stream_id # ids) rows scanned =
     (case map_of (sv_streams sv) stream_id of
        None \<Rightarrow> view_query_loop sv q (index + 1) ids rows scanned
      | Some e \<Rightarrow>
          let scanned = sat_add scanned 1; reason = hidden_reason sv e in
          if \<not> matches_query sv e q reason then view_query_loop sv q (index + 1) ids rows scanned
          else
            let rows = rows @ [view_row_of sv e reason] in
            if length rows = view_limit sv q
            then \<lparr>vqr_rows = rows,
              vqr_next_cursor = (if index + 1 < length (sv_order sv) then Some (index + 1) else None),
              vqr_scanned = scanned\<rparr>
            else view_query_loop sv q (index + 1) ids rows scanned)"

definition view_query_streams :: "view_state \<Rightarrow> view_query \<Rightarrow> view_query_result" where
  "view_query_streams sv q =
     (if \<not> vc_enabled (sv_config sv) then \<lparr>vqr_rows = [], vqr_next_cursor = None, vqr_scanned = 0\<rparr>
      else let start = min (vq_cursor q) (length (sv_order sv))
        in view_query_loop sv q start (drop start (sv_order sv)) [] 0)"

definition view_stream_row :: "view_state \<Rightarrow> u64w \<Rightarrow> view_row option" where
  "view_stream_row sv stream_id =
     map_option (\<lambda>e. view_row_of sv e (hidden_reason sv e)) (map_of (sv_streams sv) stream_id)"

definition view_stream_matches :: "view_state \<Rightarrow> u64w \<Rightarrow> pattern_match list option" where
  "view_stream_matches sv stream_id = map_option ve_matches (map_of (sv_streams sv) stream_id)"

definition profile_stats_step :: "view_state \<Rightarrow> service_profile \<Rightarrow> service_profile_stats \<Rightarrow> u64w \<Rightarrow> service_profile_stats" where
  "profile_stats_step sv p stats stream_id = (case map_of (sv_streams sv) stream_id of
     None \<Rightarrow> stats
   | Some e \<Rightarrow>
       if \<not> matches_profile e p then stats
       else
         let s1 = stats\<lparr>sps_total_streams := sat_add (sps_total_streams stats) 1\<rparr>;
             s2 = (if ve_match_count e \<noteq> 0
               then s1\<lparr>sps_matched_streams := sat_add (sps_matched_streams s1) 1\<rparr> else s1);
             s3 = (if ve_stream_id e \<in> set (sv_favorites sv)
               then s2\<lparr>sps_favorite_streams := sat_add (sps_favorite_streams s2) 1\<rparr> else s2)
         in if hidden_reason sv e \<noteq> None
            then s3\<lparr>sps_hidden_streams := sat_add (sps_hidden_streams s3) 1\<rparr>
            else s3\<lparr>sps_visible_streams := sat_add (sps_visible_streams s3) 1\<rparr>)"

definition view_profile_stats :: "view_state \<Rightarrow> service_profile \<Rightarrow> service_profile_stats" where
  "view_profile_stats sv p =
     (let zero = \<lparr>sps_total_streams = 0, sps_visible_streams = 0, sps_hidden_streams = 0,
            sps_matched_streams = 0, sps_favorite_streams = 0\<rparr>
      in if \<not> vc_enabled (sv_config sv) then zero else foldl (profile_stats_step sv p) zero (sv_order sv))"

definition view_primary_profile :: "view_state \<Rightarrow> service_profile list \<Rightarrow> u64w \<Rightarrow> service_profile option" where
  "view_primary_profile sv profiles stream_id =
     Option.bind (map_of (sv_streams sv) stream_id) (\<lambda>e. List.find (matches_profile e) profiles)"

definition view_stats_of :: "view_state \<Rightarrow> view_stats" where
  "view_stats_of sv = (sv_stats sv)\<lparr>vst_tracked_streams := length (sv_streams sv),
     vst_favorite_streams := length (sv_favorites sv),
     vst_manually_hidden_streams := length (sv_manually_hidden sv),
     vst_matched_streams := length (sv_matched_streams sv),
     vst_hide_rules := length (sv_hide_rules sv)\<rparr>"

end
