(* ===== verification/Stream_Inventory.thy ===== *)
theory Stream_Inventory
  imports Registry Flow_Table Protocol_Detection Stream_Content View_Types
begin

text \<open>
  The stream inventory, the whole of \<^verbatim>\<open>src/src/stream_inventory.rs\<close> but its trivial getters: one record
  per flow with its counters, previews, content samples, service guess and status, the bounded table of
  these records and the events \<^verbatim>\<open>stream_open\<close> and \<^verbatim>\<open>stream_update\<close> it emits.  The base64 encoder is the
  parameter \<open>b64\<close>.
\<close>

subsection \<open>Configuration and records\<close>

record inventory_config =
  ic_enabled :: bool
  ic_max_streams :: nat
  ic_idle_timeout_ms :: nat
  ic_preview_bytes :: nat
  ic_update_packet_interval :: nat
  ic_update_byte_interval :: nat

definition inventory_disabled :: inventory_config where
  "inventory_disabled = \<lparr>ic_enabled = False, ic_max_streams = 0, ic_idle_timeout_ms = 0,
     ic_preview_bytes = 0, ic_update_packet_interval = 0, ic_update_byte_interval = 0\<rparr>"

record inventory_stats =
  ivs_active_streams :: nat
  ivs_created_streams :: nat
  ivs_evicted_streams :: nat
  ivs_dropped_new_streams :: nat
  ivs_closed_streams :: nat
  ivs_stream_events :: nat

definition inventory_stats_default :: inventory_stats where
  "inventory_stats_default = \<lparr>ivs_active_streams = 0, ivs_created_streams = 0, ivs_evicted_streams = 0,
     ivs_dropped_new_streams = 0, ivs_closed_streams = 0, ivs_stream_events = 0\<rparr>"

datatype stream_status = StatusOpen | StatusClosing | StatusClosed

datatype content_kind = KindUnknown | KindText | KindBinary | KindMixed

record content_sampler =
  smp_sampled :: nat
  smp_printable :: nat
  smp_whitespace :: nat
  smp_control :: nat
  smp_nulls :: nat

record inventory_direction =
  ird_packets :: nat
  ird_bytes :: nat
  ird_payload_bytes :: nat
  ird_stream_bytes :: nat
  ird_stream_chunks :: nat
  ird_first_sequence :: "u32 option"
  ird_last_sequence :: "u32 option"
  ird_fin_seen :: bool
  ird_preview :: bytes
  ird_content :: content_sampler

text \<open>\<^verbatim>\<open>ServiceGuess\<close> has the fields of \<^verbatim>\<open>ProtocolDetection\<close> and is converted from and to it.\<close>

type_synonym service_guess = protocol_detection

record inventory_record =
  ir_id :: u64w
  ir_key :: flow_key
  ir_content_shard :: "nat option"
  ir_service :: service_guess
  ir_first_seen_us :: nat
  ir_last_seen_us :: nat
  ir_packets :: nat
  ir_bytes :: nat
  ir_payload_bytes :: nat
  ir_stream_bytes :: nat
  ir_stream_chunks :: nat
  ir_directions :: "inventory_direction \<times> inventory_direction"
  ir_status :: stream_status
  ir_last_emitted_packets :: nat
  ir_last_emitted_stream_bytes :: nat

record stream_inventory =
  iv_config :: inventory_config
  iv_streams :: "(flow_key \<times> inventory_record) list"
  iv_observed_packets :: nat
  iv_stats :: inventory_stats

definition inventory_new :: "inventory_config \<Rightarrow> stream_inventory" where
  "inventory_new config = \<lparr>iv_config = config, iv_streams = [], iv_observed_packets = 0,
     iv_stats = inventory_stats_default\<rparr>"

definition inventory_stats_of :: "stream_inventory \<Rightarrow> inventory_stats" where
  "inventory_stats_of iv = (iv_stats iv)\<lparr>ivs_active_streams := length (iv_streams iv)\<rparr>"

subsection \<open>Content kinds\<close>

definition content_sample_limit :: nat where
  "content_sample_limit = 4096"

definition sampler_default :: content_sampler where
  "sampler_default = \<lparr>smp_sampled = 0, smp_printable = 0, smp_whitespace = 0, smp_control = 0, smp_nulls = 0\<rparr>"

definition sample_byte :: "content_sampler \<Rightarrow> u8 \<Rightarrow> content_sampler" where
  "sample_byte s b = (let s = s\<lparr>smp_sampled := smp_sampled s + 1\<rparr> in
     if b = 0 then s\<lparr>smp_nulls := smp_nulls s + 1\<rparr>
     else if b = 10 \<or> b = 13 \<or> b = 9 \<or> b = 32 then s\<lparr>smp_whitespace := smp_whitespace s + 1\<rparr>
     else if 0x20 \<le> b \<and> b \<le> 0x7e then s\<lparr>smp_printable := smp_printable s + 1\<rparr>
     else if (1 \<le> b \<and> b \<le> 0x1f) \<or> b = 0x7f then s\<lparr>smp_control := smp_control s + 1\<rparr>
     else s\<lparr>smp_printable := smp_printable s + 1\<rparr>)"

definition sampler_observe :: "content_sampler \<Rightarrow> bytes \<Rightarrow> content_sampler" where
  "sampler_observe s bs =
     (if smp_sampled s \<ge> content_sample_limit then s
      else foldl sample_byte s (take (min (content_sample_limit - smp_sampled s) (length bs)) bs))"

definition sampler_kind :: "content_sampler \<Rightarrow> content_kind" where
  "sampler_kind s =
     (if smp_sampled s = 0 then KindUnknown
      else if smp_nulls s \<noteq> 0 \<or> sat_mul (smp_control s) 100 div smp_sampled s > 5 then KindBinary
      else if sat_mul (sat_add (smp_printable s) (smp_whitespace s)) 100 div smp_sampled s \<ge> 90 then KindText
      else KindMixed)"

fun combine_content_kind :: "content_kind \<Rightarrow> content_kind \<Rightarrow> content_kind" where
  "combine_content_kind KindUnknown k = k"
| "combine_content_kind k KindUnknown = k"
| "combine_content_kind KindBinary KindText = KindMixed"
| "combine_content_kind KindText KindBinary = KindMixed"
| "combine_content_kind KindMixed _ = KindMixed"
| "combine_content_kind _ KindMixed = KindMixed"
| "combine_content_kind KindBinary KindBinary = KindBinary"
| "combine_content_kind KindText KindText = KindText"

definition is_text_framed_service :: "string \<Rightarrow> bool" where
  "is_text_framed_service service \<longleftrightarrow> service \<in> set [''http'', ''http2'', ''websocket'', ''ssh'', ''smtp'',
     ''ftp'', ''redis'', ''memcached'', ''pop3'', ''imap'']"

definition adjust_content_kind :: "service_guess \<Rightarrow> content_kind \<Rightarrow> content_kind" where
  "adjust_content_kind service kind =
     (if kind \<noteq> KindBinary then kind
      else if is_text_framed_service (pd_service service) then KindMixed else kind)"

fun stream_status_as_str :: "stream_status \<Rightarrow> string" where
  "stream_status_as_str StatusOpen = ''open''"
| "stream_status_as_str StatusClosing = ''closing''"
| "stream_status_as_str StatusClosed = ''closed''"

fun content_kind_as_str :: "content_kind \<Rightarrow> string" where
  "content_kind_as_str KindUnknown = ''unknown''"
| "content_kind_as_str KindText = ''text''"
| "content_kind_as_str KindBinary = ''binary''"
| "content_kind_as_str KindMixed = ''mixed''"

definition service_observe_payload :: "service_guess \<Rightarrow> flow_key \<Rightarrow> flow_direction \<Rightarrow> bytes \<Rightarrow> service_guess" where
  "service_observe_payload service key direction bs =
     (case detect_payload key direction bs of None \<Rightarrow> service
      | Some detection \<Rightarrow> detection_merge service detection)"

subsection \<open>Operations of a record\<close>

definition inventory_direction_default :: inventory_direction where
  "inventory_direction_default = \<lparr>ird_packets = 0, ird_bytes = 0, ird_payload_bytes = 0,
     ird_stream_bytes = 0, ird_stream_chunks = 0, ird_first_sequence = None, ird_last_sequence = None,
     ird_fin_seen = False, ird_preview = [], ird_content = sampler_default\<rparr>"

definition inventory_timestamp_us :: "packet_timestamp \<Rightarrow> nat" where
  "inventory_timestamp_us ts = sat_add (sat_mul (ts_sec ts) 1000000) (ts_usec ts)"

definition inventory_record_new :: "flow_key \<Rightarrow> nat \<Rightarrow> inventory_record" where
  "inventory_record_new key now_us = \<lparr>ir_id = stable_id key, ir_key = key, ir_content_shard = None,
     ir_service = detection_from_port key, ir_first_seen_us = now_us, ir_last_seen_us = now_us,
     ir_packets = 0, ir_bytes = 0, ir_payload_bytes = 0, ir_stream_bytes = 0, ir_stream_chunks = 0,
     ir_directions = (inventory_direction_default, inventory_direction_default),
     ir_status = StatusOpen, ir_last_emitted_packets = 0, ir_last_emitted_stream_bytes = 0\<rparr>"

definition ir_observe_packet :: "inventory_record \<Rightarrow> decoded_packet \<Rightarrow> flow_direction \<Rightarrow> inventory_record" where
  "ir_observe_packet r packet direction =
     (let len = length (dp_raw packet);
          payload_bytes = (case transport_payload_of packet of None \<Rightarrow> 0 | Some t \<Rightarrow> length (tp_bytes t));
          d = dir_get (ir_directions r) direction
      in r\<lparr>ir_last_seen_us := inventory_timestamp_us (dp_timestamp packet),
           ir_packets := sat_add (ir_packets r) 1,
           ir_bytes := sat_add (ir_bytes r) len,
           ir_payload_bytes := sat_add (ir_payload_bytes r) payload_bytes,
           ir_directions := dir_upd direction (d\<lparr>ird_packets := sat_add (ird_packets d) 1,
             ird_bytes := sat_add (ird_bytes d) len,
             ird_payload_bytes := sat_add (ird_payload_bytes d) payload_bytes\<rparr>) (ir_directions r)\<rparr>)"

definition ir_observe_tcp_status :: "inventory_record \<Rightarrow> flow_direction \<Rightarrow> sequence_status \<Rightarrow> inventory_record" where
  "ir_observe_tcp_status r direction status = (case status of
     Reset \<Rightarrow> r\<lparr>ir_status := StatusClosed\<rparr>
   | Fin \<Rightarrow>
       let directions = dir_upd direction ((dir_get (ir_directions r) direction)\<lparr>ird_fin_seen := True\<rparr>)
             (ir_directions r)
       in r\<lparr>ir_directions := directions,
            ir_status := (if ird_fin_seen (fst directions) \<and> ird_fin_seen (snd directions)
              then StatusClosed else StatusClosing)\<rparr>
   | _ \<Rightarrow> r)"

definition extend_preview :: "bytes \<Rightarrow> bytes \<Rightarrow> nat \<Rightarrow> bytes" where
  "extend_preview preview bs limit =
     (if length preview \<ge> limit then preview
      else preview @ take (min (limit - length preview) (length bs)) bs)"

definition ir_observe_payload_unit ::
  "inventory_record \<Rightarrow> flow_direction \<Rightarrow> bytes \<Rightarrow> (u32 \<times> u32) option \<Rightarrow> nat \<Rightarrow> inventory_record" where
  "ir_observe_payload_unit r direction bs seqs preview_limit =
     (if bs = [] then r
      else
        let d = dir_get (ir_directions r) direction;
            d1 = d\<lparr>ird_stream_bytes := sat_add (ird_stream_bytes d) (length bs),
                   ird_stream_chunks := sat_add (ird_stream_chunks d) 1\<rparr>;
            d2 = (case seqs of None \<Rightarrow> d1
              | Some (start, stop) \<Rightarrow> d1\<lparr>ird_first_sequence :=
                    (case ird_first_sequence d1 of None \<Rightarrow> Some start | Some s \<Rightarrow> Some s),
                  ird_last_sequence := Some stop\<rparr>);
            d3 = d2\<lparr>ird_preview := extend_preview (ird_preview d2) bs preview_limit,
                    ird_content := sampler_observe (ird_content d2) bs\<rparr>
        in r\<lparr>ir_service := service_observe_payload (ir_service r) (ir_key r) direction bs,
             ir_stream_bytes := sat_add (ir_stream_bytes r) (length bs),
             ir_stream_chunks := sat_add (ir_stream_chunks r) 1,
             ir_directions := dir_upd direction d3 (ir_directions r)\<rparr>)"

definition ir_observe_stream_chunk :: "nat \<Rightarrow> inventory_record \<Rightarrow> stream_chunk \<Rightarrow> inventory_record" where
  "ir_observe_stream_chunk preview_limit r chunk =
     ir_observe_payload_unit r (ch_direction chunk) (as_slice (ch_bytes chunk))
       (Some (ch_start chunk, ch_end chunk)) preview_limit"

definition ir_content_kind :: "inventory_record \<Rightarrow> content_kind" where
  "ir_content_kind r = adjust_content_kind (ir_service r)
     (combine_content_kind (sampler_kind (ird_content (fst (ir_directions r))))
        (sampler_kind (ird_content (snd (ir_directions r)))))"

definition ir_should_emit_update :: "inventory_record \<Rightarrow> nat \<Rightarrow> nat \<Rightarrow> bool \<Rightarrow> bool" where
  "ir_should_emit_update r packet_interval byte_interval force_update \<longleftrightarrow> force_update
     \<or> (packet_interval \<noteq> 0 \<and> ir_packets r - ir_last_emitted_packets r \<ge> packet_interval)
     \<or> (byte_interval \<noteq> 0 \<and> ir_stream_bytes r - ir_last_emitted_stream_bytes r \<ge> byte_interval)"

definition ir_mark_emitted :: "inventory_record \<Rightarrow> inventory_record" where
  "ir_mark_emitted r = r\<lparr>ir_last_emitted_packets := ir_packets r,
     ir_last_emitted_stream_bytes := ir_stream_bytes r\<rparr>"

subsection \<open>Events\<close>

definition json_u64_option :: "nat option \<Rightarrow> json" where
  "json_u64_option v = (case v of None \<Rightarrow> JNull | Some n \<Rightarrow> JU64 n)"

definition preview_char :: "u8 \<Rightarrow> string" where
  "preview_char b = (if b = 10 then [CHR 0x5C, CHR ''n''] else if b = 13 then [CHR 0x5C, CHR ''r'']
     else if b = 9 then [CHR 0x5C, CHR ''t'']
     else if 0x20 \<le> b \<and> b \<le> 0x7e then [byte_char b] else ''.'')"

definition inventory_preview_text :: "bytes \<Rightarrow> content_kind \<Rightarrow> string option" where
  "inventory_preview_text bs kind =
     (if (kind \<noteq> KindText \<and> kind \<noteq> KindMixed) \<or> bs = [] then None
      else Some (concat (map preview_char bs)))"

definition ird_fields :: "(bytes \<Rightarrow> string) \<Rightarrow> inventory_direction \<Rightarrow> json" where
  "ird_fields b64 d = JObject
     [(''packets'', JU64 (ird_packets d)),
      (''bytes'', JU64 (ird_bytes d)),
      (''payload_bytes'', JU64 (ird_payload_bytes d)),
      (''stream_bytes'', JU64 (ird_stream_bytes d)),
      (''stream_chunks'', JU64 (ird_stream_chunks d)),
      (''first_sequence'', json_u64_option (map_option unat (ird_first_sequence d))),
      (''last_sequence'', json_u64_option (map_option unat (ird_last_sequence d))),
      (''content_kind'', JString (content_kind_as_str (sampler_kind (ird_content d)))),
      (''preview_base64'', JString (b64 (ird_preview d))),
      (''preview_text'', (case inventory_preview_text (ird_preview d) (sampler_kind (ird_content d)) of
         None \<Rightarrow> JNull | Some t \<Rightarrow> JString t))]"

text \<open>\<^verbatim>\<open>IpAddr\<close> serialises to its text.\<close>

definition endpoint_fields :: "endpoint \<Rightarrow> json" where
  "endpoint_fields e = JObject
     [(''addr'', JString (case ep_addr e of V4 a \<Rightarrow> show_ipv4 a | V6 a \<Rightarrow> show_ipv6 a)),
      (''port'', JU64 (unat (ep_port e)))]"

definition ir_fields :: "(bytes \<Rightarrow> string) \<Rightarrow> inventory_record \<Rightarrow> json" where
  "ir_fields b64 r = JObject
     [(''stream_id'', JString (hex_fixed 16 (unat (ir_id r)))),
      (''first_seen_us'', JU64 (ir_first_seen_us r)),
      (''last_seen_us'', JU64 (ir_last_seen_us r)),
      (''protocol'', JString (view_protocol_name (fk_protocol (ir_key r)))),
      (''endpoint_a'', endpoint_fields (fk_a (ir_key r))),
      (''endpoint_b'', endpoint_fields (fk_b (ir_key r))),
      (''content_shard'', json_u64_option (ir_content_shard r)),
      (''service'', JObject
         [(''name'', JString (pd_service (ir_service r))),
          (''side'', JString (service_side_as_str (pd_side (ir_service r)))),
          (''confidence'', JU64 (pd_confidence (ir_service r))),
          (''source'', JString (detection_source_as_str (pd_source (ir_service r)))),
          (''evidence'', JString (pd_evidence (ir_service r)))]),
      (''status'', JString (stream_status_as_str (ir_status r))),
      (''content_kind'', JString (content_kind_as_str (ir_content_kind r))),
      (''packets'', JU64 (ir_packets r)),
      (''bytes'', JU64 (ir_bytes r)),
      (''payload_bytes'', JU64 (ir_payload_bytes r)),
      (''stream_bytes'', JU64 (ir_stream_bytes r)),
      (''stream_chunks'', JU64 (ir_stream_chunks r)),
      (''directions'', JObject
         [(''a_to_b'', ird_fields b64 (fst (ir_directions r))),
          (''b_to_a'', ird_fields b64 (snd (ir_directions r)))])]"

subsection \<open>The table\<close>

definition iv_should_evict :: "stream_inventory \<Rightarrow> bool" where
  "iv_should_evict iv \<longleftrightarrow> iv_observed_packets iv \<noteq> 0 \<and> iv_observed_packets iv mod 16384 = 0"

definition iv_count_evicted :: "nat \<Rightarrow> inventory_stats \<Rightarrow> inventory_stats" where
  "iv_count_evicted n s = s\<lparr>ivs_evicted_streams := sat_add (ivs_evicted_streams s) n\<rparr>"

definition iv_evict_idle :: "stream_inventory \<Rightarrow> nat \<Rightarrow> stream_inventory" where
  "iv_evict_idle iv now_us =
     (let timeout_us = sat_mul (ic_idle_timeout_ms (iv_config iv)) 1000;
          kept = filter (\<lambda>(_, r). now_us - ir_last_seen_us r \<le> timeout_us) (iv_streams iv)
      in iv\<lparr>iv_streams := kept,
            iv_stats := iv_count_evicted (length (iv_streams iv) - length kept) (iv_stats iv)\<rparr>)"

definition iv_evict_oldest :: "stream_inventory \<Rightarrow> stream_inventory" where
  "iv_evict_oldest iv = (case min_by_key (ir_last_seen_us \<circ> snd) (iv_streams iv) of
     None \<Rightarrow> iv
   | Some (key, _) \<Rightarrow> iv\<lparr>iv_streams := AList.delete key (iv_streams iv),
       iv_stats := iv_count_evicted 1 (iv_stats iv)\<rparr>)"

text \<open>Room for a new stream, as the code makes it when the table is full.\<close>

definition iv_make_room :: "stream_inventory \<Rightarrow> nat \<Rightarrow> stream_inventory" where
  "iv_make_room iv now_us =
     (if length (iv_streams iv) \<ge> ic_max_streams (iv_config iv)
      then let iv1 = iv_evict_idle iv now_us in
        if length (iv_streams iv1) \<ge> ic_max_streams (iv_config iv1) then iv_evict_oldest iv1 else iv1
      else iv)"

definition iv_ensure_stream :: "stream_inventory \<Rightarrow> flow_key \<Rightarrow> nat \<Rightarrow> bool option \<times> stream_inventory" where
  "iv_ensure_stream iv key now_us =
     (if map_of (iv_streams iv) key \<noteq> None then (Some False, iv)
      else
        let iv1 = iv_make_room iv now_us; stats = iv_stats iv1 in
        if length (iv_streams iv1) \<ge> ic_max_streams (iv_config iv1)
        then (None, iv1\<lparr>iv_stats := stats\<lparr>ivs_dropped_new_streams := sat_add (ivs_dropped_new_streams stats) 1\<rparr>\<rparr>)
        else (Some True,
          iv1\<lparr>iv_streams := AList.update key (inventory_record_new key now_us) (iv_streams iv1),
              iv_stats := stats\<lparr>ivs_created_streams := sat_add (ivs_created_streams stats) 1\<rparr>\<rparr>))"

text \<open>What one packet of a flow does to its record.\<close>

definition ir_observe :: "nat \<Rightarrow> decoded_packet \<Rightarrow> flow_observation \<Rightarrow> nat option \<Rightarrow> inventory_record \<Rightarrow> inventory_record" where
  "ir_observe preview_limit packet flow content_shard r =
     (let r1 = r\<lparr>ir_content_shard := (case content_shard of None \<Rightarrow> ir_content_shard r | Some s \<Rightarrow> Some s)\<rparr>;
          r2 = ir_observe_packet r1 packet (fo_direction flow)
      in case fo_tcp flow of
        Some tcp \<Rightarrow> foldl (ir_observe_stream_chunk preview_limit)
            (ir_observe_tcp_status r2 (fo_direction flow) (to_status tcp)) (to_chunks tcp)
      | None \<Rightarrow> (case transport_payload_of packet of
          None \<Rightarrow> r2
        | Some transport \<Rightarrow> ir_observe_payload_unit r2 (fo_direction flow) (tp_bytes transport) None preview_limit))"

definition ir_force_update :: "inventory_record \<Rightarrow> inventory_record \<Rightarrow> bool" where
  "ir_force_update previous r \<longleftrightarrow> ir_status previous \<noteq> ir_status r
     \<or> ir_content_kind previous \<noteq> ir_content_kind r \<or> ir_service previous \<noteq> ir_service r
     \<or> ir_content_shard previous \<noteq> ir_content_shard r"

text \<open>The packet is counted and, at the interval, idle streams are evicted.\<close>

definition iv_begin_observe :: "stream_inventory \<Rightarrow> nat \<Rightarrow> stream_inventory" where
  "iv_begin_observe iv now_us =
     (let iv1 = iv\<lparr>iv_observed_packets := sat_add (iv_observed_packets iv) 1\<rparr>
      in if iv_should_evict iv1 then iv_evict_idle iv1 now_us else iv1)"

text \<open>The kind of event a packet causes, and the record it leaves.\<close>

definition ir_event :: "inventory_config \<Rightarrow> bool \<Rightarrow> inventory_record \<Rightarrow> inventory_record \<Rightarrow> string option \<times> inventory_record" where
  "ir_event config created previous r =
     (if created then (Some ''stream_open'', ir_mark_emitted r)
      else if ir_should_emit_update r (ic_update_packet_interval config) (ic_update_byte_interval config)
          (ir_force_update previous r)
        then (Some ''stream_update'', ir_mark_emitted r)
      else (None, r))"

definition iv_count_closed :: "bool \<Rightarrow> inventory_stats \<Rightarrow> inventory_stats" where
  "iv_count_closed closed_now s =
     (if closed_now then s\<lparr>ivs_closed_streams := sat_add (ivs_closed_streams s) 1\<rparr> else s)"

definition iv_count_event :: "inventory_stats \<Rightarrow> inventory_stats" where
  "iv_count_event s = s\<lparr>ivs_stream_events := sat_add (ivs_stream_events s) 1\<rparr>"

definition iv_observe_flow ::
  "(bytes \<Rightarrow> string) \<Rightarrow> stream_inventory \<Rightarrow> decoded_packet \<Rightarrow> flow_observation \<Rightarrow> nat option \<Rightarrow> event list \<Rightarrow>
   stream_inventory \<times> event list" where
  "iv_observe_flow b64 iv packet flow content_shard events =
     (if \<not> ic_enabled (iv_config iv) then (iv, events)
      else
        let now_us = inventory_timestamp_us (dp_timestamp packet);
            (created, iv1) = iv_ensure_stream (iv_begin_observe iv now_us) (fo_key flow) now_us
        in case created of
          None \<Rightarrow> (iv1, events)
        | Some created \<Rightarrow>
            (case map_of (iv_streams iv1) (fo_key flow) of
              None \<Rightarrow> (iv1, events)
            | Some previous \<Rightarrow>
                let r = ir_observe (ic_preview_bytes (iv_config iv1)) packet flow content_shard previous;
                    (event_type, r1) = ir_event (iv_config iv1) created previous r;
                    stats1 = iv_count_closed
                      (ir_status previous \<noteq> StatusClosed \<and> ir_status r = StatusClosed) (iv_stats iv1);
                    iv2 = iv1\<lparr>iv_streams := AList.update (fo_key flow) r1 (iv_streams iv1)\<rparr>
                in (case event_type of
                     None \<Rightarrow> (iv2\<lparr>iv_stats := stats1\<rparr>, events)
                   | Some event_type \<Rightarrow>
                       (iv2\<lparr>iv_stats := iv_count_event stats1\<rparr>,
                        events @ [event_from_packet ''stream_inventory'' event_type packet
                          (length (dp_raw packet)) (ir_fields b64 r1)]))))"

end
