(* ===== verification/Inventory_Correctness.thy ===== *)
theory Inventory_Correctness
  imports Stream_Inventory
begin

text \<open>
  The inventory's invariant (bounded table, accounting of the streams created and evicted, previews and
  content samples within their limits, identifiers derived from the keys), kept by every packet, with the
  interpretation of the contract of bounded tables.
\<close>

subsection \<open>Records\<close>

definition sampler_ok :: "content_sampler \<Rightarrow> bool" where
  "sampler_ok s \<longleftrightarrow> smp_sampled s \<le> content_sample_limit
     \<and> smp_sampled s = smp_printable s + smp_whitespace s + smp_control s + smp_nulls s"

definition inventory_direction_ok :: "nat \<Rightarrow> inventory_direction \<Rightarrow> bool" where
  "inventory_direction_ok limit d \<longleftrightarrow> length (ird_preview d) \<le> limit \<and> sampler_ok (ird_content d)"

definition inventory_record_ok :: "nat \<Rightarrow> flow_key \<Rightarrow> inventory_record \<Rightarrow> bool" where
  "inventory_record_ok limit key r \<longleftrightarrow> ir_key r = key \<and> ir_id r = stable_id key
     \<and> pd_confidence (ir_service r) \<le> 100
     \<and> inventory_direction_ok limit (fst (ir_directions r)) \<and> inventory_direction_ok limit (snd (ir_directions r))"

lemma sample_byte_counts:
  "smp_sampled (sample_byte s b) = smp_sampled s + 1"
  "smp_printable (sample_byte s b) + smp_whitespace (sample_byte s b) + smp_control (sample_byte s b)
     + smp_nulls (sample_byte s b)
   = smp_printable s + smp_whitespace s + smp_control s + smp_nulls s + 1"
  by (simp_all add: sample_byte_def Let_def)

lemma foldl_sample_byte_counts:
  "smp_sampled (foldl sample_byte s bs) = smp_sampled s + length bs"
  "smp_printable (foldl sample_byte s bs) + smp_whitespace (foldl sample_byte s bs)
     + smp_control (foldl sample_byte s bs) + smp_nulls (foldl sample_byte s bs)
   = smp_printable s + smp_whitespace s + smp_control s + smp_nulls s + length bs"
  by (induction bs arbitrary: s) (simp_all add: sample_byte_counts)

lemma sampler_observe_ok: "sampler_ok s \<Longrightarrow> sampler_ok (sampler_observe s bs)"
  by (auto simp: sampler_ok_def sampler_observe_def foldl_sample_byte_counts min_def)

lemma extend_preview_length: "length preview \<le> limit \<Longrightarrow> length (extend_preview preview bs limit) \<le> limit"
  by (auto simp: extend_preview_def min_def)

lemma dir_pair_cases: "(\<forall>d. P (dir_get p d)) \<longleftrightarrow> P (fst p) \<and> P (snd p)"
  by (metis (full_types) dir_get.simps flow_direction.exhaust prod.collapse)

lemma inventory_record_ok_alt:
  "inventory_record_ok limit key r \<longleftrightarrow> ir_key r = key \<and> ir_id r = stable_id key
     \<and> pd_confidence (ir_service r) \<le> 100 \<and> (\<forall>d. inventory_direction_ok limit (dir_get (ir_directions r) d))"
  by (simp add: inventory_record_ok_def dir_pair_cases)

text \<open>Confidences are percentages.\<close>

lemma detection_from_port_confidence: "pd_confidence (detection_from_port key) \<le> 100"
  by (simp add: detection_from_port_def port_detection_def detection_unknown_def known_service_def)

lemma detection_merge_confidence:
  "pd_confidence d \<le> 100 \<Longrightarrow> pd_confidence e \<le> 100 \<Longrightarrow> pd_confidence (detection_merge d e) \<le> 100"
  by (simp add: detection_merge_def)

lemma payload_rule_confidence: "payload_rule t bs src dst port_det = Some d \<Longrightarrow> pd_confidence d \<le> 100"
  by (auto simp: payload_rule_def detect_http_def payload_detection_def Let_def split: if_splits option.splits prod.splits)

lemma service_observe_payload_confidence:
  "pd_confidence service \<le> 100 \<Longrightarrow> pd_confidence (service_observe_payload service key direction bs) \<le> 100"
  by (auto simp: service_observe_payload_def detect_payload_def Let_def intro!: detection_merge_confidence
      dest: payload_rule_confidence intro: detection_from_port_confidence split: option.split if_splits)

lemma inventory_record_new_ok: "inventory_record_ok limit key (inventory_record_new key now_us)"
  by (simp add: inventory_record_ok_def detection_from_port_confidence inventory_record_new_def inventory_direction_default_def
      inventory_direction_ok_def sampler_ok_def sampler_default_def content_sample_limit_def)

lemma ir_observe_packet_ok:
  "inventory_record_ok limit key r \<Longrightarrow> inventory_record_ok limit key (ir_observe_packet r packet direction)"
  by (simp add: inventory_record_ok_alt ir_observe_packet_def inventory_direction_ok_def Let_def)

lemma ir_observe_tcp_status_ok:
  "inventory_record_ok limit key r \<Longrightarrow> inventory_record_ok limit key (ir_observe_tcp_status r direction status)"
  by (cases status) (simp_all add: inventory_record_ok_alt ir_observe_tcp_status_def inventory_direction_ok_def Let_def)

lemma ir_observe_payload_unit_ok:
  "inventory_record_ok limit key r \<Longrightarrow>
    inventory_record_ok limit key (ir_observe_payload_unit r direction bs seqs limit)"
  by (simp add: inventory_record_ok_alt ir_observe_payload_unit_def inventory_direction_ok_def Let_def
      extend_preview_length sampler_observe_ok service_observe_payload_confidence split: option.splits prod.splits)

lemma ir_observe_chunks_ok:
  "inventory_record_ok limit key r \<Longrightarrow>
    inventory_record_ok limit key (foldl (ir_observe_stream_chunk limit) r chunks)"
  by (induction chunks arbitrary: r) (simp_all add: ir_observe_stream_chunk_def ir_observe_payload_unit_ok)

lemma ir_observe_ok:
  assumes "inventory_record_ok limit key r"
  shows "inventory_record_ok limit key (ir_observe limit packet flow content_shard r)"
proof -
  have "inventory_record_ok limit key (r\<lparr>ir_content_shard := s\<rparr>)" for s
    using assms by (simp add: inventory_record_ok_def)
  then show ?thesis
    by (simp add: ir_observe_def Let_def ir_observe_chunks_ok ir_observe_tcp_status_ok ir_observe_packet_ok
        ir_observe_payload_unit_ok split: option.splits)
qed

lemma ir_event_record: "snd (ir_event config created previous r) = r \<or>
    snd (ir_event config created previous r) = ir_mark_emitted r"
  by (simp add: ir_event_def)

lemma ir_event_ok: "inventory_record_ok limit key r \<Longrightarrow> inventory_record_ok limit key (snd (ir_event config created previous r))"
  using ir_event_record[of config created previous r] by (auto simp: inventory_record_ok_def ir_mark_emitted_def)

subsection \<open>The table\<close>

definition inventory_ok :: "inventory_config \<Rightarrow> stream_inventory \<Rightarrow> bool" where
  "inventory_ok config iv \<longleftrightarrow> iv_config iv = config \<and> tbl_ok (iv_streams iv)
     \<and> length (iv_streams iv) \<le> ic_max_streams config
     \<and> (\<forall>(k, r) \<in> set (iv_streams iv). inventory_record_ok (ic_preview_bytes config) k r)"

definition inventory_counts_ok :: "stream_inventory \<Rightarrow> bool" where
  "inventory_counts_ok iv \<longleftrightarrow>
     ivs_created_streams (iv_stats iv) = length (iv_streams iv) + ivs_evicted_streams (iv_stats iv)
     \<and> ivs_created_streams (iv_stats iv) \<le> iv_observed_packets iv
     \<and> ivs_dropped_new_streams (iv_stats iv) = 0"

lemma iv_evict_idle_ok:
  assumes "inventory_ok config iv"
  shows "inventory_ok config (iv_evict_idle iv now_us)"
proof -
  have "length (filter P (iv_streams iv)) \<le> ic_max_streams config" for P
    using assms by (intro le_trans[OF length_filter_le]) (simp add: inventory_ok_def)
  then show ?thesis using assms by (auto simp: inventory_ok_def iv_evict_idle_def Let_def)
qed

lemma iv_evict_idle_counts:
  assumes "inventory_counts_ok iv" "iv_observed_packets iv \<le> u64_max"
  shows "inventory_counts_ok (iv_evict_idle iv now_us)"
proof -
  define kept where
    "kept = filter (\<lambda>(_, r). now_us - ir_last_seen_us r \<le> sat_mul (ic_idle_timeout_ms (iv_config iv)) 1000) (iv_streams iv)"
  have "length kept \<le> length (iv_streams iv)" unfolding kept_def by (rule length_filter_le)
  then show ?thesis
    using assms unfolding inventory_counts_ok_def iv_evict_idle_def iv_count_evicted_def Let_def kept_def[symmetric]
    by (auto simp: sat_add_def)
qed

lemma iv_evict_idle_simps [simp]:
  "iv_config (iv_evict_idle iv now_us) = iv_config iv"
  "iv_observed_packets (iv_evict_idle iv now_us) = iv_observed_packets iv"
  "ivs_created_streams (iv_stats (iv_evict_idle iv now_us)) = ivs_created_streams (iv_stats iv)"
  by (simp_all add: iv_evict_idle_def iv_count_evicted_def Let_def)

lemma iv_evict_oldest_simps [simp]:
  "iv_config (iv_evict_oldest iv) = iv_config iv"
  "iv_observed_packets (iv_evict_oldest iv) = iv_observed_packets iv"
  "ivs_created_streams (iv_stats (iv_evict_oldest iv)) = ivs_created_streams (iv_stats iv)"
  by (simp_all add: iv_evict_oldest_def iv_count_evicted_def split: option.splits prod.splits)

text \<open>Evicting the oldest stream of a table that has one.\<close>

lemma iv_evict_oldest_step:
  assumes "iv_streams iv \<noteq> []" "tbl_ok (iv_streams iv)"
  obtains key where "key \<in> fst ` set (iv_streams iv)"
    "iv_evict_oldest iv = iv\<lparr>iv_streams := AList.delete key (iv_streams iv), iv_stats := iv_count_evicted 1 (iv_stats iv)\<rparr>"
    "Suc (length (AList.delete key (iv_streams iv))) = length (iv_streams iv)"
proof -
  obtain key r where min: "min_by_key (ir_last_seen_us \<circ> snd) (iv_streams iv) = Some (key, r)"
    using assms(1) by (metis min_by_key_None not_None_eq surj_pair)
  then have "key \<in> fst ` set (iv_streams iv)" using min_by_key_SomeD[OF min] by force
  then show thesis
    using that[of key] min length_delete_present[OF assms(2)] by (simp add: iv_evict_oldest_def)
qed

lemma iv_evict_oldest_ok:
  assumes "inventory_ok config iv"
  shows "inventory_ok config (iv_evict_oldest iv)"
proof (cases "iv_streams iv = []")
  case True
  then have "iv_evict_oldest iv = iv" by (simp add: iv_evict_oldest_def min_by_key_def)
  then show ?thesis using assms by simp
next
  case False
  have tbl: "tbl_ok (iv_streams iv)" using assms by (simp add: inventory_ok_def)
  obtain key where key: "iv_evict_oldest iv
      = iv\<lparr>iv_streams := AList.delete key (iv_streams iv), iv_stats := iv_count_evicted 1 (iv_stats iv)\<rparr>"
    "Suc (length (AList.delete key (iv_streams iv))) = length (iv_streams iv)"
    by (rule iv_evict_oldest_step[OF False tbl])
  have "set (AList.delete key (iv_streams iv)) \<subseteq> set (iv_streams iv)" by (auto simp: AList.delete_eq)
  then show ?thesis using assms key by (auto simp: inventory_ok_def)
qed

lemma iv_evict_oldest_counts:
  assumes "inventory_counts_ok iv" "tbl_ok (iv_streams iv)" "iv_observed_packets iv \<le> u64_max"
  shows "inventory_counts_ok (iv_evict_oldest iv)"
proof (cases "iv_streams iv = []")
  case True
  then have "iv_evict_oldest iv = iv" by (simp add: iv_evict_oldest_def min_by_key_def)
  then show ?thesis using assms(1) by simp
next
  case False
  obtain key where key: "iv_evict_oldest iv
      = iv\<lparr>iv_streams := AList.delete key (iv_streams iv), iv_stats := iv_count_evicted 1 (iv_stats iv)\<rparr>"
    "Suc (length (AList.delete key (iv_streams iv))) = length (iv_streams iv)"
    by (rule iv_evict_oldest_step[OF False assms(2)])
  then show ?thesis using assms by (simp add: inventory_counts_ok_def iv_count_evicted_def sat_add_def)
qed

lemma iv_make_room_ok: "inventory_ok config iv \<Longrightarrow> inventory_ok config (iv_make_room iv now_us)"
  by (simp add: iv_make_room_def Let_def iv_evict_idle_ok iv_evict_oldest_ok)

lemma iv_make_room_counts:
  "inventory_counts_ok iv \<Longrightarrow> inventory_ok config iv \<Longrightarrow> iv_observed_packets iv \<le> u64_max \<Longrightarrow>
    inventory_counts_ok (iv_make_room iv now_us)"
  using iv_evict_idle_ok[of config iv now_us]
  by (simp add: iv_make_room_def Let_def iv_evict_idle_counts iv_evict_oldest_counts inventory_ok_def)

lemma iv_make_room_simps [simp]:
  "iv_config (iv_make_room iv now_us) = iv_config iv"
  "iv_observed_packets (iv_make_room iv now_us) = iv_observed_packets iv"
  "ivs_created_streams (iv_stats (iv_make_room iv now_us)) = ivs_created_streams (iv_stats iv)"
  by (simp_all add: iv_make_room_def Let_def)

lemma iv_make_room_room:
  assumes "inventory_ok config iv" "0 < ic_max_streams config"
  shows "length (iv_streams (iv_make_room iv now_us)) < ic_max_streams config"
proof (cases "length (iv_streams iv) < ic_max_streams config")
  case True
  then show ?thesis using assms(1) by (simp add: iv_make_room_def inventory_ok_def)
next
  case False
  let ?iv = "iv_evict_idle iv now_us"
  have ok: "inventory_ok config ?iv" by (rule iv_evict_idle_ok[OF assms(1)])
  show ?thesis
  proof (cases "length (iv_streams ?iv) < ic_max_streams config")
    case True
    then show ?thesis using False assms(1) by (simp add: iv_make_room_def inventory_ok_def Let_def)
  next
    case full: False
    then have ne: "iv_streams ?iv \<noteq> []" using assms(2) by auto
    have tbl: "tbl_ok (iv_streams ?iv)" using ok by (simp add: inventory_ok_def)
    obtain key where key: "iv_evict_oldest ?iv
        = ?iv\<lparr>iv_streams := AList.delete key (iv_streams ?iv), iv_stats := iv_count_evicted 1 (iv_stats ?iv)\<rparr>"
      "Suc (length (AList.delete key (iv_streams ?iv))) = length (iv_streams ?iv)"
      by (rule iv_evict_oldest_step[OF ne tbl])
    then show ?thesis using False full ok assms(1) by (simp add: iv_make_room_def inventory_ok_def Let_def)
  qed
qed

lemma iv_make_room_keys: "fst ` set (iv_streams (iv_make_room iv now_us)) \<subseteq> fst ` set (iv_streams iv)"
proof -
  have idle: "fst ` set (iv_streams (iv_evict_idle iv now_us)) \<subseteq> fst ` set (iv_streams iv)"
    by (auto simp: iv_evict_idle_def Let_def)
  have oldest: "fst ` set (iv_streams (iv_evict_oldest iv')) \<subseteq> fst ` set (iv_streams iv')" for iv'
    by (simp add: iv_evict_oldest_def tbl_keys_delete split: option.splits prod.splits)
  show ?thesis using subset_trans[OF oldest idle] idle by (simp add: iv_make_room_def Let_def)
qed

text \<open>The stream is there after \<open>iv_ensure_stream\<close>, which only refuses when the limit is zero.\<close>

lemma iv_ensure_stream_ok:
  assumes ok: "inventory_ok config iv" and pos: "0 < ic_max_streams config"
    and ens: "iv_ensure_stream iv key now_us = (created, iv')"
  shows "inventory_ok config iv' \<and> created \<noteq> None \<and> key \<in> fst ` set (iv_streams iv')
    \<and> fst ` set (iv_streams iv') \<subseteq> insert key (fst ` set (iv_streams iv))"
proof (cases "map_of (iv_streams iv) key")
  case None
  let ?iv = "iv_make_room iv now_us"
  have okr: "inventory_ok config ?iv" by (rule iv_make_room_ok[OF ok])
  have room: "length (iv_streams ?iv) < ic_max_streams config" by (rule iv_make_room_room[OF ok pos])
  have fresh: "key \<notin> fst ` set (iv_streams ?iv)" using None iv_make_room_keys[of iv now_us] by (auto simp: tbl_None_iff)
  have iv': "created = Some True"
    "iv_streams iv' = AList.update key (inventory_record_new key now_us) (iv_streams ?iv)" "iv_config iv' = config"
    using ens None room okr by (auto simp: iv_ensure_stream_def Let_def inventory_ok_def)
  then show ?thesis
    using okr room iv_make_room_keys[of iv now_us] inventory_record_new_ok
    by (auto simp: inventory_ok_def update_fresh[OF fresh] tbl_ok_def fresh)
next
  case (Some r)
  then show ?thesis using ens ok by (force simp: iv_ensure_stream_def dest: map_of_SomeD)
qed

lemma iv_ensure_stream_counts:
  assumes ok: "inventory_ok config iv" and pos: "0 < ic_max_streams config"
    and counts: "inventory_counts_ok iv" "ivs_created_streams (iv_stats iv) < iv_observed_packets iv"
      "iv_observed_packets iv \<le> u64_max"
    and ens: "iv_ensure_stream iv key now_us = (created, iv')"
  shows "inventory_counts_ok iv' \<and> iv_observed_packets iv' = iv_observed_packets iv"
proof (cases "map_of (iv_streams iv) key")
  case None
  let ?iv = "iv_make_room iv now_us"
  have room: "length (iv_streams ?iv) < ic_max_streams config" by (rule iv_make_room_room[OF ok pos])
  have okr: "inventory_ok config ?iv" by (rule iv_make_room_ok[OF ok])
  have fresh: "map_of (iv_streams ?iv) key = None"
    using None iv_make_room_keys[of iv now_us] by (auto simp: tbl_None_iff)
  have iv': "iv' = ?iv\<lparr>iv_streams := AList.update key (inventory_record_new key now_us) (iv_streams ?iv),
      iv_stats := (iv_stats ?iv)\<lparr>ivs_created_streams := sat_add (ivs_created_streams (iv_stats ?iv)) 1\<rparr>\<rparr>"
    using ens None room okr by (auto simp: iv_ensure_stream_def Let_def inventory_ok_def)
  then show ?thesis
    using iv_make_room_counts[OF counts(1) ok counts(3), of now_us] counts(2,3) length_update_fresh[OF fresh]
    by (simp add: inventory_counts_ok_def sat_add_def)
next
  case (Some r)
  then show ?thesis using ens counts by (simp add: iv_ensure_stream_def)
qed

subsection \<open>A packet\<close>

text \<open>What a packet makes of the inventory, by the record of its flow.\<close>

lemma iv_observe_flow_step:
  assumes ok: "inventory_ok config iv" and on: "ic_enabled config" "0 < ic_max_streams config"
  obtains created previous iv1 where
    "iv_ensure_stream (iv_begin_observe iv (inventory_timestamp_us (dp_timestamp packet))) (fo_key flow)
       (inventory_timestamp_us (dp_timestamp packet)) = (Some created, iv1)"
    "inventory_ok config iv1" "map_of (iv_streams iv1) (fo_key flow) = Some previous"
    "fst ` set (iv_streams iv1) \<subseteq> insert (fo_key flow) (fst ` set (iv_streams iv))"
    "iv_streams (fst (iv_observe_flow b64 iv packet flow shard events)) = AList.update (fo_key flow)
       (snd (ir_event config created previous (ir_observe (ic_preview_bytes config) packet flow shard previous)))
       (iv_streams iv1)"
    "iv_config (fst (iv_observe_flow b64 iv packet flow shard events)) = config"
    "iv_observed_packets (fst (iv_observe_flow b64 iv packet flow shard events)) = iv_observed_packets iv1"
    "ivs_created_streams (iv_stats (fst (iv_observe_flow b64 iv packet flow shard events))) = ivs_created_streams (iv_stats iv1)"
    "ivs_evicted_streams (iv_stats (fst (iv_observe_flow b64 iv packet flow shard events))) = ivs_evicted_streams (iv_stats iv1)"
    "ivs_dropped_new_streams (iv_stats (fst (iv_observe_flow b64 iv packet flow shard events)))
       = ivs_dropped_new_streams (iv_stats iv1)"
proof -
  let ?now = "inventory_timestamp_us (dp_timestamp packet)"
  let ?b = "iv_begin_observe iv ?now"
  have okn: "inventory_ok config (iv\<lparr>iv_observed_packets := n\<rparr>)" for n using ok by (simp add: inventory_ok_def)
  have okb: "inventory_ok config ?b"
    using okn iv_evict_idle_ok[OF okn] by (simp add: iv_begin_observe_def Let_def)
  obtain c iv1 where ens: "iv_ensure_stream ?b (fo_key flow) ?now = (c, iv1)" by fastforce
  note e = iv_ensure_stream_ok[OF okb on(2) ens]
  then obtain created where c: "c = Some created" by blast
  obtain previous where prev: "map_of (iv_streams iv1) (fo_key flow) = Some previous"
    using e tbl_in_keysD by metis
  have keys: "fst ` set (iv_streams ?b) \<subseteq> fst ` set (iv_streams iv)"
    by (auto simp: iv_begin_observe_def iv_evict_idle_def Let_def)
  have conf: "iv_config iv = config" "iv_config iv1 = config" using ok e by (simp_all add: inventory_ok_def)
  obtain ty r1 where ev: "ir_event config created previous
      (ir_observe (ic_preview_bytes config) packet flow shard previous) = (ty, r1)" by fastforce
  define closed_now where "closed_now \<longleftrightarrow> ir_status previous \<noteq> StatusClosed
    \<and> ir_status (ir_observe (ic_preview_bytes config) packet flow shard previous) = StatusClosed"
  let ?iv2 = "iv1\<lparr>iv_streams := AList.update (fo_key flow) r1 (iv_streams iv1)\<rparr>"
  have res: "fst (iv_observe_flow b64 iv packet flow shard events) = (case ty of
      None \<Rightarrow> ?iv2\<lparr>iv_stats := iv_count_closed closed_now (iv_stats iv1)\<rparr>
    | Some t \<Rightarrow> ?iv2\<lparr>iv_stats := iv_count_event (iv_count_closed closed_now (iv_stats iv1))\<rparr>)"
    using on(1) by (simp add: iv_observe_flow_def conf ens c prev ev Let_def closed_now_def split: option.split)
  have sub: "fst ` set (iv_streams iv1) \<subseteq> insert (fo_key flow) (fst ` set (iv_streams iv))" using e keys by blast
  show thesis
    by (rule that[of created iv1 previous, OF _ _ prev sub])
      (use ens c e in \<open>simp_all add: res ev conf iv_count_closed_def iv_count_event_def split: option.splits\<close>)
qed

lemma iv_observe_flow_ok:
  assumes ok: "inventory_ok config iv" and on: "ic_enabled config" "0 < ic_max_streams config"
  shows "inventory_ok config (fst (iv_observe_flow b64 iv packet flow shard events))
    \<and> fo_key flow \<in> fst ` set (iv_streams (fst (iv_observe_flow b64 iv packet flow shard events)))
    \<and> fst ` set (iv_streams (fst (iv_observe_flow b64 iv packet flow shard events)))
        \<subseteq> insert (fo_key flow) (fst ` set (iv_streams iv))"
proof -
  obtain created previous iv1 where s: "inventory_ok config iv1" "map_of (iv_streams iv1) (fo_key flow) = Some previous"
    "fst ` set (iv_streams iv1) \<subseteq> insert (fo_key flow) (fst ` set (iv_streams iv))"
    "iv_streams (fst (iv_observe_flow b64 iv packet flow shard events)) = AList.update (fo_key flow)
       (snd (ir_event config created previous (ir_observe (ic_preview_bytes config) packet flow shard previous)))
       (iv_streams iv1)"
    "iv_config (fst (iv_observe_flow b64 iv packet flow shard events)) = config"
    by (rule iv_observe_flow_step[OF ok on, of packet flow b64 shard events])
  let ?r = "snd (ir_event config created previous (ir_observe (ic_preview_bytes config) packet flow shard previous))"
  have "inventory_record_ok (ic_preview_bytes config) (fo_key flow) previous"
    using s(1) map_of_SomeD[OF s(2)] by (auto simp: inventory_ok_def)
  then have r: "inventory_record_ok (ic_preview_bytes config) (fo_key flow) ?r"
    by (intro ir_event_ok ir_observe_ok)
  have "\<forall>(k, s) \<in> set (AList.update (fo_key flow) ?r (iv_streams iv1)). inventory_record_ok (ic_preview_bytes config) k s"
  proof (rule tbl_update_all)
    show "\<forall>(k, s) \<in> set (iv_streams iv1). inventory_record_ok (ic_preview_bytes config) k s"
      using s(1) by (simp add: inventory_ok_def)
  qed (rule r)
  moreover have "length (AList.update (fo_key flow) ?r (iv_streams iv1)) = length (iv_streams iv1)"
    using s(2) by (intro length_update_present) simp
  ultimately show ?thesis using s by (auto simp: inventory_ok_def tbl_simps)
qed

lemma iv_observe_flow_counts:
  assumes ok: "inventory_ok config iv" and on: "ic_enabled config" "0 < ic_max_streams config"
    and counts: "inventory_counts_ok iv" "iv_observed_packets iv < u64_max"
  shows "inventory_counts_ok (fst (iv_observe_flow b64 iv packet flow shard events))
    \<and> iv_observed_packets (fst (iv_observe_flow b64 iv packet flow shard events)) = iv_observed_packets iv + 1"
proof -
  let ?now = "inventory_timestamp_us (dp_timestamp packet)"
  let ?b = "iv_begin_observe iv ?now"
  obtain created previous iv1 where s:
    "iv_ensure_stream ?b (fo_key flow) ?now = (Some created, iv1)"
    "map_of (iv_streams iv1) (fo_key flow) = Some previous"
    "iv_streams (fst (iv_observe_flow b64 iv packet flow shard events)) = AList.update (fo_key flow)
       (snd (ir_event config created previous (ir_observe (ic_preview_bytes config) packet flow shard previous)))
       (iv_streams iv1)"
    "iv_observed_packets (fst (iv_observe_flow b64 iv packet flow shard events)) = iv_observed_packets iv1"
    "ivs_created_streams (iv_stats (fst (iv_observe_flow b64 iv packet flow shard events))) = ivs_created_streams (iv_stats iv1)"
    "ivs_evicted_streams (iv_stats (fst (iv_observe_flow b64 iv packet flow shard events))) = ivs_evicted_streams (iv_stats iv1)"
    "ivs_dropped_new_streams (iv_stats (fst (iv_observe_flow b64 iv packet flow shard events)))
       = ivs_dropped_new_streams (iv_stats iv1)"
    by (rule iv_observe_flow_step[OF ok on, of packet flow b64 shard events])
  let ?iv = "iv\<lparr>iv_observed_packets := sat_add (iv_observed_packets iv) 1\<rparr>"
  have obs: "sat_add (iv_observed_packets iv) 1 = iv_observed_packets iv + 1" using counts(2) by (simp add: sat_add_def)
  have okn: "inventory_ok config ?iv" using ok by (simp add: inventory_ok_def)
  have cn: "inventory_counts_ok ?iv" using counts(1) obs by (simp add: inventory_counts_ok_def)
  have b: "inventory_ok config ?b" "inventory_counts_ok ?b" "iv_observed_packets ?b = iv_observed_packets iv + 1"
    using okn iv_evict_idle_ok[OF okn] cn iv_evict_idle_counts[OF cn] counts(2) obs
    by (simp_all add: iv_begin_observe_def Let_def)
  have same: "ivs_created_streams (iv_stats ?b) = ivs_created_streams (iv_stats iv)"
    by (simp add: iv_begin_observe_def iv_evict_idle_def iv_count_evicted_def Let_def)
  have "inventory_counts_ok iv1 \<and> iv_observed_packets iv1 = iv_observed_packets iv + 1"
    using iv_ensure_stream_counts[OF b(1) on(2) b(2) _ _ s(1)] b(3) same counts by (simp add: inventory_counts_ok_def)
  moreover have "length (AList.update (fo_key flow) x (iv_streams iv1)) = length (iv_streams iv1)" for x
    using s(2) by (intro length_update_present) simp
  ultimately show ?thesis using s(3-7) by (simp add: inventory_counts_ok_def)
qed

subsection \<open>Runs\<close>

definition inventory_step ::
  "(bytes \<Rightarrow> string) \<Rightarrow> decoded_packet \<times> flow_observation \<times> nat option \<Rightarrow> stream_inventory \<Rightarrow> stream_inventory" where
  "inventory_step b64 x iv = (case x of (packet, flow, shard) \<Rightarrow> fst (iv_observe_flow b64 iv packet flow shard []))"

definition inventory_inv :: "stream_inventory \<Rightarrow> bool" where
  "inventory_inv iv \<longleftrightarrow> inventory_ok (iv_config iv) iv \<and> ic_enabled (iv_config iv) \<and> 0 < ic_max_streams (iv_config iv)"

definition inventory_target :: "decoded_packet \<times> flow_observation \<times> nat option \<Rightarrow> flow_key option" where
  "inventory_target x = Some (fo_key (fst (snd x)))"

lemma inventory_step_ok:
  assumes "inventory_inv iv"
  shows "inventory_inv (inventory_step b64 x iv)" "iv_config (inventory_step b64 x iv) = iv_config iv"
    "fo_key (fst (snd x)) \<in> fst ` set (iv_streams (inventory_step b64 x iv))"
    "fst ` set (iv_streams (inventory_step b64 x iv)) \<subseteq> insert (fo_key (fst (snd x))) (fst ` set (iv_streams iv))"
proof -
  obtain packet flow shard where x: "x = (packet, flow, shard)" by (cases x)
  have on: "inventory_ok (iv_config iv) iv" "ic_enabled (iv_config iv)" "0 < ic_max_streams (iv_config iv)"
    using assms by (simp_all add: inventory_inv_def)
  note k = iv_observe_flow_ok[OF on, of b64 packet flow shard "[]"]
  have conf: "iv_config (inventory_step b64 x iv) = iv_config iv"
    using k by (simp add: inventory_step_def x inventory_ok_def)
  show "iv_config (inventory_step b64 x iv) = iv_config iv" by (rule conf)
  show "inventory_inv (inventory_step b64 x iv)"
    unfolding inventory_inv_def conf using k on by (simp add: inventory_step_def x)
  show "fo_key (fst (snd x)) \<in> fst ` set (iv_streams (inventory_step b64 x iv))"
    using k by (simp add: inventory_step_def x)
  show "fst ` set (iv_streams (inventory_step b64 x iv)) \<subseteq> insert (fo_key (fst (snd x))) (fst ` set (iv_streams iv))"
    using k by (simp add: inventory_step_def x)
qed

lemma inventory_card:
  assumes "inventory_inv iv"
  shows "finite (fst ` set (iv_streams iv)) \<and> card (fst ` set (iv_streams iv)) \<le> ic_max_streams (iv_config iv)"
  using assms card_length[of "map fst (iv_streams iv)"] by (simp add: inventory_inv_def inventory_ok_def)

interpretation inventory: bounded_registry "inventory_step b64" "\<lambda>iv. fst ` set (iv_streams iv)"
    inventory_target inventory_inv "\<lambda>iv. ic_max_streams (iv_config iv)" for b64
proof unfold_locales
  fix x :: "decoded_packet \<times> flow_observation \<times> nat option" and iv k
  assume inv: "inventory_inv iv"
  show "inventory_inv (inventory_step b64 x iv)" by (rule inventory_step_ok(1)[OF inv])
  show "fst ` set (iv_streams (inventory_step b64 x iv)) \<subseteq> fst ` set (iv_streams iv) \<union> set_option (inventory_target x)"
    using inventory_step_ok(4)[OF inv, of b64 x] by (auto simp: inventory_target_def)
  show "inventory_target x = Some k \<Longrightarrow> k \<in> fst ` set (iv_streams (inventory_step b64 x iv))"
    using inventory_step_ok(3)[OF inv, of x b64] by (simp add: inventory_target_def)
  show "ic_max_streams (iv_config (inventory_step b64 x iv)) = ic_max_streams (iv_config iv)"
    by (simp add: inventory_step_ok(2)[OF inv])
qed (rule inventory_card)

lemma inventory_new_inv:
  "ic_enabled config \<Longrightarrow> 0 < ic_max_streams config \<Longrightarrow> inventory_inv (inventory_new config)"
  by (simp add: inventory_inv_def inventory_ok_def inventory_new_def)

lemma inventory_run_counts:
  assumes "inventory_inv iv" "inventory_counts_ok iv" "iv_observed_packets iv + length xs \<le> u64_max"
  shows "inventory_counts_ok (fold (inventory_step b64) xs iv)"
  using assms
proof (induction xs arbitrary: iv)
  case (Cons x xs)
  obtain packet flow shard where x: "x = (packet, flow, shard)" by (cases x)
  have "inventory_counts_ok (inventory_step b64 x iv)
      \<and> iv_observed_packets (inventory_step b64 x iv) = iv_observed_packets iv + 1"
    using iv_observe_flow_counts[of "iv_config iv" iv b64 packet flow shard "[]"] Cons.prems
    by (simp add: inventory_step_def x inventory_inv_def)
  then show ?case
    using Cons.IH[OF inventory_step_ok(1)[OF Cons.prems(1)], of b64 x] Cons.prems(3) by simp
qed simp

text \<open>
  C33. Stream accounting: over any run of at most \<open>2 ^ 64 - 1\<close> packets the inventory holds at most
  \<open>max_streams\<close> streams, every record has the identifier of its flow, a preview within the limit and a
  content sample whose classes add up, and the streams created are the streams active plus the streams
  evicted; no stream was refused.
\<close>

theorem inventory_accounting:
  assumes "ic_enabled config" "0 < ic_max_streams config" "length xs \<le> u64_max"
  shows "length (iv_streams (fold (inventory_step b64) xs (inventory_new config))) \<le> ic_max_streams config
    \<and> (\<forall>(k, r) \<in> set (iv_streams (fold (inventory_step b64) xs (inventory_new config))).
        inventory_record_ok (ic_preview_bytes config) k r)
    \<and> inventory_counts_ok (fold (inventory_step b64) xs (inventory_new config))"
proof -
  note inv0 = inventory_new_inv[OF assms(1,2)]
  have conf: "iv_config (fold (inventory_step b64) xs iv) = iv_config iv" if "inventory_inv iv" for iv
    using that by (induction xs arbitrary: iv) (simp_all add: inventory_step_ok(1,2))
  have "inventory_inv (fold (inventory_step b64) xs (inventory_new config))" by (rule inventory.run_inv[OF inv0])
  moreover have "inventory_counts_ok (fold (inventory_step b64) xs (inventory_new config))"
    by (rule inventory_run_counts[OF inv0])
      (use assms(3) in \<open>simp_all add: inventory_counts_ok_def inventory_new_def inventory_stats_default_def\<close>)
  ultimately show ?thesis using conf[OF inv0] by (simp add: inventory_inv_def inventory_ok_def inventory_new_def)
qed

end
