(* ===== verification/View_Correctness.thy ===== *)
theory View_Correctness
  imports Stream_View Inventory_Correctness
begin

text \<open>
  The stream view's invariant (the deque lists the streams, the sets and the pattern index agree with the
  entries, stored matches are counted), kept by every operation; its pages; its profile counters; and the
  reading of the inventory's events.
\<close>

subsection \<open>The pattern index\<close>

definition indexed :: "(string \<times> u64w list) list \<Rightarrow> string \<Rightarrow> u64w set" where
  "indexed index pattern_id = (case map_of index pattern_id of None \<Rightarrow> {} | Some ids \<Rightarrow> set ids)"

definition index_wf :: "(string \<times> u64w list) list \<Rightarrow> bool" where
  "index_wf index \<longleftrightarrow> tbl_ok index \<and> (\<forall>(p, ids) \<in> set index. ids \<noteq> [] \<and> distinct ids)"

lemma index_wf_Nil [simp]: "index_wf []" "indexed [] p = {}"
  by (simp_all add: index_wf_def indexed_def)

lemma index_pattern_wf:
  assumes "index_wf index"
  shows "index_wf (index_pattern stream_id pattern_id index)"
proof -
  let ?ids = "case map_of index pattern_id of None \<Rightarrow> [] | Some ids \<Rightarrow> ids"
  have "distinct ?ids" using assms by (auto simp: index_wf_def split: option.split dest: map_of_SomeD)
  moreover have "set (List.insert stream_id ?ids) \<noteq> {}" by simp
  ultimately have new: "List.insert stream_id ?ids \<noteq> [] \<and> distinct (List.insert stream_id ?ids)"
    by (metis distinct_insert empty_set)
  have "\<forall>(p, ids) \<in> set (AList.update pattern_id (List.insert stream_id ?ids) index). ids \<noteq> [] \<and> distinct ids"
  proof (rule tbl_update_all)
    show "\<forall>(p, ids) \<in> set index. ids \<noteq> [] \<and> distinct ids" using assms by (simp add: index_wf_def)
  qed (rule new)
  then show ?thesis using assms unfolding index_wf_def index_pattern_def by simp
qed

lemma indexed_index_pattern:
  "indexed (index_pattern stream_id pattern_id index) p
    = (if p = pattern_id then insert stream_id (indexed index p) else indexed index p)"
  by (simp add: indexed_def index_pattern_def update_conv' split: option.split)

lemma unindex_pattern_wf:
  assumes "index_wf index"
  shows "index_wf (unindex_pattern stream_id index pattern_id)"
proof (cases "map_of index pattern_id")
  case (Some ids)
  have ids: "distinct (removeAll stream_id ids)"
    using assms map_of_SomeD[OF Some] by (auto simp: index_wf_def distinct_removeAll)
  show ?thesis
  proof (cases "removeAll stream_id ids = []")
    case True
    have "set (AList.delete pattern_id index) \<subseteq> set index" by (auto simp: AList.delete_eq)
    then show ?thesis using assms True Some by (auto simp: index_wf_def unindex_pattern_def)
  next
    case False
    have "\<forall>(p, ids) \<in> set (AList.update pattern_id (removeAll stream_id ids) index). ids \<noteq> [] \<and> distinct ids"
    proof (rule tbl_update_all)
      show "\<forall>(p, ids) \<in> set index. ids \<noteq> [] \<and> distinct ids" using assms by (simp add: index_wf_def)
    qed (use False ids in blast)
    then show ?thesis using assms False Some by (simp add: index_wf_def unindex_pattern_def Let_def)
  qed
qed (use assms in \<open>simp add: unindex_pattern_def\<close>)

lemma indexed_unindex_pattern:
  "indexed (unindex_pattern stream_id index pattern_id) p
    = indexed index p - (if p = pattern_id then {stream_id} else {})"
proof (cases "map_of index pattern_id")
  case (Some ids)
  show ?thesis
  proof (cases "removeAll stream_id ids = []")
    case True
    then have "set ids - {stream_id} = {}" by (metis empty_set set_removeAll)
    then show ?thesis using Some True by (auto simp: unindex_pattern_def indexed_def delete_conv' split: option.split)
  next
    case False
    then show ?thesis using Some by (auto simp: unindex_pattern_def indexed_def update_conv' Let_def)
  qed
qed (auto simp: unindex_pattern_def indexed_def)

lemma unindex_all:
  "index_wf index \<Longrightarrow> index_wf (foldl (unindex_pattern stream_id) index pattern_ids)"
  "indexed (foldl (unindex_pattern stream_id) index pattern_ids) p
    = indexed index p - (if p \<in> set pattern_ids then {stream_id} else {})"
proof -
  show "index_wf index \<Longrightarrow> index_wf (foldl (unindex_pattern stream_id) index pattern_ids)"
    by (induction pattern_ids arbitrary: index) (simp_all add: unindex_pattern_wf)
  show "indexed (foldl (unindex_pattern stream_id) index pattern_ids) p
      = indexed index p - (if p \<in> set pattern_ids then {stream_id} else {})"
    by (induction pattern_ids arbitrary: index) (auto simp: indexed_unindex_pattern)
qed

subsection \<open>The invariant\<close>

definition view_entry_ok :: "view_config \<Rightarrow> u64w \<Rightarrow> view_entry \<Rightarrow> bool" where
  "view_entry_ok config stream_id e \<longleftrightarrow> ve_stream_id e = stream_id \<and> distinct (ve_pattern_ids e)
     \<and> (ve_match_count e = 0 \<longleftrightarrow> ve_pattern_ids e = [])
     \<and> length (ve_matches e) \<le> vc_max_matches_per_stream config"

definition view_ok :: "view_state \<Rightarrow> bool" where
  "view_ok sv \<longleftrightarrow> fifo_ok (sv_streams sv) (sv_order sv)
     \<and> length (sv_streams sv) \<le> vc_max_streams (sv_config sv)
     \<and> (\<forall>(i, e) \<in> set (sv_streams sv). view_entry_ok (sv_config sv) i e)
     \<and> distinct (sv_favorites sv) \<and> set (sv_favorites sv) \<subseteq> fst ` set (sv_streams sv)
     \<and> distinct (sv_manually_hidden sv) \<and> set (sv_manually_hidden sv) \<subseteq> fst ` set (sv_streams sv)
     \<and> distinct (sv_matched_streams sv)
     \<and> (\<forall>i. i \<in> set (sv_matched_streams sv)
          \<longleftrightarrow> (\<exists>e. map_of (sv_streams sv) i = Some e \<and> ve_match_count e \<noteq> 0))
     \<and> index_wf (sv_pattern_index sv)
     \<and> (\<forall>p i. i \<in> indexed (sv_pattern_index sv) p
          \<longleftrightarrow> (\<exists>e. map_of (sv_streams sv) i = Some e \<and> p \<in> set (ve_pattern_ids e)))
     \<and> vst_stored_matches (sv_stats sv) = tbl_sum (\<lambda>e. length (ve_matches e)) (sv_streams sv)"

lemmas view_okD = view_ok_def [THEN iffD1]

lemma view_new_ok: "view_ok (view_new config)"
  by (simp add: view_ok_def view_new_def view_stats_default_def)

lemma view_ok_entry: "view_ok sv \<Longrightarrow> map_of (sv_streams sv) i = Some e \<Longrightarrow> view_entry_ok (sv_config sv) i e"
  by (auto simp: view_ok_def dest: map_of_SomeD)

text \<open>Replacing an entry by one with the same matches keeps the invariant.\<close>

lemma view_replace_ok:
  assumes ok: "view_ok sv" and e: "map_of (sv_streams sv) i = Some e"
    and e': "ve_stream_id e' = i" "ve_matches e' = ve_matches e" "ve_match_count e' = ve_match_count e"
      "ve_pattern_ids e' = ve_pattern_ids e"
  shows "view_ok (sv\<lparr>sv_streams := AList.update i e' (sv_streams sv)\<rparr>)"
proof -
  have tbl: "tbl_ok (sv_streams sv)" using ok by (simp add: view_ok_def fifo_ok_def)
  have ent: "view_entry_ok (sv_config sv) i e'"
    using view_ok_entry[OF ok e] e' by (simp add: view_entry_ok_def)
  have all: "\<forall>(k, s) \<in> set (AList.update i e' (sv_streams sv)). view_entry_ok (sv_config sv) k s"
  proof (rule tbl_update_all)
    show "\<forall>(k, s) \<in> set (sv_streams sv). view_entry_ok (sv_config sv) k s" using ok by (simp add: view_ok_def)
  qed (rule ent)
  have i: "i \<in> fst ` set (sv_streams sv)" using map_of_SomeD[OF e] by force
  then have keys: "insert i (fst ` set (sv_streams sv)) = fst ` set (sv_streams sv)" by blast
  have fifo: "fifo_ok (AList.update i e' (sv_streams sv)) (sv_order sv)"
    using ok i by (intro fifo_ok_update) (simp_all add: view_ok_def fifo_ok_def)
  have len: "length (AList.update i e' (sv_streams sv)) = length (sv_streams sv)"
    using e by (intro length_update_present) simp
  have stored: "tbl_sum (\<lambda>e. length (ve_matches e)) (AList.update i e' (sv_streams sv))
      = tbl_sum (\<lambda>e. length (ve_matches e)) (sv_streams sv)"
    using tbl_sum_update_present[OF tbl e, of "\<lambda>e. length (ve_matches e)" e'] e'(2) by simp
  have look: "(\<exists>x. map_of (AList.update i e' (sv_streams sv)) j = Some x \<and> P x)
      \<longleftrightarrow> (\<exists>x. map_of (sv_streams sv) j = Some x \<and> P x)" if "P e' \<longleftrightarrow> P e" for j P
    using e that by (simp add: update_conv')
  show ?thesis
    using ok all fifo len stored look[of "\<lambda>x. ve_match_count x \<noteq> 0"] look[of "\<lambda>x. _ \<in> set (ve_pattern_ids x)"] e' keys
    by (simp add: view_ok_def tbl_simps)
qed

lemma view_remove_stream_ok:
  assumes ok: "view_ok (sv\<lparr>sv_order := i # q\<rparr>)"
  obtains sv' where "view_remove_stream (sv\<lparr>sv_order := q\<rparr>) i = (True, sv')" "view_ok sv'"
    "sv_config sv' = sv_config sv" "sv_streams sv' = AList.delete i (sv_streams sv)" "sv_order sv' = q"
    "sv_hide_rules sv' = sv_hide_rules sv"
proof -
  have fifo: "fifo_ok (sv_streams sv) (i # q)" using ok by (simp add: view_ok_def)
  then have tbl: "tbl_ok (sv_streams sv)" by (simp add: fifo_ok_def)
  have "i \<in> fst ` set (sv_streams sv)" using fifo by (auto simp: fifo_ok_def)
  then obtain e where e: "map_of (sv_streams sv) i = Some e" using tbl_in_keysD by metis
  obtain sv' where sv': "view_remove_stream (sv\<lparr>sv_order := q\<rparr>) i = (True, sv')" by (simp add: view_remove_stream_def e)
  have f: "sv_config sv' = sv_config sv" "sv_streams sv' = AList.delete i (sv_streams sv)" "sv_order sv' = q"
    "sv_hide_rules sv' = sv_hide_rules sv" "sv_favorites sv' = removeAll i (sv_favorites sv)"
    "sv_manually_hidden sv' = removeAll i (sv_manually_hidden sv)"
    "sv_matched_streams sv' = removeAll i (sv_matched_streams sv)"
    "sv_pattern_index sv' = foldl (unindex_pattern i) (sv_pattern_index sv) (ve_pattern_ids e)"
    "vst_stored_matches (sv_stats sv') = vst_stored_matches (sv_stats sv) - length (ve_matches e)"
    using sv' e by (auto simp: view_remove_stream_def)
  have look: "map_of (AList.delete i (sv_streams sv)) j = (if j = i then None else map_of (sv_streams sv) j)" for j
    by (simp add: delete_conv')
  have ids: "ve_stream_id e = i" using view_ok_entry[OF ok] e by (simp add: view_entry_ok_def)
  have sub: "set (AList.delete i (sv_streams sv)) \<subseteq> set (sv_streams sv)" by (auto simp: AList.delete_eq)
  have len: "length (AList.delete i (sv_streams sv)) \<le> length (sv_streams sv)" by (rule length_delete_le)
  have stored: "tbl_sum (\<lambda>e. length (ve_matches e)) (AList.delete i (sv_streams sv)) + length (ve_matches e)
      = tbl_sum (\<lambda>e. length (ve_matches e)) (sv_streams sv)"
    by (rule tbl_sum_delete[OF tbl e])
  have indexed: "(j \<in> indexed (sv_pattern_index sv') p)
      \<longleftrightarrow> (\<exists>x. map_of (sv_streams sv') j = Some x \<and> p \<in> set (ve_pattern_ids x))" for p j
    using ok e by (auto simp: f look unindex_all(2) view_ok_def)
  have "view_ok sv'"
    using ok fifo_ok_pop[OF fifo] sub len stored indexed
    by (auto simp: view_ok_def f(1-7,9) look tbl_simps distinct_removeAll)
      (auto simp: f(8) unindex_all(1))
  then show thesis using that[OF sv'] f by blast
qed

lemma view_evict_oldest_ok:
  assumes ok: "view_ok sv"
  shows "view_ok (view_evict_oldest sv)" "sv_config (view_evict_oldest sv) = sv_config sv"
    "fst ` set (sv_streams (view_evict_oldest sv)) \<subseteq> fst ` set (sv_streams sv)"
    "sv_streams sv \<noteq> [] \<Longrightarrow> length (sv_streams (view_evict_oldest sv)) < length (sv_streams sv)"
proof -
  have "view_ok (view_evict_oldest sv) \<and> sv_config (view_evict_oldest sv) = sv_config sv
    \<and> fst ` set (sv_streams (view_evict_oldest sv)) \<subseteq> fst ` set (sv_streams sv)
    \<and> (sv_streams sv \<noteq> [] \<longrightarrow> length (sv_streams (view_evict_oldest sv)) < length (sv_streams sv))"
  proof (cases "sv_order sv")
    case Nil
    then have "sv_streams sv = []" using ok by (auto simp: view_ok_def fifo_ok_def)
    moreover have "view_evict_oldest sv = sv" using Nil by (simp add: view_evict_oldest_def)
    ultimately show ?thesis using ok by simp
  next
    case (Cons i q)
    then have same: "view_ok (sv\<lparr>sv_order := i # q\<rparr>)" using ok by (metis view_state.surjective view_state.update_convs(3))
    obtain sv' where sv': "view_remove_stream (sv\<lparr>sv_order := q\<rparr>) i = (True, sv')" "view_ok sv'"
      "sv_config sv' = sv_config sv" "sv_streams sv' = AList.delete i (sv_streams sv)"
      by (rule view_remove_stream_ok[OF same]) blast
    have "i \<in> fst ` set (sv_streams sv)" using ok Cons by (auto simp: view_ok_def fifo_ok_def)
    then have "length (AList.delete i (sv_streams sv)) < length (sv_streams sv)" by (rule length_delete_less)
    moreover have "view_evict_oldest sv = sv'" using Cons sv'(1) by (simp add: view_evict_oldest_def)
    ultimately show ?thesis using sv' by (simp add: tbl_keys_delete)
  qed
  then show "view_ok (view_evict_oldest sv)" "sv_config (view_evict_oldest sv) = sv_config sv"
    "fst ` set (sv_streams (view_evict_oldest sv)) \<subseteq> fst ` set (sv_streams sv)"
    "sv_streams sv \<noteq> [] \<Longrightarrow> length (sv_streams (view_evict_oldest sv)) < length (sv_streams sv)"
    by simp_all
qed

text \<open>A new entry, as an event of the inventory gives it.\<close>

definition fresh_entry :: "view_entry \<Rightarrow> bool" where
  "fresh_entry e \<longleftrightarrow> ve_matches e = [] \<and> ve_match_count e = 0 \<and> ve_pattern_ids e = []"

lemma view_entry_from_event_fresh: "view_entry_from_event ev = Some e \<Longrightarrow> fresh_entry e"
  by (auto simp: view_entry_from_event_def Let_def bind_eq_Some_conv fresh_entry_def)

lemma view_insert_ok:
  assumes ok: "view_ok sv" and fresh: "fresh_entry e" "map_of (sv_streams sv) (ve_stream_id e) = None"
    and room: "length (sv_streams sv) < vc_max_streams (sv_config sv)"
  shows "view_ok (sv\<lparr>sv_order := sv_order sv @ [ve_stream_id e],
    sv_streams := AList.update (ve_stream_id e) e (sv_streams sv)\<rparr>)"
proof -
  let ?i = "ve_stream_id e"
  have fifo: "fifo_ok (AList.update ?i e (sv_streams sv)) (sv_order sv @ [?i])"
    using ok fresh(2) by (intro fifo_ok_insert) (simp_all add: view_ok_def)
  have all: "\<forall>(k, s) \<in> set (AList.update ?i e (sv_streams sv)). view_entry_ok (sv_config sv) k s"
  proof (rule tbl_update_all)
    show "\<forall>(k, s) \<in> set (sv_streams sv). view_entry_ok (sv_config sv) k s" using ok by (simp add: view_ok_def)
    show "view_entry_ok (sv_config sv) ?i e" using fresh(1) by (simp add: view_entry_ok_def fresh_entry_def)
  qed
  have stored: "tbl_sum (\<lambda>e. length (ve_matches e)) (AList.update ?i e (sv_streams sv))
      = tbl_sum (\<lambda>e. length (ve_matches e)) (sv_streams sv)"
    using tbl_sum_update_fresh[OF fresh(2), of "\<lambda>e. length (ve_matches e)" e] fresh(1) by (simp add: fresh_entry_def)
  have look: "(\<exists>x. map_of (AList.update ?i e (sv_streams sv)) j = Some x \<and> P x)
      \<longleftrightarrow> (\<exists>x. map_of (sv_streams sv) j = Some x \<and> P x)" if "\<not> P e" for j P
    using fresh(2) that by (auto simp: update_conv')
  show ?thesis
    using ok fifo all stored look[of "\<lambda>x. ve_match_count x \<noteq> 0"] look[of "\<lambda>x. _ \<in> set (ve_pattern_ids x)"] fresh(1) room
    by (auto simp: view_ok_def tbl_simps length_update_fresh[OF fresh(2)] fresh_entry_def)
qed

lemma view_upsert_stream_ok:
  assumes ok: "view_ok sv" and fresh: "fresh_entry e"
  shows "view_ok (view_upsert_stream sv e)" "sv_config (view_upsert_stream sv e) = sv_config sv"
    "fst ` set (sv_streams (view_upsert_stream sv e)) \<subseteq> insert (ve_stream_id e) (fst ` set (sv_streams sv))"
    "0 < vc_max_streams (sv_config sv) \<Longrightarrow> ve_stream_id e \<in> fst ` set (sv_streams (view_upsert_stream sv e))"
proof -
  let ?i = "ve_stream_id e"
  have "view_ok (view_upsert_stream sv e) \<and> sv_config (view_upsert_stream sv e) = sv_config sv
    \<and> fst ` set (sv_streams (view_upsert_stream sv e)) \<subseteq> insert ?i (fst ` set (sv_streams sv))
    \<and> (0 < vc_max_streams (sv_config sv) \<longrightarrow> ?i \<in> fst ` set (sv_streams (view_upsert_stream sv e)))"
  proof (cases "map_of (sv_streams sv) ?i")
    case (Some x)
    then show ?thesis
      using view_replace_ok[OF ok Some] view_ok_entry[OF ok Some]
      by (auto simp: view_upsert_stream_def Let_def tbl_simps)
  next
    case None
    define sv1 where "sv1 = (if length (sv_streams sv) \<ge> vc_max_streams (sv_config sv) then view_evict_oldest sv else sv)"
    have sv1: "view_ok sv1" "sv_config sv1 = sv_config sv" "fst ` set (sv_streams sv1) \<subseteq> fst ` set (sv_streams sv)"
      using view_evict_oldest_ok[OF ok] ok by (simp_all add: sv1_def)
    have room: "length (sv_streams sv1) < vc_max_streams (sv_config sv)" if "0 < vc_max_streams (sv_config sv)"
    proof -
      have "length (sv_streams sv) \<le> vc_max_streams (sv_config sv)" using ok by (simp add: view_ok_def)
      then show ?thesis using that view_evict_oldest_ok(4)[OF ok] by (cases "sv_streams sv = []") (auto simp: sv1_def)
    qed
    have none: "map_of (sv_streams sv1) ?i = None" using None sv1(3) by (auto simp: tbl_None_iff)
    have up: "view_upsert_stream sv e = (if length (sv_streams sv1) \<ge> vc_max_streams (sv_config sv1) then sv1
        else sv1\<lparr>sv_order := sv_order sv1 @ [?i], sv_streams := AList.update ?i e (sv_streams sv1)\<rparr>)"
      using None by (simp add: view_upsert_stream_def Let_def sv1_def)
    show ?thesis
      using sv1 room view_insert_ok[OF sv1(1) fresh none] by (auto simp: up tbl_simps)
  qed
  then show "view_ok (view_upsert_stream sv e)" "sv_config (view_upsert_stream sv e) = sv_config sv"
    "fst ` set (sv_streams (view_upsert_stream sv e)) \<subseteq> insert ?i (fst ` set (sv_streams sv))"
    "0 < vc_max_streams (sv_config sv) \<Longrightarrow> ?i \<in> fst ` set (sv_streams (view_upsert_stream sv e))"
    by blast+
qed

text \<open>The retained matches of an entry, against the counter of all stored matches.\<close>

lemma retain_match_spec:
  assumes "length ms \<le> mx" "0 < mx" "vst_stored_matches stats = rest + length ms" "rest + mx \<le> u64_max"
    and "retain_match mx ms m stats = (ms', stats')"
  shows "length ms' \<le> mx \<and> vst_stored_matches stats' = rest + length ms'"
proof (cases "length ms \<ge> mx")
  case True
  then have "ms \<noteq> []" using assms(2) by auto
  then show ?thesis using assms True by (auto simp: retain_match_def sat_add_def)
next
  case False
  then show ?thesis using assms by (auto simp: retain_match_def sat_add_def)
qed

lemma tbl_sum_le: "(\<forall>(k, v) \<in> set m. f v \<le> b) \<Longrightarrow> tbl_sum f m \<le> length m * b"
proof (induction m)
  case (Cons p m)
  then show ?case by (cases p) (fastforce simp: tbl_sum_def)
qed simp

lemma view_observe_match_ok:
  assumes ok: "view_ok sv"
    and fits: "vc_max_streams (sv_config sv) * vc_max_matches_per_stream (sv_config sv) \<le> u64_max"
  shows "view_ok (view_observe_match sv m) \<and> sv_config (view_observe_match sv m) = sv_config sv
    \<and> fst ` set (sv_streams (view_observe_match sv m)) = fst ` set (sv_streams sv)"
proof (cases "map_of (sv_streams sv) (pm_stream_id m)")
  case None
  then show ?thesis using ok by (simp add: view_observe_match_def view_ok_def Let_def)
next
  case (Some e)
  let ?i = "pm_stream_id m" and ?p = "pm_pattern_id m" and ?mx = "vc_max_matches_per_stream (sv_config sv)"
  let ?e1 = "e\<lparr>ve_match_count := sat_add (ve_match_count e) 1, ve_pattern_ids := List.insert ?p (ve_pattern_ids e)\<rparr>"
  have tbl: "tbl_ok (sv_streams sv)" using ok by (simp add: view_ok_def fifo_ok_def)
  have ent: "view_entry_ok (sv_config sv) ?i e" by (rule view_ok_entry[OF ok Some])
  have stored: "tbl_sum (\<lambda>e. length (ve_matches e)) (AList.update ?i x (sv_streams sv)) + length (ve_matches e)
      = tbl_sum (\<lambda>e. length (ve_matches e)) (sv_streams sv) + length (ve_matches x)" for x
    by (rule tbl_sum_update_present[OF tbl Some])
  define rest where "rest = tbl_sum (\<lambda>e. length (ve_matches e)) (sv_streams sv) - length (ve_matches e)"
  have rest: "tbl_sum (\<lambda>e. length (ve_matches e)) (sv_streams sv) = rest + length (ve_matches e)"
    using tbl_sum_ge[OF Some, of "\<lambda>e. length (ve_matches e)"] by (simp add: rest_def)
  obtain x stats' where x: "view_observe_match sv m = sv\<lparr>sv_matched_streams := List.insert ?i (sv_matched_streams sv),
      sv_pattern_index := index_pattern ?i ?p (sv_pattern_index sv),
      sv_streams := AList.update ?i x (sv_streams sv), sv_stats := stats'\<rparr>"
    "ve_stream_id x = ve_stream_id e" "ve_match_count x = sat_add (ve_match_count e) 1"
    "ve_pattern_ids x = List.insert ?p (ve_pattern_ids e)"
    "length (ve_matches x) \<le> ?mx" "vst_stored_matches stats' = rest + length (ve_matches x)"
  proof (cases "?mx = 0")
    case True
    let ?stats = "(sv_stats sv)\<lparr>vst_dropped_matches := sat_add (vst_dropped_matches (sv_stats sv)) 1\<rparr>"
    have "length (ve_matches e) \<le> ?mx" using ent by (simp add: view_entry_ok_def)
    moreover have "vst_stored_matches ?stats = rest + length (ve_matches e)"
      using ok rest by (simp add: view_ok_def)
    ultimately show thesis
      by (intro that[where x = ?e1 and stats' = ?stats])
        (simp_all add: view_observe_match_def Let_def Some True)
  next
    case False
    obtain ms stats' where r: "retain_match ?mx (ve_matches e) m (sv_stats sv) = (ms, stats')" by fastforce
    have "rest + ?mx \<le> u64_max"
    proof -
      have del: "tbl_sum (\<lambda>e. length (ve_matches e)) (AList.delete ?i (sv_streams sv)) = rest"
        using tbl_sum_delete[OF tbl Some, of "\<lambda>e. length (ve_matches e)"] rest by simp
      have "\<forall>(k, v) \<in> set (AList.delete ?i (sv_streams sv)). length (ve_matches v) \<le> ?mx"
        using ok by (auto simp: view_ok_def view_entry_ok_def AList.delete_eq)
      from tbl_sum_le[OF this] have "rest \<le> length (AList.delete ?i (sv_streams sv)) * ?mx" using del by simp
      moreover have "Suc (length (AList.delete ?i (sv_streams sv))) \<le> vc_max_streams (sv_config sv)"
      proof -
        have "?i \<in> fst ` set (sv_streams sv)" using map_of_SomeD[OF Some] by force
        moreover have "length (sv_streams sv) \<le> vc_max_streams (sv_config sv)" using ok by (simp add: view_ok_def)
        ultimately show ?thesis by (simp add: length_delete_present[OF tbl])
      qed
      ultimately have "rest + ?mx \<le> vc_max_streams (sv_config sv) * ?mx"
        using mult_le_mono1[of "Suc (length (AList.delete ?i (sv_streams sv)))" "vc_max_streams (sv_config sv)" ?mx] by simp
      then show ?thesis using fits by simp
    qed
    then have spec: "length ms \<le> ?mx \<and> vst_stored_matches stats' = rest + length ms"
    proof (intro retain_match_spec[OF _ _ _ _ r])
      show "length (ve_matches e) \<le> ?mx" using ent by (simp add: view_entry_ok_def)
      show "vst_stored_matches (sv_stats sv) = rest + length (ve_matches e)" using ok rest by (simp add: view_ok_def)
    qed (use False in simp)
    show thesis
      by (rule that[where x = "?e1\<lparr>ve_matches := ms\<rparr>" and stats' = stats'])
        (simp_all add: view_observe_match_def Let_def Some False r spec)
  qed
  have xent: "view_entry_ok (sv_config sv) ?i x"
  proof -
    have "set (ve_pattern_ids x) \<noteq> {}" by (simp add: x(4))
    then have "ve_pattern_ids x \<noteq> []" by (metis empty_set)
    moreover have "ve_match_count x \<noteq> 0" by (simp add: x(3) sat_add_def u64_max_def)
    moreover have "distinct (ve_pattern_ids x)" using ent by (simp add: x(4) view_entry_ok_def distinct_insert)
    ultimately show ?thesis using ent x(2,5) by (simp add: view_entry_ok_def)
  qed
  have all: "\<forall>(k, s) \<in> set (AList.update ?i x (sv_streams sv)). view_entry_ok (sv_config sv) k s"
  proof (rule tbl_update_all)
    show "\<forall>(k, s) \<in> set (sv_streams sv). view_entry_ok (sv_config sv) k s" using ok by (simp add: view_ok_def)
  qed (rule xent)
  have i: "?i \<in> fst ` set (sv_streams sv)" using map_of_SomeD[OF Some] by force
  then have keys: "insert ?i (fst ` set (sv_streams sv)) = fst ` set (sv_streams sv)" by blast
  have fifo: "fifo_ok (AList.update ?i x (sv_streams sv)) (sv_order sv)"
    using ok i by (intro fifo_ok_update) (simp_all add: view_ok_def fifo_ok_def)
  have len: "length (AList.update ?i x (sv_streams sv)) = length (sv_streams sv)"
    using Some by (intro length_update_present) simp
  have matched: "j \<in> set (List.insert ?i (sv_matched_streams sv))
      \<longleftrightarrow> (\<exists>y. map_of (AList.update ?i x (sv_streams sv)) j = Some y \<and> ve_match_count y \<noteq> 0)" for j
    using ok by (auto simp: update_conv' view_ok_def x(3) sat_add_def u64_max_def)
  have index: "j \<in> indexed (index_pattern ?i ?p (sv_pattern_index sv)) p
      \<longleftrightarrow> (\<exists>y. map_of (AList.update ?i x (sv_streams sv)) j = Some y \<and> p \<in> set (ve_pattern_ids y))" for j p
    using ok Some by (auto simp: update_conv' view_ok_def x(4) indexed_index_pattern)
  have sum: "vst_stored_matches stats' = tbl_sum (\<lambda>e. length (ve_matches e)) (AList.update ?i x (sv_streams sv))"
    using stored[of x] rest x(6) by simp
  show ?thesis
    unfolding x(1)
    using ok fifo len all matched index sum keys index_pattern_wf[of "sv_pattern_index sv" ?i ?p]
    by (simp add: view_ok_def tbl_simps distinct_insert)
qed

lemma view_observe_protocol_message_ok:
  assumes ok: "view_ok sv"
  shows "view_ok (view_observe_protocol_message from_value sv ev)
    \<and> sv_config (view_observe_protocol_message from_value sv ev) = sv_config sv
    \<and> fst ` set (sv_streams (view_observe_protocol_message from_value sv ev)) = fst ` set (sv_streams sv)"
proof (cases "message_from_event from_value ev")
  case None
  then show ?thesis using ok by (simp add: view_observe_protocol_message_def)
next
  case m: (Some m)
  show ?thesis
  proof (cases "map_of (sv_streams sv) (msg_stream_id m)")
    case None
    then show ?thesis using ok m by (simp add: view_observe_protocol_message_def)
  next
    case (Some e)
    have i: "insert (msg_stream_id m) (fst ` set (sv_streams sv)) = fst ` set (sv_streams sv)"
      using map_of_SomeD[OF Some] by force
    show ?thesis
      using ok m Some view_replace_ok[OF ok Some] view_ok_entry[OF ok Some] i
      by (simp add: view_observe_protocol_message_def Let_def view_entry_ok_def tbl_simps)
  qed
qed

subsection \<open>Runs\<close>

text \<open>What the coordinator and the HTTP interface do to the view.\<close>

datatype view_op =
    ObserveEvent event
  | SetFavorite u64w bool
  | SetHidden u64w bool
  | AddHideRule hide_rule
  | ClearHideRules

fun view_step :: "(json \<Rightarrow> stream_message option) \<Rightarrow> view_op \<Rightarrow> view_state \<Rightarrow> view_state" where
  "view_step from_value (ObserveEvent ev) sv = view_observe_event from_value sv ev"
| "view_step from_value (SetFavorite i b) sv = snd (view_set_favorite sv i b)"
| "view_step from_value (SetHidden i b) sv = snd (view_set_hidden sv i b)"
| "view_step from_value (AddHideRule rule) sv = view_add_hide_rule sv rule"
| "view_step from_value ClearHideRules sv = view_clear_hide_rules sv"

text \<open>The stream that an operation can add: the one that an event of the inventory describes.\<close>

fun view_target :: "view_op \<Rightarrow> u64w option" where
  "view_target (ObserveEvent ev) =
     (if ev_analyzer ev = ''stream_inventory''
        \<and> (ev_event_type ev = ''stream_open'' \<or> ev_event_type ev = ''stream_update'')
      then map_option ve_stream_id (view_entry_from_event ev) else None)"
| "view_target _ = None"

definition view_config_ok :: "view_config \<Rightarrow> bool" where
  "view_config_ok config \<longleftrightarrow> vc_enabled config \<and> 0 < vc_max_streams config
     \<and> vc_max_streams config * vc_max_matches_per_stream config \<le> u64_max"

definition view_inv :: "view_state \<Rightarrow> bool" where
  "view_inv sv \<longleftrightarrow> view_ok sv \<and> view_config_ok (sv_config sv)"

abbreviation view_keys :: "view_state \<Rightarrow> u64w set" where
  "view_keys sv \<equiv> fst ` set (sv_streams sv)"

lemma view_observe_event_ok:
  assumes inv: "view_inv sv"
  shows "view_ok (view_observe_event from_value sv ev) \<and> sv_config (view_observe_event from_value sv ev) = sv_config sv
    \<and> view_keys (view_observe_event from_value sv ev) \<subseteq> view_keys sv \<union> set_option (view_target (ObserveEvent ev))
    \<and> set_option (view_target (ObserveEvent ev)) \<subseteq> view_keys (view_observe_event from_value sv ev)"
proof -
  have ok: "view_ok sv" and on: "vc_enabled (sv_config sv)" "0 < vc_max_streams (sv_config sv)"
    and fits: "vc_max_streams (sv_config sv) * vc_max_matches_per_stream (sv_config sv) \<le> u64_max"
    using inv by (simp_all add: view_inv_def view_config_ok_def)
  consider (inventory) "ev_analyzer ev = ''stream_inventory''
      \<and> (ev_event_type ev = ''stream_open'' \<or> ev_event_type ev = ''stream_update'')"
    | (match) "ev_analyzer ev = ''pattern'' \<and> ev_event_type ev = ''pattern_match''"
    | (message) "ev_analyzer ev = ''protocol_message''"
    | (other) "\<not> (ev_analyzer ev = ''stream_inventory''
        \<and> (ev_event_type ev = ''stream_open'' \<or> ev_event_type ev = ''stream_update''))"
      "\<not> (ev_analyzer ev = ''pattern'' \<and> ev_event_type ev = ''pattern_match'')" "ev_analyzer ev \<noteq> ''protocol_message''"
    by blast
  then show ?thesis
  proof cases
    case inventory
    show ?thesis
    proof (cases "view_entry_from_event ev")
      case None
      then show ?thesis using inventory on ok by (simp add: view_observe_event_def)
    next
      case (Some e)
      note u = view_upsert_stream_ok[OF ok view_entry_from_event_fresh[OF Some]]
      have "view_observe_event from_value sv ev = view_upsert_stream sv e"
        using inventory on Some by (simp add: view_observe_event_def)
      then show ?thesis using u on inventory Some by simp
    qed
  next
    case match
    then have none: "view_target (ObserveEvent ev) = None" by simp
    show ?thesis
    proof (cases "pattern_match_from_event ev")
      case None
      then have "view_observe_event from_value sv ev = sv" using match on by (simp add: view_observe_event_def)
      then show ?thesis using ok none by simp
    next
      case (Some m)
      then have "view_observe_event from_value sv ev = view_observe_match sv m"
        using match on by (simp add: view_observe_event_def)
      then show ?thesis using view_observe_match_ok[OF ok fits, of m] none by simp
    qed
  next
    case message
    then have "view_target (ObserveEvent ev) = None"
      "view_observe_event from_value sv ev = view_observe_protocol_message from_value sv ev"
      using on by (simp_all add: view_observe_event_def)
    then show ?thesis using view_observe_protocol_message_ok[OF ok, of from_value ev] by simp
  next
    case other
    then have "view_target (ObserveEvent ev) = None" "view_observe_event from_value sv ev = sv"
      using on by (simp_all only: view_observe_event_def view_target.simps if_False if_True simp_thms)
    then show ?thesis using ok by simp
  qed
qed

lemma view_set_favorite_ok:
  assumes ok: "view_ok sv"
  shows "view_ok (snd (view_set_favorite sv i b))"
proof (cases "map_of (sv_streams sv) i")
  case (Some e)
  have "i \<in> view_keys sv" using map_of_SomeD[OF Some] by force
  then show ?thesis
    using ok Some by (auto simp: view_set_favorite_def view_ok_def distinct_insert distinct_removeAll)
qed (simp add: view_set_favorite_def ok)

lemma view_set_hidden_ok:
  assumes ok: "view_ok sv"
  shows "view_ok (snd (view_set_hidden sv i b))"
proof (cases "map_of (sv_streams sv) i")
  case (Some e)
  have "i \<in> view_keys sv" using map_of_SomeD[OF Some] by force
  then show ?thesis
    using ok Some by (auto simp: view_set_hidden_def view_ok_def distinct_insert distinct_removeAll)
qed (simp add: view_set_hidden_def ok)

lemma view_step_ok:
  assumes inv: "view_inv sv"
  shows "view_ok (view_step from_value op sv) \<and> sv_config (view_step from_value op sv) = sv_config sv
    \<and> view_keys (view_step from_value op sv) \<subseteq> view_keys sv \<union> set_option (view_target op)
    \<and> set_option (view_target op) \<subseteq> view_keys (view_step from_value op sv)"
proof -
  have ok: "view_ok sv" using inv by (simp add: view_inv_def)
  show ?thesis
  proof (cases op)
    case (ObserveEvent ev)
    then show ?thesis using view_observe_event_ok[OF inv, of from_value ev] by (simp only: view_step.simps)
  next
    case (SetFavorite i b)
    then show ?thesis using view_set_favorite_ok[OF ok, of i b] by (simp add: view_set_favorite_def)
  next
    case (SetHidden i b)
    then show ?thesis using view_set_hidden_ok[OF ok, of i b] by (simp add: view_set_hidden_def)
  next
    case (AddHideRule rule)
    then show ?thesis using ok by (simp add: view_add_hide_rule_def view_ok_def Let_def)
  next
    case ClearHideRules
    then show ?thesis using ok by (simp add: view_clear_hide_rules_def view_ok_def)
  qed
qed

lemma view_keys_card:
  assumes "view_inv sv"
  shows "finite (view_keys sv) \<and> card (view_keys sv) \<le> vc_max_streams (sv_config sv)"
proof -
  have "length (sv_streams sv) \<le> vc_max_streams (sv_config sv)" using assms by (simp add: view_inv_def view_ok_def)
  then show ?thesis using card_length[of "map fst (sv_streams sv)"] by simp
qed

interpretation view: bounded_registry "view_step from_value" view_keys view_target view_inv
  "\<lambda>sv. vc_max_streams (sv_config sv)" for from_value
proof unfold_locales
  fix x sv k
  assume inv: "view_inv sv"
  note s = view_step_ok[OF inv, of from_value x]
  show "view_inv (view_step from_value x sv)" using s inv by (simp add: view_inv_def)
  show "view_keys (view_step from_value x sv) \<subseteq> view_keys sv \<union> set_option (view_target x)" using s by blast
  show "view_target x = Some k \<Longrightarrow> k \<in> view_keys (view_step from_value x sv)" using s by auto
  show "vc_max_streams (sv_config (view_step from_value x sv)) = vc_max_streams (sv_config sv)" using s by simp
qed (rule view_keys_card)


subsection \<open>Pages\<close>

text \<open>The rows that a query selects among some streams, and the pages that a client follows.\<close>

definition view_rows :: "view_state \<Rightarrow> view_query \<Rightarrow> u64w list \<Rightarrow> view_row list" where
  "view_rows sv q ids = map (\<lambda>e. view_row_of sv e (hidden_reason sv e))
     (filter (\<lambda>e. matches_query sv e q (hidden_reason sv e)) (List.map_filter (map_of (sv_streams sv)) ids))"

lemma view_rows_append: "view_rows sv q (xs @ ys) = view_rows sv q xs @ view_rows sv q ys"
  by (simp add: view_rows_def List.map_filter_def)

fun view_pages :: "nat \<Rightarrow> view_state \<Rightarrow> view_query \<Rightarrow> view_row list" where
  "view_pages 0 sv q = []"
| "view_pages (Suc n) sv q = (let page = view_query_streams sv q in
     vqr_rows page @ (case vqr_next_cursor page of None \<Rightarrow> [] | Some c \<Rightarrow> view_pages n sv (q\<lparr>vq_cursor := c\<rparr>)))"

lemma view_query_loop_spec:
  assumes "index + length ids = length (sv_order sv)" "length rows < view_limit sv q"
  shows "\<exists>k \<le> length ids. vqr_rows (view_query_loop sv q index ids rows scanned) = rows @ view_rows sv q (take k ids)
    \<and> (vqr_next_cursor (view_query_loop sv q index ids rows scanned)
        = (if k < length ids then Some (index + k) else None)) \<and> (ids \<noteq> [] \<longrightarrow> 0 < k)
    \<and> length (vqr_rows (view_query_loop sv q index ids rows scanned)) \<le> view_limit sv q"
  using assms
proof (induction ids arbitrary: index rows scanned)
  case Nil
  then show ?case by (simp add: view_rows_def List.map_filter_simps)
next
  case (Cons i ids)
  have skip: ?case
    if "view_query_loop sv q index (i # ids) rows scanned = view_query_loop sv q (index + 1) ids rows' scanned'"
      "rows' = rows @ view_rows sv q [i]" and short: "length rows' < view_limit sv q" for rows' scanned'
  proof -
    obtain k where k: "k \<le> length ids"
      "vqr_rows (view_query_loop sv q (index + 1) ids rows' scanned') = rows' @ view_rows sv q (take k ids)"
      "vqr_next_cursor (view_query_loop sv q (index + 1) ids rows' scanned')
        = (if k < length ids then Some (index + 1 + k) else None)"
      "length (vqr_rows (view_query_loop sv q (index + 1) ids rows' scanned')) \<le> view_limit sv q"
      using Cons.IH[of "index + 1" rows' scanned'] Cons.prems(1) short by auto
    have "view_rows sv q (take (Suc k) (i # ids)) = view_rows sv q [i] @ view_rows sv q (take k ids)"
      using view_rows_append[of sv q "[i]" "take k ids"] by simp
    then show ?thesis unfolding that(1) using k that(2) by (intro exI[of _ "Suc k"]) simp
  qed
  show ?case
  proof (cases "map_of (sv_streams sv) i")
    case None
    then have "view_rows sv q [i] = []" by (simp add: view_rows_def List.map_filter_simps)
    then show ?thesis using None Cons.prems(2) by (intro skip[of rows scanned]) simp_all
  next
    case (Some e)
    let ?reason = "hidden_reason sv e"
    show ?thesis
    proof (cases "matches_query sv e q ?reason")
      case False
      then have "view_rows sv q [i] = []" using Some by (simp add: view_rows_def List.map_filter_simps)
      then show ?thesis using Some False Cons.prems(2) by (intro skip[of rows "sat_add scanned 1"]) (simp_all add: Let_def)
    next
      case True
      let ?rows = "rows @ [view_row_of sv e ?reason]"
      have one: "view_rows sv q [i] = [view_row_of sv e ?reason]"
        using Some True by (simp add: view_rows_def List.map_filter_simps)
      show ?thesis
      proof (cases "length ?rows = view_limit sv q")
        case full: True
        then have loop: "view_query_loop sv q index (i # ids) rows scanned = \<lparr>vqr_rows = ?rows,
            vqr_next_cursor = (if index + 1 < length (sv_order sv) then Some (index + 1) else None),
            vqr_scanned = sat_add scanned 1\<rparr>"
          using Some True by (simp add: Let_def)
        have "take 1 (i # ids) = [i]" by simp
        then show ?thesis
          unfolding loop using one full Cons.prems(1) by (intro exI[of _ 1]) (cases ids; auto)
      next
        case False
        then show ?thesis
          using Some True one Cons.prems(2) by (intro skip[of ?rows "sat_add scanned 1"]) (simp_all add: Let_def)
      qed
    qed
  qed
qed

lemma view_rows_cursor: "view_rows sv (q\<lparr>vq_cursor := c\<rparr>) = view_rows sv q"
proof -
  have "matches_query sv e (q\<lparr>vq_cursor := c\<rparr>) r = matches_query sv e q r" for e r
    by (simp add: matches_query_def)
  then show ?thesis by (intro ext) (simp add: view_rows_def)
qed

text \<open>
  Paging through the streams by \<^verbatim>\<open>next_cursor\<close>, whatever the limit asked for, lists the rows that the
  query selects, each once and in the order of the deque, with at most as many pages as there are streams;
  hidden streams are among them only if the query includes them.
\<close>

theorem view_pages_complete:
  assumes "vc_enabled (sv_config sv)" "length (sv_order sv) \<le> vq_cursor q + n" "vq_cursor q \<le> length (sv_order sv)"
  shows "view_pages (Suc n) sv q = view_rows sv q (drop (vq_cursor q) (sv_order sv))
    \<and> length (vqr_rows (view_query_streams sv q)) \<le> view_limit sv q"
  using assms
proof (induction n arbitrary: q rule: less_induct)
  case (less n)
  let ?c = "vq_cursor q" and ?ids = "drop (vq_cursor q) (sv_order sv)"
  let ?page = "view_query_streams sv q"
  have page: "?page = view_query_loop sv q ?c ?ids [] 0" using less.prems by (simp add: view_query_streams_def Let_def)
  have limit: "0 < view_limit sv q" by (simp add: view_limit_def less_max_iff_disj)
  obtain k where k: "k \<le> length ?ids" "vqr_rows ?page = view_rows sv q (take k ?ids)"
    "vqr_next_cursor ?page = (if k < length ?ids then Some (?c + k) else None)" "?ids \<noteq> [] \<longrightarrow> 0 < k"
    "length (vqr_rows ?page) \<le> view_limit sv q"
    using view_query_loop_spec[of ?c ?ids sv "[]" q 0] limit less.prems unfolding page by auto
  show ?case
  proof (cases "k < length ?ids")
    case True
    then have pos: "0 < k" using k(4) by auto
    obtain m where m: "n = Suc m" using True less.prems by (cases n) auto
    let ?q = "q\<lparr>vq_cursor := ?c + k\<rparr>"
    have "view_pages (Suc m) sv ?q = view_rows sv ?q (drop (vq_cursor ?q) (sv_order sv))"
      using less.IH[of m ?q] m less.prems True pos by simp
    then have "view_pages (Suc m) sv ?q = view_rows sv q (drop k ?ids)"
      by (simp add: view_rows_cursor add.commute)
    then have "view_pages (Suc n) sv q = view_rows sv q (take k ?ids) @ view_rows sv q (drop k ?ids)"
      using k(2,3) True m by (simp add: Let_def)
    also have "\<dots> = view_rows sv q ?ids" by (simp only: view_rows_append[symmetric] append_take_drop_id)
    finally show ?thesis using k(5) by blast
  next
    case False
    then show ?thesis using k by (simp add: Let_def)
  qed
qed

subsection \<open>Profile counters\<close>

lemma profile_stats_fold:
  assumes "sps_total_streams s + length ids \<le> u64_max" "sps_visible_streams s \<le> sps_total_streams s"
    "sps_hidden_streams s \<le> sps_total_streams s"
  shows "sps_total_streams (foldl (profile_stats_step sv p) s ids)
      = sps_total_streams s + length (filter (\<lambda>e. matches_profile e p) (List.map_filter (map_of (sv_streams sv)) ids))
    \<and> sps_visible_streams (foldl (profile_stats_step sv p) s ids)
      = sps_visible_streams s + length (filter (\<lambda>e. matches_profile e p \<and> hidden_reason sv e = None)
          (List.map_filter (map_of (sv_streams sv)) ids))"
  using assms
proof (induction ids arbitrary: s)
  case (Cons i ids)
  show ?case
  proof (cases "map_of (sv_streams sv) i")
    case None
    then show ?thesis using Cons.IH[of s] Cons.prems by (simp add: profile_stats_step_def List.map_filter_simps)
  next
    case (Some e)
    show ?thesis
    proof (cases "matches_profile e p")
      case False
      then show ?thesis
        using Some Cons.IH[of s] Cons.prems by (simp add: profile_stats_step_def List.map_filter_simps)
    next
      case True
      let ?s = "profile_stats_step sv p s i"
      have s: "sps_total_streams ?s = sps_total_streams s + 1"
        "sps_visible_streams ?s = sps_visible_streams s + (if hidden_reason sv e = None then 1 else 0)"
        "sps_hidden_streams ?s = sps_hidden_streams s + (if hidden_reason sv e = None then 0 else 1)"
        using Some True Cons.prems by (simp_all add: profile_stats_step_def Let_def sat_add_def)
      show ?thesis
        using Some True Cons.IH[of ?s] Cons.prems s by (simp add: List.map_filter_simps)
    qed
  qed
qed (simp add: List.map_filter_simps)

text \<open>
  The counters of a service profile agree with what the same profile lists: \<open>visible_streams\<close> is the
  number of rows of the query by profile, \<open>total_streams\<close> their number when hidden streams are included.
\<close>

theorem profile_stats_count_rows:
  assumes "vc_enabled (sv_config sv)" "length (sv_order sv) \<le> u64_max"
  shows "sps_visible_streams (view_profile_stats sv p)
      = length (view_rows sv (view_query_default\<lparr>vq_profile := Some p\<rparr>) (sv_order sv))
    \<and> sps_total_streams (view_profile_stats sv p)
      = length (view_rows sv (view_query_default\<lparr>vq_profile := Some p, vq_include_hidden := True\<rparr>) (sv_order sv))"
proof -
  have visible: "matches_query sv e (view_query_default\<lparr>vq_profile := Some p\<rparr>) r
      \<longleftrightarrow> matches_profile e p \<and> r = None" for e r
    by (auto simp: matches_query_def view_query_default_def opt_rejects_def)
  have all: "matches_query sv e (view_query_default\<lparr>vq_profile := Some p, vq_include_hidden := True\<rparr>) r
      \<longleftrightarrow> matches_profile e p" for e r
    by (simp add: matches_query_def view_query_default_def opt_rejects_def)
  show ?thesis
    using profile_stats_fold[of "\<lparr>sps_total_streams = 0, sps_visible_streams = 0, sps_hidden_streams = 0,
        sps_matched_streams = 0, sps_favorite_streams = 0\<rparr>" "sv_order sv" sv p] assms
    by (simp add: view_profile_stats_def view_rows_def visible all)
qed

subsection \<open>Reading the inventory's events\<close>

definition view_kind_of :: "content_kind \<Rightarrow> view_content_kind" where
  "view_kind_of k = (case k of KindUnknown \<Rightarrow> ViewKindUnknown | KindText \<Rightarrow> ViewText | KindBinary \<Rightarrow> ViewBinary
     | KindMixed \<Rightarrow> ViewMixed)"

definition view_status_of :: "stream_status \<Rightarrow> view_status" where
  "view_status_of s = (case s of StatusOpen \<Rightarrow> ViewOpen | StatusClosing \<Rightarrow> ViewClosing | StatusClosed \<Rightarrow> ViewClosed)"

definition view_direction_of :: "(bytes \<Rightarrow> string) \<Rightarrow> inventory_direction \<Rightarrow> view_direction" where
  "view_direction_of b64 d = \<lparr>vd_packets = ird_packets d, vd_bytes = ird_bytes d,
     vd_payload_bytes = ird_payload_bytes d, vd_stream_bytes = ird_stream_bytes d,
     vd_stream_chunks = ird_stream_chunks d, vd_first_sequence = ird_first_sequence d,
     vd_last_sequence = ird_last_sequence d, vd_content_kind = view_kind_of (sampler_kind (ird_content d)),
     vd_preview_base64 = b64 (ird_preview d),
     vd_preview_text = inventory_preview_text (ird_preview d) (sampler_kind (ird_content d))\<rparr>"

definition view_endpoint_of :: "endpoint \<Rightarrow> view_endpoint" where
  "view_endpoint_of e = \<lparr>vep_addr = ep_addr e, vep_port = ep_port e\<rparr>"

text \<open>The entry that the view should have of a record.\<close>

definition view_entry_of :: "(bytes \<Rightarrow> string) \<Rightarrow> inventory_record \<Rightarrow> view_entry" where
  "view_entry_of b64 r = \<lparr>ve_stream_id = ir_id r, ve_content_shard = ir_content_shard r,
     ve_first_seen_us = ir_first_seen_us r, ve_last_seen_us = ir_last_seen_us r,
     ve_protocol = fk_protocol (ir_key r), ve_endpoint_a = view_endpoint_of (fk_a (ir_key r)),
     ve_endpoint_b = view_endpoint_of (fk_b (ir_key r)),
     ve_service = \<lparr>vse_name = pd_service (ir_service r), vse_side = service_side_as_str (pd_side (ir_service r)),
       vse_confidence = pd_confidence (ir_service r),
       vse_source = Some (detection_source_as_str (pd_source (ir_service r))),
       vse_evidence = Some (pd_evidence (ir_service r))\<rparr>,
     ve_status = view_status_of (ir_status r), ve_content_kind = view_kind_of (ir_content_kind r),
     ve_packets = ir_packets r, ve_bytes = ir_bytes r, ve_payload_bytes = ir_payload_bytes r,
     ve_stream_bytes = ir_stream_bytes r, ve_stream_chunks = ir_stream_chunks r,
     ve_directions = (view_direction_of b64 (fst (ir_directions r)), view_direction_of b64 (snd (ir_directions r))),
     ve_matches = [], ve_match_count = 0, ve_pattern_ids = []\<rparr>"

lemma view_status_read [simp]: "view_status_from_str (stream_status_as_str s) = view_status_of s"
  by (cases s) (simp_all add: view_status_from_str_def view_status_of_def)

lemma view_kind_read [simp]: "view_kind_from_str (content_kind_as_str k) = view_kind_of k"
  by (cases k) (simp_all add: view_kind_from_str_def view_kind_of_def)

lemma unat_u32_less: "unat (v :: u32) < 4294967296"
  using unsigned_less[of v, where 'a = nat] by simp

lemma unat_u16_less: "unat (v :: u16) \<le> 65535"
  using unsigned_less[of v, where 'a = nat] by simp

lemma view_direction_read:
  assumes "json_get v name = Some (ird_fields b64 d)"
  shows "view_direction_field v name = Some (view_direction_of b64 d)"
  using assms unat_u32_less
  by (cases "ird_first_sequence d"; cases "ird_last_sequence d")
    (simp_all add: view_direction_field_def ird_fields_def json_field_defs json_u64_option_def Let_def
      view_direction_of_def split: option.split)

definition endpoint_text_ok :: "endpoint \<Rightarrow> bool" where
  "endpoint_text_ok e \<longleftrightarrow> (case ep_addr e of V4 a \<Rightarrow> length a = 4
     | V6 a \<Rightarrow> parse_ip_addr (show_ipv6 a) = Some (V6 a))"

lemma view_endpoint_read:
  assumes "json_get v name = Some (endpoint_fields e)" "endpoint_text_ok e"
  shows "view_endpoint_field v name = Some (view_endpoint_of e)"
  using assms unat_u16_less[of "ep_port e"]
  by (auto simp: view_endpoint_field_def endpoint_fields_def json_field_defs endpoint_text_ok_def parse_show_ipv4
      view_endpoint_of_def split: ip_addr.splits)

lemma view_entry_read:
  assumes "ev_fields ev = ir_fields b64 r" "endpoint_text_ok (fk_a (ir_key r))" "endpoint_text_ok (fk_b (ir_key r))"
    and "pd_confidence (ir_service r) \<le> 255"
  shows "view_entry_from_event ev = Some (view_entry_of b64 r)"
proof -
  let ?v = "ir_fields b64 r"
  note f = ir_fields_def json_get_def
  have id: "stream_id_field ?v ''stream_id'' = Some (ir_id r)"
    by (rule stream_id_field_hex) (simp add: f string_field_def view_stream_id_hex_def)
  have shard: "optional_usize_field ?v ''content_shard'' = Some (ir_content_shard r)"
    by (simp add: f optional_usize_field_def json_u64_option_def json_as_u64_def split: option.split)
  have counters: "u64_field ?v ''first_seen_us'' = Some (ir_first_seen_us r)" "u64_field ?v ''last_seen_us'' = Some (ir_last_seen_us r)"
    "u64_field ?v ''packets'' = Some (ir_packets r)" "u64_field ?v ''bytes'' = Some (ir_bytes r)"
    "u64_field ?v ''payload_bytes'' = Some (ir_payload_bytes r)" "u64_field ?v ''stream_bytes'' = Some (ir_stream_bytes r)"
    "u64_field ?v ''stream_chunks'' = Some (ir_stream_chunks r)"
    by (simp_all add: f u64_field_def json_as_u64_def)
  have texts: "protocol_field ?v ''protocol'' = Some (fk_protocol (ir_key r))"
    "status_field ?v ''status'' = Some (view_status_of (ir_status r))"
    "content_kind_field ?v ''content_kind'' = Some (view_kind_of (ir_content_kind r))"
    by (simp_all add: f protocol_field_def status_field_def content_kind_field_def string_field_def)
  have ends: "view_endpoint_field ?v ''endpoint_a'' = Some (view_endpoint_of (fk_a (ir_key r)))"
    "view_endpoint_field ?v ''endpoint_b'' = Some (view_endpoint_of (fk_b (ir_key r)))"
    by (rule view_endpoint_read; simp add: f assms(2,3))+
  have service: "view_service_field ?v ''service'' = Some (ve_service (view_entry_of b64 r))"
    using assms(4) by (simp add: f view_service_field_def string_field_def u8_field_def u64_field_def json_as_u64_def view_entry_of_def)
  have dirs: "view_directions_field ?v = Some (view_direction_of b64 (fst (ir_directions r)), view_direction_of b64 (snd (ir_directions r)))"
  proof -
    let ?d = "JObject [(''a_to_b'', ird_fields b64 (fst (ir_directions r))), (''b_to_a'', ird_fields b64 (snd (ir_directions r)))]"
    have "view_direction_field ?d ''a_to_b'' = Some (view_direction_of b64 (fst (ir_directions r)))"
      "view_direction_field ?d ''b_to_a'' = Some (view_direction_of b64 (snd (ir_directions r)))"
      by (rule view_direction_read; simp add: json_get_def)+
    moreover have "json_get ?v ''directions'' = Some ?d" by (simp add: f)
    ultimately show ?thesis by (simp add: view_directions_field_def)
  qed
  show ?thesis
    by (simp add: view_entry_from_event_def assms(1) id shard counters texts ends service dirs Let_def)
      (simp add: view_entry_of_def)
qed

text \<open>
  C26. What the inventory reports is what the view learns: when a packet of a flow makes the inventory emit
  an event, reading that event gives the view the stream's identifier, key, counters, previews, service,
  status and content kind exactly as the inventory's record of the flow has them.
\<close>

theorem inventory_events_read_back:
  assumes "inventory_ok config iv" "ic_enabled config" "0 < ic_max_streams config"
    and "endpoint_text_ok (fk_a (fo_key flow))" "endpoint_text_ok (fk_b (fo_key flow))"
    and "iv_observe_flow b64 iv packet flow shard events = (iv', events @ [ev])"
  shows "\<exists>r. map_of (iv_streams iv') (fo_key flow) = Some r \<and> view_entry_from_event ev = Some (view_entry_of b64 r)"
proof -
  obtain created previous iv1 where s:
    "iv_ensure_stream (iv_begin_observe iv (inventory_timestamp_us (dp_timestamp packet))) (fo_key flow)
       (inventory_timestamp_us (dp_timestamp packet)) = (Some created, iv1)"
    "inventory_ok config iv1" "map_of (iv_streams iv1) (fo_key flow) = Some previous"
    by (rule iv_observe_flow_step[OF assms(1-3), of packet flow b64 shard events])
  let ?r = "ir_observe (ic_preview_bytes config) packet flow shard previous"
  obtain ty r1 where ev: "ir_event config created previous ?r = (ty, r1)" by fastforce
  have conf: "iv_config iv = config" "iv_config iv1 = config" using assms(1) s(2) by (simp_all add: inventory_ok_def)
  have "inventory_record_ok (ic_preview_bytes config) (fo_key flow) previous"
    using s(2) map_of_SomeD[OF s(3)] by (auto simp: inventory_ok_def)
  then have "inventory_record_ok (ic_preview_bytes config) (fo_key flow) (snd (ir_event config created previous ?r))"
    by (intro ir_event_ok ir_observe_ok)
  then have r1: "ir_key r1 = fo_key flow" "pd_confidence (ir_service r1) \<le> 255"
    by (simp_all add: ev inventory_record_ok_def)
  obtain t where t: "ty = Some t" "iv_streams iv' = AList.update (fo_key flow) r1 (iv_streams iv1)"
    "ev = event_from_packet ''stream_inventory'' t packet (length (dp_raw packet)) (ir_fields b64 r1)"
    using assms(6) unfolding iv_observe_flow_def
    by (auto simp: conf s(1,3) assms(2) ev Let_def split: option.splits)
  have "ev_fields ev = ir_fields b64 r1" by (simp add: t(3) event_from_packet_def Let_def split: prod.split)
  then have "view_entry_from_event ev = Some (view_entry_of b64 r1)"
    using r1 assms(4,5) by (intro view_entry_read) simp_all
  then show ?thesis using t(2) by (simp add: update_conv')
qed


subsection \<open>Witnesses\<close>

definition sample_inventory_config :: inventory_config where
  "sample_inventory_config = \<lparr>ic_enabled = True, ic_max_streams = 2, ic_idle_timeout_ms = 1000, ic_preview_bytes = 8,
     ic_update_packet_interval = 1, ic_update_byte_interval = 0\<rparr>"

definition sample_flow :: flow_observation where
  "sample_flow = \<lparr>fo_key = sample_key, fo_direction = AToB, fo_packets = 1, fo_bytes = 2, fo_is_new = True, fo_tcp = None\<rparr>"

definition sample_view_config :: view_config where
  "sample_view_config = \<lparr>vc_enabled = True, vc_max_streams = 2, vc_max_matches_per_stream = 4, vc_max_query_limit = 10\<rparr>"

lemma sample_inventory_ok:
  "inventory_ok sample_inventory_config (inventory_new sample_inventory_config)" "ic_enabled sample_inventory_config"
  "0 < ic_max_streams sample_inventory_config"
  by (simp_all add: inventory_ok_def inventory_new_def sample_inventory_config_def)

lemma sample_endpoints_ok: "endpoint_text_ok (fk_a (fo_key sample_flow))" "endpoint_text_ok (fk_b (fo_key sample_flow))"
  by (simp_all add: endpoint_text_ok_def sample_flow_def sample_key_def)

lemma sample_view_config_ok: "view_config_ok sample_view_config"
  by (simp add: view_config_ok_def sample_view_config_def u64_max_def)

text \<open>The first packet of a flow makes the inventory emit an event.\<close>

lemma sample_inventory_event:
  obtains iv' ev where "iv_observe_flow (\<lambda>_. []) (inventory_new sample_inventory_config) sample_packet sample_flow None []
      = (iv', [] @ [ev])" "ev_analyzer ev = ''stream_inventory''" "ev_event_type ev = ''stream_open''"
proof -
  let ?iv = "inventory_new sample_inventory_config"
  let ?now = "inventory_timestamp_us (dp_timestamp sample_packet)"
  obtain created previous iv1 where s:
    "iv_ensure_stream (iv_begin_observe ?iv ?now) (fo_key sample_flow) ?now = (Some created, iv1)"
    "inventory_ok sample_inventory_config iv1" "map_of (iv_streams iv1) (fo_key sample_flow) = Some previous"
    by (rule iv_observe_flow_step[OF sample_inventory_ok, of sample_packet sample_flow "\<lambda>_. []" None "[]"])
  have "iv_streams (iv_begin_observe ?iv ?now) = []"
    by (simp add: iv_begin_observe_def inventory_new_def iv_evict_idle_def Let_def)
  then have created: "created = True" using s(1) by (auto simp: iv_ensure_stream_def Let_def split: if_splits)
  have conf: "iv_config iv1 = sample_inventory_config" "iv_config ?iv = sample_inventory_config"
    using s(2) by (simp_all add: inventory_ok_def inventory_new_def)
  obtain iv' ev where "iv_observe_flow (\<lambda>_. []) ?iv sample_packet sample_flow None [] = (iv', [ev])"
    "ev_analyzer ev = ''stream_inventory''" "ev_event_type ev = ''stream_open''"
    using sample_inventory_ok(2)
    by (auto simp: iv_observe_flow_def s(1,3) conf created ir_event_def Let_def event_from_packet_def split: prod.splits)
  then show thesis using that by simp
qed

theorem inventory_events_read_back_witness:
  "\<exists>iv' ev r. iv_observe_flow (\<lambda>_. []) (inventory_new sample_inventory_config) sample_packet sample_flow None []
      = (iv', [] @ [ev]) \<and> view_entry_from_event ev = Some (view_entry_of (\<lambda>_. []) r)"
proof -
  obtain iv' ev where "iv_observe_flow (\<lambda>_. []) (inventory_new sample_inventory_config) sample_packet sample_flow None []
      = (iv', [] @ [ev])" by (rule sample_inventory_event)
  then show ?thesis using inventory_events_read_back[OF sample_inventory_ok sample_endpoints_ok] by blast
qed

theorem inventory_accounting_witness:
  "inventory_counts_ok (fold (inventory_step (\<lambda>_. [])) [(sample_packet, sample_flow, None)]
     (inventory_new sample_inventory_config))"
  using inventory_accounting[OF sample_inventory_ok(2,3), of "[(sample_packet, sample_flow, None)]" "\<lambda>_. []"]
  by (simp add: u64_max_def)


definition sample_stream_event :: event where
  "sample_stream_event = (event_from_packet ''stream_inventory'' ''stream_open'' sample_packet 2
     (ir_fields (\<lambda>_. []) (inventory_record_new sample_key 0)))"

lemma sample_stream_event_read:
  "view_entry_from_event sample_stream_event = Some (view_entry_of (\<lambda>_. []) (inventory_record_new sample_key 0))"
proof (rule view_entry_read)
  show "ev_fields sample_stream_event = ir_fields (\<lambda>_. []) (inventory_record_new sample_key 0)"
    by (simp add: sample_stream_event_def event_from_packet_def Let_def split: prod.split)
  show "pd_confidence (ir_service (inventory_record_new sample_key 0)) \<le> 255"
    using detection_from_port_confidence[of sample_key] by (simp add: inventory_record_new_def)
qed (simp_all add: inventory_record_new_def endpoint_text_ok_def sample_key_def)


definition sample_view :: view_state where
  "sample_view = (view_new sample_view_config)\<lparr>sv_order := [1, 2],
     sv_streams := [(1, (view_entry_of (\<lambda>_. []) (inventory_record_new sample_key 0))\<lparr>ve_stream_id := 1\<rparr>),
       (2, (view_entry_of (\<lambda>_. []) (inventory_record_new sample_key 0))\<lparr>ve_stream_id := 2\<rparr>)]\<rparr>"

theorem view_pages_complete_witness:
  "map vr_stream_id (view_pages (Suc 2) sample_view (view_query_default\<lparr>vq_limit := 1\<rparr>)) = [1, 2]"
  using view_pages_complete[of sample_view "view_query_default\<lparr>vq_limit := 1\<rparr>" 2]
  by (simp add: sample_view_def view_new_def sample_view_config_def view_query_default_def view_rows_def
      List.map_filter_simps matches_query_def hidden_reason_def opt_rejects_def view_row_of_def del: view_pages.simps)

theorem profile_stats_count_rows_witness:
  "\<forall>p. sps_visible_streams (view_profile_stats sample_view p)
    = length (view_rows sample_view (view_query_default\<lparr>vq_profile := Some p\<rparr>) [1, 2])"
  using profile_stats_count_rows[of sample_view]
  by (simp add: sample_view_def view_new_def sample_view_config_def u64_max_def)

end
