(* ===== verification/Pattern.thy ===== *)
theory Pattern
  imports Stream_Content Event Rust_Str
begin

text \<open>
  The pattern engine, from \<^verbatim>\<open>src/src/pattern.rs\<close>: definitions and their compilation, and the scan of
  the content windows of an update.  The crates \<^verbatim>\<open>aho_corasick\<close> and \<^verbatim>\<open>regex\<close> are parameters: \<open>build\<close>
  makes a searcher of a list of needles, \<open>regex_new\<close> compiles an expression, and a searcher or compiled
  expression is the function from the searched bytes to its matches, in the order of its iterator.  A
  panic is \<open>None\<close>.
\<close>

subsection \<open>Definitions\<close>

datatype pattern_definition_kind = DefSubstring bytes | DefBinary bytes | DefRegex string

record pattern_definition =
  pdf_id :: string
  pdf_name :: string
  pdf_kind :: pattern_definition_kind

type_synonym literal_searcher = "bytes \<Rightarrow> (nat \<times> nat \<times> nat) list"
type_synonym compiled_regex = "bytes \<Rightarrow> (nat \<times> nat) list"

datatype pattern_kind = KindSubstring | KindBinaryPattern | KindRegex compiled_regex

record compiled_pattern =
  cp_id :: string
  cp_name :: string
  cp_kind :: pattern_kind

record pattern_set =
  ps_patterns :: "compiled_pattern list"
  ps_literal_indices :: "nat list"
  ps_literal_automaton :: "literal_searcher option"
  ps_max_literal_len :: nat

definition pattern_set_empty :: pattern_set where
  "pattern_set_empty = \<lparr>ps_patterns = [], ps_literal_indices = [], ps_literal_automaton = None, ps_max_literal_len = 0\<rparr>"

definition pattern_substring :: "string \<Rightarrow> string \<Rightarrow> pattern_definition" where
  "pattern_substring ident v = \<lparr>pdf_id = ident, pdf_name = v, pdf_kind = DefSubstring (str_bytes v)\<rparr>"

definition pattern_regex :: "string \<Rightarrow> string \<Rightarrow> pattern_definition" where
  "pattern_regex ident v = \<lparr>pdf_id = ident, pdf_name = v, pdf_kind = DefRegex v\<rparr>"

text \<open>
  Two digits at a time.  Slicing a \<^verbatim>\<open>str\<close> inside a character panics, which shows as a continuation byte
  at either end of the slice.
\<close>

definition at_boundary :: "string \<Rightarrow> bool" where
  "at_boundary s \<longleftrightarrow> (case s of [] \<Rightarrow> True | c # _ \<Rightarrow> \<not> is_continuation c)"

fun hex_pairs :: "string \<Rightarrow> (string + bytes) option" where
  "hex_pairs (a # b # rest) =
     (if \<not> at_boundary (a # b # rest) \<or> \<not> at_boundary rest then None
      else case parse_unsigned 16 255 [a, b] of
        None \<Rightarrow> Some (Inl (''invalid hex byte '' @ [CHR 0x27, a, b, CHR 0x27]))
      | Some v \<Rightarrow>
          (case hex_pairs rest of
             None \<Rightarrow> None
           | Some r \<Rightarrow> Some (try_bind r (\<lambda>bs. Inr (of_nat v # bs)))))"
| "hex_pairs _ = Some (Inr [])"

definition parse_hex_pattern :: "string \<Rightarrow> (string + bytes) option" where
  "parse_hex_pattern v =
     (let digits = filter (\<lambda>c. \<not> is_ascii_ws c \<and> c \<notin> set '':_-'') v;
          digits = (if starts_with ''0x'' digits then drop 2 digits
            else if starts_with ''0X'' digits then drop 2 digits else digits)
      in if digits = [] then Some (Inl ''binary pattern is empty'')
         else if length digits mod 2 \<noteq> 0 then Some (Inl ''binary pattern has an odd number of hex digits'')
         else hex_pairs digits)"

definition pattern_binary_hex :: "string \<Rightarrow> string \<Rightarrow> (string + pattern_definition) option" where
  "pattern_binary_hex ident v = map_option (\<lambda>r. try_bind r (\<lambda>bs.
     Inr \<lparr>pdf_id = ident, pdf_name = v, pdf_kind = DefBinary bs\<rparr>)) (parse_hex_pattern v)"

subsection \<open>Compilation\<close>

record compile_state =
  cst_patterns :: "compiled_pattern list"
  cst_literal_indices :: "nat list"
  cst_literal_needles :: "bytes list"
  cst_max_literal_len :: nat

definition compile_literal :: "pattern_definition \<Rightarrow> bytes \<Rightarrow> pattern_kind \<Rightarrow> compile_state \<Rightarrow> compile_state" where
  "compile_literal d bs kind st = st\<lparr>cst_max_literal_len := max (cst_max_literal_len st) (length bs),
     cst_literal_indices := cst_literal_indices st @ [length (cst_patterns st)],
     cst_literal_needles := cst_literal_needles st @ [bs],
     cst_patterns := cst_patterns st @ [\<lparr>cp_id = pdf_id d, cp_name = pdf_name d, cp_kind = kind\<rparr>]\<rparr>"

fun compile_definitions ::
  "(string \<Rightarrow> compiled_regex option) \<Rightarrow> pattern_definition list \<Rightarrow> compile_state \<Rightarrow> string + compile_state" where
  "compile_definitions regex_new [] st = Inr st"
| "compile_definitions regex_new (d # ds) st = (case pdf_kind d of
     DefSubstring bs \<Rightarrow>
       if bs = [] then Inl (''substring pattern '' @ [CHR 0x27] @ pdf_id d @ [CHR 0x27] @ '' is empty'')
       else compile_definitions regex_new ds (compile_literal d bs KindSubstring st)
   | DefBinary bs \<Rightarrow>
       if bs = [] then Inl (''binary pattern '' @ [CHR 0x27] @ pdf_id d @ [CHR 0x27] @ '' is empty'')
       else compile_definitions regex_new ds (compile_literal d bs KindBinaryPattern st)
   | DefRegex expr \<Rightarrow> (case regex_new expr of
       None \<Rightarrow> Inl (''failed to compile regex pattern: '' @ expr)
     | Some regex \<Rightarrow> compile_definitions regex_new ds (st\<lparr>cst_patterns := cst_patterns st
         @ [\<lparr>cp_id = pdf_id d, cp_name = pdf_name d, cp_kind = KindRegex regex\<rparr>]\<rparr>)))"

definition compile_state_empty :: compile_state where
  "compile_state_empty = \<lparr>cst_patterns = [], cst_literal_indices = [], cst_literal_needles = [], cst_max_literal_len = 0\<rparr>"

definition pattern_set_compile ::
  "(bytes list \<Rightarrow> literal_searcher option) \<Rightarrow> (string \<Rightarrow> compiled_regex option) \<Rightarrow> pattern_definition list \<Rightarrow>
   string + pattern_set" where
  "pattern_set_compile build regex_new definitions =
     try_bind (compile_definitions regex_new definitions compile_state_empty) (\<lambda>st.
     try_bind (if cst_literal_needles st = [] then Inr None
       else try_bind (ok_or ''failed to build literal pattern automaton'' (build (cst_literal_needles st)))
         (\<lambda>automaton. Inr (Some automaton))) (\<lambda>automaton.
     Inr \<lparr>ps_patterns = cst_patterns st, ps_literal_indices = cst_literal_indices st,
       ps_literal_automaton = automaton, ps_max_literal_len = cst_max_literal_len st\<rparr>))"

record pattern_config =
  pgc_enabled :: bool
  pgc_set :: pattern_set
  pgc_max_matches_per_stream :: nat
  pgc_max_total_matches :: nat
  pgc_regex_window_bytes :: nat

definition pattern_disabled :: pattern_config where
  "pattern_disabled = \<lparr>pgc_enabled = False, pgc_set = pattern_set_empty, pgc_max_matches_per_stream = 0,
     pgc_max_total_matches = 0, pgc_regex_window_bytes = 0\<rparr>"

definition pattern_compile ::
  "(bytes list \<Rightarrow> literal_searcher option) \<Rightarrow> (string \<Rightarrow> compiled_regex option) \<Rightarrow> pattern_definition list \<Rightarrow>
   nat \<Rightarrow> nat \<Rightarrow> nat \<Rightarrow> string + pattern_config" where
  "pattern_compile build regex_new definitions max_per_stream max_total regex_window =
     (if definitions = [] \<or> max_per_stream = 0 \<or> max_total = 0 then Inr pattern_disabled
      else try_bind (pattern_set_compile build regex_new definitions) (\<lambda>pset.
        Inr \<lparr>pgc_enabled = True, pgc_set = pset, pgc_max_matches_per_stream = max_per_stream,
          pgc_max_total_matches = max_total, pgc_regex_window_bytes = regex_window\<rparr>))"

definition lookbehind_bytes :: "pattern_config \<Rightarrow> nat" where
  "lookbehind_bytes c = max (ps_max_literal_len (pgc_set c) - 1) (pgc_regex_window_bytes c)"

subsection \<open>The engine\<close>

record pattern_stats =
  pgs_pattern_matches :: nat
  pgs_dropped_matches :: nat
  pgs_matched_streams :: nat

record pattern_engine =
  pge_config :: pattern_config
  pge_matches_by_stream :: "(u64w \<times> nat) list"
  pge_stats :: pattern_stats

definition pattern_engine_new :: "pattern_config \<Rightarrow> pattern_engine" where
  "pattern_engine_new config = \<lparr>pge_config = config, pge_matches_by_stream = [],
     pge_stats = \<lparr>pgs_pattern_matches = 0, pgs_dropped_matches = 0, pgs_matched_streams = 0\<rparr>\<rparr>"

definition pattern_stats_of :: "pattern_engine \<Rightarrow> pattern_stats" where
  "pattern_stats_of e = (pge_stats e)\<lparr>pgs_matched_streams := length (pge_matches_by_stream e)\<rparr>"

record new_range =
  nr_start :: nat
  nr_end :: nat

record match_key =
  mk_pattern_index :: nat
  mk_stream_id :: u64w
  mk_direction :: flow_direction
  mk_start :: nat
  mk_end :: nat

record candidate_match =
  cm_pattern_index :: nat
  cm_start :: nat
  cm_end :: nat

fun pattern_kind_as_str :: "pattern_kind \<Rightarrow> string" where
  "pattern_kind_as_str KindSubstring = ''substring''"
| "pattern_kind_as_str KindBinaryPattern = ''binary''"
| "pattern_kind_as_str (KindRegex _) = ''regex''"

fun direction_name :: "flow_direction \<Rightarrow> string" where
  "direction_name AToB = ''a_to_b''"
| "direction_name BToA = ''b_to_a''"

definition is_textish :: "u8 \<Rightarrow> bool" where
  "is_textish b \<longleftrightarrow> b = 10 \<or> b = 13 \<or> b = 9 \<or> (0x20 \<le> b \<and> b \<le> 0x7e)"

definition pattern_preview_char :: "u8 \<Rightarrow> string" where
  "pattern_preview_char b = (if b = 10 then [CHR 0x5C, CHR ''n''] else if b = 13 then [CHR 0x5C, CHR ''r'']
     else if b = 9 then [CHR 0x5C, CHR ''t'']
     else if 0x20 \<le> b \<and> b \<le> 0x7e then [byte_char b] else ''.'')"

definition pattern_preview_text :: "bytes \<Rightarrow> string option" where
  "pattern_preview_text bs =
     (if bs = [] \<or> \<not> list_all is_textish bs then None else Some (concat (map pattern_preview_char bs)))"

definition pattern_fields ::
  "(bytes \<Rightarrow> string) \<Rightarrow> compiled_pattern \<Rightarrow> content_window \<Rightarrow> nat \<Rightarrow> nat \<Rightarrow> bytes \<Rightarrow> json" where
  "pattern_fields b64 p window absolute_start absolute_end bs = JObject
     [(''stream_id'', JString (hex_fixed 16 (unat (cw_stream_id window)))),
      (''pattern_id'', JString (cp_id p)),
      (''pattern_name'', JString (cp_name p)),
      (''pattern_type'', JString (pattern_kind_as_str (cp_kind p))),
      (''direction'', JString (direction_name (cw_direction window))),
      (''logical_start'', JU64 absolute_start),
      (''logical_end'', JU64 absolute_end),
      (''match_len'', JU64 (length bs)),
      (''match_base64'', JString (b64 bs)),
      (''match_text'', (case pattern_preview_text bs of None \<Rightarrow> JNull | Some t \<Rightarrow> JString t))]"

text \<open>Whether another match of the stream may be reported, with the counters.\<close>

definition reserve_match :: "pattern_engine \<Rightarrow> u64w \<Rightarrow> bool \<times> pattern_engine" where
  "reserve_match e stream_id =
     (let stats = pge_stats e;
          dropped = stats\<lparr>pgs_dropped_matches := sat_add (pgs_dropped_matches stats) 1\<rparr>
      in if pgs_pattern_matches stats \<ge> pgc_max_total_matches (pge_config e)
         then (False, e\<lparr>pge_stats := dropped\<rparr>)
         else
           let n = (case map_of (pge_matches_by_stream e) stream_id of None \<Rightarrow> 0 | Some n \<Rightarrow> n);
               e1 = e\<lparr>pge_matches_by_stream := AList.update stream_id n (pge_matches_by_stream e)\<rparr>
           in if n \<ge> pgc_max_matches_per_stream (pge_config e)
              then (False, e1\<lparr>pge_stats := dropped\<rparr>)
              else (True, e\<lparr>pge_matches_by_stream := AList.update stream_id (sat_add n 1) (pge_matches_by_stream e),
                pge_stats := stats\<lparr>pgs_pattern_matches := sat_add (pgs_pattern_matches stats) 1\<rparr>\<rparr>))"

type_synonym scan_state = "pattern_engine \<times> event list \<times> match_key list"

definition emit_match_if_new ::
  "(bytes \<Rightarrow> string) \<Rightarrow> decoded_packet \<Rightarrow> content_window \<Rightarrow> new_range \<Rightarrow> scan_state \<Rightarrow> candidate_match \<Rightarrow> scan_state" where
  "emit_match_if_new b64 packet window rng s c = (case s of (e, events, seen) \<Rightarrow>
     if cm_start c = cm_end c then s
     else
       let absolute_start = sat_add (cw_logical_start window) (cm_start c);
           absolute_end = sat_add (cw_logical_start window) (cm_end c);
           key = \<lparr>mk_pattern_index = cm_pattern_index c, mk_stream_id = cw_stream_id window,
             mk_direction = cw_direction window, mk_start = absolute_start, mk_end = absolute_end\<rparr>
       in if absolute_start \<ge> nr_end rng \<or> absolute_end \<le> nr_start rng then s
          else if key \<in> set seen then s
          else (case reserve_match e (cw_stream_id window) of
            (False, e1) \<Rightarrow> (e1, events, key # seen)
          | (True, e1) \<Rightarrow>
              let bs = take (cm_end c - cm_start c) (drop (cm_start c) (cw_bytes window))
              in (e1, events @ [event_from_packet ''pattern'' ''pattern_match'' packet (length bs)
                    (pattern_fields b64 (ps_patterns (pgc_set (pge_config e)) ! cm_pattern_index c) window
                      absolute_start absolute_end bs)], key # seen)))"

definition literal_candidates :: "pattern_set \<Rightarrow> bytes \<Rightarrow> candidate_match list" where
  "literal_candidates pset bs = (case ps_literal_automaton pset of
     None \<Rightarrow> []
   | Some automaton \<Rightarrow> map (\<lambda>(needle, start, stop).
       \<lparr>cm_pattern_index = ps_literal_indices pset ! needle, cm_start = start, cm_end = stop\<rparr>) (automaton bs))"

definition regex_candidates :: "pattern_set \<Rightarrow> bytes \<Rightarrow> candidate_match list" where
  "regex_candidates pset bs = concat (map (\<lambda>(i, p). case cp_kind p of
     KindRegex regex \<Rightarrow> map (\<lambda>(start, stop). \<lparr>cm_pattern_index = i, cm_start = start, cm_end = stop\<rparr>) (regex bs)
   | _ \<Rightarrow> []) (List.enumerate 0 (ps_patterns pset)))"

definition scan_window ::
  "(bytes \<Rightarrow> string) \<Rightarrow> decoded_packet \<Rightarrow> new_range \<Rightarrow> scan_state \<Rightarrow> content_window \<Rightarrow> scan_state" where
  "scan_window b64 packet rng s window =
     (let pset = pgc_set (pge_config (fst s)) in
      foldl (emit_match_if_new b64 packet window rng) s
        (literal_candidates pset (cw_bytes window) @ regex_candidates pset (cw_bytes window)))"

definition scan_range ::
  "(bytes \<Rightarrow> string) \<Rightarrow> decoded_packet \<Rightarrow> stream_content \<Rightarrow> flow_key \<Rightarrow> nat \<Rightarrow> scan_state \<Rightarrow> content_range \<Rightarrow> scan_state" where
  "scan_range b64 packet content key lookbehind s r =
     (case sc_direction_windows content key (cr_direction r) (cr_logical_start r - lookbehind) (cr_logical_end r) of
        None \<Rightarrow> s
      | Some windows \<Rightarrow> foldl (scan_window b64 packet
          \<lparr>nr_start = cr_logical_start r, nr_end = cr_logical_end r\<rparr>) s windows)"

definition scan_update ::
  "(bytes \<Rightarrow> string) \<Rightarrow> pattern_engine \<Rightarrow> decoded_packet \<Rightarrow> stream_content \<Rightarrow> content_update \<Rightarrow> event list \<Rightarrow>
   pattern_engine \<times> event list" where
  "scan_update b64 e packet content update events =
     (if \<not> pgc_enabled (pge_config e) then (e, events)
      else case foldl (scan_range b64 packet content (cu_key update) (lookbehind_bytes (pge_config e)))
          (e, events, []) (cu_ranges update) of
        (e1, events1, _) \<Rightarrow> (e1, events1))"

end
