(* ===== verification/Stream_Slice.thy ===== *)
theory Stream_Slice
  imports Stream_View Content_Correctness Pattern
begin

text \<open>
  Content slices, from \<^verbatim>\<open>src/src/stream_slice.rs\<close>: the bytes of a range of a stream's direction as raw,
  text or hexadecimal segments with the highlighted pattern matches, and their copy formats.  The output
  types of \<^verbatim>\<open>src/src/stream_transform.rs\<close> are here because a slice carries them.  The base64 engine is
  the parameters \<open>b64\<close> and \<open>b64_decode\<close>.
\<close>

subsection \<open>Configuration and requests\<close>

record slice_config =
  slc_max_slice_bytes :: nat
  slc_max_highlights :: nat
  slc_hex_row_bytes :: nat
  slc_max_transform_bytes :: nat

definition slice_config_default :: slice_config where
  "slice_config_default = \<lparr>slc_max_slice_bytes = 64 * 1024, slc_max_highlights = 4096,
     slc_hex_row_bytes = 16, slc_max_transform_bytes = 1024 * 1024\<rparr>"

definition clamp :: "nat \<Rightarrow> nat \<Rightarrow> nat \<Rightarrow> nat" where
  "clamp lo hi n = (if n < lo then lo else if n > hi then hi else n)"

definition slice_normalized :: "slice_config \<Rightarrow> slice_config" where
  "slice_normalized c = \<lparr>slc_max_slice_bytes = max (slc_max_slice_bytes c) 1,
     slc_max_highlights = slc_max_highlights c, slc_hex_row_bytes = clamp 1 64 (slc_hex_row_bytes c),
     slc_max_transform_bytes = max (slc_max_transform_bytes c) 1\<rparr>"

record slice_request =
  srq_stream_id :: u64w
  srq_direction :: flow_direction
  srq_logical_start :: nat
  srq_max_bytes :: nat
  srq_mode :: slice_mode

record hex_row =
  hxr_logical_start :: nat
  hxr_hex :: string
  hxr_ascii :: string

datatype segment_view = RawView string | TextView string bool | HexView "hex_row list"

record slice_segment =
  ssg_logical_start :: nat
  ssg_logical_end :: nat
  ssg_bytes_len :: nat
  ssg_base64 :: string
  ssg_view :: segment_view

record slice_highlight =
  hl_stream_id :: u64w
  hl_pattern_id :: string
  hl_pattern_name :: string
  hl_pattern_type :: pattern_type
  hl_direction :: flow_direction
  hl_logical_start :: nat
  hl_logical_end :: nat
  hl_segment_index :: nat
  hl_segment_start :: nat
  hl_segment_end :: nat

text \<open>The output of a transform (\<^verbatim>\<open>stream_transform.rs\<close>).\<close>

datatype transform_applied =
  AppliedUrlDecode | AppliedGzip | AppliedHttpChunked | AppliedHttpGzip | AppliedWebSocketDeflate | AppliedNone

datatype transform_status = TransformApplied | TransformNoop | TransformFailed

record transform_step_report =
  tsr_requested :: transform_mode
  tsr_applied :: transform_applied
  tsr_status :: transform_status
  tsr_input_bytes :: nat
  tsr_output_bytes :: nat
  tsr_truncated_by_limit :: bool
  tsr_notes :: "string list"

record transform_segment =
  tsg_source_logical_start :: "nat option"
  tsg_source_logical_end :: "nat option"
  tsg_bytes_len :: nat
  tsg_base64 :: string
  tsg_view :: segment_view

record transform_output =
  tro_requested :: transform_mode
  tro_requested_chain :: "transform_mode list"
  tro_applied :: transform_applied
  tro_status :: transform_status
  tro_input_bytes :: nat
  tro_output_bytes :: nat
  tro_truncated_by_limit :: bool
  tro_source_logical_start :: "nat option"
  tro_source_logical_end :: "nat option"
  tro_notes :: "string list"
  tro_steps :: "transform_step_report list"
  tro_segments :: "transform_segment list"

record content_slice =
  csl_stream_id :: u64w
  csl_stream_id_hex :: string
  csl_direction :: flow_direction
  csl_requested_start :: nat
  csl_requested_end :: nat
  csl_returned_bytes :: nat
  csl_truncated_by_limit :: bool
  csl_segments :: "slice_segment list"
  csl_highlights :: "slice_highlight list"
  csl_dropped_highlights :: nat
  csl_transforms :: "transform_output list"

datatype slice_error = SliceStreamNotFound u64w | SliceContentNotFound u64w | SliceEmptyRequest

fun slice_error_display :: "slice_error \<Rightarrow> string" where
  "slice_error_display (SliceStreamNotFound stream_id) =
     ''stream '' @ hex_fixed 16 (unat stream_id) @ '' is not tracked in the view index''"
| "slice_error_display (SliceContentNotFound stream_id) =
     ''stream '' @ hex_fixed 16 (unat stream_id) @ '' has no stored content''"
| "slice_error_display SliceEmptyRequest = ''stream slice request must ask for at least one byte''"

subsection \<open>Rendering of bytes\<close>

definition is_safe_byte :: "u8 \<Rightarrow> bool" where
  "is_safe_byte b \<longleftrightarrow> b = 10 \<or> b = 13 \<or> b = 9 \<or> (0x20 \<le> b \<and> b \<le> 0x7e)"

definition safe_text :: "bytes \<Rightarrow> string \<times> bool" where
  "safe_text bs = (map (\<lambda>b. if is_safe_byte b then byte_char b else CHR ''.'') bs, \<not> list_all is_safe_byte bs)"

definition hex_pair :: "u8 \<Rightarrow> string" where
  "hex_pair b = hex_fixed 2 (unat b)"

definition bytes_to_hex :: "bytes \<Rightarrow> string" where
  "bytes_to_hex bs = join_with '' '' (map hex_pair bs)"

definition ascii_column :: "bytes \<Rightarrow> string" where
  "ascii_column bs = map (\<lambda>b. if 0x20 \<le> b \<and> b \<le> 0x7e then byte_char b else CHR ''.'') bs"

text \<open>\<^verbatim>\<open>chunks\<close> of a slice; a size of zero would panic and does not occur (the configuration is clamped).\<close>

function (sequential) chunks_of :: "nat \<Rightarrow> 'a list \<Rightarrow> 'a list list" where
  "chunks_of n [] = []"
| "chunks_of n (x # xs) = (x # take (n - 1) xs) # chunks_of n (drop (n - 1) xs)"
  by pat_completeness auto
termination by (relation "measure (\<lambda>(n, xs). length xs)") auto

definition hex_rows :: "nat \<Rightarrow> bytes \<Rightarrow> nat \<Rightarrow> hex_row list" where
  "hex_rows logical_start bs row_bytes =
     map (\<lambda>(i, row). \<lparr>hxr_logical_start = sat_add logical_start (i * row_bytes), hxr_hex = bytes_to_hex row,
       hxr_ascii = ascii_column row\<rparr>) (List.enumerate 0 (chunks_of row_bytes bs))"

definition segment_view_of :: "(bytes \<Rightarrow> string) \<Rightarrow> slice_mode \<Rightarrow> nat \<Rightarrow> nat \<Rightarrow> bytes \<Rightarrow> segment_view" where
  "segment_view_of b64 mode logical_start hex_row_bytes bs = (case mode of
     SliceRaw \<Rightarrow> RawView (b64 bs)
   | SliceText \<Rightarrow> (case safe_text bs of (text, lossy) \<Rightarrow> TextView text lossy)
   | SliceHex \<Rightarrow> HexView (hex_rows logical_start bs hex_row_bytes))"

definition segment_from_window :: "(bytes \<Rightarrow> string) \<Rightarrow> content_window \<Rightarrow> slice_mode \<Rightarrow> nat \<Rightarrow> slice_segment" where
  "segment_from_window b64 window mode hex_row_bytes =
     \<lparr>ssg_logical_start = cw_logical_start window,
      ssg_logical_end = sat_add (cw_logical_start window) (length (cw_bytes window)),
      ssg_bytes_len = length (cw_bytes window), ssg_base64 = b64 (cw_bytes window),
      ssg_view = segment_view_of b64 mode (cw_logical_start window) hex_row_bytes (cw_bytes window)\<rparr>"

subsection \<open>Highlights\<close>

definition count_overlapping_matches :: "flow_direction \<Rightarrow> pattern_match list \<Rightarrow> slice_segment list \<Rightarrow> nat" where
  "count_overlapping_matches direction matches segments =
     fold (\<lambda>m n. if pm_direction m \<noteq> direction then n
       else fold (\<lambda>s n. if pm_logical_start m < ssg_logical_end s \<and> pm_logical_end m > ssg_logical_start s
         then sat_add n 1 else n) segments n) matches 0"

definition highlight_of :: "u64w \<Rightarrow> flow_direction \<Rightarrow> pattern_match \<Rightarrow> nat \<times> slice_segment \<Rightarrow> slice_highlight option" where
  "highlight_of stream_id direction m segment = (case segment of (i, s) \<Rightarrow>
     let start = max (pm_logical_start m) (ssg_logical_start s);
         stop = min (pm_logical_end m) (ssg_logical_end s)
     in if start \<ge> stop then None
        else Some \<lparr>hl_stream_id = stream_id, hl_pattern_id = pm_pattern_id m, hl_pattern_name = pm_pattern_name m,
          hl_pattern_type = pm_pattern_type m, hl_direction = direction, hl_logical_start = start,
          hl_logical_end = stop, hl_segment_index = i, hl_segment_start = start - ssg_logical_start s,
          hl_segment_end = stop - ssg_logical_start s\<rparr>)"

definition all_highlights ::
  "u64w \<Rightarrow> flow_direction \<Rightarrow> pattern_match list \<Rightarrow> slice_segment list \<Rightarrow> slice_highlight list" where
  "all_highlights stream_id direction matches segments =
     concat (map (\<lambda>m. if pm_direction m \<noteq> direction then []
       else List.map_filter (highlight_of stream_id direction m) (List.enumerate 0 segments)) matches)"

definition highlight_key :: "slice_highlight \<Rightarrow> nat \<times> nat \<times> nat" where
  "highlight_key h = (hl_logical_start h, hl_logical_end h, hl_segment_index h)"

definition slice_highlights ::
  "slice_config \<Rightarrow> u64w \<Rightarrow> flow_direction \<Rightarrow> pattern_match list \<Rightarrow> slice_segment list \<Rightarrow>
   slice_highlight list \<times> nat" where
  "slice_highlights config stream_id direction matches segments =
     (if slc_max_highlights config = 0 then ([], count_overlapping_matches direction matches segments)
      else let sorted = sort_key highlight_key (all_highlights stream_id direction matches segments)
           in (take (slc_max_highlights config) sorted, length sorted - slc_max_highlights config))"

subsection \<open>Slices\<close>

definition slice_with_context ::
  "(bytes \<Rightarrow> string) \<Rightarrow> stream_content \<Rightarrow> slice_config \<Rightarrow> slice_request \<Rightarrow> flow_key \<Rightarrow> pattern_match list \<Rightarrow>
   slice_error + content_slice" where
  "slice_with_context b64 content config request key matches =
     (if srq_max_bytes request = 0 then Inl SliceEmptyRequest
      else
        let max_bytes = max (min (srq_max_bytes request) (slc_max_slice_bytes config)) 1;
            requested_end = sat_add (srq_logical_start request) max_bytes
        in case sc_direction_windows content key (srq_direction request) (srq_logical_start request) requested_end of
             None \<Rightarrow> Inl (SliceContentNotFound (srq_stream_id request))
           | Some windows \<Rightarrow>
               let segments = map (\<lambda>w. segment_from_window b64 w (srq_mode request) (slc_hex_row_bytes config)) windows;
                   returned = foldl (\<lambda>n w. sat_add n (length (cw_bytes w))) 0 windows
               in (case slice_highlights config (srq_stream_id request) (srq_direction request) matches segments of
                    (highlights, dropped) \<Rightarrow>
                      Inr \<lparr>csl_stream_id = srq_stream_id request,
                        csl_stream_id_hex = hex_fixed 16 (unat (srq_stream_id request)),
                        csl_direction = srq_direction request, csl_requested_start = srq_logical_start request,
                        csl_requested_end = requested_end, csl_returned_bytes = returned,
                        csl_truncated_by_limit = srq_max_bytes request > slc_max_slice_bytes config,
                        csl_segments = segments, csl_highlights = highlights, csl_dropped_highlights = dropped,
                        csl_transforms = []\<rparr>))"

record slice_reader =
  slr_content :: stream_content
  slr_view :: view_state
  slr_config :: slice_config

definition slice_reader_new :: "stream_content \<Rightarrow> view_state \<Rightarrow> slice_config \<Rightarrow> slice_reader" where
  "slice_reader_new content view config = \<lparr>slr_content = content, slr_view = view, slr_config = slice_normalized config\<rparr>"

definition slice_read :: "(bytes \<Rightarrow> string) \<Rightarrow> slice_reader \<Rightarrow> slice_request \<Rightarrow> slice_error + content_slice" where
  "slice_read b64 reader request =
     (if srq_max_bytes request = 0 then Inl SliceEmptyRequest
      else case map_of (sv_streams (slr_view reader)) (srq_stream_id request) of
        None \<Rightarrow> Inl (SliceStreamNotFound (srq_stream_id request))
      | Some entry \<Rightarrow> slice_with_context b64 (slr_content reader) (slr_config reader) request (view_flow_key entry)
          (case view_stream_matches (slr_view reader) (srq_stream_id request) of None \<Rightarrow> [] | Some ms \<Rightarrow> ms))"

datatype copy_format = CopyBase64 | CopyHex | CopyText

definition concatenated_bytes :: "(string \<Rightarrow> bytes option) \<Rightarrow> content_slice \<Rightarrow> bytes" where
  "concatenated_bytes b64_decode s =
     concat (map (\<lambda>seg. case b64_decode (ssg_base64 seg) of None \<Rightarrow> [] | Some bs \<Rightarrow> bs) (csl_segments s))"

definition copy_as :: "(bytes \<Rightarrow> string) \<Rightarrow> (string \<Rightarrow> bytes option) \<Rightarrow> content_slice \<Rightarrow> copy_format \<Rightarrow> string" where
  "copy_as b64 b64_decode s fmt = (let bs = concatenated_bytes b64_decode s in case fmt of
     CopyBase64 \<Rightarrow> b64 bs | CopyHex \<Rightarrow> bytes_to_hex bs | CopyText \<Rightarrow> fst (safe_text bs))"

end
