(* ===== verification/Rust_Lines.thy ===== *)
theory Rust_Lines
  imports Rust_Str
begin

text \<open>Lines of a string, as the transforms and the HTTP analyzer ask the standard library for them.\<close>

text \<open>\<^verbatim>\<open>str::lines\<close>: pieces ended by a line feed, without it and a carriage return before it.\<close>

fun lines_from :: "string \<Rightarrow> string \<Rightarrow> string list" where
  "lines_from acc [] = (if acc = [] then [] else [acc])"
| "lines_from acc (c # cs) = (if c = char_of (10 :: nat)
     then (if acc \<noteq> [] \<and> last acc = char_of (13 :: nat) then butlast acc else acc) # lines_from [] cs
     else lines_from (acc @ [c]) cs)"

definition str_lines :: "string \<Rightarrow> string list" where
  "str_lines s = lines_from [] s"

end
