(* ===== verification/Stream_Transform.thy ===== *)
theory Stream_Transform
  imports Stream_Slice Http1_Parser Ws_Parser Rust_Lines
begin

text \<open>
  Content transforms, from \<^verbatim>\<open>src/src/stream_transform.rs\<close>: URL decoding, gzip, chunked and compressed
  HTTP bodies, compressed WebSocket messages, the automatic choice and chains of them.  The decoders of
  the crate \<^verbatim>\<open>flate2\<close> are parameters: opening one on some bytes gives a reader, and a read with a buffer
  of a size gives an error or the bytes read, and the reader's next state.  The base64 engine is the
  parameters \<open>b64\<close> and \<open>b64_decode\<close>.
\<close>

subsection \<open>Outcomes\<close>

record transform_config =
  tfc_max_output_bytes :: nat
  tfc_hex_row_bytes :: nat

record transform_outcome =
  tou_applied :: transform_applied
  tou_status :: transform_status
  tou_bytes :: bytes
  tou_truncated :: bool
  tou_notes :: "string list"

definition outcome_noop :: "string \<Rightarrow> transform_outcome" where
  "outcome_noop note = \<lparr>tou_applied = AppliedNone, tou_status = TransformNoop, tou_bytes = [],
     tou_truncated = False, tou_notes = [note]\<rparr>"

definition outcome_failed :: "string \<Rightarrow> transform_outcome" where
  "outcome_failed note = \<lparr>tou_applied = AppliedNone, tou_status = TransformFailed, tou_bytes = [],
     tou_truncated = False, tou_notes = [note]\<rparr>"

definition outcome_applied :: "transform_applied \<Rightarrow> bytes \<Rightarrow> bool \<Rightarrow> string list \<Rightarrow> transform_outcome" where
  "outcome_applied applied bs truncated notes = \<lparr>tou_applied = applied, tou_status = TransformApplied, tou_bytes = bs,
     tou_truncated = truncated, tou_notes = notes\<rparr>"

definition map_applied :: "transform_applied \<Rightarrow> transform_outcome \<Rightarrow> transform_outcome" where
  "map_applied applied out = (if tou_status out = TransformApplied then out\<lparr>tou_applied := applied\<rparr> else out)"

subsection \<open>URL decoding\<close>

definition hex_value :: "u8 \<Rightarrow> u8 option" where
  "hex_value b = (if 48 \<le> b \<and> b \<le> 57 then Some (b - 48)
     else if 97 \<le> b \<and> b \<le> 102 then Some (b - 97 + 10)
     else if 65 \<le> b \<and> b \<le> 70 then Some (b - 65 + 10) else None)"

definition hex_escape :: "u8 \<Rightarrow> u8 \<Rightarrow> u8 option" where
  "hex_escape h l = (case (hex_value h, hex_value l) of
     (Some hi, Some lo) \<Rightarrow> Some (or (push_bit 4 hi) lo) | _ \<Rightarrow> None)"

text \<open>The loop over the input, from an index on: output, whether something changed, invalid escapes.\<close>

fun url_decode_loop :: "bytes \<Rightarrow> bytes \<Rightarrow> bool \<Rightarrow> nat \<Rightarrow> bytes \<times> bool \<times> nat" where
  "url_decode_loop [] out changed invalid = (out, changed, invalid)"
| "url_decode_loop [b] out changed invalid =
     (if b = 37 then (out @ [b], changed, invalid + 1)
      else if b = 43 then (out @ [32], True, invalid) else (out @ [b], changed, invalid))"
| "url_decode_loop [b, h] out changed invalid =
     (if b = 37 then url_decode_loop [h] (out @ [b]) changed (invalid + 1)
      else if b = 43 then url_decode_loop [h] (out @ [32]) True invalid
      else url_decode_loop [h] (out @ [b]) changed invalid)"
| "url_decode_loop (b # h # l # rest) out changed invalid =
     (if b = 37 then
        (case hex_escape h l of
           Some v \<Rightarrow> url_decode_loop rest (out @ [v]) True invalid
         | None \<Rightarrow> url_decode_loop (h # l # rest) (out @ [b]) changed (invalid + 1))
      else if b = 43 then url_decode_loop (h # l # rest) (out @ [32]) True invalid
      else url_decode_loop (h # l # rest) (out @ [b]) changed invalid)"

definition url_decode_transform :: "bytes \<Rightarrow> transform_outcome" where
  "url_decode_transform input = (case url_decode_loop input [] False 0 of (out, changed, invalid) \<Rightarrow>
     if \<not> changed then outcome_noop ''no URL-encoded bytes were found''
     else outcome_applied AppliedUrlDecode out False
       (if invalid \<noteq> 0 then [''left '' @ show_nat invalid @ '' invalid percent escapes unchanged''] else []))"

definition is_mostly_text :: "bytes \<Rightarrow> bool" where
  "is_mostly_text bs = (if bs = [] then False
     else let sample_len = min (length bs) 4096;
              textish = length (filter is_safe_byte (take sample_len bs))
          in textish * 100 \<ge> sample_len * 85)"

fun has_valid_percent_escape :: "bytes \<Rightarrow> bool" where
  "has_valid_percent_escape (a # b # c # rest) =
     (a = 37 \<and> hex_value b \<noteq> None \<and> hex_value c \<noteq> None \<or> has_valid_percent_escape (b # c # rest))"
| "has_valid_percent_escape _ = False"

definition looks_like_url_encoded_text :: "bytes \<Rightarrow> bool" where
  "looks_like_url_encoded_text bs \<longleftrightarrow> has_valid_percent_escape bs \<and> is_mostly_text bs"

subsection \<open>Reading a decoder up to a limit\<close>

datatype io_error = IoUnexpectedEof string | IoOther string

fun io_message :: "io_error \<Rightarrow> string" where
  "io_message (IoUnexpectedEof m) = m"
| "io_message (IoOther m) = m"

definition is_eof :: "io_error \<Rightarrow> bool" where
  "is_eof err \<longleftrightarrow> (case err of IoUnexpectedEof _ \<Rightarrow> True | IoOther _ \<Rightarrow> False)"

record 'r decoder =
  dco_open :: "bytes \<Rightarrow> 'r"
  dco_read :: "nat \<Rightarrow> 'r \<Rightarrow> (io_error + bytes) \<times> 'r"

record limited_read =
  lrd_bytes :: bytes
  lrd_truncated :: bool
  lrd_incomplete :: bool

function read_limited_loop ::
  "(nat \<Rightarrow> 'r \<Rightarrow> (io_error + bytes) \<times> 'r) \<Rightarrow> nat \<Rightarrow> 'r \<Rightarrow> bytes \<Rightarrow> io_error + limited_read" where
  "read_limited_loop read mx r bs = (case read 8192 r of
     (Inl err, r1) \<Rightarrow>
       if is_eof err \<and> bs \<noteq> [] then Inr \<lparr>lrd_bytes = bs, lrd_truncated = False, lrd_incomplete = True\<rparr> else Inl err
   | (Inr got, r1) \<Rightarrow>
       if got = [] then Inr \<lparr>lrd_bytes = bs, lrd_truncated = False, lrd_incomplete = False\<rparr>
       else if length got > mx - length bs
         then Inr \<lparr>lrd_bytes = bs @ take (mx - length bs) got, lrd_truncated = True, lrd_incomplete = False\<rparr>
       else if length (bs @ got) = mx
         then (case read 1 r1 of
             (Inr probe, _) \<Rightarrow> Inr \<lparr>lrd_bytes = bs @ got, lrd_truncated = (probe \<noteq> []), lrd_incomplete = False\<rparr>
           | (Inl err, _) \<Rightarrow>
               if is_eof err then Inr \<lparr>lrd_bytes = bs @ got, lrd_truncated = False, lrd_incomplete = True\<rparr> else Inl err)
       else read_limited_loop read mx r1 (bs @ got))"
  by pat_completeness auto
termination by (relation "measure (\<lambda>(read, mx, r, bs). mx - length bs)") (auto simp: not_less neq_Nil_conv)

declare read_limited_loop.simps [simp del]

definition read_limited :: "'r decoder \<Rightarrow> bytes \<Rightarrow> nat \<Rightarrow> io_error + limited_read" where
  "read_limited dec input mx = read_limited_loop (dco_read dec) mx (dco_open dec input) []"

definition append_limited :: "bytes \<Rightarrow> bytes \<Rightarrow> nat \<Rightarrow> bytes" where
  "append_limited out bs mx = out @ take (mx - length out) bs"

subsection \<open>Gzip\<close>

definition is_gzip :: "bytes \<Rightarrow> bool" where
  "is_gzip bs \<longleftrightarrow> starts_with [0x1f, 0x8b] bs"

definition gzip_transform :: "'r decoder \<Rightarrow> bytes \<Rightarrow> nat \<Rightarrow> transform_outcome" where
  "gzip_transform gz input mx =
     (if \<not> is_gzip input then outcome_noop ''input does not start with a gzip header''
      else case read_limited gz input mx of
        Inr l \<Rightarrow> outcome_applied AppliedGzip (lrd_bytes l) (lrd_truncated l)
          (if lrd_incomplete l then [''gzip stream ended before trailer; decoded partial output''] else [])
      | Inl err \<Rightarrow> outcome_failed (''gzip decode failed: '' @ io_message err))"

subsection \<open>HTTP headers\<close>

definition find_http_header_end :: "bytes \<Rightarrow> (nat \<times> nat) option" where
  "find_http_header_end bs = or_else (map_option (\<lambda>pos. (pos, pos + 4)) (find_window [13, 10, 13, 10] bs))
     (map_option (\<lambda>pos. (pos, pos + 2)) (find_window [10, 10] bs))"

definition looks_like_http_header :: "string \<Rightarrow> bool" where
  "looks_like_http_header header = (case str_lines header of
     [] \<Rightarrow> False
   | line # _ \<Rightarrow> starts_with ''HTTP/'' line
       \<or> (let words = split_ascii_whitespace line in 2 < length words \<and> starts_with ''HTTP/'' (words ! 2)))"

text \<open>Both header tests have the same shape, with another field name and value.\<close>

definition header_lists :: "string \<Rightarrow> string \<Rightarrow> string \<Rightarrow> bool" where
  "header_lists field item header \<longleftrightarrow> list_ex (\<lambda>line. case split_once (CHR '':'') line of
     None \<Rightarrow> False
   | Some (name, v) \<Rightarrow> eq_ignore_ascii_case (str_trim name) field
       \<and> list_ex (\<lambda>piece. eq_ignore_ascii_case (str_trim piece) item) (split_on (CHR '','') v)) (str_lines header)"

definition header_has_gzip_content_encoding :: "string \<Rightarrow> bool" where
  "header_has_gzip_content_encoding header = header_lists ''content-encoding'' ''gzip'' header"

definition header_has_chunked_transfer_encoding :: "string \<Rightarrow> bool" where
  "header_has_chunked_transfer_encoding header = header_lists ''transfer-encoding'' ''chunked'' header"

text \<open>
  The guards that both HTTP transforms begin with: the end of the header section, its text, and the
  wanted header; \<open>Inl\<close> is the note of the no-op.
\<close>

definition http_message_header :: "(string \<Rightarrow> bool) \<Rightarrow> string \<Rightarrow> bytes \<Rightarrow> string + nat" where
  "http_message_header wanted unwanted_note input =
     (case find_http_header_end input of
        None \<Rightarrow> Inl ''no complete HTTP header was found''
      | Some (header_len, header_end) \<Rightarrow>
          (case str_from_utf8 (take header_len input) of
             None \<Rightarrow> Inl ''HTTP header is not valid UTF-8''
           | Some text \<Rightarrow>
               if \<not> looks_like_http_header text then Inl ''slice does not look like an HTTP message''
               else if \<not> wanted text then Inl unwanted_note
               else Inr header_end))"

definition http_gzip_transform :: "'r decoder \<Rightarrow> bytes \<Rightarrow> nat \<Rightarrow> transform_outcome" where
  "http_gzip_transform gz input mx =
     (case http_message_header header_has_gzip_content_encoding ''HTTP content-encoding is not gzip'' input of
        Inl note \<Rightarrow> outcome_noop note
      | Inr header_end \<Rightarrow>
          let decoded = gzip_transform gz (drop header_end input) mx in
          if tou_status decoded \<noteq> TransformApplied
          then outcome_failed (case tou_notes decoded of n # _ \<Rightarrow> n | [] \<Rightarrow> ''gzip HTTP body decode failed'')
          else outcome_applied AppliedHttpGzip (take header_end input @ tou_bytes decoded) (tou_truncated decoded)
            (tou_notes decoded @ [''decoded gzip HTTP body after '' @ show_nat header_end @ '' header bytes'']))"

subsection \<open>Chunked bodies\<close>

definition transform_line_end :: "bytes \<Rightarrow> nat \<Rightarrow> (nat \<times> nat) option" where
  "transform_line_end input offset = map_option (\<lambda>relative.
     let newline = offset + relative;
         line_end = (if newline > offset \<and> input ! (newline - 1) = 13 then newline - 1 else newline)
     in (line_end, newline + 1)) (position (\<lambda>b. b = 10) (drop offset input))"

definition chunk_line_trim :: "bytes \<Rightarrow> bytes" where
  "chunk_line_trim bs = rev (dropWhile byte_is_ascii_ws (rev (dropWhile byte_is_ascii_ws bs)))"

definition parse_chunk_size :: "bytes \<Rightarrow> string + nat" where
  "parse_chunk_size line =
     (case str_from_utf8 (chunk_line_trim (hd (split_on 59 line))) of
        None \<Rightarrow> Inl ''chunk size is not UTF-8''
      | Some size_text \<Rightarrow> ok_or (''invalid chunk size: '' @ size_text) (parse_unsigned 16 u64_max size_text))"

record chunked_decode =
  cdd_bytes :: bytes
  cdd_chunks :: nat
  cdd_truncated :: bool
  cdd_partial :: bool
  cdd_reached_last :: bool
  cdd_trailing :: nat

lemma transform_line_end_bound: "transform_line_end input offset = Some (e, n) \<Longrightarrow> offset < n \<and> n \<le> length input"
  by (auto simp: transform_line_end_def Let_def dest!: position_SomeD)

text \<open>The loop over the chunks, with the bytes and chunks so far and whether some were cut.\<close>

function decode_chunked_loop :: "bytes \<Rightarrow> nat \<Rightarrow> nat \<Rightarrow> bytes \<Rightarrow> nat \<Rightarrow> bool \<Rightarrow> string + chunked_decode" where
  "decode_chunked_loop input mx offset bs chunks truncated =
     (case transform_line_end input offset of
        None \<Rightarrow> Inr \<lparr>cdd_bytes = bs, cdd_chunks = chunks, cdd_truncated = truncated,
          cdd_partial = (offset < length input), cdd_reached_last = False, cdd_trailing = 0\<rparr>
      | Some (line_end, next_offset) \<Rightarrow>
          let line = chunk_line_trim (take (line_end - offset) (drop offset input)) in
          if line = [] then Inl ''empty chunk size line''
          else (case parse_chunk_size line of
            Inl reason \<Rightarrow> Inl reason
          | Inr n \<Rightarrow>
              if n = 0 then Inr \<lparr>cdd_bytes = bs, cdd_chunks = chunks, cdd_truncated = truncated, cdd_partial = False,
                cdd_reached_last = True, cdd_trailing = length input - next_offset\<rparr>
              else
                let taken = min n (length input - next_offset);
                    bs1 = append_limited bs (take taken (drop next_offset input)) mx;
                    truncated1 = (truncated \<or> length bs1 - length bs < taken);
                    offset1 = next_offset + taken
                in if taken < n then Inr \<lparr>cdd_bytes = bs1, cdd_chunks = chunks + 1, cdd_truncated = truncated1,
                     cdd_partial = True, cdd_reached_last = False, cdd_trailing = 0\<rparr>
                   else if get_range input offset1 (offset1 + 2) = Some crlf
                     then (if length bs1 \<ge> mx then Inr \<lparr>cdd_bytes = bs1, cdd_chunks = chunks + 1,
                         cdd_truncated = (offset1 + 2 < length input), cdd_partial = False, cdd_reached_last = False,
                         cdd_trailing = 0\<rparr>
                       else decode_chunked_loop input mx (offset1 + 2) bs1 (chunks + 1) truncated1)
                   else if get_at input offset1 = Some 10
                     then (if length bs1 \<ge> mx then Inr \<lparr>cdd_bytes = bs1, cdd_chunks = chunks + 1,
                         cdd_truncated = (offset1 + 1 < length input), cdd_partial = False, cdd_reached_last = False,
                         cdd_trailing = 0\<rparr>
                       else decode_chunked_loop input mx (offset1 + 1) bs1 (chunks + 1) truncated1)
                   else if offset1 = length input then Inr \<lparr>cdd_bytes = bs1, cdd_chunks = chunks + 1,
                     cdd_truncated = truncated1, cdd_partial = True, cdd_reached_last = False, cdd_trailing = 0\<rparr>
                   else Inl ''chunk payload is not followed by CRLF''))"
  by pat_completeness auto
termination
  by (relation "measure (\<lambda>(input, mx, offset, _). length input - offset)")
    (auto dest!: sym[of "Some _"] transform_line_end_bound)

declare decode_chunked_loop.simps [simp del]

definition decode_chunked_body :: "bytes \<Rightarrow> nat \<Rightarrow> string + chunked_decode" where
  "decode_chunked_body input mx = decode_chunked_loop input mx 0 [] 0 False"

definition http_chunked_transform :: "bytes \<Rightarrow> nat \<Rightarrow> transform_outcome" where
  "http_chunked_transform input mx =
     (case http_message_header header_has_chunked_transfer_encoding ''HTTP transfer-encoding is not chunked'' input of
        Inl note \<Rightarrow> outcome_noop note
      | Inr header_end \<Rightarrow>
          (case decode_chunked_body (drop header_end input) mx of
             Inl reason \<Rightarrow> outcome_failed (''HTTP chunked decode failed: '' @ reason)
           | Inr decoded \<Rightarrow>
               if cdd_chunks decoded \<noteq> 0 \<or> cdd_reached_last decoded
               then outcome_applied AppliedHttpChunked (take header_end input @ cdd_bytes decoded) (cdd_truncated decoded)
                 ([''decoded '' @ show_nat (cdd_chunks decoded) @ '' HTTP chunks'']
                  @ (if cdd_partial decoded then [''chunked body is incomplete; decoded available chunk data''] else [])
                  @ (if cdd_reached_last decoded \<and> cdd_trailing decoded \<noteq> 0
                     then [''ignored '' @ show_nat (cdd_trailing decoded) @ '' trailer bytes''] else []))
               else outcome_noop ''no HTTP chunk data was available''))"

subsection \<open>Compressed WebSocket messages\<close>

record ws_raw_frame =
  wrf_fin :: bool
  wrf_opcode :: nat
  wrf_rsv1 :: bool
  wrf_payload :: bytes

text \<open>\<^verbatim>\<open>read_array\<close>: the next \<open>n\<close> bytes and the offset behind them.\<close>

definition ws_read_array :: "bytes \<Rightarrow> nat \<Rightarrow> nat \<Rightarrow> string + (bytes \<times> nat)" where
  "ws_read_array input offset n =
     (if length input - offset < n then Inl ''truncated websocket frame length or mask''
      else Inr (take n (drop offset input), offset + n))"

definition ws_payload_len :: "bytes \<Rightarrow> nat \<Rightarrow> u8 \<Rightarrow> string + (nat \<times> nat)" where
  "ws_payload_len input offset second =
     (let short = unat (and second 0x7f) in
      if short = 126 then map_sum id (\<lambda>(bs, off). (nat_be bs, off)) (ws_read_array input offset 2)
      else if short = 127 then map_sum id (\<lambda>(bs, off). (nat_be bs, off)) (ws_read_array input offset 8)
      else Inr (short, offset))"

definition ws_frame_mask :: "bytes \<Rightarrow> nat \<Rightarrow> u8 \<Rightarrow> string + (bytes option \<times> nat)" where
  "ws_frame_mask input offset second =
     (if and second 0x80 \<noteq> 0 then map_sum id (\<lambda>(bs, off). (Some bs, off)) (ws_read_array input offset 4)
      else Inr (None, offset))"

definition ws_unmask :: "bytes option \<Rightarrow> bytes \<Rightarrow> bytes" where
  "ws_unmask frame_mask payload = (case frame_mask of None \<Rightarrow> payload
     | Some m \<Rightarrow> map (\<lambda>(i, b). xor b (m ! (i mod 4))) (List.enumerate 0 payload))"

definition ws_next_frame :: "bytes \<Rightarrow> nat \<Rightarrow> string + (ws_raw_frame \<times> nat) option" where
  "ws_next_frame input offset =
     (if offset = length input then Inr None
      else if length input - offset < 2 then Inl ''truncated websocket frame header''
      else
        let first = input ! offset; second = input ! (offset + 1) in
        try_bind (ws_payload_len input (offset + 2) second) (\<lambda>(payload_len, off1).
        try_bind (ws_frame_mask input off1 second) (\<lambda>(frame_mask, off2).
          if length input - off2 < payload_len then Inl ''truncated websocket frame payload''
          else Inr (Some (\<lparr>wrf_fin = (and first 0x80 \<noteq> 0), wrf_opcode = unat (and first 0x0f),
              wrf_rsv1 = (and first 0x40 \<noteq> 0),
              wrf_payload = ws_unmask frame_mask (take payload_len (drop off2 input))\<rparr>, off2 + payload_len)))))"

lemma ws_next_frame_bound:
  assumes "ws_next_frame input offset = Inr (Some (frame, off))"
  shows "offset + 2 \<le> off \<and> off \<le> length input"
  using assms
  by (auto simp: ws_next_frame_def ws_payload_len_def ws_frame_mask_def ws_read_array_def try_bind_eq_Inr Let_def
      split: if_splits)

definition websocket_note :: "nat \<Rightarrow> nat \<Rightarrow> nat \<Rightarrow> string" where
  "websocket_note decoded copied control = ''decoded '' @ show_nat decoded @ '' compressed websocket messages, copied ''
     @ show_nat copied @ '' plain messages, skipped '' @ show_nat control @ '' control frames''"

record ws_message_buffer =
  wmb_compressed :: bool
  wmb_payload :: bytes

record ws_decode_state =
  wds_output :: bytes
  wds_current :: "ws_message_buffer option"
  wds_decoded :: nat
  wds_copied :: nat
  wds_control :: nat

text \<open>A data frame opens a message or continues one; the result is the message so far.\<close>

definition ws_collect :: "ws_raw_frame \<Rightarrow> ws_message_buffer option \<Rightarrow> string + ws_message_buffer" where
  "ws_collect frame current =
     (if wrf_opcode frame = 0 then
        (case current of
           None \<Rightarrow> Inl ''websocket continuation frame arrived without a message''
         | Some m \<Rightarrow> Inr (m\<lparr>wmb_payload := wmb_payload m @ wrf_payload frame\<rparr>))
      else if current \<noteq> None then Inl ''websocket data frame interrupted an unfinished fragmented message''
      else Inr \<lparr>wmb_compressed = wrf_rsv1 frame, wmb_payload = wrf_payload frame\<rparr>)"

text \<open>A finished message is appended to the output, inflated if it is compressed.\<close>

definition ws_finish :: "'r decoder \<Rightarrow> nat \<Rightarrow> ws_message_buffer \<Rightarrow> ws_decode_state \<Rightarrow> string + ws_decode_state" where
  "ws_finish deflate mx m st =
     (let out = (if wds_output st \<noteq> [] then append_limited (wds_output st) [10] mx else wds_output st) in
      if wmb_compressed m then
        (case read_limited deflate (wmb_payload m @ [0x00, 0x00, 0xff, 0xff]) mx of
           Inl err \<Rightarrow> Inl (''websocket deflate message decode failed: '' @ io_message err)
         | Inr decoded \<Rightarrow> Inr (st\<lparr>wds_output := append_limited out (lrd_bytes decoded) mx, wds_current := None,
             wds_decoded := wds_decoded st + 1\<rparr>))
      else Inr (st\<lparr>wds_output := append_limited out (wmb_payload m) mx, wds_current := None,
        wds_copied := wds_copied st + 1\<rparr>))"

definition ws_applied :: "ws_decode_state \<Rightarrow> bool \<Rightarrow> transform_outcome" where
  "ws_applied st truncated = outcome_applied AppliedWebSocketDeflate (wds_output st) truncated
     [websocket_note (wds_decoded st) (wds_copied st) (wds_control st)]"

function ws_deflate_loop :: "'r decoder \<Rightarrow> bytes \<Rightarrow> nat \<Rightarrow> nat \<Rightarrow> ws_decode_state \<Rightarrow> transform_outcome" where
  "ws_deflate_loop deflate input mx offset st = (case ws_next_frame input offset of
     Inl err \<Rightarrow> outcome_failed err
   | Inr None \<Rightarrow>
       if wds_current st \<noteq> None then outcome_failed ''truncated fragmented websocket message''
       else if wds_decoded st = 0 then outcome_noop ''no compressed websocket messages were found''
       else ws_applied st False
   | Inr (Some (frame, off)) \<Rightarrow>
       if \<not> wrf_opcode frame \<le> 2
       then ws_deflate_loop deflate input mx off (st\<lparr>wds_control := wds_control st + 1\<rparr>)
       else (case ws_collect frame (wds_current st) of
          Inl err \<Rightarrow> outcome_failed err
        | Inr m \<Rightarrow>
            if \<not> wrf_fin frame then ws_deflate_loop deflate input mx off (st\<lparr>wds_current := Some m\<rparr>)
            else (case ws_finish deflate mx m st of
               Inl err \<Rightarrow> outcome_failed err
             | Inr st1 \<Rightarrow>
                 if length (wds_output st1) \<ge> mx then ws_applied st1 True
                 else ws_deflate_loop deflate input mx off st1)))"
  by pat_completeness auto
termination
  by (relation "measure (\<lambda>(deflate, input, mx, offset, st). length input - offset)")
    (auto dest!: sym[of "Inr _"] ws_next_frame_bound)

declare ws_deflate_loop.simps [simp del]

definition websocket_deflate_transform :: "'r decoder \<Rightarrow> bytes \<Rightarrow> nat \<Rightarrow> transform_outcome" where
  "websocket_deflate_transform deflate input mx = ws_deflate_loop deflate input mx 0
     \<lparr>wds_output = [], wds_current = None, wds_decoded = 0, wds_copied = 0, wds_control = 0\<rparr>"

subsection \<open>Steps and plans\<close>

definition auto_transform :: "'r decoder \<Rightarrow> 's decoder \<Rightarrow> bytes \<Rightarrow> nat \<Rightarrow> transform_outcome" where
  "auto_transform gz deflate input mx =
     (let chunked = http_chunked_transform input mx in
      if tou_status chunked = TransformApplied then chunked
      else let http = http_gzip_transform gz input mx in
      if tou_status http = TransformApplied then http
      else let gzip = map_applied AppliedGzip (gzip_transform gz input mx) in
      if is_gzip input \<and> tou_status gzip = TransformApplied then gzip
      else let websocket = websocket_deflate_transform deflate input mx in
      if tou_status websocket = TransformApplied then websocket
      else let url = url_decode_transform input in
      if looks_like_url_encoded_text input \<and> tou_status url = TransformApplied then url
      else outcome_noop ''no supported transform was detected'')"

definition transform_step :: "'r decoder \<Rightarrow> 's decoder \<Rightarrow> bytes \<Rightarrow> transform_mode \<Rightarrow> nat \<Rightarrow> transform_outcome" where
  "transform_step gz deflate input requested mx = (case requested of
     TransformAuto \<Rightarrow> auto_transform gz deflate input mx
   | UrlDecode \<Rightarrow> url_decode_transform input
   | Gzip \<Rightarrow> map_applied AppliedGzip (gzip_transform gz input mx)
   | HttpChunked \<Rightarrow> http_chunked_transform input mx
   | HttpGzip \<Rightarrow> http_gzip_transform gz input mx
   | WebSocketDeflate \<Rightarrow> websocket_deflate_transform deflate input mx)"

fun transform_mode_name :: "transform_mode \<Rightarrow> string" where
  "transform_mode_name TransformAuto = ''auto''"
| "transform_mode_name UrlDecode = ''url_decode''"
| "transform_mode_name Gzip = ''gzip''"
| "transform_mode_name HttpChunked = ''http_chunked''"
| "transform_mode_name HttpGzip = ''http_gzip''"
| "transform_mode_name WebSocketDeflate = ''websocket_deflate''"

record plan_state =
  pns_current :: bytes
  pns_steps :: "transform_step_report list"
  pns_notes :: "string list"
  pns_applied :: transform_applied
  pns_applied_count :: nat
  pns_truncated :: bool
  pns_failed :: bool

text \<open>One step of a plan; \<open>chain\<close> tells whether the plan has several.\<close>

definition plan_outcome :: "'r decoder \<Rightarrow> 's decoder \<Rightarrow> nat \<Rightarrow> bool \<Rightarrow> transform_mode \<Rightarrow> bytes \<Rightarrow> transform_outcome" where
  "plan_outcome gz deflate mx chain mode current =
     (if chain \<and> mode = UrlDecode \<and> \<not> is_mostly_text current
      then outcome_noop ''chain URL decode was skipped for non-text input''
      else transform_step gz deflate current mode mx)"

definition plan_note :: "transform_mode \<Rightarrow> string list \<Rightarrow> string list" where
  "plan_note mode notes = (if notes = [] then [] else [transform_mode_name mode @ '': '' @ join_with ''; '' notes])"

definition plan_step :: "'r decoder \<Rightarrow> 's decoder \<Rightarrow> nat \<Rightarrow> bool \<Rightarrow> transform_mode \<Rightarrow> plan_state \<Rightarrow> plan_state" where
  "plan_step gz deflate mx chain mode ps =
     (let out = plan_outcome gz deflate mx chain mode (pns_current ps);
          ps1 = ps\<lparr>pns_notes := pns_notes ps @ plan_note mode (tou_notes out),
            pns_steps := pns_steps ps @ [\<lparr>tsr_requested = mode, tsr_applied = tou_applied out, tsr_status = tou_status out,
              tsr_input_bytes = length (pns_current ps), tsr_output_bytes = length (tou_bytes out),
              tsr_truncated_by_limit = tou_truncated out, tsr_notes = tou_notes out\<rparr>]\<rparr>
      in case tou_status out of
           TransformApplied \<Rightarrow> ps1\<lparr>pns_current := tou_bytes out, pns_applied := tou_applied out,
             pns_applied_count := pns_applied_count ps + 1, pns_truncated := (pns_truncated ps \<or> tou_truncated out)\<rparr>
         | TransformFailed \<Rightarrow> ps1\<lparr>pns_failed := True\<rparr>
         | TransformNoop \<Rightarrow> ps1)"

fun plan_loop :: "'r decoder \<Rightarrow> 's decoder \<Rightarrow> nat \<Rightarrow> bool \<Rightarrow> transform_mode list \<Rightarrow> plan_state \<Rightarrow> plan_state" where
  "plan_loop gz deflate mx chain [] ps = ps"
| "plan_loop gz deflate mx chain (mode # modes) ps =
     (let ps1 = plan_step gz deflate mx chain mode ps in
      if pns_failed ps1 then ps1 else plan_loop gz deflate mx chain modes ps1)"

record transform_context =
  tcx_input_bytes :: nat
  tcx_source_start :: "nat option"
  tcx_source_end :: "nat option"
  tcx_view_mode :: slice_mode
  tcx_config :: transform_config

definition segment_from_bytes ::
  "(bytes \<Rightarrow> string) \<Rightarrow> nat option \<Rightarrow> nat option \<Rightarrow> bytes \<Rightarrow> slice_mode \<Rightarrow> nat \<Rightarrow> transform_segment" where
  "segment_from_bytes b64 source_start source_end bs mode hex_row_bytes =
     \<lparr>tsg_source_logical_start = source_start, tsg_source_logical_end = source_end, tsg_bytes_len = length bs,
      tsg_base64 = b64 bs,
      tsg_view = segment_view_of b64 mode (case source_start of None \<Rightarrow> 0 | Some n \<Rightarrow> n) hex_row_bytes bs\<rparr>"

definition output_from_outcome ::
  "(bytes \<Rightarrow> string) \<Rightarrow> transform_mode \<Rightarrow> transform_mode list \<Rightarrow> transform_step_report list \<Rightarrow> transform_outcome \<Rightarrow>
   transform_context \<Rightarrow> transform_output" where
  "output_from_outcome b64 requested chain steps out ctx =
     \<lparr>tro_requested = requested, tro_requested_chain = chain, tro_applied = tou_applied out,
      tro_status = tou_status out, tro_input_bytes = tcx_input_bytes ctx, tro_output_bytes = length (tou_bytes out),
      tro_truncated_by_limit = tou_truncated out, tro_source_logical_start = tcx_source_start ctx,
      tro_source_logical_end = tcx_source_end ctx, tro_notes = tou_notes out, tro_steps = steps,
      tro_segments = (if tou_status out = TransformApplied
        then [segment_from_bytes b64 (tcx_source_start ctx) (tcx_source_end ctx) (tou_bytes out) (tcx_view_mode ctx)
          (tfc_hex_row_bytes (tcx_config ctx))] else [])\<rparr>"

definition plan_start :: "bytes \<Rightarrow> plan_state" where
  "plan_start input = \<lparr>pns_current = input, pns_steps = [], pns_notes = [], pns_applied = AppliedNone,
     pns_applied_count = 0, pns_truncated = False, pns_failed = False\<rparr>"

definition plan_result :: "plan_state \<Rightarrow> transform_outcome" where
  "plan_result ps =
     (let status = (if pns_failed ps then TransformFailed
        else if pns_applied_count ps = 0 then TransformNoop else TransformApplied)
      in \<lparr>tou_applied = (if status = TransformApplied then pns_applied ps else AppliedNone), tou_status = status,
          tou_bytes = (if status = TransformApplied then pns_current ps else []),
          tou_truncated = pns_truncated ps, tou_notes = pns_notes ps\<rparr>)"

definition apply_transform_plan ::
  "(bytes \<Rightarrow> string) \<Rightarrow> (string \<Rightarrow> bytes option) \<Rightarrow> 'r decoder \<Rightarrow> 's decoder \<Rightarrow> content_slice \<Rightarrow>
   transform_mode list \<Rightarrow> slice_mode \<Rightarrow> transform_config \<Rightarrow> transform_output" where
  "apply_transform_plan b64 b64_decode gz deflate s plan view_mode config =
     (let input = concatenated_bytes b64_decode s;
          conf = \<lparr>tfc_max_output_bytes = max (tfc_max_output_bytes config) 1,
            tfc_hex_row_bytes = clamp 1 64 (tfc_hex_row_bytes config)\<rparr>;
          ctx = \<lparr>tcx_input_bytes = length input,
            tcx_source_start = (case csl_segments s of [] \<Rightarrow> None | g # _ \<Rightarrow> Some (ssg_logical_start g)),
            tcx_source_end = (if csl_segments s = [] then None else Some (ssg_logical_end (last (csl_segments s)))),
            tcx_view_mode = view_mode, tcx_config = conf\<rparr>;
          requested = (case plan of [] \<Rightarrow> TransformAuto | m # _ \<Rightarrow> m)
      in if plan = [] then output_from_outcome b64 requested [] [] (outcome_noop ''empty transform plan'') ctx
         else let ps = plan_loop gz deflate (tfc_max_output_bytes conf) (length plan > 1) plan (plan_start input)
              in output_from_outcome b64 requested plan (pns_steps ps) (plan_result ps) ctx)"

definition apply_transform ::
  "(bytes \<Rightarrow> string) \<Rightarrow> (string \<Rightarrow> bytes option) \<Rightarrow> 'r decoder \<Rightarrow> 's decoder \<Rightarrow> content_slice \<Rightarrow>
   transform_mode \<Rightarrow> slice_mode \<Rightarrow> transform_config \<Rightarrow> transform_output" where
  "apply_transform b64 b64_decode gz deflate s requested view_mode config =
     apply_transform_plan b64 b64_decode gz deflate s [requested] view_mode config"

end
