(* ===== verification/Pattern_Correctness.thy ===== *)
theory Pattern_Correctness
  imports Pattern Content_Correctness
begin

text \<open>
  What the pattern engine reports: every occurrence of a literal pattern in a stream's bytes once, with
  the update in which its last byte arrives, even when it spans segments and updates; and the bounds on
  the number of reports.
\<close>

subsection \<open>Occurrences\<close>

definition occurrences :: "bytes list \<Rightarrow> bytes \<Rightarrow> (nat \<times> nat \<times> nat) set" where
  "occurrences needles h = {(p, s, t). p < length needles \<and> s + length (needles ! p) = t \<and> t \<le> length h
     \<and> take (length (needles ! p)) (drop s h) = needles ! p}"

text \<open>What the program relies on of \<^verbatim>\<open>find_overlapping_iter\<close>: all matches of all needles, each once.\<close>

definition searcher_ok :: "bytes list \<Rightarrow> literal_searcher \<Rightarrow> bool" where
  "searcher_ok needles f \<longleftrightarrow> (\<forall>bs. distinct (f bs) \<and> set (f bs) = occurrences needles bs)"

lemma occurrences_window:
  assumes "base + len \<le> length h"
  shows "(p, i, j) \<in> occurrences needles (take len (drop base h))
    \<longleftrightarrow> (p, base + i, base + j) \<in> occurrences needles h \<and> j \<le> len"
proof -
  have "take (length (needles ! p)) (drop i (take len (drop base h)))
      = take (length (needles ! p)) (drop (base + i) h)" if "i + length (needles ! p) \<le> len"
    using that by (simp add: drop_take min_def add.commute)
  then show ?thesis using assms by (auto simp: occurrences_def)
qed

subsection \<open>Compilation of literals\<close>

fun definition_bytes :: "pattern_definition_kind \<Rightarrow> bytes" where
  "definition_bytes (DefSubstring bs) = bs"
| "definition_bytes (DefBinary bs) = bs"
| "definition_bytes (DefRegex _) = []"

definition is_literal :: "pattern_definition \<Rightarrow> bool" where
  "is_literal d \<longleftrightarrow> (case pdf_kind d of DefRegex _ \<Rightarrow> False | _ \<Rightarrow> True)"

lemma compile_literals:
  assumes "compile_definitions regex_new ds st = Inr st'" "list_all is_literal ds"
    and "cst_literal_indices st = [0..<length (cst_patterns st)]" "length (cst_literal_needles st) = length (cst_patterns st)"
    and "\<forall>p \<in> set (cst_patterns st). \<not> (\<exists>r. cp_kind p = KindRegex r)"
    and "\<forall>n \<in> set (cst_literal_needles st). n \<noteq> [] \<and> length n \<le> cst_max_literal_len st"
  shows "cst_literal_needles st' = cst_literal_needles st @ map (definition_bytes \<circ> pdf_kind) ds
    \<and> cst_literal_indices st' = [0..<length (cst_patterns st')]
    \<and> length (cst_patterns st') = length (cst_literal_needles st')
    \<and> (\<forall>p \<in> set (cst_patterns st'). \<not> (\<exists>r. cp_kind p = KindRegex r))
    \<and> (\<forall>n \<in> set (cst_literal_needles st'). n \<noteq> [] \<and> length n \<le> cst_max_literal_len st')"
  using assms
proof (induction ds arbitrary: st)
  case (Cons d ds)
  have step: ?case if "compile_definitions regex_new ds (compile_literal d bs kind st) = Inr st'"
    "bs = definition_bytes (pdf_kind d)" "bs \<noteq> []" "\<not> (\<exists>r. kind = KindRegex r)" for bs kind
  proof -
    have "\<forall>n \<in> set (cst_literal_needles (compile_literal d bs kind st)).
        n \<noteq> [] \<and> length n \<le> cst_max_literal_len (compile_literal d bs kind st)"
      using Cons.prems(6) that(3) by (auto simp: compile_literal_def)
    moreover have "\<forall>p \<in> set (cst_patterns (compile_literal d bs kind st)). \<not> (\<exists>r. cp_kind p = KindRegex r)"
      using Cons.prems(5) that(4) by (simp add: compile_literal_def)
    ultimately show ?thesis
      using Cons.IH[OF that(1)] Cons.prems(2-4) that(2) by (simp add: compile_literal_def)
  qed
  show ?case
  proof (cases "pdf_kind d")
    case (DefSubstring bs)
    then show ?thesis using Cons.prems(1) by (intro step[of bs KindSubstring]) (auto split: if_splits)
  next
    case (DefBinary bs)
    then show ?thesis using Cons.prems(1) by (intro step[of bs KindBinaryPattern]) (auto split: if_splits)
  next
    case (DefRegex r)
    then show ?thesis using Cons.prems(2) by (simp add: is_literal_def)
  qed
qed simp

text \<open>A compiled set of literals.\<close>

definition literal_set :: "bytes list \<Rightarrow> pattern_set \<Rightarrow> bool" where
  "literal_set needles pset \<longleftrightarrow> needles \<noteq> []
     \<and> (\<exists>f. ps_literal_automaton pset = Some f \<and> searcher_ok needles f)
     \<and> ps_literal_indices pset = [0..<length needles]
     \<and> (\<forall>p \<in> set (ps_patterns pset). \<not> (\<exists>r. cp_kind p = KindRegex r))
     \<and> (\<forall>n \<in> set needles. n \<noteq> [] \<and> length n \<le> ps_max_literal_len pset)"

lemma pattern_compile_literals:
  assumes "pattern_compile build regex_new ds ms mt rw = Inr config" "pgc_enabled config" "list_all is_literal ds"
    and "\<And>needles f. build needles = Some f \<Longrightarrow> searcher_ok needles f"
  shows "literal_set (map (definition_bytes \<circ> pdf_kind) ds) (pgc_set config)"
    "pgc_max_matches_per_stream config = ms" "pgc_max_total_matches config = mt"
proof -
  have on: "ds \<noteq> []" "ms \<noteq> 0" "mt \<noteq> 0"
    using assms(1,2) by (auto simp: pattern_compile_def pattern_disabled_def split: if_splits)
  obtain pset where pset: "pattern_set_compile build regex_new ds = Inr pset"
    "config = \<lparr>pgc_enabled = True, pgc_set = pset, pgc_max_matches_per_stream = ms,
       pgc_max_total_matches = mt, pgc_regex_window_bytes = rw\<rparr>"
    using assms(1) on by (auto simp: pattern_compile_def try_bind_eq_Inr)
  obtain st where st: "compile_definitions regex_new ds compile_state_empty = Inr st"
    using pset(1) by (auto simp: pattern_set_compile_def try_bind_eq_Inr)
  note c = compile_literals[OF st assms(3)]
  have needles: "cst_literal_needles st = map (definition_bytes \<circ> pdf_kind) ds"
    using c by (simp add: compile_state_empty_def)
  have ne: "cst_literal_needles st \<noteq> []" using needles on by simp
  obtain f where f: "build (cst_literal_needles st) = Some f"
    "pset = \<lparr>ps_patterns = cst_patterns st, ps_literal_indices = cst_literal_indices st,
       ps_literal_automaton = Some f, ps_max_literal_len = cst_max_literal_len st\<rparr>"
    using pset(1) st ne by (auto simp: pattern_set_compile_def try_bind_eq_Inr ok_or_eq_Inr)
  show "literal_set (map (definition_bytes \<circ> pdf_kind) ds) (pgc_set config)"
    unfolding literal_set_def needles[symmetric] using c ne assms(4)[OF f(1)] by (simp add: pset(2) f(2) compile_state_empty_def)
  show "pgc_max_matches_per_stream config = ms" "pgc_max_total_matches config = mt" by (simp_all add: pset(2))
qed

subsection \<open>A window\<close>

definition occurrence_key :: "u64w \<Rightarrow> flow_direction \<Rightarrow> nat \<times> nat \<times> nat \<Rightarrow> match_key" where
  "occurrence_key sid d occ = (case occ of (p, s, t) \<Rightarrow>
     \<lparr>mk_pattern_index = p, mk_stream_id = sid, mk_direction = d, mk_start = s, mk_end = t\<rparr>)"

text \<open>The event for an occurrence in the history \<open>h\<close> of a direction.\<close>

definition match_event ::
  "(bytes \<Rightarrow> string) \<Rightarrow> decoded_packet \<Rightarrow> pattern_set \<Rightarrow> u64w \<Rightarrow> flow_direction \<Rightarrow> bytes \<Rightarrow> nat \<times> nat \<times> nat \<Rightarrow> event" where
  "match_event b64 packet pset sid d h occ = (case occ of (p, s, t) \<Rightarrow>
     event_from_packet ''pattern'' ''pattern_match'' packet (t - s)
       (pattern_fields b64 (ps_patterns pset ! p)
         \<lparr>cw_stream_id = sid, cw_direction = d, cw_logical_start = 0, cw_bytes = []\<rparr> s t (take (t - s) (drop s h))))"

definition stream_match_count :: "pattern_engine \<Rightarrow> u64w \<Rightarrow> nat" where
  "stream_match_count e sid = (case map_of (pge_matches_by_stream e) sid of None \<Rightarrow> 0 | Some n \<Rightarrow> n)"

text \<open>Room for \<open>n\<close> more reports.\<close>

definition engine_room :: "pattern_engine \<Rightarrow> u64w \<Rightarrow> nat \<Rightarrow> bool" where
  "engine_room e sid n \<longleftrightarrow> pgs_pattern_matches (pge_stats e) + n \<le> pgc_max_total_matches (pge_config e)
     \<and> stream_match_count e sid + n \<le> pgc_max_matches_per_stream (pge_config e)
     \<and> pgc_max_total_matches (pge_config e) \<le> u64_max \<and> pgc_max_matches_per_stream (pge_config e) \<le> u64_max"

lemma reserve_match_room:
  assumes "engine_room e sid (Suc n)"
  obtains e' where "reserve_match e sid = (True, e')" "pge_config e' = pge_config e" "engine_room e' sid n"
proof -
  obtain e' where "reserve_match e sid = (True, e')" "pge_config e' = pge_config e" "engine_room e' sid n"
    using assms
    by (auto simp: reserve_match_def engine_room_def stream_match_count_def Let_def sat_add_def update_conv')
  then show thesis by (rule that)
qed

text \<open>The candidates of a window at offset \<open>base\<close>, as occurrences at absolute offsets.\<close>

definition candidate_of :: "nat \<Rightarrow> nat \<times> nat \<times> nat \<Rightarrow> candidate_match" where
  "candidate_of base occ = (case occ of (p, s, t) \<Rightarrow>
     \<lparr>cm_pattern_index = p, cm_start = s - base, cm_end = t - base\<rparr>)"

definition occurrence_new :: "new_range \<Rightarrow> nat \<times> nat \<times> nat \<Rightarrow> bool" where
  "occurrence_new rng occ = (case occ of (p, s, t) \<Rightarrow> s < nr_end rng \<and> nr_start rng < t)"

lemma emit_matches:
  assumes "distinct occs" "\<forall>(p, s, t) \<in> set occs. base \<le> s \<and> s < t \<and> t \<le> base + length bs"
    and "base + length bs \<le> length h" "bs = take (length bs) (drop base h)" "length h \<le> u64_max"
    and "w = \<lparr>cw_stream_id = sid, cw_direction = d, cw_logical_start = base, cw_bytes = bs\<rparr>"
    and "occurrence_key sid d ` {occ \<in> set occs. occurrence_new rng occ} \<inter> set seen = {}"
    and "engine_room e sid (length (filter (occurrence_new rng) occs) + n)" "pgc_set (pge_config e) = pset"
  shows "\<exists>e'. foldl (emit_match_if_new b64 packet w rng) (e, events, seen) (map (candidate_of base) occs)
      = (e', events @ map (match_event b64 packet pset sid d h) (filter (occurrence_new rng) occs),
         rev (map (occurrence_key sid d) (filter (occurrence_new rng) occs)) @ seen)
    \<and> pge_config e' = pge_config e \<and> engine_room e' sid n"
  using assms
proof (induction occs arbitrary: e events seen)
  case (Cons occ occs)
  obtain p s t where occ: "occ = (p, s, t)" by (cases occ)
  have st: "base \<le> s" "s < t" "t \<le> base + length bs" using Cons.prems(2) by (auto simp: occ)
  have cand: "candidate_of base (p, s, t) = \<lparr>cm_pattern_index = p, cm_start = s - base, cm_end = t - base\<rparr>"
    by (simp add: candidate_of_def)
  have abs: "sat_add base (s - base) = s" "sat_add base (t - base) = t" "s - base \<noteq> t - base"
    using st Cons.prems(3,5) by (simp_all add: sat_add_def)
  have tail: "distinct occs" "\<forall>(p, s, t) \<in> set occs. base \<le> s \<and> s < t \<and> t \<le> base + length bs"
    using Cons.prems(1,2) by simp_all
  show ?case
  proof (cases "occurrence_new rng occ")
    case False
    then have "emit_match_if_new b64 packet w rng (e, events, seen) (candidate_of base occ) = (e, events, seen)"
      using abs by (simp add: emit_match_if_new_def cand Cons.prems(6) occ occurrence_new_def Let_def not_less)
    moreover have "occurrence_key sid d ` {occ \<in> set occs. occurrence_new rng occ} \<inter> set seen = {}"
      using Cons.prems(7) by auto
    ultimately show ?thesis
      using Cons.IH[OF tail Cons.prems(3-6)] Cons.prems(8,9) False by simp
  next
    case True
    have room: "engine_room e sid (Suc (length (filter (occurrence_new rng) occs) + n))"
      using Cons.prems(8) True by simp
    obtain e1 where e1: "reserve_match e sid = (True, e1)" "pge_config e1 = pge_config e"
      "engine_room e1 sid (length (filter (occurrence_new rng) occs) + n)"
      by (rule reserve_match_room[OF room])
    have fresh: "occurrence_key sid d occ \<notin> set seen" using Cons.prems(7) True by auto
    have sub: "take (t - base - (s - base)) (drop (s - base) bs) = take (t - s) (drop s h)"
    proof -
      have "drop (s - base) bs = take (length bs - (s - base)) (drop s h)"
        using st by (subst Cons.prems(4)) (simp add: drop_take)
      then show ?thesis using st by (simp add: min_def)
    qed
    have len: "length (take (t - s) (drop s h)) = t - s" using st Cons.prems(3) by simp
    have "emit_match_if_new b64 packet w rng (e, events, seen) (candidate_of base occ)
        = (e1, events @ [match_event b64 packet pset sid d h occ], occurrence_key sid d occ # seen)"
      using True fresh e1(1) abs sub len Cons.prems(9)
      by (simp add: emit_match_if_new_def cand Cons.prems(6) occ occurrence_new_def occurrence_key_def Let_def
          match_event_def pattern_fields_def)
    moreover have "occurrence_key sid d ` {occ \<in> set occs. occurrence_new rng occ}
        \<inter> set (occurrence_key sid d occ # seen) = {}"
    proof -
      have "inj (occurrence_key sid d)" by (auto simp: inj_def occurrence_key_def)
      then have "occurrence_key sid d occ \<notin> occurrence_key sid d ` set occs"
        using Cons.prems(1) by (simp add: inj_image_mem_iff)
      then show ?thesis using Cons.prems(7) by auto
    qed
    moreover note Cons.IH[OF tail Cons.prems(3-6) _ e1(3), of "occurrence_key sid d occ # seen"
        "events @ [match_event b64 packet pset sid d h occ]"]
    ultimately show ?thesis using e1(2) Cons.prems(9) True by simp
  qed
qed simp

subsection \<open>A range\<close>

definition new_occurrences :: "bytes list \<Rightarrow> bytes \<Rightarrow> nat \<Rightarrow> nat \<Rightarrow> (nat \<times> nat \<times> nat) set" where
  "new_occurrences needles h a b = {occ \<in> occurrences needles h. case occ of (p, s, t) \<Rightarrow> a < t \<and> t \<le> b}"

lemma finite_occurrences: "finite (new_occurrences needles h a b)"
proof -
  have "new_occurrences needles h a b \<subseteq> {..<length needles} \<times> {..length h} \<times> {..length h}"
    by (auto simp: new_occurrences_def occurrences_def)
  then show ?thesis by (rule finite_subset) simp
qed

lemma new_occurrences_split:
  assumes "a \<le> b" "b \<le> c"
  shows "new_occurrences needles h a c = new_occurrences needles h a b \<union> new_occurrences needles h b c"
    "new_occurrences needles h a b \<inter> new_occurrences needles h b c = {}"
  using assms by (auto simp: new_occurrences_def)

text \<open>The look-behind reaches the start of every occurrence that ends in the range.\<close>

lemma occurrence_start:
  assumes "literal_set needles (pgc_set c)" "(p, s, t) \<in> new_occurrences needles h a b"
  shows "a - lookbehind_bytes c \<le> s" "s < t" "p < length needles"
proof -
  have "needles ! p \<in> set needles" "s + length (needles ! p) = t" "a < t" "p < length needles"
    using assms(2) by (auto simp: new_occurrences_def occurrences_def)
  moreover have "needles ! p \<noteq> [] \<and> length (needles ! p) \<le> ps_max_literal_len (pgc_set c)"
    using assms(1) calculation(1) by (simp add: literal_set_def)
  then have "0 < length (needles ! p)" "length (needles ! p) \<le> ps_max_literal_len (pgc_set c)" by simp_all
  ultimately show "a - lookbehind_bytes c \<le> s" "s < t" "p < length needles"
    unfolding lookbehind_bytes_def by linarith+
qed

lemma no_regex_candidates:
  assumes "\<forall>p \<in> set (ps_patterns pset). \<not> (\<exists>r. cp_kind p = KindRegex r)"
  shows "regex_candidates pset bs = []"
proof -
  have "(case cp_kind p of KindRegex regex \<Rightarrow> g regex | _ \<Rightarrow> []) = []" if "p \<in> set (ps_patterns pset)" for p
    and g :: "compiled_regex \<Rightarrow> candidate_match list"
    using assms that by (cases "cp_kind p") auto
  moreover have "p \<in> set (ps_patterns pset)" if "(i, p) \<in> set (List.enumerate 0 (ps_patterns pset))" for i p
    using that by (auto simp: in_set_enumerate_eq)
  ultimately show ?thesis by (auto simp: regex_candidates_def)
qed

lemma literal_candidates_shifted:
  assumes "ps_literal_automaton pset = Some f" "ps_literal_indices pset = [0..<n]" "\<forall>(p, i, j) \<in> set (f bs). p < n"
  shows "literal_candidates pset bs
    = map (candidate_of base) (map (\<lambda>(p, i, j). (p, base + i, base + j)) (f bs))"
  using assms(3) by (simp add: literal_candidates_def assms(1,2) candidate_of_def split_beta)

lemma literal_candidates_window:
  assumes "literal_set needles pset" "base + len \<le> length h"
  obtains occs where "distinct occs"
    "set occs = {occ \<in> occurrences needles h. case occ of (p, s, t) \<Rightarrow> base \<le> s \<and> t \<le> base + len}"
    "literal_candidates pset (take len (drop base h)) @ regex_candidates pset (take len (drop base h))
      = map (candidate_of base) occs"
proof -
  let ?w = "take len (drop base h)"
  obtain f where f: "ps_literal_automaton pset = Some f" "searcher_ok needles f"
    using assms(1) by (auto simp: literal_set_def)
  let ?shift = "\<lambda>(p, i, j). (p, base + i, base + j)"
  have found: "distinct (f ?w)" "set (f ?w) = occurrences needles ?w"
    using f(2) by (simp_all add: searcher_ok_def)
  have len: "length ?w = len" using assms(2) by simp
  have inj: "inj_on ?shift (set (f ?w))" by (auto simp: inj_on_def)
  show thesis
  proof (rule that)
    show "distinct (map ?shift (f ?w))" using found(1) inj by (simp add: distinct_map)
    have iff: "(p, s, t) \<in> ?shift ` occurrences needles ?w
        \<longleftrightarrow> (p, s, t) \<in> occurrences needles h \<and> base \<le> s \<and> t \<le> base + len" for p s t
    proof
      assume "(p, s, t) \<in> ?shift ` occurrences needles ?w"
      then obtain i j where "(p, i, j) \<in> occurrences needles ?w" "s = base + i" "t = base + j" by auto
      then show "(p, s, t) \<in> occurrences needles h \<and> base \<le> s \<and> t \<le> base + len"
        using occurrences_window[OF assms(2)] by simp
    next
      assume r: "(p, s, t) \<in> occurrences needles h \<and> base \<le> s \<and> t \<le> base + len"
      have "s \<le> t" using r by (auto simp: occurrences_def)
      then have "(p, s - base, t - base) \<in> occurrences needles ?w"
        using r \<open>s \<le> t\<close> occurrences_window[OF assms(2), of p "s - base" "t - base" needles]
        by (simp add: le_diff_conv add.commute)
      from imageI[OF this, of ?shift] show "(p, s, t) \<in> ?shift ` occurrences needles ?w"
        using r \<open>s \<le> t\<close> by simp
    qed
    show "set (map ?shift (f ?w))
        = {occ \<in> occurrences needles h. case occ of (p, s, t) \<Rightarrow> base \<le> s \<and> t \<le> base + len}"
    proof (rule set_eqI)
      fix occ :: "nat \<times> nat \<times> nat"
      obtain p s t where occ: "occ = (p, s, t)" by (cases occ)
      show "occ \<in> set (map ?shift (f ?w))
          \<longleftrightarrow> occ \<in> {occ \<in> occurrences needles h. case occ of (p, s, t) \<Rightarrow> base \<le> s \<and> t \<le> base + len}"
        unfolding occ set_map found(2) iff by simp
    qed
    have "regex_candidates pset ?w = []" using assms(1) by (intro no_regex_candidates) (simp add: literal_set_def)
    moreover have "literal_candidates pset ?w = map (candidate_of base) (map ?shift (f ?w))"
    proof (rule literal_candidates_shifted[OF f(1), of "length needles"])
      show "ps_literal_indices pset = [0..<length needles]" using assms(1) by (simp add: literal_set_def)
      show "\<forall>(p, i, j) \<in> set (f ?w). p < length needles" by (auto simp: found(2) occurrences_def)
    qed
    ultimately show "literal_candidates pset ?w @ regex_candidates pset ?w = map (candidate_of base) (map ?shift (f ?w))"
      by simp
  qed
qed

lemma ranges_from_le: "ranges_from a rs b \<Longrightarrow> a \<le> b"
  by (induction rs arbitrary: a) (auto intro: less_imp_le order_trans)

lemma scan_range_new:
  assumes set: "literal_set needles (pgc_set (pge_config e))"
    and store: "content_inv sc" "content_held sc key d = Some (length h - n, drop (length h - n) h)" "n \<le> length h"
    and rng: "cr_direction r = d" "cr_logical_start r < cr_logical_end r" "cr_logical_end r \<le> length h"
      "length h - n \<le> cr_logical_start r - lookbehind_bytes (pge_config e)"
    and old: "\<forall>m \<in> set seen. mk_end m \<le> cr_logical_start r"
    and room: "engine_room e (stable_id key)
      (card (new_occurrences needles h (cr_logical_start r) (cr_logical_end r)) + k)"
  shows "\<exists>occs e' seen'. scan_range b64 packet sc key (lookbehind_bytes (pge_config e)) (e, events, seen) r
      = (e', events @ map (match_event b64 packet (pgc_set (pge_config e)) (stable_id key) d h) occs, seen')
    \<and> distinct occs \<and> set occs = new_occurrences needles h (cr_logical_start r) (cr_logical_end r)
    \<and> pge_config e' = pge_config e \<and> engine_room e' (stable_id key) k
    \<and> (\<forall>m \<in> set seen'. mk_end m \<le> cr_logical_end r)"
proof -
  let ?a = "cr_logical_start r" and ?b = "cr_logical_end r" and ?L = "lookbehind_bytes (pge_config e)"
  let ?base = "?a - ?L" and ?rng = "\<lparr>nr_start = ?a, nr_end = ?b\<rparr>"
  let ?bs = "take (?b - ?base) (drop ?base h)"
  let ?w = "\<lparr>cw_stream_id = stable_id key, cw_direction = d, cw_logical_start = ?base, cw_bytes = ?bs\<rparr>"
  have fit: "length h \<le> u64_max" using sc_direction_windows_held(2)[OF store(1,2)] store(3) by simp
  have "one_window (stable_id key) d (length h - n) (drop (length h - n) h) ?base ?b = [?w]"
  proof -
    have "max ?base (length h - n) = ?base" "min ?b (length h - n + length (drop (length h - n) h)) = ?b"
      using rng(3,4) store(3) by simp_all
    moreover have "?base < ?b" "?base - (length h - n) + (length h - n) = ?base" using rng(2,4) by linarith+
    ultimately show ?thesis by (simp add: one_window_def Let_def)
  qed
  then have wins: "sc_direction_windows sc key d ?base ?b = Some [?w]"
    using content.windows_held[OF store(1,2)] by simp
  have len: "?base + (?b - ?base) = ?b" "length ?bs = ?b - ?base" using rng(2,3) by simp_all
  have inside: "?base + (?b - ?base) \<le> length h" using len(1) rng(3) by simp
  obtain occs where occs: "distinct occs"
    "set occs = {occ \<in> occurrences needles h. case occ of (p, s, t) \<Rightarrow> ?base \<le> s \<and> t \<le> ?base + (?b - ?base)}"
    "literal_candidates (pgc_set (pge_config e)) ?bs @ regex_candidates (pgc_set (pge_config e)) ?bs
      = map (candidate_of ?base) occs"
    by (rule literal_candidates_window[OF set inside])
  have pos: "s < t" if "(p, s, t) \<in> occurrences needles h" for p s t
  proof -
    have "needles ! p \<noteq> []" using that set by (simp add: occurrences_def literal_set_def)
    then show ?thesis using that by (auto simp: occurrences_def)
  qed
  have new: "occurrence_new ?rng occ \<and> occ \<in> set occs \<longleftrightarrow> occ \<in> new_occurrences needles h ?a ?b" for occ
  proof -
    obtain p s t where occ: "occ = (p, s, t)" by (cases occ)
    have "s < t" if "occ \<in> occurrences needles h" using that pos occ by simp
    moreover have "?base \<le> s" if "occ \<in> new_occurrences needles h ?a ?b"
      using occurrence_start(1)[OF set] that occ by simp
    ultimately show ?thesis
      using len(1) by (auto simp: occs(2) occ occurrence_new_def new_occurrences_def)
  qed
  define found where "found = filter (occurrence_new ?rng) occs"
  have found: "distinct found" "set found = new_occurrences needles h ?a ?b"
    using occs(1) new by (auto simp: found_def)
  have count: "card (new_occurrences needles h ?a ?b) = length found"
    using found distinct_card by metis
  have fresh: "occurrence_key (stable_id key) d ` {occ \<in> set occs. occurrence_new ?rng occ} \<inter> set seen = {}"
  proof -
    have "mk_end (occurrence_key (stable_id key) d occ) > ?a" if "occurrence_new ?rng occ" for occ
      using that by (cases occ) (simp add: occurrence_key_def occurrence_new_def)
    then show ?thesis using old by fastforce
  qed
  have bounds: "\<forall>(p, s, t) \<in> set occs. ?base \<le> s \<and> s < t \<and> t \<le> ?base + length ?bs"
    using occs(2) pos len by auto
  have stop: "?base + length ?bs \<le> length h" using len rng(3) by simp
  have self: "?bs = take (length ?bs) (drop ?base h)" by (subst len(2)) (rule refl)
  have room': "engine_room e (stable_id key) (length (filter (occurrence_new ?rng) occs) + k)"
    using room unfolding count found_def .
  obtain e' where e': "foldl (emit_match_if_new b64 packet ?w ?rng) (e, events, seen) (map (candidate_of ?base) occs)
      = (e', events @ map (match_event b64 packet (pgc_set (pge_config e)) (stable_id key) d h) found,
         rev (map (occurrence_key (stable_id key) d) found) @ seen)"
    "pge_config e' = pge_config e" "engine_room e' (stable_id key) k"
    using emit_matches[OF occs(1) bounds stop self fit refl fresh room' refl] unfolding found_def by blast
  have scan: "scan_range b64 packet sc key ?L (e, events, seen) r
      = (e', events @ map (match_event b64 packet (pgc_set (pge_config e)) (stable_id key) d h) found,
         rev (map (occurrence_key (stable_id key) d) found) @ seen)"
    using occs(3) e'(1) by (simp add: scan_range_def rng(1) wins scan_window_def Let_def del: foldl_append)
  have "mk_end m \<le> ?b" if "m \<in> set (rev (map (occurrence_key (stable_id key) d) found) @ seen)" for m
    using that old rng(2) found(2) by (auto simp: occurrence_key_def new_occurrences_def split_beta)
  then show ?thesis using scan found e'(2,3) by blast
qed

text \<open>Consecutive ranges of a direction, as an update reports them.\<close>

lemma scan_ranges_new:
  assumes "literal_set needles (pgc_set (pge_config e))"
    and "content_inv sc" "content_held sc key d = Some (length h - n, drop (length h - n) h)" "n \<le> length h"
    and "ranges_from a rs b" "b \<le> length h" "\<forall>r \<in> set rs. cr_direction r = d"
    and "length h - n \<le> a - lookbehind_bytes (pge_config e)"
    and "\<forall>m \<in> set seen. mk_end m \<le> a"
    and "engine_room e (stable_id key) (card (new_occurrences needles h a b) + k)"
  shows "\<exists>occs e' seen'. foldl (scan_range b64 packet sc key (lookbehind_bytes (pge_config e))) (e, events, seen) rs
      = (e', events @ map (match_event b64 packet (pgc_set (pge_config e)) (stable_id key) d h) occs, seen')
    \<and> distinct occs \<and> set occs = new_occurrences needles h a b"
  using assms
proof (induction rs arbitrary: a e events seen)
  case Nil
  then have "new_occurrences needles h a b = {}" by (auto simp: new_occurrences_def)
  then show ?case by simp
next
  case (Cons r rs)
  let ?c = "cr_logical_end r"
  have le: "?c \<le> b"
    using Cons.prems(5) by (auto dest: ranges_from_le)
  have rng: "cr_direction r = d" "cr_logical_start r = a" "a < ?c" "?c \<le> length h" "ranges_from ?c rs b"
    using Cons.prems(5-7) le by auto
  have "card (new_occurrences needles h a b)
      = card (new_occurrences needles h a ?c) + card (new_occurrences needles h ?c b)"
    using new_occurrences_split[of a ?c b needles h] rng(3) le finite_occurrences
    by (metis card_Un_disjoint less_imp_le)
  then have room: "engine_room e (stable_id key)
      (card (new_occurrences needles h a ?c) + (card (new_occurrences needles h ?c b) + k))"
    using Cons.prems(10) by (simp add: add.assoc)
  obtain occs1 e1 seen1 where one:
    "scan_range b64 packet sc key (lookbehind_bytes (pge_config e)) (e, events, seen) r
      = (e1, events @ map (match_event b64 packet (pgc_set (pge_config e)) (stable_id key) d h) occs1, seen1)"
    "distinct occs1" "set occs1 = new_occurrences needles h a ?c" "pge_config e1 = pge_config e"
    "engine_room e1 (stable_id key) (card (new_occurrences needles h ?c b) + k)" "\<forall>m \<in> set seen1. mk_end m \<le> ?c"
    using scan_range_new[of needles e sc key d h n r seen "card (new_occurrences needles h ?c b) + k" b64 packet events]
      Cons.prems(1-4,8,9) rng room unfolding rng(2) by blast
  have stored: "length h - n \<le> ?c - lookbehind_bytes (pge_config e1)"
    unfolding one(4) using Cons.prems(8) rng(3) by linarith
  obtain occs2 e2 seen2 where two:
    "foldl (scan_range b64 packet sc key (lookbehind_bytes (pge_config e1)))
        (e1, events @ map (match_event b64 packet (pgc_set (pge_config e)) (stable_id key) d h) occs1, seen1) rs
      = (e2, (events @ map (match_event b64 packet (pgc_set (pge_config e)) (stable_id key) d h) occs1)
          @ map (match_event b64 packet (pgc_set (pge_config e1)) (stable_id key) d h) occs2, seen2)"
    "distinct occs2" "set occs2 = new_occurrences needles h ?c b"
    using Cons.IH[OF _ Cons.prems(2-4) rng(5) Cons.prems(6) _ stored one(6,5)] Cons.prems(1,7)
    unfolding one(4) by (metis list.set_intros(2))
  have "distinct (occs1 @ occs2)" "set (occs1 @ occs2) = new_occurrences needles h a b"
    using one(2,3) two(2,3) new_occurrences_split[of a ?c b needles h] rng(3) le by auto
  moreover have "foldl (scan_range b64 packet sc key (lookbehind_bytes (pge_config e))) (e, events, seen) (r # rs)
      = (e2, events @ map (match_event b64 packet (pgc_set (pge_config e)) (stable_id key) d h) (occs1 @ occs2), seen2)"
    using one(1,4) two(1) by simp
  ultimately show ?case by blast
qed

subsection \<open>Properties\<close>

text \<open>
  C24. The pattern engine compiled from literal definitions, with a searcher that finds every
  overlapping occurrence of its needles and no cap reached, adds to an update's events exactly one
  match event for each occurrence of a pattern in the stream's history whose last byte is among the
  bytes of the update, with the offsets and bytes of the occurrence; this holds across segment,
  range and update boundaries, provided the store still holds the look-behind before the new bytes.
\<close>
theorem scan_reports_new_literals:
  assumes config: "pattern_compile build regex_new ds ms mt rw = Inr (pge_config e)" "pgc_enabled (pge_config e)"
      "list_all is_literal ds" "\<And>needles f. build needles = Some f \<Longrightarrow> searcher_ok needles f"
    and store: "content_inv sc" "content_held sc key d = Some (length h - n, drop (length h - n) h)" "n \<le> length h"
      "length h - n \<le> a - lookbehind_bytes (pge_config e)"
    and update: "cu_key update = key" "ranges_from a (cu_ranges update) b" "b \<le> length h"
      "\<forall>r \<in> set (cu_ranges update). cr_direction r = d"
    and room: "engine_room e (stable_id key) (card (new_occurrences (map (definition_bytes \<circ> pdf_kind) ds) h a b))"
  shows "\<exists>occs. distinct occs \<and> set occs = new_occurrences (map (definition_bytes \<circ> pdf_kind) ds) h a b
    \<and> snd (scan_update b64 e packet sc update events)
      = events @ map (match_event b64 packet (pgc_set (pge_config e)) (stable_id key) d h) occs"
proof -
  let ?needles = "map (definition_bytes \<circ> pdf_kind) ds"
  have lits: "literal_set ?needles (pgc_set (pge_config e))"
    by (rule pattern_compile_literals(1)[OF config])
  have free: "engine_room e (stable_id key) (card (new_occurrences ?needles h a b) + 0)" using room by simp
  have "\<forall>m \<in> set ([] :: match_key list). mk_end m \<le> a" by simp
  from scan_ranges_new[OF lits store(1-3) update(2-4) store(4) this free, of b64 packet events]
  show ?thesis using config(2) by (auto simp: scan_update_def update(1))
qed

text \<open>A searcher that compares the needles at every position, for the example below.\<close>

definition naive_searcher :: "bytes list \<Rightarrow> literal_searcher option" where
  "naive_searcher needles = Some (\<lambda>bs. concat (map (\<lambda>p. map (\<lambda>s. (p, s, s + length (needles ! p)))
     (filter (\<lambda>s. s + length (needles ! p) \<le> length bs
       \<and> take (length (needles ! p)) (drop s bs) = needles ! p) [0..<Suc (length bs)])) [0..<length needles]))"

lemma naive_searcher_ok: "naive_searcher needles = Some f \<Longrightarrow> searcher_ok needles f"
proof -
  assume "naive_searcher needles = Some f"
  then have f: "f = (\<lambda>bs. concat (map (\<lambda>p. map (\<lambda>s. (p, s, s + length (needles ! p)))
     (filter (\<lambda>s. s + length (needles ! p) \<le> length bs
       \<and> take (length (needles ! p)) (drop s bs) = needles ! p) [0..<Suc (length bs)])) [0..<length needles]))"
    by (simp add: naive_searcher_def)
  have "distinct (f bs)" for bs
  proof -
    have "distinct (concat (map (\<lambda>p. map (\<lambda>s. (p, s, g p s)) (filter (P p) [0..<m])) [0..<k]))"
      for g :: "nat \<Rightarrow> nat \<Rightarrow> nat" and P :: "nat \<Rightarrow> nat \<Rightarrow> bool" and m k
    proof (induction k)
      case (Suc k)
      then show ?case by (auto simp: distinct_map inj_on_def)
    qed simp
    then show ?thesis unfolding f .
  qed
  moreover have "set (f bs) = occurrences needles bs" for bs
    unfolding f occurrences_def by (auto simp: image_iff simp del: upt_Suc)
  ultimately show "searcher_ok needles f" by (simp add: searcher_ok_def)
qed

definition sample_pattern_config :: pattern_config where
  "sample_pattern_config = \<lparr>pgc_enabled = True, pgc_set = \<lparr>ps_patterns =
     [\<lparr>cp_id = ''p'', cp_name = ''89'', cp_kind = KindBinaryPattern\<rparr>], ps_literal_indices = [0],
     ps_literal_automaton = naive_searcher [[8, 9]], ps_max_literal_len = 2\<rparr>,
     pgc_max_matches_per_stream = 1, pgc_max_total_matches = 1, pgc_regex_window_bytes = 0\<rparr>"

definition sample_update :: content_update where
  "sample_update = \<lparr>cu_stream_id = stable_id sample_key, cu_key = sample_key, cu_ranges =
     [\<lparr>cr_stream_id = stable_id sample_key, cr_direction = AToB, cr_logical_start = 2, cr_logical_end = 3,
       cr_sequence_start = None, cr_sequence_end = None, cr_stored_bytes = 1\<rparr>], cu_observed_bytes = 1, cu_stored_bytes_after = 2\<rparr>"

lemma scan_reports_new_literals_witness:
  "\<forall>b64 packet. \<exists>occs. distinct occs \<and> set occs = {(0, 1, 3)}
    \<and> snd (scan_update b64 (pattern_engine_new sample_pattern_config) packet sample_store sample_update [])
      = map (match_event b64 packet (pgc_set sample_pattern_config) (stable_id sample_key) AToB [7, 8, 9]) occs"
proof -
  let ?ds = "[\<lparr>pdf_id = ''p'', pdf_name = ''89'', pdf_kind = DefBinary [8, 9]\<rparr>]"
  let ?e = "pattern_engine_new sample_pattern_config"
  have compiled: "pattern_compile naive_searcher (\<lambda>_. None) ?ds 1 1 0 = Inr (pge_config ?e)"
    by (simp add: pattern_compile_def pattern_set_compile_def compile_literal_def compile_state_empty_def
        naive_searcher_def sample_pattern_config_def pattern_engine_new_def ok_or_def)
  have needles: "map (definition_bytes \<circ> pdf_kind) ?ds = [[8, 9]]" by simp
  have new: "new_occurrences [[8, 9]] [7, 8, 9] 2 3 = {(0, 1, 3)}"
    by (auto simp: new_occurrences_def occurrences_def numeral_3_eq_3 less_Suc_eq)
  have "bounded_histories sample_history"
    by (simp add: bounded_histories_def both_length_def sample_history_def u64_max_def)
  then have inv: "content_inv sample_store" using sample_store_ok content_inv_def by blast
  have held: "content_held sample_store sample_key AToB
      = Some (length [7, 8, 9 :: u8] - 2, drop (length [7, 8, 9 :: u8] - 2) [7, 8, 9])"
    by (simp add: content_held_def sample_store_def dn_bytes_def Let_def)
  have room: "engine_room ?e (stable_id sample_key) (card (new_occurrences (map (definition_bytes \<circ> pdf_kind) ?ds) [7, 8, 9] 2 3))"
    unfolding needles new
    by (simp add: engine_room_def stream_match_count_def pattern_engine_new_def sample_pattern_config_def u64_max_def)
  have "\<exists>occs. distinct occs \<and> set occs = new_occurrences (map (definition_bytes \<circ> pdf_kind) ?ds) [7, 8, 9] 2 3
    \<and> snd (scan_update b64 ?e packet sample_store sample_update [])
      = [] @ map (match_event b64 packet (pgc_set (pge_config ?e)) (stable_id sample_key) AToB [7, 8, 9]) occs"
    for b64 packet
    by (rule scan_reports_new_literals[OF compiled _ _ naive_searcher_ok inv held _ _ _ _ _ _ room])
      (simp_all add: sample_pattern_config_def pattern_engine_new_def is_literal_def lookbehind_bytes_def sample_update_def)
  then show ?thesis unfolding needles new by (simp add: pattern_engine_new_def)
qed

end
