(* ===== verification/Slice_Correctness.thy ===== *)
theory Slice_Correctness
  imports Stream_Slice Pattern_Correctness
begin

text \<open>
  What a content slice holds: the requested part of the stored bytes, highlights that lie in its
  segments, and a hexadecimal copy that reads back as a binary pattern.
\<close>

subsection \<open>The bytes\<close>

lemma foldl_returned:
  "foldl (\<lambda>n w. sat_add n (length (cw_bytes w))) 0 (one_window sid d a bs lo hi)
     = min (length (concat (map cw_bytes (one_window sid d a bs lo hi)))) u64_max"
  by (simp add: one_window_def Let_def sat_add_def)

lemma one_window_bytes:
  "concat (map cw_bytes (one_window sid d a bs lo hi)) = take (hi - max lo a) (drop (max lo a - a) bs)"
proof (cases "max lo a < min hi (a + length bs)")
  case True
  have "take (min hi (a + length bs) - max lo a) (drop (max lo a - a) bs) = take (hi - max lo a) (drop (max lo a - a) bs)"
  proof (cases "hi \<le> a + length bs")
    case False
    then have "length (drop (max lo a - a) bs) \<le> min hi (a + length bs) - max lo a"
      "length (drop (max lo a - a) bs) \<le> hi - max lo a" by auto
    then show ?thesis by simp
  qed (simp add: min_def)
  then show ?thesis using True by (simp add: one_window_def Let_def)
next
  case False
  then have "hi \<le> max lo a \<or> length bs \<le> max lo a - a" by linarith
  then have "take (hi - max lo a) (drop (max lo a - a) bs) = []" by auto
  moreover have "one_window sid d a bs lo hi = []"
    unfolding one_window_def Let_def by (rule if_not_P[OF False])
  ultimately show ?thesis by simp
qed

lemma concatenated_segments:
  assumes "\<And>bs. b64_decode (b64 bs) = Some bs" "csl_segments s = map (\<lambda>w. segment_from_window b64 w mode rb) ws"
  shows "concatenated_bytes b64_decode s = concat (map cw_bytes ws)"
  by (simp add: concatenated_bytes_def assms segment_from_window_def comp_def)

subsection \<open>Highlights\<close>

lemma count_inner:
  "fold (\<lambda>s n. if P s then sat_add n 1 else n) segments (min k u64_max)
     = min (k + length (filter P segments)) u64_max"
proof (induction segments arbitrary: k)
  case (Cons s segments)
  have "sat_add (min k u64_max) 1 = min (Suc k) u64_max" by (simp add: sat_add_def)
  then show ?case using Cons.IH[of k] Cons.IH[of "Suc k"] by simp
qed simp

lemma map_filter_length: "length (List.map_filter f xs) = length (filter (\<lambda>x. f x \<noteq> None) xs)"
  by (induction xs) (auto simp: List.map_filter_simps split: option.split)

lemma length_filter_enumerate: "length (filter (\<lambda>x. P (snd x)) (List.enumerate n xs)) = length (filter P xs)"
  by (induction xs arbitrary: n) auto

lemma highlight_iff:
  assumes "pm_logical_start m < pm_logical_end m" "ssg_logical_start s < ssg_logical_end s"
  shows "highlight_of sid d m (i, s) \<noteq> None
    \<longleftrightarrow> pm_logical_start m < ssg_logical_end s \<and> pm_logical_end m > ssg_logical_start s"
  using assms by (auto simp: highlight_of_def Let_def)

lemma highlights_counted:
  assumes "\<forall>m \<in> set matches. pm_logical_start m < pm_logical_end m"
    and "\<forall>s \<in> set segments. ssg_logical_start s < ssg_logical_end s"
  shows "count_overlapping_matches d matches segments = min (length (all_highlights sid d matches segments)) u64_max"
proof -
  have "fold (\<lambda>m n. if pm_direction m \<noteq> d then n
       else fold (\<lambda>s n. if pm_logical_start m < ssg_logical_end s \<and> pm_logical_end m > ssg_logical_start s
         then sat_add n 1 else n) segments n) matches (min k u64_max)
      = min (k + length (all_highlights sid d matches segments)) u64_max" for k
    using assms(1)
  proof (induction matches arbitrary: k)
    case (Cons m matches)
    have "length (List.map_filter (highlight_of sid d m) (List.enumerate 0 segments))
        = length (filter (\<lambda>s. pm_logical_start m < ssg_logical_end s \<and> pm_logical_end m > ssg_logical_start s) segments)"
    proof -
      have "filter (\<lambda>x. highlight_of sid d m x \<noteq> None) (List.enumerate 0 segments)
          = filter (\<lambda>x. pm_logical_start m < ssg_logical_end (snd x) \<and> pm_logical_end m > ssg_logical_start (snd x))
              (List.enumerate 0 segments)"
      proof (rule filter_cong[OF refl])
        fix x assume x: "x \<in> set (List.enumerate 0 segments)"
        obtain i s where pair: "x = (i, s)" by (cases x)
        have "s \<in> set segments" using x by (auto simp: pair in_set_enumerate_eq)
        then show "(highlight_of sid d m x \<noteq> None)
            = (pm_logical_start m < ssg_logical_end (snd x) \<and> pm_logical_end m > ssg_logical_start (snd x))"
          using highlight_iff[of m s sid d i] assms(2) Cons.prems by (simp add: pair)
      qed
      then show ?thesis unfolding map_filter_length by (simp only: length_filter_enumerate[where
            P = "\<lambda>s. pm_logical_start m < ssg_logical_end s \<and> pm_logical_end m > ssg_logical_start s"])
    qed
    then show ?case using Cons.IH[of k] Cons.IH[of "k + length (filter (\<lambda>s. pm_logical_start m < ssg_logical_end s
        \<and> pm_logical_end m > ssg_logical_start s) segments)"] Cons.prems
      by (simp add: count_inner all_highlights_def add.assoc)
  qed (simp add: all_highlights_def)
  from this[of 0] show ?thesis by (simp add: count_overlapping_matches_def)
qed

definition highlight_in :: "flow_direction \<Rightarrow> pattern_match list \<Rightarrow> slice_segment list \<Rightarrow> slice_highlight \<Rightarrow> bool" where
  "highlight_in d matches segments h \<longleftrightarrow> hl_segment_index h < length segments
     \<and> (let s = segments ! hl_segment_index h in
          hl_segment_start h < hl_segment_end h \<and> hl_segment_end h \<le> ssg_bytes_len s
          \<and> hl_logical_start h = ssg_logical_start s + hl_segment_start h
          \<and> hl_logical_end h = ssg_logical_start s + hl_segment_end h)
     \<and> (\<exists>m \<in> set matches. pm_direction m = d \<and> hl_pattern_id h = pm_pattern_id m
          \<and> pm_logical_start m \<le> hl_logical_start h \<and> hl_logical_end h \<le> pm_logical_end m)"

lemma all_highlights_in:
  assumes "\<forall>s \<in> set segments. ssg_logical_end s \<le> ssg_logical_start s + ssg_bytes_len s"
    and "h \<in> set (all_highlights sid d matches segments)"
  shows "highlight_in d matches segments h"
proof -
  obtain m i s where h: "m \<in> set matches" "pm_direction m = d" "(i, s) \<in> set (List.enumerate 0 segments)"
    "highlight_of sid d m (i, s) = Some h"
    using assms(2) by (auto simp: all_highlights_def List.map_filter_def split: if_splits)
  have s: "i < length segments" "segments ! i = s" using h(3) by (auto simp: in_set_enumerate_eq)
  then have "ssg_logical_end s \<le> ssg_logical_start s + ssg_bytes_len s" using assms(1) nth_mem by blast
  then show ?thesis
    using h(1,2,4) s by (auto simp: highlight_in_def highlight_of_def Let_def split: if_splits)
qed

subsection \<open>Hexadecimal copies\<close>

lemma hex_digit_plain:
  assumes "n < 16"
  shows "\<not> is_ascii_ws (hex_digit n)" "hex_digit n \<notin> set '':_-+xX''" "\<not> is_continuation (hex_digit n)"
proof -
  have "\<forall>n \<in> set [0..<16]. \<not> is_ascii_ws (hex_digit n) \<and> hex_digit n \<notin> set '':_-+xX'' \<and> \<not> is_continuation (hex_digit n)"
    by (simp add: upt_rec hex_digit_def is_ascii_ws_def is_continuation_def)
  moreover have "n \<in> set [0..<16]" using assms by simp
  ultimately show "\<not> is_ascii_ws (hex_digit n)" "hex_digit n \<notin> set '':_-+xX''" "\<not> is_continuation (hex_digit n)"
    by blast+
qed

lemma byte_lt_256: "unat (b :: u8) < 256"
  using unsigned_less[where 'a = nat, of b] by simp

lemma byte_digits_small: "unat (b :: u8) div 16 < 16"
  by (rule less_mult_imp_div_less) (use byte_lt_256[of b] in linarith)

lemma hex_pair_digits: "hex_pair b = [hex_digit (unat b div 16), hex_digit (unat b mod 16)]"
  using byte_digits_small[of b] by (simp add: hex_pair_def numeral_2_eq_2)

lemma parse_hex_pair:
  "parse_unsigned 16 255 [hex_digit (unat (b :: u8) div 16), hex_digit (unat b mod 16)] = Some (unat b)"
proof -
  have "unat b div 16 * 16 + unat b mod 16 = unat b" by simp
  moreover have "unat b \<le> 255" using byte_lt_256[of b] by linarith
  moreover have "\<not> 16 \<le> unat b div 16" "\<not> 16 \<le> unat b mod 16"
    using byte_digits_small[of b] by (simp_all add: not_le)
  ultimately show ?thesis
    using hex_digit_plain(2)[OF byte_digits_small, of b] by (simp add: parse_unsigned_def)
qed

lemma hex_pairs_bytes: "hex_pairs (concat (map hex_pair bs)) = Some (Inr bs)"
proof (induction bs)
  case (Cons b bs)
  have "at_boundary (concat (map hex_pair bs))"
    using hex_digit_plain(3)[OF byte_digits_small] by (cases bs) (simp_all add: at_boundary_def hex_pair_digits)
  moreover have "at_boundary (hex_digit (unat b div 16) # cs)" for cs
    using hex_digit_plain(3)[OF byte_digits_small] by (simp add: at_boundary_def)
  ultimately show ?case using Cons.IH parse_hex_pair[of b] by (simp add: hex_pair_digits[of b])
qed simp

lemma filter_hex:
  "filter (\<lambda>c. \<not> is_ascii_ws c \<and> c \<notin> set '':_-'') (bytes_to_hex bs) = concat (map hex_pair bs)"
proof -
  have digits: "filter (\<lambda>c. \<not> is_ascii_ws c \<and> c \<notin> set '':_-'') (hex_pair b) = hex_pair b" for b
    using hex_digit_plain(1,2)[OF byte_digits_small, of b] hex_digit_plain(1,2)[of "unat b mod 16"]
    by (simp add: hex_pair_digits)
  note digits = digits[simplified]
  show ?thesis
  proof (induction bs rule: induct_list012)
    case (3 a b bs)
    then show ?case using digits by (simp add: bytes_to_hex_def is_ascii_ws_def)
  qed (simp_all add: bytes_to_hex_def digits)
qed

text \<open>
  What a user copies as hexadecimal text reads back: for any non-empty bytes, the binary pattern
  parser accepts the text that the slice's hexadecimal copy renders and returns the same bytes.
\<close>

theorem copied_hex_is_a_pattern:
  assumes "bs \<noteq> []"
  shows "parse_hex_pattern (bytes_to_hex bs) = Some (Inr bs)"
proof -
  obtain b cs where bs: "bs = b # cs" using assms by (cases bs) auto
  let ?digits = "concat (map hex_pair bs)"
  have "\<not> starts_with ''0x'' ?digits" "\<not> starts_with ''0X'' ?digits"
    using hex_digit_plain(2)[of "unat b mod 16"] by (auto simp: bs hex_pair_digits starts_with_def)
  moreover have "length ?digits mod 2 = 0"
  proof -
    have "length (concat (map hex_pair xs)) mod 2 = 0" for xs
      by (induction xs) (simp_all add: hex_pair_digits)
    then show ?thesis .
  qed
  moreover have "?digits \<noteq> []" by (simp add: bs hex_pair_digits)
  ultimately show ?thesis
    unfolding parse_hex_pattern_def filter_hex Let_def using hex_pairs_bytes[of bs] by simp
qed

lemma copied_hex_is_a_pattern_witness: "parse_hex_pattern (bytes_to_hex [0, 222, 173]) = Some (Inr [0, 222, 173])"
  by (rule copied_hex_is_a_pattern) simp

subsection \<open>Slices\<close>

lemma slice_with_context_cases:
  fixes config :: slice_config
  assumes "content_inv sc" "content_held sc key (srq_direction req) = Some (a, bs)" "srq_max_bytes req \<noteq> 0"
  defines "hi \<equiv> sat_add (srq_logical_start req) (max (min (srq_max_bytes req) (slc_max_slice_bytes config)) 1)"
  defines "ws \<equiv> one_window (stable_id key) (srq_direction req) a bs (srq_logical_start req) hi"
  obtains s where "slice_with_context b64 sc config req key matches = Inr s"
    "csl_segments s = map (\<lambda>w. segment_from_window b64 w (srq_mode req) (slc_hex_row_bytes config)) ws"
    "csl_returned_bytes s = min (length (concat (map cw_bytes ws))) u64_max"
    "slice_highlights config (srq_stream_id req) (srq_direction req) matches (csl_segments s)
      = (csl_highlights s, csl_dropped_highlights s)"
proof -
  have wins: "sc_direction_windows sc key (srq_direction req) (srq_logical_start req) hi = Some ws"
    unfolding ws_def by (rule content.windows_held[OF assms(1,2)])
  obtain hs n where hl: "slice_highlights config (srq_stream_id req) (srq_direction req) matches
      (map (\<lambda>w. segment_from_window b64 w (srq_mode req) (slc_hex_row_bytes config)) ws) = (hs, n)"
    by fastforce
  have ret: "foldl (\<lambda>n w. sat_add n (length (cw_bytes w))) 0 ws = min (length (concat (map cw_bytes ws))) u64_max"
    unfolding ws_def by (rule foldl_returned)
  have "\<exists>s. slice_with_context b64 sc config req key matches = Inr s
    \<and> csl_segments s = map (\<lambda>w. segment_from_window b64 w (srq_mode req) (slc_hex_row_bytes config)) ws
    \<and> csl_returned_bytes s = min (length (concat (map cw_bytes ws))) u64_max
    \<and> csl_highlights s = hs \<and> csl_dropped_highlights s = n"
    unfolding slice_with_context_def Let_def hi_def[symmetric] wins
    using assms(3) by (simp add: hl ret)
  then show thesis using that hl by auto
qed

text \<open>
  C27. A content slice returns the requested part of the stored bytes: for a stream direction that holds
  the bytes \<open>bs\<close> from offset \<open>a\<close>, a request for at least one byte succeeds, and the segments
  together decode to exactly the held bytes between the requested start and the end that the request and
  the configured maximum allow, which is also the reported number of bytes.
\<close>

theorem slice_returns_requested_bytes:
  assumes "content_inv sc" "content_held sc key (srq_direction req) = Some (a, bs)" "srq_max_bytes req \<noteq> 0"
    and "\<And>bs. b64_decode (b64 bs) = Some bs"
    and "hi = sat_add (srq_logical_start req) (max (min (srq_max_bytes req) (slc_max_slice_bytes config)) 1)"
    and "lo = max (srq_logical_start req) a"
  shows "\<exists>s. slice_with_context b64 sc config req key matches = Inr s
    \<and> concatenated_bytes b64_decode s = take (hi - lo) (drop (lo - a) bs)
    \<and> csl_returned_bytes s = length (take (hi - lo) (drop (lo - a) bs)) \<and> length (csl_segments s) \<le> 1"
proof -
  let ?ws = "one_window (stable_id key) (srq_direction req) a bs (srq_logical_start req) hi"
  obtain s where s: "slice_with_context b64 sc config req key matches = Inr s"
    "csl_segments s = map (\<lambda>w. segment_from_window b64 w (srq_mode req) (slc_hex_row_bytes config)) ?ws"
    "csl_returned_bytes s = min (length (concat (map cw_bytes ?ws))) u64_max"
    by (rule slice_with_context_cases[OF assms(1-3), where config = config and ?b64.0 = b64 and matches = matches,
        folded assms(5)])
  have "hi \<le> u64_max" by (simp add: assms(5))
  then have "length (take (hi - lo) (drop (lo - a) bs)) \<le> u64_max" by simp
  moreover have "length ?ws \<le> 1" by (simp add: one_window_def Let_def)
  ultimately show ?thesis
    using s(1,3) concatenated_segments[where b64_decode = b64_decode, OF assms(4) s(2)]
    by (simp add: s(2) one_window_bytes assms(6))
qed

text \<open>
  C28. The highlights of a slice lie on the matched bytes: each is inside one of its segments, at the same
  logical offsets, within a match of the requested direction; they are sorted, at most the configured
  number of them is kept, and kept and dropped ones together are all the overlaps of matches and
  segments (when that number fits a 64-bit counter).
\<close>

theorem slice_highlights_exact:
  assumes "content_inv sc" "content_held sc key (srq_direction req) = Some (a, bs)" "srq_max_bytes req \<noteq> 0"
    and "\<forall>m \<in> set matches. pm_logical_start m < pm_logical_end m"
    and "slice_with_context b64 sc config req key matches = Inr s"
    and "total_overlaps = length (all_highlights (srq_stream_id req) (srq_direction req) matches (csl_segments s))"
    and "total_overlaps \<le> u64_max"
  shows "list_all (highlight_in (srq_direction req) matches (csl_segments s)) (csl_highlights s)
    \<and> sorted (map highlight_key (csl_highlights s))
    \<and> length (csl_highlights s) = min total_overlaps (slc_max_highlights config)
    \<and> length (csl_highlights s) + csl_dropped_highlights s = total_overlaps"
proof -
  let ?hi = "sat_add (srq_logical_start req) (max (min (srq_max_bytes req) (slc_max_slice_bytes config)) 1)"
  let ?ws = "one_window (stable_id key) (srq_direction req) a bs (srq_logical_start req) ?hi"
  let ?all = "all_highlights (srq_stream_id req) (srq_direction req) matches (csl_segments s)"
  obtain s' where "slice_with_context b64 sc config req key matches = Inr s'"
    "csl_segments s' = map (\<lambda>w. segment_from_window b64 w (srq_mode req) (slc_hex_row_bytes config)) ?ws"
    "slice_highlights config (srq_stream_id req) (srq_direction req) matches (csl_segments s')
      = (csl_highlights s', csl_dropped_highlights s')"
    by (rule slice_with_context_cases[OF assms(1-3), where config = config and ?b64.0 = b64 and matches = matches])
  then have s: "csl_segments s = map (\<lambda>w. segment_from_window b64 w (srq_mode req) (slc_hex_row_bytes config)) ?ws"
    "slice_highlights config (srq_stream_id req) (srq_direction req) matches (csl_segments s)
      = (csl_highlights s, csl_dropped_highlights s)"
    using assms(5) by simp_all
  have fit: "a + length bs \<le> u64_max" by (rule sc_direction_windows_held(2)[OF assms(1,2)])
  have seg: "ssg_logical_start g < ssg_logical_end g" "ssg_logical_end g \<le> ssg_logical_start g + ssg_bytes_len g"
    if g: "g \<in> set (csl_segments s)" for g
  proof -
    obtain w where w: "w \<in> set ?ws" "g = segment_from_window b64 w (srq_mode req) (slc_hex_row_bytes config)"
      using g by (auto simp: s(1))
    note sound = one_window_sound[OF w(1)]
    have "0 < length (cw_bytes w)" using sound(3) by simp
    then show "ssg_logical_start g < ssg_logical_end g" "ssg_logical_end g \<le> ssg_logical_start g + ssg_bytes_len g"
      using sound(5) fit by (simp_all add: w(2) segment_from_window_def sat_add_def)
  qed
  have inside: "list_all (highlight_in (srq_direction req) matches (csl_segments s)) ?all"
    using all_highlights_in seg(2) by (auto simp: list_all_iff)
  show ?thesis
  proof (cases "slc_max_highlights config = 0")
    case True
    then have "csl_highlights s = []" "csl_dropped_highlights s
        = count_overlapping_matches (srq_direction req) matches (csl_segments s)"
      using s(2) by (simp_all add: slice_highlights_def)
    then show ?thesis
      using highlights_counted[OF assms(4), of "csl_segments s" "srq_direction req" "srq_stream_id req"] seg(1)
        assms(6,7) True by simp
  next
    case False
    then have h: "csl_highlights s = take (slc_max_highlights config) (sort_key highlight_key ?all)"
      "csl_dropped_highlights s = length ?all - slc_max_highlights config"
      using s(2) by (simp_all add: slice_highlights_def Let_def)
    have "sorted (map highlight_key (csl_highlights s))"
      unfolding h(1) take_map[symmetric] by (rule sorted_wrt_take) simp
    moreover have "list_all (highlight_in (srq_direction req) matches (csl_segments s)) (csl_highlights s)"
      using inside by (auto simp: h(1) list_all_iff dest: in_set_takeD)
    ultimately show ?thesis using h(2) by (simp add: h(1) assms(6))
  qed
qed

subsection \<open>Examples\<close>

definition sample_slice_request :: slice_request where
  "sample_slice_request = \<lparr>srq_stream_id = stable_id sample_key, srq_direction = AToB, srq_logical_start = 0,
     srq_max_bytes = 64, srq_mode = SliceText\<rparr>"

definition sample_match :: pattern_match where
  "sample_match = \<lparr>pm_stream_id = stable_id sample_key, pm_stream_id_hex = [], pm_pattern_id = ''p'',
     pm_pattern_name = ''p'', pm_pattern_type = PatternBinary, pm_direction = AToB, pm_logical_start = 0,
     pm_logical_end = 2, pm_match_len = 2, pm_match_text = None\<rparr>"

lemma sample_store_held:
  "content_inv sample_store" "content_held sample_store sample_key (srq_direction sample_slice_request) = Some (1, [8, 9])"
  "srq_max_bytes sample_slice_request \<noteq> 0"
proof -
  have "bounded_histories sample_history"
    by (simp add: bounded_histories_def both_length_def sample_history_def u64_max_def)
  then show "content_inv sample_store" using sample_store_ok content_inv_def by blast
qed (simp_all add: content_held_def sample_store_def dn_bytes_def Let_def sample_slice_request_def)

definition plain_b64 :: "bytes \<Rightarrow> string" where
  "plain_b64 bs = map byte_char bs"

lemma plain_b64_decode: "Some (str_bytes (plain_b64 bs)) = Some bs"
  unfolding plain_b64_def str_bytes_def byte_char_inverse ..

lemma slice_returns_requested_bytes_witness:
  "\<exists>s. slice_with_context plain_b64 sample_store slice_config_default sample_slice_request sample_key [] = Inr s
    \<and> concatenated_bytes (\<lambda>t. Some (str_bytes t)) s = [8, 9]"
  using slice_returns_requested_bytes[OF sample_store_held, where b64_decode = "\<lambda>t. Some (str_bytes t)",
      OF plain_b64_decode refl refl, of slice_config_default "[]"]
  by (auto simp: sample_slice_request_def slice_config_default_def sat_add_def u64_max_def)

lemma slice_highlights_exact_witness:
  "\<exists>s. slice_with_context plain_b64 sample_store slice_config_default sample_slice_request sample_key [sample_match] = Inr s
    \<and> length (csl_highlights s) = 1 \<and> csl_dropped_highlights s = 0"
proof -
  let ?ws = "[\<lparr>cw_stream_id = stable_id sample_key, cw_direction = AToB, cw_logical_start = 1, cw_bytes = [8, 9]\<rparr>]"
  have ws: "one_window (stable_id sample_key) (srq_direction sample_slice_request) 1 [8, 9]
      (srq_logical_start sample_slice_request) (sat_add (srq_logical_start sample_slice_request)
      (max (min (srq_max_bytes sample_slice_request) (slc_max_slice_bytes slice_config_default)) 1)) = ?ws"
    by (simp add: one_window_def sample_slice_request_def slice_config_default_def sat_add_def u64_max_def Let_def)
  obtain s where s: "slice_with_context plain_b64 sample_store slice_config_default sample_slice_request sample_key
      [sample_match] = Inr s"
    "csl_segments s = map (\<lambda>w. segment_from_window plain_b64 w (srq_mode sample_slice_request)
      (slc_hex_row_bytes slice_config_default)) ?ws"
    by (rule slice_with_context_cases[OF sample_store_held, where config = slice_config_default
        and ?b64.0 = plain_b64 and matches = "[sample_match]", unfolded ws])
  have all: "length (all_highlights (srq_stream_id sample_slice_request) (srq_direction sample_slice_request)
      [sample_match] (csl_segments s)) = 1"
    by (simp add: s(2) all_highlights_def sample_match_def sample_slice_request_def segment_from_window_def
        List.map_filter_simps highlight_of_def Let_def sat_add_def u64_max_def)
  have wf: "\<forall>m \<in> set [sample_match]. pm_logical_start m < pm_logical_end m" by (simp add: sample_match_def)
  have "1 \<le> u64_max" by (simp add: u64_max_def)
  from slice_highlights_exact[OF sample_store_held wf s(1) all[symmetric] this] show ?thesis
    using s(1) by (auto simp: slice_config_default_def)
qed

end
