(* ===== verification/Transform_Correctness.thy ===== *)
theory Transform_Correctness
  imports Stream_Transform Http1_Correctness Slice_Correctness
begin

text \<open>
  What the transforms do: URL decoding inverts percent encoding, the chunked transform agrees with the
  parser on well-formed bodies, outputs are bounded, and a plan applies its steps one after the other.
\<close>

subsection \<open>URL decoding\<close>

text \<open>Percent encoding of every byte outside a set that contains neither the percent sign nor the plus sign.\<close>

definition upper_digit :: "nat \<Rightarrow> u8" where
  "upper_digit n = of_nat (if n < 10 then 48 + n else 55 + n)"

definition percent_byte :: "(u8 \<Rightarrow> bool) \<Rightarrow> u8 \<Rightarrow> bytes" where
  "percent_byte plain b = (if plain b then [b] else [37, upper_digit (unat b div 16), upper_digit (unat b mod 16)])"

definition percent_encode :: "(u8 \<Rightarrow> bool) \<Rightarrow> bytes \<Rightarrow> bytes" where
  "percent_encode plain bs = concat (map (percent_byte plain) bs)"

lemma hex_value_upper: "n < 16 \<Longrightarrow> hex_value (upper_digit n) = Some (of_nat n)"
proof -
  assume "n < 16"
  then have "n \<in> set [0..<16]" by simp
  moreover have "\<forall>n \<in> set [0..<16]. hex_value (upper_digit n) = Some (of_nat n)"
    by (simp add: upt_rec hex_value_def upper_digit_def)
  ultimately show ?thesis by blast
qed

lemma nibbles_join: "or (push_bit 4 (of_nat (n div 16)) :: u8) (of_nat (n mod 16)) = of_nat n"
proof -
  let ?q = "of_nat (n div 16) :: u8" and ?r = "of_nat (n mod 16) :: u8"
  have r: "take_bit 4 ?r = ?r" by (simp add: take_bit_of_nat take_bit_nat_eq_self)
  have "and (push_bit 4 ?q) (take_bit 4 ?r) = 0" by (rule bit_eqI) (auto simp: bit_simps)
  then have "or (push_bit 4 ?q) ?r = push_bit 4 ?q + ?r" using disjunctive_add_eq_or r by metis
  also have "\<dots> = of_nat (n div 16 * 16 + n mod 16)"
    unfolding push_bit_eq_mult of_nat_add of_nat_mult by simp
  finally show ?thesis by (simp only: div_mult_mod_eq)
qed

lemma hex_escape_byte: "hex_escape (upper_digit (unat b div 16)) (upper_digit (unat b mod 16)) = Some b"
  using nibbles_join[of "unat b"] byte_digits_small[of b]
  by (simp add: hex_escape_def hex_value_upper)

lemma url_decode_plain:
  assumes "b \<noteq> 37" "b \<noteq> 43"
  shows "url_decode_loop (b # rest) out changed invalid = url_decode_loop rest (out @ [b]) changed invalid"
  using assms by (cases rest; cases "tl rest") simp_all

lemma url_decode_encoded:
  assumes "\<And>b. plain b \<Longrightarrow> b \<noteq> 37 \<and> b \<noteq> 43"
  shows "url_decode_loop (percent_encode plain bs) out changed invalid
    = (out @ bs, changed \<or> \<not> list_all plain bs, invalid)"
proof (induction bs arbitrary: out changed)
  case (Cons b bs)
  show ?case
  proof (cases "plain b")
    case True
    then show ?thesis
      using Cons.IH[of "out @ [b]" changed] url_decode_plain[of b] assms[OF True]
      by (simp add: percent_encode_def percent_byte_def)
  next
    case False
    then show ?thesis
      using Cons.IH[of "out @ [b]" True] by (simp add: percent_encode_def percent_byte_def hex_escape_byte)
  qed
qed (simp add: percent_encode_def)

text \<open>
  C31. URL decoding inverts percent encoding: whatever bytes the encoder leaves as they are (never the
  percent or the plus sign), the transform of the encoded text gives back the original bytes, and it is
  a no-op exactly when there was nothing to encode.
\<close>

theorem url_decode_roundtrip:
  assumes "\<And>b. plain b \<Longrightarrow> b \<noteq> 37 \<and> b \<noteq> 43"
  shows "url_decode_transform (percent_encode plain bs)
    = (if list_all plain bs then outcome_noop ''no URL-encoded bytes were found''
       else outcome_applied AppliedUrlDecode bs False [])"
  using url_decode_encoded[where bs = bs and out = "[]" and changed = False and invalid = 0, OF assms] by (simp add: url_decode_transform_def)

lemma url_decode_roundtrip_witness:
  "url_decode_transform (percent_encode (\<lambda>b. b = 65) [65, 37, 43, 0])
    = outcome_applied AppliedUrlDecode [65, 37, 43, 0] False []"
  using url_decode_roundtrip[of "\<lambda>b. b = 65" "[65, 37, 43, 0]"] by simp

subsection \<open>Bounds\<close>

lemma url_decode_loop_length: "length (fst (url_decode_loop input out changed invalid)) \<le> length out + length input"
  by (induction input out changed invalid rule: url_decode_loop.induct) (auto split: option.split)

lemma read_limited_loop_bound:
  "length bs \<le> mx \<Longrightarrow> read_limited_loop read mx r bs = Inr l \<Longrightarrow> length (lrd_bytes l) \<le> mx"
proof (induction read mx r bs rule: read_limited_loop.induct)
  case (1 read mx r bs)
  obtain res r1 where rd: "read 8192 r = (res, r1)" by fastforce
  show ?case
  proof (cases res)
    case (Inl err)
    then show ?thesis using "1.prems" rd by (auto simp: read_limited_loop.simps[of read mx r bs] split: if_splits)
  next
    case (Inr got)
    show ?thesis
    proof (cases "got = [] \<or> length got > mx - length bs \<or> length (bs @ got) = mx")
      case True
      then show ?thesis using "1.prems" rd Inr
        by (auto simp: read_limited_loop.simps[of read mx r bs] split: if_splits prod.splits sum.splits)
    next
      case False
      then show ?thesis using "1.IH"[OF rd[symmetric] Inr] "1.prems" rd Inr
        by (auto simp: read_limited_loop.simps[of read mx r bs])
    qed
  qed
qed

lemma read_limited_bound: "read_limited dec input mx = Inr l \<Longrightarrow> length (lrd_bytes l) \<le> mx"
  using read_limited_loop_bound[of "[]" mx] by (simp add: read_limited_def)

lemma append_limited_bound: "length out \<le> mx \<Longrightarrow> length (append_limited out bs mx) \<le> mx"
  by (simp add: append_limited_def)

lemma gzip_transform_bound: "length (tou_bytes (gzip_transform gz input mx)) \<le> mx"
  by (auto simp: gzip_transform_def outcome_noop_def outcome_failed_def outcome_applied_def
      split: sum.split dest: read_limited_bound)

lemma decode_chunked_loop_bound:
  "length bs \<le> mx \<Longrightarrow> decode_chunked_loop input mx offset bs chunks truncated = Inr d \<Longrightarrow> length (cdd_bytes d) \<le> mx"
proof (induction input mx offset bs chunks truncated rule: decode_chunked_loop.induct)
  case (1 input mx offset bs chunks truncated)
  show ?case
  proof (cases "transform_line_end input offset")
    case None
    then show ?thesis using "1.prems" by (auto simp: decode_chunked_loop.simps[of input mx offset])
  next
    case (Some p)
    obtain e n0 where p: "p = (e, n0)" by (cases p)
    let ?line = "chunk_line_trim (take (e - offset) (drop offset input))"
    show ?thesis
    proof (cases "?line = [] \<or> (\<exists>r. parse_chunk_size ?line = Inl r) \<or> parse_chunk_size ?line = Inr 0")
      case True
      then show ?thesis using "1.prems" Some p
        by (auto simp: decode_chunked_loop.simps[of input mx offset] Let_def split: if_splits)
    next
      case False
      then obtain n where n: "?line \<noteq> []" "parse_chunk_size ?line = Inr n" "n \<noteq> 0"
        by (cases "parse_chunk_size ?line") auto
      define taken where "taken = min n (length input - n0)"
      define cut where "cut = append_limited bs (take taken (drop n0 input)) mx"
      have len: "length cut \<le> mx" unfolding cut_def by (rule append_limited_bound[OF "1.prems"(1)])
      note IH = "1.IH"[OF Some p[symmetric] refl n refl refl refl refl, folded taken_def, folded cut_def]
      have "cdd_bytes d = cut
          \<or> decode_chunked_loop input mx (n0 + taken + 2) cut (chunks + 1)
              (truncated \<or> length cut - length bs < taken) = Inr d \<and> \<not> taken < n
            \<and> get_range input (n0 + taken) (n0 + taken + 2) = Some crlf \<and> \<not> mx \<le> length cut
          \<or> decode_chunked_loop input mx (n0 + taken + 1) cut (chunks + 1)
              (truncated \<or> length cut - length bs < taken) = Inr d \<and> \<not> taken < n
            \<and> get_range input (n0 + taken) (n0 + taken + 2) \<noteq> Some crlf
            \<and> get_at input (n0 + taken) = Some 10 \<and> \<not> mx \<le> length cut"
        using "1.prems"(2) n Some
        by (subst (asm) decode_chunked_loop.simps)
          (auto simp: p Let_def taken_def[symmetric] cut_def[symmetric] split: if_splits, simp add: cut_def)
      then show ?thesis using IH len by blast
    qed
  qed
qed

lemma http_chunked_bound: "length (tou_bytes (http_chunked_transform input mx)) \<le> length input + mx"
proof -
  have "length (cdd_bytes d) \<le> mx" if "decode_chunked_body bs mx = Inr d" for bs d
    using decode_chunked_loop_bound[of "[]" mx] that by (simp add: decode_chunked_body_def)
  then show ?thesis
    by (fastforce simp: http_chunked_transform_def outcome_noop_def outcome_failed_def outcome_applied_def
        split: sum.split intro: add_mono)
qed

lemma http_gzip_bound: "length (tou_bytes (http_gzip_transform gz input mx)) \<le> length input + mx"
  using gzip_transform_bound[of gz _ mx]
  by (auto simp: http_gzip_transform_def outcome_noop_def outcome_failed_def outcome_applied_def Let_def
      split: sum.split intro: add_mono)

lemma ws_deflate_loop_bound:
  "length (wds_output st) \<le> mx \<Longrightarrow> length (tou_bytes (ws_deflate_loop deflate input mx offset st)) \<le> mx"
proof (induction deflate input mx offset st rule: ws_deflate_loop.induct)
  case (1 deflate input mx offset st)
  have finish: "length (wds_output st1) \<le> mx" if "ws_finish deflate mx m st = Inr st1" for m st1
    using that append_limited_bound "1.prems"
    by (auto simp: ws_finish_def Let_def split: if_splits sum.splits)
  show ?case
  proof (cases "ws_next_frame input offset")
    case (Inl err)
    then show ?thesis by (simp add: ws_deflate_loop.simps[of deflate input mx offset st] outcome_failed_def)
  next
    case (Inr r)
    note next_r = Inr
    show ?thesis
    proof (cases r)
      case None
      then show ?thesis using next_r "1.prems"
        by (simp add: ws_deflate_loop.simps[of deflate input mx offset st] outcome_failed_def outcome_noop_def
            ws_applied_def outcome_applied_def)
    next
      case (Some p)
      obtain frame off where p: "p = (frame, off)" by (cases p)
      show ?thesis
      proof (cases "\<not> wrf_opcode frame \<le> 2")
        case True
        then show ?thesis using "1.IH"(1)[OF next_r Some p[symmetric]] next_r Some p "1.prems"
          by (simp add: ws_deflate_loop.simps[of deflate input mx offset st])
      next
        case False
        show ?thesis
        proof (cases "ws_collect frame (wds_current st)")
          case (Inl err)
          then show ?thesis using next_r Some p False
            by (simp add: ws_deflate_loop.simps[of deflate input mx offset st] outcome_failed_def)
        next
          case (Inr m)
          show ?thesis
          proof (cases "wrf_fin frame")
            case True
            then show ?thesis
              using "1.IH"(3)[OF next_r Some p[symmetric] _ Inr] finish next_r Some p False Inr
              by (auto simp: ws_deflate_loop.simps[of deflate input mx offset st] outcome_failed_def
                  ws_applied_def outcome_applied_def split: sum.split)
          next
            case unfinished: False
            then show ?thesis
              using "1.IH"(2)[OF next_r Some p[symmetric] _ Inr] next_r Some p False Inr "1.prems"
              by (simp add: ws_deflate_loop.simps[of deflate input mx offset st])
          qed
        qed
      qed
    qed
  qed
qed

lemma transform_step_bound: "length (tou_bytes (transform_step gz deflate input mode mx)) \<le> length input + mx"
proof -
  have url: "length (tou_bytes (url_decode_transform input)) \<le> length input + mx"
    using url_decode_loop_length[of input "[]" False 0]
    by (auto simp: url_decode_transform_def outcome_noop_def outcome_applied_def split: prod.split)
  have gzip: "length (tou_bytes (map_applied a (gzip_transform gz input mx))) \<le> length input + mx" for a
    using gzip_transform_bound[of gz input mx] by (simp add: map_applied_def)
  have ws: "length (tou_bytes (websocket_deflate_transform deflate input mx)) \<le> length input + mx"
    using ws_deflate_loop_bound[of "\<lparr>wds_output = [], wds_current = None, wds_decoded = 0, wds_copied = 0,
        wds_control = 0\<rparr>" mx deflate input 0]
    by (simp add: websocket_deflate_transform_def)
  note bounds = url gzip ws http_chunked_bound[of input mx] http_gzip_bound[of gz input mx]
  have "length (tou_bytes (auto_transform gz deflate input mx)) \<le> length input + mx"
    unfolding auto_transform_def Let_def using bounds by (simp add: outcome_noop_def)
  then show ?thesis using bounds by (cases mode) (simp_all add: transform_step_def)
qed

lemma plan_step_bound:
  "length (pns_current (plan_step gz deflate mx chain mode ps)) \<le> length (pns_current ps) + mx"
  using transform_step_bound[of gz deflate "pns_current ps" mode mx]
  by (auto simp: plan_step_def plan_outcome_def outcome_noop_def Let_def split: transform_status.split)

lemma plan_loop_bound:
  "length (pns_current (plan_loop gz deflate mx chain modes ps)) \<le> length (pns_current ps) + length modes * mx"
proof (induction modes arbitrary: ps)
  case (Cons mode modes)
  show ?case
    using Cons.IH[of "plan_step gz deflate mx chain mode ps"] plan_step_bound[of gz deflate mx chain mode ps]
    by (auto simp: Let_def)
qed simp

text \<open>
  A transform plan cannot blow up its input: whatever the decoders deliver, the output of a plan is at
  most the configured maximum (at least one byte) longer than the input for each of its steps.
\<close>

theorem transform_output_bounded:
  "tro_output_bytes (apply_transform_plan b64 b64_decode gz deflate s plan view_mode config)
    \<le> tro_input_bytes (apply_transform_plan b64 b64_decode gz deflate s plan view_mode config)
      + length plan * max (tfc_max_output_bytes config) 1"
  using plan_loop_bound[of gz deflate "max (tfc_max_output_bytes config) 1" "length plan > 1" plan
      "plan_start (concatenated_bytes b64_decode s)"]
  by (auto simp: apply_transform_plan_def output_from_outcome_def plan_result_def plan_start_def
      outcome_noop_def Let_def)

subsection \<open>Chunked bodies\<close>

lemma position_first: "\<forall>x \<in> set xs. \<not> P x \<Longrightarrow> P y \<Longrightarrow> position P (xs @ y # ys) = Some (length xs)"
  by (induction xs) auto

lemma hex_line_plain: "b \<in> set (str_bytes (hex_nat n)) \<Longrightarrow> b \<noteq> 10 \<and> b \<noteq> 13 \<and> b \<noteq> 59 \<and> \<not> byte_is_ascii_ws b \<and> b < 0x80"
  using hex_nat_bytes[of n] hex_byte_plain[of b] by (auto simp: list_all_iff byte_is_ascii_ws_def)

lemma transform_line_end_hex:
  "transform_line_end (pre @ str_bytes (hex_nat n) @ crlf @ rest) (length pre)
    = Some (length pre + length (hex_nat n), length pre + length (hex_nat n) + 2)"
proof -
  let ?h = "str_bytes (hex_nat n)"
  have len: "length ?h = length (hex_nat n)" by (simp add: str_bytes_def)
  have "position (\<lambda>b. b = 10) (?h @ 13 # 10 # rest) = Some (length (?h @ [13]))"
    using position_first[of "?h @ [13]" "\<lambda>b. b = 10" 10 rest] hex_line_plain[of _ n] by auto
  moreover have "(pre @ ?h @ 13 # 10 # rest) ! (length pre + length ?h) = 13"
    by (simp add: nth_append)
  ultimately show ?thesis by (simp add: transform_line_end_def crlf_def Let_def len)
qed

lemma trim_hex_line: "chunk_line_trim (str_bytes (hex_nat n)) = str_bytes (hex_nat n)"
proof -
  have keep: "dropWhile byte_is_ascii_ws xs = xs" if "\<forall>b \<in> set xs. \<not> byte_is_ascii_ws b" for xs
    using that by (cases xs) auto
  show ?thesis using hex_line_plain[of _ n] by (simp add: chunk_line_trim_def keep)
qed

lemma parse_chunk_size_hex: "n \<le> u64_max \<Longrightarrow> parse_chunk_size (str_bytes (hex_nat n)) = Inr n"
proof -
  assume n: "n \<le> u64_max"
  have "split_on 59 (str_bytes (hex_nat n)) = [str_bytes (hex_nat n)]"
    using hex_line_plain[of _ n] by (intro split_on_absent) auto
  moreover have "utf8_valid (str_bytes (hex_nat n))"
    using utf8_ascii[of "str_bytes (hex_nat n)"] hex_line_plain[of _ n] by (simp add: list_all_iff)
  ultimately show ?thesis
    using n by (simp add: parse_chunk_size_def trim_hex_line str_from_utf8_def parse_hex_nat ok_or_def)
qed

lemma decode_chunked_loop_chunk:
  assumes "c \<noteq> []" "length c \<le> u64_max" "length bs + length c < mx"
  shows "decode_chunked_loop (pre @ Http1_Correctness.chunk_bytes c @ rest) mx (length pre) bs seen lost
    = decode_chunked_loop (pre @ Http1_Correctness.chunk_bytes c @ rest) mx
        (length (pre @ Http1_Correctness.chunk_bytes c)) (bs @ c) (seen + 1) lost"
proof -
  let ?hex = "str_bytes (hex_nat (length c))" and ?h = "length (hex_nat (length c))"
  let ?body = "pre @ ?hex @ crlf @ c @ crlf @ rest"
  have body: "pre @ Http1_Correctness.chunk_bytes c @ rest = ?body" by (simp add: Http1_Correctness.chunk_bytes_def)
  have hl: "length ?hex = ?h" "length crlf = 2" by (simp_all add: str_bytes_def crlf_def)
  have line: "transform_line_end ?body (length pre) = Some (length pre + ?h, length pre + ?h + 2)"
    by (rule transform_line_end_hex)
  have digits: "take (length pre + ?h - length pre) (drop (length pre) ?body) = ?hex" by (simp add: hl(1))
  have ne: "?hex \<noteq> []" using hex_nat_bytes[of "length c"] by (simp add: str_bytes_def)
  let ?n0 = "length pre + ?h + 2"
  have rest: "drop ?n0 ?body = c @ crlf @ rest" by (simp add: hl)
  have taken: "min (length c) (length ?body - ?n0) = length c" by (simp add: hl)
  have data: "append_limited bs (take (length c) (drop ?n0 ?body)) mx = bs @ c"
    using assms(3) unfolding rest by (simp add: append_limited_def)
  have stop: "get_range ?body (?n0 + length c) (?n0 + length c + 2) = Some crlf"
    using get_range_middle[of "pre @ ?hex @ crlf @ c" "?n0 + length c" crlf 2 rest] by (simp add: hl)
  have pos: "length (pre @ Http1_Correctness.chunk_bytes c) = ?n0 + length c + 2"
    by (simp add: Http1_Correctness.chunk_bytes_def hl)
  have flags: "\<not> length (bs @ c) - length bs < length c" "\<not> mx \<le> length (bs @ c)" "length c \<noteq> 0"
    using assms(1,3) by simp_all
  show ?thesis
    unfolding body pos
    by (subst decode_chunked_loop.simps)
      (simp only: line option.case prod.case Let_def digits trim_hex_line ne if_False if_True
        parse_chunk_size_hex[OF assms(2)] sum.case flags taken data stop simp_thms less_irrefl)
qed

lemma decode_chunked_loop_last:
  "decode_chunked_loop (pre @ str_bytes ''0'' @ crlf @ rest) mx (length pre) bs seen lost
    = Inr \<lparr>cdd_bytes = bs, cdd_chunks = seen, cdd_truncated = lost, cdd_partial = False, cdd_reached_last = True,
        cdd_trailing = length rest\<rparr>"
proof -
  have zero: "hex_nat 0 = ''0''" by (simp add: hex_nat.simps[of 0] hex_digit_def)
  let ?body = "pre @ str_bytes ''0'' @ crlf @ rest"
  have line: "transform_line_end ?body (length pre) = Some (length pre + 1, length pre + 3)"
    using transform_line_end_hex[of pre 0 rest] by (simp add: zero)
  have digits: "take (length pre + 1 - length pre) (drop (length pre) ?body) = str_bytes (hex_nat 0)"
    by (simp add: zero str_bytes_def)
  have ne: "str_bytes (hex_nat 0) \<noteq> []" by (simp add: zero str_bytes_def)
  have trailing: "length ?body - (length pre + 3) = length rest" by (simp add: str_bytes_def crlf_def)
  have size: "parse_chunk_size (str_bytes (hex_nat 0)) = Inr 0" by (rule parse_chunk_size_hex) simp
  show ?thesis
    by (subst decode_chunked_loop.simps)
      (simp only: line option.case prod.case Let_def digits trim_hex_line ne if_False if_True size sum.case trailing
        simp_thms)
qed

lemma decode_chunked_loop_encoded:
  assumes "\<forall>c \<in> set chunks. c \<noteq> [] \<and> length c \<le> u64_max" "length bs + sum_list (map length chunks) < mx"
  shows "decode_chunked_loop (pre @ chunked_body_bytes chunks @ rest) mx (length pre) bs seen lost
    = Inr \<lparr>cdd_bytes = bs @ concat chunks, cdd_chunks = seen + length chunks, cdd_truncated = lost,
        cdd_partial = False, cdd_reached_last = True, cdd_trailing = 2 + length rest\<rparr>"
  using assms
proof (induction chunks arbitrary: pre bs seen)
  case Nil
  then show ?case
    using decode_chunked_loop_last[of pre "crlf @ rest" mx bs seen lost]
    by (simp add: chunked_body_bytes_def crlf_def)
next
  case (Cons c chunks)
  have body: "pre @ chunked_body_bytes (c # chunks) @ rest
      = pre @ Http1_Correctness.chunk_bytes c @ (chunked_body_bytes chunks @ rest)"
    by (simp add: chunked_body_bytes_def)
  have one: "decode_chunked_loop (pre @ Http1_Correctness.chunk_bytes c @ (chunked_body_bytes chunks @ rest)) mx
      (length pre) bs seen lost
    = decode_chunked_loop (pre @ Http1_Correctness.chunk_bytes c @ (chunked_body_bytes chunks @ rest)) mx
        (length (pre @ Http1_Correctness.chunk_bytes c)) (bs @ c) (seen + 1) lost"
    using Cons.prems by (intro decode_chunked_loop_chunk) auto
  also have "\<dots> = Inr \<lparr>cdd_bytes = (bs @ c) @ concat chunks, cdd_chunks = (seen + 1) + length chunks,
      cdd_truncated = lost, cdd_partial = False, cdd_reached_last = True, cdd_trailing = 2 + length rest\<rparr>"
    using Cons.IH[of "bs @ c" "pre @ Http1_Correctness.chunk_bytes c" "seen + 1"] Cons.prems by simp
  finally show ?case unfolding body by simp
qed

text \<open>
  C30. The two readers of chunked bodies in the program agree: on a body written as RFC 9112 writes it,
  whatever follows it, the stream parser finds its end and counts its chunks and bytes, and the content
  transform, with room for them, returns exactly the data of the chunks, as many of them, untruncated.
\<close>

theorem chunked_transform_agrees_with_parser:
  assumes "list_all (\<lambda>c. c \<noteq> []) chunks" "sum_list (map length chunks) \<le> u64_max" "length chunks \<le> u64_max"
    and "sum_list (map length chunks) < mx"
  shows "\<exists>w d. find_chunked_body_end (chunked_body_bytes chunks @ rest) = ChunkedComplete w
    \<and> decode_chunked_body (chunked_body_bytes chunks @ rest) mx = Inr d
    \<and> cdd_bytes d = concat chunks \<and> cb_decoded_bytes w = length (cdd_bytes d) \<and> cb_chunks w = cdd_chunks d
    \<and> \<not> cdd_truncated d \<and> \<not> cdd_partial d \<and> cdd_reached_last d
    \<and> cb_wire_bytes w + cdd_trailing d = length (chunked_body_bytes chunks @ rest) + 2"
proof -
  have each: "length c \<le> u64_max" if "c \<in> set chunks" for c
    using member_le_sum_list[of "length c" "map length chunks"] that assms(2) by fastforce
  have "decode_chunked_loop ([] @ chunked_body_bytes chunks @ rest) mx (length ([] :: bytes)) [] 0 False
      = Inr \<lparr>cdd_bytes = [] @ concat chunks, cdd_chunks = 0 + length chunks, cdd_truncated = False,
          cdd_partial = False, cdd_reached_last = True, cdd_trailing = 2 + length rest\<rparr>"
    using assms(1,4) each by (intro decode_chunked_loop_encoded) (auto simp: list_all_iff)
  moreover have "chunked_loop ([] @ chunked_body_bytes chunks @ rest) (length ([] :: bytes)) 0 0
      = ChunkedComplete \<lparr>cb_wire_bytes = length ([] :: bytes) + length (chunked_body_bytes chunks),
          cb_decoded_bytes = 0 + sum_list (map length chunks), cb_chunks = 0 + length chunks, cb_trailer_bytes = 2\<rparr>"
    using assms(1,2,3) by (intro chunked_loop_encoded) (auto simp: list_all_iff)
  ultimately show ?thesis
    by (simp add: decode_chunked_body_def find_chunked_body_end_def length_concat)
qed

lemma chunked_transform_agrees_with_parser_witness:
  "\<exists>w d. find_chunked_body_end (chunked_body_bytes [[104, 105], [33]] @ [71]) = ChunkedComplete w
    \<and> decode_chunked_body (chunked_body_bytes [[104, 105], [33]] @ [71]) 4 = Inr d
    \<and> cdd_bytes d = [104, 105, 33] \<and> cb_decoded_bytes w = 3 \<and> cdd_chunks d = 2 \<and> cb_chunks w = 2"
proof -
  have "sum_list (map length [[104, 105], [33 :: u8]]) \<le> u64_max" "length [[104, 105], [33 :: u8]] \<le> u64_max"
    by (simp_all add: u64_max_def)
  from chunked_transform_agrees_with_parser[OF _ this, of 4 "[71]"]
  obtain w d where "find_chunked_body_end (chunked_body_bytes [[104, 105], [33]] @ [71]) = ChunkedComplete w"
    "decode_chunked_body (chunked_body_bytes [[104, 105], [33]] @ [71]) 4 = Inr d"
    "cdd_bytes d = [104, 105, 33]" "cb_decoded_bytes w = 3" "cb_chunks w = cdd_chunks d"
    "cdd_reached_last d" by auto
  moreover from calculation have "cdd_chunks d = 2"
    using decode_chunked_loop_encoded[of "[[104, 105], [33]]" "[]" 4 "[]" "[71]" 0 False]
    by (simp add: decode_chunked_body_def u64_max_def)
  ultimately show ?thesis by auto
qed

text \<open>
  C35. A cut of chunk data can go unreported: when the slice ends with the line break after a chunk that is
  longer than the limit, the decoder keeps only the limit's bytes of it, but the flag that says so is
  overwritten with "more input follows" and reports no truncation.
\<close>

theorem chunk_truncation_unreported:
  assumes "mx < length c" "length c \<le> u64_max"
  shows "\<exists>d. decode_chunked_body (Http1_Correctness.chunk_bytes c) mx = Inr d \<and> cdd_bytes d = take mx c
    \<and> \<not> cdd_truncated d \<and> \<not> cdd_partial d"
proof -
  let ?hex = "str_bytes (hex_nat (length c))" and ?h = "length (hex_nat (length c))"
  let ?body = "?hex @ crlf @ c @ crlf"
  have hl: "length ?hex = ?h" "length crlf = 2" by (simp_all add: str_bytes_def crlf_def)
  have line: "transform_line_end ?body 0 = Some (?h, ?h + 2)"
    using transform_line_end_hex[of "[]" "length c" "c @ crlf"] by simp
  have digits: "take (?h - 0) (drop 0 ?body) = ?hex" by (simp add: hl(1))
  have ne: "?hex \<noteq> []" using hex_nat_bytes[of "length c"] by (simp add: str_bytes_def)
  have rest: "drop (?h + 2) ?body = c @ crlf" by (simp add: hl)
  have taken: "min (length c) (length ?body - (?h + 2)) = length c" by (simp add: hl)
  have data: "append_limited [] (take (length c) (drop (?h + 2) ?body)) mx = take mx c"
    unfolding rest by (simp add: append_limited_def)
  have stop: "get_range ?body (?h + 2 + length c) (?h + 2 + length c + 2) = Some crlf"
    using get_range_middle[of "?hex @ crlf @ c" "?h + 2 + length c" crlf 2 "[]"] by (simp add: hl)
  have flags: "mx \<le> length (take mx c)" "length c \<noteq> 0" "\<not> ?h + 2 + length c + 2 < length ?body"
    using assms(1) by (auto simp: hl)
  have "decode_chunked_loop ?body mx 0 [] 0 False = Inr \<lparr>cdd_bytes = take mx c, cdd_chunks = 0 + 1,
      cdd_truncated = False, cdd_partial = False, cdd_reached_last = False, cdd_trailing = 0\<rparr>"
    by (subst decode_chunked_loop.simps)
      (simp only: line option.case prod.case Let_def digits trim_hex_line ne if_False if_True
        parse_chunk_size_hex[OF assms(2)] sum.case flags taken data stop simp_thms less_irrefl)
  then show ?thesis by (simp add: decode_chunked_body_def Http1_Correctness.chunk_bytes_def)
qed

lemma chunk_truncation_unreported_witness:
  "\<exists>d. decode_chunked_body (Http1_Correctness.chunk_bytes [104, 105]) 1 = Inr d \<and> cdd_bytes d = [104] \<and> \<not> cdd_truncated d"
  using chunk_truncation_unreported[of 1 "[104, 105]"] by (auto simp: u64_max_def)

end
