(* ===== verification/Stream_Parser.thy ===== *)
theory Stream_Parser
  imports Message_Analyzer Flow_Table "HOL-Library.Sublist"
begin

text \<open>
  \<^verbatim>\<open>src/src/stream_parser.rs\<close>: the parser layer, which feeds the message analyzer, caps the events of a
  chunk and keeps the parser counters.  \<open>to_value\<close> and \<open>from_value\<close> stand for the \<^verbatim>\<open>serde\<close> conversions
  of a message.
\<close>

subsection \<open>Configuration and counters\<close>

record stream_parser_config =
  plc_enabled :: bool
  plc_max_http1_states :: nat
  plc_max_dns_states :: nat
  plc_max_websocket_states :: nat
  plc_max_tls_states :: nat
  plc_max_http1_header_bytes :: nat
  plc_max_http1_buffer_bytes :: nat
  plc_max_messages_per_chunk :: nat

definition stream_parser_config_default :: stream_parser_config where
  "stream_parser_config_default = \<lparr>plc_enabled = True, plc_max_http1_states = 131072, plc_max_dns_states = 131072,
     plc_max_websocket_states = 131072, plc_max_tls_states = 131072, plc_max_http1_header_bytes = 64 * 1024,
     plc_max_http1_buffer_bytes = 8 * 1024 * 1024, plc_max_messages_per_chunk = 512\<rparr>"

definition stream_parser_disabled :: stream_parser_config where
  "stream_parser_disabled = \<lparr>plc_enabled = False, plc_max_http1_states = 0, plc_max_dns_states = 0,
     plc_max_websocket_states = 0, plc_max_tls_states = 0, plc_max_http1_header_bytes = 0,
     plc_max_http1_buffer_bytes = 0, plc_max_messages_per_chunk = 0\<rparr>"

definition stream_parser_normalized :: "stream_parser_config \<Rightarrow> stream_parser_config" where
  "stream_parser_normalized c = (if \<not> plc_enabled c then stream_parser_disabled else
     \<lparr>plc_enabled = True, plc_max_http1_states = max (plc_max_http1_states c) 1,
      plc_max_dns_states = max (plc_max_dns_states c) 1,
      plc_max_websocket_states = max (plc_max_websocket_states c) 1,
      plc_max_tls_states = max (plc_max_tls_states c) 1,
      plc_max_http1_header_bytes = max (plc_max_http1_header_bytes c) 1,
      plc_max_http1_buffer_bytes = max (plc_max_http1_buffer_bytes c) 1,
      plc_max_messages_per_chunk = max (plc_max_messages_per_chunk c) 1\<rparr>)"

record stream_parser_stats =
  pls_parser_enabled :: bool
  pls_stream_chunks :: nat
  pls_stream_bytes :: nat
  pls_emitted_messages :: nat
  pls_dropped_messages :: nat
  pls_active_states :: nat
  pls_evicted_states :: nat
  pls_http1_active_states :: nat
  pls_http1_messages :: nat
  pls_http1_parse_errors :: nat
  pls_http1_dropped_chunks :: nat
  pls_dns_active_states :: nat
  pls_dns_messages :: nat
  pls_dns_parse_errors :: nat
  pls_dns_dropped_datagrams :: nat
  pls_websocket_active_states :: nat
  pls_websocket_messages :: nat
  pls_websocket_parse_errors :: nat
  pls_websocket_dropped_chunks :: nat
  pls_tls_active_states :: nat
  pls_tls_messages :: nat
  pls_tls_parse_errors :: nat
  pls_tls_dropped_chunks :: nat

definition stream_parser_stats_default :: stream_parser_stats where
  "stream_parser_stats_default = \<lparr>pls_parser_enabled = False, pls_stream_chunks = 0, pls_stream_bytes = 0,
     pls_emitted_messages = 0, pls_dropped_messages = 0, pls_active_states = 0, pls_evicted_states = 0,
     pls_http1_active_states = 0, pls_http1_messages = 0, pls_http1_parse_errors = 0, pls_http1_dropped_chunks = 0,
     pls_dns_active_states = 0, pls_dns_messages = 0, pls_dns_parse_errors = 0, pls_dns_dropped_datagrams = 0,
     pls_websocket_active_states = 0, pls_websocket_messages = 0, pls_websocket_parse_errors = 0,
     pls_websocket_dropped_chunks = 0, pls_tls_active_states = 0, pls_tls_messages = 0,
     pls_tls_parse_errors = 0, pls_tls_dropped_chunks = 0\<rparr>"

record parser_layer =
  pl_config :: stream_parser_config
  pl_registry :: message_analyzer
  pl_stats :: stream_parser_stats

definition parser_layer_new :: "stream_parser_config \<Rightarrow> parser_layer" where
  "parser_layer_new config =
     (let c = stream_parser_normalized config in
      \<lparr>pl_config = c,
       pl_registry = analyzer_with_limits (plc_max_http1_states c) (plc_max_dns_states c)
         (plc_max_websocket_states c) (plc_max_tls_states c) (plc_max_http1_header_bytes c) (plc_max_http1_buffer_bytes c),
       pl_stats = stream_parser_stats_default\<lparr>pls_parser_enabled := plc_enabled c\<rparr>\<rparr>)"

subsection \<open>Counting and capping the events of a chunk\<close>

fun count_protocol :: "message_protocol \<Rightarrow> stream_parser_stats \<Rightarrow> stream_parser_stats" where
  "count_protocol Http1 s = s\<lparr>pls_http1_messages := sat_add (pls_http1_messages s) 1\<rparr>"
| "count_protocol Dns s = s\<lparr>pls_dns_messages := sat_add (pls_dns_messages s) 1\<rparr>"
| "count_protocol WebSocket s = s\<lparr>pls_websocket_messages := sat_add (pls_websocket_messages s) 1\<rparr>"
| "count_protocol Tls s = s\<lparr>pls_tls_messages := sat_add (pls_tls_messages s) 1\<rparr>"

fun count_parse_error :: "message_protocol \<Rightarrow> stream_parser_stats \<Rightarrow> stream_parser_stats" where
  "count_parse_error Http1 s = s\<lparr>pls_http1_parse_errors := sat_add (pls_http1_parse_errors s) 1\<rparr>"
| "count_parse_error Dns s = s\<lparr>pls_dns_parse_errors := sat_add (pls_dns_parse_errors s) 1\<rparr>"
| "count_parse_error WebSocket s = s\<lparr>pls_websocket_parse_errors := sat_add (pls_websocket_parse_errors s) 1\<rparr>"
| "count_parse_error Tls s = s\<lparr>pls_tls_parse_errors := sat_add (pls_tls_parse_errors s) 1\<rparr>"

definition tally_message :: "stream_message \<Rightarrow> stream_parser_stats \<Rightarrow> stream_parser_stats" where
  "tally_message m s =
     (let s1 = count_protocol (msg_protocol m) (s\<lparr>pls_emitted_messages := sat_add (pls_emitted_messages s) 1\<rparr>)
      in if msg_status m = ParseError then count_parse_error (msg_protocol m) s1 else s1)"

definition count_event :: "(json \<Rightarrow> stream_message option) \<Rightarrow> event \<Rightarrow> stream_parser_stats \<Rightarrow> stream_parser_stats" where
  "count_event from_value ev s = (case message_from_event from_value ev of None \<Rightarrow> s | Some m \<Rightarrow> tally_message m s)"

text \<open>\<open>appended\<close> are the events that the analysis appended; the first of them up to the cap are kept.\<close>

definition apply_event_cap ::
  "(json \<Rightarrow> stream_message option) \<Rightarrow> event list \<Rightarrow> parser_layer \<Rightarrow> event list \<times> parser_layer" where
  "apply_event_cap from_value appended pl =
     (if appended = [] then ([], pl)
      else
        let keep = min (length appended) (plc_max_messages_per_chunk (pl_config pl));
            dropped = length appended - keep;
            kept = take keep appended;
            stats = fold (count_event from_value) kept (pl_stats pl)
        in if dropped \<noteq> 0
           then (kept, pl\<lparr>pl_stats := stats\<lparr>pls_dropped_messages := sat_add (pls_dropped_messages stats) dropped\<rparr>\<rparr>)
           else (appended, pl\<lparr>pl_stats := stats\<rparr>))"

definition registry_active :: "message_analyzer \<Rightarrow> nat" where
  "registry_active ma = sat_add (sat_add (sat_add (length (pr_states (ma_http1 ma))) (length (pr_states (ma_dns ma))))
     (length (pr_states (ma_websocket ma)))) (length (pr_states (ma_tls ma)))"

definition registry_evicted :: "message_analyzer \<Rightarrow> nat" where
  "registry_evicted ma = sat_add (sat_add (sat_add (pr_evicted (ma_http1 ma)) (pr_evicted (ma_dns ma)))
     (pr_evicted (ma_websocket ma))) (pr_evicted (ma_tls ma))"

definition refreshed_stats :: "message_analyzer \<Rightarrow> stream_parser_stats \<Rightarrow> stream_parser_stats" where
  "refreshed_stats ma s = s\<lparr>pls_active_states := registry_active ma, pls_evicted_states := registry_evicted ma,
     pls_http1_active_states := length (pr_states (ma_http1 ma)), pls_http1_dropped_chunks := ma_dropped_http1_chunks ma,
     pls_dns_active_states := length (pr_states (ma_dns ma)), pls_dns_dropped_datagrams := ma_dropped_dns_datagrams ma,
     pls_websocket_active_states := length (pr_states (ma_websocket ma)),
     pls_websocket_dropped_chunks := ma_dropped_websocket_chunks ma,
     pls_tls_active_states := length (pr_states (ma_tls ma)), pls_tls_dropped_chunks := ma_dropped_tls_chunks ma\<rparr>"

definition refresh_state_stats :: "parser_layer \<Rightarrow> parser_layer" where
  "refresh_state_stats pl = pl\<lparr>pl_stats := refreshed_stats (pl_registry pl) (pl_stats pl)\<rparr>"

definition parser_stats_of :: "parser_layer \<Rightarrow> stream_parser_stats" where
  "parser_stats_of pl = refreshed_stats (pl_registry pl)
     ((pl_stats pl)\<lparr>pls_parser_enabled := plc_enabled (pl_config pl)\<rparr>)"

subsection \<open>Observation\<close>

definition count_chunk :: "nat \<Rightarrow> parser_layer \<Rightarrow> parser_layer" where
  "count_chunk n pl = pl\<lparr>pl_stats := (pl_stats pl)\<lparr>pls_stream_chunks := sat_add (pls_stream_chunks (pl_stats pl)) 1,
     pls_stream_bytes := sat_add (pls_stream_bytes (pl_stats pl)) n\<rparr>\<rparr>"

definition after_analysis ::
  "(json \<Rightarrow> stream_message option) \<Rightarrow> event list \<Rightarrow> parser_layer \<Rightarrow> event list \<times> message_analyzer \<Rightarrow>
   event list \<times> parser_layer" where
  "after_analysis from_value events pl r =
     (case apply_event_cap from_value (fst r) (pl\<lparr>pl_registry := snd r\<rparr>) of
        (kept, pl1) \<Rightarrow> (events @ kept, refresh_state_stats pl1))"

definition pl_observe_stream ::
  "(stream_message \<Rightarrow> json) \<Rightarrow> (json \<Rightarrow> stream_message option) \<Rightarrow> decoded_packet \<Rightarrow> flow_observation \<Rightarrow>
   stream_chunk \<Rightarrow> event list \<Rightarrow> parser_layer \<Rightarrow> (event list \<times> parser_layer) option" where
  "pl_observe_stream to_value from_value packet flow chunk events pl =
     (if \<not> plc_enabled (pl_config pl) \<or> as_slice (ch_bytes chunk) = [] then Some (events, pl)
      else let pl1 = count_chunk (chunk_len chunk) pl
           in map_option (after_analysis from_value events pl1)
                (emit_messages to_value packet (fo_key flow) chunk (pl_registry pl1)))"

definition pl_observe_datagram ::
  "(stream_message \<Rightarrow> json) \<Rightarrow> (json \<Rightarrow> stream_message option) \<Rightarrow> decoded_packet \<Rightarrow> flow_observation \<Rightarrow>
   bytes \<Rightarrow> event list \<Rightarrow> parser_layer \<Rightarrow> event list \<times> parser_layer" where
  "pl_observe_datagram to_value from_value packet flow payload events pl =
     (if \<not> plc_enabled (pl_config pl) \<or> payload = [] then (events, pl)
      else let pl1 = count_chunk (length payload) pl
           in after_analysis from_value events pl1
                (emit_dns_datagram to_value packet (fo_key flow) (fo_direction flow) payload (pl_registry pl1)))"

subsection \<open>What the counters count\<close>

definition tally :: "nat \<Rightarrow> nat" where
  "tally n = min n u64_max"

lemma tally_simps [simp]:
  "tally 0 = 0" "sat_add (tally n) k = tally (n + k)"
  by (simp_all add: tally_def sat_add_def)

definition messages_of :: "(json \<Rightarrow> stream_message option) \<Rightarrow> event list \<Rightarrow> stream_message list" where
  "messages_of from_value evs = List.map_filter (message_from_event from_value) evs"

lemma messages_of_simps [simp]:
  "messages_of from_value [] = []"
  "messages_of from_value (evs @ evs') = messages_of from_value evs @ messages_of from_value evs'"
  "messages_of from_value (ev # evs) = (case message_from_event from_value ev of
     None \<Rightarrow> messages_of from_value evs | Some m \<Rightarrow> m # messages_of from_value evs)"
  by (simp_all add: messages_of_def map_filter_def split: option.split)

definition protocol_tally :: "message_protocol \<Rightarrow> stream_message list \<Rightarrow> nat" where
  "protocol_tally p ms = tally (length (filter (\<lambda>m. msg_protocol m = p) ms))"

definition error_tally :: "message_protocol \<Rightarrow> stream_message list \<Rightarrow> nat" where
  "error_tally p ms = tally (length (filter (\<lambda>m. msg_protocol m = p \<and> msg_status m = ParseError) ms))"

definition counts_messages :: "stream_parser_stats \<Rightarrow> stream_message list \<Rightarrow> bool" where
  "counts_messages s ms \<longleftrightarrow> pls_emitted_messages s = tally (length ms)
     \<and> pls_http1_messages s = protocol_tally Http1 ms \<and> pls_dns_messages s = protocol_tally Dns ms
     \<and> pls_websocket_messages s = protocol_tally WebSocket ms \<and> pls_tls_messages s = protocol_tally Tls ms
     \<and> pls_http1_parse_errors s = error_tally Http1 ms \<and> pls_dns_parse_errors s = error_tally Dns ms
     \<and> pls_websocket_parse_errors s = error_tally WebSocket ms \<and> pls_tls_parse_errors s = error_tally Tls ms"

lemma tally_message_counts:
  assumes "counts_messages s ms"
  shows "counts_messages (tally_message m s) (ms @ [m])"
proof (cases "msg_status m = ParseError")
  case True
  then show ?thesis using assms
    by (cases "msg_protocol m") (simp_all add: counts_messages_def tally_message_def protocol_tally_def error_tally_def)
next
  case False
  then show ?thesis using assms
    by (cases "msg_protocol m") (simp_all add: counts_messages_def tally_message_def protocol_tally_def error_tally_def)
qed

definition kept_by_count :: "stream_parser_stats \<Rightarrow> nat \<times> nat \<times> nat \<times> bool" where
  "kept_by_count s = (pls_dropped_messages s, pls_stream_chunks s, pls_stream_bytes s, pls_parser_enabled s)"

lemma count_events_counts:
  "counts_messages s (messages_of from_value evs) \<Longrightarrow>
   counts_messages (fold (count_event from_value) kept s) (messages_of from_value (evs @ kept))
   \<and> kept_by_count (fold (count_event from_value) kept s) = kept_by_count s"
proof (induction kept arbitrary: evs s)
  case (Cons ev kept)
  have same: "kept_by_count (tally_message m s) = kept_by_count s" for m
    by (cases "msg_protocol m") (simp_all add: tally_message_def kept_by_count_def Let_def)
  have "counts_messages (count_event from_value ev s) (messages_of from_value (evs @ [ev]))"
    using Cons.prems tally_message_counts by (simp add: count_event_def split: option.split)
  from Cons.IH[OF this] show ?case using same by (simp add: count_event_def split: option.splits)
qed simp

lemma refreshed_counts [simp]:
  "counts_messages (refreshed_stats ma s) ms = counts_messages s ms"
  "pls_dropped_messages (refreshed_stats ma s) = pls_dropped_messages s"
  "pls_stream_chunks (refreshed_stats ma s) = pls_stream_chunks s"
  "pls_stream_bytes (refreshed_stats ma s) = pls_stream_bytes s"
  "pls_parser_enabled (refreshed_stats ma s) = pls_parser_enabled s"
  by (simp_all add: counts_messages_def refreshed_stats_def kept_by_count_def)

lemma dropped_counts [simp]: "counts_messages (s\<lparr>pls_dropped_messages := n\<rparr>) ms = counts_messages s ms"
  by (simp add: counts_messages_def)

subsection \<open>Runs of the layer\<close>

datatype parser_input = ParserStream decoded_packet flow_observation stream_chunk
  | ParserDatagram decoded_packet flow_observation bytes

fun parser_observe ::
  "(stream_message \<Rightarrow> json) \<Rightarrow> (json \<Rightarrow> stream_message option) \<Rightarrow> parser_input \<Rightarrow> event list \<times> parser_layer \<Rightarrow>
   (event list \<times> parser_layer) option" where
  "parser_observe to_value from_value (ParserStream packet flow chunk) (events, pl) =
     pl_observe_stream to_value from_value packet flow chunk events pl"
| "parser_observe to_value from_value (ParserDatagram packet flow payload) (events, pl) =
     Some (pl_observe_datagram to_value from_value packet flow payload events pl)"

fun parser_run ::
  "(stream_message \<Rightarrow> json) \<Rightarrow> (json \<Rightarrow> stream_message option) \<Rightarrow> parser_input list \<Rightarrow> event list \<times> parser_layer \<Rightarrow>
   (event list \<times> parser_layer) option" where
  "parser_run to_value from_value [] s = Some s"
| "parser_run to_value from_value (x # xs) s =
     Option.bind (parser_observe to_value from_value x s) (parser_run to_value from_value xs)"

fun input_bytes :: "parser_input \<Rightarrow> bytes" where
  "input_bytes (ParserStream packet flow chunk) = as_slice (ch_bytes chunk)"
| "input_bytes (ParserDatagram packet flow payload) = payload"

fun input_for_analyzer :: "parser_input \<Rightarrow> analyzer_input" where
  "input_for_analyzer (ParserStream packet flow chunk) = StreamInput packet (fo_key flow) chunk"
| "input_for_analyzer (ParserDatagram packet flow payload) =
     DatagramInput packet (fo_key flow) (fo_direction flow) payload"

text \<open>
  After a run: the events are those the analyzer gave for the non-empty inputs, each input's cut at the
  cap, and the counters count them.
\<close>

definition layer_after ::
  "(json \<Rightarrow> stream_message option) \<Rightarrow> event list \<Rightarrow> event list \<Rightarrow> parser_input list \<Rightarrow> parser_layer \<Rightarrow> bool" where
  "layer_after from_value produced events xs pl \<longleftrightarrow> analyzer_ok (pl_registry pl) \<and> plc_enabled (pl_config pl)
     \<and> subseq events produced \<and> length events \<le> length xs * plc_max_messages_per_chunk (pl_config pl)
     \<and> counts_messages (pl_stats pl) (messages_of from_value events)
     \<and> kept_by_count (pl_stats pl) = (tally (length produced - length events), tally (length xs),
         tally (sum_list (map (length \<circ> input_bytes) xs)), True)"

lemma after_analysis_step:
  assumes "layer_after from_value produced events xs pl" "analyzer_kept (pl_registry pl) ma" "n = length (input_bytes x)"
  shows "layer_after from_value (produced @ evs)
      (fst (after_analysis from_value events (count_chunk n pl) (evs, ma))) (xs @ [x])
      (snd (after_analysis from_value events (count_chunk n pl) (evs, ma)))
    \<and> pl_registry (snd (after_analysis from_value events (count_chunk n pl) (evs, ma))) = ma
    \<and> pl_config (snd (after_analysis from_value events (count_chunk n pl) (evs, ma))) = pl_config pl"
proof -
  let ?cap = "plc_max_messages_per_chunk (pl_config pl)"
  let ?kept = "take ?cap evs" and ?s = "pl_stats (count_chunk n pl)"
  let ?stats = "fold (count_event from_value) ?kept ?s"
  have counted: "counts_messages ?s (messages_of from_value events)"
    using assms(1) by (simp add: layer_after_def count_chunk_def counts_messages_def)
  note c = count_events_counts[OF counted, of ?kept]
  obtain pl1 where cap: "apply_event_cap from_value evs ((count_chunk n pl)\<lparr>pl_registry := ma\<rparr>) = (?kept, pl1)"
    "pl_registry pl1 = ma" "pl_config pl1 = pl_config pl"
    "pl_stats pl1 = ?stats\<lparr>pls_dropped_messages := sat_add (pls_dropped_messages ?stats) (length evs - length ?kept)\<rparr>"
  proof
    have le: "pls_dropped_messages ?stats \<le> u64_max"
      using c assms(1) by (simp add: kept_by_count_def layer_after_def count_chunk_def tally_def)
    show "apply_event_cap from_value evs ((count_chunk n pl)\<lparr>pl_registry := ma\<rparr>) = (?kept,
        (count_chunk n pl)\<lparr>pl_registry := ma,
          pl_stats := ?stats\<lparr>pls_dropped_messages := sat_add (pls_dropped_messages ?stats) (length evs - length ?kept)\<rparr>\<rparr>)"
      using le by (auto simp: apply_event_cap_def Let_def count_chunk_def min_def)
  qed (simp_all add: count_chunk_def)
  have "subseq (events @ ?kept) (produced @ evs)"
    using assms(1) take_is_prefix prefix_imp_subseq by (intro list_emb_append_mono) (auto simp: layer_after_def)
  moreover have "length events \<le> length produced" using assms(1) by (auto simp: layer_after_def dest: list_emb_length)
  then have "length produced - length events + (length evs - length ?kept)
      = length (produced @ evs) - length (events @ ?kept)"
    by simp
  moreover have "length ?kept \<le> ?cap" by simp
  then have "length (events @ ?kept) \<le> length (xs @ [x]) * ?cap"
    using assms(1) by (auto simp: layer_after_def simp del: length_take)
  moreover have "pls_dropped_messages ?stats = tally (length produced - length events)"
    "pls_stream_chunks ?stats = tally (length (xs @ [x]))"
    "pls_stream_bytes ?stats = tally (sum_list (map (length \<circ> input_bytes) (xs @ [x])))" "pls_parser_enabled ?stats"
    using c assms(1,3) by (simp_all add: kept_by_count_def layer_after_def count_chunk_def)
  ultimately show ?thesis
    using assms(1,2) conjunct1[OF c]
    by (simp add: after_analysis_def cap refresh_state_stats_def layer_after_def analyzer_kept_def
        kept_by_count_def del: length_append length_take map_append)
qed

lemma parser_observe_step:
  assumes "layer_after from_value produced events xs pl" "input_bytes x \<noteq> []"
  shows "\<exists>evs events' pl'. parser_observe to_value from_value x (events, pl) = Some (events', pl')
    \<and> analyzer_step to_value (input_for_analyzer x) (pl_registry pl) = Some (evs, pl_registry pl')
    \<and> layer_after from_value (produced @ evs) events' (xs @ [x]) pl' \<and> pl_config pl' = pl_config pl"
proof -
  have ok: "analyzer_ok (pl_registry pl)" "plc_enabled (pl_config pl)" using assms(1) by (simp_all add: layer_after_def)
  obtain evs ma where step: "analyzer_step to_value (input_for_analyzer x) (pl_registry pl) = Some (evs, ma)"
    "analyzer_kept (pl_registry pl) ma"
    using analyzer_step_total[OF ok(1)] by blast
  have "parser_observe to_value from_value x (events, pl)
      = Some (after_analysis from_value events (count_chunk (length (input_bytes x)) pl) (evs, ma))"
    using step(1) assms(2) ok(2)
    by (cases x) (simp_all add: pl_observe_stream_def pl_observe_datagram_def count_chunk_def chunk_len_def)
  then show ?thesis using after_analysis_step[OF assms(1) step(2) refl, of evs] step(1)
    by (metis prod.collapse)
qed

lemma parser_run_after:
  assumes "layer_after from_value produced events xs pl"
  shows "\<exists>evs events' pl'. parser_run to_value from_value ys (events, pl) = Some (events', pl')
    \<and> analyzer_run to_value (map input_for_analyzer (filter (\<lambda>x. input_bytes x \<noteq> []) ys)) (pl_registry pl)
      = Some (evs, pl_registry pl')
    \<and> layer_after from_value (produced @ evs) events' (xs @ filter (\<lambda>x. input_bytes x \<noteq> []) ys) pl'
    \<and> pl_config pl' = pl_config pl"
  using assms
proof (induction ys arbitrary: produced events xs pl)
  case (Cons y ys)
  show ?case
  proof (cases "input_bytes y = []")
    case True
    then have "parser_observe to_value from_value y (events, pl) = Some (events, pl)"
      by (cases y) (simp_all add: pl_observe_stream_def pl_observe_datagram_def)
    then show ?thesis using Cons.IH[OF Cons.prems] True by simp
  next
    case False
    obtain evs events1 pl1 where one: "parser_observe to_value from_value y (events, pl) = Some (events1, pl1)"
      "analyzer_step to_value (input_for_analyzer y) (pl_registry pl) = Some (evs, pl_registry pl1)"
      "layer_after from_value (produced @ evs) events1 (xs @ [y]) pl1" "pl_config pl1 = pl_config pl"
      using parser_observe_step[OF Cons.prems False] by blast
    show ?thesis using Cons.IH[OF one(3)] one(1,2,4) False by fastforce
  qed
qed simp



end
