(* ===== verification/Analyzers.thy ===== *)
theory Analyzers
  imports Tcp_Reassembly Flow_Table Event Rust_Lines Http1_Parser
begin

text \<open>
  The packet analyzers, from \<^verbatim>\<open>src/src/analyzers.rs\<close> and \<^verbatim>\<open>src/src/analyzers/\<close>: HTTP headers on
  reassembled streams, DNS headers and TLS records on single packets.  The trait \<^verbatim>\<open>Analyzer\<close> with its
  three implementations is a data type with one constructor for each; the order of the keys of a JSON
  object is not part of the model.
\<close>

subsection \<open>HTTP\<close>

datatype http_kind = HttpRequestKind | HttpResponseKind

fun http_event_type :: "http_kind \<Rightarrow> string" where
  "http_event_type HttpRequestKind = ''http_request''"
| "http_event_type HttpResponseKind = ''http_response''"

record http_message =
  hmg_kind :: http_kind
  hmg_header_len :: nat
  hmg_content_length :: "nat option"
  hmg_fields :: "(string \<times> json) list"

record http_stream_state =
  hss_buffer :: bytes
  hss_skip_body_remaining :: nat
  hss_message_sequence_start :: "u32 option"

definition http_stream_default :: http_stream_state where
  "http_stream_default = \<lparr>hss_buffer = [], hss_skip_body_remaining = 0, hss_message_sequence_start = None\<rparr>"

definition json_option :: "('a \<Rightarrow> json) \<Rightarrow> 'a option \<Rightarrow> json" where
  "json_option f v = (case v of None \<Rightarrow> JNull | Some x \<Rightarrow> f x)"

definition analyzer_header_end :: "bytes \<Rightarrow> (nat \<times> nat) option" where
  "analyzer_header_end bs = or_else (map_option (\<lambda>pos. (pos, pos + 4)) (find_window [13, 10, 13, 10] bs))
     (map_option (\<lambda>pos. (pos, pos + 2)) (find_window [10, 10] bs))"

definition analyzer_http_method :: "string \<Rightarrow> bool" where
  "analyzer_http_method m \<longleftrightarrow> m \<in> set [''GET'', ''POST'', ''PUT'', ''DELETE'', ''PATCH'', ''HEAD'', ''OPTIONS'',
     ''TRACE'', ''CONNECT'']"

definition analyzer_parse_request ::
  "string \<Rightarrow> (string \<times> json) list \<Rightarrow> nat \<Rightarrow> nat option \<Rightarrow> u32 option \<Rightarrow> http_message option" where
  "analyzer_parse_request line headers header_len content_length sequence_start =
     (case split_ascii_whitespace line of
        [] \<Rightarrow> None
      | verb # parts \<Rightarrow>
          if \<not> analyzer_http_method verb then None
          else (case parts of
            [] \<Rightarrow> None
          | target # others \<Rightarrow> Some \<lparr>hmg_kind = HttpRequestKind, hmg_header_len = header_len,
              hmg_content_length = content_length, hmg_fields = [(''line'', JString line), (''method'', JString verb),
                (''target'', JString target), (''version'', JString (case others of [] \<Rightarrow> [] | v # _ \<Rightarrow> v)),
                (''headers'', JObject headers),
                (''stream_sequence_start'', json_option (\<lambda>s. JU64 (unat s)) sequence_start)]\<rparr>))"

definition analyzer_parse_response ::
  "string \<Rightarrow> (string \<times> json) list \<Rightarrow> nat \<Rightarrow> nat option \<Rightarrow> u32 option \<Rightarrow> http_message option" where
  "analyzer_parse_response line headers header_len content_length sequence_start =
     (case splitn 3 (CHR '' '') line of
        version # code # rest \<Rightarrow>
          map_option (\<lambda>status_code. \<lparr>hmg_kind = HttpResponseKind, hmg_header_len = header_len,
            hmg_content_length = content_length, hmg_fields = [(''line'', JString line), (''version'', JString version),
              (''status_code'', JU64 status_code), (''reason'', JString (case rest of [] \<Rightarrow> [] | r # _ \<Rightarrow> r)),
              (''headers'', JObject headers),
              (''stream_sequence_start'', json_option (\<lambda>s. JU64 (unat s)) sequence_start)]\<rparr>)
            (parse_unsigned 10 65535 code)
      | _ \<Rightarrow> None)"

text \<open>The loop over the header lines: the map of the fields and the content length.\<close>

fun analyzer_header_lines ::
  "string list \<Rightarrow> (string \<times> json) list \<Rightarrow> nat option \<Rightarrow> (string \<times> json) list \<times> nat option" where
  "analyzer_header_lines [] headers content_length = (headers, content_length)"
| "analyzer_header_lines (l # ls) headers content_length =
     (case split_once (CHR '':'') (trim_end_matches (char_of (13 :: nat)) l) of
        None \<Rightarrow> analyzer_header_lines ls headers content_length
      | Some (n, v) \<Rightarrow>
          let name = to_ascii_lowercase (str_trim n); val = str_trim v
          in analyzer_header_lines ls (AList.update name (JString val) headers)
               (if name = ''content-length'' then parse_unsigned 10 u64_max val else content_length))"

definition parse_http_header :: "bytes \<Rightarrow> u32 option \<Rightarrow> http_message option" where
  "parse_http_header header sequence_start =
     Option.bind (str_from_utf8 header) (\<lambda>text.
     case str_lines text of
       [] \<Rightarrow> None
     | l # ls \<Rightarrow>
         let line = trim_end_matches (char_of (13 :: nat)) l;
             (headers, content_length) = analyzer_header_lines ls [] None
         in if starts_with ''HTTP/'' line
            then analyzer_parse_response line headers (length header) content_length sequence_start
            else analyzer_parse_request line headers (length header) content_length sequence_start)"

definition hss_reset :: "http_stream_state \<Rightarrow> http_stream_state" where
  "hss_reset st = st\<lparr>hss_buffer := [], hss_skip_body_remaining := 0, hss_message_sequence_start := None\<rparr>"

text \<open>The sequence number of the first byte left in the buffer.\<close>

definition rest_sequence :: "u32 \<Rightarrow> bytes \<Rightarrow> u32 option" where
  "rest_sequence sequence_end buf = (if buf \<noteq> [] then Some (sequence_end - of_nat (length buf)) else None)"

lemma analyzer_header_end_bound: "analyzer_header_end bs = Some (n, t) \<Longrightarrow> 0 < t \<and> t \<le> length bs"
  by (auto simp: analyzer_header_end_def or_else_def dest!: find_window_bound split: option.splits)

function hss_parse_loop :: "u32 \<Rightarrow> http_stream_state \<Rightarrow> http_message list \<Rightarrow> http_message list \<times> http_stream_state" where
  "hss_parse_loop sequence_end st messages = (case analyzer_header_end (hss_buffer st) of
     None \<Rightarrow> (messages, st)
   | Some (header_len, header_end) \<Rightarrow>
       (case parse_http_header (take header_len (hss_buffer st)) (hss_message_sequence_start st) of
          None \<Rightarrow>
            let buf = drop header_end (hss_buffer st)
            in hss_parse_loop sequence_end
                 (st\<lparr>hss_buffer := buf, hss_message_sequence_start := rest_sequence sequence_end buf\<rparr>) messages
        | Some m \<Rightarrow>
            let body_len = (case hmg_content_length m of None \<Rightarrow> 0 | Some n \<Rightarrow> n);
                consumed = min body_len (length (hss_buffer st) - header_end);
                buf = drop (header_end + consumed) (hss_buffer st);
                skip = body_len - consumed;
                m1 = m\<lparr>hmg_fields := AList.update ''body_bytes_expected'' (JU64 body_len) (hmg_fields m)\<rparr>
            in if skip \<noteq> 0
               then (messages @ [m1], st\<lparr>hss_buffer := buf, hss_skip_body_remaining := skip,
                 hss_message_sequence_start := None\<rparr>)
               else hss_parse_loop sequence_end (st\<lparr>hss_buffer := buf, hss_skip_body_remaining := 0,
                 hss_message_sequence_start := rest_sequence sequence_end buf\<rparr>) (messages @ [m1])))"
  by pat_completeness auto
termination
  by (relation "measure (\<lambda>(e, st, ms). length (hss_buffer st))")
    (auto dest!: sym[of "Some _"] analyzer_header_end_bound)

declare hss_parse_loop.simps [simp del]

definition hss_push :: "http_stream_state \<Rightarrow> stream_chunk \<Rightarrow> nat \<Rightarrow> http_message list \<times> http_stream_state" where
  "hss_push st chunk max_header_bytes =
     (let bs = as_slice (ch_bytes chunk);
          skipped = min (hss_skip_body_remaining st) (length bs);
          input = drop skipped bs;
          st1 = st\<lparr>hss_skip_body_remaining := hss_skip_body_remaining st - skipped\<rparr>
      in if input = [] then ([], st1)
         else
           let st2 = (if hss_buffer st1 = [] then st1\<lparr>hss_message_sequence_start := Some (ch_start chunk)\<rparr> else st1);
               st3 = st2\<lparr>hss_buffer := hss_buffer st2 @ input\<rparr>
           in if length (hss_buffer st3) > max_header_bytes then ([], hss_reset st3)
              else hss_parse_loop (ch_end chunk) st3 [])"

record http_analyzer =
  hta_streams :: "((flow_key \<times> flow_direction) \<times> http_stream_state) list"
  hta_max_header_bytes :: nat

definition http_analyzer_new :: http_analyzer where
  "http_analyzer_new = \<lparr>hta_streams = [], hta_max_header_bytes = 64 * 1024\<rparr>"

definition http_analyze_stream ::
  "http_analyzer \<Rightarrow> decoded_packet \<Rightarrow> flow_observation \<Rightarrow> stream_chunk \<Rightarrow> event list \<times> http_analyzer" where
  "http_analyze_stream a packet flow chunk =
     (let key = (fo_key flow, ch_direction chunk);
          st = (case map_of (hta_streams a) key of None \<Rightarrow> http_stream_default | Some s \<Rightarrow> s)
      in case hss_push st chunk (hta_max_header_bytes a) of
           (messages, st1) \<Rightarrow>
             (map (\<lambda>m. event_from_packet ''http'' (http_event_type (hmg_kind m)) packet (hmg_header_len m)
                (JObject (hmg_fields m))) messages,
              a\<lparr>hta_streams := AList.update key st1 (hta_streams a)\<rparr>))"

subsection \<open>DNS and TLS\<close>

definition dns_analyze :: "decoded_packet \<Rightarrow> event list" where
  "dns_analyze packet = (case transport_payload_of packet of
     None \<Rightarrow> []
   | Some t \<Rightarrow>
       let bs = tp_bytes t; word = (\<lambda>i. u16_be (bs ! i) (bs ! (i + 1))); flags = word 2 in
       if tp_protocol t \<noteq> Udp then []
       else if tp_source_port t \<noteq> Some 53 \<and> tp_destination_port t \<noteq> Some 53 then []
       else if length bs < 12 then []
       else [event_from_packet ''dns'' ''dns_message'' packet (length bs) (JObject
         [(''transaction_id'', JU64 (unat (word 0))), (''is_response'', JBool (and flags 0x8000 \<noteq> 0)),
          (''opcode'', JU64 (unat (and (drop_bit 11 flags) 0x0f))), (''rcode'', JU64 (unat (and flags 0x0f))),
          (''questions'', JU64 (unat (word 4))), (''answers'', JU64 (unat (word 6))),
          (''authorities'', JU64 (unat (word 8))), (''additionals'', JU64 (unat (word 10)))])])"

definition tls_content_type :: "u8 \<Rightarrow> string" where
  "tls_content_type b = (if b = 20 then ''change_cipher_spec'' else if b = 21 then ''alert''
     else if b = 22 then ''handshake'' else if b = 23 then ''application_data'' else ''unknown'')"

definition tls_handshake_name :: "u8 \<Rightarrow> string" where
  "tls_handshake_name b = (if b = 1 then ''client_hello'' else if b = 2 then ''server_hello''
     else if b = 11 then ''certificate'' else if b = 20 then ''finished'' else ''handshake'')"

definition tls_meta_analyze :: "decoded_packet \<Rightarrow> event list" where
  "tls_meta_analyze packet = (case transport_payload_of packet of
     None \<Rightarrow> []
   | Some t \<Rightarrow>
       let bs = tp_bytes t in
       if tp_protocol t \<noteq> Tcp \<or> length bs < 5 then []
       else if bs ! 1 \<noteq> 3 \<or> \<not> bs ! 2 \<le> 4 then []
       else
         let handshake_type = (if bs ! 0 = 22 \<and> 5 < length bs then Some (tls_handshake_name (bs ! 5)) else None)
         in [event_from_packet ''tls_meta'' ''tls_packet_record'' packet (length bs) (JObject
           [(''content_type'', JString (tls_content_type (bs ! 0))),
            (''version'', JString (''3.'' @ show_nat (unat (bs ! 2)))),
            (''record_len'', JU64 (unat (u16_be (bs ! 3) (bs ! 4)))),
            (''handshake_type'', json_option JString handshake_type)])])"

subsection \<open>The trait\<close>

datatype analyzer = HttpAnalyzer http_analyzer | DnsAnalyzer | TlsMetaAnalyzer

fun analyzer_name :: "analyzer \<Rightarrow> string" where
  "analyzer_name (HttpAnalyzer a) = ''http''"
| "analyzer_name DnsAnalyzer = ''dns''"
| "analyzer_name TlsMetaAnalyzer = ''tls_meta''"

fun analyzer_analyze :: "decoded_packet \<Rightarrow> analyzer \<Rightarrow> event list \<times> analyzer" where
  "analyzer_analyze packet (HttpAnalyzer a) = ([], HttpAnalyzer a)"
| "analyzer_analyze packet DnsAnalyzer = (dns_analyze packet, DnsAnalyzer)"
| "analyzer_analyze packet TlsMetaAnalyzer = (tls_meta_analyze packet, TlsMetaAnalyzer)"

fun analyzer_analyze_stream ::
  "decoded_packet \<Rightarrow> flow_observation \<Rightarrow> stream_chunk \<Rightarrow> analyzer \<Rightarrow> event list \<times> analyzer" where
  "analyzer_analyze_stream packet flow chunk (HttpAnalyzer a) =
     map_prod id HttpAnalyzer (http_analyze_stream a packet flow chunk)"
| "analyzer_analyze_stream packet flow chunk DnsAnalyzer = ([], DnsAnalyzer)"
| "analyzer_analyze_stream packet flow chunk TlsMetaAnalyzer = ([], TlsMetaAnalyzer)"

end
