(* ===== verification/Health.thy ===== *)
theory Health
  imports Shard
begin

text \<open>
  Queue summaries and shard pressure, from \<^verbatim>\<open>src/src/health.rs\<close>.  The snapshot types of that file are in
  \<open>Shard\<close>, which fills them.  A \<^verbatim>\<open>sum::<u64>()\<close> is the sum of the naturals (the counters summed stay far
  below the maximum).  The floating-point rates and the log line of the reporter are not modelled.
\<close>

subsection \<open>Summary of the queues\<close>

record pipeline_queue_snapshot =
  pq_output_queue_len :: nat
  pq_output_queue_capacity :: nat
  pq_max_worker_queue_len :: nat
  pq_max_worker_queue_capacity :: nat
  pq_busiest_worker :: "nat option"
  pq_busiest_worker_packets :: nat
  pq_busiest_worker_bytes :: nat
  pq_fallback_routed :: nat
  pq_striped_flow :: nat
  pq_unsupported_link :: nat
  pq_non_ip :: nat
  pq_malformed :: nat
  pq_fragmented :: nat
  pq_unsupported_transport :: nat
  pq_packet_skew_ratio_milli :: nat
  pq_byte_skew_ratio_milli :: nat

definition health_skew_ratio_milli :: "nat \<Rightarrow> nat \<Rightarrow> nat \<Rightarrow> nat" where
  "health_skew_ratio_milli mx whole shard_count =
     (if whole = 0 \<or> shard_count = 0 then 0 else sat_mul (sat_mul mx shard_count) 1000 div whole)"

definition health_ratio_milli :: "nat \<Rightarrow> nat \<Rightarrow> nat" where
  "health_ratio_milli part whole = (if whole = 0 then 0 else sat_mul part 1000 div whole)"

definition worker_sum :: "(worker_queue_snapshot \<Rightarrow> nat) \<Rightarrow> sharded_queue_snapshot \<Rightarrow> nat" where
  "worker_sum f q = sum_list (map f (sq_workers q))"

definition summarize :: "sharded_queue_snapshot \<Rightarrow> pipeline_queue_snapshot" where
  "summarize q =
     (let longest = (case max_by_key wq_len (sq_workers q) of None \<Rightarrow> (0, 0) | Some w \<Rightarrow> (wq_len w, wq_capacity w));
          total_packets = worker_sum wq_routed_packets q;
          total_bytes = worker_sum wq_routed_bytes q;
          busiest = (if total_packets \<noteq> 0 then max_by_key wq_routed_packets (sq_workers q) else None);
          busiest_bytes = (if total_bytes \<noteq> 0 then max_by_key wq_routed_bytes (sq_workers q) else None);
          busiest_packets = (case busiest of None \<Rightarrow> 0 | Some w \<Rightarrow> wq_routed_packets w);
          busiest_worker_bytes = (case busiest_bytes of None \<Rightarrow> 0 | Some w \<Rightarrow> wq_routed_bytes w)
      in \<lparr>pq_output_queue_len = sq_output_queue_len q, pq_output_queue_capacity = sq_output_queue_capacity q,
          pq_max_worker_queue_len = fst longest, pq_max_worker_queue_capacity = snd longest,
          pq_busiest_worker = map_option wq_id busiest, pq_busiest_worker_packets = busiest_packets,
          pq_busiest_worker_bytes = busiest_worker_bytes, pq_fallback_routed = worker_sum wq_fallback q,
          pq_striped_flow = worker_sum wq_striped q, pq_unsupported_link = worker_sum wq_unsupported_link q,
          pq_non_ip = worker_sum wq_non_ip q, pq_malformed = worker_sum wq_malformed q,
          pq_fragmented = worker_sum wq_fragmented q, pq_unsupported_transport = worker_sum wq_unsupported_transport q,
          pq_packet_skew_ratio_milli = health_skew_ratio_milli busiest_packets total_packets (length (sq_workers q)),
          pq_byte_skew_ratio_milli = health_skew_ratio_milli busiest_worker_bytes total_bytes (length (sq_workers q))\<rparr>)"

subsection \<open>Pressure\<close>

datatype pressure_state = PressureIdle | PressureHealthy | PressureWatch | PressureHot | PressureSaturated

datatype pressure_warning = SingleShardWarning | PacketSkew | ByteSkew | ElephantFlow | WorkerQueuePressure
  | OutputQueuePressure | FallbackRoutes | MalformedFallback

record pressure_snapshot =
  psn_state :: pressure_state
  psn_shard_count :: nat
  psn_routed_packets :: nat
  psn_routed_bytes :: nat
  psn_fallback_packets :: nat
  psn_striped_flow_packets :: nat
  psn_fallback_ratio_milli :: nat
  psn_worker_fill_milli :: nat
  psn_output_fill_milli :: nat
  psn_busiest_shard :: "nat option"
  psn_busiest_shard_packets :: nat
  psn_busiest_shard_bytes :: nat
  psn_hot_flow :: "hot_flow_snapshot option"
  psn_packet_skew_ratio_milli :: nat
  psn_byte_skew_ratio_milli :: nat
  psn_warnings :: "pressure_warning list"

definition pressure_warnings ::
  "nat \<Rightarrow> nat \<Rightarrow> pipeline_queue_snapshot \<Rightarrow> nat \<Rightarrow> nat \<Rightarrow> nat \<Rightarrow> pressure_warning list" where
  "pressure_warnings workers routed summary fallback_ratio worker_fill output_fill =
     (if workers \<le> 1 \<and> routed \<noteq> 0 then [SingleShardWarning] else [])
     @ (if pq_packet_skew_ratio_milli summary \<ge> 1800 then [PacketSkew] else [])
     @ (if pq_byte_skew_ratio_milli summary \<ge> 2200 then [ByteSkew] else [])
     @ (if pq_striped_flow summary \<noteq> 0 then [ElephantFlow] else [])
     @ (if worker_fill \<ge> 600 then [WorkerQueuePressure] else [])
     @ (if output_fill \<ge> 600 then [OutputQueuePressure] else [])
     @ (if fallback_ratio \<ge> 10 then [FallbackRoutes] else [])
     @ (if pq_malformed summary \<noteq> 0 then [MalformedFallback] else [])"

definition pressure_state_of ::
  "nat \<Rightarrow> pipeline_queue_snapshot \<Rightarrow> nat \<Rightarrow> nat \<Rightarrow> pressure_warning list \<Rightarrow> pressure_state" where
  "pressure_state_of routed summary worker_fill output_fill warnings =
     (if routed = 0 then PressureIdle
      else if worker_fill \<ge> 900 \<or> output_fill \<ge> 900 then PressureSaturated
      else if pq_packet_skew_ratio_milli summary \<ge> 3000 \<or> pq_byte_skew_ratio_milli summary \<ge> 3500
        \<or> worker_fill \<ge> 750 \<or> output_fill \<ge> 750 then PressureHot
      else if warnings = [] then PressureHealthy else PressureWatch)"

definition pressure :: "sharded_queue_snapshot \<Rightarrow> pressure_snapshot" where
  "pressure q =
     (let summary = summarize q;
          routed_packets = worker_sum wq_routed_packets q;
          routed_bytes = worker_sum wq_routed_bytes q;
          fallback_ratio = health_ratio_milli (pq_fallback_routed summary) routed_packets;
          worker_fill = health_ratio_milli (pq_max_worker_queue_len summary) (pq_max_worker_queue_capacity summary);
          output_fill = health_ratio_milli (pq_output_queue_len summary) (pq_output_queue_capacity summary);
          warnings = pressure_warnings (length (sq_workers q)) routed_packets summary fallback_ratio worker_fill output_fill
      in \<lparr>psn_state = pressure_state_of routed_packets summary worker_fill output_fill warnings,
          psn_shard_count = length (sq_workers q), psn_routed_packets = routed_packets, psn_routed_bytes = routed_bytes,
          psn_fallback_packets = pq_fallback_routed summary, psn_striped_flow_packets = pq_striped_flow summary,
          psn_fallback_ratio_milli = fallback_ratio, psn_worker_fill_milli = worker_fill,
          psn_output_fill_milli = output_fill, psn_busiest_shard = pq_busiest_worker summary,
          psn_busiest_shard_packets = pq_busiest_worker_packets summary,
          psn_busiest_shard_bytes = pq_busiest_worker_bytes summary,
          psn_hot_flow = Option.bind (pq_busiest_worker summary) (\<lambda>ident.
            Option.bind (List.find (\<lambda>w. wq_id w = ident) (sq_workers q)) wq_hot_flow),
          psn_packet_skew_ratio_milli = pq_packet_skew_ratio_milli summary,
          psn_byte_skew_ratio_milli = pq_byte_skew_ratio_milli summary, psn_warnings = warnings\<rparr>)"

end
