(* ===== verification/Health_Correctness.thy ===== *)
theory Health_Correctness
  imports Health Shard_Correctness
begin

text \<open>The pressure report agrees with the dispatcher's accounts, and its state with its warnings.\<close>

lemma worker_sum_queues:
  assumes "\<And>w l c. f (w\<lparr>wq_len := l, wq_capacity := c\<rparr>) = f w"
  shows "sum_list (map f (foldl set_queue ws queues)) = sum_list (map f ws) \<and> length (foldl set_queue ws queues) = length ws"
proof (induction queues arbitrary: ws)
  case (Cons q queues)
  have "map f (set_queue ws q) = map f ws" "length (set_queue ws q) = length ws"
    using assms by (auto simp: set_queue_def map_update intro!: list_update_same_conv[THEN iffD2])
  then show ?case using Cons.IH[of "set_queue ws q"] by simp
qed simp

text \<open>
  C9. The pressure report counts what the dispatcher routed: after any run of the dispatcher, below the
  bound of 64 bits, and whatever the fill of the queues, the report has as many shards as the
  configuration asks for (at least one) and its packets, bytes, fallback and striped packets are those of
  the run; it says idle exactly when nothing was routed, and healthy exactly when something was routed
  and no warning is given.
\<close>

theorem pressure_counts_dispatch:
  assumes "route_run h (coordinator_new config) raws = Some (c, rs)"
    and "length raws \<le> u64_max" "sum_list (map (length \<circ> rp_data) raws) \<le> u64_max"
    and "p = pressure (metrics_queue_snapshot (co_metrics c) queues output_len output_capacity)"
  shows "psn_shard_count p = max (gc_shard_count config) 1
    \<and> psn_routed_packets p = length raws \<and> psn_routed_bytes p = sum_list (map (length \<circ> rp_data) raws)
    \<and> psn_fallback_packets p = sm_fallback (co_metrics c) \<and> psn_striped_flow_packets p = sm_striped (co_metrics c)
    \<and> (psn_state p = PressureIdle \<longleftrightarrow> raws = [])
    \<and> (psn_state p = PressureHealthy \<longleftrightarrow> raws \<noteq> [] \<and> psn_warnings p = [])"
proof -
  let ?m = "co_metrics c"
  let ?q = "metrics_queue_snapshot ?m queues output_len output_capacity"
  have acc: "sm_total_packets ?m = length raws" "sm_total_bytes ?m = sum_list (map (length \<circ> rp_data) raws)"
    "totals_ok ?m"
    using run_accounts[OF assms(1,2,3)] by blast+
  have len: "length (sm_shards ?m) = max (gc_shard_count config) 1"
    using route_run_metrics[OF coordinator_new_ok assms(1)] metrics_new_ok assms(2,3)
    by (simp add: coordinator_new_def shard_metrics_new_def topology_new_def Let_def)
  have sums: "worker_sum f ?q = sum_list (map (f \<circ> worker_of_load ?m) (sm_shards ?m))"
    "length (sq_workers ?q) = length (sm_shards ?m)"
    if "\<And>w l k. f (w\<lparr>wq_len := l, wq_capacity := k\<rparr>) = f w" for f
    using worker_sum_queues[OF that, of "map (worker_of_load ?m) (sm_shards ?m)" queues]
    by (simp_all add: worker_sum_def metrics_queue_snapshot_def)
  have totals: "sum_list (map sl_packets (sm_shards ?m)) = length raws"
    "sum_list (map sl_bytes (sm_shards ?m)) = sum_list (map (length \<circ> rp_data) raws)"
    "sum_list (map sl_fallback (sm_shards ?m)) = sm_fallback ?m" "sum_list (map sl_striped (sm_shards ?m)) = sm_striped ?m"
    using acc by (simp_all add: totals_ok_def metric_pairs_def shard_total_def)
  have comp: "wq_routed_packets \<circ> worker_of_load ?m = sl_packets" "wq_routed_bytes \<circ> worker_of_load ?m = sl_bytes"
    "wq_fallback \<circ> worker_of_load ?m = sl_fallback" "wq_striped \<circ> worker_of_load ?m = sl_striped"
    by (simp_all add: fun_eq_iff worker_of_load_def)
  have routed: "worker_sum wq_routed_packets ?q = length raws"
    "worker_sum wq_routed_bytes ?q = sum_list (map (length \<circ> rp_data) raws)"
    "worker_sum wq_fallback ?q = sm_fallback ?m" "worker_sum wq_striped ?q = sm_striped ?m"
    "length (sq_workers ?q) = max (gc_shard_count config) 1"
    using sums(1)[of wq_routed_packets] sums(1)[of wq_routed_bytes] sums(1)[of wq_fallback] sums(1)[of wq_striped]
      sums(2)[of wq_striped] totals len comp by simp_all
  have state: "pressure_state_of n s wf out ws = PressureIdle \<longleftrightarrow> n = 0" for n s wf out ws
    by (simp add: pressure_state_of_def)
  have healthy: "pressure_state_of n s wf out (pressure_warnings k n s fr wf out) = PressureHealthy
      \<longleftrightarrow> n \<noteq> 0 \<and> pressure_warnings k n s fr wf out = []" for n s wf out k fr
    by (auto simp: pressure_state_of_def pressure_warnings_def split: if_splits)
  show ?thesis
    unfolding assms(4) pressure_def Let_def
    by (simp add: routed state healthy summarize_def Let_def)
qed

lemma pressure_counts_dispatch_witness:
  "psn_routed_packets (pressure (metrics_queue_snapshot (co_metrics sample_coordinator) [] 0 0)) = 2
    \<and> psn_state (pressure (metrics_queue_snapshot (co_metrics sample_coordinator) [] 0 0)) \<noteq> PressureIdle"
proof -
  obtain rs where rs: "route_run sample_hash (coordinator_new sample_coordinator_config)
      [sample_tcp False, sample_tcp True] = Some (sample_coordinator, rs)"
    using sample_route_run by blast
  show ?thesis using pressure_counts_dispatch[OF rs sample_sizes refl, of "[]" 0 0] by auto
qed

end
