(* ===== verification/Pipeline_Stats.thy ===== *)
theory Pipeline_Stats
  imports Stream_Parser Stream_View Message_Store Pattern Stream_Inventory Flow_Table
begin

text \<open>
  The statistics of a run, from \<^verbatim>\<open>src/src/pipeline.rs\<close>.  \<^verbatim>\<open>PipelineStats\<close> repeats the fields of the
  statistics of every component under prefixed names; the record here holds the records of the components
  instead, so that \<^verbatim>\<open>set_*\<close> replaces one of them and \<^verbatim>\<open>add_*\<close> adds field by field, saturating.
\<close>

subsection \<open>The record\<close>

record source_stats =
  src_received :: nat
  src_dropped :: nat
  src_interface_dropped :: nat

record offload_counters =
  ofc_submitted_chunks :: nat
  ofc_submitted_bytes :: nat
  ofc_blocked_chunks :: nat
  ofc_blocked_bytes :: nat
  ofc_inline_chunks :: nat
  ofc_inline_bytes :: nat
  ofc_dropped_chunks :: nat
  ofc_dropped_bytes :: nat
  ofc_processed_chunks :: nat
  ofc_processed_bytes :: nat

text \<open>The load of the shards as the dispatcher counts it, and as the queue snapshot reports it.\<close>

record load_summary =
  lsm_fallback_routed :: nat
  lsm_striped_flow :: nat
  lsm_unsupported_link :: nat
  lsm_non_ip :: nat
  lsm_malformed :: nat
  lsm_fragmented :: nat
  lsm_unsupported_transport :: nat
  lsm_busiest :: "nat option"
  lsm_busiest_packets :: nat
  lsm_busiest_bytes :: nat
  lsm_packet_skew_ratio_milli :: nat
  lsm_byte_skew_ratio_milli :: nat

record queue_gauges =
  qg_output_queue_len :: nat
  qg_output_queue_capacity :: nat
  qg_worker_queue_max_len :: nat
  qg_worker_queue_max_capacity :: nat
  qg_offload_workers :: nat
  qg_offload_queue_max_len :: nat
  qg_offload_queue_max_capacity :: nat

record pipeline_stats =
  ps_workers :: nat
  ps_batches :: nat
  ps_packets :: nat
  ps_bytes :: nat
  ps_events :: nat
  ps_decode_errors :: nat
  ps_packet_decode :: decode_counters
  ps_shard_load :: load_summary
  ps_worker_load :: load_summary
  ps_queues :: queue_gauges
  ps_offload :: offload_counters
  ps_source :: source_stats
  ps_flows :: flow_table_stats
  ps_inventory :: inventory_stats
  ps_content :: content_stats
  ps_messages :: message_stats
  ps_parser :: stream_parser_stats
  ps_pattern :: pattern_stats
  ps_view :: view_stats

definition load_summary_default :: load_summary where
  "load_summary_default = \<lparr>lsm_fallback_routed = 0, lsm_striped_flow = 0, lsm_unsupported_link = 0, lsm_non_ip = 0,
     lsm_malformed = 0, lsm_fragmented = 0, lsm_unsupported_transport = 0, lsm_busiest = None, lsm_busiest_packets = 0,
     lsm_busiest_bytes = 0, lsm_packet_skew_ratio_milli = 0, lsm_byte_skew_ratio_milli = 0\<rparr>"

definition queue_gauges_default :: queue_gauges where
  "queue_gauges_default = \<lparr>qg_output_queue_len = 0, qg_output_queue_capacity = 0, qg_worker_queue_max_len = 0,
     qg_worker_queue_max_capacity = 0, qg_offload_workers = 0, qg_offload_queue_max_len = 0,
     qg_offload_queue_max_capacity = 0\<rparr>"

definition offload_counters_default :: offload_counters where
  "offload_counters_default = \<lparr>ofc_submitted_chunks = 0, ofc_submitted_bytes = 0, ofc_blocked_chunks = 0,
     ofc_blocked_bytes = 0, ofc_inline_chunks = 0, ofc_inline_bytes = 0, ofc_dropped_chunks = 0, ofc_dropped_bytes = 0,
     ofc_processed_chunks = 0, ofc_processed_bytes = 0\<rparr>"

definition source_stats_default :: source_stats where
  "source_stats_default = \<lparr>src_received = 0, src_dropped = 0, src_interface_dropped = 0\<rparr>"

definition pattern_stats_default :: pattern_stats where
  "pattern_stats_default = \<lparr>pgs_pattern_matches = 0, pgs_dropped_matches = 0, pgs_matched_streams = 0\<rparr>"

definition pipeline_stats_default :: pipeline_stats where
  "pipeline_stats_default = \<lparr>ps_workers = 0, ps_batches = 0, ps_packets = 0, ps_bytes = 0, ps_events = 0,
     ps_decode_errors = 0, ps_packet_decode = counters_default, ps_shard_load = load_summary_default,
     ps_worker_load = load_summary_default, ps_queues = queue_gauges_default, ps_offload = offload_counters_default,
     ps_source = source_stats_default, ps_flows = stats_default, ps_inventory = inventory_stats_default,
     ps_content = content_stats_default, ps_messages = message_stats_default, ps_parser = stream_parser_stats_default,
     ps_pattern = pattern_stats_default, ps_view = view_stats_default\<rparr>"

subsection \<open>Decode outcomes\<close>

definition observe_packet_decode_status :: "pipeline_stats \<Rightarrow> decode_status \<Rightarrow> pipeline_stats" where
  "observe_packet_decode_status s status =
     (let s1 = s\<lparr>ps_packet_decode := counters_observe (ps_packet_decode s) status\<rparr>
      in if is_decode_error status then s1\<lparr>ps_decode_errors := sat_add (ps_decode_errors s1) 1\<rparr> else s1)"

definition add_packet_decode_counters :: "pipeline_stats \<Rightarrow> decode_counters \<Rightarrow> pipeline_stats" where
  "add_packet_decode_counters s c = s\<lparr>ps_packet_decode := counters_add (ps_packet_decode s) c,
     ps_decode_errors := sat_add (ps_decode_errors s) (decode_error_packets c)\<rparr>"

subsection \<open>Setting the statistics of a component\<close>

definition set_flow_table_stats :: "pipeline_stats \<Rightarrow> flow_table_stats \<Rightarrow> pipeline_stats" where
  "set_flow_table_stats s x = s\<lparr>ps_flows := x\<rparr>"

definition set_source_stats :: "pipeline_stats \<Rightarrow> source_stats \<Rightarrow> pipeline_stats" where
  "set_source_stats s x = s\<lparr>ps_source := x\<rparr>"

definition set_stream_inventory_stats :: "pipeline_stats \<Rightarrow> inventory_stats \<Rightarrow> pipeline_stats" where
  "set_stream_inventory_stats s x = s\<lparr>ps_inventory := x\<rparr>"

definition set_stream_content_stats :: "pipeline_stats \<Rightarrow> content_stats \<Rightarrow> pipeline_stats" where
  "set_stream_content_stats s x = s\<lparr>ps_content := x\<rparr>"

definition set_pattern_stats :: "pipeline_stats \<Rightarrow> pattern_stats \<Rightarrow> pipeline_stats" where
  "set_pattern_stats s x = s\<lparr>ps_pattern := x\<rparr>"

definition set_stream_view_stats :: "pipeline_stats \<Rightarrow> view_stats \<Rightarrow> pipeline_stats" where
  "set_stream_view_stats s x = s\<lparr>ps_view := x\<rparr>"

definition set_stream_message_stats :: "pipeline_stats \<Rightarrow> message_stats \<Rightarrow> pipeline_stats" where
  "set_stream_message_stats s x = s\<lparr>ps_messages := x\<rparr>"

definition set_stream_parser_stats :: "pipeline_stats \<Rightarrow> stream_parser_stats \<Rightarrow> pipeline_stats" where
  "set_stream_parser_stats s x = s\<lparr>ps_parser := x\<rparr>"

definition clear_worker_runtime_stats :: "pipeline_stats \<Rightarrow> pipeline_stats" where
  "clear_worker_runtime_stats s =
     (let s1 = s\<lparr>ps_packet_decode := counters_default, ps_decode_errors := 0\<rparr>;
          s2 = set_flow_table_stats s1 stats_default;
          s3 = set_stream_inventory_stats s2 inventory_stats_default;
          s4 = set_stream_content_stats s3 content_stats_default;
          s5 = set_stream_parser_stats s4 stream_parser_stats_default;
          s6 = set_pattern_stats s5 pattern_stats_default
      in s6\<lparr>ps_offload := offload_counters_default\<rparr>)"

subsection \<open>Adding the statistics of a worker\<close>

definition add_flow_table_stats :: "pipeline_stats \<Rightarrow> flow_table_stats \<Rightarrow> pipeline_stats" where
  "add_flow_table_stats s x = (let f = ps_flows s in s\<lparr>ps_flows := \<lparr>
     fs_active_flows = sat_add (fs_active_flows f) (fs_active_flows x),
     fs_created_flows = sat_add (fs_created_flows f) (fs_created_flows x),
     fs_evicted_flows = sat_add (fs_evicted_flows f) (fs_evicted_flows x),
     fs_dropped_new_flows = sat_add (fs_dropped_new_flows f) (fs_dropped_new_flows x),
     fs_stream_chunks = sat_add (fs_stream_chunks f) (fs_stream_chunks x),
     fs_stream_bytes = sat_add (fs_stream_bytes f) (fs_stream_bytes x),
     fs_current_chunks = sat_add (fs_current_chunks f) (fs_current_chunks x),
     fs_current_bytes = sat_add (fs_current_bytes f) (fs_current_bytes x),
     fs_buffered_chunks = sat_add (fs_buffered_chunks f) (fs_buffered_chunks x),
     fs_buffered_bytes = sat_add (fs_buffered_bytes f) (fs_buffered_bytes x),
     fs_trimmed_chunks = sat_add (fs_trimmed_chunks f) (fs_trimmed_chunks x),
     fs_trimmed_bytes = sat_add (fs_trimmed_bytes f) (fs_trimmed_bytes x),
     fs_gaps = sat_add (fs_gaps f) (fs_gaps x),
     fs_retransmissions = sat_add (fs_retransmissions f) (fs_retransmissions x),
     fs_overlaps = sat_add (fs_overlaps f) (fs_overlaps x),
     fs_ooo_buffered = sat_add (fs_ooo_buffered f) (fs_ooo_buffered x),
     fs_ooo_buffered_bytes = sat_add (fs_ooo_buffered_bytes f) (fs_ooo_buffered_bytes x),
     fs_ooo_dropped = sat_add (fs_ooo_dropped f) (fs_ooo_dropped x),
     fs_ooo_dropped_bytes = sat_add (fs_ooo_dropped_bytes f) (fs_ooo_dropped_bytes x),
     fs_retransmitted_bytes = sat_add (fs_retransmitted_bytes f) (fs_retransmitted_bytes x),
     fs_overlap_trimmed_bytes = sat_add (fs_overlap_trimmed_bytes f) (fs_overlap_trimmed_bytes x),
     fs_buffered_bytes_peak = max (fs_buffered_bytes_peak f) (fs_buffered_bytes_peak x),
     fs_midstream_starts = sat_add (fs_midstream_starts f) (fs_midstream_starts x),
     fs_syns = sat_add (fs_syns f) (fs_syns x),
     fs_fins = sat_add (fs_fins f) (fs_fins x),
     fs_resets = sat_add (fs_resets f) (fs_resets x)\<rparr>\<rparr>)"

definition add_stream_inventory_stats :: "pipeline_stats \<Rightarrow> inventory_stats \<Rightarrow> pipeline_stats" where
  "add_stream_inventory_stats s x = (let v = ps_inventory s in s\<lparr>ps_inventory := \<lparr>
     ivs_active_streams = sat_add (ivs_active_streams v) (ivs_active_streams x),
     ivs_created_streams = sat_add (ivs_created_streams v) (ivs_created_streams x),
     ivs_evicted_streams = sat_add (ivs_evicted_streams v) (ivs_evicted_streams x),
     ivs_dropped_new_streams = sat_add (ivs_dropped_new_streams v) (ivs_dropped_new_streams x),
     ivs_closed_streams = sat_add (ivs_closed_streams v) (ivs_closed_streams x),
     ivs_stream_events = sat_add (ivs_stream_events v) (ivs_stream_events x)\<rparr>\<rparr>)"

definition add_stream_content_stats :: "pipeline_stats \<Rightarrow> content_stats \<Rightarrow> pipeline_stats" where
  "add_stream_content_stats s x = (let c = ps_content s in s\<lparr>ps_content := \<lparr>
     cs_active_streams = sat_add (cs_active_streams c) (cs_active_streams x),
     cs_active_segments = sat_add (cs_active_segments c) (cs_active_segments x),
     cs_stored_bytes = sat_add (cs_stored_bytes c) (cs_stored_bytes x),
     cs_observed_bytes = sat_add (cs_observed_bytes c) (cs_observed_bytes x),
     cs_dropped_bytes = sat_add (cs_dropped_bytes c) (cs_dropped_bytes x),
     cs_evicted_streams = sat_add (cs_evicted_streams c) (cs_evicted_streams x),
     cs_truncated_streams = sat_add (cs_truncated_streams c) (cs_truncated_streams x),
     cs_updates = sat_add (cs_updates c) (cs_updates x),
     cs_merged_segments = sat_add (cs_merged_segments c) (cs_merged_segments x)\<rparr>\<rparr>)"

definition add_pattern_stats :: "pipeline_stats \<Rightarrow> pattern_stats \<Rightarrow> pipeline_stats" where
  "add_pattern_stats s x = (let p = ps_pattern s in s\<lparr>ps_pattern := \<lparr>
     pgs_pattern_matches = sat_add (pgs_pattern_matches p) (pgs_pattern_matches x),
     pgs_dropped_matches = sat_add (pgs_dropped_matches p) (pgs_dropped_matches x),
     pgs_matched_streams = sat_add (pgs_matched_streams p) (pgs_matched_streams x)\<rparr>\<rparr>)"

definition add_stream_parser_stats :: "pipeline_stats \<Rightarrow> stream_parser_stats \<Rightarrow> pipeline_stats" where
  "add_stream_parser_stats s x = (let p = ps_parser s in s\<lparr>ps_parser := \<lparr>
     pls_parser_enabled = (pls_parser_enabled p \<or> pls_parser_enabled x),
     pls_stream_chunks = sat_add (pls_stream_chunks p) (pls_stream_chunks x),
     pls_stream_bytes = sat_add (pls_stream_bytes p) (pls_stream_bytes x),
     pls_emitted_messages = sat_add (pls_emitted_messages p) (pls_emitted_messages x),
     pls_dropped_messages = sat_add (pls_dropped_messages p) (pls_dropped_messages x),
     pls_active_states = sat_add (pls_active_states p) (pls_active_states x),
     pls_evicted_states = sat_add (pls_evicted_states p) (pls_evicted_states x),
     pls_http1_active_states = sat_add (pls_http1_active_states p) (pls_http1_active_states x),
     pls_http1_messages = sat_add (pls_http1_messages p) (pls_http1_messages x),
     pls_http1_parse_errors = sat_add (pls_http1_parse_errors p) (pls_http1_parse_errors x),
     pls_http1_dropped_chunks = sat_add (pls_http1_dropped_chunks p) (pls_http1_dropped_chunks x),
     pls_dns_active_states = sat_add (pls_dns_active_states p) (pls_dns_active_states x),
     pls_dns_messages = sat_add (pls_dns_messages p) (pls_dns_messages x),
     pls_dns_parse_errors = sat_add (pls_dns_parse_errors p) (pls_dns_parse_errors x),
     pls_dns_dropped_datagrams = sat_add (pls_dns_dropped_datagrams p) (pls_dns_dropped_datagrams x),
     pls_websocket_active_states = sat_add (pls_websocket_active_states p) (pls_websocket_active_states x),
     pls_websocket_messages = sat_add (pls_websocket_messages p) (pls_websocket_messages x),
     pls_websocket_parse_errors = sat_add (pls_websocket_parse_errors p) (pls_websocket_parse_errors x),
     pls_websocket_dropped_chunks = sat_add (pls_websocket_dropped_chunks p) (pls_websocket_dropped_chunks x),
     pls_tls_active_states = sat_add (pls_tls_active_states p) (pls_tls_active_states x),
     pls_tls_messages = sat_add (pls_tls_messages p) (pls_tls_messages x),
     pls_tls_parse_errors = sat_add (pls_tls_parse_errors p) (pls_tls_parse_errors x),
     pls_tls_dropped_chunks = sat_add (pls_tls_dropped_chunks p) (pls_tls_dropped_chunks x)\<rparr>\<rparr>)"

end
