(* ===== verification/Live_Api.thy ===== *)
theory Live_Api
  imports Pipeline_Stats Health Service_Profile Stream_Transform
begin

text \<open>
  The live API of \<^verbatim>\<open>src/src/api.rs\<close>: the log of deltas, the published state, the operations the HTTP
  handlers call and the request parsers.  The locks are not modelled: every operation is one step on the
  state, as it is under its lock, and a poisoned lock (another thread panicked) does not occur.  The clock
  is an argument.  The content that \<^verbatim>\<open>LiveContentBackend::Local\<close> shares with the pipeline is an argument
  of the operation that reads it, and so is the answer of the worker behind \<^verbatim>\<open>Sharded\<close>.
\<close>

subsection \<open>Errors\<close>

datatype api_status = ApiBadRequest | ApiNotFound | ApiServiceUnavailable | ApiInternal

record api_error =
  aer_status :: api_status
  aer_message :: string

definition api_fail :: "api_status \<Rightarrow> string \<Rightarrow> api_error" where
  "api_fail status message = \<lparr>aer_status = status, aer_message = message\<rparr>"

definition bad_request :: "string \<Rightarrow> api_error" where
  "bad_request = api_fail ApiBadRequest"

definition not_found :: "string \<Rightarrow> api_error" where
  "not_found = api_fail ApiNotFound"

definition service_unavailable :: "string \<Rightarrow> api_error" where
  "service_unavailable = api_fail ApiServiceUnavailable"

definition stream_not_tracked :: "u64w \<Rightarrow> api_error" where
  "stream_not_tracked stream_id =
     not_found (''stream '' @ hex_fixed 16 (unat stream_id) @ '' is not tracked'')"

definition no_content_shard :: "u64w \<Rightarrow> api_error" where
  "no_content_shard stream_id =
     not_found (''stream '' @ hex_fixed 16 (unat stream_id) @ '' has no stored content shard'')"

definition from_slice_error :: "slice_error \<Rightarrow> api_error" where
  "from_slice_error e = (case e of
     SliceEmptyRequest \<Rightarrow> bad_request (slice_error_display e)
   | _ \<Rightarrow> not_found (slice_error_display e))"

datatype sharded_slice_error = InvalidShard nat | QueueFull nat | Disconnected nat | SliceTimeout nat

fun from_sharded_slice_error :: "sharded_slice_error \<Rightarrow> api_error" where
  "from_sharded_slice_error (InvalidShard shard) = not_found (''invalid content shard: '' @ show_nat shard)"
| "from_sharded_slice_error (QueueFull shard) =
     service_unavailable (''content shard '' @ show_nat shard @ '' is busy; retry shortly'')"
| "from_sharded_slice_error (Disconnected shard) =
     service_unavailable (''content shard '' @ show_nat shard @ '' is not available'')"
| "from_sharded_slice_error (SliceTimeout shard) =
     service_unavailable (''content shard '' @ show_nat shard @ '' timed out'')"

subsection \<open>The log of deltas\<close>

datatype api_run_status = ApiRunning | ApiCompleted | ApiFailed

datatype delta_payload =
    StatsDelta pipeline_stats
  | QueueDelta sharded_queue_snapshot pipeline_queue_snapshot pressure_snapshot
  | StreamsDelta "view_row list"
  | MatchesDelta "pattern_match list"
  | StatusDelta api_run_status pipeline_stats

record live_delta =
  ldt_cursor :: nat
  ldt_payload :: delta_payload

record live_delta_response =
  ldr_deltas :: "live_delta list"
  ldr_next_cursor :: nat
  ldr_latest_cursor :: nat
  ldr_dropped_before :: nat
  ldr_missed :: bool
  ldr_run_status :: api_run_status

record live_delta_log =
  dlg_capacity :: nat
  dlg_next_cursor :: nat
  dlg_dropped_before :: nat
  dlg_entries :: "live_delta list"

definition delta_log_new :: "nat \<Rightarrow> live_delta_log" where
  "delta_log_new capacity =
     \<lparr>dlg_capacity = max capacity 1, dlg_next_cursor = 1, dlg_dropped_before = 0, dlg_entries = []\<rparr>"

fun dlg_trim :: "nat \<Rightarrow> live_delta list \<Rightarrow> nat \<Rightarrow> live_delta list \<times> nat" where
  "dlg_trim capacity [] dropped_before = ([], dropped_before)"
| "dlg_trim capacity (d # ds) dropped_before =
     (if length (d # ds) > capacity then dlg_trim capacity ds (ldt_cursor d) else (d # ds, dropped_before))"

definition dlg_push :: "live_delta_log \<Rightarrow> delta_payload \<Rightarrow> live_delta_log" where
  "dlg_push g payload =
     (case dlg_trim (dlg_capacity g) (dlg_entries g @ [\<lparr>ldt_cursor = dlg_next_cursor g, ldt_payload = payload\<rparr>])
        (dlg_dropped_before g) of
        (entries, dropped_before) \<Rightarrow> g\<lparr>dlg_next_cursor := sat_add (dlg_next_cursor g) 1,
          dlg_entries := entries, dlg_dropped_before := dropped_before\<rparr>)"

definition dlg_latest_cursor :: "live_delta_log \<Rightarrow> nat" where
  "dlg_latest_cursor g = dlg_next_cursor g - 1"

definition dlg_response :: "live_delta_log \<Rightarrow> nat \<Rightarrow> nat \<Rightarrow> api_run_status \<Rightarrow> live_delta_response" where
  "dlg_response g cursor limit status =
     (let missed = cursor < dlg_dropped_before g;
          start = max cursor (dlg_dropped_before g);
          deltas = take limit (filter (\<lambda>d. ldt_cursor d > start) (dlg_entries g))
      in \<lparr>ldr_deltas = deltas, ldr_next_cursor = (if deltas = [] then start else ldt_cursor (last deltas)),
          ldr_latest_cursor = dlg_latest_cursor g, ldr_dropped_before = dlg_dropped_before g,
          ldr_missed = missed, ldr_run_status = status\<rparr>)"

subsection \<open>The published state\<close>

datatype content_backend = NoBackend | LocalBackend | ShardedBackend nat | SnapshotBackend "stream_content option list"

record live_api =
  lva_stats :: pipeline_stats
  lva_queue :: "sharded_queue_snapshot option"
  lva_view :: view_state
  lva_messages :: message_store
  lva_run_status :: api_run_status
  lva_backend :: content_backend
  lva_deltas :: live_delta_log
  lva_queue_emitted :: "nat option"
  lva_slice_config :: slice_config
  lva_profiles :: "service_profile list"

definition live_api_new :: "view_config \<Rightarrow> slice_config \<Rightarrow> nat \<Rightarrow> service_profile list \<Rightarrow> live_api" where
  "live_api_new view_config slice_config delta_capacity profiles =
     \<lparr>lva_stats = pipeline_stats_default, lva_queue = None, lva_view = view_new view_config,
      lva_messages = message_store_new message_store_config_default, lva_run_status = ApiRunning,
      lva_backend = NoBackend, lva_deltas = delta_log_new delta_capacity, lva_queue_emitted = None,
      lva_slice_config = slice_config, lva_profiles = profiles\<rparr>"

definition install_local_content :: "live_api \<Rightarrow> content_config \<Rightarrow> live_api \<times> stream_content" where
  "install_local_content a config = (a\<lparr>lva_backend := LocalBackend\<rparr>, stream_content_new config)"

definition set_sharded_content :: "live_api \<Rightarrow> nat \<Rightarrow> live_api" where
  "set_sharded_content a shard_count = a\<lparr>lva_backend := ShardedBackend shard_count\<rparr>"

definition set_snapshot_content :: "live_api \<Rightarrow> stream_content option list \<Rightarrow> live_api" where
  "set_snapshot_content a shards = a\<lparr>lva_backend := SnapshotBackend shards\<rparr>"

definition append_deltas :: "live_api \<Rightarrow> delta_payload list \<Rightarrow> live_api" where
  "append_deltas a payloads = a\<lparr>lva_deltas := foldl dlg_push (lva_deltas a) payloads\<rparr>"

definition api_parse_stream_id :: "string \<Rightarrow> api_error + u64w" where
  "api_parse_stream_id raw =
     (let v = str_trim raw in
      if v = [] then Inl (bad_request ''stream id is empty'')
      else
        let hex = (case strip_prefix ''0x'' v of Some d \<Rightarrow> d
              | None \<Rightarrow> (case strip_prefix ''0X'' v of Some d \<Rightarrow> d | None \<Rightarrow> v));
            looks_hex = (starts_with ''0x'' v \<or> starts_with ''0X'' v \<or> list_ex is_hex_letter hex);
            number = (if looks_hex then parse_unsigned 16 u64_max hex
              else or_else (parse_unsigned 10 u64_max v) (parse_unsigned 16 u64_max hex))
        in map_sum id of_nat (ok_or (bad_request (''invalid stream id: '' @ raw)) number))"

definition event_stream_id :: "event \<Rightarrow> u64w option" where
  "event_stream_id ev = (case json_get (ev_fields ev) ''stream_id'' of
     None \<Rightarrow> None
   | Some v \<Rightarrow> (case json_as_u64 v of
       Some n \<Rightarrow> Some (of_nat n)
     | None \<Rightarrow> (case v of
         JString raw \<Rightarrow> (case api_parse_stream_id raw of Inl _ \<Rightarrow> None | Inr i \<Rightarrow> Some i)
       | _ \<Rightarrow> None)))"

text \<open>The loop over the events: the identifiers, whose order the \<^verbatim>\<open>BTreeSet\<close> forgets, and the matches.\<close>

fun published_parts :: "event list \<Rightarrow> u64w list \<times> pattern_match list" where
  "published_parts [] = ([], [])"
| "published_parts (ev # evs) = (case published_parts evs of (ids, matches) \<Rightarrow>
     let own = (case event_stream_id ev of None \<Rightarrow> [] | Some i \<Rightarrow> [i])
     in case pattern_match_from_event ev of
          None \<Rightarrow> (own @ ids, matches)
        | Some m \<Rightarrow> (own @ pm_stream_id m # ids, m # matches))"

definition publish_events ::
  "(json \<Rightarrow> stream_message option) \<Rightarrow> live_api \<Rightarrow> event list \<Rightarrow> pipeline_stats \<Rightarrow> live_api option" where
  "publish_events from_value a events stats = (case published_parts events of (ids, matches) \<Rightarrow>
     map_option (\<lambda>messages.
       let view = view_observe_events from_value (lva_view a) events;
           rows = List.map_filter (view_stream_row view) (remdups_adj (sort ids));
           deltas = (if rows \<noteq> [] then [StreamsDelta rows] else [])
             @ (if matches \<noteq> [] then [MatchesDelta matches] else []) @ [StatsDelta stats]
       in append_deltas (a\<lparr>lva_view := view, lva_messages := messages, lva_stats := stats\<rparr>) deltas)
       (xm_observe_events from_value (lva_messages a) events))"

definition publish_stats :: "live_api \<Rightarrow> pipeline_stats \<Rightarrow> live_api" where
  "publish_stats a stats = append_deltas (a\<lparr>lva_stats := stats\<rparr>) [StatsDelta stats]"

text \<open>The clock counts milliseconds.\<close>

definition should_emit_queue_delta :: "nat \<Rightarrow> live_api \<Rightarrow> bool \<times> live_api" where
  "should_emit_queue_delta now a =
     (if (case lva_queue_emitted a of None \<Rightarrow> False | Some prev \<Rightarrow> now - prev < 100) then (False, a)
      else (True, a\<lparr>lva_queue_emitted := Some now\<rparr>))"

definition publish_queue :: "nat \<Rightarrow> live_api \<Rightarrow> sharded_queue_snapshot \<Rightarrow> live_api" where
  "publish_queue now a queue = (case should_emit_queue_delta now a of (emit, a1) \<Rightarrow>
     let a2 = a1\<lparr>lva_queue := Some queue\<rparr>
     in if emit then append_deltas a2 [QueueDelta queue (summarize queue) (pressure queue)] else a2)"

definition mark_status :: "live_api \<Rightarrow> api_run_status \<Rightarrow> pipeline_stats \<Rightarrow> live_api" where
  "mark_status a status stats =
     append_deltas (a\<lparr>lva_stats := stats, lva_run_status := status\<rparr>) [StatusDelta status stats]"

definition mark_completed :: "live_api \<Rightarrow> pipeline_stats \<Rightarrow> live_api" where
  "mark_completed a stats = mark_status a ApiCompleted stats"

definition mark_failed :: "live_api \<Rightarrow> pipeline_stats \<Rightarrow> live_api" where
  "mark_failed a stats = mark_status a ApiFailed stats"

subsection \<open>Publishing always returns\<close>

lemma append_deltas_messages [simp]: "lva_messages (append_deltas a ps) = lva_messages a"
  by (simp add: append_deltas_def)

lemma xm_observe_events_total:
  assumes "xm_ok st"
  obtains st' where "xm_observe_events from_value st evs = Some st'" "xm_ok st'"
  using xm_observe_events_fold[OF assms, of from_value evs] messages.run_inv[OF assms] that by blast

lemma publish_events_total:
  assumes "xm_ok (lva_messages a)"
  shows "\<exists>a'. publish_events from_value a events stats = Some a' \<and> xm_ok (lva_messages a')"
proof -
  obtain ms where ms: "xm_observe_events from_value (lva_messages a) events = Some ms" "xm_ok ms"
    using xm_observe_events_total[OF assms] by blast
  obtain ids matches where parts: "published_parts events = (ids, matches)" by fastforce
  show ?thesis unfolding publish_events_def parts ms(1) Let_def by (simp add: ms(2))
qed

end
