(* ===== verification/Api_Requests.thy ===== *)
theory Api_Requests
  imports Live_Api
begin

text \<open>
  The requests of \<^verbatim>\<open>src/src/api.rs\<close>: the parsers of the query strings and bodies and the handlers, over a
  finished run (a snapshot) or a live one.  Routing, JSON rendering and the socket are \<^verbatim>\<open>axum\<close>'s.
\<close>

subsection \<open>Parsers\<close>

definition api_parse_protocol :: "string \<Rightarrow> api_error + transport_protocol" where
  "api_parse_protocol raw = (let token = normalized_token raw in
     if token = ''tcp'' then Inr Tcp
     else if token = ''udp'' then Inr Udp
     else if token = ''icmpv4'' \<or> token = ''icmp_v4'' then Inr Icmpv4
     else if token = ''icmpv6'' \<or> token = ''icmp_v6'' then Inr Icmpv6
     else Inl (bad_request (''invalid protocol: '' @ raw)))"

definition api_parse_content_kind :: "string \<Rightarrow> api_error + view_content_kind" where
  "api_parse_content_kind raw = (let token = normalized_token raw in
     if token = ''unknown'' then Inr ViewKindUnknown
     else if token = ''text'' then Inr ViewText
     else if token = ''binary'' then Inr ViewBinary
     else if token = ''mixed'' then Inr ViewMixed
     else Inl (bad_request (''invalid content_kind: '' @ raw)))"

definition api_parse_status :: "string \<Rightarrow> api_error + view_status" where
  "api_parse_status raw = (let token = normalized_token raw in
     if token = ''open'' then Inr ViewOpen
     else if token = ''closing'' then Inr ViewClosing
     else if token = ''closed'' then Inr ViewClosed
     else if token = ''unknown'' then Inr ViewStatusUnknown
     else Inl (bad_request (''invalid status: '' @ raw)))"

definition api_parse_direction :: "string \<Rightarrow> api_error + flow_direction" where
  "api_parse_direction raw = (let token = normalized_token raw in
     if token \<in> set [''a_to_b'', ''atob'', ''a_b''] then Inr AToB
     else if token \<in> set [''b_to_a'', ''btoa'', ''b_a''] then Inr BToA
     else Inl (bad_request (''invalid direction: '' @ raw)))"

definition parse_message_protocol :: "string \<Rightarrow> api_error + message_protocol" where
  "parse_message_protocol raw = (let token = normalized_token raw in
     if token \<in> set [''http'', ''http1'', ''http_1'', ''http/1'', ''http/1.1''] then Inr Http1
     else if token = ''dns'' then Inr Dns
     else if token \<in> set [''ws'', ''websocket'', ''web_socket''] then Inr WebSocket
     else if token \<in> set [''tls'', ''ssl''] then Inr Tls
     else Inl (bad_request (''invalid message protocol: '' @ raw)))"

definition parse_message_kind :: "string \<Rightarrow> api_error + message_kind" where
  "parse_message_kind raw = (let token = normalized_token raw in
     if token \<in> set [''request'', ''req''] then Inr Request
     else if token \<in> set [''response'', ''resp''] then Inr Response
     else if token = ''unknown'' then Inr UnknownKind
     else Inl (bad_request (''invalid message kind: '' @ raw)))"

definition parse_message_status :: "string \<Rightarrow> api_error + message_status" where
  "parse_message_status raw = (let token = normalized_token raw in
     if token = ''complete'' then Inr Complete
     else if token = ''partial'' then Inr Partial
     else if token \<in> set [''parse_error'', ''error''] then Inr ParseError
     else Inl (bad_request (''invalid message status: '' @ raw)))"

definition api_parse_mode :: "string \<Rightarrow> api_error + slice_mode" where
  "api_parse_mode raw = (let token = normalized_token raw in
     if token = ''raw'' then Inr SliceRaw
     else if token = ''text'' then Inr SliceText
     else if token = ''hex'' then Inr SliceHex
     else Inl (bad_request (''invalid mode: '' @ raw)))"

definition api_parse_transform :: "string \<Rightarrow> api_error + transform_mode" where
  "api_parse_transform raw = (let token = normalized_token raw in
     if token = ''auto'' then Inr TransformAuto
     else if token \<in> set [''url'', ''url_decode'', ''urldecode''] then Inr UrlDecode
     else if token = ''gzip'' then Inr Gzip
     else if token \<in> set [''http_chunked'', ''http-chunked'', ''chunked''] then Inr HttpChunked
     else if token \<in> set [''http_gzip'', ''http-gzip''] then Inr HttpGzip
     else if token \<in> set [''websocket_deflate'', ''websocket-deflate'', ''ws_deflate'', ''ws-deflate'']
       then Inr WebSocketDeflate
     else Inl (bad_request (''invalid transform: '' @ raw)))"

text \<open>\<^verbatim>\<open>split([',', '|', '+', '>'])\<close>.\<close>

fun split_any :: "char list \<Rightarrow> string \<Rightarrow> string list" where
  "split_any cs [] = [[]]"
| "split_any cs (x # xs) = (if x \<in> set cs then [] # split_any cs xs
     else (case split_any cs xs of [] \<Rightarrow> [[x]] | p # ps \<Rightarrow> (x # p) # ps))"

definition parse_transform_plan :: "string \<Rightarrow> api_error + transform_mode list" where
  "parse_transform_plan raw =
     (let v = str_trim raw;
          steps_text = (case strip_prefix ''chain:'' v of Some r \<Rightarrow> r
            | None \<Rightarrow> (case strip_prefix ''pipeline:'' v of Some r \<Rightarrow> r | None \<Rightarrow> v))
      in try_bind (collect_results api_parse_transform
             (filter (\<lambda>s. s \<noteq> []) (map str_trim (split_any [CHR '','', CHR ''|'', CHR ''+'', CHR ''>''] steps_text))))
           (\<lambda>steps. if steps = [] then Inl (bad_request ''transform plan is empty'') else Inr steps))"

definition non_empty :: "string option \<Rightarrow> string option" where
  "non_empty v = Option.bind v (\<lambda>s. let t = str_trim s in if t = [] then None else Some t)"

definition api_scalar_to_string :: "json \<Rightarrow> api_error + string" where
  "api_scalar_to_string v = (case v of
     JString s \<Rightarrow> (let t = str_trim s in if t = [] then Inl (bad_request ''hide rule value is empty'') else Inr t)
   | JU64 n \<Rightarrow> Inr (show_nat n)
   | JOtherNumber s \<Rightarrow> Inr s
   | JBool b \<Rightarrow> Inr (if b then ''true'' else ''false'')
   | _ \<Rightarrow> Inl (bad_request ''hide rule value must be a string, number, or boolean''))"

subsection \<open>Parameters of the requests\<close>

record stream_query_params =
  sqp_cursor :: "nat option"
  sqp_limit :: "nat option"
  sqp_include_hidden :: "bool option"
  sqp_only_favorites :: "bool option"
  sqp_only_matched :: "bool option"
  sqp_profile :: "string option"
  sqp_protocol :: "string option"
  sqp_service :: "string option"
  sqp_port :: "u16 option"
  sqp_content_kind :: "string option"
  sqp_status :: "string option"
  sqp_pattern_id :: "string option"

definition or_default :: "'a option \<Rightarrow> 'a \<Rightarrow> 'a" where
  "or_default v d = (case v of None \<Rightarrow> d | Some x \<Rightarrow> x)"

definition into_view_query :: "stream_query_params \<Rightarrow> service_profile list \<Rightarrow> api_error + view_query" where
  "into_view_query p profiles =
     (let q = view_query_default in
      try_bind (transpose_result (\<lambda>n. ok_or (bad_request (''unknown profile: '' @ n)) (profiles_get profiles n))
          (non_empty (sqp_profile p))) (\<lambda>profile.
      try_bind (transpose_result api_parse_protocol (sqp_protocol p)) (\<lambda>protocol.
      try_bind (transpose_result api_parse_content_kind (sqp_content_kind p)) (\<lambda>content_kind.
      try_bind (transpose_result api_parse_status (sqp_status p)) (\<lambda>status.
      Inr \<lparr>vq_cursor = or_default (sqp_cursor p) (vq_cursor q), vq_limit = or_default (sqp_limit p) (vq_limit q),
        vq_include_hidden = or_default (sqp_include_hidden p) (vq_include_hidden q),
        vq_only_favorites = or_default (sqp_only_favorites p) (vq_only_favorites q),
        vq_only_matched = or_default (sqp_only_matched p) (vq_only_matched q), vq_profile = profile,
        vq_protocol = protocol, vq_service = non_empty (sqp_service p), vq_port = sqp_port p,
        vq_content_kind = content_kind, vq_status = status, vq_pattern_id = non_empty (sqp_pattern_id p)\<rparr>)))))"

datatype content_transform_request = NoTransform | TransformPlan "transform_mode list" | ProfileDefault

record content_query_params =
  cqp_direction :: "string option"
  cqp_start :: "nat option"
  cqp_len :: "nat option"
  cqp_mode :: "string option"
  cqp_transform :: "string option"

definition cqp_flow_direction :: "content_query_params \<Rightarrow> api_error + flow_direction" where
  "cqp_flow_direction p = (case cqp_direction p of None \<Rightarrow> Inr AToB | Some raw \<Rightarrow> api_parse_direction raw)"

definition cqp_slice_mode :: "content_query_params \<Rightarrow> api_error + slice_mode" where
  "cqp_slice_mode p = (case cqp_mode p of None \<Rightarrow> Inr SliceText | Some raw \<Rightarrow> api_parse_mode raw)"

definition cqp_transform_request :: "content_query_params \<Rightarrow> api_error + content_transform_request" where
  "cqp_transform_request p = (case cqp_transform p of
     None \<Rightarrow> Inr NoTransform
   | Some raw \<Rightarrow> (let token = normalized_token raw in
       if token \<in> set ['''', ''none'', ''raw''] then Inr NoTransform
       else if token \<in> set [''profile'', ''default'', ''profile_default''] then Inr ProfileDefault
       else map_sum id TransformPlan (parse_transform_plan raw)))"

record message_query_params =
  mqp_cursor :: "nat option"
  mqp_limit :: "nat option"
  mqp_direction :: "string option"
  mqp_protocol :: "string option"
  mqp_kind :: "string option"
  mqp_status :: "string option"

definition into_message_query :: "message_query_params \<Rightarrow> api_error + message_query" where
  "into_message_query p =
     try_bind (transpose_result api_parse_direction (mqp_direction p)) (\<lambda>direction.
     try_bind (transpose_result parse_message_protocol (mqp_protocol p)) (\<lambda>protocol.
     try_bind (transpose_result parse_message_kind (mqp_kind p)) (\<lambda>kind.
     try_bind (transpose_result parse_message_status (mqp_status p)) (\<lambda>status.
     Inr \<lparr>mq_cursor = or_default (mqp_cursor p) 0, mq_limit = or_default (mqp_limit p) 128,
       mq_direction = direction, mq_protocol = protocol, mq_kind = kind, mq_status = status\<rparr>))))"

record stream_state_patch =
  ssp_favorite :: "bool option"
  ssp_hidden :: "bool option"

record hide_rule_request =
  hrr_kind :: string
  hrr_value :: json

definition into_rule :: "hide_rule_request \<Rightarrow> api_error + hide_rule" where
  "into_rule r =
     (let kind = normalized_token (hrr_kind r) in
      try_bind (api_scalar_to_string (hrr_value r)) (\<lambda>v.
      try_bind
        (if kind \<in> set [''stream'', ''stream_id''] then try_bind (api_parse_stream_id v) (\<lambda>i. Inr (HideStreamId i))
         else if kind = ''service'' then Inr (HideService v)
         else if kind = ''protocol'' then try_bind (api_parse_protocol v) (\<lambda>p. Inr (HideProtocol p))
         else if kind = ''port''
           then try_bind (ok_or (bad_request (''invalid hide rule port: '' @ v)) (parse_unsigned 10 65535 v))
             (\<lambda>p. Inr (HidePort (of_nat p)))
         else if kind \<in> set [''content_kind'', ''kind'']
           then try_bind (api_parse_content_kind v) (\<lambda>k. Inr (HideContentKind k))
         else if kind = ''status'' then try_bind (api_parse_status v) (\<lambda>s. Inr (HideStatus s))
         else if kind \<in> set [''pattern'', ''pattern_id''] then Inr (HidePatternId v)
         else Inl (bad_request (''invalid hide rule kind: '' @ hrr_kind r)))
        (\<lambda>rule. Inr (hide_rule_normalized rule))))"

record live_delta_query_params =
  ldp_cursor :: "nat option"
  ldp_limit :: "nat option"
  ldp_wait_ms :: "nat option"

end
