(* ===== verification/Api_Handlers.thy ===== *)
theory Api_Handlers
  imports Api_Requests
begin

text \<open>The handlers of \<^verbatim>\<open>src/src/api.rs\<close>, over a snapshot of a finished run or over the live state.\<close>

subsection \<open>Answers\<close>

record health_response =
  hrs_run_status :: api_run_status
  hrs_stats :: pipeline_stats
  hrs_queue_summary :: "pipeline_queue_snapshot option"
  hrs_shard_pressure :: "pressure_snapshot option"
  hrs_queue :: "sharded_queue_snapshot option"
  hrs_view :: view_stats
  hrs_content_shards :: nat
  hrs_active_content_shards :: nat
  hrs_latest_delta_cursor :: nat
  hrs_dropped_delta_cursor :: nat

record service_profile_view =
  spw_profile :: service_profile
  spw_stats :: service_profile_stats

record stream_detail_response =
  sdr_row :: view_row
  sdr_directions :: "view_direction \<times> view_direction"
  sdr_matches :: "pattern_match list"
  sdr_content_shard :: "nat option"

record stream_state_response =
  str_row :: view_row
  str_view :: view_stats

record view_rule =
  vru_index :: nat
  vru_label :: string
  vru_rule :: hide_rule

record view_rules_response =
  vrs_rules :: "view_rule list"
  vrs_view :: view_stats

record stream_matches_response =
  smr_stream_id :: u64w
  smr_stream_id_hex :: string
  smr_matches :: "pattern_match list"

definition profile_view_of :: "view_state \<Rightarrow> service_profile \<Rightarrow> service_profile_view" where
  "profile_view_of view p = \<lparr>spw_profile = p, spw_stats = view_profile_stats view p\<rparr>"

definition profile_views :: "view_state \<Rightarrow> service_profile list \<Rightarrow> service_profile_view list" where
  "profile_views view profiles = map (profile_view_of view) profiles"

definition view_rules_of :: "view_state \<Rightarrow> view_rules_response" where
  "view_rules_of view = \<lparr>vrs_rules = map (\<lambda>(i, r). \<lparr>vru_index = i, vru_label = hide_rule_label r, vru_rule = r\<rparr>)
     (enumerate 0 (sv_hide_rules view)), vrs_view = view_stats_of view\<rparr>"

subsection \<open>Content shards\<close>

definition stream_content_shard_for_entry :: "(hash_input \<Rightarrow> u64w) \<Rightarrow> view_entry \<Rightarrow> nat \<Rightarrow> nat" where
  "stream_content_shard_for_entry h entry content_shards =
     (if content_shards \<le> 1 then 0
      else case ve_content_shard entry of
        Some shard \<Rightarrow> if shard < content_shards then shard
          else shard_for_flow_key h (view_flow_key entry) content_shards
      | None \<Rightarrow> shard_for_flow_key h (view_flow_key entry) content_shards)"

definition live_stream_shard :: "(hash_input \<Rightarrow> u64w) \<Rightarrow> view_state \<Rightarrow> u64w \<Rightarrow> nat \<Rightarrow> nat option" where
  "live_stream_shard h view stream_id content_shards =
     map_option (\<lambda>e. stream_content_shard_for_entry h e content_shards) (map_of (sv_streams view) stream_id)"

definition slice_from_content ::
  "(bytes \<Rightarrow> string) \<Rightarrow> stream_content \<Rightarrow> slice_request \<Rightarrow> flow_key \<Rightarrow> pattern_match list \<Rightarrow> slice_config \<Rightarrow>
   api_error + content_slice" where
  "slice_from_content b64 content request key matches config =
     map_sum from_slice_error id
       (slice_with_context b64 content
         (slr_config (slice_reader_new content (view_new view_config_disabled) config)) request key matches)"

definition live_content_counts :: "live_api \<Rightarrow> nat \<times> nat" where
  "live_content_counts a = (case lva_backend a of
     NoBackend \<Rightarrow> (0, 0)
   | LocalBackend \<Rightarrow> (1, 1)
   | ShardedBackend n \<Rightarrow> (n, n)
   | SnapshotBackend shards \<Rightarrow> (length shards, length (filter (\<lambda>s. s \<noteq> None) shards)))"

definition content_shard_count :: "live_api \<Rightarrow> nat" where
  "content_shard_count a = fst (live_content_counts a)"

subsection \<open>The live state\<close>

definition live_health :: "live_api \<Rightarrow> health_response" where
  "live_health a = \<lparr>hrs_run_status = lva_run_status a, hrs_stats = lva_stats a,
     hrs_queue_summary = map_option summarize (lva_queue a), hrs_shard_pressure = map_option pressure (lva_queue a),
     hrs_queue = lva_queue a, hrs_view = view_stats_of (lva_view a),
     hrs_content_shards = fst (live_content_counts a), hrs_active_content_shards = snd (live_content_counts a),
     hrs_latest_delta_cursor = dlg_latest_cursor (lva_deltas a), hrs_dropped_delta_cursor = dlg_dropped_before (lva_deltas a)\<rparr>"

definition live_streams :: "live_api \<Rightarrow> view_query \<Rightarrow> view_query_result" where
  "live_streams a q = view_query_streams (lva_view a) q"

definition live_service_profiles :: "live_api \<Rightarrow> service_profile_view list" where
  "live_service_profiles a = profile_views (lva_view a) (lva_profiles a)"

definition profile_not_found :: "string \<Rightarrow> api_error" where
  "profile_not_found ident = not_found (''service profile not found: '' @ ident)"

definition live_service_profile :: "live_api \<Rightarrow> string \<Rightarrow> api_error + service_profile_view" where
  "live_service_profile a ident =
     map_sum id (profile_view_of (lva_view a)) (ok_or (profile_not_found ident) (profiles_get (lva_profiles a) ident))"

definition live_stream_detail :: "(hash_input \<Rightarrow> u64w) \<Rightarrow> live_api \<Rightarrow> u64w \<Rightarrow> api_error + stream_detail_response" where
  "live_stream_detail h a stream_id = (case map_of (sv_streams (lva_view a)) stream_id of
     None \<Rightarrow> Inl (stream_not_tracked stream_id)
   | Some entry \<Rightarrow> Inr \<lparr>sdr_row = view_row_of (lva_view a) entry (hidden_reason (lva_view a) entry),
       sdr_directions = ve_directions entry, sdr_matches = ve_matches entry,
       sdr_content_shard = live_stream_shard h (lva_view a) stream_id (content_shard_count a)\<rparr>)"

text \<open>The end of the operations that change the view: its statistics are copied.\<close>

definition refresh_view_stats :: "live_api \<Rightarrow> live_api" where
  "refresh_view_stats a = a\<lparr>lva_stats := set_stream_view_stats (lva_stats a) (view_stats_of (lva_view a))\<rparr>"

definition update_stream_state ::
  "live_api \<Rightarrow> u64w \<Rightarrow> stream_state_patch \<Rightarrow> (api_error + stream_state_response) \<times> live_api" where
  "update_stream_state a stream_id patch =
     (if map_of (sv_streams (lva_view a)) stream_id = None then (Inl (stream_not_tracked stream_id), a)
      else
        let v1 = (case ssp_favorite patch of None \<Rightarrow> lva_view a | Some f \<Rightarrow> snd (view_set_favorite (lva_view a) stream_id f));
            v2 = (case ssp_hidden patch of None \<Rightarrow> v1 | Some f \<Rightarrow> snd (view_set_hidden v1 stream_id f));
            a1 = refresh_view_stats (a\<lparr>lva_view := v2\<rparr>);
            row = the (view_stream_row v2 stream_id)
        in (Inr \<lparr>str_row = row, str_view = view_stats_of v2\<rparr>,
            append_deltas a1 [StreamsDelta [row], StatsDelta (lva_stats a1)]))"

definition rules_changed :: "live_api \<Rightarrow> view_state \<Rightarrow> view_rules_response \<times> live_api" where
  "rules_changed a view =
     (let a1 = refresh_view_stats (a\<lparr>lva_view := view\<rparr>)
      in (view_rules_of view, append_deltas a1 [StatsDelta (lva_stats a1)]))"

definition live_add_hide_rule :: "live_api \<Rightarrow> hide_rule \<Rightarrow> view_rules_response \<times> live_api" where
  "live_add_hide_rule a rule = rules_changed a (view_add_hide_rule (lva_view a) rule)"

definition live_add_profile_hide_rules ::
  "live_api \<Rightarrow> string \<Rightarrow> (api_error + view_rules_response) \<times> live_api" where
  "live_add_profile_hide_rules a ident = (case profiles_get (lva_profiles a) ident of
     None \<Rightarrow> (Inl (profile_not_found ident), a)
   | Some p \<Rightarrow> map_prod Inr id (rules_changed a (foldl view_add_hide_rule (lva_view a) (sp_hide_rules p))))"

definition live_clear_hide_rules :: "live_api \<Rightarrow> view_rules_response \<times> live_api" where
  "live_clear_hide_rules a = rules_changed a (view_clear_hide_rules (lva_view a))"

definition live_stream_matches :: "live_api \<Rightarrow> u64w \<Rightarrow> api_error + stream_matches_response" where
  "live_stream_matches a stream_id =
     map_sum id (\<lambda>ms. \<lparr>smr_stream_id = stream_id, smr_stream_id_hex = hex_fixed 16 (unat stream_id), smr_matches = ms\<rparr>)
       (ok_or (stream_not_tracked stream_id) (view_stream_matches (lva_view a) stream_id))"

definition live_stream_messages :: "live_api \<Rightarrow> u64w \<Rightarrow> message_query \<Rightarrow> api_error + message_query_result" where
  "live_stream_messages a stream_id q =
     (if map_of (sv_streams (lva_view a)) stream_id = None then Inl (stream_not_tracked stream_id)
      else Inr (xm_query (lva_messages a) stream_id q))"

text \<open>\<open>shared\<close> is the content the pipeline shares, \<open>ask\<close> the answer of the worker of a shard.\<close>

definition live_stream_content ::
  "(bytes \<Rightarrow> string) \<Rightarrow> (hash_input \<Rightarrow> u64w) \<Rightarrow> stream_content \<Rightarrow>
   (nat \<Rightarrow> slice_request \<Rightarrow> flow_key \<Rightarrow> pattern_match list \<Rightarrow> sharded_slice_error + (slice_error + content_slice)) \<Rightarrow>
   live_api \<Rightarrow> slice_request \<Rightarrow> api_error + content_slice" where
  "live_stream_content b64 h shared ask a request =
     (case map_of (sv_streams (lva_view a)) (srq_stream_id request) of
        None \<Rightarrow> Inl (stream_not_tracked (srq_stream_id request))
      | Some entry \<Rightarrow>
          let shard = or_default (live_stream_shard h (lva_view a) (srq_stream_id request) (content_shard_count a)) 0;
              key = view_flow_key entry; matches = ve_matches entry
          in case lva_backend a of
               NoBackend \<Rightarrow> Inl (service_unavailable ''stream content backend is not ready'')
             | LocalBackend \<Rightarrow> slice_from_content b64 shared request key matches (lva_slice_config a)
             | SnapshotBackend shards \<Rightarrow> (case if shard < length shards then shards ! shard else None of
                 None \<Rightarrow> Inl (no_content_shard (srq_stream_id request))
               | Some content \<Rightarrow> slice_from_content b64 content request key matches (lva_slice_config a))
             | ShardedBackend _ \<Rightarrow> try_bind (map_sum from_sharded_slice_error id (ask shard request key matches))
                 (map_sum from_slice_error id))"

text \<open>\<open>later\<close> is the state after the wait for a notification or its timeout.\<close>

definition live_deltas :: "live_api \<Rightarrow> live_api \<Rightarrow> live_delta_query_params \<Rightarrow> live_delta_response" where
  "live_deltas a later p =
     (let cursor = or_default (ldp_cursor p) 0;
          limit = min (max (or_default (ldp_limit p) 1024) 1) 8192;
          wait_ms = min (or_default (ldp_wait_ms p) 0) 30000;
          response = dlg_response (lva_deltas a) cursor limit (lva_run_status a)
      in if wait_ms = 0 \<or> ldr_deltas response \<noteq> [] \<or> ldr_run_status response \<noteq> ApiRunning then response
         else dlg_response (lva_deltas later) cursor limit (lva_run_status later))"

subsection \<open>Snapshots\<close>

record api_snapshot =
  asn_stats :: pipeline_stats
  asn_view :: view_state
  asn_messages :: message_store
  asn_content_shards :: "stream_content option list"
  asn_slice_config :: slice_config
  asn_profiles :: "service_profile list"

definition snapshot_sharded ::
  "pipeline_stats \<Rightarrow> view_state \<Rightarrow> message_store \<Rightarrow> stream_content option list \<Rightarrow> slice_config \<Rightarrow> api_snapshot" where
  "snapshot_sharded stats view messages shards config = \<lparr>asn_stats = stats, asn_view = view, asn_messages = messages,
     asn_content_shards = shards, asn_slice_config = config, asn_profiles = builtin_profiles\<rparr>"

definition snapshot_single ::
  "pipeline_stats \<Rightarrow> stream_content \<Rightarrow> view_state \<Rightarrow> message_store \<Rightarrow> slice_config \<Rightarrow> api_snapshot" where
  "snapshot_single stats content view messages config = \<lparr>asn_stats = stats, asn_view = view, asn_messages = messages,
     asn_content_shards = [Some content], asn_slice_config = config, asn_profiles = builtin_profiles\<rparr>"

definition snapshot_stream_shard :: "(hash_input \<Rightarrow> u64w) \<Rightarrow> api_snapshot \<Rightarrow> u64w \<Rightarrow> api_error + nat" where
  "snapshot_stream_shard h s stream_id =
     map_sum id (\<lambda>e. stream_content_shard_for_entry h e (length (asn_content_shards s)))
       (ok_or (stream_not_tracked stream_id) (map_of (sv_streams (asn_view s)) stream_id))"

definition snapshot_slice ::
  "(bytes \<Rightarrow> string) \<Rightarrow> (hash_input \<Rightarrow> u64w) \<Rightarrow> api_snapshot \<Rightarrow> slice_request \<Rightarrow> api_error + content_slice" where
  "snapshot_slice b64 h s request =
     try_bind (snapshot_stream_shard h s (srq_stream_id request)) (\<lambda>shard.
     case if shard < length (asn_content_shards s) then asn_content_shards s ! shard else None of
       None \<Rightarrow> Inl (no_content_shard (srq_stream_id request))
     | Some content \<Rightarrow> map_sum from_slice_error id
         (slice_read b64 (slice_reader_new content (asn_view s) (asn_slice_config s)) request))"

definition snapshot_content_counts :: "api_snapshot \<Rightarrow> nat \<times> nat" where
  "snapshot_content_counts s =
     (length (asn_content_shards s), length (filter (\<lambda>x. x \<noteq> None) (asn_content_shards s)))"

subsection \<open>Handlers\<close>

datatype api_state = SnapshotApi api_snapshot | LiveApi live_api

fun api_slice_config :: "api_state \<Rightarrow> slice_config" where
  "api_slice_config (SnapshotApi s) = asn_slice_config s"
| "api_slice_config (LiveApi a) = lva_slice_config a"

definition default_slice_len :: "api_state \<Rightarrow> nat" where
  "default_slice_len st = slc_max_slice_bytes (api_slice_config st)"

definition api_transform_config :: "api_state \<Rightarrow> transform_config" where
  "api_transform_config st = (let c = slice_normalized (api_slice_config st)
     in \<lparr>tfc_max_output_bytes = slc_max_transform_bytes c, tfc_hex_row_bytes = slc_hex_row_bytes c\<rparr>)"

fun profiles_for_state :: "api_state \<Rightarrow> service_profile list" where
  "profiles_for_state (SnapshotApi s) = asn_profiles s"
| "profiles_for_state (LiveApi a) = lva_profiles a"

fun api_view :: "api_state \<Rightarrow> view_state" where
  "api_view (SnapshotApi s) = asn_view s"
| "api_view (LiveApi a) = lva_view a"

definition default_transform_plan :: "service_profile \<Rightarrow> transform_mode list option" where
  "default_transform_plan p = (if sp_default_transforms p \<noteq> [] then Some (sp_default_transforms p) else None)"

definition default_profile_transform :: "api_state \<Rightarrow> u64w \<Rightarrow> api_error + transform_mode list option" where
  "default_profile_transform st stream_id =
     (if map_of (sv_streams (api_view st)) stream_id = None then Inl (stream_not_tracked stream_id)
      else Inr (Option.bind (view_primary_profile (api_view st) (profiles_for_state st) stream_id) default_transform_plan))"

fun api_health :: "api_state \<Rightarrow> health_response" where
  "api_health (SnapshotApi s) = \<lparr>hrs_run_status = ApiCompleted, hrs_stats = asn_stats s, hrs_queue_summary = None,
     hrs_shard_pressure = None, hrs_queue = None, hrs_view = view_stats_of (asn_view s),
     hrs_content_shards = fst (snapshot_content_counts s), hrs_active_content_shards = snd (snapshot_content_counts s),
     hrs_latest_delta_cursor = 0, hrs_dropped_delta_cursor = 0\<rparr>"
| "api_health (LiveApi a) = live_health a"

definition api_streams :: "api_state \<Rightarrow> stream_query_params \<Rightarrow> api_error + view_query_result" where
  "api_streams st params =
     map_sum id (view_query_streams (api_view st)) (into_view_query params (profiles_for_state st))"

fun api_service_profiles :: "api_state \<Rightarrow> service_profile_view list" where
  "api_service_profiles (SnapshotApi s) = profile_views (asn_view s) (asn_profiles s)"
| "api_service_profiles (LiveApi a) = live_service_profiles a"

fun api_service_profile :: "api_state \<Rightarrow> string \<Rightarrow> api_error + service_profile_view" where
  "api_service_profile (SnapshotApi s) ident =
     map_sum id (profile_view_of (asn_view s)) (ok_or (profile_not_found ident) (profiles_get (asn_profiles s) ident))"
| "api_service_profile (LiveApi a) ident = live_service_profile a ident"

definition no_snapshot_mutation :: "string \<Rightarrow> api_error" where
  "no_snapshot_mutation what = bad_request (what @ '' are not available for snapshot API'')"

definition patch_stream_state ::
  "api_state \<Rightarrow> string \<Rightarrow> stream_state_patch \<Rightarrow> (api_error + stream_state_response) \<times> api_state" where
  "patch_stream_state st ident patch = (case api_parse_stream_id ident of
     Inl e \<Rightarrow> (Inl e, st)
   | Inr stream_id \<Rightarrow> (case st of
       SnapshotApi _ \<Rightarrow> (Inl (no_snapshot_mutation ''stream state mutations''), st)
     | LiveApi a \<Rightarrow> map_prod id LiveApi (update_stream_state a stream_id patch)))"

definition api_stream_detail ::
  "(hash_input \<Rightarrow> u64w) \<Rightarrow> api_state \<Rightarrow> string \<Rightarrow> api_error + stream_detail_response" where
  "api_stream_detail h st ident = try_bind (api_parse_stream_id ident) (\<lambda>stream_id. case st of
     LiveApi a \<Rightarrow> live_stream_detail h a stream_id
   | SnapshotApi s \<Rightarrow> (case map_of (sv_streams (asn_view s)) stream_id of
       None \<Rightarrow> Inl (stream_not_tracked stream_id)
     | Some entry \<Rightarrow> Inr \<lparr>sdr_row = view_row_of (asn_view s) entry (hidden_reason (asn_view s) entry),
         sdr_directions = ve_directions entry, sdr_matches = ve_matches entry,
         sdr_content_shard = (case snapshot_stream_shard h s stream_id of Inl _ \<Rightarrow> None | Inr n \<Rightarrow> Some n)\<rparr>))"

definition api_stream_matches :: "api_state \<Rightarrow> string \<Rightarrow> api_error + stream_matches_response" where
  "api_stream_matches st ident = try_bind (api_parse_stream_id ident) (\<lambda>stream_id. case st of
     LiveApi a \<Rightarrow> live_stream_matches a stream_id
   | SnapshotApi s \<Rightarrow>
       map_sum id (\<lambda>ms. \<lparr>smr_stream_id = stream_id, smr_stream_id_hex = hex_fixed 16 (unat stream_id), smr_matches = ms\<rparr>)
         (ok_or (stream_not_tracked stream_id) (view_stream_matches (asn_view s) stream_id)))"

definition api_stream_messages ::
  "api_state \<Rightarrow> string \<Rightarrow> message_query_params \<Rightarrow> api_error + message_query_result" where
  "api_stream_messages st ident params = try_bind (api_parse_stream_id ident) (\<lambda>stream_id.
     try_bind (into_message_query params) (\<lambda>q. case st of
       LiveApi a \<Rightarrow> live_stream_messages a stream_id q
     | SnapshotApi s \<Rightarrow>
         if map_of (sv_streams (asn_view s)) stream_id = None then Inl (stream_not_tracked stream_id)
         else Inr (xm_query (asn_messages s) stream_id q)))"

definition api_stream_content ::
  "(bytes \<Rightarrow> string) \<Rightarrow> (string \<Rightarrow> bytes option) \<Rightarrow> 'g decoder \<Rightarrow> 'd decoder \<Rightarrow> (hash_input \<Rightarrow> u64w) \<Rightarrow> stream_content \<Rightarrow>
   (nat \<Rightarrow> slice_request \<Rightarrow> flow_key \<Rightarrow> pattern_match list \<Rightarrow> sharded_slice_error + (slice_error + content_slice)) \<Rightarrow>
   api_state \<Rightarrow> string \<Rightarrow> content_query_params \<Rightarrow> api_error + content_slice" where
  "api_stream_content b64 b64_decode gz deflate h shared ask st ident params =
     try_bind (api_parse_stream_id ident) (\<lambda>stream_id.
     try_bind (cqp_slice_mode params) (\<lambda>view_mode.
     try_bind (cqp_transform_request params) (\<lambda>tr.
     try_bind (case tr of NoTransform \<Rightarrow> Inr None | TransformPlan plan \<Rightarrow> Inr (Some plan)
         | ProfileDefault \<Rightarrow> default_profile_transform st stream_id) (\<lambda>plan.
     try_bind (cqp_flow_direction params) (\<lambda>direction.
     let request = \<lparr>srq_stream_id = stream_id, srq_direction = direction,
           srq_logical_start = or_default (cqp_start params) 0,
           srq_max_bytes = or_default (cqp_len params) (default_slice_len st), srq_mode = view_mode\<rparr>
     in try_bind (case st of SnapshotApi s \<Rightarrow> snapshot_slice b64 h s request
           | LiveApi a \<Rightarrow> live_stream_content b64 h shared ask a request) (\<lambda>s.
        case plan of
          None \<Rightarrow> Inr s
        | Some modes \<Rightarrow> Inr (s\<lparr>csl_transforms := csl_transforms s @
            [apply_transform_plan b64 b64_decode gz deflate s modes view_mode (api_transform_config st)]\<rparr>)))))))"

definition api_live_deltas ::
  "api_state \<Rightarrow> live_api \<Rightarrow> live_delta_query_params \<Rightarrow> api_error + live_delta_response" where
  "api_live_deltas st later params = (case st of
     SnapshotApi _ \<Rightarrow> Inl (no_snapshot_mutation ''live deltas'')
   | LiveApi a \<Rightarrow> Inr (live_deltas a later params))"

definition api_hide_rules :: "api_state \<Rightarrow> view_rules_response" where
  "api_hide_rules st = view_rules_of (api_view st)"

definition api_add_hide_rule ::
  "api_state \<Rightarrow> hide_rule_request \<Rightarrow> (api_error + view_rules_response) \<times> api_state" where
  "api_add_hide_rule st request = (case into_rule request of
     Inl e \<Rightarrow> (Inl e, st)
   | Inr rule \<Rightarrow> (case st of
       SnapshotApi _ \<Rightarrow> (Inl (no_snapshot_mutation ''hide rule mutations''), st)
     | LiveApi a \<Rightarrow> map_prod Inr LiveApi (live_add_hide_rule a rule)))"

definition api_add_profile_hide_rules :: "api_state \<Rightarrow> string \<Rightarrow> (api_error + view_rules_response) \<times> api_state" where
  "api_add_profile_hide_rules st ident = (case st of
     SnapshotApi _ \<Rightarrow> (Inl (no_snapshot_mutation ''hide rule mutations''), st)
   | LiveApi a \<Rightarrow> map_prod id LiveApi (live_add_profile_hide_rules a ident))"

definition api_clear_hide_rules :: "api_state \<Rightarrow> (api_error + view_rules_response) \<times> api_state" where
  "api_clear_hide_rules st = (case st of
     SnapshotApi _ \<Rightarrow> (Inl (no_snapshot_mutation ''hide rule mutations''), st)
   | LiveApi a \<Rightarrow> map_prod Inr LiveApi (live_clear_hide_rules a))"

end
