(* ===== verification/Ingest.thy ===== *)
theory Ingest
  imports Packet Pipeline_Stats
begin

text \<open>
  Batches and sources of packets and sinks of events, from \<^verbatim>\<open>src/src/ingest/\<close> and \<^verbatim>\<open>src/src/output/\<close>.  The
  capture handle of the \<^verbatim>\<open>pcap\<close> crate is the list of its answers, an element for each call of
  \<^verbatim>\<open>next_packet\<close>; a file that has been read to its end answers \<open>NoMorePackets\<close> for ever.
\<close>

subsection \<open>Batches\<close>

record packet_batch =
  pb_packets :: "raw_packet list"
  pb_byte_len :: nat

definition batch_new :: packet_batch where
  "batch_new = \<lparr>pb_packets = [], pb_byte_len = 0\<rparr>"

definition batch_push :: "packet_batch \<Rightarrow> raw_packet \<Rightarrow> packet_batch" where
  "batch_push b p = b\<lparr>pb_byte_len := pb_byte_len b + length (rp_data p), pb_packets := pb_packets b @ [p]\<rparr>"

definition batch_clear :: "packet_batch \<Rightarrow> packet_batch" where
  "batch_clear b = b\<lparr>pb_packets := [], pb_byte_len := 0\<rparr>"

definition batch_drain :: "packet_batch \<Rightarrow> raw_packet list \<times> packet_batch" where
  "batch_drain b = (pb_packets b, b\<lparr>pb_byte_len := 0, pb_packets := []\<rparr>)"

text \<open>What the fields of a batch mean.\<close>

definition batch_ok :: "packet_batch \<Rightarrow> bool" where
  "batch_ok b \<longleftrightarrow> pb_byte_len b = sum_list (map (length \<circ> rp_data) (pb_packets b))"

lemma batch_ok_intros [simp]: "batch_ok batch_new" "batch_ok (batch_clear b)"
  "batch_ok b \<Longrightarrow> batch_ok (batch_push b p)" "batch_ok (snd (batch_drain b))"
  by (simp_all add: batch_ok_def batch_new_def batch_clear_def batch_push_def batch_drain_def)

subsection \<open>Capture files\<close>

record pcap_packet =
  ppk_tv_sec :: int
  ppk_tv_usec :: int
  ppk_data :: bytes

datatype pcap_answer = PcapPacket pcap_packet | NoMorePackets | TimeoutExpired | PcapError string

definition raw_of_pcap :: "link_layer \<Rightarrow> int \<Rightarrow> pcap_packet \<Rightarrow> raw_packet" where
  "raw_of_pcap layer linktype p =
     \<lparr>rp_timestamp = \<lparr>ts_sec = (if ppk_tv_sec p < 0 then 0 else nat (ppk_tv_sec p)),
        ts_usec = (if ppk_tv_usec p < 0 \<or> ppk_tv_usec p \<ge> 2 ^ 32 then 0 else nat (ppk_tv_usec p))\<rparr>,
      rp_link_layer = layer, rp_linktype = linktype, rp_data = ppk_data p\<rparr>"

record pcap_file =
  pfs_answers :: "pcap_answer list"
  pfs_link_layer :: link_layer
  pfs_linktype :: int

definition pcap_file_open :: "linktype_consts \<Rightarrow> pcap_answer list \<Rightarrow> int \<Rightarrow> pcap_file" where
  "pcap_file_open consts answers linktype =
     \<lparr>pfs_answers = answers, pfs_link_layer = from_pcap consts linktype, pfs_linktype = linktype\<rparr>"

text \<open>The loop of \<^verbatim>\<open>next_batch\<close>, over the answers: the result, the batch and the answers that remain.\<close>

fun fill_from_file ::
  "nat \<Rightarrow> link_layer \<Rightarrow> int \<Rightarrow> pcap_answer list \<Rightarrow> packet_batch \<Rightarrow> (string + nat) \<times> packet_batch \<times> pcap_answer list" where
  "fill_from_file target layer linktype answers batch =
     (if \<not> length (pb_packets batch) < target then (Inr (length (pb_packets batch)), batch, answers)
      else case answers of
        [] \<Rightarrow> (Inr (length (pb_packets batch)), batch, [])
      | NoMorePackets # rest \<Rightarrow> (Inr (length (pb_packets batch)), batch, NoMorePackets # rest)
      | PcapPacket p # rest \<Rightarrow> fill_from_file target layer linktype rest (batch_push batch (raw_of_pcap layer linktype p))
      | TimeoutExpired # rest \<Rightarrow> (Inl ''timeout expired'', batch, rest)
      | PcapError e # rest \<Rightarrow> (Inl e, batch, rest))"

declare fill_from_file.simps [simp del]

definition file_next_batch :: "nat \<Rightarrow> pcap_file \<Rightarrow> packet_batch \<Rightarrow> (string + nat) \<times> packet_batch \<times> pcap_file" where
  "file_next_batch capacity src batch =
     (case fill_from_file (max capacity 1) (pfs_link_layer src) (pfs_linktype src) (pfs_answers src) (batch_clear batch) of
        (r, b, answers) \<Rightarrow> (r, b, src\<lparr>pfs_answers := answers\<rparr>))"

subsection \<open>Live capture\<close>

text \<open>
  Each call comes with the value of the shutdown flag that was read before it, and with the counters the
  handle would report after it.
\<close>

record live_source =
  lcs_answers :: "(bool \<times> pcap_answer) list"
  lcs_link_layer :: link_layer
  lcs_linktype :: int
  lcs_max_packets :: "nat option"
  lcs_captured :: nat

definition live_should_stop :: "bool \<Rightarrow> nat option \<Rightarrow> nat \<Rightarrow> bool" where
  "live_should_stop shutdown max_packets captured \<longleftrightarrow>
     shutdown \<or> (case max_packets of None \<Rightarrow> False | Some limit \<Rightarrow> captured \<ge> limit)"

fun fill_from_live ::
  "nat \<Rightarrow> (bool \<times> pcap_answer) list \<Rightarrow> live_source \<Rightarrow> packet_batch \<Rightarrow> (string + nat) \<times> packet_batch \<times> live_source" where
  "fill_from_live target [] src batch = (Inr (length (pb_packets batch)), batch, src\<lparr>lcs_answers := []\<rparr>)"
| "fill_from_live target ((shutdown, answer) # rest) src batch =
     (if \<not> length (pb_packets batch) < target \<or> live_should_stop shutdown (lcs_max_packets src) (lcs_captured src)
      then (Inr (length (pb_packets batch)), batch, src\<lparr>lcs_answers := (shutdown, answer) # rest\<rparr>)
      else case answer of
        PcapPacket p \<Rightarrow> fill_from_live target rest (src\<lparr>lcs_captured := sat_add (lcs_captured src) 1\<rparr>)
          (batch_push batch (raw_of_pcap (lcs_link_layer src) (lcs_linktype src) p))
      | TimeoutExpired \<Rightarrow> (Inr (length (pb_packets batch)), batch, src\<lparr>lcs_answers := rest\<rparr>)
      | NoMorePackets \<Rightarrow> (Inl ''no more packets'', batch, src\<lparr>lcs_answers := rest\<rparr>)
      | PcapError e \<Rightarrow> (Inl e, batch, src\<lparr>lcs_answers := rest\<rparr>))"

definition live_next_batch :: "nat \<Rightarrow> live_source \<Rightarrow> packet_batch \<Rightarrow> (string + nat) \<times> packet_batch \<times> live_source" where
  "live_next_batch capacity src batch = fill_from_live (max capacity 1) (lcs_answers src) src (batch_clear batch)"

definition live_is_finished :: "live_source \<Rightarrow> bool" where
  "live_is_finished src =
     live_should_stop (case lcs_answers src of [] \<Rightarrow> True | (shutdown, _) # _ \<Rightarrow> shutdown) (lcs_max_packets src) (lcs_captured src)"

text \<open>The first data link that is supported, when the current one is not.\<close>

definition choose_supported_datalink :: "linktype_consts \<Rightarrow> int \<Rightarrow> int list \<Rightarrow> int" where
  "choose_supported_datalink consts current datalinks =
     (if from_pcap consts current \<noteq> UnsupportedLayer then current
      else case List.find (\<lambda>l. from_pcap consts l \<noteq> UnsupportedLayer) datalinks of None \<Rightarrow> current | Some l \<Rightarrow> l)"

subsection \<open>Sources and sinks as the pipeline sees them\<close>

record 's packet_source =
  pso_next_batch :: "'s \<Rightarrow> packet_batch \<Rightarrow> (string + nat) \<times> packet_batch \<times> 's"
  pso_is_finished :: "'s \<Rightarrow> bool"
  pso_stats :: "'s \<Rightarrow> (string + source_stats option) \<times> 's"

text \<open>A file uses the default \<^verbatim>\<open>is_finished\<close> and \<^verbatim>\<open>stats\<close> of the trait.\<close>

definition pcap_file_source :: "nat \<Rightarrow> pcap_file packet_source" where
  "pcap_file_source capacity = \<lparr>pso_next_batch = file_next_batch capacity, pso_is_finished = (\<lambda>_. True),
     pso_stats = (\<lambda>src. (Inr None, src))\<rparr>"

record 'k event_sink =
  esk_write :: "'k \<Rightarrow> event \<Rightarrow> string + 'k"
  esk_flush :: "'k \<Rightarrow> string + 'k"

fun write_batch :: "'k event_sink \<Rightarrow> 'k \<Rightarrow> event list \<Rightarrow> string + 'k" where
  "write_batch ops k [] = Inr k"
| "write_batch ops k (ev # evs) = try_bind (esk_write ops k ev) (\<lambda>k1. write_batch ops k1 evs)"

text \<open>The JSON lines of a writer that accepts every byte; \<open>render\<close> is \<^verbatim>\<open>serde_json\<close>.\<close>

definition jsonl_sink :: "(event \<Rightarrow> string) \<Rightarrow> string event_sink" where
  "jsonl_sink render = \<lparr>esk_write = (\<lambda>out ev. Inr (out @ render ev @ [char_of (10 :: nat)])), esk_flush = Inr\<rparr>"

fun each_sink :: "('k \<Rightarrow> string + 'k) \<Rightarrow> 'k list \<Rightarrow> string + 'k list" where
  "each_sink f [] = Inr []"
| "each_sink f (k # ks) = try_bind (f k) (\<lambda>k1. try_bind (each_sink f ks) (\<lambda>ks1. Inr (k1 # ks1)))"

end
