(* ===== verification/Pipeline.thy ===== *)
theory Pipeline
  imports Ingest Analyzers Live_Api
begin

text \<open>
  The pipeline of one thread, from \<^verbatim>\<open>src/src/pipeline.rs\<close>, which composes the components: decoding, flow
  table, inventory, content and patterns, protocol parsers, analyzers, view, messages, live API.  The
  reporter of \<^verbatim>\<open>src/src/health.rs\<close> is modelled without its log line.  A \<open>None\<close> is a loop inside a component
  that does not return or a panic.
\<close>

subsection \<open>State\<close>

text \<open>The functions of other packages that the components use.\<close>

record pipeline_env =
  env_slicer :: slicer
  env_b64 :: "bytes \<Rightarrow> string"
  env_to_value :: "stream_message \<Rightarrow> json"
  env_from_value :: "json \<Rightarrow> stream_message option"

record pipeline_config =
  plg_mode :: run_mode
  plg_batch_size :: nat
  plg_health_interval_ms :: nat
  plg_max_flows :: nat
  plg_flow_idle_timeout_ms :: nat
  plg_max_tcp_buffered_bytes :: nat
  plg_max_tcp_out_of_order :: nat
  plg_inventory :: inventory_config
  plg_content :: content_config
  plg_parser :: stream_parser_config
  plg_view :: view_config
  plg_slice :: slice_config

record 'k pipeline =
  pip_config :: pipeline_config
  pip_mode :: run_mode
  pip_analyzers :: "analyzer list"
  pip_sinks :: "'k list"
  pip_flows :: flow_table
  pip_inventory :: stream_inventory
  pip_content :: stream_content
  pip_parser :: parser_layer
  pip_messages :: message_store
  pip_live_content :: "stream_content option"
  pip_pattern :: pattern_engine
  pip_view :: view_state
  pip_live_api :: "live_api option"
  pip_events :: "event list"

definition pipeline_new :: "pipeline_config \<Rightarrow> 'k pipeline" where
  "pipeline_new config = \<lparr>pip_config = config, pip_mode = plg_mode config, pip_analyzers = [], pip_sinks = [],
     pip_flows = flow_table_new (flow_table_config_new (plg_max_flows config) (plg_flow_idle_timeout_ms config)
       (plg_max_tcp_buffered_bytes config) (plg_max_tcp_out_of_order config)),
     pip_inventory = inventory_new (plg_inventory config), pip_content = stream_content_new (plg_content config),
     pip_parser = parser_layer_new (plg_parser config), pip_messages = message_store_new message_store_config_default,
     pip_live_content = None, pip_pattern = pattern_engine_new pattern_disabled, pip_view = view_new (plg_view config),
     pip_live_api = None, pip_events = []\<rparr>"

definition set_pattern_config :: "pattern_config \<Rightarrow> 'k pipeline \<Rightarrow> 'k pipeline" where
  "set_pattern_config config p = p\<lparr>pip_pattern := pattern_engine_new config\<rparr>"

definition register_analyzer :: "analyzer \<Rightarrow> 'k pipeline \<Rightarrow> 'k pipeline" where
  "register_analyzer a p = p\<lparr>pip_analyzers := pip_analyzers p @ [a]\<rparr>"

definition register_sink :: "'k \<Rightarrow> 'k pipeline \<Rightarrow> 'k pipeline" where
  "register_sink k p = p\<lparr>pip_sinks := pip_sinks p @ [k]\<rparr>"

definition attach_live_api :: "live_api \<Rightarrow> 'k pipeline \<Rightarrow> 'k pipeline" where
  "attach_live_api a p = (case install_local_content a (plg_content (pip_config p)) of
     (a1, content) \<Rightarrow> p\<lparr>pip_live_content := Some content, pip_live_api := Some a1\<rparr>)"

text \<open>The content that is in use: the one shared with the live API, or the pipeline's own.\<close>

definition pip_active_content :: "'k pipeline \<Rightarrow> stream_content" where
  "pip_active_content p = (case pip_live_content p of Some content \<Rightarrow> content | None \<Rightarrow> pip_content p)"

definition pip_set_content :: "'k pipeline \<Rightarrow> stream_content \<Rightarrow> 'k pipeline" where
  "pip_set_content p content = (case pip_live_content p of
     Some _ \<Rightarrow> p\<lparr>pip_live_content := Some content\<rparr> | None \<Rightarrow> p\<lparr>pip_content := content\<rparr>)"

definition pip_content_slice ::
  "pipeline_env \<Rightarrow> 'k pipeline \<Rightarrow> slice_request \<Rightarrow> slice_error + content_slice" where
  "pip_content_slice env p request =
     slice_read (env_b64 env) (slice_reader_new (pip_active_content p) (pip_view p) (plg_slice (pip_config p))) request"

definition into_api_parts :: "'k pipeline \<Rightarrow> stream_content \<times> view_state \<times> message_store \<times> slice_config" where
  "into_api_parts p = (pip_content p, pip_view p, pip_messages p, plg_slice (pip_config p))"

subsection \<open>One packet\<close>

definition pip_observe_content ::
  "pipeline_env \<Rightarrow> decoded_packet \<Rightarrow> flow_observation \<Rightarrow> 'k pipeline \<Rightarrow> 'k pipeline option" where
  "pip_observe_content env packet flow p =
     map_option (\<lambda>(content, update). case update of
         None \<Rightarrow> pip_set_content p content
       | Some u \<Rightarrow> (case scan_update (env_b64 env) (pip_pattern p) packet content u (pip_events p) of
           (engine, events) \<Rightarrow> (pip_set_content p content)\<lparr>pip_pattern := engine, pip_events := events\<rparr>))
       (sc_observe_flow (pip_active_content p) packet flow)"

definition pip_observe_datagram ::
  "pipeline_env \<Rightarrow> decoded_packet \<Rightarrow> flow_observation \<Rightarrow> 'k pipeline \<Rightarrow> 'k pipeline" where
  "pip_observe_datagram env packet flow p = (case transport_payload_of packet of
     None \<Rightarrow> p
   | Some t \<Rightarrow> if fo_tcp flow \<noteq> None then p
       else (case pl_observe_datagram (env_to_value env) (env_from_value env) packet flow (tp_bytes t) (pip_events p)
           (pip_parser p) of
         (events, parser) \<Rightarrow> p\<lparr>pip_events := events, pip_parser := parser\<rparr>))"

fun run_analyzers :: "(analyzer \<Rightarrow> event list \<times> analyzer) \<Rightarrow> analyzer list \<Rightarrow> event list \<times> analyzer list" where
  "run_analyzers f [] = ([], [])"
| "run_analyzers f (a # as) = (case f a of (evs, a1) \<Rightarrow>
     (case run_analyzers f as of (more_evs, as1) \<Rightarrow> (evs @ more_evs, a1 # as1)))"

definition pip_run_analyzers :: "(analyzer \<Rightarrow> event list \<times> analyzer) \<Rightarrow> 'k pipeline \<Rightarrow> 'k pipeline" where
  "pip_run_analyzers f p = (case run_analyzers f (pip_analyzers p) of
     (evs, analyzers) \<Rightarrow> p\<lparr>pip_events := pip_events p @ evs, pip_analyzers := analyzers\<rparr>)"

fun pip_observe_chunks ::
  "pipeline_env \<Rightarrow> decoded_packet \<Rightarrow> flow_observation \<Rightarrow> stream_chunk list \<Rightarrow> 'k pipeline \<Rightarrow> 'k pipeline option" where
  "pip_observe_chunks env packet flow [] p = Some p"
| "pip_observe_chunks env packet flow (c # cs) p =
     (case pl_observe_stream (env_to_value env) (env_from_value env) packet flow c (pip_events p) (pip_parser p) of
        None \<Rightarrow> None
      | Some (events, parser) \<Rightarrow> pip_observe_chunks env packet flow cs
          (pip_run_analyzers (analyzer_analyze_stream packet flow c) (p\<lparr>pip_events := events, pip_parser := parser\<rparr>)))"

definition pip_observe_flow ::
  "pipeline_env \<Rightarrow> decoded_packet \<Rightarrow> flow_observation \<Rightarrow> 'k pipeline \<Rightarrow> 'k pipeline option" where
  "pip_observe_flow env packet flow p =
     (case iv_observe_flow (env_b64 env) (pip_inventory p) packet flow None (pip_events p) of
        (inventory, events) \<Rightarrow>
          Option.bind (pip_observe_content env packet flow (p\<lparr>pip_inventory := inventory, pip_events := events\<rparr>))
            (\<lambda>p1. pip_observe_chunks env packet flow (case fo_tcp flow of None \<Rightarrow> [] | Some tcp \<Rightarrow> to_chunks tcp)
              (pip_observe_datagram env packet flow p1)))"

definition process_packet ::
  "pipeline_env \<Rightarrow> 'k pipeline \<Rightarrow> pipeline_stats \<Rightarrow> raw_packet \<Rightarrow> ('k pipeline \<times> pipeline_stats) option" where
  "process_packet env p stats raw = (case pip_mode p of
     Dump \<Rightarrow> Some (p\<lparr>pip_events := pip_events p @ [packet_dump (env_b64 env) raw]\<rparr>, stats)
   | Analyze \<Rightarrow>
       let packet = from_raw (env_slicer env) raw;
           status = decode_status_of packet;
           stats1 = observe_packet_decode_status stats status
       in if is_decode_error status then Some (p, stats1)
          else (case flow_table_observe (pip_flows p) packet of (flows, flow) \<Rightarrow>
            let p1 = p\<lparr>pip_flows := flows\<rparr>
            in map_option (\<lambda>p2. (pip_run_analyzers (analyzer_analyze packet) p2, stats1))
                 (case flow of None \<Rightarrow> Some p1 | Some f \<Rightarrow> pip_observe_flow env packet f p1)))"

subsection \<open>One batch\<close>

fun process_packets ::
  "pipeline_env \<Rightarrow> 'k pipeline \<Rightarrow> pipeline_stats \<Rightarrow> raw_packet list \<Rightarrow> ('k pipeline \<times> pipeline_stats) option" where
  "process_packets env p stats [] = Some (p, stats)"
| "process_packets env p stats (raw # raws) = (case process_packet env p stats raw of
     None \<Rightarrow> None | Some (p1, stats1) \<Rightarrow> process_packets env p1 stats1 raws)"

text \<open>The statistics that the batch copies before the events reach the view.\<close>

definition collect_stats :: "'k pipeline \<Rightarrow> pipeline_stats \<Rightarrow> pipeline_stats" where
  "collect_stats p stats =
     (let s1 = set_flow_table_stats stats (flow_table_stats_of (pip_flows p));
          s2 = set_stream_inventory_stats s1 (inventory_stats_of (pip_inventory p));
          s3 = set_stream_content_stats s2 (content_stats_of (pip_active_content p));
          s4 = set_stream_parser_stats s3 (parser_stats_of (pip_parser p))
      in set_pattern_stats s4 (pattern_stats_of (pip_pattern p)))"

definition publish_batch ::
  "pipeline_env \<Rightarrow> 'k pipeline \<Rightarrow> pipeline_stats \<Rightarrow> ('k pipeline \<times> pipeline_stats) option" where
  "publish_batch env p stats =
     (let p1 = p\<lparr>pip_view := view_observe_events (env_from_value env) (pip_view p) (pip_events p)\<rparr>
      in Option.bind (xm_observe_events (env_from_value env) (pip_messages p1) (pip_events p1)) (\<lambda>messages.
         let p2 = p1\<lparr>pip_messages := messages\<rparr>;
             stats1 = set_stream_message_stats (set_stream_view_stats (collect_stats p stats) (view_stats_of (pip_view p2)))
               (xm_stats (pip_messages p2))
         in case pip_live_api p2 of
              None \<Rightarrow> Some (p2, stats1)
            | Some a \<Rightarrow> map_option (\<lambda>a1. (p2\<lparr>pip_live_api := Some a1\<rparr>, stats1))
                (publish_events (env_from_value env) a (pip_events p2) stats1)))"

definition process_batch ::
  "pipeline_env \<Rightarrow> 'k pipeline \<Rightarrow> pipeline_stats \<Rightarrow> packet_batch \<Rightarrow> ('k pipeline \<times> pipeline_stats) option" where
  "process_batch env p stats batch =
     (case process_packets env (p\<lparr>pip_events := []\<rparr>) stats (pb_packets batch) of
        None \<Rightarrow> None | Some (p1, stats1) \<Rightarrow> publish_batch env p1 stats1)"

subsection \<open>The health reporter\<close>

text \<open>The clock counts milliseconds.\<close>

record health_totals =
  htt_packets :: nat
  htt_bytes :: nat
  htt_events :: nat
  htt_source :: source_stats

definition health_totals_from_stats :: "pipeline_stats \<Rightarrow> health_totals" where
  "health_totals_from_stats s =
     \<lparr>htt_packets = ps_packets s, htt_bytes = ps_bytes s, htt_events = ps_events s, htt_source = ps_source s\<rparr>"

record health_reporter =
  hrp_interval_ms :: "nat option"
  hrp_previous :: health_totals
  hrp_previous_at :: nat

definition health_reporter_new :: "nat \<Rightarrow> nat \<Rightarrow> health_reporter" where
  "health_reporter_new interval_ms now = \<lparr>hrp_interval_ms = (if interval_ms \<noteq> 0 then Some interval_ms else None),
     hrp_previous = \<lparr>htt_packets = 0, htt_bytes = 0, htt_events = 0, htt_source = source_stats_default\<rparr>,
     hrp_previous_at = now\<rparr>"

definition maybe_report ::
  "'s packet_source \<Rightarrow> nat \<Rightarrow> health_reporter \<Rightarrow> pipeline_stats \<Rightarrow> 's \<Rightarrow>
   (string + bool) \<times> health_reporter \<times> pipeline_stats \<times> 's" where
  "maybe_report ops now r stats src = (case hrp_interval_ms r of
     None \<Rightarrow> (Inr False, r, stats, src)
   | Some interval \<Rightarrow>
       if now - hrp_previous_at r < interval then (Inr False, r, stats, src)
       else (case pso_stats ops src of
         (Inl e, src1) \<Rightarrow> (Inl e, r, stats, src1)
       | (Inr answer, src1) \<Rightarrow>
           let stats1 = (case answer of None \<Rightarrow> stats | Some x \<Rightarrow> set_source_stats stats x)
           in (Inr True, r\<lparr>hrp_previous := health_totals_from_stats stats1, hrp_previous_at := now\<rparr>, stats1, src1)))"

subsection \<open>A run\<close>

text \<open>What the loop owns; \<open>rn_clock\<close> is the clock, one reading for each turn.\<close>

record ('s, 'k) run_state =
  rn_pipeline :: "'k pipeline"
  rn_stats :: pipeline_stats
  rn_batch :: packet_batch
  rn_health :: health_reporter
  rn_source :: 's
  rn_clock :: "nat list"

datatype ('s, 'k) run_turn = RunFailed string | RunOver "('s, 'k) run_state" | RunOn "('s, 'k) run_state"

definition count_batch :: "packet_batch \<Rightarrow> pipeline_stats \<Rightarrow> pipeline_stats" where
  "count_batch batch s = s\<lparr>ps_batches := sat_add (ps_batches s) 1,
     ps_packets := sat_add (ps_packets s) (length (pb_packets batch)),
     ps_bytes := sat_add (ps_bytes s) (pb_byte_len batch)\<rparr>"

definition turn_clock :: "nat list \<Rightarrow> nat" where
  "turn_clock ns = (case ns of [] \<Rightarrow> 0 | n # _ \<Rightarrow> n)"

text \<open>The end of a turn: the report, whose failure ends the run.\<close>

definition report_turn ::
  "'s packet_source \<Rightarrow> (('s, 'k) run_state \<Rightarrow> ('s, 'k) run_turn) \<Rightarrow> ('s, 'k) run_state \<Rightarrow> ('s, 'k) run_turn" where
  "report_turn ops k st = (case maybe_report ops (turn_clock (rn_clock st)) (rn_health st) (rn_stats st) (rn_source st) of
     (Inl e, _) \<Rightarrow> RunFailed e
   | (Inr _, health, stats, src) \<Rightarrow>
       k (st\<lparr>rn_health := health, rn_stats := stats, rn_source := src, rn_clock := tl (rn_clock st)\<rparr>))"

definition run_turn_of ::
  "pipeline_env \<Rightarrow> 'k event_sink \<Rightarrow> 's packet_source \<Rightarrow> ('s, 'k) run_state \<Rightarrow> ('s, 'k) run_turn option" where
  "run_turn_of env sink ops st = (case pso_next_batch ops (rn_source st) (rn_batch st) of
     (Inl e, _) \<Rightarrow> Some (RunFailed e)
   | (Inr read, batch, src) \<Rightarrow>
       let st1 = st\<lparr>rn_batch := batch, rn_source := src\<rparr> in
       if read = 0
       then Some (report_turn ops (\<lambda>s. if pso_is_finished ops (rn_source s) then RunOver s else RunOn s) st1)
       else map_option (\<lambda>(p, stats).
           case each_sink (\<lambda>k. write_batch sink k (pip_events p)) (pip_sinks p) of
             Inl e \<Rightarrow> RunFailed e
           | Inr sinks \<Rightarrow> report_turn ops RunOn (st1\<lparr>rn_batch := snd (batch_drain batch), rn_pipeline := p\<lparr>pip_sinks := sinks\<rparr>,
               rn_stats := stats\<lparr>ps_events := sat_add (ps_events stats) (length (pip_events p))\<rparr>\<rparr>))
         (process_batch env (rn_pipeline st1) (count_batch batch (rn_stats st1)) batch))"

text \<open>The loop; \<open>None\<close> when \<open>fuel\<close> turns were not enough.\<close>

fun run_loop ::
  "pipeline_env \<Rightarrow> 'k event_sink \<Rightarrow> 's packet_source \<Rightarrow> nat \<Rightarrow> ('s, 'k) run_state \<Rightarrow> (string + ('s, 'k) run_state) option" where
  "run_loop env sink ops 0 st = None"
| "run_loop env sink ops (Suc fuel) st = (case run_turn_of env sink ops st of
     None \<Rightarrow> None
   | Some (RunFailed e) \<Rightarrow> Some (Inl e)
   | Some (RunOver st1) \<Rightarrow> Some (Inr st1)
   | Some (RunOn st1) \<Rightarrow> run_loop env sink ops fuel st1)"

text \<open>After the loop: the source is asked for its counters before the sinks are flushed.\<close>

definition finish_run ::
  "'k event_sink \<Rightarrow> 's packet_source \<Rightarrow> ('s, 'k) run_state \<Rightarrow> string + ('k pipeline \<times> pipeline_stats)" where
  "finish_run sink ops st = (case pso_stats ops (rn_source st) of (answer, _) \<Rightarrow>
     try_bind (each_sink (esk_flush sink) (pip_sinks (rn_pipeline st))) (\<lambda>sinks.
     try_bind answer (\<lambda>source.
       let p = (rn_pipeline st)\<lparr>pip_sinks := sinks\<rparr>;
           s1 = (case source of None \<Rightarrow> rn_stats st | Some x \<Rightarrow> set_source_stats (rn_stats st) x);
           s2 = set_stream_view_stats s1 (view_stats_of (pip_view p))
       in Inr (p\<lparr>pip_live_api := map_option (\<lambda>a. mark_completed a s2) (pip_live_api p)\<rparr>, s2))))"

definition run_start :: "'k pipeline \<Rightarrow> 's \<Rightarrow> nat list \<Rightarrow> ('s, 'k) run_state" where
  "run_start p src clock = \<lparr>rn_pipeline = p, rn_stats = pipeline_stats_default\<lparr>ps_workers := 1\<rparr>, rn_batch = batch_new,
     rn_health = health_reporter_new (plg_health_interval_ms (pip_config p)) (turn_clock clock), rn_source = src,
     rn_clock = tl clock\<rparr>"

definition run_with_source ::
  "pipeline_env \<Rightarrow> 'k event_sink \<Rightarrow> 's packet_source \<Rightarrow> nat \<Rightarrow> 'k pipeline \<Rightarrow> 's \<Rightarrow> nat list \<Rightarrow>
   (string + ('k pipeline \<times> pipeline_stats)) option" where
  "run_with_source env sink ops fuel p src clock =
     map_option (\<lambda>r. try_bind r (finish_run sink ops)) (run_loop env sink ops fuel (run_start p src clock))"

end
