(* ===== verification/Delivery.thy ===== *)
theory Delivery
  imports Flow_Table Content_Correctness
begin

text \<open>
  Conservation of payload: what the flow table hands on, chunk by chunk, and what its buffers still hold is
  at most what it was given.  The bound keeps the byte counters behind the flow table, and with them the
  loops of the content store, within 64 bits.
\<close>

subsection \<open>One segment\<close>

lemma into_stream_chunk_len:
  "into_stream_chunk s expected d = Some c \<Longrightarrow> chunk_len c \<le> length (bs_bytes s)"
  by (auto simp: into_stream_chunk_def chunk_len_def Let_def split: if_splits)

lemma push_current_len:
  "stream_chunk_bytes (push_current_stream_chunk [] d seg payload src) = length payload"
  by (simp add: push_current_stream_chunk_def stream_chunk_bytes_def chunk_len_def Let_def)

lemma push_trimmed_len:
  "stream_chunk_bytes (push_trimmed_current_stream_chunk [] d seg payload expected) \<le> length payload"
  by (auto simp: push_trimmed_current_stream_chunk_def stream_chunk_bytes_def chunk_len_def Let_def)

lemma take_segment_weight:
  assumes "i < length (td_buffered st)"
  shows "stream_chunk_bytes (push_taken (td_buffered st ! i) expected d chunks)
      + seg_bytes_sum (td_buffered (take_segment st expected i))
    \<le> stream_chunk_bytes chunks + seg_bytes_sum (td_buffered st)"
proof -
  have "stream_chunk_bytes (push_taken (td_buffered st ! i) expected d chunks)
      \<le> stream_chunk_bytes chunks + length (bs_bytes (td_buffered st ! i))"
    by (auto simp: push_taken_def stream_chunk_bytes_def dest: into_stream_chunk_len split: option.splits)
  then show ?thesis
    using sum_list_remove_at[OF assms, of "length \<circ> bs_bytes"]
    by (simp add: take_segment_def Let_def seg_bytes_sum_def)
qed

lemma consume_weight:
  assumes "consume_contiguous_buffer st d chunks adv = (st', chunks', adv')"
  shows "stream_chunk_bytes chunks' + seg_bytes_sum (td_buffered st')
    \<le> stream_chunk_bytes chunks + seg_bytes_sum (td_buffered st)"
  by (rule consume_preserves[OF assms, where P = "\<lambda>s cs. stream_chunk_bytes cs + seg_bytes_sum (td_buffered s)
      \<le> stream_chunk_bytes chunks + seg_bytes_sum (td_buffered st)"])
    (auto intro: order.trans[OF take_segment_weight])

lemma buffer_weight:
  assumes "buffer_out_of_order st seg payload config fb = (st', outcome)"
  shows "seg_bytes_sum (td_buffered st') \<le> seg_bytes_sum (td_buffered st) + length payload"
  using assms by (auto simp: buffer_out_of_order_def Let_def seg_bytes_sum_def sum_list_insert_at
      split: if_splits option.splits)

lemma sequenced_weight:
  assumes "td_sequenced st d seg payload config fb expected stats = (st', stats', status, chunks)"
  shows "stream_chunk_bytes chunks + seg_bytes_sum (td_buffered st') \<le> seg_bytes_sum (td_buffered st) + length payload"
proof -
  have nil: "stream_chunk_bytes [] = 0" by (simp add: stream_chunk_bytes_def)
  consider "seq_eq (seg_seq seg) expected" | "\<not> seq_eq (seg_seq seg) expected" "seq_before (seg_seq seg) expected"
    | "\<not> seq_eq (seg_seq seg) expected" "\<not> seq_before (seg_seq seg) expected" by blast
  then show ?thesis
  proof cases
    case 1
    with assms show ?thesis
      by (auto simp: td_sequenced_def td_in_order_def Let_def push_current_len dest!: consume_weight split: prod.splits)
  next
    case 2
    with assms show ?thesis
      using push_trimmed_len[of d seg payload expected]
      by (auto simp: td_sequenced_def td_overlapping_def note_retransmission_def Let_def nil
          dest!: consume_weight split: prod.splits if_splits)
  next
    case 3
    obtain s outcome where buf: "buffer_out_of_order st seg payload config fb = (s, outcome)" by fastforce
    with 3 assms have "td_buffered st' = td_buffered s \<and> chunks = []"
      by (auto simp: td_sequenced_def td_ahead_def note_retransmission_def Let_def split: buffer_outcome.splits)
    then show ?thesis using buffer_weight[OF buf] by (simp add: nil)
  qed
qed

lemma td_observe_weight:
  assumes "td_observe st d seg payload config fb stats = (st', stats', obs)"
  shows "stream_chunk_bytes (to_chunks obs) + seg_bytes_sum (td_buffered st')
    \<le> seg_bytes_sum (td_buffered st) + length payload"
  using assms
proof (cases rule: td_observe_cases)
  case idle
  then show ?thesis by (simp add: stream_chunk_bytes_def)
next
  case (first st2)
  then show ?thesis
    by (auto simp: td_first_segment_def Let_def push_current_len dest!: consume_weight split: prod.splits)
next
  case (sequenced st2 expected)
  then show ?thesis using sequenced_weight[OF sequenced(7)] by simp
qed

subsection \<open>A flow and the table\<close>

definition tf_weight :: "tcp_flow_state \<Rightarrow> nat" where
  "tf_weight tf = seg_bytes_sum (td_buffered (dir_get (tf_directions tf) AToB))
     + seg_bytes_sum (td_buffered (dir_get (tf_directions tf) BToA))"

lemma tf_weight_split:
  "tf_weight tf = seg_bytes_sum (td_buffered (dir_get (tf_directions tf) (opposite d)))
     + seg_bytes_sum (td_buffered (dir_get (tf_directions tf) d))"
  by (cases d) (simp_all add: tf_weight_def)

lemma tf_observe_weight:
  assumes "tf_observe tf d seg payload config stats = (tf', stats', obs)"
  shows "stream_chunk_bytes (to_chunks obs) + tf_weight tf' \<le> tf_weight tf + length payload"
proof -
  obtain st s1 s2 where step: "td_observe (dir_get (tf_directions tf) d) d seg payload config
        (tf_buffered_bytes tf) s1 = (st, s2, obs)"
    and dirs: "tf_directions tf' = dir_upd d st (tf_directions tf)"
    by (rule tf_observe_directions[OF assms])
  show ?thesis
    using td_observe_weight[OF step] tf_weight_split[of tf' d] tf_weight_split[of tf d] by (simp add: dirs)
qed

definition entry_weight :: "flow_entry \<Rightarrow> nat" where
  "entry_weight e = (case fe_transport e of TcpState tf \<Rightarrow> tf_weight tf | Datagram \<Rightarrow> 0)"

definition table_weight :: "flow_table \<Rightarrow> nat" where
  "table_weight ft = tbl_sum entry_weight (ft_entries ft)"

lemma flow_entry_new_weight [simp]: "entry_weight (flow_entry_new now protocol) = 0"
proof -
  have "dir_get (td_default, td_default) d = td_default" for d by (cases d) auto
  then show ?thesis
    by (simp add: entry_weight_def flow_entry_new_def tf_weight_def tf_default_def td_default_def seg_bytes_sum_def
        split: transport_protocol.splits)
qed

text \<open>The bytes an observation of the table carries on to the components behind it.\<close>

definition carried :: "decoded_packet \<Rightarrow> flow_observation \<Rightarrow> nat" where
  "carried packet flow = both_length (flow_bytes packet flow)"

definition payload_len :: "decoded_packet \<Rightarrow> nat" where
  "payload_len packet = (case transport_payload_of packet of None \<Rightarrow> 0 | Some t \<Rightarrow> length (tp_bytes t))"

lemma both_length_chunks: "both_length (Content_Correctness.chunk_bytes cs) = stream_chunk_bytes cs"
  by (induction cs) (simp_all add: both_length_chunk_Cons stream_chunk_bytes_def chunk_len_def,
    simp add: both_length_def Content_Correctness.chunk_bytes_def)

lemma carried_tcp: "fo_tcp flow = Some tcp \<Longrightarrow> carried packet flow = stream_chunk_bytes (to_chunks tcp)"
  by (simp add: carried_def flow_bytes_def both_length_chunks)

lemma carried_datagram: "fo_tcp flow = None \<Longrightarrow> carried packet flow = payload_len packet"
  by (cases "fo_direction flow") (auto simp: carried_def flow_bytes_def both_length_def payload_len_def split: option.splits)

lemma fe_observe_weight:
  assumes "fe_observe e (packet_of packet transport d) config stats = (e', stats', tcp)"
    and "transport_payload_of packet = Some transport"
  shows "(case tcp of None \<Rightarrow> 0 | Some obs \<Rightarrow> stream_chunk_bytes (to_chunks obs)) + entry_weight e'
      \<le> entry_weight e + (case tcp of None \<Rightarrow> 0 | Some _ \<Rightarrow> payload_len packet)"
  using assms tf_observe_weight
  by (fastforce simp: fe_observe_def entry_weight_def Let_def packet_of_def payload_len_def
      split: transport_state.splits option.splits prod.splits)

lemma evict_idle_weight: "table_weight (evict_idle ft now) \<le> table_weight ft"
proof -
  have "sum_list (map f (filter P xs)) \<le> sum_list (map f xs)" for f :: "flow_key \<times> flow_entry \<Rightarrow> nat" and P xs
    by (induction xs) auto
  then show ?thesis by (simp add: table_weight_def evict_idle_def Let_def tbl_sum_def)
qed

lemma evict_oldest_weight: "table_weight (evict_oldest ft) \<le> table_weight ft"
proof -
  have "sum_list (map f (AList.delete k xs)) \<le> sum_list (map f xs)" for f :: "flow_key \<times> flow_entry \<Rightarrow> nat" and k xs
    by (induction xs) auto
  then show ?thesis by (simp add: table_weight_def evict_oldest_def tbl_sum_def split: option.splits)
qed

lemma make_room_weight: "table_weight (make_room ft now) \<le> table_weight ft"
  using evict_idle_weight[of ft now] evict_oldest_weight[of "evict_idle ft now"] by (simp add: make_room_def Let_def)

lemma table_weight_update:
  assumes "tbl_ok (ft_entries ft)"
  shows "table_weight (ft\<lparr>ft_entries := AList.update k e (ft_entries ft), ft_stats := s\<rparr>)
      + (case map_of (ft_entries ft) k of None \<Rightarrow> 0 | Some e0 \<Rightarrow> entry_weight e0)
    = table_weight ft + entry_weight e"
  using tbl_sum_update_present[OF assms, of k _ entry_weight e] tbl_sum_update_fresh[of "ft_entries ft" k entry_weight e]
  by (auto simp: table_weight_def split: option.splits)

definition observed_bytes :: "decoded_packet \<Rightarrow> flow_observation option \<Rightarrow> nat" where
  "observed_bytes packet obs = (case obs of None \<Rightarrow> 0 | Some flow \<Rightarrow> carried packet flow)"

lemma observed_tcp_case:
  assumes "(case tcp of None \<Rightarrow> 0 | Some obs \<Rightarrow> stream_chunk_bytes (to_chunks obs)) + x
      \<le> y + (case tcp of None \<Rightarrow> 0 | Some _ \<Rightarrow> payload_len packet)" "fo_tcp flow = tcp"
  shows "carried packet flow + x \<le> y + payload_len packet"
  using assms by (cases tcp) (auto simp: carried_tcp carried_datagram)

lemma observe_with_route_weight:
  assumes ok: "ft_ok config ft" and step: "observe_with_route ft packet route = (ft', obs)"
  shows "observed_bytes packet obs + table_weight ft' \<le> table_weight ft + payload_len packet"
proof -
  define ft1 where "ft1 = ft\<lparr>ft_observed := sat_add (ft_observed ft) 1\<rparr>"
  define ft2 where "ft2 = (if should_evict ft1 then evict_idle ft1 (timestamp_us (dp_timestamp packet)) else ft1)"
  have "table_weight ft1 = table_weight ft" "ft_ok config ft1"
    using ok by (simp_all add: ft1_def table_weight_def ft_ok_def)
  then have w2: "table_weight ft2 \<le> table_weight ft" and ok2: "ft_ok config ft2"
    using evict_idle_weight[of ft1] by (auto simp: ft2_def evict_idle_ok)
  have unfold: "(case transport_payload_of packet of None \<Rightarrow> (ft2, None)
     | Some transport \<Rightarrow> (case map_of (ft_entries ft2) (fr_key route) of
         Some entry \<Rightarrow> observe_known ft2 packet transport route entry
       | None \<Rightarrow> observe_new ft2 packet transport route)) = (ft', obs)"
    using step by (simp only: observe_with_route_def Let_def ft1_def ft2_def)
  show ?thesis
  proof (cases "transport_payload_of packet")
    case None
    then show ?thesis using unfold w2 by (auto simp: observed_bytes_def)
  next
    case (Some transport)
    note t = this
    show ?thesis
    proof (cases "map_of (ft_entries ft2) (fr_key route)")
      case (Some entry)
      obtain e s tcp where fe: "fe_observe entry (packet_of packet transport (fr_direction route)) (ft_config ft2)
          (ft_stats ft2) = (e, s, tcp)" by (metis prod_cases3)
      have "observe_known ft2 packet transport route entry = (ft', obs)"
        using unfold t Some by simp
      then have ft': "ft' = ft2\<lparr>ft_entries := AList.update (fr_key route) e (ft_entries ft2), ft_stats := s\<rparr>"
        and obs: "\<exists>flow. obs = Some flow \<and> fo_tcp flow = tcp"
        by (auto simp: observe_known_def fe)
      have "table_weight ft' + entry_weight entry = table_weight ft2 + entry_weight e"
        using table_weight_update[of ft2 s "fr_key route" e] ok2 Some by (simp add: ft' ft_ok_def)
      with fe_observe_weight[OF fe t] have
        "(case tcp of None \<Rightarrow> 0 | Some obs \<Rightarrow> stream_chunk_bytes (to_chunks obs)) + table_weight ft'
          \<le> table_weight ft2 + (case tcp of None \<Rightarrow> 0 | Some _ \<Rightarrow> payload_len packet)" by linarith
      then show ?thesis using obs observed_tcp_case w2 by (fastforce simp: observed_bytes_def)
    next
      case None
      define ft3 where "ft3 = make_room ft2 (timestamp_us (dp_timestamp packet))"
      have w3: "table_weight ft3 \<le> table_weight ft2" by (simp add: ft3_def make_room_weight)
      have ok3: "ft_ok config ft3" by (simp add: ft3_def make_room_ok ok2)
      have new: "observe_new ft2 packet transport route = (ft', obs)"
        using unfold t None by simp
      show ?thesis
      proof (cases "length (ft_entries ft3) \<ge> fc_max_flows (ft_config ft3)")
        case True
        then show ?thesis using new w2 w3
          by (auto simp: observe_new_def Let_def ft3_def[symmetric] observed_bytes_def table_weight_def)
      next
        case False
        let ?e0 = "flow_entry_new (timestamp_us (dp_timestamp packet)) (fk_protocol (fr_key route))"
        obtain e s tcp where fe: "fe_observe ?e0 (packet_of packet transport (fr_direction route)) (ft_config ft3)
            (ft_stats ft3) = (e, s, tcp)" by (metis prod_cases3)
        have ft': "ft' = ft3\<lparr>ft_entries := AList.update (fr_key route) e (ft_entries ft3),
            ft_stats := s\<lparr>fs_created_flows := sat_add (fs_created_flows s) 1\<rparr>\<rparr>"
          and obs: "\<exists>flow. obs = Some flow \<and> fo_tcp flow = tcp"
          using new False by (auto simp: observe_new_def Let_def ft3_def[symmetric] fe)
        have "table_weight ft' \<le> table_weight ft3 + entry_weight e"
          using table_weight_update[of ft3 "s\<lparr>fs_created_flows := sat_add (fs_created_flows s) 1\<rparr>" "fr_key route" e] ok3
          by (simp add: ft' ft_ok_def)
        with fe_observe_weight[OF fe t] have
          "(case tcp of None \<Rightarrow> 0 | Some obs \<Rightarrow> stream_chunk_bytes (to_chunks obs)) + table_weight ft'
            \<le> table_weight ft3 + (case tcp of None \<Rightarrow> 0 | Some _ \<Rightarrow> payload_len packet)" by simp
        then show ?thesis using obs observed_tcp_case w2 w3 by (fastforce simp: observed_bytes_def)
      qed
    qed
  qed
qed

end
