(* ===== verification/Pipeline_Samples.thy ===== *)
theory Pipeline_Samples
  imports Pipeline
begin

text \<open>Concrete instances of the external functions and of a configuration, on which the witnesses evaluate.\<close>

definition sample_env :: pipeline_env where
  "sample_env = \<lparr>env_slicer = \<lparr>from_ethernet = (\<lambda>_. Inl ''len''), from_linux_sll = (\<lambda>_. Inl ''len''),
       from_ip = (\<lambda>_. Inl ''len'')\<rparr>,
     env_b64 = (\<lambda>_. ''''), env_to_value = (\<lambda>_. JNull), env_from_value = (\<lambda>_. None)\<rparr>"

definition sample_pipeline_config :: pipeline_config where
  "sample_pipeline_config = \<lparr>plg_mode = Analyze, plg_batch_size = 2, plg_health_interval_ms = 0, plg_max_flows = 4,
     plg_flow_idle_timeout_ms = 1000, plg_max_tcp_buffered_bytes = 100, plg_max_tcp_out_of_order = 4,
     plg_inventory = inventory_disabled, plg_content = content_disabled, plg_parser = stream_parser_disabled,
     plg_view = view_config_disabled, plg_slice = slice_config_default\<rparr>"

end
