(* ===== verification/Pipeline_Correctness.thy ===== *)
theory Pipeline_Correctness
  imports Pipeline Delivery Pipeline_Samples
begin

text \<open>
  The composition of the components: a run over a capture file returns, with every packet counted, every
  component within its limits, and every event written to the sinks.
\<close>

subsection \<open>The content store under a budget\<close>

text \<open>At most \<open>m\<close> payload bytes have been handed to the store.\<close>

definition content_fit :: "content_config \<Rightarrow> nat \<Rightarrow> stream_content \<Rightarrow> bool" where
  "content_fit c m sc \<longleftrightarrow> sc_config sc = content_normalized c
     \<and> (if cc_enabled (content_normalized c) then \<exists>H. sc_ok H sc \<and> (\<forall>k. both_length (H k) \<le> m)
        else sc = stream_content_new c)"

lemma content_fit_new: "content_fit c 0 (stream_content_new c)"
  by (auto simp: content_fit_def stream_content_new_def sc_ok_def sc_core_def content_normalized_ok both_length_def
      intro!: exI[of _ "\<lambda>_ _. []"])

lemma content_fit_mono: "content_fit c m sc \<Longrightarrow> m \<le> n \<Longrightarrow> content_fit c n sc"
  by (auto simp: content_fit_def split: if_splits) (meson order_trans)

lemma content_fit_step:
  assumes fit: "content_fit c m sc" and room: "cc_max_total_bytes (content_normalized c) + (m + carried packet flow) \<le> u64_max"
  shows "\<exists>sc' u. sc_observe_flow sc packet flow = Some (sc', u) \<and> content_fit c (m + carried packet flow) sc'"
proof (cases "cc_enabled (sc_config sc) \<and> flow_has_content packet flow")
  case False
  then have "sc_observe_flow sc packet flow = Some (sc, None)" by (simp add: sc_observe_flow_def)
  then show ?thesis using content_fit_mono[OF fit, of "m + carried packet flow"] by simp
next
  case True
  let ?N = "flow_bytes packet flow"
  have conf: "sc_config sc = content_normalized c" using fit by (simp add: content_fit_def)
  then obtain H where H: "sc_ok H sc" "\<forall>k. both_length (H k) \<le> m"
    using fit True by (auto simp: content_fit_def)
  have N: "both_length ?N = carried packet flow" by (simp add: carried_def)
  have "both_length (H (fo_key flow)) \<le> m" using H(2) by blast
  then have fits: "fits (add_all (H (fo_key flow)) ?N)" using room N by (simp add: fits_add_all)
  have small: "sc_stored_bytes sc + both_length ?N \<le> u64_max" using H(1) room N conf by (simp add: sc_ok_def)
  obtain sc' u H' where step: "sc_observe_flow sc packet flow = Some (sc', u)" "sc_ok H' sc'"
    "history_step (fo_key flow) ?N H H'" "sc_config sc' = sc_config sc"
    by (rule sc_observe_flow_core[OF H(1) fits small]) (use True in auto)
  have add: "both_length (add_all (H k) ?N) = both_length (H k) + carried packet flow" for k
    using N by (simp add: both_length_def add_all_def)
  have "both_length (H' k) \<le> m + carried packet flow" for k
    using step(3) H(2) add N unfolding history_step_def
    by (metis add_le_mono1 fun_upd_other fun_upd_same le_add2 trans_le_add1)
  then show ?thesis using step conf True by (auto simp: content_fit_def)
qed

subsection \<open>Frames\<close>

text \<open>What the observation of a flow does not touch, and the invariants of the rest.\<close>

definition flow_frame :: "'k pipeline \<Rightarrow> run_mode \<times> flow_table \<times> message_store \<times> live_api option \<times> 'k list \<times> view_state \<times> pipeline_config" where
  "flow_frame p = (pip_mode p, pip_flows p, pip_messages p, pip_live_api p, pip_sinks p, pip_view p, pip_config p)"

definition parser_fit :: "'k pipeline \<Rightarrow> bool" where
  "parser_fit p \<longleftrightarrow> analyzer_ok (pl_registry (pip_parser p))"

lemma active_set_content [simp]: "pip_active_content (pip_set_content p sc) = sc"
  by (auto simp: pip_active_content_def pip_set_content_def split: option.split)

lemma flow_frame_simps [simp]:
  "flow_frame (pip_set_content p sc) = flow_frame p"
  "flow_frame (p\<lparr>pip_inventory := i\<rparr>) = flow_frame p"
  "flow_frame (p\<lparr>pip_events := evs\<rparr>) = flow_frame p"
  "flow_frame (p\<lparr>pip_pattern := g\<rparr>) = flow_frame p"
  "flow_frame (p\<lparr>pip_parser := pl\<rparr>) = flow_frame p"
  "flow_frame (p\<lparr>pip_analyzers := as\<rparr>) = flow_frame p"
  by (auto simp: flow_frame_def pip_set_content_def split: option.split)

lemma active_simps [simp]:
  "pip_active_content (p\<lparr>pip_inventory := i\<rparr>) = pip_active_content p"
  "pip_active_content (p\<lparr>pip_events := evs\<rparr>) = pip_active_content p"
  "pip_active_content (p\<lparr>pip_pattern := g\<rparr>) = pip_active_content p"
  "pip_active_content (p\<lparr>pip_parser := pl\<rparr>) = pip_active_content p"
  "pip_active_content (p\<lparr>pip_analyzers := as\<rparr>) = pip_active_content p"
  "pip_active_content (p\<lparr>pip_flows := ft\<rparr>) = pip_active_content p"
  "pip_active_content (p\<lparr>pip_view := v\<rparr>) = pip_active_content p"
  "pip_active_content (p\<lparr>pip_messages := ms\<rparr>) = pip_active_content p"
  "pip_active_content (p\<lparr>pip_live_api := a\<rparr>) = pip_active_content p"
  "pip_active_content (p\<lparr>pip_sinks := ks\<rparr>) = pip_active_content p"
  by (auto simp: pip_active_content_def split: option.split)

lemma parser_fit_simps [simp]:
  "parser_fit (pip_set_content p sc) = parser_fit p"
  "parser_fit (p\<lparr>pip_inventory := i\<rparr>) = parser_fit p"
  "parser_fit (p\<lparr>pip_events := evs\<rparr>) = parser_fit p"
  "parser_fit (p\<lparr>pip_pattern := g\<rparr>) = parser_fit p"
  "parser_fit (p\<lparr>pip_analyzers := as\<rparr>) = parser_fit p"
  "parser_fit (p\<lparr>pip_flows := ft\<rparr>) = parser_fit p"
  "parser_fit (p\<lparr>pip_view := v\<rparr>) = parser_fit p"
  "parser_fit (p\<lparr>pip_messages := ms\<rparr>) = parser_fit p"
  "parser_fit (p\<lparr>pip_live_api := a\<rparr>) = parser_fit p"
  "parser_fit (p\<lparr>pip_sinks := ks\<rparr>) = parser_fit p"
  by (auto simp: parser_fit_def pip_set_content_def split: option.split)

lemma run_analyzers_frame [simp]:
  "flow_frame (pip_run_analyzers f p) = flow_frame p"
  "pip_active_content (pip_run_analyzers f p) = pip_active_content p"
  "parser_fit (pip_run_analyzers f p) = parser_fit p"
  by (auto simp: pip_run_analyzers_def split: prod.split)

subsection \<open>One packet\<close>

lemma observe_content_total:
  assumes "content_fit c m (pip_active_content p)" "parser_fit p"
    and "cc_max_total_bytes (content_normalized c) + (m + carried packet flow) \<le> u64_max"
  shows "\<exists>p'. pip_observe_content env packet flow p = Some p' \<and> flow_frame p' = flow_frame p \<and> parser_fit p'
    \<and> content_fit c (m + carried packet flow) (pip_active_content p')"
proof -
  obtain sc u where "sc_observe_flow (pip_active_content p) packet flow = Some (sc, u)"
    "content_fit c (m + carried packet flow) sc"
    using content_fit_step[OF assms(1,3)] by blast
  then show ?thesis using assms(2) by (cases u) (auto simp: pip_observe_content_def split: prod.split)
qed

lemma after_analysis_registry: "after_analysis from_value events pl r = (evs, pl') \<Longrightarrow> pl_registry pl' = snd r"
  by (auto simp: after_analysis_def apply_event_cap_def refresh_state_stats_def Let_def
      split: prod.splits if_split_asm cong: if_cong)

lemma observe_datagram_frame:
  "flow_frame (pip_observe_datagram env packet flow p) = flow_frame p"
  "pip_active_content (pip_observe_datagram env packet flow p) = pip_active_content p"
  by (auto simp: pip_observe_datagram_def split: option.split prod.split)

lemma observe_datagram_fit:
  assumes "parser_fit p"
  shows "parser_fit (pip_observe_datagram env packet flow p)"
proof -
  have "analyzer_ok (pl_registry pl')"
    if "pl_observe_datagram to_value from_value packet flow payload events (pip_parser p) = (evs, pl')"
    for to_value from_value payload events evs pl'
    using that assms emit_dns_kept[of "pl_registry (pip_parser p)" to_value packet "fo_key flow" "fo_direction flow" payload]
    by (auto simp: pl_observe_datagram_def parser_fit_def analyzer_kept_def count_chunk_def Let_def
        dest: after_analysis_registry split: if_splits)
  then show ?thesis using assms
    by (auto simp: pip_observe_datagram_def parser_fit_def split: option.split prod.split)
qed

lemma observe_stream_total:
  assumes "analyzer_ok (pl_registry pl)"
  shows "\<exists>evs pl'. pl_observe_stream to_value from_value packet flow chunk events pl = Some (evs, pl')
    \<and> analyzer_ok (pl_registry pl')"
proof (cases "\<not> plc_enabled (pl_config pl) \<or> as_slice (ch_bytes chunk) = []")
  case True
  then show ?thesis using assms by (simp add: pl_observe_stream_def)
next
  case False
  define pl1 where "pl1 = count_chunk (chunk_len chunk) pl"
  have reg: "pl_registry pl1 = pl_registry pl" by (simp add: pl1_def count_chunk_def)
  obtain evs ma where step: "emit_messages to_value packet (fo_key flow) chunk (pl_registry pl) = Some (evs, ma)"
    "analyzer_ok ma"
    using analyzer_step_total[OF assms, of to_value "StreamInput packet (fo_key flow) chunk"] assms
    by (auto simp: analyzer_kept_def)
  obtain evs' pl' where after: "after_analysis from_value events pl1 (evs, ma) = (evs', pl')" by fastforce
  have "pl_observe_stream to_value from_value packet flow chunk events pl = Some (evs', pl')"
    using False step(1) reg after by (simp add: pl_observe_stream_def pl1_def Let_def)
  then show ?thesis using after_analysis_registry[OF after] step(2) by simp
qed

lemma observe_chunks_total:
  "parser_fit p \<Longrightarrow> \<exists>p'. pip_observe_chunks env packet flow cs p = Some p' \<and> flow_frame p' = flow_frame p
    \<and> parser_fit p' \<and> pip_active_content p' = pip_active_content p"
proof (induction cs arbitrary: p)
  case (Cons c cs)
  obtain evs pl where step: "pl_observe_stream (env_to_value env) (env_from_value env) packet flow c (pip_events p)
      (pip_parser p) = Some (evs, pl)" "analyzer_ok (pl_registry pl)"
    using observe_stream_total Cons.prems unfolding parser_fit_def by blast
  define p1 where "p1 = pip_run_analyzers (analyzer_analyze_stream packet flow c) (p\<lparr>pip_events := evs, pip_parser := pl\<rparr>)"
  have p1: "flow_frame p1 = flow_frame p" "pip_active_content p1 = pip_active_content p" "parser_fit p1"
    using step(2) by (simp_all add: p1_def) (simp add: parser_fit_def)
  show ?case using Cons.IH[OF p1(3)] step(1) p1(1,2) by (simp add: p1_def)
qed simp

lemma observe_flow_total:
  assumes "content_fit c m (pip_active_content p)" "parser_fit p"
    and "cc_max_total_bytes (content_normalized c) + (m + carried packet flow) \<le> u64_max"
  shows "\<exists>p'. pip_observe_flow env packet flow p = Some p' \<and> flow_frame p' = flow_frame p \<and> parser_fit p'
    \<and> content_fit c (m + carried packet flow) (pip_active_content p')"
proof -
  obtain inv evs where iv: "iv_observe_flow (env_b64 env) (pip_inventory p) packet flow None (pip_events p) = (inv, evs)"
    by fastforce
  obtain p1 where p1: "pip_observe_content env packet flow (p\<lparr>pip_inventory := inv, pip_events := evs\<rparr>) = Some p1"
    "flow_frame p1 = flow_frame p" "parser_fit p1" "content_fit c (m + carried packet flow) (pip_active_content p1)"
    using observe_content_total[of c m "p\<lparr>pip_inventory := inv, pip_events := evs\<rparr>" packet flow env] assms by auto
  obtain p2 where "pip_observe_chunks env packet flow (case fo_tcp flow of None \<Rightarrow> [] | Some tcp \<Rightarrow> to_chunks tcp)
      (pip_observe_datagram env packet flow p1) = Some p2" "flow_frame p2 = flow_frame p1" "parser_fit p2"
    "pip_active_content p2 = pip_active_content p1"
    using observe_chunks_total[OF observe_datagram_fit[OF p1(3), of env packet flow]] observe_datagram_frame by metis
  then show ?thesis using p1 by (simp add: pip_observe_flow_def iv)
qed

definition flow_config_of :: "pipeline_config \<Rightarrow> flow_table_config" where
  "flow_config_of c = flow_table_config_new (plg_max_flows c) (plg_flow_idle_timeout_ms c)
     (plg_max_tcp_buffered_bytes c) (plg_max_tcp_out_of_order c)"

text \<open>\<open>n\<close> bounds the payload that the pipeline has been given so far: what its buffers hold and what the store was handed.\<close>

definition pipeline_ok :: "pipeline_config \<Rightarrow> nat \<Rightarrow> 'k pipeline \<Rightarrow> bool" where
  "pipeline_ok c n p \<longleftrightarrow> pip_mode p = plg_mode c \<and> ft_ok (flow_config_of c) (pip_flows p) \<and> parser_fit p
     \<and> (\<exists>m. m + table_weight (pip_flows p) \<le> n \<and> content_fit (plg_content c) m (pip_active_content p))
     \<and> xm_ok (pip_messages p) \<and> (\<forall>a. pip_live_api p = Some a \<longrightarrow> xm_ok (lva_messages a))"

definition room_for :: "pipeline_config \<Rightarrow> nat \<Rightarrow> bool" where
  "room_for c n \<longleftrightarrow> config_ok (flow_config_of c) \<and> cc_max_total_bytes (content_normalized (plg_content c)) + n \<le> u64_max"

definition packet_payload :: "pipeline_env \<Rightarrow> raw_packet \<Rightarrow> nat" where
  "packet_payload env raw = payload_len (from_raw (env_slicer env) raw)"

definition packet_status :: "pipeline_env \<Rightarrow> raw_packet \<Rightarrow> decode_status" where
  "packet_status env raw = decode_status_of (from_raw (env_slicer env) raw)"

text \<open>What a packet and a batch leave alone.\<close>

definition outer_frame :: "'k pipeline \<Rightarrow> message_store \<times> live_api option \<times> 'k list" where
  "outer_frame p = (pip_messages p, pip_live_api p, pip_sinks p)"

lemma flow_frame_outer: "flow_frame p' = flow_frame p \<Longrightarrow> outer_frame p' = outer_frame p
    \<and> pip_mode p' = pip_mode p \<and> pip_flows p' = pip_flows p"
  by (simp add: flow_frame_def outer_frame_def)

lemma flow_table_observe_ok:
  assumes "ft_ok config ft" "config_ok config" "flow_table_observe ft packet = (ft', obs)"
  shows "ft_ok config ft'" "observed_bytes packet obs + table_weight ft' \<le> table_weight ft + payload_len packet"
proof -
  have "ft_ok config ft' \<and> observed_bytes packet obs + table_weight ft' \<le> table_weight ft + payload_len packet"
  proof (cases "route_from_packet packet")
    case None
    then show ?thesis using assms by (simp add: flow_table_observe_def observed_bytes_def)
  next
    case (Some route)
    then have "observe_with_route ft packet route = (ft', obs)" using assms(3) by (simp add: flow_table_observe_def)
    then show ?thesis using observe_with_route_ok[OF assms(1,2), of packet route] observe_with_route_weight[OF assms(1)] by simp
  qed
  then show "ft_ok config ft'" "observed_bytes packet obs + table_weight ft' \<le> table_weight ft + payload_len packet" by blast+
qed

definition count_status :: "run_mode \<Rightarrow> pipeline_stats \<Rightarrow> decode_status \<Rightarrow> pipeline_stats" where
  "count_status mode stats status = (case mode of Dump \<Rightarrow> stats | Analyze \<Rightarrow> observe_packet_decode_status stats status)"

lemma process_packet_total:
  assumes ok: "pipeline_ok c n p" and room: "room_for c (n + packet_payload env raw)"
  shows "\<exists>p'. process_packet env p stats raw = Some (p', count_status (plg_mode c) stats (packet_status env raw))
    \<and> pipeline_ok c (n + packet_payload env raw) p' \<and> outer_frame p' = outer_frame p"
proof -
  have mode: "pip_mode p = plg_mode c" using ok by (simp add: pipeline_ok_def)
  have same: "pipeline_ok c (n + packet_payload env raw) p" using ok by (auto simp: pipeline_ok_def intro: trans_le_add1)
  show ?thesis
  proof (cases "pip_mode p")
    case Dump
    have "pipeline_ok c (n + packet_payload env raw) (p\<lparr>pip_events := evs\<rparr>)" for evs
      using same by (simp add: pipeline_ok_def)
    then show ?thesis using Dump mode by (simp add: process_packet_def count_status_def outer_frame_def)
  next
    case Analyze
    define packet where "packet = from_raw (env_slicer env) raw"
    have status: "packet_status env raw = decode_status_of packet" by (simp add: packet_status_def packet_def)
    show ?thesis
    proof (cases "is_decode_error (decode_status_of packet)")
      case True
      then show ?thesis using Analyze mode same
        by (simp add: process_packet_def count_status_def packet_def[symmetric] status Let_def)
    next
      case False
      obtain ft obs where obs: "flow_table_observe (pip_flows p) packet = (ft, obs)" by fastforce
      note ft = flow_table_observe_ok[OF _ _ obs, of "flow_config_of c"]
      have ft_ok: "ft_ok (flow_config_of c) ft"
        and weight: "observed_bytes packet obs + table_weight ft \<le> table_weight (pip_flows p) + payload_len packet"
        using ft ok room by (auto simp: pipeline_ok_def room_for_def)
      obtain m where m: "m + table_weight (pip_flows p) \<le> n" "content_fit (plg_content c) m (pip_active_content p)"
        using ok by (auto simp: pipeline_ok_def)
      define p1 where "p1 = p\<lparr>pip_flows := ft\<rparr>"
      have p1: "parser_fit p1" "pip_active_content p1 = pip_active_content p"
        using ok by (simp_all add: p1_def pipeline_ok_def)
      have "\<exists>p2. (case obs of None \<Rightarrow> Some p1 | Some f \<Rightarrow> pip_observe_flow env packet f p1) = Some p2
        \<and> flow_frame p2 = flow_frame p1 \<and> parser_fit p2
        \<and> content_fit (plg_content c) (m + observed_bytes packet obs) (pip_active_content p2)"
      proof (cases obs)
        case None
        then show ?thesis using p1 m(2) by (simp add: observed_bytes_def)
      next
        case (Some f)
        have "cc_max_total_bytes (content_normalized (plg_content c)) + (m + carried packet f) \<le> u64_max"
          using room weight m(1) Some by (simp add: room_for_def packet_payload_def packet_def[symmetric] observed_bytes_def)
        from observe_flow_total[OF _ p1(1) this, of env] m(2) p1(2) Some show ?thesis by (simp add: observed_bytes_def)
      qed
      then obtain p2 where p2: "(case obs of None \<Rightarrow> Some p1 | Some f \<Rightarrow> pip_observe_flow env packet f p1) = Some p2"
        "flow_frame p2 = flow_frame p1" "parser_fit p2"
        "content_fit (plg_content c) (m + observed_bytes packet obs) (pip_active_content p2)" by blast
      define p3 where "p3 = pip_run_analyzers (analyzer_analyze packet) p2"
      have p3: "flow_frame p3 = flow_frame p1" "parser_fit p3"
        "content_fit (plg_content c) (m + observed_bytes packet obs) (pip_active_content p3)"
        using p2 by (simp_all add: p3_def)
      have "process_packet env p stats raw = Some (p3, count_status (plg_mode c) stats (packet_status env raw))"
        using Analyze mode False obs p2(1)[unfolded p1_def]
        by (simp add: process_packet_def count_status_def packet_def[symmetric] status p3_def Let_def)
      moreover have "m + observed_bytes packet obs + table_weight (pip_flows p3) \<le> n + packet_payload env raw"
        using weight m(1) flow_frame_outer[OF p3(1)] by (simp add: p1_def packet_payload_def packet_def[symmetric])
      then have "pipeline_ok c (n + packet_payload env raw) p3"
        using p3 ok ft_ok by (auto simp: pipeline_ok_def p1_def flow_frame_def)
      moreover have "outer_frame p3 = outer_frame p"
        using flow_frame_outer[OF p3(1)] by (simp add: p1_def outer_frame_def)
      ultimately show ?thesis by blast
    qed
  qed
qed

lemma process_packets_total:
  "pipeline_ok c n p \<Longrightarrow> room_for c (n + sum_list (map (packet_payload env) raws)) \<Longrightarrow>
   \<exists>p'. process_packets env p stats raws
      = Some (p', foldl (count_status (plg_mode c)) stats (map (packet_status env) raws))
    \<and> pipeline_ok c (n + sum_list (map (packet_payload env) raws)) p' \<and> outer_frame p' = outer_frame p"
proof (induction raws arbitrary: p n stats)
  case (Cons raw raws)
  have "room_for c (n + packet_payload env raw)" using Cons.prems(2) by (simp add: room_for_def)
  from process_packet_total[OF Cons.prems(1) this, of stats] obtain p1 where
    p1: "process_packet env p stats raw = Some (p1, count_status (plg_mode c) stats (packet_status env raw))"
      "pipeline_ok c (n + packet_payload env raw) p1" "outer_frame p1 = outer_frame p" by blast
  from Cons.IH[OF p1(2)] Cons.prems(2) p1(1,3) show ?case by (simp add: add.assoc)
qed simp

subsection \<open>One batch\<close>

text \<open>The counters that only the loop writes.\<close>

definition loop_counters :: "pipeline_stats \<Rightarrow> nat \<times> nat \<times> nat \<times> decode_counters \<times> nat" where
  "loop_counters s = (ps_packets s, ps_bytes s, ps_events s, ps_packet_decode s, ps_decode_errors s)"

lemma collect_stats_counters: "loop_counters (collect_stats p s) = loop_counters s"
  by (simp add: loop_counters_def collect_stats_def set_flow_table_stats_def set_stream_inventory_stats_def
      set_stream_content_stats_def set_stream_parser_stats_def set_pattern_stats_def Let_def)

lemma publish_batch_total:
  assumes "pipeline_ok c n p"
  shows "\<exists>p' stats'. publish_batch env p stats = Some (p', stats') \<and> pipeline_ok c n p'
    \<and> pip_sinks p' = pip_sinks p \<and> (pip_live_api p' = None \<longleftrightarrow> pip_live_api p = None)
    \<and> loop_counters stats' = loop_counters stats"
proof -
  define view where "view = view_observe_events (env_from_value env) (pip_view p) (pip_events p)"
  have "xm_ok (pip_messages p)" using assms by (simp add: pipeline_ok_def)
  from xm_observe_events_total[OF this, of "env_from_value env" "pip_events p"] obtain ms where
    ms: "xm_observe_events (env_from_value env) (pip_messages p) (pip_events p) = Some ms" "xm_ok ms" .
  define p2 where "p2 = p\<lparr>pip_view := view, pip_messages := ms\<rparr>"
  define s2 where "s2 = set_stream_message_stats (set_stream_view_stats (collect_stats p stats) (view_stats_of view)) (xm_stats ms)"
  have s2: "loop_counters s2 = loop_counters stats"
    using collect_stats_counters[of p stats]
    by (simp add: s2_def loop_counters_def set_stream_message_stats_def set_stream_view_stats_def)
  have p2: "pip_sinks p2 = pip_sinks p" "pip_events p2 = pip_events p" "pip_live_api p2 = pip_live_api p"
    by (simp_all add: p2_def)
  have ok2: "pipeline_ok c n p2" using assms ms(2)
    by (simp add: pipeline_ok_def p2_def)
  have unfold: "publish_batch env p stats = (case pip_live_api p of None \<Rightarrow> Some (p2, s2)
      | Some a \<Rightarrow> map_option (\<lambda>a1. (p2\<lparr>pip_live_api := Some a1\<rparr>, s2))
          (publish_events (env_from_value env) a (pip_events p) s2))"
    by (cases "pip_live_api p") (simp_all add: publish_batch_def ms(1) view_def[symmetric] p2_def s2_def Let_def)
  show ?thesis
  proof (cases "pip_live_api p")
    case None
    then show ?thesis using unfold ok2 p2 s2 by simp
  next
    case (Some a)
    then have "xm_ok (lva_messages a)" using assms by (simp add: pipeline_ok_def)
    from publish_events_total[OF this] obtain a' where
      a': "publish_events (env_from_value env) a (pip_events p) s2 = Some a'" "xm_ok (lva_messages a')" by blast
    have "pipeline_ok c n (p2\<lparr>pip_live_api := Some a'\<rparr>)" using ok2 a'(2)
      by (simp add: pipeline_ok_def)
    then show ?thesis using unfold Some a'(1) p2 s2 by simp
  qed
qed

lemma process_batch_total:
  assumes "pipeline_ok c n p" "room_for c (n + sum_list (map (packet_payload env) (pb_packets batch)))"
  shows "\<exists>p' stats'. process_batch env p stats batch = Some (p', stats')
    \<and> pipeline_ok c (n + sum_list (map (packet_payload env) (pb_packets batch))) p' \<and> pip_sinks p' = pip_sinks p
    \<and> (pip_live_api p' = None \<longleftrightarrow> pip_live_api p = None)
    \<and> loop_counters stats' = loop_counters
        (foldl (count_status (plg_mode c)) stats (map (packet_status env) (pb_packets batch)))"
proof -
  have "pipeline_ok c n (p\<lparr>pip_events := []\<rparr>)" using assms(1) by (simp add: pipeline_ok_def)
  from process_packets_total[OF this assms(2), of stats] obtain p1 where
    p1: "process_packets env (p\<lparr>pip_events := []\<rparr>) stats (pb_packets batch)
        = Some (p1, foldl (count_status (plg_mode c)) stats (map (packet_status env) (pb_packets batch)))"
      "pipeline_ok c (n + sum_list (map (packet_payload env) (pb_packets batch))) p1"
      "outer_frame p1 = outer_frame (p\<lparr>pip_events := []\<rparr>)" by blast
  from p1(3) have "pip_sinks p1 = pip_sinks p" "pip_live_api p1 = pip_live_api p" by (simp_all add: outer_frame_def)
  with publish_batch_total[OF p1(2)] p1(1) show ?thesis by (fastforce simp: process_batch_def)
qed

subsection \<open>A capture file and a writer\<close>

definition file_batch :: "pcap_file \<Rightarrow> pcap_packet list \<Rightarrow> packet_batch" where
  "file_batch src pkts = foldl batch_push batch_new (map (raw_of_pcap (pfs_link_layer src) (pfs_linktype src)) pkts)"

lemma batch_pushes:
  "pb_packets (foldl batch_push b raws) = pb_packets b @ raws"
  "pb_byte_len (foldl batch_push b raws) = pb_byte_len b + sum_list (map (length \<circ> rp_data) raws)"
  by (induction raws arbitrary: b) (simp_all add: batch_push_def)

lemma fill_from_file_packets:
  "length (pb_packets b) \<le> target \<Longrightarrow> fill_from_file target layer linktype (map PcapPacket pkts) b
    = (let k = min (target - length (pb_packets b)) (length pkts);
           b' = foldl batch_push b (map (raw_of_pcap layer linktype) (take k pkts))
       in (Inr (length (pb_packets b')), b', map PcapPacket (drop k pkts)))"
proof (induction pkts arbitrary: b)
  case Nil
  then show ?case by (subst fill_from_file.simps) (simp add: Let_def)
next
  case (Cons p pkts)
  show ?case
  proof (cases "length (pb_packets b) < target")
    case True
    have "length (pb_packets (batch_push b (raw_of_pcap layer linktype p))) = length (pb_packets b) + 1"
      by (simp add: batch_push_def)
    moreover obtain d where "target - length (pb_packets b) = Suc d" "target - Suc (length (pb_packets b)) = d"
      using True by (metis Suc_diff_Suc)
    ultimately show ?thesis using True Cons.IH[of "batch_push b (raw_of_pcap layer linktype p)"]
      by (subst fill_from_file.simps) (simp add: Let_def)
  next
    case False
    then show ?thesis using Cons.prems by (subst fill_from_file.simps) (simp add: Let_def)
  qed
qed

lemma file_next_batch_packets:
  assumes "pfs_answers src = map PcapPacket pkts"
  shows "file_next_batch capacity src batch = (Inr (min (max capacity 1) (length pkts)),
      (batch_clear batch)\<lparr>pb_packets := pb_packets (file_batch src (take (max capacity 1) pkts)),
        pb_byte_len := pb_byte_len (file_batch src (take (max capacity 1) pkts))\<rparr>,
      src\<lparr>pfs_answers := map PcapPacket (drop (max capacity 1) pkts)\<rparr>)"
proof -
  have take_drop: "take (min n (length pkts)) pkts = take n pkts" "drop (min n (length pkts)) pkts = drop n pkts" for n
    by (simp_all add: min_def)
  show ?thesis
    by (simp add: file_next_batch_def assms fill_from_file_packets batch_clear_def file_batch_def batch_new_def Let_def
        take_drop batch_pushes)
qed

lemma jsonl_write_batch:
  "write_batch (jsonl_sink render) k evs = Inr (k @ concat (map (\<lambda>ev. render ev @ [char_of (10 :: nat)]) evs))"
  by (induction evs arbitrary: k) (simp_all add: jsonl_sink_def)

lemma each_sink_total: "(\<And>k. f k = Inr (g k)) \<Longrightarrow> each_sink f ks = Inr (map g ks)"
  by (induction ks) simp_all

subsection \<open>The run\<close>

definition decode_part :: "pipeline_stats \<Rightarrow> decode_counters \<times> nat" where
  "decode_part s = (ps_packet_decode s, ps_decode_errors s)"

definition count_decode :: "run_mode \<Rightarrow> decode_counters \<times> nat \<Rightarrow> decode_status \<Rightarrow> decode_counters \<times> nat" where
  "count_decode mode x status = (case mode of Dump \<Rightarrow> x
     | Analyze \<Rightarrow> (counters_observe (fst x) status, if is_decode_error status then sat_add (snd x) 1 else snd x))"

lemma count_status_parts:
  "decode_part (foldl (count_status mode) s sts) = foldl (count_decode mode) (decode_part s) sts"
  "ps_packets (foldl (count_status mode) s sts) = ps_packets s"
  "ps_bytes (foldl (count_status mode) s sts) = ps_bytes s"
  "ps_events (foldl (count_status mode) s sts) = ps_events s"
proof -
  have step: "decode_part (count_status mode s status) = count_decode mode (decode_part s) status"
    "ps_packets (count_status mode s status) = ps_packets s" "ps_bytes (count_status mode s status) = ps_bytes s"
    "ps_events (count_status mode s status) = ps_events s" for s status
    by (cases mode; simp add: count_status_def count_decode_def decode_part_def observe_packet_decode_status_def Let_def)+
  show "decode_part (foldl (count_status mode) s sts) = foldl (count_decode mode) (decode_part s) sts"
    "ps_packets (foldl (count_status mode) s sts) = ps_packets s"
    "ps_bytes (foldl (count_status mode) s sts) = ps_bytes s"
    "ps_events (foldl (count_status mode) s sts) = ps_events s"
    by (induction sts arbitrary: s) (simp_all add: step)
qed

lemma loop_counters_eq: "loop_counters s = loop_counters t \<longleftrightarrow> ps_packets s = ps_packets t \<and> ps_bytes s = ps_bytes t
    \<and> ps_events s = ps_events t \<and> decode_part s = decode_part t"
  by (auto simp: loop_counters_def decode_part_def)

definition event_lines :: "(event \<Rightarrow> string) \<Rightarrow> event list \<Rightarrow> string" where
  "event_lines render evs = concat (map (\<lambda>ev. render ev @ [char_of (10 :: nat)]) evs)"

definition raws_of :: "pcap_file \<Rightarrow> pcap_packet list \<Rightarrow> raw_packet list" where
  "raws_of src pkts = map (raw_of_pcap (pfs_link_layer src) (pfs_linktype src)) pkts"

text \<open>After the packets \<open>past\<close>, with the packets \<open>rest\<close> still in the file.\<close>

definition run_inv ::
  "bool \<Rightarrow> pipeline_env \<Rightarrow> (event \<Rightarrow> string) \<Rightarrow> pipeline_config \<Rightarrow> pcap_file \<Rightarrow> string list \<Rightarrow> pcap_packet list \<Rightarrow> pcap_packet list \<Rightarrow>
   (pcap_file, string) run_state \<Rightarrow> bool" where
  "run_inv served env render c src sinks past rest st \<longleftrightarrow>
     pipeline_ok c (sum_list (map (packet_payload env) (raws_of src past))) (rn_pipeline st)
     \<and> (pip_live_api (rn_pipeline st) \<noteq> None \<longleftrightarrow> served) \<and> rn_source st = src\<lparr>pfs_answers := map PcapPacket rest\<rparr>
     \<and> ps_packets (rn_stats st) = length past \<and> ps_bytes (rn_stats st) = sum_list (map (length \<circ> ppk_data) past)
     \<and> decode_part (rn_stats st)
         = foldl (count_decode (plg_mode c)) (counters_default, 0) (map (packet_status env) (raws_of src past))
     \<and> (\<exists>evs. pip_sinks (rn_pipeline st) = map (\<lambda>k. k @ event_lines render evs) sinks
          \<and> ps_events (rn_stats st) = min (length evs) u64_max)"

lemma report_turn_file:
  "\<exists>h. report_turn (pcap_file_source capacity) k st = k (st\<lparr>rn_health := h, rn_clock := tl (rn_clock st)\<rparr>)"
proof -
  have "\<exists>r h. maybe_report (pcap_file_source capacity) (turn_clock (rn_clock st)) (rn_health st) (rn_stats st) (rn_source st)
      = (Inr r, h, rn_stats st, rn_source st)"
    by (cases "hrp_interval_ms (rn_health st)") (auto simp: maybe_report_def pcap_file_source_def Let_def)
  then obtain r h where "maybe_report (pcap_file_source capacity) (turn_clock (rn_clock st)) (rn_health st) (rn_stats st)
      (rn_source st) = (Inr r, h, rn_stats st, rn_source st)" by blast
  then have "report_turn (pcap_file_source capacity) k st = k (st\<lparr>rn_health := h, rn_clock := tl (rn_clock st)\<rparr>)"
    by (simp add: report_turn_def)
  then show ?thesis by blast
qed

lemma run_inv_report [simp]:
  "run_inv served env render c src sinks past rest (st\<lparr>rn_health := h, rn_clock := clock\<rparr>) = run_inv served env render c src sinks past rest st"
  by (simp add: run_inv_def)

lemma run_turn_over:
  assumes "run_inv served env render c src sinks past [] st"
  shows "\<exists>st'. run_turn_of env (jsonl_sink render) (pcap_file_source capacity) st = Some (RunOver st')
    \<and> run_inv served env render c src sinks past [] st'"
proof -
  obtain b s where next_batch: "file_next_batch capacity (rn_source st) (rn_batch st) = (Inr 0, b, s)" "s = rn_source st"
    using file_next_batch_packets[of "rn_source st" "[]" capacity "rn_batch st"] assms by (simp add: run_inv_def)
  let ?st = "st\<lparr>rn_batch := b, rn_source := s\<rparr>"
  have inv: "run_inv served env render c src sinks past [] ?st" using assms next_batch(2) by (simp add: run_inv_def)
  obtain h where "report_turn (pcap_file_source capacity)
      (\<lambda>s. if pso_is_finished (pcap_file_source capacity) (rn_source s) then RunOver s else RunOn s) ?st
    = RunOver (?st\<lparr>rn_health := h, rn_clock := tl (rn_clock st)\<rparr>)"
    using report_turn_file[of capacity _ ?st] by (force simp: pcap_file_source_def)
  then show ?thesis using next_batch(1) inv
    by (simp add: run_turn_of_def pcap_file_source_def)
qed

lemma run_turn_on:
  assumes inv: "run_inv served env render c src sinks past rest st" and rest: "rest \<noteq> []"
    and room: "room_for c (sum_list (map (packet_payload env) (raws_of src (past @ rest))))"
    and small: "length (past @ rest) \<le> u64_max" "sum_list (map (length \<circ> ppk_data) (past @ rest)) \<le> u64_max"
  shows "\<exists>st'. run_turn_of env (jsonl_sink render) (pcap_file_source capacity) st = Some (RunOn st')
    \<and> run_inv served env render c src sinks (past @ take (max capacity 1) rest) (drop (max capacity 1) rest) st'"
proof -
  define n where "n = max capacity 1"
  define now where "now = take n rest"
  define raws where "raws = raws_of src now"
  define fb where "fb = file_batch (rn_source st) now"
  define b where "b = (batch_clear (rn_batch st))\<lparr>pb_packets := pb_packets fb, pb_byte_len := pb_byte_len fb\<rparr>"
  define s where "s = (rn_source st)\<lparr>pfs_answers := map PcapPacket (drop n rest)\<rparr>"
  have src: "rn_source st = src\<lparr>pfs_answers := map PcapPacket rest\<rparr>" using inv by (simp add: run_inv_def)
  have now: "now \<noteq> []" "past @ rest = (past @ now) @ drop n rest" using rest by (simp_all add: now_def n_def)
  have data: "map (length \<circ> rp_data) raws = map (length \<circ> ppk_data) now"
    by (simp add: raws_def raws_of_def raw_of_pcap_def)
  have b: "pb_packets b = raws" "pb_byte_len b = sum_list (map (length \<circ> ppk_data) now)"
    unfolding data[symmetric]
    by (simp_all add: b_def fb_def file_batch_def src batch_pushes batch_new_def raws_def raws_of_def)
  have read: "file_next_batch capacity (rn_source st) (rn_batch st) = (Inr (length now), b, s)"
    using file_next_batch_packets[of "rn_source st" rest capacity "rn_batch st"]
    by (simp add: src b_def fb_def s_def now_def n_def min.commute)
  define st1 where "st1 = st\<lparr>rn_batch := b, rn_source := s\<rparr>"
  define counted where "counted = count_batch b (rn_stats st)"
  have total: "length past + length now \<le> u64_max"
    "sum_list (map (length \<circ> ppk_data) past) + sum_list (map (length \<circ> ppk_data) now) \<le> u64_max"
    using small unfolding now(2) by simp_all
  have len: "length raws = length now" by (simp add: raws_def raws_of_def)
  have counted: "ps_packets counted = length (past @ now)" "ps_bytes counted = sum_list (map (length \<circ> ppk_data) (past @ now))"
    "ps_events counted = ps_events (rn_stats st)" "decode_part counted = decode_part (rn_stats st)"
    using inv total by (simp_all add: counted_def count_batch_def b len run_inv_def sat_add_exact decode_part_def)
  have "room_for c (sum_list (map (packet_payload env) (raws_of src past)) + sum_list (map (packet_payload env) (pb_packets b)))"
    using room unfolding now(2) b(1) by (simp add: room_for_def raws_of_def raws_def)
  from process_batch_total[OF _ this, of "rn_pipeline st" counted] inv obtain p stats where
    p: "process_batch env (rn_pipeline st) counted b = Some (p, stats)"
      "pipeline_ok c (sum_list (map (packet_payload env) (raws_of src (past @ now)))) p"
      "pip_sinks p = pip_sinks (rn_pipeline st)" "pip_live_api p \<noteq> None \<longleftrightarrow> served"
      "loop_counters stats = loop_counters (foldl (count_status (plg_mode c)) counted (map (packet_status env) raws))"
    unfolding b(1) by (auto simp: run_inv_def raws_of_def raws_def)
  obtain evs where evs: "pip_sinks (rn_pipeline st) = map (\<lambda>k. k @ event_lines render evs) sinks"
    "ps_events (rn_stats st) = min (length evs) u64_max"
    using inv by (auto simp: run_inv_def)
  have sinks: "each_sink (\<lambda>k. write_batch (jsonl_sink render) k (pip_events p)) (pip_sinks p)
      = Inr (map (\<lambda>k. k @ event_lines render (evs @ pip_events p)) sinks)"
    by (subst each_sink_total[where g = "\<lambda>k. k @ event_lines render (pip_events p)"])
      (simp_all add: jsonl_write_batch event_lines_def p(3) evs(1))
  define st2 where "st2 = st1\<lparr>rn_batch := snd (batch_drain b),
    rn_pipeline := p\<lparr>pip_sinks := map (\<lambda>k. k @ event_lines render (evs @ pip_events p)) sinks\<rparr>,
    rn_stats := stats\<lparr>ps_events := sat_add (ps_events stats) (length (pip_events p))\<rparr>\<rparr>"
  have stats: "ps_packets stats = length (past @ now)" "ps_bytes stats = sum_list (map (length \<circ> ppk_data) (past @ now))"
    "ps_events stats = min (length evs) u64_max"
    "decode_part stats = foldl (count_decode (plg_mode c)) (counters_default, 0)
      (map (packet_status env) (raws_of src (past @ now)))"
    using p(5) counted evs(2) inv by (simp_all add: loop_counters_eq count_status_parts run_inv_def raws_def raws_of_def)
  have inv2: "run_inv served env render c src sinks (past @ now) (drop n rest) st2"
    unfolding run_inv_def
  proof (intro conjI exI[of _ "evs @ pip_events p"])
    show "pipeline_ok c (sum_list (map (packet_payload env) (raws_of src (past @ now)))) (rn_pipeline st2)"
      using p(2) by (simp add: st2_def pipeline_ok_def)
    show "pip_live_api (rn_pipeline st2) \<noteq> None \<longleftrightarrow> served" using p(4) by (simp add: st2_def)
    show "rn_source st2 = src\<lparr>pfs_answers := map PcapPacket (drop n rest)\<rparr>"
      by (simp add: st2_def st1_def s_def src)
    show "decode_part (rn_stats st2) = foldl (count_decode (plg_mode c)) (counters_default, 0)
        (map (packet_status env) (raws_of src (past @ now)))"
      using stats(4) by (simp add: st2_def decode_part_def)
  qed (use stats in \<open>simp_all add: st2_def sat_add_def\<close>)
  obtain h where "report_turn (pcap_file_source capacity) RunOn st2
      = RunOn (st2\<lparr>rn_health := h, rn_clock := tl (rn_clock st2)\<rparr>)"
    using report_turn_file by blast
  moreover have "run_turn_of env (jsonl_sink render) (pcap_file_source capacity) st
      = Some (report_turn (pcap_file_source capacity) RunOn st2)"
    using read now(1) p(1) sinks
    by (simp add: run_turn_of_def pcap_file_source_def[of capacity] st1_def counted_def st2_def Let_def)
  ultimately show ?thesis using inv2 by (simp add: now_def n_def)
qed

lemma run_loop_completes:
  assumes "run_inv served env render c src sinks past rest st" "length rest < fuel"
    and "room_for c (sum_list (map (packet_payload env) (raws_of src (past @ rest))))"
    and "length (past @ rest) \<le> u64_max" "sum_list (map (length \<circ> ppk_data) (past @ rest)) \<le> u64_max"
  shows "\<exists>st'. run_loop env (jsonl_sink render) (pcap_file_source capacity) fuel st = Some (Inr st')
    \<and> run_inv served env render c src sinks (past @ rest) [] st'"
  using assms
proof (induction fuel arbitrary: past rest st)
  case (Suc fuel)
  show ?case
  proof (cases "rest = []")
    case True
    with run_turn_over[of served env render c src sinks past st capacity] Suc.prems(1) show ?thesis by auto
  next
    case False
    let ?now = "take (max capacity 1) rest" and ?rest = "drop (max capacity 1) rest"
    have all: "past @ rest = (past @ ?now) @ ?rest" by simp
    obtain st1 where st1: "run_turn_of env (jsonl_sink render) (pcap_file_source capacity) st = Some (RunOn st1)"
      "run_inv served env render c src sinks (past @ ?now) ?rest st1"
      using run_turn_on[OF Suc.prems(1) False Suc.prems(3-5)] by blast
    have "length ?rest < fuel" using Suc.prems(2) False by (cases rest) auto
    from Suc.IH[OF st1(2) this] Suc.prems(3-5) st1(1) show ?thesis unfolding all[symmetric] by simp
  qed
qed simp

subsection \<open>A capture from start to end\<close>

text \<open>A pipeline as the program sets it up.\<close>

definition configured_pipeline ::
  "pipeline_config \<Rightarrow> pattern_config \<Rightarrow> analyzer list \<Rightarrow> 'k list \<Rightarrow>
   (view_config \<times> slice_config \<times> nat \<times> service_profile list) option \<Rightarrow> 'k pipeline" where
  "configured_pipeline c patterns analyzers sinks api =
     (let p = foldl (\<lambda>p k. register_sink k p) (foldl (\<lambda>p a. register_analyzer a p)
            (set_pattern_config patterns (pipeline_new c)) analyzers) sinks
      in case api of None \<Rightarrow> p
         | Some (view, slices, capacity, profiles) \<Rightarrow> attach_live_api (live_api_new view slices capacity profiles) p)"

lemma configured_parts:
  "foldl (\<lambda>p k. register_sink k p) (foldl (\<lambda>p a. register_analyzer a p) (set_pattern_config patterns (pipeline_new c)) analyzers)
     sinks = (pipeline_new c :: 'k pipeline)\<lparr>pip_pattern := pattern_engine_new patterns,
      pip_analyzers := analyzers, pip_sinks := sinks\<rparr>"
proof -
  have "foldl (\<lambda>p a. register_analyzer a p) p as = p\<lparr>pip_analyzers := pip_analyzers p @ as\<rparr>" for p :: "'k pipeline" and as
    by (induction as arbitrary: p) (simp_all add: register_analyzer_def)
  moreover have "foldl (\<lambda>p k. register_sink k p) p ks = p\<lparr>pip_sinks := pip_sinks p @ ks\<rparr>" for p :: "'k pipeline" and ks
    by (induction ks arbitrary: p) (simp_all add: register_sink_def)
  ultimately show ?thesis by (simp add: set_pattern_config_def pipeline_new_def)
qed

lemma attach_ok:
  assumes "pipeline_ok c 0 p" "pip_config p = c" "table_weight (pip_flows p) = 0"
  shows "pipeline_ok c 0 (attach_live_api (live_api_new view slices capacity profiles) p)"
    "pip_sinks (attach_live_api a p) = pip_sinks p" "pip_live_api (attach_live_api a p) \<noteq> None"
proof -
  define a0 where "a0 = fst (install_local_content (live_api_new view slices capacity profiles) (plg_content c))"
  have a0: "xm_ok (lva_messages a0)" by (simp add: a0_def install_local_content_def live_api_new_def message_store_new_ok)
  have "attach_live_api (live_api_new view slices capacity profiles) p
      = p\<lparr>pip_live_content := Some (stream_content_new (plg_content c)), pip_live_api := Some a0\<rparr>"
    by (simp add: attach_live_api_def install_local_content_def a0_def assms(2))
  then show "pipeline_ok c 0 (attach_live_api (live_api_new view slices capacity profiles) p)"
    using assms(1,3) content_fit_new[of "plg_content c"] a0 by (simp add: pipeline_ok_def pip_active_content_def parser_fit_def)
  show "pip_sinks (attach_live_api a p) = pip_sinks p" "pip_live_api (attach_live_api a p) \<noteq> None"
    by (simp_all add: attach_live_api_def split: prod.split)
qed

lemma configured_ok:
  fixes sinks :: "'k list"
  assumes "config_ok (flow_config_of c)"
  shows "pipeline_ok c 0 (configured_pipeline c patterns analyzers sinks api)"
    "pip_sinks (configured_pipeline c patterns analyzers sinks api) = sinks"
    "pip_live_api (configured_pipeline c patterns analyzers sinks api) = None \<longleftrightarrow> api = None"
proof -
  define q :: "'k pipeline" where "q = (pipeline_new c)\<lparr>pip_pattern := pattern_engine_new patterns,
      pip_analyzers := analyzers, pip_sinks := sinks\<rparr>"
  have flows: "ft_ok (flow_config_of c) (flow_table_new (flow_config_of c))" "table_weight (flow_table_new (flow_config_of c)) = 0"
    using assms by (simp_all add: ft_ok_def flow_table_new_def table_weight_def tbl_sum_def config_ok_def)
  have reg: "analyzer_ok (pl_registry (parser_layer_new (plg_parser c)))"
    by (simp add: parser_layer_new_def Let_def analyzer_ok_def analyzer_with_limits_def registry_new_ok)
  have q: "pip_config q = c" "table_weight (pip_flows q) = 0" "pip_sinks q = sinks" "pip_live_api q = None"
    using flows(2) by (simp_all add: q_def pipeline_new_def flow_config_of_def)
  have new: "pipeline_ok c 0 q"
    using flows content_fit_new[of "plg_content c"] reg
    by (simp add: pipeline_ok_def q_def pipeline_new_def parser_fit_def flow_config_of_def message_store_new_ok
        pip_active_content_def)
  have conf: "configured_pipeline c patterns analyzers sinks api = (case api of None \<Rightarrow> q
      | Some (view, slices, capacity, profiles) \<Rightarrow> attach_live_api (live_api_new view slices capacity profiles) q)"
    by (simp only: configured_pipeline_def configured_parts Let_def q_def)
  show "pipeline_ok c 0 (configured_pipeline c patterns analyzers sinks api)"
    "pip_sinks (configured_pipeline c patterns analyzers sinks api) = sinks"
    "pip_live_api (configured_pipeline c patterns analyzers sinks api) = None \<longleftrightarrow> api = None"
    unfolding conf using new q(3,4) attach_ok[OF new q(1,2)] by (auto split: option.split prod.split)
qed

lemma count_decode_analyze:
  "fst (foldl (count_decode Analyze) x sts) = foldl counters_observe (fst x) sts"
  "foldl (count_decode Dump) x sts = x"
  by (induction sts arbitrary: x) (simp_all add: count_decode_def)


text \<open>Two unreadable packets.\<close>

definition sample_pcap_packet :: pcap_packet where
  "sample_pcap_packet = \<lparr>ppk_tv_sec = 1, ppk_tv_usec = 2, ppk_data = [1, 2, 3]\<rparr>"

definition sample_file :: pcap_file where
  "sample_file = \<lparr>pfs_answers = map PcapPacket [sample_pcap_packet, sample_pcap_packet], pfs_link_layer = UnsupportedLayer,
     pfs_linktype = 147\<rparr>"

lemma sample_payload: "packet_payload sample_env (raw_of_pcap UnsupportedLayer 147 sample_pcap_packet) = 0"
  by (simp add: packet_payload_def payload_len_def from_raw_def raw_of_pcap_def
      transport_payload_of_def Let_def)


end
