(* ===== verification/Sharded_Coordinator.thy ===== *)
theory Sharded_Coordinator
  imports Pipeline
begin

text \<open>
  The coordinator of the sharded pipeline, from \<^verbatim>\<open>src/src/sharded_pipeline.rs\<close>: its configuration, the
  messages of the workers, the merging of their statistics, the content of a stream.  A worker is in
  \<open>Sharded_Worker\<close>, the run of the coordinator in \<open>Sharded_Run\<close>.
\<close>

subsection \<open>Configuration\<close>

datatype backpressure_policy = BlockPolicy | InlinePolicy | DropPolicy

fun backpressure_display :: "backpressure_policy \<Rightarrow> string" where
  "backpressure_display BlockPolicy = ''block''"
| "backpressure_display InlinePolicy = ''inline''"
| "backpressure_display DropPolicy = ''drop''"

record offload_config =
  ofg_queue_depth :: nat
  ofg_policy :: backpressure_policy

definition offload_config_default :: offload_config where
  "offload_config_default = \<lparr>ofg_queue_depth = 0, ofg_policy = BlockPolicy\<rparr>"

definition offload_normalized :: "offload_config \<Rightarrow> nat \<Rightarrow> offload_config" where
  "offload_normalized c worker_queue_depth =
     c\<lparr>ofg_queue_depth := max (if ofg_queue_depth c = 0 then worker_queue_depth else ofg_queue_depth c) 1\<rparr>"

record sharded_config =
  shg_pipeline :: pipeline_config
  shg_worker_count :: nat
  shg_worker_queue_depth :: nat
  shg_event_queue_depth :: nat
  shg_offload :: offload_config

text \<open>\<open>available\<close> is the answer of \<^verbatim>\<open>thread::available_parallelism\<close>.\<close>

definition resolve_worker_count :: "nat option \<Rightarrow> nat \<Rightarrow> nat" where
  "resolve_worker_count available worker_count =
     (if worker_count = 0 then max (case available of None \<Rightarrow> 1 | Some n \<Rightarrow> n) 1 else max worker_count 1)"

definition sharded_normalized :: "nat option \<Rightarrow> sharded_config \<Rightarrow> sharded_config" where
  "sharded_normalized available c = c\<lparr>shg_worker_count := resolve_worker_count available (shg_worker_count c),
     shg_worker_queue_depth := max (shg_worker_queue_depth c) 1, shg_event_queue_depth := max (shg_event_queue_depth c) 1,
     shg_offload := offload_normalized (shg_offload c) (shg_worker_queue_depth c)\<rparr>"

definition max_flows_per_worker :: "nat \<Rightarrow> nat \<Rightarrow> nat" where
  "max_flows_per_worker max_flows worker_count =
     (let w = max worker_count 1 in (max max_flows 1 + (w - 1)) div w)"

definition sharded_flow_config :: "sharded_config \<Rightarrow> flow_table_config" where
  "sharded_flow_config c = (let p = shg_pipeline c in
     flow_table_config_new (max_flows_per_worker (plg_max_flows p) (shg_worker_count c)) (plg_flow_idle_timeout_ms p)
       (plg_max_tcp_buffered_bytes p) (plg_max_tcp_out_of_order p))"

definition flow_owner_limit :: "sharded_config \<Rightarrow> nat" where
  "flow_owner_limit c =
     (let w = max (shg_worker_count c) 1; p = shg_pipeline c
      in max (Max (set [plg_max_flows p, sat_mul (ic_max_streams (plg_inventory p)) w,
           sat_mul (cc_max_streams (plg_content p)) w, vc_max_streams (plg_view p), w])) 1)"

definition stream_offload_worker_count :: "sharded_config \<Rightarrow> nat \<Rightarrow> nat" where
  "stream_offload_worker_count c analyzer_count =
     (if plg_mode (shg_pipeline c) = Dump \<or> shg_worker_count c \<le> 1 then 0
      else if \<not> plc_enabled (plg_parser (shg_pipeline c)) \<and> analyzer_count = 0 then 0
      else max (shg_worker_count c - 1) 1)"

subsection \<open>Statistics of the workers\<close>

record worker_stats =
  wst_id :: nat
  wst_decode :: decode_counters
  wst_flow :: flow_table_stats
  wst_inventory :: inventory_stats
  wst_content :: content_stats
  wst_parser :: stream_parser_stats
  wst_pattern :: pattern_stats
  wst_submitted_chunks :: nat
  wst_submitted_bytes :: nat
  wst_blocked_chunks :: nat
  wst_blocked_bytes :: nat
  wst_inline_chunks :: nat
  wst_inline_bytes :: nat
  wst_dropped_chunks :: nat
  wst_dropped_bytes :: nat

record offload_worker_stats =
  ows_id :: nat
  ows_processed_chunks :: nat
  ows_processed_bytes :: nat
  ows_parser :: stream_parser_stats

definition add_worker_stats :: "pipeline_stats \<Rightarrow> worker_stats \<Rightarrow> pipeline_stats" where
  "add_worker_stats s w =
     (let s1 = add_packet_decode_counters s (wst_decode w);
          s2 = add_flow_table_stats s1 (wst_flow w);
          s3 = add_stream_inventory_stats s2 (wst_inventory w);
          s4 = add_stream_content_stats s3 (wst_content w);
          s5 = add_stream_parser_stats s4 (wst_parser w);
          s6 = add_pattern_stats s5 (wst_pattern w);
          f = ps_offload s6
      in s6\<lparr>ps_offload := f\<lparr>ofc_submitted_chunks := sat_add (ofc_submitted_chunks f) (wst_submitted_chunks w),
           ofc_submitted_bytes := sat_add (ofc_submitted_bytes f) (wst_submitted_bytes w),
           ofc_blocked_chunks := sat_add (ofc_blocked_chunks f) (wst_blocked_chunks w),
           ofc_blocked_bytes := sat_add (ofc_blocked_bytes f) (wst_blocked_bytes w),
           ofc_inline_chunks := sat_add (ofc_inline_chunks f) (wst_inline_chunks w),
           ofc_inline_bytes := sat_add (ofc_inline_bytes f) (wst_inline_bytes w),
           ofc_dropped_chunks := sat_add (ofc_dropped_chunks f) (wst_dropped_chunks w),
           ofc_dropped_bytes := sat_add (ofc_dropped_bytes f) (wst_dropped_bytes w)\<rparr>\<rparr>)"

definition add_stream_offload_stats :: "pipeline_stats \<Rightarrow> offload_worker_stats \<Rightarrow> pipeline_stats" where
  "add_stream_offload_stats s w =
     (let f = ps_offload s;
          s1 = s\<lparr>ps_offload := f\<lparr>ofc_processed_chunks := sat_add (ofc_processed_chunks f) (ows_processed_chunks w),
            ofc_processed_bytes := sat_add (ofc_processed_bytes f) (ows_processed_bytes w)\<rparr>\<rparr>
      in add_stream_parser_stats s1 (ows_parser w))"

text \<open>\<^verbatim>\<open>iter().flatten()\<close> over a slice of options.\<close>

definition flatten_options :: "'a option list \<Rightarrow> 'a list" where
  "flatten_options xs = List.map_filter (\<lambda>x. x) xs"

definition rebuild_runtime_stats_from_snapshots ::
  "pipeline_stats \<Rightarrow> worker_stats option list \<Rightarrow> offload_worker_stats option list \<Rightarrow> pipeline_stats" where
  "rebuild_runtime_stats_from_snapshots s workers offloads =
     foldl add_stream_offload_stats
       (foldl add_worker_stats (clear_worker_runtime_stats s) (flatten_options workers)) (flatten_options offloads)"

definition load_of_snapshot :: "shard_load_snapshot \<Rightarrow> load_summary" where
  "load_of_snapshot n = \<lparr>lsm_fallback_routed = ss_fallback n, lsm_striped_flow = ss_striped n,
     lsm_unsupported_link = ss_unsupported_link n, lsm_non_ip = ss_non_ip n, lsm_malformed = ss_malformed n,
     lsm_fragmented = ss_fragmented n, lsm_unsupported_transport = ss_unsupported_transport n,
     lsm_busiest = ss_busiest_shard n, lsm_busiest_packets = ss_busiest_shard_packets n,
     lsm_busiest_bytes = ss_busiest_shard_bytes n, lsm_packet_skew_ratio_milli = ss_packet_skew_ratio_milli n,
     lsm_byte_skew_ratio_milli = ss_byte_skew_ratio_milli n\<rparr>"

definition apply_shard_metrics :: "pipeline_stats \<Rightarrow> shard_metrics \<Rightarrow> pipeline_stats" where
  "apply_shard_metrics s m = s\<lparr>ps_shard_load := load_of_snapshot (metrics_snapshot m)\<rparr>"

definition apply_queue_metrics :: "pipeline_stats \<Rightarrow> sharded_queue_snapshot \<Rightarrow> pipeline_stats" where
  "apply_queue_metrics s queue =
     (let y = summarize queue
      in s\<lparr>ps_queues := (ps_queues s)\<lparr>qg_output_queue_len := pq_output_queue_len y,
             qg_output_queue_capacity := pq_output_queue_capacity y,
             qg_worker_queue_max_len := pq_max_worker_queue_len y,
             qg_worker_queue_max_capacity := pq_max_worker_queue_capacity y\<rparr>,
           ps_worker_load := \<lparr>lsm_fallback_routed = pq_fallback_routed y, lsm_striped_flow = pq_striped_flow y,
             lsm_unsupported_link = pq_unsupported_link y, lsm_non_ip = pq_non_ip y, lsm_malformed = pq_malformed y,
             lsm_fragmented = pq_fragmented y, lsm_unsupported_transport = pq_unsupported_transport y,
             lsm_busiest = pq_busiest_worker y, lsm_busiest_packets = pq_busiest_worker_packets y,
             lsm_busiest_bytes = pq_busiest_worker_bytes y,
             lsm_packet_skew_ratio_milli = pq_packet_skew_ratio_milli y,
             lsm_byte_skew_ratio_milli = pq_byte_skew_ratio_milli y\<rparr>\<rparr>)"

definition final_queue_snapshot :: "sharded_config \<Rightarrow> shard_metrics \<Rightarrow> sharded_queue_snapshot" where
  "final_queue_snapshot c m = metrics_queue_snapshot m
     (map (\<lambda>shard. \<lparr>ql_shard = shard, ql_len = 0, ql_capacity = shg_worker_queue_depth c\<rparr>) [0..<shg_worker_count c])
     0 (shg_event_queue_depth c)"

subsection \<open>The state of the coordinator\<close>

record worker_report =
  wre_stats :: worker_stats
  wre_content :: stream_content

datatype worker_message =
    EventsMessage "event list"
  | StatsSnapshotMessage worker_stats
  | StatsMessage worker_report
  | OffloadStatsSnapshotMessage offload_worker_stats
  | OffloadStatsMessage offload_worker_stats

record 'k coordinator =
  cds_sinks :: "'k list"
  cds_view :: view_state
  cds_messages :: message_store
  cds_content_shards :: "stream_content option list"
  cds_worker_snapshots :: "worker_stats option list"
  cds_offload_snapshots :: "offload_worker_stats option list"
  cds_live_api :: "live_api option"
  cds_stats :: pipeline_stats

definition coordinator_start :: "sharded_config \<Rightarrow> nat \<Rightarrow> 'k list \<Rightarrow> live_api option \<Rightarrow> 'k coordinator" where
  "coordinator_start c analyzer_count sinks api =
     (let offload_workers = stream_offload_worker_count c analyzer_count;
          stats = pipeline_stats_default\<lparr>ps_workers := shg_worker_count c,
            ps_queues := queue_gauges_default\<lparr>qg_offload_workers := offload_workers\<rparr>\<rparr>
      in \<lparr>cds_sinks = sinks, cds_view = view_new (plg_view (shg_pipeline c)),
          cds_messages = message_store_new message_store_config_default,
          cds_content_shards = replicate (shg_worker_count c) None,
          cds_worker_snapshots = replicate (shg_worker_count c) None,
          cds_offload_snapshots = replicate offload_workers None,
          cds_live_api = map_option (\<lambda>a. publish_stats (set_sharded_content a (shg_worker_count c)) stats) api,
          cds_stats = stats\<rparr>)"

definition replace_worker_stats_snapshot :: "'k coordinator \<Rightarrow> worker_stats \<Rightarrow> 'k coordinator" where
  "replace_worker_stats_snapshot c w =
     (if wst_id w < length (cds_worker_snapshots c)
      then let snapshots = (cds_worker_snapshots c)[wst_id w := Some w]
        in c\<lparr>cds_worker_snapshots := snapshots,
             cds_stats := rebuild_runtime_stats_from_snapshots (cds_stats c) snapshots (cds_offload_snapshots c)\<rparr>
      else c)"

definition replace_stream_offload_stats_snapshot :: "'k coordinator \<Rightarrow> offload_worker_stats \<Rightarrow> 'k coordinator" where
  "replace_stream_offload_stats_snapshot c w =
     (if ows_id w < length (cds_offload_snapshots c)
      then let snapshots = (cds_offload_snapshots c)[ows_id w := Some w]
        in c\<lparr>cds_offload_snapshots := snapshots,
             cds_stats := rebuild_runtime_stats_from_snapshots (cds_stats c) (cds_worker_snapshots c) snapshots\<rparr>
      else c)"

definition store_worker_content :: "'k coordinator \<Rightarrow> nat \<Rightarrow> stream_content \<Rightarrow> 'k coordinator" where
  "store_worker_content c worker_id content =
     (if worker_id < length (cds_content_shards c)
      then c\<lparr>cds_content_shards := (cds_content_shards c)[worker_id := Some content]\<rparr> else c)"

text \<open>The loop over the sinks, which stops at the first error; what a failing sink kept of the batch is not modelled.\<close>

fun write_sinks :: "'k event_sink \<Rightarrow> event list \<Rightarrow> 'k list \<Rightarrow> string option \<times> 'k list" where
  "write_sinks ops events [] = (None, [])"
| "write_sinks ops events (k # ks) = (case write_batch ops k events of
     Inl e \<Rightarrow> (Some e, k # ks)
   | Inr k1 \<Rightarrow> (case write_sinks ops events ks of (e, ks1) \<Rightarrow> (e, k1 # ks1)))"

definition write_events ::
  "pipeline_env \<Rightarrow> 'k event_sink \<Rightarrow> 'k coordinator \<Rightarrow> event list \<Rightarrow> (string option \<times> 'k coordinator) option" where
  "write_events env ops c events =
     (let view = view_observe_events (env_from_value env) (cds_view c) events;
          s1 = (cds_stats c)\<lparr>ps_events := sat_add (ps_events (cds_stats c)) (length events)\<rparr>
      in Option.bind (xm_observe_events (env_from_value env) (cds_messages c) events) (\<lambda>messages.
         let s2 = set_stream_message_stats (set_stream_view_stats s1 (view_stats_of view)) (xm_stats messages);
             c1 = c\<lparr>cds_view := view, cds_messages := messages, cds_stats := s2\<rparr>
         in map_option (\<lambda>api. case write_sinks ops events (cds_sinks c1) of
               (e, sinks) \<Rightarrow> (e, c1\<lparr>cds_live_api := api, cds_sinks := sinks\<rparr>))
             (case cds_live_api c1 of None \<Rightarrow> Some None
              | Some a \<Rightarrow> map_option Some (publish_events (env_from_value env) a events s2))))"

fun write_worker_message ::
  "pipeline_env \<Rightarrow> 'k event_sink \<Rightarrow> 'k coordinator \<Rightarrow> worker_message \<Rightarrow> (string option \<times> 'k coordinator) option" where
  "write_worker_message env ops c (EventsMessage events) = write_events env ops c events"
| "write_worker_message env ops c (StatsSnapshotMessage w) = Some (None, replace_worker_stats_snapshot c w)"
| "write_worker_message env ops c (StatsMessage r) = Some (None,
     store_worker_content (replace_worker_stats_snapshot c (wre_stats r)) (wst_id (wre_stats r)) (wre_content r))"
| "write_worker_message env ops c (OffloadStatsSnapshotMessage w) = Some (None, replace_stream_offload_stats_snapshot c w)"
| "write_worker_message env ops c (OffloadStatsMessage w) = Some (None, replace_stream_offload_stats_snapshot c w)"

definition record_first_error :: "string option \<Rightarrow> string \<Rightarrow> string option" where
  "record_first_error first_error e = (case first_error of None \<Rightarrow> Some e | Some x \<Rightarrow> Some x)"

text \<open>\<^verbatim>\<open>drain_available\<close> on the messages that are waiting; the first error leaves the rest in the channel.\<close>

fun drain_available ::
  "pipeline_env \<Rightarrow> 'k event_sink \<Rightarrow> worker_message list \<Rightarrow> 'k coordinator \<Rightarrow>
   (string option \<times> worker_message list \<times> 'k coordinator) option" where
  "drain_available env ops [] c = Some (None, [], c)"
| "drain_available env ops (m # ms) c = (case write_worker_message env ops c m of
     None \<Rightarrow> None
   | Some (Some e, c1) \<Rightarrow> Some (Some e, ms, c1)
   | Some (None, c1) \<Rightarrow> drain_available env ops ms c1)"

subsection \<open>Routing\<close>

record routed_packet =
  rtp_raw :: raw_packet
  rtp_owner_shard :: nat
  rtp_kind :: route_kind
  rtp_flow_route :: "flow_route option"

definition sharded_coordinator_config :: "sharded_config \<Rightarrow> coordinator_config" where
  "sharded_coordinator_config c = with_max_flow_owners
     (coordinator_config_new (shg_worker_count c) (plg_mode (shg_pipeline c))) (flow_owner_limit c)"

text \<open>The content of a stream after the run.\<close>

definition sharded_content_slice ::
  "(bytes \<Rightarrow> string) \<Rightarrow> (hash_input \<Rightarrow> u64w) \<Rightarrow> sharded_config \<Rightarrow> 'k coordinator \<Rightarrow> slice_request \<Rightarrow>
   slice_error + content_slice" where
  "sharded_content_slice b64 h config c request =
     (case map_of (sv_streams (cds_view c)) (srq_stream_id request) of
        None \<Rightarrow> Inl (SliceStreamNotFound (srq_stream_id request))
      | Some entry \<Rightarrow>
          let shards = cds_content_shards c;
              shard = (if length shards \<le> 1 then 0
                else case ve_content_shard entry of
                  Some n \<Rightarrow> if n < length shards then n else shard_for_flow_key h (view_flow_key entry) (length shards)
                | None \<Rightarrow> shard_for_flow_key h (view_flow_key entry) (length shards))
          in case if shard < length shards then shards ! shard else None of
               None \<Rightarrow> Inl (SliceContentNotFound (srq_stream_id request))
             | Some content \<Rightarrow> slice_read b64
                 (slice_reader_new content (cds_view c) (plg_slice (shg_pipeline config))) request)"

end
