(* ===== verification/Sharded_Worker.thy ===== *)
theory Sharded_Worker
  imports Sharded_Coordinator Api_Handlers
begin

text \<open>
  A worker of the sharded pipeline and an offload worker, from \<^verbatim>\<open>src/src/sharded_pipeline.rs\<close>.  The LRU
  cache of the \<^verbatim>\<open>lru\<close> package is a parameter (\<open>placement_cache\<close>), and so is what a bounded channel
  answers to each send.
\<close>

subsection \<open>Tasks\<close>

text \<open>
  A task owns copies: the observation of the flow without its chunks, and the one chunk.
\<close>

record offload_task =
  oft_raw :: raw_packet
  oft_flow :: flow_observation
  oft_tcp :: tcp_observation
  oft_chunk :: stream_chunk

definition task_from_stream_chunk :: "raw_packet \<Rightarrow> flow_observation \<Rightarrow> tcp_observation \<Rightarrow> stream_chunk \<Rightarrow> offload_task" where
  "task_from_stream_chunk raw flow tcp chunk = \<lparr>oft_raw = raw, oft_flow = flow\<lparr>fo_tcp := None\<rparr>,
     oft_tcp = tcp\<lparr>to_chunks := []\<rparr>, oft_chunk = chunk\<lparr>ch_bytes := Borrowed (as_slice (ch_bytes chunk))\<rparr>\<rparr>"

definition task_chunk_len :: "offload_task \<Rightarrow> nat" where
  "task_chunk_len t = length (as_slice (ch_bytes (oft_chunk t)))"

text \<open>The parser layer and the analyzers that work on a chunk, with the events they add.\<close>

record stream_worker =
  skw_parser :: parser_layer
  skw_analyzers :: "analyzer list"
  skw_events :: "event list"

definition observe_chunk ::
  "pipeline_env \<Rightarrow> decoded_packet \<Rightarrow> flow_observation \<Rightarrow> stream_chunk \<Rightarrow> stream_worker \<Rightarrow> stream_worker option" where
  "observe_chunk env packet flow chunk w =
     map_option (\<lambda>(events, parser). case run_analyzers (analyzer_analyze_stream packet flow chunk) (skw_analyzers w) of
         (evs, analyzers) \<Rightarrow> \<lparr>skw_parser = parser, skw_analyzers = analyzers, skw_events = events @ evs\<rparr>)
       (pl_observe_stream (env_to_value env) (env_from_value env) packet flow chunk (skw_events w) (skw_parser w))"

definition task_process :: "pipeline_env \<Rightarrow> offload_task \<Rightarrow> stream_worker \<Rightarrow> stream_worker option" where
  "task_process env t w =
     (if as_slice (ch_bytes (oft_chunk t)) = [] then Some w
      else observe_chunk env (from_raw (env_slicer env) (oft_raw t))
        ((oft_flow t)\<lparr>fo_tcp := Some ((oft_tcp t)\<lparr>to_chunks := [oft_chunk t]\<rparr>)\<rparr>) (oft_chunk t) w)"

subsection \<open>Dispatch\<close>

datatype flow_placement = PlacedLocal | PlacedOffloaded

record 'l placement_cache =
  plo_new :: "nat \<Rightarrow> 'l"
  plo_get :: "'l \<Rightarrow> flow_key \<Rightarrow> flow_placement option \<times> 'l"
  plo_put :: "'l \<Rightarrow> flow_key \<Rightarrow> flow_placement \<Rightarrow> 'l"

definition placement_table_new :: "'l placement_cache \<Rightarrow> nat \<Rightarrow> 'l" where
  "placement_table_new ops capacity = plo_new ops (max capacity 1)"

text \<open>What \<^verbatim>\<open>try_send\<close> answers, and whether a blocking \<^verbatim>\<open>send\<close> that follows succeeds.\<close>

datatype send_answer = SendOk | SendFull | SendDisconnected

datatype offload_dispatch = Submitted bool | InlineTask offload_task | TaskDropped

definition dispatch_blocking :: "send_answer \<Rightarrow> bool \<Rightarrow> string + offload_dispatch" where
  "dispatch_blocking answer sent_later = (case answer of
     SendOk \<Rightarrow> Inr (Submitted False)
   | SendFull \<Rightarrow> if sent_later then Inr (Submitted True)
       else Inl ''stream offload worker stopped while backpressuring''
   | SendDisconnected \<Rightarrow> Inl ''stream offload worker stopped before accepting a TCP chunk'')"

definition dispatch_inline :: "send_answer \<Rightarrow> offload_task \<Rightarrow> string + offload_dispatch" where
  "dispatch_inline answer t = (case answer of SendOk \<Rightarrow> Inr (Submitted False) | _ \<Rightarrow> Inr (InlineTask t))"

definition dispatch_drop :: "send_answer \<Rightarrow> offload_dispatch" where
  "dispatch_drop answer = (case answer of SendOk \<Rightarrow> Submitted False | _ \<Rightarrow> TaskDropped)"

record offload_handle =
  ofh_workers :: nat
  ofh_policy :: backpressure_policy

definition offload_target :: "(hash_input \<Rightarrow> u64w) \<Rightarrow> offload_handle \<Rightarrow> flow_key \<Rightarrow> nat" where
  "offload_target h handle key = shard_for_flow_key h key (ofh_workers handle)"

definition offload_dispatch_task ::
  "(hash_input \<Rightarrow> u64w) \<Rightarrow> offload_handle \<Rightarrow> send_answer \<Rightarrow> bool \<Rightarrow> offload_task \<Rightarrow> bool \<Rightarrow> string + offload_dispatch" where
  "offload_dispatch_task h handle answer sent_later t preserve_affinity =
     (if \<not> offload_target h handle (fo_key (oft_flow t)) < ofh_workers handle then Inl ''stream offload has no workers''
      else case (if preserve_affinity \<and> ofh_policy handle = InlinePolicy then BlockPolicy else ofh_policy handle) of
        BlockPolicy \<Rightarrow> dispatch_blocking answer sent_later
      | InlinePolicy \<Rightarrow> dispatch_inline answer t
      | DropPolicy \<Rightarrow> Inr (dispatch_drop answer))"

subsection \<open>A worker\<close>

text \<open>
  \<open>wrt_answers\<close> tells what the channels answer to the sends still to come and \<open>wrt_sent\<close> keeps the tasks
  that were accepted, with the index of the offload worker.
\<close>

record 'l worker_runtime =
  wrt_mode :: run_mode
  wrt_flows :: flow_table
  wrt_inventory :: stream_inventory
  wrt_content :: stream_content
  wrt_pattern :: pattern_engine
  wrt_stream :: stream_worker
  wrt_offload :: "offload_handle option"
  wrt_placement :: 'l
  wrt_stats :: worker_stats
  wrt_answers :: "nat \<Rightarrow> send_answer \<times> bool"
  wrt_sends :: nat
  wrt_sent :: "(nat \<times> offload_task) list"

definition worker_stats_new :: "nat \<Rightarrow> worker_stats" where
  "worker_stats_new ident = \<lparr>wst_id = ident, wst_decode = counters_default, wst_flow = stats_default,
     wst_inventory = inventory_stats_default, wst_content = content_stats_default,
     wst_parser = stream_parser_stats_default, wst_pattern = pattern_stats_default, wst_submitted_chunks = 0,
     wst_submitted_bytes = 0, wst_blocked_chunks = 0, wst_blocked_bytes = 0, wst_inline_chunks = 0,
     wst_inline_bytes = 0, wst_dropped_chunks = 0, wst_dropped_bytes = 0\<rparr>"

definition worker_runtime_new ::
  "'l placement_cache \<Rightarrow> nat \<Rightarrow> pipeline_config \<Rightarrow> flow_table_config \<Rightarrow> pattern_config \<Rightarrow> analyzer list \<Rightarrow>
   offload_handle option \<Rightarrow> (nat \<Rightarrow> send_answer \<times> bool) \<Rightarrow> 'l worker_runtime" where
  "worker_runtime_new ops ident config flow_config pattern_config analyzers offload answers =
     \<lparr>wrt_mode = plg_mode config, wrt_flows = flow_table_new flow_config,
      wrt_inventory = inventory_new (plg_inventory config), wrt_content = stream_content_new (plg_content config),
      wrt_pattern = pattern_engine_new pattern_config,
      wrt_stream = \<lparr>skw_parser = parser_layer_new (plg_parser config), skw_analyzers = analyzers, skw_events = []\<rparr>,
      wrt_offload = offload, wrt_placement = placement_table_new ops (fc_max_flows flow_config),
      wrt_stats = worker_stats_new ident, wrt_answers = answers, wrt_sends = 0, wrt_sent = []\<rparr>"

definition observe_offload_submitted :: "nat \<Rightarrow> worker_stats \<Rightarrow> worker_stats" where
  "observe_offload_submitted n s = s\<lparr>wst_submitted_chunks := sat_add (wst_submitted_chunks s) 1,
     wst_submitted_bytes := sat_add (wst_submitted_bytes s) n\<rparr>"

definition observe_offload_blocked :: "nat \<Rightarrow> worker_stats \<Rightarrow> worker_stats" where
  "observe_offload_blocked n s = s\<lparr>wst_blocked_chunks := sat_add (wst_blocked_chunks s) 1,
     wst_blocked_bytes := sat_add (wst_blocked_bytes s) n\<rparr>"

definition observe_offload_inline :: "nat \<Rightarrow> worker_stats \<Rightarrow> worker_stats" where
  "observe_offload_inline n s = s\<lparr>wst_inline_chunks := sat_add (wst_inline_chunks s) 1,
     wst_inline_bytes := sat_add (wst_inline_bytes s) n\<rparr>"

definition observe_offload_dropped :: "nat \<Rightarrow> worker_stats \<Rightarrow> worker_stats" where
  "observe_offload_dropped n s = s\<lparr>wst_dropped_chunks := sat_add (wst_dropped_chunks s) 1,
     wst_dropped_bytes := sat_add (wst_dropped_bytes s) n\<rparr>"

text \<open>Processing a task on the worker itself.\<close>

definition process_inline ::
  "pipeline_env \<Rightarrow> offload_task \<Rightarrow> 'l worker_runtime \<Rightarrow> (string + 'l worker_runtime) option" where
  "process_inline env t rt = map_option (\<lambda>w. Inr (rt\<lparr>wrt_stream := w,
     wrt_stats := observe_offload_inline (task_chunk_len t) (wrt_stats rt)\<rparr>)) (task_process env t (wrt_stream rt))"

text \<open>The outcome of a dispatch.\<close>

definition after_dispatch ::
  "pipeline_env \<Rightarrow> (hash_input \<Rightarrow> u64w) \<Rightarrow> 'l placement_cache \<Rightarrow> offload_handle \<Rightarrow> flow_key \<Rightarrow> offload_task \<Rightarrow>
   offload_dispatch \<Rightarrow> 'l worker_runtime \<Rightarrow> (string + 'l worker_runtime) option" where
  "after_dispatch env h ops handle key t outcome rt = (case outcome of
     Submitted blocked \<Rightarrow>
       let s1 = observe_offload_submitted (task_chunk_len t) (wrt_stats rt);
           s2 = (if blocked then observe_offload_blocked (task_chunk_len t) s1 else s1)
       in Some (Inr (rt\<lparr>wrt_placement := plo_put ops (wrt_placement rt) key PlacedOffloaded, wrt_stats := s2,
            wrt_sent := wrt_sent rt @ [(offload_target h handle key, t)]\<rparr>))
   | InlineTask t1 \<Rightarrow> process_inline env t1 (rt\<lparr>wrt_placement := plo_put ops (wrt_placement rt) key PlacedLocal\<rparr>)
   | TaskDropped \<Rightarrow> Some (Inr (rt\<lparr>wrt_stats := observe_offload_dropped (task_chunk_len t) (wrt_stats rt)\<rparr>)))"

definition process_tcp_stream_chunk ::
  "pipeline_env \<Rightarrow> (hash_input \<Rightarrow> u64w) \<Rightarrow> 'l placement_cache \<Rightarrow> routed_packet \<Rightarrow> decoded_packet \<Rightarrow>
   flow_observation \<Rightarrow> tcp_observation \<Rightarrow> stream_chunk \<Rightarrow> 'l worker_runtime \<Rightarrow> (string + 'l worker_runtime) option" where
  "process_tcp_stream_chunk env h ops routed packet flow tcp chunk rt =
     (let key = fo_key flow;
          t = task_from_stream_chunk (rtp_raw routed) flow tcp chunk
      in case plo_get ops (wrt_placement rt) key of
           (Some PlacedLocal, l) \<Rightarrow> process_inline env t (rt\<lparr>wrt_placement := l\<rparr>)
         | (_, l) \<Rightarrow>
             let rt1 = rt\<lparr>wrt_placement := l\<rparr> in
             (case wrt_offload rt1 of
                Some handle \<Rightarrow>
                  (case plo_get ops (wrt_placement rt1) key of (placed, l2) \<Rightarrow>
                     let (answer, sent_later) = wrt_answers rt1 (wrt_sends rt1);
                         rt2 = rt1\<lparr>wrt_placement := l2, wrt_sends := wrt_sends rt1 + 1\<rparr>
                     in case offload_dispatch_task h handle answer sent_later t (placed = Some PlacedOffloaded) of
                          Inl e \<Rightarrow> Some (Inl e)
                        | Inr outcome \<Rightarrow> after_dispatch env h ops handle key t outcome rt2)
              | None \<Rightarrow> map_option (\<lambda>w. Inr (rt1\<lparr>wrt_stream := w\<rparr>)) (observe_chunk env packet flow chunk (wrt_stream rt1))))"

fun process_chunks ::
  "pipeline_env \<Rightarrow> (hash_input \<Rightarrow> u64w) \<Rightarrow> 'l placement_cache \<Rightarrow> routed_packet \<Rightarrow> decoded_packet \<Rightarrow>
   flow_observation \<Rightarrow> tcp_observation \<Rightarrow> stream_chunk list \<Rightarrow> 'l worker_runtime \<Rightarrow> (string + 'l worker_runtime) option" where
  "process_chunks env h ops routed packet flow tcp [] rt = Some (Inr rt)"
| "process_chunks env h ops routed packet flow tcp (c # cs) rt =
     (case process_tcp_stream_chunk env h ops routed packet flow tcp c rt of
        None \<Rightarrow> None
      | Some (Inl e) \<Rightarrow> Some (Inl e)
      | Some (Inr rt1) \<Rightarrow> process_chunks env h ops routed packet flow tcp cs rt1)"

text \<open>What only the owner of a flow keeps: inventory, content and pattern matches.\<close>

definition observe_owned ::
  "pipeline_env \<Rightarrow> routed_packet \<Rightarrow> decoded_packet \<Rightarrow> flow_observation \<Rightarrow> 'l worker_runtime \<Rightarrow> 'l worker_runtime option" where
  "observe_owned env routed packet flow rt =
     (if rtp_owner_shard routed \<noteq> wst_id (wrt_stats rt) then Some rt
      else case iv_observe_flow (env_b64 env) (wrt_inventory rt) packet flow (Some (rtp_owner_shard routed))
          (skw_events (wrt_stream rt)) of (inventory, events) \<Rightarrow>
        map_option (\<lambda>(content, update). case update of
            None \<Rightarrow> rt\<lparr>wrt_inventory := inventory, wrt_content := content, wrt_stream := (wrt_stream rt)\<lparr>skw_events := events\<rparr>\<rparr>
          | Some u \<Rightarrow> (case scan_update (env_b64 env) (wrt_pattern rt) packet content u events of
              (engine, events1) \<Rightarrow> rt\<lparr>wrt_inventory := inventory, wrt_content := content, wrt_pattern := engine,
                wrt_stream := (wrt_stream rt)\<lparr>skw_events := events1\<rparr>\<rparr>))
          (sc_observe_flow (wrt_content rt) packet flow))"

definition worker_observe_datagram ::
  "pipeline_env \<Rightarrow> decoded_packet \<Rightarrow> flow_observation \<Rightarrow> 'l worker_runtime \<Rightarrow> 'l worker_runtime" where
  "worker_observe_datagram env packet flow rt = (case transport_payload_of packet of
     None \<Rightarrow> rt
   | Some t \<Rightarrow> if fo_tcp flow \<noteq> None then rt
       else (case pl_observe_datagram (env_to_value env) (env_from_value env) packet flow (tp_bytes t)
           (skw_events (wrt_stream rt)) (skw_parser (wrt_stream rt)) of
         (events, parser) \<Rightarrow> rt\<lparr>wrt_stream := (wrt_stream rt)\<lparr>skw_events := events, skw_parser := parser\<rparr>\<rparr>))"

definition worker_observe_tcp ::
  "pipeline_env \<Rightarrow> (hash_input \<Rightarrow> u64w) \<Rightarrow> 'l placement_cache \<Rightarrow> routed_packet \<Rightarrow> decoded_packet \<Rightarrow>
   flow_observation \<Rightarrow> 'l worker_runtime \<Rightarrow> (string + 'l worker_runtime) option" where
  "worker_observe_tcp env h ops routed packet flow rt = (case fo_tcp flow of
     None \<Rightarrow> Some (Inr rt)
   | Some tcp \<Rightarrow>
       if rtp_owner_shard routed = wst_id (wrt_stats rt) \<or> rtp_kind routed \<noteq> StripedFlow
       then process_chunks env h ops routed packet flow tcp (to_chunks tcp) rt else Some (Inr rt))"

definition worker_run_analyzers :: "decoded_packet \<Rightarrow> 'l worker_runtime \<Rightarrow> 'l worker_runtime" where
  "worker_run_analyzers packet rt = (case run_analyzers (analyzer_analyze packet) (skw_analyzers (wrt_stream rt)) of
     (evs, analyzers) \<Rightarrow> rt\<lparr>wrt_stream := (wrt_stream rt)\<lparr>skw_analyzers := analyzers,
       skw_events := skw_events (wrt_stream rt) @ evs\<rparr>\<rparr>)"

definition worker_process_packet ::
  "pipeline_env \<Rightarrow> (hash_input \<Rightarrow> u64w) \<Rightarrow> 'l placement_cache \<Rightarrow> 'l worker_runtime \<Rightarrow> routed_packet \<Rightarrow>
   (string + 'l worker_runtime) option" where
  "worker_process_packet env h ops rt routed = (case wrt_mode rt of
     Dump \<Rightarrow> Some (Inr (rt\<lparr>wrt_stream := (wrt_stream rt)\<lparr>skw_events := skw_events (wrt_stream rt)
       @ [packet_dump (env_b64 env) (rtp_raw routed)]\<rparr>\<rparr>))
   | Analyze \<Rightarrow>
       let packet = from_raw (env_slicer env) (rtp_raw routed);
           status = decode_status_of packet;
           rt0 = rt\<lparr>wrt_stats := (wrt_stats rt)\<lparr>wst_decode := counters_observe (wst_decode (wrt_stats rt)) status\<rparr>\<rparr>
       in if is_decode_error status then Some (Inr rt0)
          else (case (case rtp_flow_route routed of
              Some route \<Rightarrow> observe_with_route (wrt_flows rt0) packet route
            | None \<Rightarrow> flow_table_observe (wrt_flows rt0) packet) of (flows, flow) \<Rightarrow>
            let rt1 = rt0\<lparr>wrt_flows := flows\<rparr>
            in map_option (map_sum id (worker_run_analyzers packet))
                 (case flow of
                    None \<Rightarrow> Some (Inr rt1)
                  | Some f \<Rightarrow> Option.bind (observe_owned env routed packet f rt1) (\<lambda>rt2.
                      worker_observe_tcp env h ops routed packet f (worker_observe_datagram env packet f rt2)))))"

definition worker_refresh_stats :: "'l worker_runtime \<Rightarrow> 'l worker_runtime" where
  "worker_refresh_stats rt = rt\<lparr>wrt_stats := (wrt_stats rt)\<lparr>wst_flow := flow_table_stats_of (wrt_flows rt),
     wst_inventory := inventory_stats_of (wrt_inventory rt), wst_content := content_stats_of (wrt_content rt),
     wst_parser := parser_stats_of (skw_parser (wrt_stream rt)), wst_pattern := pattern_stats_of (wrt_pattern rt)\<rparr>\<rparr>"

definition worker_stats_snapshot :: "'l worker_runtime \<Rightarrow> worker_stats \<times> 'l worker_runtime" where
  "worker_stats_snapshot rt = (wrt_stats (worker_refresh_stats rt), worker_refresh_stats rt)"

subsection \<open>Flushing\<close>

text \<open>Times are in milliseconds; \<open>channel_full\<close> tells whether \<^verbatim>\<open>try_send\<close> of the statistics finds no room.\<close>

record flush_state =
  fls_event_batch_capacity :: nat
  fls_last_event_flush :: nat
  fls_last_stats_flush :: nat

definition flush_state_new :: "nat \<Rightarrow> nat \<Rightarrow> flush_state" where
  "flush_state_new capacity now = \<lparr>fls_event_batch_capacity = capacity, fls_last_event_flush = now, fls_last_stats_flush = now\<rparr>"

definition flush_due :: "flush_state \<Rightarrow> nat \<Rightarrow> bool \<Rightarrow> event list \<Rightarrow> bool" where
  "flush_due f now force_events events \<longleftrightarrow> events \<noteq> [] \<and>
     (force_events \<or> length events \<ge> fls_event_batch_capacity f \<or> now - fls_last_event_flush f \<ge> 100)"

definition worker_flush ::
  "nat \<Rightarrow> bool \<Rightarrow> bool \<Rightarrow> flush_state \<Rightarrow> 'l worker_runtime \<Rightarrow> worker_message list \<times> flush_state \<times> 'l worker_runtime" where
  "worker_flush now channel_full force_events f rt =
     (let due = flush_due f now force_events (skw_events (wrt_stream rt));
          events_out = (if due then [EventsMessage (skw_events (wrt_stream rt))] else []);
          rt1 = (if due then rt\<lparr>wrt_stream := (wrt_stream rt)\<lparr>skw_events := []\<rparr>\<rparr> else rt);
          f1 = (if due then f\<lparr>fls_last_event_flush := now\<rparr> else f)
      in if now - fls_last_stats_flush f1 \<ge> 500
         then (case worker_stats_snapshot rt1 of (snapshot, rt2) \<Rightarrow>
           (events_out @ (if channel_full then [] else [StatsSnapshotMessage snapshot]),
            f1\<lparr>fls_last_stats_flush := now\<rparr>, rt2))
         else (events_out, f1, rt1))"

subsection \<open>The loop of a worker\<close>

datatype worker_command = PacketCommand routed_packet | SliceCommand slice_request flow_key "pattern_match list" | ShutdownCommand

datatype 'c received = Received 'c | RecvTimeout | RecvDisconnected

text \<open>What a turn of the loop gets: the command, the clock, and whether the output channel has no room.\<close>

record 'c worker_turn =
  wtn_received :: "'c received"
  wtn_now :: nat
  wtn_full :: bool

definition worker_slice ::
  "(bytes \<Rightarrow> string) \<Rightarrow> pipeline_config \<Rightarrow> 'l worker_runtime \<Rightarrow> slice_request \<Rightarrow> flow_key \<Rightarrow> pattern_match list \<Rightarrow>
   slice_error + content_slice" where
  "worker_slice b64 config rt request key matches = slice_with_context b64 (wrt_content rt)
     (slr_config (slice_reader_new (wrt_content rt) (view_new (plg_view config)) (plg_slice config))) request key matches"

definition worker_report_of :: "'l worker_runtime \<Rightarrow> worker_message list" where
  "worker_report_of rt =
     (if skw_events (wrt_stream rt) = [] then [] else [EventsMessage (skw_events (wrt_stream rt))])
     @ [StatsMessage \<lparr>wre_stats = wrt_stats (worker_refresh_stats rt), wre_content = wrt_content rt\<rparr>]"

text \<open>
  The messages a worker sends, from the turns of its loop; an error ends the thread without a report.  When
  the list of turns ends, the worker is still waiting.
\<close>

fun run_worker ::
  "pipeline_env \<Rightarrow> (hash_input \<Rightarrow> u64w) \<Rightarrow> 'l placement_cache \<Rightarrow> worker_command worker_turn list \<Rightarrow> flush_state \<Rightarrow>
   'l worker_runtime \<Rightarrow> (string option \<times> worker_message list) option" where
  "run_worker env h ops [] f rt = Some (None, [])"
| "run_worker env h ops (turn # turns) f rt =
     (let flush_then = (\<lambda>force_events rt. case worker_flush (wtn_now turn) (wtn_full turn) force_events f rt of
            (out, f1, rt1) \<Rightarrow> map_option (map_prod id ((@) out)) (run_worker env h ops turns f1 rt1))
      in case wtn_received turn of
           RecvTimeout \<Rightarrow> flush_then True rt
         | RecvDisconnected \<Rightarrow> Some (None, worker_report_of rt)
         | Received ShutdownCommand \<Rightarrow> Some (None, worker_report_of rt)
         | Received (SliceCommand _ _ _) \<Rightarrow> flush_then False rt
         | Received (PacketCommand routed) \<Rightarrow> (case worker_process_packet env h ops rt routed of
             None \<Rightarrow> None
           | Some (Inl e) \<Rightarrow> Some (Some e, [])
           | Some (Inr rt1) \<Rightarrow> flush_then False rt1))"

subsection \<open>An offload worker\<close>

record offload_runtime =
  ofr_id :: nat
  ofr_stream :: stream_worker
  ofr_processed_chunks :: nat
  ofr_processed_bytes :: nat

definition offload_runtime_new :: "nat \<Rightarrow> pipeline_config \<Rightarrow> analyzer list \<Rightarrow> offload_runtime" where
  "offload_runtime_new ident config analyzers = \<lparr>ofr_id = ident,
     ofr_stream = \<lparr>skw_parser = parser_layer_new (plg_parser config), skw_analyzers = analyzers, skw_events = []\<rparr>,
     ofr_processed_chunks = 0, ofr_processed_bytes = 0\<rparr>"

definition process_task :: "pipeline_env \<Rightarrow> offload_runtime \<Rightarrow> offload_task \<Rightarrow> offload_runtime option" where
  "process_task env rt t = map_option (\<lambda>w. rt\<lparr>ofr_stream := w,
     ofr_processed_chunks := sat_add (ofr_processed_chunks rt) 1,
     ofr_processed_bytes := sat_add (ofr_processed_bytes rt) (task_chunk_len t)\<rparr>) (task_process env t (ofr_stream rt))"

definition offload_stats_snapshot :: "offload_runtime \<Rightarrow> offload_worker_stats" where
  "offload_stats_snapshot rt = \<lparr>ows_id = ofr_id rt, ows_processed_chunks = ofr_processed_chunks rt,
     ows_processed_bytes = ofr_processed_bytes rt, ows_parser = parser_stats_of (skw_parser (ofr_stream rt))\<rparr>"

definition offload_flush ::
  "nat \<Rightarrow> bool \<Rightarrow> bool \<Rightarrow> flush_state \<Rightarrow> offload_runtime \<Rightarrow> worker_message list \<times> flush_state \<times> offload_runtime" where
  "offload_flush now channel_full force_events f rt =
     (let due = flush_due f now force_events (skw_events (ofr_stream rt));
          events_out = (if due then [EventsMessage (skw_events (ofr_stream rt))] else []);
          rt1 = (if due then rt\<lparr>ofr_stream := (ofr_stream rt)\<lparr>skw_events := []\<rparr>\<rparr> else rt);
          f1 = (if due then f\<lparr>fls_last_event_flush := now\<rparr> else f)
      in if now - fls_last_stats_flush f1 \<ge> 500
         then (events_out @ (if channel_full then [] else [OffloadStatsSnapshotMessage (offload_stats_snapshot rt1)]),
            f1\<lparr>fls_last_stats_flush := now\<rparr>, rt1)
         else (events_out, f1, rt1))"

datatype offload_command = TaskCommand offload_task | OffloadShutdown

definition offload_report_of :: "offload_runtime \<Rightarrow> worker_message list" where
  "offload_report_of rt =
     (if skw_events (ofr_stream rt) = [] then [] else [EventsMessage (skw_events (ofr_stream rt))])
     @ [OffloadStatsMessage (offload_stats_snapshot rt)]"

fun run_stream_offload_worker ::
  "pipeline_env \<Rightarrow> offload_command worker_turn list \<Rightarrow> flush_state \<Rightarrow> offload_runtime \<Rightarrow> worker_message list option" where
  "run_stream_offload_worker env [] f rt = Some []"
| "run_stream_offload_worker env (turn # turns) f rt =
     (let flush_then = (\<lambda>force_events rt. case offload_flush (wtn_now turn) (wtn_full turn) force_events f rt of
            (out, f1, rt1) \<Rightarrow> map_option ((@) out) (run_stream_offload_worker env turns f1 rt1))
      in case wtn_received turn of
           RecvTimeout \<Rightarrow> flush_then True rt
         | RecvDisconnected \<Rightarrow> Some (offload_report_of rt)
         | Received OffloadShutdown \<Rightarrow> Some (offload_report_of rt)
         | Received (TaskCommand t) \<Rightarrow> Option.bind (process_task env rt t) (flush_then False))"

end
