(* ===== verification/Sharded_Run.thy ===== *)
theory Sharded_Run
  imports Sharded_Worker
begin

text \<open>
  The run of the sharded pipeline as the coordinator sees it, from \<^verbatim>\<open>src/src/sharded_pipeline.rs\<close>.  What the
  channels and the threads answer is an argument (the scripts below); \<open>None\<close> is a run that never returns:
  a script that ends while the coordinator still waits, or a component that does not return.
\<close>

subsection \<open>Scripts\<close>

text \<open>What \<^verbatim>\<open>try_recv\<close> finds: the messages that wait, and whether the channel is closed behind them.\<close>

type_synonym waiting = "worker_message list \<times> bool"

text \<open>The attempts to send one command; after a full queue the coordinator drains what waits.\<close>

datatype send_attempt = AttemptOk | AttemptFull waiting | AttemptDisconnected

datatype join_answer = JoinOk | JoinError string | JoinPanic

text \<open>The end of a pool: the sends of the shutdown command, the answers of \<^verbatim>\<open>recv\<close> and those of \<^verbatim>\<open>join\<close>.\<close>

record shutdown_script =
  shp_sends :: "send_attempt list list"
  shp_answers :: "worker_message option list"
  shp_joins :: "join_answer list"

text \<open>One turn of the main loop.\<close>

record turn_script =
  tsp_sends :: "send_attempt list list"
  tsp_waiting :: waiting
  tsp_queue_lens :: "nat list"
  tsp_output_len :: nat
  tsp_offload_lens :: "nat list"
  tsp_publish_now :: nat
  tsp_report_now :: nat

subsection \<open>Sending packets\<close>

definition drain_output ::
  "pipeline_env \<Rightarrow> 'k event_sink \<Rightarrow> waiting \<Rightarrow> 'k coordinator \<Rightarrow> (string option \<times> 'k coordinator) option" where
  "drain_output env ops w c = map_option (\<lambda>(e, rest, c1). (case e of
       Some x \<Rightarrow> (Some x, c1)
     | None \<Rightarrow> (if snd w then Some ''worker output channel disconnected'' else None, c1)))
     (drain_available env ops (fst w) c)"

fun send_packet_loop ::
  "pipeline_env \<Rightarrow> 'k event_sink \<Rightarrow> nat \<Rightarrow> send_attempt list \<Rightarrow> 'k coordinator \<Rightarrow>
   (string option \<times> 'k coordinator) option" where
  "send_packet_loop env ops shard [] c = None"
| "send_packet_loop env ops shard (AttemptOk # as) c = Some (None, c)"
| "send_packet_loop env ops shard (AttemptDisconnected # as) c =
     Some (Some (''worker shard '' @ show_nat shard @ '' stopped before accepting packet''), c)"
| "send_packet_loop env ops shard (AttemptFull w # as) c = (case drain_output env ops w c of
     None \<Rightarrow> None
   | Some (Some e, c1) \<Rightarrow> Some (Some e, c1)
   | Some (None, c1) \<Rightarrow> send_packet_loop env ops shard as c1)"

definition send_packet ::
  "pipeline_env \<Rightarrow> 'k event_sink \<Rightarrow> nat \<Rightarrow> nat \<Rightarrow> send_attempt list \<Rightarrow> 'k coordinator \<Rightarrow>
   (string option \<times> 'k coordinator) option" where
  "send_packet env ops workers shard attempts c =
     (if \<not> shard < workers then Some (Some (''invalid worker shard index '' @ show_nat shard), c)
      else send_packet_loop env ops shard attempts c)"

text \<open>
  A batch: every packet is routed and sent before the next one is routed.  The result holds the commands
  that the queues accepted, with their shard.
\<close>

fun route_batch ::
  "pipeline_env \<Rightarrow> 'k event_sink \<Rightarrow> (hash_input \<Rightarrow> u64w) \<Rightarrow> nat \<Rightarrow> send_attempt list list \<Rightarrow> raw_packet list \<Rightarrow>
   shard_coordinator \<Rightarrow> 'k coordinator \<Rightarrow>
   (string option \<times> (nat \<times> routed_packet) list \<times> shard_coordinator \<times> 'k coordinator) option" where
  "route_batch env ops h workers sends [] router c = Some (None, [], router, c)"
| "route_batch env ops h workers sends (raw # raws) router c = (case route_packet h router raw of
     None \<Rightarrow> None
   | Some (router1, route) \<Rightarrow>
       let packet = \<lparr>rtp_raw = raw, rtp_owner_shard = sr_owner_shard route, rtp_kind = sr_kind route,
             rtp_flow_route = sr_flow_route route\<rparr>
       in case send_packet env ops workers (sr_shard route) (case sends of [] \<Rightarrow> [] | s # _ \<Rightarrow> s) c of
            None \<Rightarrow> None
          | Some (Some e, c1) \<Rightarrow> Some (Some e, [], router1, c1)
          | Some (None, c1) \<Rightarrow> map_option (\<lambda>(e, sent, rest). (e, (sr_shard route, packet) # sent, rest))
              (route_batch env ops h workers (tl sends) raws router1 c1))"

subsection \<open>Shutdown\<close>

record 'k shutdown_state =
  shd_coordinator :: "'k coordinator"
  shd_received :: nat
  shd_error :: "string option"

definition note_error :: "string \<Rightarrow> 'k shutdown_state \<Rightarrow> 'k shutdown_state" where
  "note_error e st = st\<lparr>shd_error := record_first_error (shd_error st) e\<rparr>"

definition shutdown_events ::
  "pipeline_env \<Rightarrow> 'k event_sink \<Rightarrow> event list \<Rightarrow> 'k shutdown_state \<Rightarrow> 'k shutdown_state option" where
  "shutdown_events env ops events st = map_option (\<lambda>(e, c).
       let st1 = st\<lparr>shd_coordinator := c\<rparr> in (case e of None \<Rightarrow> st1 | Some x \<Rightarrow> note_error x st1))
     (write_events env ops (shd_coordinator st) events)"

text \<open>A message while the workers end, and one while the offload workers end.\<close>

fun worker_shutdown_message ::
  "pipeline_env \<Rightarrow> 'k event_sink \<Rightarrow> worker_message \<Rightarrow> 'k shutdown_state \<Rightarrow> 'k shutdown_state option" where
  "worker_shutdown_message env ops (StatsMessage r) st = Some (st\<lparr>shd_received := sat_add (shd_received st) 1,
     shd_coordinator := store_worker_content (replace_worker_stats_snapshot (shd_coordinator st) (wre_stats r))
       (wst_id (wre_stats r)) (wre_content r)\<rparr>)"
| "worker_shutdown_message env ops (EventsMessage events) st = shutdown_events env ops events st"
| "worker_shutdown_message env ops (StatsSnapshotMessage w) st =
     Some (st\<lparr>shd_coordinator := replace_worker_stats_snapshot (shd_coordinator st) w\<rparr>)"
| "worker_shutdown_message env ops (OffloadStatsSnapshotMessage w) st =
     Some (st\<lparr>shd_coordinator := replace_stream_offload_stats_snapshot (shd_coordinator st) w\<rparr>)"
| "worker_shutdown_message env ops (OffloadStatsMessage w) st =
     Some (st\<lparr>shd_coordinator := replace_stream_offload_stats_snapshot (shd_coordinator st) w\<rparr>)"

fun offload_shutdown_message ::
  "pipeline_env \<Rightarrow> 'k event_sink \<Rightarrow> worker_message \<Rightarrow> 'k shutdown_state \<Rightarrow> 'k shutdown_state option" where
  "offload_shutdown_message env ops (OffloadStatsMessage w) st = Some (st\<lparr>shd_received := sat_add (shd_received st) 1,
     shd_coordinator := replace_stream_offload_stats_snapshot (shd_coordinator st) w\<rparr>)"
| "offload_shutdown_message env ops (EventsMessage events) st = shutdown_events env ops events st"
| "offload_shutdown_message env ops m st = map_option (\<lambda>(e, c).
       let st1 = st\<lparr>shd_coordinator := c\<rparr> in (case e of None \<Rightarrow> st1 | Some x \<Rightarrow> note_error x st1))
     (write_worker_message env ops (shd_coordinator st) m)"

text \<open>\<open>handle\<close> is one of the two, \<open>closed\<close> its error when the channel closes too early.\<close>

fun shutdown_drain ::
  "(worker_message \<Rightarrow> 'k shutdown_state \<Rightarrow> 'k shutdown_state option) \<Rightarrow> string \<Rightarrow> waiting \<Rightarrow> 'k shutdown_state \<Rightarrow>
   'k shutdown_state option" where
  "shutdown_drain handle closed ([], disconnected) st = Some (if disconnected then note_error closed st else st)"
| "shutdown_drain handle closed (m # ms, disconnected) st =
     Option.bind (handle m st) (shutdown_drain handle closed (ms, disconnected))"

fun send_shutdown ::
  "(worker_message \<Rightarrow> 'k shutdown_state \<Rightarrow> 'k shutdown_state option) \<Rightarrow> string \<Rightarrow> send_attempt list \<Rightarrow>
   'k shutdown_state \<Rightarrow> 'k shutdown_state option" where
  "send_shutdown handle closed [] st = None"
| "send_shutdown handle closed (AttemptOk # as) st = Some st"
| "send_shutdown handle closed (AttemptDisconnected # as) st = Some st"
| "send_shutdown handle closed (AttemptFull w # as) st =
     Option.bind (shutdown_drain handle closed w st) (send_shutdown handle closed as)"

fun shutdown_receive ::
  "(worker_message \<Rightarrow> 'k shutdown_state \<Rightarrow> 'k shutdown_state option) \<Rightarrow> string \<Rightarrow> nat \<Rightarrow> worker_message option list \<Rightarrow>
   'k shutdown_state \<Rightarrow> 'k shutdown_state option" where
  "shutdown_receive handle closed n [] st = (if n \<le> shd_received st then Some st else None)"
| "shutdown_receive handle closed n (a # as) st =
     (if n \<le> shd_received st then Some st
      else case a of
        None \<Rightarrow> Some (note_error closed st)
      | Some m \<Rightarrow> Option.bind (handle m st) (shutdown_receive handle closed n as))"

fun note_joins :: "string \<Rightarrow> nat \<Rightarrow> join_answer list \<Rightarrow> 'k shutdown_state \<Rightarrow> 'k shutdown_state" where
  "note_joins label ident [] st = st"
| "note_joins label ident (j # js) st = note_joins label (ident + 1) js (case j of
     JoinOk \<Rightarrow> st
   | JoinError e \<Rightarrow> note_error e st
   | JoinPanic \<Rightarrow> note_error (label @ show_nat ident @ '' panicked'') st)"

definition pool_end ::
  "(worker_message \<Rightarrow> 'k shutdown_state \<Rightarrow> 'k shutdown_state option) \<Rightarrow> string \<Rightarrow> string \<Rightarrow> nat \<Rightarrow> shutdown_script \<Rightarrow>
   'k shutdown_state \<Rightarrow> 'k shutdown_state option" where
  "pool_end handle closed label n script st =
     Option.bind (foldl (\<lambda>r attempts. Option.bind r (send_shutdown handle closed attempts))
         (Some (st\<lparr>shd_received := 0\<rparr>)) (take n (shp_sends script @ replicate n [])))
       (\<lambda>st1. map_option (note_joins label 0 (shp_joins script)) (shutdown_receive handle closed n (shp_answers script) st1))"

fun flush_sinks :: "'k event_sink \<Rightarrow> 'k list \<Rightarrow> string option \<Rightarrow> 'k list \<times> string option" where
  "flush_sinks ops [] e = ([], e)"
| "flush_sinks ops (k # ks) e = (case esk_flush ops k of
     Inl x \<Rightarrow> map_prod ((#) k) id (flush_sinks ops ks (record_first_error e x))
   | Inr k1 \<Rightarrow> map_prod ((#) k1) id (flush_sinks ops ks e))"

definition pool_shutdown ::
  "pipeline_env \<Rightarrow> 'k event_sink \<Rightarrow> nat \<Rightarrow> nat \<Rightarrow> shutdown_script \<Rightarrow> shutdown_script \<Rightarrow> 'k coordinator \<Rightarrow>
   (string option \<times> 'k coordinator) option" where
  "pool_shutdown env ops workers offload_workers script offload_script c =
     map_option (\<lambda>st. case flush_sinks ops (cds_sinks (shd_coordinator st)) (shd_error st) of
         (sinks, e) \<Rightarrow> (e, (shd_coordinator st)\<lparr>cds_sinks := sinks\<rparr>))
       (Option.bind (pool_end (worker_shutdown_message env ops) ''worker output channel closed before final stats''
            ''worker shard '' workers script \<lparr>shd_coordinator = c, shd_received = 0, shd_error = None\<rparr>)
          (\<lambda>st. if offload_workers = 0 then Some st
            else pool_end (offload_shutdown_message env ops)
              ''worker output channel closed before stream offload final stats'' ''stream offload worker ''
              offload_workers offload_script st))"

subsection \<open>The main loop\<close>

record ('s, 'k) sharded_run =
  shr_coordinator :: "'k coordinator"
  shr_router :: shard_coordinator
  shr_batch :: packet_batch
  shr_health :: health_reporter
  shr_source :: 's

datatype ('s, 'k) sharded_turn =
    ShardedFailed string "('s, 'k) sharded_run"
  | ShardedOver "('s, 'k) sharded_run"
  | ShardedOn "('s, 'k) sharded_run"

definition pool_queue_snapshot :: "sharded_config \<Rightarrow> turn_script \<Rightarrow> shard_metrics \<Rightarrow> sharded_queue_snapshot" where
  "pool_queue_snapshot c t m = metrics_queue_snapshot m
     (map (\<lambda>shard. \<lparr>ql_shard = shard, ql_len = (if shard < length (tsp_queue_lens t) then tsp_queue_lens t ! shard else 0),
        ql_capacity = shg_worker_queue_depth c\<rparr>) [0..<shg_worker_count c])
     (tsp_output_len t) (shg_event_queue_depth c)"

text \<open>The last of the longest queues, as \<^verbatim>\<open>max_by_key\<close>; every queue has the same capacity.\<close>

definition apply_offload_queue_metrics :: "sharded_config \<Rightarrow> nat list \<Rightarrow> pipeline_stats \<Rightarrow> pipeline_stats" where
  "apply_offload_queue_metrics c lens s = s\<lparr>ps_queues := (ps_queues s)\<lparr>qg_offload_queue_max_len := foldl max 0 lens,
     qg_offload_queue_max_capacity := (if lens = [] then 0 else ofg_queue_depth (shg_offload c))\<rparr>\<rparr>"

text \<open>The metrics, the queue delta and the report at the end of a turn.\<close>

definition sharded_report ::
  "sharded_config \<Rightarrow> 's packet_source \<Rightarrow> turn_script \<Rightarrow> (('s, 'k) sharded_run \<Rightarrow> ('s, 'k) sharded_turn) \<Rightarrow>
   ('s, 'k) sharded_run \<Rightarrow> ('s, 'k) sharded_turn" where
  "sharded_report c ops t k st =
     (let m = co_metrics (shr_router st);
          queue = pool_queue_snapshot c t m;
          d = shr_coordinator st;
          stats = apply_offload_queue_metrics c (tsp_offload_lens t)
            (apply_queue_metrics (apply_shard_metrics (cds_stats d) m) queue);
          api = map_option (\<lambda>a. publish_queue (tsp_publish_now t) a queue) (cds_live_api d)
      in case maybe_report ops (tsp_report_now t) (shr_health st) stats (shr_source st) of
           (Inl e, health, stats1, src) \<Rightarrow> ShardedFailed e (st\<lparr>shr_health := health, shr_source := src,
             shr_coordinator := d\<lparr>cds_stats := stats1, cds_live_api := api\<rparr>\<rparr>)
         | (Inr reported, health, stats1, src) \<Rightarrow> k (st\<lparr>shr_health := health, shr_source := src,
             shr_coordinator := d\<lparr>cds_stats := stats1, cds_live_api :=
               (if reported then map_option (\<lambda>a. publish_stats a stats1) api else api)\<rparr>\<rparr>))"

definition sharded_turn_of ::
  "pipeline_env \<Rightarrow> (hash_input \<Rightarrow> u64w) \<Rightarrow> sharded_config \<Rightarrow> 'k event_sink \<Rightarrow> 's packet_source \<Rightarrow> turn_script \<Rightarrow>
   ('s, 'k) sharded_run \<Rightarrow> ('s, 'k) sharded_turn option" where
  "sharded_turn_of env h c sink ops t st = (case pso_next_batch ops (shr_source st) (shr_batch st) of
     (Inl e, batch, src) \<Rightarrow> Some (ShardedFailed e (st\<lparr>shr_batch := batch, shr_source := src\<rparr>))
   | (Inr read, batch, src) \<Rightarrow>
       let st1 = st\<lparr>shr_batch := batch, shr_source := src\<rparr>; d = shr_coordinator st1 in
       if read = 0
       then map_option (\<lambda>(e, d1). case e of
            Some x \<Rightarrow> ShardedFailed x (st1\<lparr>shr_coordinator := d1\<rparr>)
          | None \<Rightarrow> sharded_report c ops t
              (\<lambda>s. if pso_is_finished ops (shr_source s) then ShardedOver s else ShardedOn s) (st1\<lparr>shr_coordinator := d1\<rparr>))
          (drain_output env sink (tsp_waiting t) d)
       else (case route_batch env sink h (shg_worker_count c) (tsp_sends t) (pb_packets batch) (shr_router st1)
            (d\<lparr>cds_stats := count_batch batch (cds_stats d)\<rparr>) of
            None \<Rightarrow> None
          | Some (Some e, sent, router, d1) \<Rightarrow> Some (ShardedFailed e (st1\<lparr>shr_router := router, shr_coordinator := d1\<rparr>))
          | Some (None, sent, router, d1) \<Rightarrow> map_option (\<lambda>(e, d2).
              let st2 = st1\<lparr>shr_batch := snd (batch_drain batch), shr_router := router, shr_coordinator := d2\<rparr>
              in case e of Some x \<Rightarrow> ShardedFailed x st2 | None \<Rightarrow> sharded_report c ops t ShardedOn st2)
              (drain_output env sink (tsp_waiting t) d1)))"

text \<open>The loop over the turns of the script: the error that ended it, if any, and the state.\<close>

fun sharded_loop ::
  "pipeline_env \<Rightarrow> (hash_input \<Rightarrow> u64w) \<Rightarrow> sharded_config \<Rightarrow> 'k event_sink \<Rightarrow> 's packet_source \<Rightarrow> turn_script list \<Rightarrow>
   ('s, 'k) sharded_run \<Rightarrow> (string option \<times> ('s, 'k) sharded_run) option" where
  "sharded_loop env h c sink ops [] st = None"
| "sharded_loop env h c sink ops (t # ts) st = (case sharded_turn_of env h c sink ops t st of
     None \<Rightarrow> None
   | Some (ShardedFailed e st1) \<Rightarrow> Some (Some e, st1)
   | Some (ShardedOver st1) \<Rightarrow> Some (None, st1)
   | Some (ShardedOn st1) \<Rightarrow> sharded_loop env h c sink ops ts st1)"

subsection \<open>The run\<close>

text \<open>After a shutdown without an error.\<close>

definition sharded_finish ::
  "sharded_config \<Rightarrow> nat \<Rightarrow> shard_metrics \<Rightarrow> string + source_stats option \<Rightarrow> 'k coordinator \<Rightarrow>
   (string \<times> live_api option) + ('k coordinator \<times> pipeline_stats)" where
  "sharded_finish c publish_now m source_answer d =
     (let queue = final_queue_snapshot c m;
          s1 = apply_offload_queue_metrics c [] (apply_queue_metrics (apply_shard_metrics (cds_stats d) m) queue);
          s2 = set_stream_message_stats (set_stream_view_stats s1 (view_stats_of (cds_view d))) (xm_stats (cds_messages d));
          d1 = d\<lparr>cds_stats := s2, cds_live_api := map_option (\<lambda>a. publish_queue publish_now a queue) (cds_live_api d)\<rparr>
      in try_bind (map_sum (\<lambda>e. (e, cds_live_api d1)) id source_answer) (\<lambda>source.
           let s3 = (case source of None \<Rightarrow> s2 | Some x \<Rightarrow> set_source_stats s2 x)
           in Inr (case cds_live_api d1 of
                None \<Rightarrow> (d1\<lparr>cds_stats := s3\<rparr>, s3)
              | Some a \<Rightarrow> (d1\<lparr>cds_stats := s3, cds_content_shards := [],
                  cds_live_api := Some (mark_completed (set_snapshot_content a (cds_content_shards d1)) s3)\<rparr>, s3))))"

text \<open>The state in which an error leaves the live API is part of the result.\<close>

definition sharded_run_with_source ::
  "pipeline_env \<Rightarrow> (hash_input \<Rightarrow> u64w) \<Rightarrow> sharded_config \<Rightarrow> nat \<Rightarrow> 'k event_sink \<Rightarrow> 's packet_source \<Rightarrow>
   turn_script list \<Rightarrow> shutdown_script \<Rightarrow> shutdown_script \<Rightarrow> nat \<Rightarrow> nat \<Rightarrow> 'k list \<Rightarrow> live_api option \<Rightarrow> 's \<Rightarrow>
   ((string \<times> live_api option) + ('k coordinator \<times> pipeline_stats)) option" where
  "sharded_run_with_source env h c analyzer_count sink ops turns script offload_script started publish_now sinks api src =
     Option.bind (sharded_loop env h c sink ops turns
         \<lparr>shr_coordinator = coordinator_start c analyzer_count sinks api,
          shr_router = coordinator_new (sharded_coordinator_config c), shr_batch = batch_new,
          shr_health = health_reporter_new (plg_health_interval_ms (shg_pipeline c)) started, shr_source = src\<rparr>)
       (\<lambda>(run_error, st).
          let m = co_metrics (shr_router st);
              source_answer = fst (pso_stats ops (shr_source st));
              d = (shr_coordinator st)\<lparr>cds_stats := apply_shard_metrics (cds_stats (shr_coordinator st)) m\<rparr>
          in map_option (\<lambda>(shutdown_error, d1). case run_error of
                 Some e \<Rightarrow> Inl (e, map_option (\<lambda>a. mark_failed a (cds_stats d1)) (cds_live_api d1))
               | None \<Rightarrow> (case shutdown_error of
                   Some e \<Rightarrow> Inl (e, cds_live_api d1)
                 | None \<Rightarrow> sharded_finish c publish_now m source_answer d1))
               (pool_shutdown env sink (shg_worker_count c) (stream_offload_worker_count c analyzer_count)
                  script offload_script d))"

subsection \<open>Slices while the workers run\<close>

datatype slice_response = SliceAnswered "slice_error + content_slice" | SliceDropped | SliceLate

text \<open>\<open>queue\<close> is the answer of the worker's queue, \<open>response\<close> what comes back within the time limit.\<close>

definition sharded_handle_slice ::
  "nat \<Rightarrow> (nat \<Rightarrow> send_answer) \<Rightarrow> (nat \<Rightarrow> slice_request \<Rightarrow> flow_key \<Rightarrow> pattern_match list \<Rightarrow> slice_response) \<Rightarrow>
   nat \<Rightarrow> slice_request \<Rightarrow> flow_key \<Rightarrow> pattern_match list \<Rightarrow> sharded_slice_error + (slice_error + content_slice)" where
  "sharded_handle_slice shard_count queue response shard request key matches =
     (if \<not> shard < shard_count then Inl (InvalidShard shard)
      else case queue shard of
        SendFull \<Rightarrow> Inl (QueueFull shard)
      | SendDisconnected \<Rightarrow> Inl (Disconnected shard)
      | SendOk \<Rightarrow> (case response shard request key matches of
          SliceAnswered r \<Rightarrow> Inr r
        | SliceDropped \<Rightarrow> Inl (Disconnected shard)
        | SliceLate \<Rightarrow> Inl (SliceTimeout shard)))"

end
