(* ===== verification/Sharded_Correctness.thy ===== *)
theory Sharded_Correctness
  imports Sharded_Run Pipeline_Samples
begin

text \<open>
  The coordinator of the sharded pipeline: its messages are always handled, the merged statistics are the
  sums over the last report of each worker, and when a shutdown returns.
\<close>

subsection \<open>Handling a message always returns\<close>

definition coordinator_wf :: "'k coordinator \<Rightarrow> bool" where
  "coordinator_wf c \<longleftrightarrow> xm_ok (cds_messages c) \<and> (\<forall>a. cds_live_api c = Some a \<longrightarrow> xm_ok (lva_messages a))"

text \<open>What a handled batch of events leaves alone.\<close>

definition same_reports :: "'k coordinator \<Rightarrow> 'k coordinator \<Rightarrow> bool" where
  "same_reports c c' \<longleftrightarrow> cds_worker_snapshots c' = cds_worker_snapshots c
     \<and> cds_offload_snapshots c' = cds_offload_snapshots c
     \<and> (\<exists>n v m. cds_stats c' = set_stream_message_stats (set_stream_view_stats (cds_stats c\<lparr>ps_events := n\<rparr>) v) m)"

lemma write_events_total:
  assumes "coordinator_wf c"
  shows "\<exists>e c'. write_events env ops c events = Some (e, c') \<and> coordinator_wf c' \<and> same_reports c c'"
proof -
  obtain ms where ms: "xm_observe_events (env_from_value env) (cds_messages c) events = Some ms" "xm_ok ms"
    using assms xm_observe_events_total unfolding coordinator_wf_def by blast
  define view where "view = view_observe_events (env_from_value env) (cds_view c) events"
  define stats where "stats = set_stream_message_stats (set_stream_view_stats
    (cds_stats c\<lparr>ps_events := sat_add (ps_events (cds_stats c)) (length events)\<rparr>) (view_stats_of view)) (xm_stats ms)"
  obtain api where api: "(case cds_live_api c of None \<Rightarrow> Some None
      | Some a \<Rightarrow> map_option Some (publish_events (env_from_value env) a events stats)) = Some api"
    and api_ok: "\<forall>a. api = Some a \<longrightarrow> xm_ok (lva_messages a)"
    using assms publish_events_total[of _ "env_from_value env" events stats]
    unfolding coordinator_wf_def by (cases "cds_live_api c") fastforce+
  obtain e sinks where sinks: "write_sinks ops events (cds_sinks c) = (e, sinks)" by fastforce
  have "write_events env ops c events = Some (e, c\<lparr>cds_view := view, cds_messages := ms, cds_stats := stats,
      cds_live_api := api, cds_sinks := sinks\<rparr>)"
    using api sinks by (cases "cds_live_api c") (auto simp: write_events_def ms view_def stats_def Let_def)
  moreover have "\<exists>n v m. stats = set_stream_message_stats (set_stream_view_stats (cds_stats c\<lparr>ps_events := n\<rparr>) v) m"
    unfolding stats_def by blast
  ultimately show ?thesis using ms(2) api_ok by (simp add: coordinator_wf_def same_reports_def)
qed

subsection \<open>Merged statistics\<close>

text \<open>The last report of a worker among the messages.\<close>

fun worker_stats_in :: "worker_message \<Rightarrow> worker_stats option" where
  "worker_stats_in (StatsSnapshotMessage w) = Some w"
| "worker_stats_in (StatsMessage r) = Some (wre_stats r)"
| "worker_stats_in _ = None"

fun offload_stats_in :: "worker_message \<Rightarrow> offload_worker_stats option" where
  "offload_stats_in (OffloadStatsSnapshotMessage w) = Some w"
| "offload_stats_in (OffloadStatsMessage w) = Some w"
| "offload_stats_in _ = None"

definition last_with :: "('a \<Rightarrow> bool) \<Rightarrow> 'a list \<Rightarrow> 'a option" where
  "last_with P xs = List.find P (rev xs)"

lemma last_with_simps [simp]:
  "last_with P [] = None" "last_with P (xs @ [x]) = (if P x then Some x else last_with P xs)"
  by (simp_all add: last_with_def)

definition last_worker_stats :: "worker_message list \<Rightarrow> nat \<Rightarrow> worker_stats option" where
  "last_worker_stats ms i = last_with (\<lambda>w. wst_id w = i) (List.map_filter worker_stats_in ms)"

definition last_offload_stats :: "worker_message list \<Rightarrow> nat \<Rightarrow> offload_worker_stats option" where
  "last_offload_stats ms i = last_with (\<lambda>w. ows_id w = i) (List.map_filter offload_stats_in ms)"

definition merged_sum ::
  "(worker_stats \<Rightarrow> nat) \<Rightarrow> (offload_worker_stats \<Rightarrow> nat) \<Rightarrow> worker_stats option list \<Rightarrow> offload_worker_stats option list \<Rightarrow> nat" where
  "merged_sum own helper ws xs =
     min u64_max (sum_list (map own (flatten_options ws)) + sum_list (map helper (flatten_options xs)))"

definition snapshots_merged ::
  "(pipeline_stats \<Rightarrow> nat) \<Rightarrow> (worker_stats \<Rightarrow> nat) \<Rightarrow> (offload_worker_stats \<Rightarrow> nat) \<Rightarrow> 'k coordinator \<Rightarrow> bool" where
  "snapshots_merged counter own helper c \<longleftrightarrow>
     counter (cds_stats c) = merged_sum own helper (cds_worker_snapshots c) (cds_offload_snapshots c)"

text \<open>A counter of the statistics that the reports of the workers carry.\<close>

locale merged_counter =
  fixes counter :: "pipeline_stats \<Rightarrow> nat"
    and own :: "worker_stats \<Rightarrow> nat"
    and helper :: "offload_worker_stats \<Rightarrow> nat"
  assumes cleared: "counter (clear_worker_runtime_stats s) = 0"
    and add_own: "counter s \<le> u64_max \<Longrightarrow> counter (add_worker_stats s w) = sat_add (counter s) (own w)"
    and add_helper: "counter s \<le> u64_max \<Longrightarrow> counter (add_stream_offload_stats s x) = sat_add (counter s) (helper x)"
    and outside: "counter (set_stream_message_stats (set_stream_view_stats (s\<lparr>ps_events := n\<rparr>) v) m) = counter s"
begin

lemma fold_own: "counter s \<le> u64_max \<Longrightarrow>
    counter (foldl add_worker_stats s ws) = min u64_max (counter s + sum_list (map own ws))"
  by (induction ws arbitrary: s) (auto simp: add_own sat_add_def)

lemma fold_helper: "counter s \<le> u64_max \<Longrightarrow>
    counter (foldl add_stream_offload_stats s xs) = min u64_max (counter s + sum_list (map helper xs))"
  by (induction xs arbitrary: s) (auto simp: add_helper sat_add_def)

lemma rebuilt: "counter (rebuild_runtime_stats_from_snapshots s ws xs) = merged_sum own helper ws xs"
  by (auto simp: rebuild_runtime_stats_from_snapshots_def merged_sum_def fold_helper fold_own cleared)

lemma same_merged: "same_reports c c' \<Longrightarrow> snapshots_merged counter own helper c \<Longrightarrow> snapshots_merged counter own helper c'"
  by (auto simp: same_reports_def snapshots_merged_def outside)

lemma message_merged:
  assumes "coordinator_wf c" "snapshots_merged counter own helper c" "write_worker_message env ops c m = Some (e, c')"
  shows "snapshots_merged counter own helper c'"
proof (cases m)
  case (EventsMessage events)
  with assms(3) write_events_total[OF assms(1), of env ops events] show ?thesis using same_merged assms(2) by auto
qed (use assms(2,3) in \<open>auto simp: snapshots_merged_def replace_worker_stats_snapshot_def Let_def store_worker_content_def
    replace_stream_offload_stats_snapshot_def rebuilt split: if_splits\<close>)

end

text \<open>Which part of the statistics each step writes.\<close>

lemma cleared_parts [simp]:
  "ps_offload (clear_worker_runtime_stats s) = offload_counters_default"
  "ps_decode_errors (clear_worker_runtime_stats s) = 0"
  "ps_flows (clear_worker_runtime_stats s) = stats_default"
  "ps_parser (clear_worker_runtime_stats s) = stream_parser_stats_default"
  by (simp_all add: clear_worker_runtime_stats_def set_flow_table_stats_def set_stream_inventory_stats_def
      set_stream_content_stats_def set_stream_parser_stats_def set_pattern_stats_def Let_def)

lemmas add_parts_defs = add_packet_decode_counters_def add_flow_table_stats_def add_stream_inventory_stats_def
  add_stream_content_stats_def add_stream_parser_stats_def add_pattern_stats_def

lemma added_parts [simp]:
  "ps_offload (add_worker_stats s w) = (ps_offload s)
     \<lparr>ofc_submitted_chunks := sat_add (ofc_submitted_chunks (ps_offload s)) (wst_submitted_chunks w),
      ofc_submitted_bytes := sat_add (ofc_submitted_bytes (ps_offload s)) (wst_submitted_bytes w),
      ofc_blocked_chunks := sat_add (ofc_blocked_chunks (ps_offload s)) (wst_blocked_chunks w),
      ofc_blocked_bytes := sat_add (ofc_blocked_bytes (ps_offload s)) (wst_blocked_bytes w),
      ofc_inline_chunks := sat_add (ofc_inline_chunks (ps_offload s)) (wst_inline_chunks w),
      ofc_inline_bytes := sat_add (ofc_inline_bytes (ps_offload s)) (wst_inline_bytes w),
      ofc_dropped_chunks := sat_add (ofc_dropped_chunks (ps_offload s)) (wst_dropped_chunks w),
      ofc_dropped_bytes := sat_add (ofc_dropped_bytes (ps_offload s)) (wst_dropped_bytes w)\<rparr>"
  "ps_decode_errors (add_worker_stats s w) = sat_add (ps_decode_errors s) (decode_error_packets (wst_decode w))"
  "ps_flows (add_worker_stats s w) = ps_flows (add_flow_table_stats s (wst_flow w))"
  "ps_parser (add_worker_stats s w) = ps_parser (add_stream_parser_stats s (wst_parser w))"
  by (simp_all add: add_worker_stats_def add_parts_defs Let_def)

lemma offload_added_parts [simp]:
  "ps_offload (add_stream_offload_stats s x) = (ps_offload s)
     \<lparr>ofc_processed_chunks := sat_add (ofc_processed_chunks (ps_offload s)) (ows_processed_chunks x),
      ofc_processed_bytes := sat_add (ofc_processed_bytes (ps_offload s)) (ows_processed_bytes x)\<rparr>"
  "ps_decode_errors (add_stream_offload_stats s x) = ps_decode_errors s"
  "ps_flows (add_stream_offload_stats s x) = ps_flows s"
  "ps_parser (add_stream_offload_stats s x) = ps_parser (add_stream_parser_stats s (ows_parser x))"
  by (simp_all add: add_stream_offload_stats_def add_stream_parser_stats_def Let_def)

lemma published_parts_kept [simp]:
  "ps_offload (set_stream_message_stats (set_stream_view_stats (s\<lparr>ps_events := n\<rparr>) v) m) = ps_offload s"
  "ps_decode_errors (set_stream_message_stats (set_stream_view_stats (s\<lparr>ps_events := n\<rparr>) v) m) = ps_decode_errors s"
  "ps_flows (set_stream_message_stats (set_stream_view_stats (s\<lparr>ps_events := n\<rparr>) v) m) = ps_flows s"
  "ps_parser (set_stream_message_stats (set_stream_view_stats (s\<lparr>ps_events := n\<rparr>) v) m) = ps_parser s"
  by (simp_all add: set_stream_message_stats_def set_stream_view_stats_def)

lemma merged_field [simp]:
  "fs_stream_bytes (ps_flows (add_flow_table_stats s f)) = sat_add (fs_stream_bytes (ps_flows s)) (fs_stream_bytes f)"
  "pls_emitted_messages (ps_parser (add_stream_parser_stats s x))
     = sat_add (pls_emitted_messages (ps_parser s)) (pls_emitted_messages x)"
  by (simp_all add: add_flow_table_stats_def add_stream_parser_stats_def Let_def)

lemmas zero_defs = offload_counters_default_def stats_default_def stream_parser_stats_default_def

interpretation submitted_bytes: merged_counter "\<lambda>s. ofc_submitted_bytes (ps_offload s)" wst_submitted_bytes "\<lambda>_. 0"
  by unfold_locales (simp_all add: zero_defs)

interpretation inline_bytes: merged_counter "\<lambda>s. ofc_inline_bytes (ps_offload s)" wst_inline_bytes "\<lambda>_. 0"
  by unfold_locales (simp_all add: zero_defs)

interpretation dropped_bytes: merged_counter "\<lambda>s. ofc_dropped_bytes (ps_offload s)" wst_dropped_bytes "\<lambda>_. 0"
  by unfold_locales (simp_all add: zero_defs)

interpretation processed_bytes: merged_counter "\<lambda>s. ofc_processed_bytes (ps_offload s)" "\<lambda>_. 0" ows_processed_bytes
  by unfold_locales (simp_all add: zero_defs)

interpretation decode_errors: merged_counter ps_decode_errors "\<lambda>w. decode_error_packets (wst_decode w)" "\<lambda>_. 0"
  by unfold_locales (simp_all add: zero_defs)

interpretation flow_bytes_total: merged_counter "\<lambda>s. fs_stream_bytes (ps_flows s)" "\<lambda>w. fs_stream_bytes (wst_flow w)" "\<lambda>_. 0"
  by unfold_locales (simp_all add: zero_defs)

interpretation emitted_messages: merged_counter "\<lambda>s. pls_emitted_messages (ps_parser s)"
  "\<lambda>w. pls_emitted_messages (wst_parser w)" "\<lambda>x. pls_emitted_messages (ows_parser x)"
  by unfold_locales (simp_all add: zero_defs)

subsection \<open>The snapshots are the last reports\<close>

lemma last_stats_nil [simp]: "last_worker_stats [] = (\<lambda>_. None)" "last_offload_stats [] = (\<lambda>_. None)"
  by (simp_all add: fun_eq_iff last_worker_stats_def last_offload_stats_def List.map_filter_simps)

lemma map_filter_snoc:
  "List.map_filter f (xs @ [x]) = List.map_filter f xs @ (case f x of None \<Rightarrow> [] | Some y \<Rightarrow> [y])"
  by (auto simp: List.map_filter_def split: option.split)

lemma last_stats_snoc [simp]:
  "last_worker_stats (ms @ [m]) i = (case worker_stats_in m of
     Some w \<Rightarrow> if wst_id w = i then Some w else last_worker_stats ms i | None \<Rightarrow> last_worker_stats ms i)"
  "last_offload_stats (ms @ [m]) i = (case offload_stats_in m of
     Some w \<Rightarrow> if ows_id w = i then Some w else last_offload_stats ms i | None \<Rightarrow> last_offload_stats ms i)"
  by (simp_all add: last_worker_stats_def last_offload_stats_def map_filter_snoc split: option.splits)

definition snapshots_of :: "nat \<Rightarrow> nat \<Rightarrow> worker_message list \<Rightarrow> 'k coordinator \<Rightarrow> bool" where
  "snapshots_of workers offload_workers ms c \<longleftrightarrow>
     cds_worker_snapshots c = map (last_worker_stats ms) [0..<workers]
     \<and> cds_offload_snapshots c = map (last_offload_stats ms) [0..<offload_workers]"

lemma list_update_map_upt: "(map f [0..<n])[i := x] = map (f(i := x)) [0..<n]"
  by (rule nth_equalityI) (auto simp: nth_list_update)

lemma message_ok:
  assumes "coordinator_wf c" "write_worker_message env ops c m = Some (e, c')"
  shows "coordinator_wf c'"
proof (cases m)
  case (EventsMessage events)
  with assms write_events_total[OF assms(1), of env ops events] show ?thesis by auto
qed (use assms in \<open>auto simp: coordinator_wf_def replace_worker_stats_snapshot_def Let_def
    store_worker_content_def replace_stream_offload_stats_snapshot_def split: if_splits\<close>)

lemma message_snapshots:
  assumes "coordinator_wf c" "snapshots_of n p ms c" "write_worker_message env ops c m = Some (e, c')"
  shows "snapshots_of n p (ms @ [m]) c'"
proof (cases m)
  case (EventsMessage events)
  with assms write_events_total[OF assms(1), of env ops events] show ?thesis
    by (auto simp: snapshots_of_def same_reports_def)
qed (use assms in \<open>auto simp: snapshots_of_def replace_worker_stats_snapshot_def Let_def
    store_worker_content_def replace_stream_offload_stats_snapshot_def list_update_map_upt split: if_splits\<close>)

lemma write_worker_message_total:
  assumes "coordinator_wf c"
  shows "\<exists>e c'. write_worker_message env ops c m = Some (e, c')"
  using write_events_total[OF assms, of env ops] by (cases m) fastforce+

lemma drain_available_run:
  assumes "coordinator_wf c" "Q seen c"
    and "\<And>seen c m e c'. coordinator_wf c \<Longrightarrow> Q seen c \<Longrightarrow> write_worker_message env ops c m = Some (e, c') \<Longrightarrow> Q (seen @ [m]) c'"
  shows "\<exists>e rest c' handled. drain_available env ops ms c = Some (e, rest, c') \<and> ms = handled @ rest
    \<and> Q (seen @ handled) c' \<and> (rest = [] \<or> (\<exists>x. e = Some x))"
  using assms(1,2)
proof (induction ms arbitrary: c seen)
  case Nil
  then show ?case by simp
next
  case (Cons m ms)
  obtain e c1 where m: "write_worker_message env ops c m = Some (e, c1)"
    using write_worker_message_total[OF Cons.prems(1)] by blast
  have ok: "coordinator_wf c1" "Q (seen @ [m]) c1"
    using message_ok[OF Cons.prems(1) m] assms(3)[OF Cons.prems m] by blast+
  show ?case
  proof (cases e)
    case None
    from Cons.IH[OF ok] obtain e2 rest c' handled where
      "drain_available env ops ms c1 = Some (e2, rest, c')" "ms = handled @ rest"
      "Q ((seen @ [m]) @ handled) c'" "rest = [] \<or> (\<exists>x. e2 = Some x)" by blast
    then show ?thesis using m None by (intro exI[of _ e2] exI[of _ rest] exI[of _ c'] exI[of _ "m # handled"]) simp
  next
    case (Some x)
    then show ?thesis using m ok(2) by (intro exI[of _ e] exI[of _ ms] exI[of _ c1] exI[of _ "[m]"]) simp
  qed
qed

lemma coordinator_start_ok:
  assumes "c = coordinator_start cfg n sinks (map_option (\<lambda>(v, s, cap, ps). live_api_new v s cap ps) api)"
  shows "coordinator_wf c" "snapshots_of (shg_worker_count cfg) (stream_offload_worker_count cfg n) [] c"
    "cds_stats c = pipeline_stats_default\<lparr>ps_workers := shg_worker_count cfg,
       ps_queues := queue_gauges_default\<lparr>qg_offload_workers := stream_offload_worker_count cfg n\<rparr>\<rparr>"
  by (auto simp: assms coordinator_start_def coordinator_wf_def message_store_new_ok snapshots_of_def Let_def
      publish_stats_def set_sharded_content_def live_api_new_def map_replicate_const)

definition known_reports :: "nat \<Rightarrow> (nat \<Rightarrow> 'w option) \<Rightarrow> 'w list" where
  "known_reports n report = List.map_filter report [0..<n]"

lemma flatten_map: "flatten_options (map f xs) = List.map_filter f xs"
  by (induction xs) (simp_all add: flatten_options_def List.map_filter_simps split: option.splits)


subsection \<open>When a shutdown returns\<close>

fun is_report :: "worker_message \<Rightarrow> bool" where
  "is_report (StatsMessage r) = True"
| "is_report _ = False"

definition report_count :: "worker_message list \<Rightarrow> nat" where
  "report_count ms = length (filter is_report ms)"

lemma reports_simps [simp]:
  "report_count [] = 0" "report_count (m # ms) = (if is_report m then 1 else 0) + report_count ms"
  "report_count (ms @ ms') = report_count ms + report_count ms'"
  by (simp_all add: report_count_def)

text \<open>
  The output channel at shutdown: every thread is the list of the messages it still sends, with whether it
  ends (and drops its sender) after them.  A run gives the answers of \<^verbatim>\<open>recv\<close>, to the end: the channel is
  closed when all threads have ended, and \<^verbatim>\<open>recv\<close> waits for ever once only waiting threads are left.
\<close>

inductive channel_run :: "(worker_message list \<times> bool) list \<Rightarrow> worker_message option list \<Rightarrow> bool" where
  channel_send: "i < length ts \<Longrightarrow> ts ! i = (m # ms, ends) \<Longrightarrow> channel_run (ts[i := (ms, ends)]) answers \<Longrightarrow>
    channel_run ts (Some m # answers)"
| channel_closed: "\<forall>t \<in> set ts. t = ([], True) \<Longrightarrow> channel_run ts [None]"
| channel_waits: "\<forall>t \<in> set ts. fst t = [] \<Longrightarrow> \<exists>t \<in> set ts. \<not> snd t \<Longrightarrow> channel_run ts []"

definition thread_reports :: "(worker_message list \<times> bool) list \<Rightarrow> nat" where
  "thread_reports ts = (\<Sum>t\<leftarrow>ts. report_count (fst t))"

lemma thread_reports_send:
  assumes "i < length ts" "ts ! i = (m # ms, ends)"
  shows "thread_reports ts = (if is_report m then 1 else 0) + thread_reports (ts[i := (ms, ends)])"
proof -
  have "ts = take i ts @ (m # ms, ends) # drop (Suc i) ts" using assms id_take_nth_drop by metis
  then have "thread_reports ts = thread_reports (take i ts) + report_count (m # ms) + thread_reports (drop (Suc i) ts)"
    by (metis (no_types, lifting) thread_reports_def add.assoc fst_conv list.simps(9) map_append sum_list.Cons sum_list_append)
  then show ?thesis using assms(1) by (simp add: thread_reports_def upd_conv_take_nth_drop)
qed

lemma worker_shutdown_message_spec:
  assumes "coordinator_wf (shd_coordinator st)"
  shows "\<exists>st'. worker_shutdown_message env ops m st = Some st' \<and> coordinator_wf (shd_coordinator st')
    \<and> shd_received st' = (if is_report m then sat_add (shd_received st) 1 else shd_received st)"
proof (cases m)
  case (EventsMessage events)
  obtain e c' where "write_events env ops (shd_coordinator st) events = Some (e, c')" "coordinator_wf c'"
    using write_events_total[OF assms] by blast
  with EventsMessage show ?thesis by (cases e) (simp_all add: shutdown_events_def note_error_def)
qed (use assms in \<open>auto simp: coordinator_wf_def replace_worker_stats_snapshot_def Let_def
    store_worker_content_def replace_stream_offload_stats_snapshot_def\<close>)

lemma shutdown_receive_enough: "n \<le> shd_received st \<Longrightarrow> shutdown_receive handle closed n answers st = Some st"
  by (cases answers) simp_all

lemma shutdown_receive_iff:
  assumes "channel_run ts answers" "coordinator_wf (shd_coordinator st)" "n \<le> u64_max"
  shows "shutdown_receive (worker_shutdown_message env ops) closed n answers st \<noteq> None
    \<longleftrightarrow> n \<le> shd_received st + thread_reports ts \<or> (\<forall>t \<in> set ts. snd t)"
  using assms
proof (induction arbitrary: st rule: channel_run.induct)
  case (channel_send i ts m ms ends answers)
  obtain st' where st': "worker_shutdown_message env ops m st = Some st'" "coordinator_wf (shd_coordinator st')"
    "shd_received st' = (if is_report m then sat_add (shd_received st) 1 else shd_received st)"
    using worker_shutdown_message_spec[OF channel_send.prems(1)] by blast
  have ends: "(\<forall>t \<in> set (ts[i := (ms, ends)]). snd t) \<longleftrightarrow> (\<forall>t \<in> set ts. snd t)"
    unfolding all_set_conv_all_nth length_list_update using channel_send.hyps(1,2)
    by (metis nth_list_update_eq nth_list_update_neq snd_conv)
  show ?case
  proof (cases "n \<le> shd_received st")
    case True
    then show ?thesis by simp
  next
    case False
    with channel_send.IH[OF st'(2) channel_send.prems(2)] st' channel_send.prems(2) show ?thesis
      unfolding ends thread_reports_send[OF channel_send.hyps(1,2)] by (auto simp: sat_add_def)
  qed
next
  case (channel_closed ts)
  then show ?case by auto
next
  case (channel_waits ts)
  then have "thread_reports ts = 0" by (auto simp: thread_reports_def)
  with channel_waits show ?case by auto
qed

definition stop_turn :: "'c worker_turn \<Rightarrow> 'c \<Rightarrow> bool" where
  "stop_turn t shutdown \<longleftrightarrow> wtn_received t = RecvDisconnected \<or> wtn_received t = Received shutdown"

lemma reports_of_flush:
  assumes "worker_flush now full force f rt = (out, f', rt')"
  shows "report_count out = 0"
  using assms by (auto simp: worker_flush_def worker_stats_snapshot_def Let_def split: if_splits)

lemma reports_of_worker:
  "run_worker env h lru turns f rt = Some (e, out) \<Longrightarrow> \<exists>t \<in> set turns. stop_turn t ShutdownCommand \<Longrightarrow>
   report_count out = (if e = None then 1 else 0)"
proof (induction turns arbitrary: f rt e out)
  case (Cons turn turns)
  have report: "report_count (worker_report_of rt) = 1" by (simp add: worker_report_of_def)
  have step: "report_count out = (if e = None then 1 else 0)"
    if "(case worker_flush (wtn_now turn) (wtn_full turn) force f rt1 of
      (o1, f1, rt2) \<Rightarrow> map_option (map_prod id ((@) o1)) (run_worker env h lru turns f1 rt2)) = Some (e, out)"
      "\<not> stop_turn turn ShutdownCommand" for force rt1
  proof -
    obtain o1 f1 rt2 where fl: "worker_flush (wtn_now turn) (wtn_full turn) force f rt1 = (o1, f1, rt2)"
      using prod_cases3 by blast
    with that(1) obtain o2 where run: "run_worker env h lru turns f1 rt2 = Some (e, o2)" "out = o1 @ o2" by auto
    have "\<exists>t \<in> set turns. stop_turn t ShutdownCommand" using Cons.prems(2) that(2) by auto
    with Cons.IH[OF run(1)] run(2) reports_of_flush[OF fl] show ?thesis by simp
  qed
  from Cons.prems(1) report step show ?case
    by (auto simp: stop_turn_def Let_def split: received.splits worker_command.splits option.splits sum.splits)
qed simp

lemma reports_of_offload_worker:
  "run_stream_offload_worker env turns f rt = Some out \<Longrightarrow> report_count out = 0"
proof (induction turns arbitrary: f rt out)
  case (Cons turn turns)
  have flush: "report_count o1 = 0" if "offload_flush now full force f rt1 = (o1, f1, rt2)" for now full force rt1 o1 f1 rt2
    using that by (auto simp: offload_flush_def Let_def split: if_splits)
  have report: "report_count (offload_report_of rt) = 0" by (simp add: offload_report_of_def)
  have step: "report_count out = 0"
    if "(case offload_flush (wtn_now turn) (wtn_full turn) force f rt1 of
      (o1, f1, rt2) \<Rightarrow> map_option ((@) o1) (run_stream_offload_worker env turns f1 rt2)) = Some out" for force rt1
    using that Cons.IH flush by (auto split: prod.splits)
  from Cons.prems(1) report step show ?case
    by (auto simp: Let_def bind_eq_Some_conv split: received.splits offload_command.splits option.splits)
qed simp

text \<open>
  C39. Shutdown: let every worker of the pool run to its shutdown command, or to an error that ends its thread,
  while the offload workers in \<open>idle\<close> still wait for theirs.  However the messages interleave in the output
  channel, the loop that waits for the final reports of the workers returns exactly when no worker ended
  with an error or no offload worker is left: otherwise an offload worker keeps the channel open and the
  coordinator waits for a report that nobody will send.
\<close>

theorem shutdown_returns_iff:
  assumes "\<forall>i<n. run_worker env h lru (turns i) (flush i) (rt i) = Some (err i, out i)
      \<and> (\<exists>t \<in> set (turns i). stop_turn t ShutdownCommand)"
    and "\<forall>ms \<in> set idle. \<exists>turns f rt. run_stream_offload_worker env turns f rt = Some ms"
    and "channel_run (map (\<lambda>i. (out i, True)) [0..<n] @ map (\<lambda>ms. (ms, False)) idle) answers"
    and "coordinator_wf c" "n \<le> u64_max"
  shows "shutdown_receive (worker_shutdown_message env ops) closed n answers
      \<lparr>shd_coordinator = c, shd_received = 0, shd_error = e\<rparr> \<noteq> None
    \<longleftrightarrow> (\<forall>i<n. err i = None) \<or> idle = []"
proof -
  define ts where "ts = map (\<lambda>i. (out i, True)) [0..<n] @ map (\<lambda>ms. (ms, False)) idle"
  have out: "report_count (out i) = (if err i = None then 1 else 0)" if "i < n" for i
    using assms(1) that reports_of_worker by blast
  have "report_count ms = 0" if "ms \<in> set idle" for ms
    using assms(2) that reports_of_offload_worker by blast
  then have "thread_reports ts = (\<Sum>i\<leftarrow>[0..<n]. report_count (out i))"
    by (simp add: ts_def thread_reports_def comp_def cong: map_cong)
  also have "\<dots> = (\<Sum>i<n. if err i = None then 1 else 0)"
    using out by (simp add: sum_list_distinct_conv_sum_set atLeast0LessThan)
  also have "\<dots> = card {i. i < n \<and> err i = None}"
    by (simp add: sum.If_cases lessThan_def Int_def)
  finally have reps: "thread_reports ts = card {i. i < n \<and> err i = None}" .
  have "n \<le> card {i. i < n \<and> err i = None} \<longleftrightarrow> (\<forall>i<n. err i = None)"
  proof
    assume "n \<le> card {i. i < n \<and> err i = None}"
    then have "{i. i < n \<and> err i = None} = {..<n}" by (intro card_seteq) auto
    then show "\<forall>i<n. err i = None" by blast
  next
    assume "\<forall>i<n. err i = None"
    then have "{i. i < n \<and> err i = None} = {..<n}" by auto
    then show "n \<le> card {i. i < n \<and> err i = None}" by simp
  qed
  moreover have "(\<forall>t \<in> set ts. snd t) \<longleftrightarrow> idle = []" by (cases idle) (auto simp: ts_def)
  ultimately show ?thesis
    using shutdown_receive_iff[OF assms(3)[folded ts_def], of "\<lparr>shd_coordinator = c, shd_received = 0, shd_error = e\<rparr>" n]
      assms(4,5) by (simp add: reps)
qed

text \<open>A cache that keeps everything, enough for the witnesses.\<close>

definition sample_cache :: "(flow_key \<times> flow_placement) list placement_cache" where
  "sample_cache = \<lparr>plo_new = (\<lambda>_. []), plo_get = (\<lambda>l k. (map_of l k, l)), plo_put = (\<lambda>l k v. (k, v) # l)\<rparr>"

definition sample_worker :: "(flow_key \<times> flow_placement) list worker_runtime" where
  "sample_worker = worker_runtime_new sample_cache 0 sample_pipeline_config
     (flow_table_config_new 4 1000 100 4) pattern_disabled [] None (\<lambda>_. (SendOk, True))"

definition sample_stop :: "worker_command worker_turn" where
  "sample_stop = \<lparr>wtn_received = Received ShutdownCommand, wtn_now = 0, wtn_full = False\<rparr>"

definition sample_sharded_config :: sharded_config where
  "sample_sharded_config = \<lparr>shg_pipeline = sample_pipeline_config, shg_worker_count = 1, shg_worker_queue_depth = 1,
     shg_event_queue_depth = 1, shg_offload = offload_config_default\<rparr>"

theorem shutdown_returns_iff_witness:
  "shutdown_receive (worker_shutdown_message sample_env (jsonl_sink (\<lambda>_. ''event''))) ''closed'' 1
     (map Some (worker_report_of sample_worker))
     \<lparr>shd_coordinator = coordinator_start sample_sharded_config 0 [''''] None, shd_received = 0, shd_error = None\<rparr> \<noteq> None"
proof -
  obtain m where m: "worker_report_of sample_worker = [m]"
    by (simp add: worker_report_of_def sample_worker_def worker_runtime_new_def)
  have worker: "run_worker sample_env (\<lambda>_. 0) sample_cache [sample_stop] (flush_state_new 1 0) sample_worker
      = Some (None, [m])"
    by (simp add: sample_stop_def m)
  have "channel_run [([], True), ([], False)] []" by (rule channel_waits) auto
  then have "channel_run [([m], True), ([], False)] [Some m]"
    using channel_send[of 0 "[([m], True), ([], False)]" m "[]" True "[]"] by simp
  then show ?thesis unfolding m
    using worker coordinator_start_ok(1)[of "coordinator_start sample_sharded_config 0 [''''] None" sample_sharded_config 0
        "['''']" None]
    by (subst shutdown_returns_iff[where n = 1 and turns = "\<lambda>_. [sample_stop]" and flush = "\<lambda>_. flush_state_new 1 0"
        and rt = "\<lambda>_. sample_worker" and err = "\<lambda>_. None" and out = "\<lambda>_. [m]" and idle = "[[]]" and h = "\<lambda>_. 0"
        and lru = sample_cache])
      (auto simp: sample_stop_def stop_turn_def u64_max_def intro!: exI[of _ "[]"])
qed

subsection \<open>Where the chunks of a flow are parsed\<close>

text \<open>One chunk with its packet and observation, and a run over such chunks.\<close>

record chunk_input =
  cki_routed :: routed_packet
  cki_packet :: decoded_packet
  cki_flow :: flow_observation
  cki_tcp :: tcp_observation
  cki_chunk :: stream_chunk

definition input_key :: "chunk_input \<Rightarrow> flow_key" where
  "input_key x = fo_key (cki_flow x)"

definition input_task :: "chunk_input \<Rightarrow> offload_task" where
  "input_task x = task_from_stream_chunk (rtp_raw (cki_routed x)) (cki_flow x) (cki_tcp x) (cki_chunk x)"

fun run_chunks ::
  "pipeline_env \<Rightarrow> (hash_input \<Rightarrow> u64w) \<Rightarrow> 'l placement_cache \<Rightarrow> chunk_input list \<Rightarrow> 'l worker_runtime \<Rightarrow>
   (string + 'l worker_runtime) option" where
  "run_chunks env h ops [] rt = Some (Inr rt)"
| "run_chunks env h ops (x # xs) rt =
     (case process_tcp_stream_chunk env h ops (cki_routed x) (cki_packet x) (cki_flow x) (cki_tcp x) (cki_chunk x) rt of
        None \<Rightarrow> None
      | Some (Inl e) \<Rightarrow> Some (Inl e)
      | Some (Inr rt1) \<Rightarrow> run_chunks env h ops xs rt1)"

fun process_tasks :: "pipeline_env \<Rightarrow> offload_task list \<Rightarrow> stream_worker \<Rightarrow> stream_worker option" where
  "process_tasks env [] w = Some w"
| "process_tasks env (t # ts) w = Option.bind (task_process env t w) (process_tasks env ts)"

text \<open>
  The documented behaviour of the cache: \<open>peek\<close> is what it holds; a lookup finds it and changes nothing; an
  insertion that fits into the capacity adds the pair and loses nothing.
\<close>

definition cache_laws :: "'l placement_cache \<Rightarrow> ('l \<Rightarrow> flow_key \<Rightarrow> flow_placement option) \<Rightarrow> nat \<Rightarrow> bool" where
  "cache_laws ops peek capacity \<longleftrightarrow> (\<forall>k. peek (plo_new ops capacity) k = None)
     \<and> (\<forall>l k. fst (plo_get ops l k) = peek l k \<and> peek (snd (plo_get ops l k)) = peek l)
     \<and> (\<forall>l k v. finite (dom (peek l)) \<and> card (insert k (dom (peek l))) \<le> capacity \<longrightarrow> peek (plo_put ops l k v) = (peek l)(k \<mapsto> v))"

lemma cache_lawsD:
  assumes "cache_laws ops peek capacity"
  shows "peek (plo_new ops capacity) = Map.empty" "plo_get ops l k = (p, l') \<Longrightarrow> p = peek l k \<and> peek l' = peek l"
    "finite (dom (peek l)) \<Longrightarrow> card (insert k (dom (peek l))) \<le> capacity \<Longrightarrow> peek (plo_put ops l k v) = (peek l)(k \<mapsto> v)"
proof -
  show "peek (plo_new ops capacity) = Map.empty" using assms by (simp add: cache_laws_def fun_eq_iff)
  show "p = peek l k \<and> peek l' = peek l" if "plo_get ops l k = (p, l')"
    using assms that unfolding cache_laws_def by (metis fst_conv snd_conv)
  show "peek (plo_put ops l k v) = (peek l)(k \<mapsto> v)"
    if "finite (dom (peek l))" "card (insert k (dom (peek l))) \<le> capacity"
    using assms that unfolding cache_laws_def by blast
qed

lemma task_of_input [simp]: "fo_key (oft_flow (input_task x)) = input_key x"
  by (simp add: input_task_def task_from_stream_chunk_def input_key_def)

lemma chunk_local:
  assumes "plo_get ops (wrt_placement rt) (input_key x) = (Some PlacedLocal, l)"
  shows "process_tcp_stream_chunk env h ops (cki_routed x) (cki_packet x) (cki_flow x) (cki_tcp x) (cki_chunk x) rt
    = process_inline env (input_task x) (rt\<lparr>wrt_placement := l\<rparr>)"
  using assms by (simp add: process_tcp_stream_chunk_def input_task_def input_key_def Let_def)

lemma chunk_dispatched:
  assumes "plo_get ops (wrt_placement rt) (input_key x) = (p, l)" "p \<noteq> Some PlacedLocal"
    and "plo_get ops l (input_key x) = (p2, l2)" "wrt_offload rt = Some handle"
    and "wrt_answers rt (wrt_sends rt) = (answer, sent_later)"
  shows "process_tcp_stream_chunk env h ops (cki_routed x) (cki_packet x) (cki_flow x) (cki_tcp x) (cki_chunk x) rt
    = (case offload_dispatch_task h handle answer sent_later (input_task x) (p2 = Some PlacedOffloaded) of
         Inl e \<Rightarrow> Some (Inl e)
       | Inr outcome \<Rightarrow> after_dispatch env h ops handle (input_key x) (input_task x) outcome
           (rt\<lparr>wrt_placement := l2, wrt_sends := wrt_sends rt + 1\<rparr>))"
  using assms by (auto simp: process_tcp_stream_chunk_def input_task_def input_key_def Let_def
      split: option.split flow_placement.split cong: sum.case_cong)

text \<open>One chunk: the placement of its flow is fixed, and the other flows keep theirs.\<close>

lemma chunk_placed:
  assumes laws: "cache_laws ops peek capacity"
    and fits: "finite (dom (peek (wrt_placement rt)))" "card (insert (input_key x) (dom (peek (wrt_placement rt)))) \<le> capacity"
    and handle: "wrt_offload rt = Some handle" "ofh_policy handle \<noteq> DropPolicy"
    and run: "process_tcp_stream_chunk env h ops (cki_routed x) (cki_packet x) (cki_flow x) (cki_tcp x) (cki_chunk x) rt
      = Some (Inr rt')"
  shows "\<exists>v. peek (wrt_placement rt') = (peek (wrt_placement rt))(input_key x \<mapsto> v)
    \<and> (peek (wrt_placement rt) (input_key x) = None \<or> peek (wrt_placement rt) (input_key x) = Some v)
    \<and> wrt_offload rt' = Some handle
    \<and> (if v = PlacedLocal
       then wrt_sent rt' = wrt_sent rt \<and> task_process env (input_task x) (wrt_stream rt) = Some (wrt_stream rt')
       else wrt_sent rt' = wrt_sent rt @ [(offload_target h handle (input_key x), input_task x)]
         \<and> wrt_stream rt' = wrt_stream rt)"
proof -
  define held where "held = peek (wrt_placement rt)"
  obtain p l where get: "plo_get ops (wrt_placement rt) (input_key x) = (p, l)" by fastforce
  obtain p2 l2 where get2: "plo_get ops l (input_key x) = (p2, l2)" by fastforce
  have peeks: "held (input_key x) = p" "peek l = held" "p2 = p" "peek l2 = held"
    using cache_lawsD(2)[OF laws get] cache_lawsD(2)[OF laws get2] by (auto simp: held_def)
  have put: "peek (plo_put ops l2 (input_key x) v) = held(input_key x \<mapsto> v)" for v
    using cache_lawsD(3)[OF laws, of l2 "input_key x" v] fits peeks(4) by (simp add: held_def)
  obtain answer sent_later where answer: "wrt_answers rt (wrt_sends rt) = (answer, sent_later)" by fastforce
  show ?thesis unfolding held_def[symmetric] peeks(1)
  proof (cases "p = Some PlacedLocal")
    case True
    from run[unfolded chunk_local[OF get[unfolded True]]] peeks handle True
    show "\<exists>v. peek (wrt_placement rt') = held(input_key x \<mapsto> v) \<and> (p = None \<or> p = Some v) \<and> wrt_offload rt' = Some handle
      \<and> (if v = PlacedLocal
         then wrt_sent rt' = wrt_sent rt \<and> task_process env (input_task x) (wrt_stream rt) = Some (wrt_stream rt')
         else wrt_sent rt' = wrt_sent rt @ [(offload_target h handle (input_key x), input_task x)]
           \<and> wrt_stream rt' = wrt_stream rt)"
      by (intro exI[of _ PlacedLocal]) (auto simp: process_inline_def fun_upd_idem)
  next
    case False
    then have p: "p = None \<or> p = Some PlacedOffloaded" by (cases p) (auto intro: flow_placement.exhaust)
    from run[unfolded chunk_dispatched[OF get False get2 handle(1) answer] peeks(3)]
    obtain outcome where
      dispatch: "offload_dispatch_task h handle answer sent_later (input_task x) (p = Some PlacedOffloaded) = Inr outcome"
      and after: "after_dispatch env h ops handle (input_key x) (input_task x) outcome
        (rt\<lparr>wrt_placement := l2, wrt_sends := wrt_sends rt + 1\<rparr>) = Some (Inr rt')"
      by (auto split: sum.splits)
    from dispatch handle(2) consider b where "outcome = Submitted b" | "outcome = InlineTask (input_task x)" "p = None"
      using p by (auto simp: offload_dispatch_task_def dispatch_blocking_def dispatch_inline_def
          split: if_splits backpressure_policy.splits send_answer.splits)
    then show "\<exists>v. peek (wrt_placement rt') = held(input_key x \<mapsto> v) \<and> (p = None \<or> p = Some v) \<and> wrt_offload rt' = Some handle
      \<and> (if v = PlacedLocal
         then wrt_sent rt' = wrt_sent rt \<and> task_process env (input_task x) (wrt_stream rt) = Some (wrt_stream rt')
         else wrt_sent rt' = wrt_sent rt @ [(offload_target h handle (input_key x), input_task x)]
           \<and> wrt_stream rt' = wrt_stream rt)"
    proof cases
      case 1
      with after put p handle(1) show ?thesis
        by (intro exI[of _ PlacedOffloaded]) (auto simp: after_dispatch_def Let_def)
    next
      case 2
      with after put handle(1) show ?thesis
        by (intro exI[of _ PlacedLocal]) (auto simp: after_dispatch_def process_inline_def)
    qed
  qed
qed

text \<open>
  C38. Stream affinity: while the flows fit into the placement cache and the policy does not drop chunks, every
  flow keeps one place for the whole run.  The offload queues receive exactly the chunks of the offloaded
  flows, in order and one worker for each flow; the worker itself parses exactly the chunks of the others,
  in order.  No chunk is lost, and no parser sees a stream with a hole.
\<close>

theorem stream_affinity:
  assumes "cache_laws ops peek (max (fc_max_flows flow_config) 1)" "ofh_policy handle \<noteq> DropPolicy"
    and "card (input_key ` set xs) \<le> max (fc_max_flows flow_config) 1"
    and "rt = worker_runtime_new ops ident config flow_config pattern_config analyzers (Some handle) answers"
    and "run_chunks env h ops xs rt = Some (Inr rt')"
  shows "\<exists>placed. wrt_sent rt' = map (\<lambda>x. (offload_target h handle (input_key x), input_task x))
        (filter (\<lambda>x. placed (input_key x) = PlacedOffloaded) xs)
      \<and> process_tasks env (map input_task (filter (\<lambda>x. placed (input_key x) = PlacedLocal) xs)) (wrt_stream rt)
        = Some (wrt_stream rt')"
proof -
  define capacity where "capacity = max (fc_max_flows flow_config) 1"
  have run: "\<exists>placed. (\<forall>k v. peek (wrt_placement rt) k = Some v \<longrightarrow> placed k = v)
      \<and> wrt_sent rt' = wrt_sent rt @ map (\<lambda>x. (offload_target h handle (input_key x), input_task x))
          (filter (\<lambda>x. placed (input_key x) = PlacedOffloaded) xs)
      \<and> process_tasks env (map input_task (filter (\<lambda>x. placed (input_key x) = PlacedLocal) xs)) (wrt_stream rt)
        = Some (wrt_stream rt')"
    if "finite (dom (peek (wrt_placement rt)))" "wrt_offload rt = Some handle"
      "card (dom (peek (wrt_placement rt)) \<union> input_key ` set xs) \<le> capacity"
      "run_chunks env h ops xs rt = Some (Inr rt')" for rt
    using that
  proof (induction xs arbitrary: rt)
    case Nil
    define placed where "placed = (\<lambda>k. case peek (wrt_placement rt) k of None \<Rightarrow> PlacedLocal | Some v \<Rightarrow> v)"
    with Nil show ?case by (intro exI[of _ placed]) auto
  next
    case (Cons x xs)
    from Cons.prems(4) obtain rt1 where
      x: "process_tcp_stream_chunk env h ops (cki_routed x) (cki_packet x) (cki_flow x) (cki_tcp x) (cki_chunk x) rt
        = Some (Inr rt1)" and xs: "run_chunks env h ops xs rt1 = Some (Inr rt')"
      by (auto split: option.splits sum.splits)
    have "card (insert (input_key x) (dom (peek (wrt_placement rt)))) \<le> capacity"
      by (rule order.trans[OF card_mono Cons.prems(3)]) (use Cons.prems(1) in auto)
    from chunk_placed[OF assms(1)[folded capacity_def] Cons.prems(1) this Cons.prems(2) assms(2) x] obtain v where
      v: "peek (wrt_placement rt1) = (peek (wrt_placement rt))(input_key x \<mapsto> v)"
        "peek (wrt_placement rt) (input_key x) = None \<or> peek (wrt_placement rt) (input_key x) = Some v"
        "wrt_offload rt1 = Some handle"
      and out: "if v = PlacedLocal
        then wrt_sent rt1 = wrt_sent rt \<and> task_process env (input_task x) (wrt_stream rt) = Some (wrt_stream rt1)
        else wrt_sent rt1 = wrt_sent rt @ [(offload_target h handle (input_key x), input_task x)]
          \<and> wrt_stream rt1 = wrt_stream rt" by blast
    have fits: "finite (dom (peek (wrt_placement rt1)))" "card (dom (peek (wrt_placement rt1)) \<union> input_key ` set xs) \<le> capacity"
      using Cons.prems(1,3) by (simp_all add: v(1) insert_absorb)
    obtain placed where placed: "\<forall>k w. peek (wrt_placement rt1) k = Some w \<longrightarrow> placed k = w"
      "wrt_sent rt' = wrt_sent rt1 @ map (\<lambda>x. (offload_target h handle (input_key x), input_task x))
          (filter (\<lambda>x. placed (input_key x) = PlacedOffloaded) xs)"
      "process_tasks env (map input_task (filter (\<lambda>x. placed (input_key x) = PlacedLocal) xs)) (wrt_stream rt1)
        = Some (wrt_stream rt')"
      using Cons.IH[OF fits(1) v(3) fits(2) xs] by blast
    have at: "placed (input_key x) = v" using placed(1) v(1) by simp
    have "\<forall>k w. peek (wrt_placement rt) k = Some w \<longrightarrow> placed k = w"
      using placed(1) v(1,2) by (metis fun_upd_apply option.distinct(1))
    then show ?case using placed(2,3) out at by (intro exI[of _ placed]) (cases v; simp)
  qed
  have new: "peek (wrt_placement rt) = Map.empty" "wrt_offload rt = Some handle" "wrt_sent rt = []"
    using cache_lawsD(1)[OF assms(1)] by (simp_all add: assms(4) worker_runtime_new_def placement_table_new_def)
  show ?thesis using run[of rt] new assms(3,5) by (simp add: capacity_def)
qed

definition sample_chunk :: chunk_input where
  "sample_chunk = (let key = \<lparr>fk_protocol = Tcp, fk_a = \<lparr>ep_addr = V4 (replicate 4 1), ep_port = 80\<rparr>,
         fk_b = \<lparr>ep_addr = V4 (replicate 4 2), ep_port = 5000\<rparr>\<rparr>;
       raw = \<lparr>rp_timestamp = \<lparr>ts_sec = 0, ts_usec = 0\<rparr>, rp_link_layer = RawIp, rp_linktype = 12, rp_data = [1]\<rparr>;
       chunk = \<lparr>ch_direction = AToB, ch_start = 1, ch_end = 2, ch_bytes = Borrowed [7], ch_source = CurrentSegment\<rparr>;
       tcp = \<lparr>to_sequence_number = 1, to_next_sequence = 2, to_ack_number = 0, to_payload_len = 1, to_status = InOrder,
         to_buffered_segments = 0, to_buffered_bytes = 0, to_chunks = [chunk]\<rparr>
     in \<lparr>cki_routed = \<lparr>rtp_raw = raw, rtp_owner_shard = 0, rtp_kind = FlowAffinity, rtp_flow_route = None\<rparr>,
         cki_packet = from_raw (env_slicer sample_env) raw,
         cki_flow = \<lparr>fo_key = key, fo_direction = AToB, fo_packets = 1, fo_bytes = 1, fo_is_new = True, fo_tcp = Some tcp\<rparr>,
         cki_tcp = tcp, cki_chunk = chunk\<rparr>)"

definition sample_offloading :: "(flow_key \<times> flow_placement) list worker_runtime" where
  "sample_offloading = worker_runtime_new sample_cache 0 sample_pipeline_config
     (flow_table_config_new 4 1000 100 4) pattern_disabled [] (Some \<lparr>ofh_workers = 1, ofh_policy = InlinePolicy\<rparr>)
     (\<lambda>n. if n = 0 then (SendOk, True) else (SendFull, True))"

lemma sample_cache_laws: "cache_laws sample_cache map_of n"
  by (simp add: cache_laws_def sample_cache_def)

lemma one_offload_worker: "offload_target h \<lparr>ofh_workers = Suc 0, ofh_policy = p\<rparr> key = 0"
  by (simp add: offload_target_def shard_for_flow_key_def shard_for_hash_def topology_new_def)

lemma sample_offloaded:
  "\<exists>rt. run_chunks sample_env (\<lambda>_. 0) sample_cache [sample_chunk, sample_chunk] sample_offloading = Some (Inr rt)
    \<and> length (wrt_sent rt) = 2"
  by (simp add: chunk_dispatched sample_offloading_def worker_runtime_new_def sample_cache_def offload_dispatch_task_def
      one_offload_worker dispatch_inline_def dispatch_blocking_def after_dispatch_def placement_table_new_def Let_def)

theorem stream_affinity_witness:
  "\<exists>rt placed. run_chunks sample_env (\<lambda>_. 0) sample_cache [sample_chunk, sample_chunk] sample_offloading = Some (Inr rt)
    \<and> wrt_sent rt = map (\<lambda>x. (0, input_task x))
        (filter (\<lambda>x. placed (input_key x) = PlacedOffloaded) [sample_chunk, sample_chunk])"
proof -
  obtain rt where rt: "run_chunks sample_env (\<lambda>_. 0) sample_cache [sample_chunk, sample_chunk] sample_offloading = Some (Inr rt)"
    using sample_offloaded by blast
  have "card (input_key ` set [sample_chunk, sample_chunk]) \<le> max (fc_max_flows (flow_table_config_new 4 1000 100 4)) 1"
    by simp
  from stream_affinity[OF sample_cache_laws _ this sample_offloading_def rt] rt show ?thesis
    by (auto simp: one_offload_worker)
qed

end
