(* ===== verification/Delta_Log.thy ===== *)
theory Delta_Log
  imports Live_Api
begin

text \<open>
  The delta log of \<^verbatim>\<open>src/src/api.rs\<close> as a client sees it that polls with the cursor of its last answer.
\<close>

text \<open>The entry of the \<open>i\<close>-th published payload.\<close>

definition delta_at :: "delta_payload list \<Rightarrow> nat \<Rightarrow> live_delta" where
  "delta_at hist i = \<lparr>ldt_cursor = i + 1, ldt_payload = hist ! i\<rparr>"

definition log_ok :: "delta_payload list \<Rightarrow> live_delta_log \<Rightarrow> bool" where
  "log_ok hist g \<longleftrightarrow> 0 < dlg_capacity g \<and> dlg_next_cursor g = length hist + 1 \<and> dlg_dropped_before g \<le> length hist
     \<and> dlg_entries g = map (delta_at hist) [dlg_dropped_before g..<length hist]
     \<and> length hist - dlg_dropped_before g \<le> dlg_capacity g"

lemma log_ok_new: "log_ok [] (delta_log_new capacity)"
  by (simp add: log_ok_def delta_log_new_def)

lemma dlg_trim_fits: "length ds \<le> capacity \<Longrightarrow> dlg_trim capacity ds db = (ds, db)"
  by (cases ds) simp_all

lemma delta_at_append: "i < length hist \<Longrightarrow> delta_at (hist @ [x]) i = delta_at hist i"
  by (simp add: delta_at_def nth_append)

lemma log_ok_push:
  assumes ok: "log_ok hist g" and small: "length hist + 1 < u64_max"
  shows "log_ok (hist @ [payload]) (dlg_push g payload)"
proof -
  let ?d = "dlg_dropped_before g" and ?n = "length hist"
  let ?all = "map (delta_at (hist @ [payload])) [?d..<?n + 1]"
  have d: "?d \<le> ?n" "dlg_next_cursor g = ?n + 1" "?n - ?d \<le> dlg_capacity g" "0 < dlg_capacity g"
    using ok by (simp_all add: log_ok_def)
  have all: "dlg_entries g @ [\<lparr>ldt_cursor = dlg_next_cursor g, ldt_payload = payload\<rparr>] = ?all"
    using ok d(1) by (auto simp: log_ok_def delta_at_append) (simp add: delta_at_def)
  show ?thesis
  proof (cases "?n + 1 - ?d \<le> dlg_capacity g")
    case True
    then have "dlg_trim (dlg_capacity g) ?all ?d = (?all, ?d)" by (simp add: dlg_trim_fits)
    then show ?thesis using d True small unfolding dlg_push_def all by (simp add: log_ok_def sat_add_exact)
  next
    case False
    then have full: "?n - ?d = dlg_capacity g" "?d < ?n" using d by linarith+
    have cons: "?all = delta_at (hist @ [payload]) ?d # map (delta_at (hist @ [payload])) [?d + 1..<?n + 1]"
      using full(2) by (simp add: upt_conv_Cons)
    have "dlg_trim (dlg_capacity g) ?all ?d = (map (delta_at (hist @ [payload])) [?d + 1..<?n + 1], ?d + 1)"
      unfolding cons using full by (simp add: dlg_trim_fits delta_at_def)
    then show ?thesis using d full small unfolding dlg_push_def all by (simp add: log_ok_def sat_add_exact)
  qed
qed

lemma filter_upt_gt: "filter (\<lambda>i. s \<le> i) [d..<n] = [max s d..<n]"
  by (induction n) (auto simp: max_def)

lemma response_deltas:
  assumes ok: "log_ok hist g" and cursor: "cursor \<le> length hist" and start: "start = max cursor (dlg_dropped_before g)"
    and r: "r = dlg_response g cursor limit status"
  shows "ldr_deltas r = map (delta_at hist) [start..<min (start + limit) (length hist)]"
    "ldr_next_cursor r = min (start + limit) (length hist)"
    "ldr_missed r \<longleftrightarrow> cursor < dlg_dropped_before g" "start \<le> length hist"
proof -
  show le: "start \<le> length hist" using ok cursor by (simp add: start log_ok_def)
  have "filter (\<lambda>d. ldt_cursor d > start) (dlg_entries g) = map (delta_at hist) [start..<length hist]"
    using ok filter_upt_gt[of start "dlg_dropped_before g" "length hist"]
    by (simp add: log_ok_def filter_map comp_def delta_at_def less_Suc_eq_le start max.absorb1)
  then show deltas: "ldr_deltas r = map (delta_at hist) [start..<min (start + limit) (length hist)]"
    by (simp add: r dlg_response_def start[symmetric] Let_def take_map take_upt min_def)
  have "ldr_next_cursor r = (if ldr_deltas r = [] then start else ldt_cursor (last (ldr_deltas r)))"
    by (simp add: r dlg_response_def start[symmetric] Let_def)
  then show "ldr_next_cursor r = min (start + limit) (length hist)"
    using le unfolding deltas by (cases "start < min (start + limit) (length hist)") (auto simp: last_map delta_at_def)
  show "ldr_missed r \<longleftrightarrow> cursor < dlg_dropped_before g" by (simp add: r dlg_response_def Let_def)
qed

subsection \<open>A client that polls\<close>

datatype log_step = PushStep delta_payload | PollStep nat

text \<open>What the client holds: its cursor, the deltas it received, and whether an answer said that it missed some.\<close>

record poll_client =
  pcl_cursor :: nat
  pcl_received :: "live_delta list"
  pcl_missed :: bool

fun poll_run :: "log_step list \<Rightarrow> live_delta_log \<times> poll_client \<Rightarrow> live_delta_log \<times> poll_client" where
  "poll_run [] (g, c) = (g, c)"
| "poll_run (PushStep payload # steps) (g, c) = poll_run steps (dlg_push g payload, c)"
| "poll_run (PollStep limit # steps) (g, c) = (let r = dlg_response g (pcl_cursor c) limit ApiRunning in
     poll_run steps (g, \<lparr>pcl_cursor = ldr_next_cursor r, pcl_received = pcl_received c @ ldr_deltas r,
       pcl_missed = (pcl_missed c \<or> ldr_missed r)\<rparr>))"

fun pushed :: "log_step list \<Rightarrow> delta_payload list" where
  "pushed [] = []"
| "pushed (PushStep payload # steps) = payload # pushed steps"
| "pushed (PollStep limit # steps) = pushed steps"

definition client_ok :: "delta_payload list \<Rightarrow> poll_client \<Rightarrow> bool" where
  "client_ok hist c \<longleftrightarrow> pcl_cursor c \<le> length hist
     \<and> (\<exists>idx. pcl_received c = map (delta_at hist) idx \<and> sorted_wrt (<) idx \<and> (\<forall>i \<in> set idx. i < pcl_cursor c)
          \<and> (\<not> pcl_missed c \<longrightarrow> idx = [0..<pcl_cursor c]))"

definition client_new :: poll_client where
  "client_new = \<lparr>pcl_cursor = 0, pcl_received = [], pcl_missed = False\<rparr>"

lemma client_ok_push: "client_ok hist c \<Longrightarrow> client_ok (hist @ [payload]) c"
proof -
  assume "client_ok hist c"
  then obtain idx where idx: "pcl_cursor c \<le> length hist" "pcl_received c = map (delta_at hist) idx"
    "sorted_wrt (<) idx" "\<forall>i \<in> set idx. i < pcl_cursor c" "\<not> pcl_missed c \<longrightarrow> idx = [0..<pcl_cursor c]"
    by (auto simp: client_ok_def)
  have "map (delta_at hist) idx = map (delta_at (hist @ [payload])) idx"
    using idx(1,4) by (intro map_cong) (auto simp: delta_at_append)
  with idx show ?thesis unfolding client_ok_def by (intro conjI exI[of _ idx]) auto
qed

lemma client_ok_poll:
  assumes ok: "log_ok hist g" and c: "client_ok hist c" and r: "r = dlg_response g (pcl_cursor c) limit status"
  shows "client_ok hist \<lparr>pcl_cursor = ldr_next_cursor r, pcl_received = pcl_received c @ ldr_deltas r,
      pcl_missed = (pcl_missed c \<or> ldr_missed r)\<rparr>"
    "pcl_cursor c \<le> ldr_next_cursor r" "dlg_capacity g \<le> limit \<Longrightarrow> ldr_next_cursor r = length hist"
proof -
  define start where "start = max (pcl_cursor c) (dlg_dropped_before g)"
  obtain idx where idx: "pcl_cursor c \<le> length hist" "pcl_received c = map (delta_at hist) idx"
    "sorted_wrt (<) idx" "\<forall>i \<in> set idx. i < pcl_cursor c" "\<not> pcl_missed c \<longrightarrow> idx = [0..<pcl_cursor c]"
    using c by (auto simp: client_ok_def)
  note resp = response_deltas[OF ok idx(1) start_def r]
  let ?e = "min (start + limit) (length hist)"
  have less: "i < start" if "i \<in> set idx" for i using idx(4) that by (auto simp: start_def)
  have sorted: "sorted_wrt (<) (idx @ [start..<?e])" unfolding sorted_wrt_append using idx(3) by (auto dest!: less)
  have below: "\<forall>i \<in> set (idx @ [start..<?e]). i < ?e" using resp(4) by (auto dest!: less)
  have whole: "idx @ [start..<?e] = [0..<?e]" if "\<not> pcl_missed c" "\<not> ldr_missed r"
  proof -
    have "start = pcl_cursor c" using that(2) resp(3) by (simp add: start_def)
    moreover have "start \<le> ?e" using resp(4) by simp
    ultimately show ?thesis using idx(5) that(1) upt_add_eq_append[of 0 start "?e - start"] by simp
  qed
  show "client_ok hist \<lparr>pcl_cursor = ldr_next_cursor r, pcl_received = pcl_received c @ ldr_deltas r,
      pcl_missed = (pcl_missed c \<or> ldr_missed r)\<rparr>"
    unfolding client_ok_def poll_client.simps resp(2)
  proof (intro conjI exI[of _ "idx @ [start..<?e]"] impI)
    show "?e \<le> length hist" by simp
    show "pcl_received c @ ldr_deltas r = map (delta_at hist) (idx @ [start..<?e])" unfolding resp(1) idx(2) by simp
    show "sorted_wrt (<) (idx @ [start..<?e])" by (rule sorted)
    show "\<forall>i \<in> set (idx @ [start..<?e]). i < ?e" by (rule below)
    show "idx @ [start..<?e] = [0..<?e]" if "\<not> (pcl_missed c \<or> ldr_missed r)" using that whole by blast
  qed
  show "pcl_cursor c \<le> ldr_next_cursor r" using resp(2,4) by (simp add: start_def)
  show "ldr_next_cursor r = length hist" if "dlg_capacity g \<le> limit"
    using that ok resp(2) by (auto simp: log_ok_def start_def)
qed

lemma poll_run_ok:
  "log_ok hist g \<Longrightarrow> client_ok hist c \<Longrightarrow> length hist + length (pushed steps) < u64_max \<Longrightarrow> poll_run steps (g, c) = (g', c') \<Longrightarrow>
   log_ok (hist @ pushed steps) g' \<and> client_ok (hist @ pushed steps) c' \<and> dlg_capacity g' = dlg_capacity g"
proof (induction steps arbitrary: hist g c)
  case (Cons s steps)
  show ?case
  proof (cases s)
    case (PushStep payload)
    have cap: "dlg_capacity (dlg_push g payload) = dlg_capacity g" by (simp add: dlg_push_def split: prod.split)
    have "log_ok (hist @ [payload]) (dlg_push g payload)"
      using Cons.prems(1,3) PushStep by (intro log_ok_push) simp_all
    from Cons.IH[OF this client_ok_push[OF Cons.prems(2)]] Cons.prems(3,4) PushStep cap show ?thesis by simp
  next
    case (PollStep limit)
    from Cons.IH[OF Cons.prems(1) client_ok_poll(1)[OF Cons.prems(1,2) refl]] Cons.prems(3,4) PollStep
    show ?thesis by (simp add: Let_def)
  qed
qed simp

lemma poll_run_append: "poll_run (xs @ ys) s = poll_run ys (poll_run xs s)"
proof (induction xs arbitrary: s)
  case Nil
  then show ?case by (cases s) simp
next
  case (Cons x xs)
  then show ?case by (cases s; cases x) (simp_all add: Let_def)
qed

lemma take_map_nth: "n \<le> length xs \<Longrightarrow> take n xs = map (\<lambda>i. xs ! i) [0..<n]"
  by (rule nth_equalityI) simp_all

text \<open>
  C29. Polling: whatever the order in which deltas are published and a client polls with the cursor of its last
  answer, it receives deltas in the order of publication and each at most once, with the payload that was
  published under that cursor; while no answer reports missed deltas, it has received exactly the first
  \<open>cursor\<close> of them; and a poll whose limit covers the capacity of the log brings it up to date.
\<close>

theorem polling_misses_nothing_silently:
  assumes "poll_run (steps @ [PollStep limit]) (delta_log_new capacity, client_new) = (g, c)"
    and "length (pushed steps) < u64_max"
  shows "sorted_wrt (<) (map ldt_cursor (pcl_received c))
    \<and> (\<forall>d \<in> set (pcl_received c). 0 < ldt_cursor d \<and> ldt_cursor d \<le> length (pushed steps)
         \<and> ldt_payload d = pushed steps ! (ldt_cursor d - 1))
    \<and> (\<not> pcl_missed c \<longrightarrow> map ldt_payload (pcl_received c) = take (pcl_cursor c) (pushed steps))
    \<and> (max capacity 1 \<le> limit \<longrightarrow> pcl_cursor c = length (pushed steps))
    \<and> length (dlg_entries g) \<le> max capacity 1"
proof -
  let ?hist = "pushed steps"
  obtain g1 c1 where run: "poll_run steps (delta_log_new capacity, client_new) = (g1, c1)" by fastforce
  have "client_ok [] client_new" by (simp add: client_ok_def client_new_def)
  from poll_run_ok[OF log_ok_new this _ run] assms(2) have
    ok: "log_ok ?hist g1" "client_ok ?hist c1" "dlg_capacity g1 = max capacity 1"
    by (simp_all add: delta_log_new_def)
  define r where "r = dlg_response g1 (pcl_cursor c1) limit ApiRunning"
  have gc: "g = g1" "c = \<lparr>pcl_cursor = ldr_next_cursor r, pcl_received = pcl_received c1 @ ldr_deltas r,
      pcl_missed = (pcl_missed c1 \<or> ldr_missed r)\<rparr>"
    using assms(1) by (auto simp: poll_run_append run r_def Let_def)
  note polled = client_ok_poll[OF ok(1,2) r_def]
  have "client_ok ?hist c" using polled(1) by (simp only: gc(2))
  then obtain idx where idx: "pcl_cursor c \<le> length ?hist" "pcl_received c = map (delta_at ?hist) idx"
    "sorted_wrt (<) idx" "\<forall>i \<in> set idx. i < pcl_cursor c" "\<not> pcl_missed c \<longrightarrow> idx = [0..<pcl_cursor c]"
    by (auto simp: client_ok_def)
  have "map ldt_cursor (pcl_received c) = map Suc idx" by (simp add: idx(2) delta_at_def)
  then have "sorted_wrt (<) (map ldt_cursor (pcl_received c))" using idx(3) by (simp add: sorted_wrt_map)
  moreover have "\<forall>d \<in> set (pcl_received c). 0 < ldt_cursor d \<and> ldt_cursor d \<le> length ?hist
      \<and> ldt_payload d = ?hist ! (ldt_cursor d - 1)"
    using idx(1,4) by (fastforce simp: idx(2) delta_at_def)
  moreover have "map ldt_payload (pcl_received c) = take (pcl_cursor c) ?hist" if "\<not> pcl_missed c"
  proof -
    have "map ldt_payload (pcl_received c) = map (\<lambda>i. ?hist ! i) [0..<pcl_cursor c]"
      using idx(5) that by (simp add: idx(2) delta_at_def)
    then show ?thesis using idx(1) by (simp add: take_map_nth)
  qed
  moreover have "pcl_cursor c = length ?hist" if "max capacity 1 \<le> limit"
    using polled(3) that ok(3) by (simp add: gc(2))
  moreover have "length (dlg_entries g) \<le> max capacity 1" using ok(1,3) by (simp add: gc(1) log_ok_def)
  ultimately show ?thesis by blast
qed

theorem polling_misses_nothing_silently_witness:
  "map ldt_payload (pcl_received (snd (poll_run ([PushStep (MatchesDelta []), PollStep 5, PushStep (StreamsDelta [])] @ [PollStep 5])
     (delta_log_new 4, client_new)))) = [MatchesDelta [], StreamsDelta []]"
proof -
  let ?steps = "[PushStep (MatchesDelta []), PollStep 5, PushStep (StreamsDelta [])]"
  obtain g c where run: "poll_run (?steps @ [PollStep 5]) (delta_log_new 4, client_new) = (g, c)" by fastforce
  have "\<not> pcl_missed c" using run
    by (auto simp: delta_log_new_def client_new_def dlg_push_def dlg_response_def sat_add_def u64_max_def Let_def)
  with polling_misses_nothing_silently[OF run] have "map ldt_payload (pcl_received c) = take 2 (pushed ?steps)"
    by (simp add: u64_max_def numeral_2_eq_2)
  then show ?thesis using run by (simp del: poll_run.simps append.simps)
qed

end
