(* ===== verification/Spec2Isabelle.thy ===== *)
theory Spec2Isabelle
  imports Flow_Table Content_Correctness Shard_Correctness Message_Store Http1_Correctness Message_Analyzer View_Correctness Transform_Correctness Stream_Parser
    Analyzers Health_Correctness Api_Handlers Pipeline_Correctness Sharded_Correctness Delta_Log
begin

text \<open>
  Verification library for rustmate.
\<close>

end
